(* ===== verification/Prelude.thy ===== *)
theory Prelude
  imports Complex_Main "HOL-Library.Multiset" "HOL-Library.Product_Lexorder"
    "HOL-Library.List_Lexorder" "HOL-Library.Char_ord"
begin

text \<open>
  Shared vocabulary of the development: results (an exception or a value), tables of rows
  as lists in insertion order, and the generic lemmas on lists, sums and sorting that the
  component theories share. Texts of exceptions are given without accents.
\<close>

named_theorems res_simps \<open>unfolding of results and their sequencing\<close>
named_theorems table_simps \<open>lookup and update of table rows\<close>

section \<open>Results: a value or the exception that was raised\<close>

datatype exn =
    ValueError string
  | TypeError string
  | LookupError string
  | RuntimeError string
  | AssertionError string
  | ZeroDivisionError
  | NoResultFound
  | MultipleResultsFound
  | IntegrityError string
  | ClosingContractGap string string
  | SchedulerLeaseLost string
  | PaymentEventEvidenceError string
  | UnsupportedPaymentEventVersion string
  | CycleParticipationError string
  | CycleFoundationError string

type_synonym 'a res = "exn + 'a"

definition res_bind :: "'a res \<Rightarrow> ('a \<Rightarrow> 'b res) \<Rightarrow> 'b res" where
  "res_bind m f = (case m of Inl e \<Rightarrow> Inl e | Inr x \<Rightarrow> f x)"

definition check :: "bool \<Rightarrow> exn \<Rightarrow> unit res" where
  "check ok e = (if ok then Inr () else Inl e)"

lemma res_bind_Inr [simp, res_simps]: "res_bind (Inr x) f = f x"
  by (simp add: res_bind_def)

lemma res_bind_Inl [simp, res_simps]: "res_bind (Inl e) f = Inl e"
  by (simp add: res_bind_def)

lemma check_True [simp, res_simps]: "check True e = Inr ()"
  by (simp add: check_def)

lemma check_False [simp, res_simps]: "check False e = Inl e"
  by (simp add: check_def)

lemma res_bind_eq_Inr [res_simps]:
  "res_bind m f = Inr y \<longleftrightarrow> (\<exists>x. m = Inr x \<and> f x = Inr y)"
  by (cases m) (auto simp: res_bind_def)

lemma res_bind_eq_Inl:
  "res_bind m f = Inl e \<longleftrightarrow> m = Inl e \<or> (\<exists>x. m = Inr x \<and> f x = Inl e)"
  by (cases m) (auto simp: res_bind_def)

lemma check_eq_Inr [simp, res_simps]: "check c e = Inr u \<longleftrightarrow> c"
  by (cases u) (simp add: check_def)

lemma check_eq_Inl [simp, res_simps]: "check c e = Inl e' \<longleftrightarrow> \<not> c \<and> e' = e"
  by (auto simp: check_def)

lemma succeeds: "(case x of Inl _ \<Rightarrow> False | Inr y \<Rightarrow> P y) \<Longrightarrow> \<exists>y. x = Inr y \<and> P y"
  by (cases x) simp_all

text \<open>Taking a run that returned apart, one step at a time.\<close>

named_theorems res_elims \<open>inversion of a run that returned\<close>

lemma res_bind_InrE [res_elims]:
  "res_bind m f = Inr y \<Longrightarrow> (\<And>x. m = Inr x \<Longrightarrow> f x = Inr y \<Longrightarrow> P) \<Longrightarrow> P"
  by (auto simp: res_bind_eq_Inr)

lemma if_Inl_InrE [res_elims]:
  "(if c then Inl e else r) = Inr y \<Longrightarrow> (\<not> c \<Longrightarrow> r = Inr y \<Longrightarrow> P) \<Longrightarrow> P"
  by (auto split: if_splits)

lemma check_InrE [res_elims]: "check c e = Inr u \<Longrightarrow> (c \<Longrightarrow> P) \<Longrightarrow> P"
  by simp

text \<open>A loop whose body may raise: the first exception stops it.\<close>

fun fold_res :: "('a \<Rightarrow> 's \<Rightarrow> 's res) \<Rightarrow> 'a list \<Rightarrow> 's \<Rightarrow> 's res" where
  "fold_res f [] s = Inr s"
| "fold_res f (x # xs) s = res_bind (f x s) (fold_res f xs)"

fun map_res :: "('a \<Rightarrow> 'b res) \<Rightarrow> 'a list \<Rightarrow> 'b list res" where
  "map_res f [] = Inr []"
| "map_res f (x # xs) = res_bind (f x) (\<lambda>y. res_bind (map_res f xs) (\<lambda>ys. Inr (y # ys)))"

lemma fold_res_invariant:
  assumes "fold_res f xs s = Inr t" and "I s"
    and "\<And>x u v. x \<in> set xs \<Longrightarrow> I u \<Longrightarrow> f x u = Inr v \<Longrightarrow> I v"
  shows "I t"
  using assms
proof (induction xs arbitrary: s)
  case Nil
  then show ?case by simp
next
  case (Cons x xs)
  then obtain u where "f x s = Inr u" "fold_res f xs u = Inr t"
    by (auto simp: res_bind_eq_Inr)
  moreover from this Cons.prems have "I u" by auto
  ultimately show ?case using Cons.IH Cons.prems(3) by auto
qed

lemma fold_res_append:
  "fold_res f (xs @ ys) s = res_bind (fold_res f xs s) (fold_res f ys)"
  by (induction xs arbitrary: s) (auto simp: res_bind_def split: sum.splits)

lemma map_res_length: "map_res f xs = Inr ys \<Longrightarrow> length ys = length xs"
  by (induction xs arbitrary: ys) (auto simp: res_bind_eq_Inr)

lemma map_res_list_all2: "map_res f xs = Inr ys \<longleftrightarrow> list_all2 (\<lambda>x y. f x = Inr y) xs ys"
  by (induction xs arbitrary: ys) (auto simp: res_bind_eq_Inr list_all2_Cons1)

text \<open>Internal assertions of the code: a computation that cannot fail one.\<close>

definition never_asserts :: "'a res \<Rightarrow> bool" where
  "never_asserts r \<longleftrightarrow> (\<forall>msg. r \<noteq> Inl (AssertionError msg))"

named_theorems never_asserts_intros \<open>computations without a failing assertion\<close>

lemma never_asserts_Inr [simp, never_asserts_intros]: "never_asserts (Inr x)"
  by (simp add: never_asserts_def)

lemma never_asserts_Inl [simp]: "never_asserts (Inl e) \<longleftrightarrow> (\<forall>msg. e \<noteq> AssertionError msg)"
  by (auto simp: never_asserts_def)

lemma never_asserts_bind [never_asserts_intros]:
  "never_asserts m \<Longrightarrow> (\<And>x. m = Inr x \<Longrightarrow> never_asserts (f x)) \<Longrightarrow> never_asserts (res_bind m f)"
  by (cases m) auto

lemma never_asserts_if [never_asserts_intros]:
  "(c \<Longrightarrow> never_asserts a) \<Longrightarrow> (\<not> c \<Longrightarrow> never_asserts b) \<Longrightarrow> never_asserts (if c then a else b)"
  by simp

lemma never_asserts_fold [never_asserts_intros]:
  "(\<And>x s. x \<in> set xs \<Longrightarrow> never_asserts (f x s)) \<Longrightarrow> never_asserts (fold_res f xs s)"
  by (induction xs arbitrary: s) (auto intro: never_asserts_bind)

lemma never_asserts_map [never_asserts_intros]:
  "(\<And>x. x \<in> set xs \<Longrightarrow> never_asserts (f x)) \<Longrightarrow> never_asserts (map_res f xs)"
  by (induction xs) (auto intro!: never_asserts_bind)

section \<open>Tables: rows in insertion order, keyed by their id\<close>

text \<open>
  A database table is the list of its rows in insertion order. \<open>get_by\<close> is
  \<open>Session.get\<close>, \<open>put_by\<close> writes a changed row back, \<open>next_id\<close> is the autoincrement key.
\<close>

definition get_by :: "('r \<Rightarrow> int) \<Rightarrow> int \<Rightarrow> 'r list \<Rightarrow> 'r option" where
  "get_by k i rows = find (\<lambda>r. k r = i) rows"

definition put_by :: "('r \<Rightarrow> int) \<Rightarrow> 'r \<Rightarrow> 'r list \<Rightarrow> 'r list" where
  "put_by k r rows = map (\<lambda>x. if k x = k r then r else x) rows"

definition next_id :: "('r \<Rightarrow> int) \<Rightarrow> 'r list \<Rightarrow> int" where
  "next_id k rows = fold (\<lambda>r m. max m (k r)) rows 0 + 1"

definition last_opt :: "'a list \<Rightarrow> 'a option" where
  "last_opt xs = (if xs = [] then None else Some (last xs))"

definition head_opt :: "'a list \<Rightarrow> 'a option" where
  "head_opt xs = (case xs of [] \<Rightarrow> None | x # _ \<Rightarrow> Some x)"

text \<open>Membership of a nullable value.\<close>

definition opt_in :: "'a option \<Rightarrow> 'a set \<Rightarrow> bool" where
  "opt_in x A = (case x of None \<Rightarrow> False | Some a \<Rightarrow> a \<in> A)"

lemma opt_in_simps [simp]: "\<not> opt_in None A" "opt_in (Some a) A \<longleftrightarrow> a \<in> A"
  by (simp_all add: opt_in_def)

text \<open>\<open>Query.one_or_none\<close>: more than one row raises.\<close>

definition one_or_none :: "'a list \<Rightarrow> 'a option res" where
  "one_or_none xs = (case xs of [] \<Rightarrow> Inr None | [x] \<Rightarrow> Inr (Some x) | _ \<Rightarrow> Inl MultipleResultsFound)"

definition one_row :: "'a list \<Rightarrow> 'a res" where
  "one_row xs = (case xs of [] \<Rightarrow> Inl NoResultFound | [x] \<Rightarrow> Inr x | _ \<Rightarrow> Inl MultipleResultsFound)"

lemma get_by_Nil [simp, table_simps]: "get_by k i [] = None"
  by (simp add: get_by_def)

lemma get_by_Cons [simp, table_simps]:
  "get_by k i (r # rs) = (if k r = i then Some r else get_by k i rs)"
  by (simp add: get_by_def)

lemma get_by_Some_mem: "get_by k i rows = Some r \<Longrightarrow> r \<in> set rows \<and> k r = i"
  by (induction rows) (auto split: if_splits)

lemma get_by_None_iff: "get_by k i rows = None \<longleftrightarrow> (\<forall>r\<in>set rows. k r \<noteq> i)"
  by (induction rows) auto

lemma get_by_append [table_simps]:
  "get_by k i (xs @ ys) = (case get_by k i xs of None \<Rightarrow> get_by k i ys | Some r \<Rightarrow> Some r)"
  by (induction xs) auto

lemma get_by_put_same [table_simps]:
  "get_by k (k r) rows \<noteq> None \<Longrightarrow> get_by k (k r) (put_by k r rows) = Some r"
  by (induction rows) (auto simp: put_by_def)

lemma get_by_put_other [table_simps]:
  "i \<noteq> k r \<Longrightarrow> get_by k i (put_by k r rows) = get_by k i rows"
  by (induction rows) (auto simp: put_by_def)

lemma put_by_keys [simp, table_simps]: "map k (put_by k r rows) = map k rows"
  by (induction rows) (auto simp: put_by_def)

lemma length_put_by [simp, table_simps]: "length (put_by k r rows) = length rows"
  by (simp add: put_by_def)

lemma set_put_by_subset: "set (put_by k r rows) \<subseteq> insert r (set rows)"
  by (auto simp: put_by_def)

lemma fold_max_ge: "(m::int) \<le> fold (\<lambda>r m. max m (k r)) rows m"
  by (induction rows arbitrary: m) (auto intro: order_trans [OF max.cobounded1])

lemma fold_max_mem: "r \<in> set rows \<Longrightarrow> k r \<le> fold (\<lambda>r m. max m (k r)) rows (m::int)"
proof (induction rows arbitrary: m)
  case Nil
  then show ?case by simp
next
  case (Cons x rows)
  then show ?case
    using fold_max_ge [of "max m (k x)" k rows] by auto
qed

lemma next_id_fresh: "r \<in> set rows \<Longrightarrow> k r < next_id k rows"
  using fold_max_mem [of r rows k 0] by (auto simp: next_id_def)

lemma next_id_pos: "0 < next_id k rows"
  using fold_max_ge [of 0 k rows] by (simp add: next_id_def)

lemma distinct_append_next_id:
  "distinct (map k rows) \<Longrightarrow> k r = next_id k rows \<Longrightarrow> distinct (map k (rows @ [r]))"
  using next_id_fresh [of _ rows k] by force

lemma last_opt_append [simp]: "last_opt (xs @ [x]) = Some x"
  by (simp add: last_opt_def)

section \<open>Lists and sums\<close>

lemma sum_list_nonneg_int: "(\<And>x. x \<in> set xs \<Longrightarrow> 0 \<le> f x) \<Longrightarrow> 0 \<le> (\<Sum>x\<leftarrow>xs. f x :: int)"
  by (induction xs) auto

lemma sum_list_le_int:
  "(\<And>x. x \<in> set xs \<Longrightarrow> f x \<le> g x) \<Longrightarrow> (\<Sum>x\<leftarrow>xs. f x :: int) \<le> (\<Sum>x\<leftarrow>xs. g x)"
  by (induction xs) (auto intro: add_mono)

lemma sum_list_map_sort_key [simp]:
  "(\<Sum>x\<leftarrow>sort_key k xs. f x :: 'a :: comm_monoid_add) = (\<Sum>x\<leftarrow>xs. f x)"
  by (metis mset_map mset_sort sum_mset_sum_list)

lemma sort_key_perm_eq:
  "mset xs = mset ys \<Longrightarrow> inj_on k (set xs) \<Longrightarrow> sort_key k xs = sort_key k ys"
  by (rule sort_key_inj_key_eq) auto

lemma distinct_map_sort_key [simp]: "distinct (map f (sort_key k xs)) = distinct (map f xs)"
  by (metis mset_map mset_sort mset_eq_imp_distinct_iff)

lemma sort_key_snoc_max:
  assumes "\<And>x. x \<in> set xs \<Longrightarrow> k x < (k y :: int)"
  shows "sort_key k (xs @ [y]) = sort_key k xs @ [y]"
proof (rule properties_for_sort_key)
  show "mset (sort_key k xs @ [y]) = mset (xs @ [y])" by simp
  show "sorted (map k (sort_key k xs @ [y]))"
    using assms by (auto simp: sorted_append less_imp_le)
  fix z assume "z \<in> set (sort_key k xs @ [y])"
  show "filter (\<lambda>x. k z = k x) (sort_key k xs @ [y]) = filter (\<lambda>x. k z = k x) (xs @ [y])"
    using sort_key_stable [of k "k z" xs] by (simp add: eq_commute [of "k z"])
qed

lemma find_append:
  "find P (xs @ ys) = (case find P xs of None \<Rightarrow> find P ys | Some x \<Rightarrow> Some x)"
  by (induction xs) auto

lemma find_Some_prop: "find P xs = Some x \<Longrightarrow> x \<in> set xs \<and> P x"
  by (induction xs) (auto split: if_splits)

end
