(* ===== verification/Decimal_Arith.thy ===== *)
theory Decimal_Arith
  imports Prelude
begin

text \<open>
  Python's \<open>decimal\<close> as the program uses it. A \<open>Decimal\<close> is its value, a rational. An
  arithmetic operation computes the exact result and rounds it to the precision of the
  context with ROUND_HALF_EVEN (\<open>ctx\<close>; 28 digits by default, 50 or 60 inside the program's
  \<open>localcontext\<close> blocks). \<open>quantize(Decimal("0.01"), ROUND_HALF_UP)\<close> gives an integral
  number of cents, so amounts that have been quantized, and the columns of type
  \<open>Numeric(_, 2)\<close>, are integers: their number of cents. \<open>cents\<close> is \<open>quantize\<close>, \<open>dec\<close> the
  way back. Sums and differences of cents are exact: \<open>ctx_cents_exact\<close> shows that the
  context cannot round an amount below \<open>10^26\<close> reais.
\<close>

named_theorems cents_simps \<open>quantization of amounts\<close>

type_synonym decimal = rat
type_synonym cents = int

section \<open>Rounding to an integer\<close>

definition round_half_up :: "rat \<Rightarrow> int" where
  "round_half_up x = (if 0 \<le> x then \<lfloor>x + 1 / 2\<rfloor> else - \<lfloor>1 / 2 - x\<rfloor>)"

definition round_half_even :: "rat \<Rightarrow> int" where
  "round_half_even x =
     (let n = \<lfloor>x\<rfloor>; f = x - of_int n
      in if f < 1 / 2 then n else if 1 / 2 < f then n + 1 else if even n then n else n + 1)"

definition round_down :: "rat \<Rightarrow> int" where
  "round_down x = (if 0 \<le> x then \<lfloor>x\<rfloor> else - \<lfloor>- x\<rfloor>)"

section \<open>The context: rounding to a number of significant digits\<close>

fun ndigits :: "nat \<Rightarrow> nat" where
  "ndigits n = (if n < 10 then 1 else Suc (ndigits (n div 10)))"

declare ndigits.simps [simp del]

definition adjusted :: "rat \<Rightarrow> int" where
  \<comment> \<open>the exponent of the first significant digit of a positive number\<close>
  "adjusted x =
     (let (n, d) = quotient_of x; k = int (ndigits (nat n)) - int (ndigits (nat d))
      in if 10 powi k \<le> x then k else k - 1)"

definition ctx :: "nat \<Rightarrow> rat \<Rightarrow> decimal" where
  "ctx p x =
     (if x = 0 then 0
      else let q = 10 powi (adjusted \<bar>x\<bar> - int p + 1)
           in of_int (round_half_even (x / q)) * q)"

definition cents :: "decimal \<Rightarrow> cents" where
  "cents x = round_half_up (x * 100)"

definition dec :: "cents \<Rightarrow> decimal" where
  "dec c = of_int c / 100"

definition dmul :: "nat \<Rightarrow> decimal \<Rightarrow> decimal \<Rightarrow> decimal" where
  "dmul p x y = ctx p (x * y)"

definition dadd :: "nat \<Rightarrow> decimal \<Rightarrow> decimal \<Rightarrow> decimal" where
  "dadd p x y = ctx p (x + y)"

definition dsub :: "nat \<Rightarrow> decimal \<Rightarrow> decimal \<Rightarrow> decimal" where
  "dsub p x y = ctx p (x - y)"

definition ddiv :: "nat \<Rightarrow> decimal \<Rightarrow> decimal \<Rightarrow> decimal res" where
  "ddiv p x y = (if y = 0 then Inl ZeroDivisionError else Inr (ctx p (x / y)))"

section \<open>Facts on rounding to an integer\<close>

lemma round_half_up_of_int [simp, cents_simps]: "round_half_up (of_int n) = n"
proof -
  have "\<lfloor>(of_int n :: rat) + 1 / 2\<rfloor> = n" by (simp add: floor_eq_iff)
  moreover have "\<lfloor>1 / 2 - (of_int n :: rat)\<rfloor> = - n" by (simp add: floor_eq_iff)
  ultimately show ?thesis by (simp add: round_half_up_def)
qed

lemma round_half_up_0 [simp, cents_simps]: "round_half_up 0 = 0"
  using round_half_up_of_int [of 0] by simp

lemma round_half_up_error: "\<bar>of_int (round_half_up x) - x\<bar> \<le> 1 / 2"
proof (cases "0 \<le> x")
  case True
  then show ?thesis
    using floor_correct [of "x + 1/2"] unfolding round_half_up_def abs_le_iff by simp linarith
next
  case False
  then show ?thesis
    using floor_correct [of "1/2 - x"] unfolding round_half_up_def abs_le_iff by simp linarith
qed

lemma round_half_up_nonneg: "0 \<le> x \<Longrightarrow> 0 \<le> round_half_up x"
  by (simp add: round_half_up_def)

lemma round_half_up_nonpos: "x \<le> 0 \<Longrightarrow> round_half_up x \<le> 0"
  by (auto simp: round_half_up_def)

lemma round_half_up_mono: "x \<le> y \<Longrightarrow> round_half_up x \<le> round_half_up y"
proof (cases "0 \<le> x \<or> y < 0")
  case True
  assume "x \<le> y"
  with True show ?thesis
    by (auto simp: round_half_up_def intro: floor_mono)
next
  case False
  then show ?thesis
    using round_half_up_nonneg [of y] round_half_up_nonpos [of x] by simp
qed

lemma round_half_up_minus: "round_half_up (- x) = - round_half_up x"
proof (cases x "0::rat" rule: linorder_cases)
  case equal
  have "\<lfloor>1 / 2 :: rat\<rfloor> = 0" by (simp add: floor_eq_iff)
  with equal show ?thesis by (simp add: round_half_up_def)
qed (simp_all add: round_half_up_def add.commute)

lemma round_half_even_of_int [simp]: "round_half_even (of_int n) = n"
  by (simp add: round_half_even_def)

lemma round_half_even_error: "\<bar>of_int (round_half_even x) - x\<bar> \<le> 1 / 2"
  unfolding round_half_even_def Let_def
  using floor_correct [of x] by (auto simp: abs_le_iff)

lemma round_half_even_mono:
  assumes "x \<le> y"
  shows "round_half_even x \<le> round_half_even y"
proof (cases "\<lfloor>x\<rfloor> = \<lfloor>y\<rfloor>")
  case True
  with assms show ?thesis by (auto simp: round_half_even_def Let_def)
next
  case False
  with assms have "\<lfloor>x\<rfloor> + 1 \<le> \<lfloor>y\<rfloor>" using floor_mono [of x y] by simp
  moreover have "round_half_even x \<le> \<lfloor>x\<rfloor> + 1" "\<lfloor>y\<rfloor> \<le> round_half_even y"
    by (auto simp: round_half_even_def Let_def)
  ultimately show ?thesis by linarith
qed

lemma round_down_of_int [simp]: "round_down (of_int n) = n"
  by (simp add: round_down_def)

lemma round_down_nonneg: "0 \<le> x \<Longrightarrow> round_down x = \<lfloor>x\<rfloor>"
  by (simp add: round_down_def)

section \<open>Facts on quantization\<close>

lemma cents_dec [simp, cents_simps]: "cents (dec c) = c"
  by (simp add: cents_def dec_def)

lemma dec_0 [simp, cents_simps]: "dec 0 = 0"
  by (simp add: dec_def)

lemma cents_0 [simp, cents_simps]: "cents 0 = 0"
  by (simp add: cents_def)

lemma dec_le_iff [simp, cents_simps]: "dec a \<le> dec b \<longleftrightarrow> a \<le> b"
  by (simp add: dec_def divide_le_cancel)

lemma dec_less_iff [simp, cents_simps]: "dec a < dec b \<longleftrightarrow> a < b"
  by (simp add: dec_def divide_less_cancel)

lemma dec_eq_iff [simp, cents_simps]: "dec a = dec b \<longleftrightarrow> a = b"
  by (simp add: dec_def)

lemma dec_nonneg [simp, cents_simps]: "0 \<le> dec a \<longleftrightarrow> 0 \<le> a"
  by (simp add: dec_def)

lemma dec_pos [simp, cents_simps]: "0 < dec a \<longleftrightarrow> 0 < a"
  by (simp add: dec_def)

lemma dec_nonpos [simp, cents_simps]: "dec a \<le> 0 \<longleftrightarrow> a \<le> 0"
  by (simp add: dec_def)

lemma dec_add: "dec (a + b) = dec a + dec b"
  by (simp add: dec_def add_divide_distrib)

lemma dec_diff: "dec (a - b) = dec a - dec b"
  by (simp add: dec_def diff_divide_distrib)

lemma cents_mono: "x \<le> y \<Longrightarrow> cents x \<le> cents y"
  by (auto simp: cents_def intro: round_half_up_mono)

lemma cents_nonneg: "0 \<le> x \<Longrightarrow> 0 \<le> cents x"
  by (simp add: cents_def round_half_up_nonneg)

lemma cents_error: "\<bar>dec (cents x) - x\<bar> \<le> 1 / 200"
proof -
  have "\<bar>of_int (round_half_up (x * 100)) - x * 100\<bar> \<le> 1 / 2"
    by (rule round_half_up_error)
  then show ?thesis by (simp add: dec_def cents_def abs_le_iff field_simps)
qed

section \<open>Facts on the context\<close>

lemma ndigits_bounds: "(0 < n \<longrightarrow> 10 ^ (ndigits n - 1) \<le> n) \<and> n < 10 ^ ndigits n \<and> 0 < ndigits n"
proof (induction n rule: ndigits.induct)
  case (1 n)
  show ?case
  proof (cases "n < 10")
    case True
    then show ?thesis by (auto simp: ndigits.simps [of n])
  next
    case False
    let ?m = "ndigits (n div 10)"
    from False 1 have IH: "10 ^ (?m - 1) \<le> n div 10" "n div 10 < 10 ^ ?m" "0 < ?m"
      by auto
    have d: "ndigits n = Suc ?m" using False by (simp add: ndigits.simps [of n])
    have "10 * 10 ^ (?m - 1) \<le> n" using IH(1) by linarith
    moreover have "10 * 10 ^ (?m - 1) = (10::nat) ^ ?m"
      using IH(3) by (metis Suc_pred' power_Suc)
    moreover have "n < 10 * 10 ^ ?m" using IH(2) by linarith
    ultimately show ?thesis using d by simp
  qed
qed

lemma powi_pos_rat [simp]: "(0::rat) < 10 powi k"
  by simp

lemma powi_mono_rat: "i \<le> j \<Longrightarrow> (10::rat) powi i \<le> 10 powi j"
  by (rule power_int_increasing) auto

lemma adjusted_bounds:
  assumes "0 < x"
  shows "10 powi adjusted x \<le> x" and "x < 10 powi (adjusted x + 1)"
proof -
  obtain n d where nd: "quotient_of x = (n, d)" by fastforce
  have d: "0 < d" using quotient_of_denom_pos [OF nd] .
  have x: "x = of_int n / of_int d" by (rule quotient_of_div [OF nd])
  with assms d have n: "0 < n" by (simp add: zero_less_divide_iff)
  define a where "a = ndigits (nat n)"
  define b where "b = ndigits (nat d)"
  have A: "10 ^ (a - 1) \<le> nat n" "nat n < 10 ^ a" "0 < a"
    using ndigits_bounds [of "nat n"] n by (auto simp: a_def)
  have B: "10 ^ (b - 1) \<le> nat d" "nat d < 10 ^ b" "0 < b"
    using ndigits_bounds [of "nat d"] d by (auto simp: b_def)
  have nlo: "10 powi (int a - 1) \<le> (of_int n :: rat)"
  proof -
    have "(10::rat) powi (int a - 1) = of_nat (10 ^ (a - 1))"
      using A(3) by (simp add: power_int_def nat_diff_distrib)
    also have "\<dots> \<le> of_nat (nat n)" using A(1) of_nat_le_iff by blast
    also have "\<dots> = of_int n" using n by simp
    finally show ?thesis .
  qed
  have nhi: "(of_int n :: rat) < 10 powi (int a)"
  proof -
    have "(of_int n :: rat) = of_nat (nat n)" using n by simp
    also have "\<dots> < of_nat (10 ^ a)" using A(2) of_nat_less_iff by blast
    finally show ?thesis by (simp add: power_int_def)
  qed
  have dlo: "10 powi (int b - 1) \<le> (of_int d :: rat)"
  proof -
    have "(10::rat) powi (int b - 1) = of_nat (10 ^ (b - 1))"
      using B(3) by (simp add: power_int_def nat_diff_distrib)
    also have "\<dots> \<le> of_nat (nat d)" using B(1) of_nat_le_iff by blast
    also have "\<dots> = of_int d" using d by simp
    finally show ?thesis .
  qed
  have dhi: "(of_int d :: rat) < 10 powi (int b)"
  proof -
    have "(of_int d :: rat) = of_nat (nat d)" using d by simp
    also have "\<dots> < of_nat (10 ^ b)" using B(2) of_nat_less_iff by blast
    finally show ?thesis by (simp add: power_int_def)
  qed
  define k where "k = int a - int b"
  have k1: "10 powi (k - 1) \<le> x"
  proof -
    have "10 powi (k - 1) * of_int d \<le> 10 powi (k - 1) * (10 powi (int b) :: rat)"
      using dhi by simp
    also have "\<dots> = 10 powi (k - 1 + int b)" by (rule power_int_add [symmetric]) simp
    also have "\<dots> = 10 powi (int a - 1)" by (simp add: k_def)
    also have "\<dots> \<le> of_int n" by (rule nlo)
    finally show ?thesis using d by (simp add: x pos_le_divide_eq)
  qed
  have k2: "x < 10 powi (k + 1)"
  proof -
    have "of_int n < (10 powi (int a) :: rat)" by (rule nhi)
    also have "\<dots> = 10 powi (k + 1 + (int b - 1))" by (simp add: k_def)
    also have "\<dots> = 10 powi (k + 1) * 10 powi (int b - 1)" by (rule power_int_add) simp
    also have "\<dots> \<le> 10 powi (k + 1) * of_int d" using dlo by simp
    finally show ?thesis using d by (simp add: x pos_divide_less_eq)
  qed
  have adj: "adjusted x = (if 10 powi k \<le> x then k else k - 1)"
    by (simp add: adjusted_def nd a_def b_def k_def Let_def)
  from adj k1 show "10 powi adjusted x \<le> x" by auto
  from adj k2 show "x < 10 powi (adjusted x + 1)" by auto
qed

lemma adjusted_less:
  assumes "0 < x" "x < 10 powi k"
  shows "adjusted x < k"
proof (rule ccontr)
  assume "\<not> adjusted x < k"
  then have "(10::rat) powi k \<le> 10 powi adjusted x" by (intro powi_mono_rat) simp
  with adjusted_bounds(1) [OF assms(1)] assms(2) show False by linarith
qed

lemma ctx_0 [simp]: "ctx p 0 = 0"
  by (simp add: ctx_def)

text \<open>A number of at most \<open>p\<close> digits is not rounded.\<close>

lemma ctx_exact:
  assumes x: "x * 10 ^ k = of_int m" and m: "\<bar>m\<bar> < 10 ^ p"
  shows "ctx p x = x"
proof (cases "x = 0")
  case False
  define e where "e = adjusted \<bar>x\<bar> - int p + 1"
  have pos: "0 < \<bar>x\<bar>" using False by simp
  have absx: "\<bar>x\<bar> = of_int \<bar>m\<bar> / 10 ^ k"
    using x by (metis abs_divide abs_mult nonzero_mult_div_cancel_right
        of_int_abs power_abs abs_numeral power_not_zero zero_neq_numeral)
  have "\<bar>x\<bar> < 10 powi (int p - int k)"
  proof -
    have "(of_int \<bar>m\<bar> :: rat) < 10 ^ p" using m by (metis of_int_less_iff of_int_numeral of_int_power)
    then have "\<bar>x\<bar> < 10 ^ p / 10 ^ k" by (simp add: absx divide_strict_right_mono)
    then show ?thesis by (simp add: power_int_diff)
  qed
  then have "adjusted \<bar>x\<bar> < int p - int k" by (rule adjusted_less [OF pos])
  then have "e \<le> - int k" by (simp add: e_def)
  then obtain j where j: "e = - int k - int j"
    by (metis add.commute diff_add_cancel diff_minus_eq_add le_iff_diff_le_0 minus_diff_eq nonneg_int_cases uminus_add_conv_diff zle_iff_zadd)
  have "x / 10 powi e = of_int (m * 10 ^ j)"
  proof -
    have "x / 10 powi e = x * 10 powi (int k + int j)"
      by (simp add: j power_int_minus_divide power_int_diff power_int_add field_simps)
    also have "\<dots> = x * 10 ^ k * 10 ^ j" by (simp add: power_int_add)
    finally show ?thesis by (simp add: x)
  qed
  moreover have "(10::rat) powi e \<noteq> 0" by simp
  ultimately show ?thesis
    by (metis (no_types, lifting) ctx_def e_def nonzero_divide_eq_eq round_half_even_of_int)
qed simp

lemma ctx_cents_exact: "\<bar>c\<bar> < 10 ^ p \<Longrightarrow> ctx p (dec c) = dec c"
  by (rule ctx_exact [where k = 2 and m = c]) (simp_all add: dec_def)

lemma ctx_of_int_exact: "\<bar>n\<bar> < 10 ^ p \<Longrightarrow> ctx p (of_int n) = of_int n"
  by (rule ctx_exact [where k = 0 and m = n]) simp_all

text \<open>Rounding to the context keeps sign and order, and its relative error is bounded.\<close>

lemma round_half_even_minus: "round_half_even (- x) = - round_half_even x"
proof (cases "x = of_int \<lfloor>x\<rfloor>")
  case True
  then show ?thesis by (metis of_int_minus round_half_even_of_int)
next
  case False
  then have fl: "\<lfloor>- x\<rfloor> = - \<lfloor>x\<rfloor> - 1"
    using floor_correct [of x] by (intro floor_unique) (auto simp: order_less_le)
  show ?thesis
    unfolding round_half_even_def Let_def fl by (auto simp: field_simps)
qed

lemma ctx_minus: "ctx p (- x) = - ctx p x"
  by (simp add: ctx_def Let_def round_half_even_minus)

lemma ctx_pos_bounds:
  assumes "0 < x" and p: "0 < p"
  shows "10 powi adjusted x \<le> ctx p x" and "ctx p x \<le> 10 powi (adjusted x + 1)"
proof -
  define q where "q = (10::rat) powi (adjusted x - int p + 1)"
  have q: "0 < q" by (simp add: q_def)
  have "q * 10 powi (int p - 1) = 10 powi (adjusted x - int p + 1 + (int p - 1))"
    unfolding q_def by (rule power_int_add [symmetric]) simp
  then have lo: "10 powi adjusted x = q * 10 ^ (p - 1)"
    using p by (simp add: power_int_def nat_diff_distrib)
  have "q * 10 powi (int p) = 10 powi (adjusted x - int p + 1 + int p)"
    unfolding q_def by (rule power_int_add [symmetric]) simp
  then have hi: "10 powi (adjusted x + 1) = q * 10 ^ p"
    by (simp add: add.commute)
  have c: "ctx p x = of_int (round_half_even (x / q)) * q"
    using assms(1) by (simp add: ctx_def q_def Let_def)
  have "(of_int (10 ^ (p - 1)) :: rat) \<le> x / q"
    using adjusted_bounds(1) [OF assms(1)] q by (simp add: lo pos_le_divide_eq mult.commute)
  then have "round_half_even (of_int (10 ^ (p - 1))) \<le> round_half_even (x / q)"
    by (rule round_half_even_mono)
  then have "(of_int (10 ^ (p - 1)) :: rat) \<le> of_int (round_half_even (x / q))"
    unfolding round_half_even_of_int of_int_le_iff .
  then show "10 powi adjusted x \<le> ctx p x"
    using q unfolding lo c by (simp add: mult.commute)
  have "x / q \<le> (of_int (10 ^ p) :: rat)"
    using adjusted_bounds(2) [OF assms(1)] q
    by (simp add: hi pos_divide_le_eq mult.commute order_less_imp_le)
  then have "round_half_even (x / q) \<le> round_half_even (of_int (10 ^ p))"
    by (rule round_half_even_mono)
  then have "(of_int (round_half_even (x / q)) :: rat) \<le> of_int (10 ^ p)"
    unfolding round_half_even_of_int of_int_le_iff .
  then show "ctx p x \<le> 10 powi (adjusted x + 1)"
    using q unfolding hi c by (simp add: mult.commute)
qed

lemma adjusted_mono:
  assumes "0 < x" "x \<le> y"
  shows "adjusted x \<le> adjusted y"
proof -
  have "y < 10 powi (adjusted y + 1)" using assms by (intro adjusted_bounds) simp
  with assms have "x < 10 powi (adjusted y + 1)" by simp
  from adjusted_less [OF assms(1) this] show ?thesis by simp
qed

lemma ctx_mono_pos:
  assumes "0 < x" "x \<le> y" "0 < p"
  shows "ctx p x \<le> ctx p y"
proof (cases "adjusted x = adjusted y")
  case True
  define q where "q = (10::rat) powi (adjusted y - int p + 1)"
  have "0 < q" by (simp add: q_def)
  then have "round_half_even (x / q) \<le> round_half_even (y / q)"
    using assms by (intro round_half_even_mono divide_right_mono) auto
  with \<open>0 < q\<close> True assms show ?thesis by (simp add: ctx_def q_def Let_def)
next
  case False
  with adjusted_mono [OF assms(1,2)] have "adjusted x + 1 \<le> adjusted y" by simp
  then have "(10::rat) powi (adjusted x + 1) \<le> 10 powi adjusted y" by (rule powi_mono_rat)
  with ctx_pos_bounds(2) [OF assms(1,3)] ctx_pos_bounds(1) [of y p] assms
  show ?thesis by simp
qed

lemma ctx_pos: "0 < x \<Longrightarrow> 0 < p \<Longrightarrow> 0 < ctx p x"
  by (rule less_le_trans [OF _ ctx_pos_bounds(1)]) auto

lemma ctx_nonneg: "0 \<le> x \<Longrightarrow> 0 < p \<Longrightarrow> 0 \<le> ctx p x"
  using ctx_pos [of x p] by (cases "x = 0") auto

lemma ctx_mono: "x \<le> y \<Longrightarrow> 0 < p \<Longrightarrow> ctx p x \<le> ctx p y"
proof (cases "0 < x")
  case False
  assume xy: "x \<le> y" and p: "0 < p"
  show ?thesis
  proof (cases "y < 0")
    case True
    with xy p have "ctx p (- y) \<le> ctx p (- x)" by (intro ctx_mono_pos) auto
    then show ?thesis by (simp add: ctx_minus)
  next
    case yn: False
    then have "0 \<le> ctx p y" using p by (intro ctx_nonneg) auto
    moreover have "0 \<le> ctx p (- x)" using False p by (intro ctx_nonneg) auto
    ultimately show ?thesis by (simp add: ctx_minus)
  qed
qed (rule ctx_mono_pos)

lemma ctx_rel_error:
  assumes "0 < x" "0 < p"
  shows "\<bar>ctx p x - x\<bar> \<le> x * 10 powi (1 - int p) / 2"
proof -
  define q where "q = (10::rat) powi (adjusted x - int p + 1)"
  have q: "0 < q" by (simp add: q_def)
  have c: "ctx p x = of_int (round_half_even (x / q)) * q"
    using assms(1) by (simp add: ctx_def q_def Let_def)
  have "ctx p x - x = (of_int (round_half_even (x / q)) - x / q) * q"
    using q by (simp add: c left_diff_distrib)
  then have "\<bar>ctx p x - x\<bar> = \<bar>of_int (round_half_even (x / q)) - x / q\<bar> * q"
    using q by (simp add: abs_mult)
  also have "\<dots> \<le> 1 / 2 * q"
    using q by (intro mult_right_mono round_half_even_error) auto
  also have "q = 10 powi adjusted x * 10 powi (1 - int p)"
    unfolding q_def by (simp flip: power_int_add add: algebra_simps)
  finally have "\<bar>ctx p x - x\<bar> \<le> 10 powi adjusted x * 10 powi (1 - int p) / 2" by simp
  also have "\<dots> \<le> x * 10 powi (1 - int p) / 2"
    using adjusted_bounds(1) [OF assms(1)] by (intro divide_right_mono mult_right_mono) auto
  finally show ?thesis .
qed

text \<open>A rounded number is not rounded again.\<close>

lemma ctx_exact_powi:
  assumes x: "x = of_int m * 10 powi e" and m: "\<bar>m\<bar> < 10 ^ p"
  shows "ctx p x = x"
proof (cases "x = 0")
  case False
  define f where "f = adjusted \<bar>x\<bar> - int p + 1"
  have "\<bar>x\<bar> = of_int \<bar>m\<bar> * 10 powi e" by (simp add: x abs_mult)
  also have "\<dots> < 10 ^ p * 10 powi e"
    using m by (intro mult_strict_right_mono) (metis of_int_less_iff of_int_numeral of_int_power, simp)
  also have "\<dots> = 10 powi (int p + e)" by (simp add: power_int_add)
  finally have "adjusted \<bar>x\<bar> < int p + e" using False by (intro adjusted_less) auto
  then obtain j where j: "e = f + int j"
    by (metis f_def add.commute add_diff_cancel_left' diff_add_cancel zle_iff_zadd zless_imp_add1_zle
        add_diff_eq diff_diff_add zle_diff1_eq le_diff_eq)
  have "x / 10 powi f = of_int (m * 10 ^ j)"
    by (simp add: x j power_int_add)
  moreover have "(10::rat) powi f \<noteq> 0" by simp
  ultimately show ?thesis
    by (metis (no_types, lifting) ctx_def f_def nonzero_divide_eq_eq round_half_even_of_int)
qed simp

lemma ctx_idem: 
  assumes p: "0 < p"
  shows "ctx p (ctx p x) = ctx p x"
proof -
  have pos: "ctx p (ctx p y) = ctx p y" if y: "0 < y" for y
  proof -
    define e where "e = adjusted y - int p + 1"
    define m where "m = round_half_even (y / 10 powi e)"
    have c: "ctx p y = of_int m * 10 powi e"
      using y by (simp add: ctx_def e_def m_def Let_def)
    have "of_int m * 10 powi e \<le> (10 powi (int p + e) :: rat)"
      using ctx_pos_bounds(2) [OF y p] by (simp add: c e_def)
    then have "(of_int m :: rat) \<le> of_int (10 ^ p)"
      by (simp add: power_int_add)
    then have m: "m \<le> 10 ^ p" by (simp only: of_int_le_iff)
    have "0 < of_int m * (10 powi e :: rat)" using ctx_pos [OF y p] by (simp add: c)
    then have "0 < m"
      using powi_pos_rat [of e] by (auto simp: zero_less_mult_iff dest: order.asym)
    show ?thesis
    proof (cases "m = 10 ^ p")
      case False
      with m \<open>0 < m\<close> show ?thesis by (intro ctx_exact_powi [OF c]) auto
    next
      case True
      have "10 ^ p = 10 * (10::int) ^ (p - 1)" using p by (cases p) auto
      then have "ctx p y = of_int (10 ^ (p - 1)) * 10 powi (e + 1)"
        by (simp add: c True power_int_add)
      then show ?thesis
        using p by (intro ctx_exact_powi [where m = "10 ^ (p - 1)" and e = "e + 1"])
          (simp_all add: power_strict_increasing)
    qed
  qed
  show ?thesis
  proof (cases x "0::rat" rule: linorder_cases)
    case less
    with pos [of "- x"] show ?thesis by (simp add: ctx_minus)
  qed (use pos in simp_all)
qed

end
