(* ===== verification/Civil_Time.thy ===== *)
theory Civil_Time
  imports Prelude
begin

text \<open>
  Dates and timestamps. A \<open>date\<close> is its proleptic Gregorian ordinal, Python's
  \<open>date.toordinal\<close>, so \<open>timedelta(days=n)\<close> is addition. An aware \<open>datetime\<close> is the
  instant it denotes, in microseconds since 1970-01-01T00:00Z; a naive one (SQLite drops the
  zone of a stored column) is its wall-clock reading. America/Belem has been at UTC-3 without
  daylight saving since 1988, which is also the fallback the code writes out.
\<close>

type_synonym date = int
type_synonym instant = int

datatype datetime = Aware instant | Naive instant

definition second :: instant where "second = 1000000"
definition day_us :: instant where "day_us = 86400 * second"
definition belem_offset :: instant where "belem_offset = - 3 * 3600 * second"
definition epoch_ordinal :: date where "epoch_ordinal = 719163"

text \<open>\<open>_utc\<close>: only an aware value is converted. \<open>_stored_utc\<close>: a naive value is UTC.\<close>

fun utc_strict :: "datetime \<Rightarrow> string \<Rightarrow> instant res" where
  "utc_strict (Aware t) msg = Inr t"
| "utc_strict (Naive t) msg = Inl (ValueError msg)"

fun stored_utc :: "datetime \<Rightarrow> instant" where
  "stored_utc (Aware t) = t"
| "stored_utc (Naive t) = t"

definition utc_date :: "instant \<Rightarrow> date" where
  "utc_date t = t div day_us + epoch_ordinal"

definition belem_date :: "instant \<Rightarrow> date" where
  "belem_date t = (t + belem_offset) div day_us + epoch_ordinal"

text \<open>Midnight of a civil date in Belem, as an instant.\<close>

definition belem_midnight :: "date \<Rightarrow> instant" where
  "belem_midnight d = (d - epoch_ordinal) * day_us - belem_offset"

lemma day_us_pos: "0 < day_us"
  by (simp add: day_us_def second_def)

lemma le_div_iff_mult_le:
  assumes "0 < (k::int)"
  shows "d \<le> x div k \<longleftrightarrow> d * k \<le> x"
proof
  assume "d \<le> x div k"
  then have "d * k \<le> x div k * k" using assms by (simp add: mult_right_mono)
  also have "\<dots> \<le> x"
    using div_mult_mod_eq [of x k] pos_mod_sign [OF assms, of x] by linarith
  finally show "d * k \<le> x" .
next
  assume "d * k \<le> x"
  then have "d * k div k \<le> x div k" using assms by (rule zdiv_mono1)
  then show "d \<le> x div k" using assms by simp
qed

lemma belem_date_midnight [simp]: "belem_date (belem_midnight d) = d"
  using day_us_pos by (simp add: belem_date_def belem_midnight_def)

lemma belem_date_le_iff: "d \<le> belem_date t \<longleftrightarrow> belem_midnight d \<le> t"
proof -
  have "d \<le> belem_date t \<longleftrightarrow> d - epoch_ordinal \<le> (t + belem_offset) div day_us"
    by (auto simp: belem_date_def)
  also have "\<dots> \<longleftrightarrow> (d - epoch_ordinal) * day_us \<le> t + belem_offset"
    by (rule le_div_iff_mult_le [OF day_us_pos])
  finally show ?thesis by (auto simp: belem_midnight_def)
qed

lemma belem_date_mono: "s \<le> t \<Longrightarrow> belem_date s \<le> belem_date t"
  using day_us_pos by (simp add: belem_date_def zdiv_mono1)

end
