(* ===== verification/Cycle_Closing.thy ===== *)
theory Cycle_Closing
  imports Decimal_Arith Civil_Time
begin

text \<open>
  The annual cycle closing preview, \<open>services/cycle_closing.py\<close>: typed evidence, the
  largest-remainder allocation of the distributable result (\<open>_allocation_cents\<close>) and
  \<open>calculate_cycle_closing\<close>, loop by loop. Amounts that the code has passed through
  \<open>_money\<close> are integral cents; the numeric ids inside messages are left out, and texts of amounts and dates in the returned memory are
  represented by the values they print. \<open>hash\<close> stands for SHA-256 of the canonical JSON.
\<close>

section \<open>Evidence\<close>

record cash_evidence =
  ce_event_id :: string
  ce_amount :: decimal
  ce_occurred_at :: datetime
  ce_source :: string
  ce_settlement_id :: "int option"

record participation_evidence =
  pe_id :: int
  pe_member_id :: int
  pe_status :: string
  pe_blocked_at :: "datetime option"
  pe_voluntary_exit_at :: "datetime option"

record contribution_evidence =
  co_id :: int
  co_member_id :: int
  co_cycle_id :: int
  co_amount :: decimal
  co_status :: string
  co_cancelled_at :: "datetime option"
  co_events :: "cash_evidence list"

record gain_evidence =
  ge_source_id :: string
  ge_source_type :: string
  ge_kind :: string
  ge_cycle_id :: "int option"
  ge_amount :: decimal
  ge_occurred_at :: datetime

record obligation_evidence =
  oe_source_id :: string
  oe_member_id :: int
  oe_kind :: string
  oe_amount :: decimal
  oe_due_date :: date
  oe_loan_id :: "int option"
  oe_agreement_id :: "int option"

record closing_evidence =
  ev_cycle_id :: int
  ev_cycle_start_date :: date
  ev_closing_cutoff_at :: datetime
  ev_participations :: "participation_evidence list"
  ev_contributions :: "contribution_evidence list"
  ev_gains :: "gain_evidence list"
  ev_obligations :: "obligation_evidence list"
  ev_superseded_loan_ids :: "int list"
  ev_own_balance_settled_loan_ids :: "int list"
  ev_source_gaps :: "(string \<times> string) list"

definition ADMINISTRATION_FEE_RATE :: decimal where
  "ADMINISTRATION_FEE_RATE = 15 / 100"

definition UNAVAILABLE_RESULT_KINDS :: "string set" where
  "UNAVAILABLE_RESULT_KINDS = {''INVESTMENT_YIELD'', ''OTHER_REALIZED_GAIN''}"

definition RESULT_KINDS :: "string set" where
  "RESULT_KINDS = {''LOAN_INTEREST'', ''LOAN_FIXED_PENALTY'', ''LOAN_LATE_INTEREST'',
     ''LOAN_PENALTY'', ''AGREEMENT_PENALTY'', ''INVESTMENT_YIELD'', ''OTHER_REALIZED_GAIN''}"

definition RECEIPT_RESULT_KINDS :: "string set" where
  "RECEIPT_RESULT_KINDS = RESULT_KINDS - UNAVAILABLE_RESULT_KINDS"

definition NON_RESULT_KINDS :: "string set" where
  "NON_RESULT_KINDS = {''CONTRIBUTION'', ''LOAN_PRINCIPAL'', ''AGREEMENT_PRINCIPAL''}"

definition closing_utc :: "datetime \<Rightarrow> instant res" where
  "closing_utc v = utc_strict v ''closing cutoff and evidence timestamps must be timezone-aware''"

section \<open>Participation status at the cutoff\<close>

definition effective_status :: "participation_evidence \<Rightarrow> instant \<Rightarrow> (string \<times> instant) res" where
  "effective_status row cutoff =
     (if pe_status row = ''BLOCKED_DELINQUENCY'' then
        (case pe_blocked_at row of
           None \<Rightarrow> Inl (ClosingContractGap ''PARTICIPATION_STATE'' ''participation has no blocked_at'')
         | Some t \<Rightarrow> if stored_utc t \<le> cutoff then Inr (pe_status row, stored_utc t)
                     else Inr (''ACTIVE'', cutoff))
      else if pe_status row = ''VOLUNTARILY_EXITED'' then
        (case pe_voluntary_exit_at row of
           None \<Rightarrow> Inl (ClosingContractGap ''PARTICIPATION_STATE'' ''participation has no voluntary_exit_at'')
         | Some t \<Rightarrow> if stored_utc t \<le> cutoff then Inr (pe_status row, stored_utc t)
                     else Inr (''ACTIVE'', cutoff))
      else if pe_status row \<notin> {''ACTIVE'', ''BLOCKED_DELINQUENCY'', ''VOLUNTARILY_EXITED''} then
        Inl (ClosingContractGap ''PARTICIPATION_STATE'' ''unknown status'')
      else Inr (''ACTIVE'', cutoff))"

section \<open>Largest-remainder allocation\<close>

text \<open>\<open>order[:n]\<close>, with Python's meaning of a negative \<open>n\<close>.\<close>

definition slice_to :: "int \<Rightarrow> 'a list \<Rightarrow> 'a list" where
  "slice_to n xs = (if 0 \<le> n then take (nat n) xs else take (length xs - nat (- n)) xs)"

definition exact_share :: "cents \<Rightarrow> cents \<Rightarrow> cents \<Rightarrow> decimal" where
  "exact_share total_cents base_cents total_base_cents =
     ctx 60 (dmul 60 (of_int total_cents) (of_int base_cents) / of_int total_base_cents)"

definition allocation_cents ::
    "cents \<Rightarrow> (int \<times> cents) list \<Rightarrow> (int \<Rightarrow> int \<times> int) \<Rightarrow> (int \<times> cents) list res" where
  "allocation_cents distributable bases tie_keys =
     (let total_cents = distributable;
          total_base_cents = (\<Sum>x\<leftarrow>bases. snd x)
      in if total_cents \<noteq> 0 \<and> total_base_cents = 0 then
           Inl (ClosingContractGap ''NO_ELIGIBLE_BASE'' ''positive result has no eligible contributions'')
         else if total_base_cents = 0 then Inr (map (\<lambda>(m, b). (m, 0)) bases)
         else
           let exact = (\<lambda>b. exact_share total_cents b total_base_cents);
               floors = map (\<lambda>(m, b). (m, round_down (exact b))) bases;
               residual = total_cents - (\<Sum>x\<leftarrow>floors. snd x);
               order = sort_key (\<lambda>(m, b).
                 (- dsub 60 (exact b) (of_int (round_down (exact b))), tie_keys m)) bases;
               winners = map fst (slice_to residual order)
           in Inr (map (\<lambda>(m, f). (m, if m \<in> set winners then f + 1 else f)) floors))"

section \<open>Contributions\<close>

record event_acc =
  ea_signed :: cents
  ea_used_ids :: "string list"
  ea_included :: "int set"
  ea_excluded :: "int set"

definition opt_insert :: "'a option \<Rightarrow> 'a set \<Rightarrow> 'a set" where
  "opt_insert x A = (case x of None \<Rightarrow> A | Some a \<Rightarrow> insert a A)"

definition contribution_event ::
    "instant \<Rightarrow> instant \<Rightarrow> instant \<times> cash_evidence \<Rightarrow> event_acc \<Rightarrow> event_acc res" where
  "contribution_event cutoff limit = (\<lambda>(moment, event) acc.
     let amount = cents (ce_amount event)
     in if cutoff < moment then Inr acc
        else if ce_source event = ''ORIGINAL'' then
          if amount \<le> 0 then Inl (ClosingContractGap ''INVALID_CONTRIBUTION_EVENT'' (ce_event_id event))
          else if moment \<le> limit then
            Inr (acc\<lparr>ea_signed := ea_signed acc + amount,
                     ea_used_ids := ea_used_ids acc @ [ce_event_id event],
                     ea_included := opt_insert (ce_settlement_id event) (ea_included acc)\<rparr>)
          else Inr (acc\<lparr>ea_excluded := opt_insert (ce_settlement_id event) (ea_excluded acc)\<rparr>)
        else if ce_source event = ''REVERSAL'' then
          if 0 \<le> amount then Inl (ClosingContractGap ''INVALID_CONTRIBUTION_EVENT'' (ce_event_id event))
          else if opt_in (ce_settlement_id event) (ea_excluded acc) then Inr acc
          else if \<not> opt_in (ce_settlement_id event) (ea_included acc) then
            Inl (ClosingContractGap ''CONTRIBUTION_REVERSAL_SOURCE_AMBIGUOUS'' (ce_event_id event))
          else Inr (acc\<lparr>ea_signed := ea_signed acc + amount,
                        ea_used_ids := ea_used_ids acc @ [ce_event_id event]\<rparr>)
        else Inl (ClosingContractGap ''INVALID_CONTRIBUTION_EVENT'' (ce_event_id event)))"

definition timed_events :: "cash_evidence list \<Rightarrow> (instant \<times> cash_evidence) list res" where
  "timed_events events =
     res_bind (map_res (\<lambda>e. res_bind (closing_utc (ce_occurred_at e)) (\<lambda>t. Inr (t, e))) events)
       (\<lambda>ps. Inr (sort_key (\<lambda>(t, e). (t, ce_event_id e)) ps))"

record contribution_trace =
  ct_contribution_id :: int
  ct_member_id :: int
  ct_amount :: cents
  ct_confirmed_net_at_cutoff :: cents
  ct_eligible :: bool
  ct_refundable_principal :: cents
  ct_event_ids :: "string list"

record principal_acc =
  pa_rateio :: "int \<Rightarrow> cents"
  pa_refundable :: "int \<Rightarrow> cents"
  pa_trace :: "contribution_trace list"

definition add_at :: "int \<Rightarrow> cents \<Rightarrow> (int \<Rightarrow> cents) \<Rightarrow> int \<Rightarrow> cents" where
  "add_at k v f = f(k := f k + v)"

definition contribution_outcome ::
    "instant \<Rightarrow> contribution_evidence \<Rightarrow> string \<Rightarrow> (instant \<times> cash_evidence) list \<Rightarrow> event_acc
      \<Rightarrow> principal_acc \<Rightarrow> principal_acc res" where
  "contribution_outcome cutoff c status events ea acc =
     (let amount_due = cents (co_amount c);
          signed = ea_signed ea
      in if signed < 0 \<or> amount_due < signed then
           Inl (ClosingContractGap ''CONTRIBUTION_EVIDENCE_MISMATCH'' ''contribution'')
         else
           let fully_paid = (signed = amount_due \<and> 0 < amount_due);
               blocked = (status = ''BLOCKED_DELINQUENCY'');
               later_reversal = list_ex (\<lambda>(t, e). ce_source e = ''REVERSAL''
                 \<and> opt_in (ce_settlement_id e) (ea_included ea) \<and> cutoff < t) events
           in if fully_paid \<and> \<not> blocked \<and> co_status c \<noteq> ''PAID'' \<and> \<not> later_reversal then
                Inl (ClosingContractGap ''CONTRIBUTION_STATUS_EVIDENCE_MISMATCH'' ''contribution'')
              else
                let rateio_eligible = (fully_paid \<and> \<not> blocked);
                    refundable = (if blocked then signed else if fully_paid then amount_due else 0)
                in Inr \<lparr>pa_rateio = (if rateio_eligible
                          then add_at (co_member_id c) amount_due (pa_rateio acc)
                          else pa_rateio acc),
                        pa_refundable = add_at (co_member_id c) refundable (pa_refundable acc),
                        pa_trace = pa_trace acc @ [
                          \<lparr>ct_contribution_id = co_id c, ct_member_id = co_member_id c,
                           ct_amount = amount_due, ct_confirmed_net_at_cutoff = signed,
                           ct_eligible = rateio_eligible, ct_refundable_principal = refundable,
                           ct_event_ids = ea_used_ids ea\<rparr>]\<rparr>)"

definition contribution_step ::
    "closing_evidence \<Rightarrow> instant \<Rightarrow> (int \<times> string \<times> instant) list
      \<Rightarrow> contribution_evidence \<Rightarrow> principal_acc \<Rightarrow> principal_acc res" where
  "contribution_step evidence cutoff statuses c acc =
     (if co_cycle_id c \<noteq> ev_cycle_id evidence then Inr acc
      else case map_of statuses (co_member_id c) of
        None \<Rightarrow> Inl (ClosingContractGap ''CONTRIBUTION_WITHOUT_PARTICIPATION'' ''contribution'')
      | Some (status, participation_limit) \<Rightarrow>
          let limit = (case co_cancelled_at c of
                         None \<Rightarrow> participation_limit
                       | Some t \<Rightarrow> min participation_limit (stored_utc t))
          in res_bind (timed_events (co_events c)) (\<lambda>events.
             res_bind (fold_res (contribution_event cutoff limit) events
                 \<lparr>ea_signed = 0, ea_used_ids = [], ea_included = {}, ea_excluded = {}\<rparr>) (\<lambda>ea.
             contribution_outcome cutoff c status events ea acc)))"

section \<open>Gains\<close>

record gain_trace =
  gt_source_id :: string
  gt_source_type :: string
  gt_kind :: string
  gt_amount :: cents
  gt_occurred_at :: instant
  gt_reason :: "string option"

record gain_acc =
  ga_included :: "gain_trace list"
  ga_excluded :: "gain_trace list"
  ga_gross :: cents
  ga_seen :: "(string \<times> string \<times> string) set"
  ga_gaps :: "(string \<times> string) list"

definition gain_key :: "gain_evidence \<Rightarrow> string \<times> string \<times> string" where
  "gain_key g = (ge_source_type g, ge_source_id g, ge_kind g)"

text \<open>The exclusion reason, and whether it is also reported as a source gap.\<close>

definition gain_reason ::
    "closing_evidence \<Rightarrow> instant \<Rightarrow> instant \<Rightarrow> instant \<Rightarrow> gain_evidence \<Rightarrow> (string \<times> bool) option" where
  "gain_reason evidence start_at cutoff moment g =
     (if cutoff < moment \<or> moment < start_at then Some (''OUTSIDE_CYCLE_CUTOFF'', False)
      else if ge_kind g \<in> NON_RESULT_KINDS then Some (''PRINCIPAL_IS_NOT_RESULT'', False)
      else if ge_kind g \<notin> RESULT_KINDS \<or> ge_source_type g = [] \<or> ge_source_id g = [] then
        Some (''UNTYPED_GAIN'', True)
      else if ge_kind g \<in> RECEIPT_RESULT_KINDS \<and> ge_source_type g \<noteq> ''PAYMENT_SETTLEMENT'' then
        Some (''UNAVAILABLE_RESULT_SOURCE'', True)
      else if ge_kind g \<in> UNAVAILABLE_RESULT_KINDS \<and> ge_source_type g \<noteq> ''CYCLE_REALIZED_GAIN_EVENT'' then
        Some (''UNAVAILABLE_RESULT_SOURCE'', True)
      else case ge_cycle_id g of
        None \<Rightarrow> Some (''CYCLE_ATTRIBUTION_MISSING'', True)
      | Some c \<Rightarrow> if c \<noteq> ev_cycle_id evidence then Some (''OTHER_CYCLE'', False) else None)"

definition gain_step ::
    "closing_evidence \<Rightarrow> instant \<Rightarrow> instant \<Rightarrow> gain_evidence \<Rightarrow> gain_acc \<Rightarrow> gain_acc res" where
  "gain_step evidence start_at cutoff g acc =
     (if gain_key g \<in> ga_seen acc then Inl (ClosingContractGap ''DUPLICATE_GAIN_SOURCE'' (ge_source_id g))
      else res_bind (closing_utc (ge_occurred_at g)) (\<lambda>moment.
        let amount = cents (ge_amount g);
            seen = insert (gain_key g) (ga_seen acc);
            target = \<lparr>gt_source_id = ge_source_id g, gt_source_type = ge_source_type g,
                      gt_kind = ge_kind g, gt_amount = amount, gt_occurred_at = moment,
                      gt_reason = None\<rparr>
        in case gain_reason evidence start_at cutoff moment g of
             None \<Rightarrow> Inr (acc\<lparr>ga_seen := seen, ga_included := ga_included acc @ [target],
                             ga_gross := ga_gross acc + amount\<rparr>)
           | Some (reason, gap) \<Rightarrow>
               Inr (acc\<lparr>ga_seen := seen,
                        ga_excluded := ga_excluded acc @ [target\<lparr>gt_reason := Some reason\<rparr>],
                        ga_gaps := (if gap then ga_gaps acc @ [(reason, ge_source_id g)]
                                    else ga_gaps acc)\<rparr>)))"

section \<open>Obligations\<close>

record obligation_trace =
  ot_source_id :: string
  ot_kind :: string
  ot_amount :: cents
  ot_due_date :: date
  ot_loan_id :: "int option"
  ot_agreement_id :: "int option"

record obligation_acc =
  oa_by_member :: "int \<Rightarrow> obligation_trace list"
  oa_seen :: "string set"
  oa_agreements :: "int \<rightharpoonup> int"

definition OBLIGATION_KINDS :: "string set" where
  "OBLIGATION_KINDS = {''CONTRIBUTION_PRINCIPAL'', ''CONTRIBUTION_CHARGE'',
     ''LOAN_INSTALLMENT'', ''AGREEMENT_INSTALLMENT''}"

text \<open>\<open>agreements_by_loan.setdefault\<close> and its check.\<close>

definition agreement_claim ::
    "obligation_evidence \<Rightarrow> (int \<rightharpoonup> int) \<Rightarrow> (int \<rightharpoonup> int) res" where
  "agreement_claim ob agreements =
     (if oe_kind ob = ''AGREEMENT_INSTALLMENT'' then
        (case (oe_loan_id ob, oe_agreement_id ob) of
           (Some l, Some a) \<Rightarrow>
             (case agreements l of
                None \<Rightarrow> Inr (agreements(l \<mapsto> a))
              | Some previous \<Rightarrow>
                  if previous \<noteq> a then Inl (ClosingContractGap ''MULTIPLE_APPLICABLE_AGREEMENTS'' ''loan'')
                  else Inr agreements)
         | _ \<Rightarrow> Inl (ClosingContractGap ''AGREEMENT_SOURCE_INCOMPLETE'' (oe_source_id ob)))
      else Inr agreements)"

definition obligation_step ::
    "closing_evidence \<Rightarrow> date \<Rightarrow> (int \<times> string \<times> instant) list
      \<Rightarrow> obligation_evidence \<Rightarrow> obligation_acc \<Rightarrow> obligation_acc res" where
  "obligation_step evidence cutoff_date statuses ob acc =
     (case map_of statuses (oe_member_id ob) of
        None \<Rightarrow> Inr acc
      | Some (status, _) \<Rightarrow>
        if cutoff_date < oe_due_date ob then Inr acc
        else if oe_source_id ob \<in> oa_seen acc then
          Inl (ClosingContractGap ''DUPLICATE_OBLIGATION'' (oe_source_id ob))
        else
          let acc = acc\<lparr>oa_seen := insert (oe_source_id ob) (oa_seen acc)\<rparr>
          in res_bind (agreement_claim ob (oa_agreements acc)) (\<lambda>agreements.
             let acc = acc\<lparr>oa_agreements := agreements\<rparr>
             in if oe_kind ob = ''LOAN_INSTALLMENT''
                   \<and> opt_in (oe_loan_id ob) (set (ev_superseded_loan_ids evidence)) then Inr acc
                else if oe_kind ob = ''CONTRIBUTION_PRINCIPAL'' \<and> status = ''BLOCKED_DELINQUENCY'' then Inr acc
                else if oe_kind ob \<notin> OBLIGATION_KINDS then
                  Inl (ClosingContractGap ''UNKNOWN_OBLIGATION_KIND'' (oe_source_id ob))
                else
                  let amount = cents (oe_amount ob)
                  in if amount < 0 then Inl (ClosingContractGap ''NEGATIVE_OBLIGATION'' (oe_source_id ob))
                     else if amount \<noteq> 0 then
                       Inr (acc\<lparr>oa_by_member := (oa_by_member acc)(oe_member_id ob :=
                         oa_by_member acc (oe_member_id ob) @
                           [\<lparr>ot_source_id = oe_source_id ob, ot_kind = oe_kind ob, ot_amount = amount,
                             ot_due_date = oe_due_date ob, ot_loan_id = oe_loan_id ob,
                             ot_agreement_id = oe_agreement_id ob\<rparr>])\<rparr>)
                     else Inr acc))"

section \<open>Participants and the whole calculation\<close>

record participant_row =
  pr_member_id :: int
  pr_participation_id :: int
  pr_status :: string
  pr_rateio_principal :: cents
  pr_refundable_principal :: cents
  pr_weight :: decimal
  pr_gross_share :: cents
  pr_gross_entitlement :: cents
  pr_obligations :: "obligation_trace list"
  pr_obligations_total :: cents
  pr_projected_compensation :: cents
  pr_projected_net :: cents
  pr_residual_debt :: cents

definition participant ::
    "(int \<times> string \<times> instant) list \<Rightarrow> principal_acc \<Rightarrow> cents \<Rightarrow> (int \<times> cents) list
      \<Rightarrow> obligation_acc \<Rightarrow> participation_evidence \<Rightarrow> participant_row" where
  "participant statuses pa total_base shares oa row =
     (let m = pe_member_id row;
          status = (case map_of statuses m of None \<Rightarrow> [] | Some (s, _) \<Rightarrow> s);
          rateio_principal = pa_rateio pa m;
          refundable_principal = pa_refundable pa m;
          weight = (if total_base \<noteq> 0 \<and> status \<noteq> ''BLOCKED_DELINQUENCY''
                    then ctx 60 (dec rateio_principal / dec total_base) else 0);
          share = (case map_of shares m of None \<Rightarrow> 0 | Some s \<Rightarrow> s);
          entitlement = refundable_principal + share;
          owed = (\<Sum>ob\<leftarrow>oa_by_member oa m. ot_amount ob);
          compensation = min entitlement owed
      in \<lparr>pr_member_id = m, pr_participation_id = pe_id row, pr_status = status,
          pr_rateio_principal = rateio_principal, pr_refundable_principal = refundable_principal,
          pr_weight = weight, pr_gross_share = share, pr_gross_entitlement = entitlement,
          pr_obligations = oa_by_member oa m, pr_obligations_total = owed,
          pr_projected_compensation = compensation, pr_projected_net = entitlement - compensation,
          pr_residual_debt = max 0 (owed - entitlement)\<rparr>)"

record closing_memory =
  cm_cycle_id :: int
  cm_cycle_start_date :: date
  cm_closing_cutoff_at :: instant
  cm_gross_realized_result :: cents
  cm_administration_fee_rate :: decimal
  cm_administration_fee :: cents
  cm_distributable_result :: cents
  cm_total_eligible_contributions :: cents
  cm_participants :: "participant_row list"
  cm_contributions :: "contribution_trace list"
  cm_included_gains :: "gain_trace list"
  cm_excluded_gains :: "gain_trace list"
  cm_own_balance_settled_loan_ids :: "int list"
  cm_source_gaps :: "(string \<times> string) list"
  cm_calculation_hash :: string

definition closing_rows :: "closing_evidence \<Rightarrow> participation_evidence list" where
  "closing_rows evidence =
     sort_key (\<lambda>row. (pe_id row, pe_member_id row)) (ev_participations evidence)"

definition closing_statuses ::
    "participation_evidence list \<Rightarrow> instant \<Rightarrow> (int \<times> string \<times> instant) list res" where
  "closing_statuses rows cutoff =
     map_res (\<lambda>row. res_bind (effective_status row cutoff) (\<lambda>s. Inr (pe_member_id row, s))) rows"

definition rateio_bases ::
    "participation_evidence list \<Rightarrow> (int \<times> string \<times> instant) list \<Rightarrow> (int \<Rightarrow> cents) \<Rightarrow> (int \<times> cents) list" where
  "rateio_bases rows statuses rateio =
     map (\<lambda>row. (pe_member_id row, rateio (pe_member_id row)))
       (filter (\<lambda>row. map_option fst (map_of statuses (pe_member_id row)) \<noteq> Some ''BLOCKED_DELINQUENCY'') rows)"

definition tie_keys :: "participation_evidence list \<Rightarrow> int \<Rightarrow> int \<times> int" where
  "tie_keys rows m =
     (case find (\<lambda>row. pe_member_id row = m) rows of
        None \<Rightarrow> (0, m) | Some row \<Rightarrow> (pe_id row, pe_member_id row))"

definition calculate_cycle_closing ::
    "(closing_memory \<Rightarrow> string) \<Rightarrow> closing_evidence \<Rightarrow> closing_memory res" where
  "calculate_cycle_closing hash evidence =
     res_bind (closing_utc (ev_closing_cutoff_at evidence)) (\<lambda>cutoff.
     let start_at = belem_midnight (ev_cycle_start_date evidence);
         rows = closing_rows evidence
     in if cutoff < start_at then
          Inl (ClosingContractGap ''CUTOFF_BEFORE_CYCLE'' ''closing cutoff precedes cycle start'')
        else if \<not> distinct (map pe_member_id rows) then
          Inl (ClosingContractGap ''DUPLICATE_PARTICIPATION'' ''member occurs twice in the cycle'')
        else
     res_bind (closing_statuses rows cutoff) (\<lambda>statuses.
     res_bind (fold_res (contribution_step evidence cutoff statuses)
         (sort_key co_id (ev_contributions evidence))
         \<lparr>pa_rateio = (\<lambda>_. 0), pa_refundable = (\<lambda>_. 0), pa_trace = []\<rparr>) (\<lambda>pa.
     res_bind (fold_res (gain_step evidence start_at cutoff)
         (sort_key gain_key (ev_gains evidence))
         \<lparr>ga_included = [], ga_excluded = [], ga_gross = 0, ga_seen = {},
          ga_gaps = ev_source_gaps evidence\<rparr>) (\<lambda>ga.
     let gross = ga_gross ga
     in if gross < 0 then
          Inl (ClosingContractGap ''NEGATIVE_REALIZED_RESULT'' ''fee and payout rule for negative result is undefined'')
        else
     let fee = cents (dmul 28 (dec gross) ADMINISTRATION_FEE_RATE);
         distributable = gross - fee;
         bases = rateio_bases rows statuses (pa_rateio pa);
         total_base = (\<Sum>x\<leftarrow>bases. snd x)
     in res_bind (allocation_cents distributable bases (tie_keys rows)) (\<lambda>shares.
     res_bind (fold_res (obligation_step evidence (belem_date cutoff) statuses)
         (sort_key oe_source_id (ev_obligations evidence))
         \<lparr>oa_by_member = (\<lambda>_. []), oa_seen = {}, oa_agreements = Map.empty\<rparr>) (\<lambda>oa.
     let participants = map (participant statuses pa total_base shares oa) rows
     in if (\<Sum>p\<leftarrow>participants. pr_gross_share p) \<noteq> distributable then
          Inl (AssertionError ''largest remainder allocation lost cents'')
        else
     let memory = \<lparr>cm_cycle_id = ev_cycle_id evidence,
           cm_cycle_start_date = ev_cycle_start_date evidence,
           cm_closing_cutoff_at = cutoff, cm_gross_realized_result = gross,
           cm_administration_fee_rate = ADMINISTRATION_FEE_RATE, cm_administration_fee = fee,
           cm_distributable_result = distributable, cm_total_eligible_contributions = total_base,
           cm_participants = participants, cm_contributions = pa_trace pa,
           cm_included_gains = ga_included ga, cm_excluded_gains = ga_excluded ga,
           cm_own_balance_settled_loan_ids = sort (ev_own_balance_settled_loan_ids evidence),
           cm_source_gaps = sort (ga_gaps ga), cm_calculation_hash = []\<rparr>
     in Inr (memory\<lparr>cm_calculation_hash := hash memory\<rparr>)))))))"

end
