(* ===== verification/Allocation.thy ===== *)
theory Allocation
  imports Cycle_Closing
begin

text \<open>
  Correctness of the largest-remainder allocation \<open>_allocation_cents\<close>. The code divides in
  a 60-digit decimal context; as long as \<open>total * base < 10^59\<close> (amounts are
  \<open>Numeric(14, 2)\<close>, so both factors stay below \<open>10^14\<close>) the rounded quotient has the same
  integer part as the exact one, and its fraction vanishes exactly when the division is exact.
\<close>

section \<open>The exact share in the 60-digit context\<close>

lemma exact_share_product:
  assumes "0 \<le> t" "0 \<le> b" "t * b < 10 ^ 59"
  shows "dmul 60 (of_int t) (of_int b) = of_int (t * b)"
proof -
  have "\<bar>t * b\<bar> < 10 ^ 60" using assms by simp
  from ctx_of_int_exact [OF this] show ?thesis by (simp add: dmul_def)
qed

lemma ctx_between:
  assumes n: "of_int n \<le> (x::rat)" "0 \<le> n" and n60: "n < 10 ^ 60"
  shows "of_int n \<le> ctx 60 x"
proof -
  have "ctx 60 (of_int n) \<le> ctx 60 x" using n by (intro ctx_mono) auto
  moreover have "ctx 60 (of_int n) = of_int n" using n n60 by (intro ctx_of_int_exact) auto
  ultimately show ?thesis by simp
qed

lemma quotient_error_small:
  assumes p: "0 < p" "p < 10 ^ 59" and s: "0 < (s::int)"
  shows "\<bar>ctx 60 (of_int p / of_int s) - of_int p / of_int s\<bar> < 1 / (of_int s :: rat)"
proof -
  have "\<bar>ctx 60 (of_int p / of_int s) - of_int p / of_int s\<bar>
      \<le> (of_int p / of_int s) * 10 powi (1 - int 60) / (2 :: rat)"
    using p s by (intro ctx_rel_error) auto
  also have "\<dots> = of_int p / 10 ^ 59 / 2 / of_int s"
    by (simp add: power_int_def field_simps)
  also have "\<dots> < 1 / of_int s"
  proof -
    have "(of_int p :: rat) < 10 ^ 59" using p(2)
      by (metis of_int_less_iff of_int_numeral of_int_power)
    then have "of_int p / 10 ^ 59 / 2 < (1::rat)" by simp
    then show ?thesis using s by (intro divide_strict_right_mono) auto
  qed
  finally show ?thesis .
qed

lemma exact_share_bounds:
  assumes "0 \<le> t" "0 \<le> b" "0 < s" "t * b < 10 ^ 59"
  defines "n \<equiv> t * b div s" and "r \<equiv> t * b mod s"
  shows "of_int n \<le> exact_share t b s" "exact_share t b s < of_int n + 1"
    "r = 0 \<Longrightarrow> exact_share t b s = of_int n" "r \<noteq> 0 \<Longrightarrow> of_int n < exact_share t b s"
proof -
  let ?x = "(of_int (t * b) :: rat) / of_int s"
  have e: "exact_share t b s = ctx 60 ?x"
    using assms(1,2,4) by (simp add: exact_share_def exact_share_product)
  have tb: "t * b = n * s + r" by (simp add: n_def r_def)
  have r: "0 \<le> r" "r < s" using assms(3) by (auto simp: r_def)
  have x: "?x = of_int n + of_int r / of_int s"
    using assms(3) by (simp add: tb add_divide_distrib)
  have n0: "0 \<le> n" using assms by (simp add: n_def pos_imp_zdiv_nonneg_iff)
  have "n * 1 \<le> n * s" using n0 assms(3) by (intro mult_left_mono) auto
  then have "n \<le> t * b" using tb r(1) by simp
  then have n60: "n < 10 ^ 60" using assms(4) by simp
  have rs: "0 \<le> (of_int r :: rat) / of_int s" using r assms(3) by simp
  show lo: "of_int n \<le> exact_share t b s"
    unfolding e by (rule ctx_between [OF _ n0 n60]) (use rs in \<open>simp add: x del: of_int_mult\<close>)
  show exact: "exact_share t b s = of_int n" if "r = 0"
    unfolding e x using n0 n60 by (simp add: that ctx_of_int_exact)
  have err: "\<bar>ctx 60 ?x - ?x\<bar> < 1 / of_int s" if "r \<noteq> 0"
  proof -
    have "0 \<le> n * s" using n0 assms(3) by simp
    then have "0 < t * b" unfolding tb using that r(1) by simp
    from quotient_error_small [OF this assms(4,3)] show ?thesis .
  qed
  show "exact_share t b s < of_int n + 1"
  proof (cases "r = 0")
    case False
    have "of_int r + (1::rat) \<le> of_int s" using r(2) by (metis of_int_1 of_int_add of_int_le_iff zless_imp_add1_zle)
    then have "(of_int r + 1) / of_int s \<le> (1::rat)" using assms(3) by simp
    with err [OF False] show ?thesis
      unfolding e x by (simp add: add_divide_distrib abs_less_iff)
  qed (simp add: exact)
  show "of_int n < exact_share t b s" if "r \<noteq> 0"
  proof -
    have "(1::rat) \<le> of_int r" using r that by (metis int_one_le_iff_zero_less le_neq_trans of_int_1_le_iff)
    then have "1 / of_int s \<le> (of_int r / of_int s :: rat)"
      using assms(3) by (intro divide_right_mono) auto
    with err [OF that] show ?thesis
      unfolding e x by (simp add: abs_less_iff)
  qed
qed

lemma round_down_exact_share:
  assumes "0 \<le> t" "0 \<le> b" "0 < s" "t * b < 10 ^ 59"
  shows "round_down (exact_share t b s) = t * b div s"
proof -
  have "0 \<le> t * b div s" using assms by (simp add: pos_imp_zdiv_nonneg_iff)
  then have "(0::rat) \<le> of_int (t * b div s)" by simp
  with exact_share_bounds(1,2) [OF assms] show ?thesis
    by (subst round_down_nonneg) (auto intro: floor_unique order_trans)
qed

lemma fraction_pos_iff:
  assumes "0 \<le> t" "0 \<le> b" "0 < s" "t * b < 10 ^ 59"
  shows "0 < dsub 60 (exact_share t b s) (of_int (round_down (exact_share t b s)))
    \<longleftrightarrow> t * b mod s \<noteq> 0"
  using exact_share_bounds(1,3,4) [OF assms] ctx_pos [of _ 60]
  by (cases "t * b mod s = 0") (auto simp: dsub_def round_down_exact_share [OF assms])

section \<open>Sums of quotients and remainders\<close>

lemma residual_count:
  fixes t s :: int
  assumes t: "0 \<le> t" and s: "0 < s" "s = (\<Sum>b\<leftarrow>bs. b)" and pos: "\<forall>b\<in>set bs. 0 \<le> b"
  defines "res \<equiv> t - (\<Sum>b\<leftarrow>bs. t * b div s)"
  shows "0 \<le> res" and "res \<le> int (length (filter (\<lambda>b. t * b mod s \<noteq> 0) bs))"
proof -
  have split: "(\<Sum>b\<leftarrow>bs. t * b) = s * (\<Sum>b\<leftarrow>bs. t * b div s) + (\<Sum>b\<leftarrow>bs. t * b mod s)"
    for bs :: "int list"
    by (induction bs) (simp_all add: algebra_simps)
  have "(\<Sum>b\<leftarrow>bs. t * b) = t * s" by (simp add: s(2) sum_list_const_mult)
  with split [of bs] have eq: "s * res = (\<Sum>b\<leftarrow>bs. t * b mod s)"
    by (simp add: res_def algebra_simps)
  have "0 \<le> (\<Sum>b\<leftarrow>bs. t * b mod s)" by (rule sum_list_nonneg_int) (simp add: s(1))
  with eq s(1) show "0 \<le> res" by (metis mult_pos_neg not_less)
  have "(\<Sum>b\<leftarrow>cs. t * b mod s) \<le> s * int (length (filter (\<lambda>b. t * b mod s \<noteq> 0) cs))"
    for cs :: "int list"
  proof (induction cs)
    case (Cons c cs)
    have "t * c mod s \<le> s" using s(1) by (simp add: order_less_imp_le)
    with Cons show ?case by (simp add: algebra_simps)
  qed simp
  from this [of bs] have "s * res \<le> s * int (length (filter (\<lambda>b. t * b mod s \<noteq> 0) bs))"
    unfolding eq .
  then show "res \<le> int (length (filter (\<lambda>b. t * b mod s \<noteq> 0) bs))"
    using s(1) by (simp only: mult_le_cancel_left_pos)
qed

section \<open>The winners of the residual cents\<close>

lemma sort_prefix_positive:
  fixes f :: "'a \<Rightarrow> rat" and g :: "'a \<Rightarrow> 'b::linorder"
  assumes "n \<le> length (filter (\<lambda>x. 0 < f x) xs)"
    and "x \<in> set (take n (sort_key (\<lambda>x. (- f x, g x)) xs))"
  shows "0 < f x"
proof (rule ccontr)
  let ?ys = "sort_key (\<lambda>x. (- f x, g x)) xs"
  assume neg: "\<not> 0 < f x"
  from assms(2) obtain i where i: "i < n" "i < length ?ys" "?ys ! i = x"
    by (auto simp: in_set_conv_nth)
  have later: "\<not> 0 < f y" if "y \<in> set (drop i ?ys)" for y
  proof -
    from that obtain j where "j < length (drop i ?ys)" "drop i ?ys ! j = y"
      by (meson in_set_conv_nth)
    then have j: "i + j < length ?ys" "y = ?ys ! (i + j)" by auto
    have "map (\<lambda>x. (- f x, g x)) ?ys ! i \<le> map (\<lambda>x. (- f x, g x)) ?ys ! (i + j)"
      using j by (intro sorted_nth_mono) auto
    then have "- f x \<le> - f y" using i j by (auto simp: less_eq_prod_def)
    with neg show ?thesis by simp
  qed
  have "length (filter (\<lambda>x. 0 < f x) xs) = length (filter (\<lambda>x. 0 < f x) ?ys)"
    by (metis mset_filter mset_sort size_mset)
  also have "\<dots> = length (filter (\<lambda>x. 0 < f x) (take i ?ys @ drop i ?ys))" by simp
  also have "\<dots> = length (filter (\<lambda>x. 0 < f x) (take i ?ys))"
    using later by (auto simp: filter_empty_conv simp del: append_take_drop_id)
  also have "\<dots> \<le> i" by (metis length_filter_le length_take min.bounded_iff)
  finally show False using assms(1) i(1) by simp
qed

lemma sum_list_winners:
  assumes "distinct (map fst fs)" "distinct ws" "set ws \<subseteq> set (map fst fs)"
  shows "(\<Sum>(m, f)\<leftarrow>fs. if m \<in> set ws then f + 1 else f) = (\<Sum>x\<leftarrow>fs. snd x) + int (length ws)"
proof -
  have "(\<Sum>(m, f)\<leftarrow>gs. if m \<in> set ws then f + 1 else f)
      = (\<Sum>x\<leftarrow>gs. snd x) + int (length (filter (\<lambda>m. m \<in> set ws) (map fst gs)))" for gs :: "('a \<times> int) list"
    by (induction gs) auto
  moreover have "length (filter (\<lambda>m. m \<in> set ws) (map fst fs)) = length ws"
  proof -
    have "distinct (filter (\<lambda>m. m \<in> set ws) (map fst fs))" using assms(1) by simp
    moreover have "set (filter (\<lambda>m. m \<in> set ws) (map fst fs)) = set ws" using assms(3) by auto
    ultimately show ?thesis using assms(2) by (metis distinct_card)
  qed
  ultimately show ?thesis by simp
qed

section \<open>The allocation\<close>

text \<open>The domain of the allocation: non-negative amounts within the decimal precision.\<close>

definition alloc_ok :: "cents \<Rightarrow> (int \<times> cents) list \<Rightarrow> bool" where
  "alloc_ok t bases \<longleftrightarrow> 0 \<le> t \<and> distinct (map fst bases) \<and> (\<forall>(m, b)\<in>set bases. 0 \<le> b)
     \<and> t * (\<Sum>x\<leftarrow>bases. snd x) < 10 ^ 59"

definition alloc_floor :: "cents \<Rightarrow> (int \<times> cents) list \<Rightarrow> cents \<Rightarrow> cents" where
  "alloc_floor t bases b = t * b div (\<Sum>x\<leftarrow>bases. snd x)"

definition alloc_winners :: "cents \<Rightarrow> (int \<times> cents) list \<Rightarrow> (int \<Rightarrow> int \<times> int) \<Rightarrow> int list" where
  "alloc_winners t bases tk =
     (let s = (\<Sum>x\<leftarrow>bases. snd x); exact = (\<lambda>b. exact_share t b s)
      in map fst (take (nat (t - (\<Sum>x\<leftarrow>bases. alloc_floor t bases (snd x))))
           (sort_key (\<lambda>(m, b). (- dsub 60 (exact b) (of_int (round_down (exact b))), tk m)) bases)))"

lemma base_le_total:
  assumes "\<forall>(m, b)\<in>set bases. 0 \<le> (b::int)" "(m, b) \<in> set bases"
  shows "b \<le> (\<Sum>x\<leftarrow>bases. snd x)"
  using assms
proof (induction bases)
  case (Cons x xs)
  have "0 \<le> (\<Sum>x\<leftarrow>xs. snd x)"
    using Cons.prems(1) by (intro sum_list_nonneg_int) (auto split: prod.splits)
  with Cons show ?case by (auto split: prod.splits)
qed simp

lemma alloc_product_bound:
  assumes "alloc_ok t bases" "(m, b) \<in> set bases"
  shows "0 \<le> b" "t * b < 10 ^ 59"
proof -
  show b0: "0 \<le> b" using assms by (auto simp: alloc_ok_def)
  have "b \<le> (\<Sum>x\<leftarrow>bases. snd x)" using assms by (intro base_le_total) (auto simp: alloc_ok_def)
  then have "t * b \<le> t * (\<Sum>x\<leftarrow>bases. snd x)"
    using assms(1) by (intro mult_left_mono) (auto simp: alloc_ok_def)
  with assms(1) show "t * b < 10 ^ 59" by (auto simp: alloc_ok_def)
qed

lemma alloc_floors_eq:
  assumes ok: "alloc_ok t bases" and s: "0 < (\<Sum>x\<leftarrow>bases. snd x)"
  shows "map (\<lambda>(m, b). (m, round_down (exact_share t b (\<Sum>x\<leftarrow>bases. snd x)))) bases
    = map (\<lambda>(m, b). (m, alloc_floor t bases b)) bases"
proof -
  have "round_down (exact_share t b (\<Sum>x\<leftarrow>bases. snd x)) = alloc_floor t bases b"
    if "(m, b) \<in> set bases" for m b
    using alloc_product_bound [OF ok that] ok s
    by (simp add: alloc_floor_def round_down_exact_share alloc_ok_def)
  then show ?thesis by auto
qed

lemma alloc_residual:
  assumes ok: "alloc_ok t bases" and s: "0 < (\<Sum>x\<leftarrow>bases. snd x)"
  defines "res \<equiv> t - (\<Sum>x\<leftarrow>bases. alloc_floor t bases (snd x))"
  shows "0 \<le> res"
    "nat res \<le> length (filter (\<lambda>(m, b). t * b mod (\<Sum>x\<leftarrow>bases. snd x) \<noteq> 0) bases)"
proof -
  define S where "S = (\<Sum>x\<leftarrow>bases. snd x)"
  have S: "S = (\<Sum>b\<leftarrow>map snd bases. b)" by (simp add: S_def case_prod_unfold comp_def)
  have F: "(\<Sum>x\<leftarrow>bases. alloc_floor t bases (snd x)) = (\<Sum>b\<leftarrow>map snd bases. t * b div S)"
    by (simp add: alloc_floor_def S_def case_prod_unfold comp_def)
  have pos: "\<forall>b\<in>set (map snd bases). 0 \<le> b" using ok by (auto simp: alloc_ok_def)
  have t: "0 \<le> t" using ok by (simp add: alloc_ok_def)
  have "length (filter (\<lambda>b. t * b mod S \<noteq> 0) (map snd bases))
      = length (filter (\<lambda>(m, b). t * b mod S \<noteq> 0) bases)"
    by (simp add: filter_map comp_def case_prod_unfold)
  with residual_count [OF t s [folded S_def] S pos] s
  show "0 \<le> res" "nat res \<le> length (filter (\<lambda>(m, b). t * b mod (\<Sum>x\<leftarrow>bases. snd x) \<noteq> 0) bases)"
    by (auto simp: res_def F S_def)
qed

lemma filter_fraction_eq:
  assumes ok: "alloc_ok t bases" and s: "0 < (\<Sum>x\<leftarrow>bases. snd x)"
  defines "ex \<equiv> \<lambda>b. exact_share t b (\<Sum>x\<leftarrow>bases. snd x)"
  shows "filter (\<lambda>(m, b). t * b mod (\<Sum>x\<leftarrow>bases. snd x) \<noteq> 0) bases
    = filter (\<lambda>x. 0 < dsub 60 (ex (snd x)) (of_int (round_down (ex (snd x))))) bases"
proof -
  have t: "0 \<le> t" using ok by (simp add: alloc_ok_def)
  have eq: "(t * snd x mod (\<Sum>x\<leftarrow>bases. snd x) \<noteq> 0)
      = (0 < dsub 60 (ex (snd x)) (of_int (round_down (ex (snd x)))))"
    if "x \<in> set bases" for x
  proof -
    from that have m: "(fst x, snd x) \<in> set bases" by simp
    show ?thesis unfolding ex_def
      by (rule fraction_pos_iff [OF t alloc_product_bound(1) [OF ok m] s
            alloc_product_bound(2) [OF ok m], symmetric])
  qed
  show ?thesis unfolding case_prod_unfold by (rule filter_cong [OF refl]) (rule eq)
qed

lemma alloc_winners_facts:
  assumes ok: "alloc_ok t bases" and s: "0 < (\<Sum>x\<leftarrow>bases. snd x)"
  shows "distinct (alloc_winners t bases tk)" "set (alloc_winners t bases tk) \<subseteq> set (map fst bases)"
    "int (length (alloc_winners t bases tk)) = t - (\<Sum>x\<leftarrow>bases. alloc_floor t bases (snd x))"
    "m \<in> set (alloc_winners t bases tk) \<Longrightarrow>
       \<exists>b. (m, b) \<in> set bases \<and> t * b mod (\<Sum>x\<leftarrow>bases. snd x) \<noteq> 0"
proof -
  let ?S = "\<Sum>x\<leftarrow>bases. snd x"
  let ?f = "\<lambda>x. dsub 60 (exact_share t (snd x) ?S) (of_int (round_down (exact_share t (snd x) ?S)))"
  let ?n = "nat (t - (\<Sum>x\<leftarrow>bases. alloc_floor t bases (snd x)))"
  let ?ys = "sort_key (\<lambda>x. (- ?f x, tk (fst x))) bases"
  have w: "alloc_winners t bases tk = map fst (take ?n ?ys)"
    by (simp add: alloc_winners_def Let_def case_prod_unfold)
  note r = alloc_residual [OF ok s]
  have "distinct (map fst ?ys)" using ok by (simp add: alloc_ok_def)
  then show "distinct (alloc_winners t bases tk)" by (simp add: w take_map [symmetric])
  show "set (alloc_winners t bases tk) \<subseteq> set (map fst bases)"
    using set_take_subset [of ?n ?ys] by (auto simp: w)
  have "?n \<le> length bases" using r(2) by (meson length_filter_le order_trans)
  then show "int (length (alloc_winners t bases tk)) = t - (\<Sum>x\<leftarrow>bases. alloc_floor t bases (snd x))"
    using r(1) by (simp add: w)
  assume "m \<in> set (alloc_winners t bases tk)"
  then obtain b where b: "(m, b) \<in> set (take ?n ?ys)" by (auto simp: w)
  then have mem: "(m, b) \<in> set bases" by (auto dest: in_set_takeD)
  have "0 < ?f (m, b)"
    using r(2) b unfolding filter_fraction_eq [OF ok s] by (rule sort_prefix_positive)
  with mem show "\<exists>b. (m, b) \<in> set bases \<and> t * b mod ?S \<noteq> 0"
    using fraction_pos_iff [OF _ alloc_product_bound(1) [OF ok mem] s alloc_product_bound(2) [OF ok mem]] ok
    by (auto simp: alloc_ok_def)
qed

text \<open>What the code computes, as a closed form on integers.\<close>

lemma allocation_cents_eq:
  assumes ok: "alloc_ok t bases" and s: "0 < (\<Sum>x\<leftarrow>bases. snd x)"
  shows "allocation_cents t bases tk = Inr (map (\<lambda>(m, b).
    (m, if m \<in> set (alloc_winners t bases tk) then alloc_floor t bases b + 1
        else alloc_floor t bases b)) bases)"
proof -
  have "0 \<le> t - (\<Sum>x\<leftarrow>bases. alloc_floor t bases (snd x))" using alloc_residual(1) [OF ok s] .
  then show ?thesis
    using s unfolding allocation_cents_def Let_def alloc_floors_eq [OF ok s]
    by (simp add: slice_to_def alloc_winners_def Let_def comp_def case_prod_unfold cong: map_cong)
qed

section \<open>The interface: an apportionment method\<close>

locale apportionment =
  fixes alloc :: "cents \<Rightarrow> (int \<times> cents) list \<Rightarrow> (int \<Rightarrow> int \<times> int) \<Rightarrow> (int \<times> cents) list res"
    and ok :: "cents \<Rightarrow> (int \<times> cents) list \<Rightarrow> bool"
  assumes alloc_keys: "alloc t bs tk = Inr sh \<Longrightarrow> map fst sh = map fst bs"
    and alloc_sum: "ok t bs \<Longrightarrow> alloc t bs tk = Inr sh \<Longrightarrow> (\<Sum>x\<leftarrow>sh. snd x) = t"
    and alloc_nonneg: "ok t bs \<Longrightarrow> alloc t bs tk = Inr sh \<Longrightarrow> (m, c) \<in> set sh \<Longrightarrow> 0 \<le> c"
    and ok_distinct: "ok t bs \<Longrightarrow> distinct (map fst bs)"
begin

definition share :: "(int \<times> cents) list \<Rightarrow> int \<Rightarrow> cents" where
  "share sh m = (case map_of sh m of None \<Rightarrow> 0 | Some c \<Rightarrow> c)"

lemma share_nonneg:
  assumes "ok t bs" "alloc t bs tk = Inr sh"
  shows "0 \<le> share sh m"
  using alloc_nonneg [OF assms] by (auto simp: share_def dest: map_of_SomeD split: option.splits)

lemma share_outside:
  assumes "alloc t bs tk = Inr sh" "m \<notin> set (map fst bs)"
  shows "share sh m = 0"
proof -
  have "m \<notin> fst ` set sh" using alloc_keys [OF assms(1)] assms(2) by (metis set_map)
  then show ?thesis by (simp add: share_def map_of_eq_None_iff [THEN iffD2])
qed

lemma sum_share_keys:
  assumes "distinct (map fst sh)"
  shows "(\<Sum>m\<leftarrow>map fst sh. share sh m) = (\<Sum>x\<leftarrow>sh. snd x)"
proof -
  have "share sh (fst x) = snd x" if "x \<in> set sh" for x
  proof -
    have "map_of sh (fst x) = Some (snd x)"
      using that assms by (intro map_of_is_SomeI) auto
    then show ?thesis by (simp add: share_def)
  qed
  then show ?thesis by (simp add: comp_def cong: map_cong)
qed

text \<open>Every client that looks a share up per participant distributes exactly the total.\<close>

lemma shares_distribute:
  assumes "ok t bs" "alloc t bs tk = Inr sh" "distinct ms" "set (map fst bs) \<subseteq> set ms"
  shows "(\<Sum>m\<leftarrow>ms. share sh m) = t"
proof -
  have d: "distinct (map fst sh)" using alloc_keys [OF assms(2)] ok_distinct [OF assms(1)] by simp
  have sub: "set (map fst sh) \<subseteq> set ms" using alloc_keys [OF assms(2)] assms(4) by simp
  have "(\<Sum>m\<leftarrow>ms. share sh m) = (\<Sum>m\<in>set ms. share sh m)"
    using assms(3) by (rule sum_list_distinct_conv_sum_set)
  also have "\<dots> = (\<Sum>m\<in>set (map fst sh). share sh m)"
    using sub share_outside [OF assms(2)] alloc_keys [OF assms(2)]
    by (intro sum.mono_neutral_right) auto
  also have "\<dots> = (\<Sum>m\<leftarrow>map fst sh. share sh m)"
    using d by (rule sum_list_distinct_conv_sum_set [symmetric])
  also have "\<dots> = t" using sum_share_keys [OF d] alloc_sum [OF assms(1,2)] by simp
  finally show ?thesis .
qed

end

lemma allocation_keys:
  "allocation_cents t bases tk = Inr sh \<Longrightarrow> map fst sh = map fst bases"
  by (auto simp: allocation_cents_def Let_def comp_def case_prod_unfold split: if_splits)

lemma alloc_ok_sum_nonneg: "alloc_ok t bases \<Longrightarrow> 0 \<le> (\<Sum>x\<leftarrow>bases. snd x)"
  by (rule sum_list_nonneg_int) (auto simp: alloc_ok_def)

lemma allocation_sum:
  assumes ok: "alloc_ok t bases" and run: "allocation_cents t bases tk = Inr sh"
  shows "(\<Sum>x\<leftarrow>sh. snd x) = t"
proof (cases "(\<Sum>x\<leftarrow>bases. snd x) = 0")
  case True
  with run have "t = 0" "sh = map (\<lambda>(m, b). (m, 0)) bases"
    by (auto simp: allocation_cents_def Let_def split: if_splits)
  then show ?thesis by (simp add: comp_def case_prod_unfold)
next
  case False
  with alloc_ok_sum_nonneg [OF ok] have s: "0 < (\<Sum>x\<leftarrow>bases. snd x)" by simp
  let ?w = "alloc_winners t bases tk" and ?fs = "map (\<lambda>(m, b). (m, alloc_floor t bases b)) bases"
  note w = alloc_winners_facts [OF ok s, where tk = tk]
  have fst: "map fst ?fs = map fst bases" by (simp add: comp_def case_prod_unfold)
  have "sh = map (\<lambda>(m, f). (m, if m \<in> set ?w then f + 1 else f)) ?fs"
    using run allocation_cents_eq [OF ok s] by (auto simp: comp_def case_prod_unfold)
  then have "(\<Sum>x\<leftarrow>sh. snd x) = (\<Sum>(m, f)\<leftarrow>?fs. if m \<in> set ?w then f + 1 else f)"
    by (simp add: comp_def case_prod_unfold)
  also have "\<dots> = (\<Sum>x\<leftarrow>?fs. snd x) + int (length ?w)"
    using w ok by (intro sum_list_winners) (simp_all only: fst alloc_ok_def)
  also have "\<dots> = t" by (simp add: w(3) comp_def case_prod_unfold)
  finally show ?thesis .
qed

lemma allocation_share_cases:
  assumes ok: "alloc_ok t bases" and s: "0 < (\<Sum>x\<leftarrow>bases. snd x)"
    and run: "allocation_cents t bases tk = Inr sh" and m: "(m, c) \<in> set sh"
  obtains b where "(m, b) \<in> set bases"
    "c = alloc_floor t bases b \<or> (c = alloc_floor t bases b + 1 \<and> t * b mod (\<Sum>x\<leftarrow>bases. snd x) \<noteq> 0)"
proof -
  from run allocation_cents_eq [OF ok s] m
  obtain b where b: "(m, b) \<in> set bases"
    "c = (if m \<in> set (alloc_winners t bases tk) then alloc_floor t bases b + 1 else alloc_floor t bases b)"
    by auto
  have "t * b mod (\<Sum>x\<leftarrow>bases. snd x) \<noteq> 0" if "m \<in> set (alloc_winners t bases tk)"
  proof -
    from alloc_winners_facts(4) [OF ok s that] obtain b' where
      "(m, b') \<in> set bases" "t * b' mod (\<Sum>x\<leftarrow>bases. snd x) \<noteq> 0" by blast
    moreover have "b' = b" using ok b(1) calculation(1)
      by (metis alloc_ok_def eq_key_imp_eq_value)
    ultimately show ?thesis by simp
  qed
  with b show thesis by (intro that) auto
qed

lemma allocation_nonneg:
  assumes ok: "alloc_ok t bases" and run: "allocation_cents t bases tk = Inr sh"
    and m: "(m, c) \<in> set sh"
  shows "0 \<le> c"
proof (cases "(\<Sum>x\<leftarrow>bases. snd x) = 0")
  case True
  with run m show ?thesis by (auto simp: allocation_cents_def Let_def split: if_splits)
next
  case False
  with alloc_ok_sum_nonneg [OF ok] have s: "0 < (\<Sum>x\<leftarrow>bases. snd x)" by simp
  from allocation_share_cases [OF ok s run m] obtain b where
    "(m, b) \<in> set bases" "c = alloc_floor t bases b \<or> c = alloc_floor t bases b + 1" by blast
  moreover have "0 \<le> alloc_floor t bases b"
    using alloc_product_bound(1) [OF ok calculation(1)] ok s
    by (simp add: alloc_floor_def alloc_ok_def pos_imp_zdiv_nonneg_iff)
  ultimately show ?thesis by auto
qed

interpretation closing_alloc: apportionment allocation_cents alloc_ok
  by unfold_locales
    (auto intro: allocation_keys allocation_sum allocation_nonneg simp: alloc_ok_def)

lemma allocation_returns:
  assumes "alloc_ok t bases" "t = 0 \<or> 0 < (\<Sum>x\<leftarrow>bases. snd x)"
  obtains sh where "allocation_cents t bases tk = Inr sh"
  using assms alloc_ok_sum_nonneg [OF assms(1)] allocation_cents_eq [OF assms(1)]
  by (cases "0 < (\<Sum>x\<leftarrow>bases. snd x)") (auto simp: allocation_cents_def Let_def)

lemma allocation_single:
  assumes "0 \<le> t" "0 < b" "t * b < 10 ^ 59"
  shows "allocation_cents t [(m, b)] tk = Inr [(m, t)]"
proof -
  have ok: "alloc_ok t [(m, b)]" using assms by (simp add: alloc_ok_def)
  obtain sh where sh: "allocation_cents t [(m, b)] tk = Inr sh"
    using allocation_returns [OF ok] assms by auto
  with allocation_keys [OF sh] allocation_sum [OF ok sh] show ?thesis
    by (cases sh) auto
qed

section \<open>Largest remainders win\<close>

text \<open>With a little more head room the 60-digit fractions order members as the exact remainders do.\<close>

lemma fraction_error:
  assumes t: "0 \<le> t" and b: "0 \<le> b" and s: "0 < s" and tb: "t * b < 10 ^ 57" and ts: "s < 10 ^ 57"
  shows "\<bar>dsub 60 (exact_share t b s) (of_int (round_down (exact_share t b s)))
      - of_int (t * b mod s) / of_int s\<bar> < 1 / (4 * of_int s)"
proof -
  have tb59: "t * b < 10 ^ 59" using tb by simp
  define n where "n = t * b div s"
  define r where "r = t * b mod s"
  let ?e = "exact_share t b s"
  note bnd = exact_share_bounds [OF t b s tb59, folded n_def r_def]
  have rd: "round_down ?e = n" unfolding n_def by (rule round_down_exact_share [OF t b s tb59])
  have sp: "(0::rat) < of_int s" using s by simp
  show ?thesis
  proof (cases "r = 0")
    case True
    then show ?thesis using bnd(3) sp by (simp add: dsub_def rd flip: r_def)
  next
    case False
    define x where "x = (of_int (t * b) :: rat) / of_int s"
    have xr: "x = of_int n + of_int r / of_int s"
      using sp by (simp add: x_def n_def r_def add_divide_eq_iff flip: of_int_mult of_int_add)
    have tbpos: "0 < t * b" using False t b unfolding r_def
      by (metis mod_0 mult_nonneg_nonneg order_less_le)
    have e: "?e = ctx 60 x" using t b tb59 by (simp add: exact_share_def exact_share_product x_def)
    have xpos: "0 < x" unfolding x_def using tbpos s by (intro divide_pos_pos) (simp_all only: of_int_0_less_iff)
    have small: "of_int (t * b) / (10 ^ 59 :: rat) \<le> 1 / 100"
    proof -
      have "(of_int (t * b) :: rat) \<le> 10 ^ 57"
        using tb by (metis of_int_le_iff of_int_numeral of_int_power order_less_imp_le)
      then show ?thesis by (simp add: mult.commute)
    qed
    have "\<bar>?e - x\<bar> \<le> x * 10 powi (1 - int 60) / 2"
      unfolding e by (rule ctx_rel_error [OF xpos]) simp
    also have "\<dots> = of_int (t * b) / 10 ^ 59 / 2 / of_int s"
      by (simp add: x_def power_int_def field_simps)
    also have "\<dots> \<le> 1 / 100 / of_int s"
      using small sp by (intro divide_right_mono) auto
    finally have e1: "\<bar>?e - x\<bar> \<le> 1 / 100 / of_int s" .
    have d0: "0 < ?e - of_int n" "?e - of_int n < 1" using bnd(2) bnd(4) [OF False] by auto
    have "\<bar>ctx 60 (?e - of_int n) - (?e - of_int n)\<bar> \<le> (?e - of_int n) * 10 powi (1 - int 60) / 2"
      by (rule ctx_rel_error [OF d0(1)]) simp
    also have "\<dots> \<le> 1 * 10 powi (1 - int 60) / 2"
      using d0 by (intro divide_right_mono mult_right_mono) auto
    also have "\<dots> \<le> 1 / 100 / of_int s"
    proof -
      have "(of_int s :: rat) \<le> 10 ^ 57"
        using ts by (metis of_int_le_iff of_int_numeral of_int_power order_less_imp_le)
      then show ?thesis using sp by (simp add: power_int_def field_simps)
    qed
    finally have e2: "\<bar>dsub 60 ?e (of_int n) - (?e - of_int n)\<bar> \<le> 1 / 100 / of_int s"
      by (simp add: dsub_def)
    have "\<bar>dsub 60 ?e (of_int n) - of_int r / of_int s\<bar> \<le> 1 / 50 / of_int s"
    proof -
      have "\<bar>dsub 60 ?e (of_int n) - of_int r / of_int s\<bar>
          \<le> \<bar>dsub 60 ?e (of_int n) - (?e - of_int n)\<bar> + \<bar>?e - x\<bar>"
        by (simp add: xr abs_if)
      also have "\<dots> \<le> 1 / 100 / of_int s + 1 / 100 / of_int s" using e1 e2 by (rule add_mono [rotated])
      finally show ?thesis by simp
    qed
    also have "\<dots> < 1 / (4 * of_int s)" using sp by (simp add: field_simps)
    finally show ?thesis by (simp add: rd flip: r_def)
  qed
qed

lemma sort_prefix_key:
  fixes k :: "'a \<Rightarrow> 'b::linorder"
  assumes "x \<in> set (take n (sort_key k xs))" and "y \<in> set xs" "y \<notin> set (take n (sort_key k xs))"
  shows "k x \<le> k y"
proof -
  let ?ys = "sort_key k xs"
  have "y \<in> set (take n ?ys @ drop n ?ys)" using assms(2) by (simp only: append_take_drop_id set_sort)
  with assms(3) have "y \<in> set (drop n ?ys)" unfolding set_append by blast
  moreover have "sorted (map k (take n ?ys) @ map k (drop n ?ys))"
    by (simp only: map_append [symmetric] append_take_drop_id sorted_sort_key)
  ultimately show ?thesis using assms(1) by (auto simp: sorted_append)
qed

text \<open>The fraction the code sorts by, and what winning means for it: a larger fraction, or the same one and a tie
  key that is not greater.\<close>

definition share_fraction :: "cents \<Rightarrow> cents \<Rightarrow> cents \<Rightarrow> decimal" where
  "share_fraction t b s = dsub 60 (exact_share t b s) (of_int (round_down (exact_share t b s)))"

lemma winner_key:
  assumes ok: "alloc_ok t bases"
    and m: "(m, b) \<in> set bases" "m \<in> set (alloc_winners t bases tk)"
    and m': "(m', b') \<in> set bases" "m' \<notin> set (alloc_winners t bases tk)"
  defines "f \<equiv> \<lambda>c. share_fraction t c (\<Sum>x\<leftarrow>bases. snd x)"
  shows "f b' \<le> f b" and "f b' = f b \<Longrightarrow> tk m \<le> tk m'"
proof -
  let ?n = "nat (t - (\<Sum>x\<leftarrow>bases. alloc_floor t bases (snd x)))" and ?k = "\<lambda>x. (- f (snd x), tk (fst x))"
  let ?ys = "sort_key ?k bases"
  have w: "alloc_winners t bases tk = map fst (take ?n ?ys)"
    by (simp add: alloc_winners_def Let_def case_prod_unfold f_def share_fraction_def)
  from m(2) obtain c where c: "(m, c) \<in> set (take ?n ?ys)" by (auto simp: w)
  then have "(m, c) \<in> set bases" using set_take_subset [of ?n ?ys] by auto
  with m(1) ok have "c = b" by (metis alloc_ok_def eq_key_imp_eq_value)
  with c have x: "(m, b) \<in> set (take ?n ?ys)" by simp
  from m'(2) have "(m', b') \<notin> set (take ?n ?ys)" unfolding w by force
  from sort_prefix_key [OF x m'(1) this] have "?k (m, b) \<le> ?k (m', b')" .
  then show "f b' \<le> f b" and "f b' = f b \<Longrightarrow> tk m \<le> tk m'" by (auto simp: less_eq_prod_def)
qed

lemma tight_products:
  assumes ok: "alloc_ok t bases" and tight: "t * (\<Sum>x\<leftarrow>bases. snd x) < 10 ^ 57" and m: "(m, b) \<in> set bases"
  shows "0 \<le> b" "t * b < 10 ^ 57"
proof -
  have t: "0 \<le> t" using ok by (simp add: alloc_ok_def)
  have "b \<le> (\<Sum>x\<leftarrow>bases. snd x)" using m ok by (intro base_le_total) (auto simp: alloc_ok_def)
  then have "t * b \<le> t * (\<Sum>x\<leftarrow>bases. snd x)" using t by (rule mult_left_mono)
  with tight alloc_product_bound(1) [OF ok m] show "0 \<le> b" "t * b < 10 ^ 57" by simp_all
qed

lemma winner_remainder:
  assumes ok: "alloc_ok t bases" and s: "0 < (\<Sum>x\<leftarrow>bases. snd x)" "(\<Sum>x\<leftarrow>bases. snd x) < 10 ^ 57"
    and tight: "t * (\<Sum>x\<leftarrow>bases. snd x) < 10 ^ 57"
    and m: "(m, b) \<in> set bases" "m \<in> set (alloc_winners t bases tk)"
    and m': "(m', b') \<in> set bases" "m' \<notin> set (alloc_winners t bases tk)"
  shows "t * b' mod (\<Sum>x\<leftarrow>bases. snd x) \<le> t * b mod (\<Sum>x\<leftarrow>bases. snd x)"
proof (rule ccontr)
  let ?S = "\<Sum>x\<leftarrow>bases. snd x"
  let ?f = "\<lambda>c. share_fraction t c ?S"
  assume "\<not> ?thesis"
  then have gt: "t * b mod ?S + 1 \<le> t * b' mod ?S" by simp
  have t: "0 \<le> t" using ok by (simp add: alloc_ok_def)
  have e: "\<bar>?f b - of_int (t * b mod ?S) / of_int ?S\<bar> < 1 / (4 * of_int ?S)"
    using fraction_error [OF t _ s(1) _ s(2)] tight_products [OF ok tight m(1)] by (simp add: share_fraction_def)
  have e': "\<bar>?f b' - of_int (t * b' mod ?S) / of_int ?S\<bar> < 1 / (4 * of_int ?S)"
    using fraction_error [OF t _ s(1) _ s(2)] tight_products [OF ok tight m'(1)] by (simp add: share_fraction_def)
  have le: "?f b' \<le> ?f b" by (rule winner_key(1) [OF ok m m'])
  have sp: "(0::rat) < of_int ?S" using s(1) by simp
  have "(of_int (t * b mod ?S) + 1 :: rat) \<le> of_int (t * b' mod ?S)"
    using gt by (metis of_int_1 of_int_add of_int_le_iff)
  then have "(of_int (t * b mod ?S) + 1) / of_int ?S \<le> of_int (t * b' mod ?S) / (of_int ?S :: rat)"
    using sp by (intro divide_right_mono) auto
  then have "of_int (t * b mod ?S) / of_int ?S + 1 / of_int ?S \<le> of_int (t * b' mod ?S) / (of_int ?S :: rat)"
    by (simp add: add_divide_distrib)
  moreover have "1 / (4 * of_int ?S) = 1 / of_int ?S / (4::rat)" by simp
  moreover have "0 < 1 / (of_int ?S :: rat)" using sp by simp
  ultimately show False using e e' le unfolding abs_less_iff by linarith
qed

section \<open>Equal remainders\<close>

text \<open>The code compares the rounded 60-digit fractions, whose number of decimals depends on the digits before the
  point. Equal remainders give equal fractions when the rounded-down shares have as many digits.\<close>

definition same_digits :: "int \<Rightarrow> int \<Rightarrow> bool" where
  "same_digits n n' \<longleftrightarrow> ndigits (nat n) = ndigits (nat n') \<and> (n = 0 \<longleftrightarrow> n' = 0)"

lemma ndigits_less_iff: "0 < k \<Longrightarrow> ndigits n \<le> k \<longleftrightarrow> n < 10 ^ k"
proof (induction n arbitrary: k rule: ndigits.induct)
  case (1 n)
  show ?case
  proof (cases "n < 10")
    case True
    have "(10::nat) ^ 1 \<le> 10 ^ k" using "1.prems" by (intro power_increasing) auto
    with True "1.prems" show ?thesis by (subst ndigits.simps) auto
  next
    case False
    show ?thesis
    proof (cases "k = 1")
      case True
      have "ndigits (n div 10) \<noteq> 0" by (subst ndigits.simps) simp
      with True False show ?thesis by (subst ndigits.simps) auto
    next
      case k: False
      with "1.prems" obtain j where j: "k = Suc j" "0 < j" by (cases k) auto
      have "ndigits n \<le> k \<longleftrightarrow> ndigits (n div 10) \<le> j" using False j by (subst ndigits.simps) auto
      also have "\<dots> \<longleftrightarrow> n div 10 < 10 ^ j" by (rule "1.IH" [OF False j(2)])
      also have "\<dots> \<longleftrightarrow> n < 10 ^ k" by (simp add: j(1) div_less_iff_less_mult mult.commute)
      finally show ?thesis .
    qed
  qed
qed

lemma same_digits_power:
  assumes "same_digits n n'" "0 < n" "0 < n'" "n < 10 ^ k"
  shows "n' < 10 ^ k"
proof -
  have k: "0 < k" using assms(2,4) by (cases k) auto
  have "nat n < 10 ^ k" using assms(2,4) by (simp add: nat_less_iff)
  then have "ndigits (nat n') \<le> k" using assms(1) ndigits_less_iff [OF k, of "nat n"] by (simp add: same_digits_def)
  then have "nat n' < 10 ^ k" using k by (simp add: ndigits_less_iff)
  then show ?thesis using assms(3) by (simp add: nat_less_iff)
qed

lemma round_half_even_shift: "even m \<Longrightarrow> round_half_even (of_int m + y) = m + round_half_even y"
  by (auto simp: round_half_even_def Let_def)

lemma adjusted_shift:
  assumes d: "same_digits n n'" and n: "0 < n" "0 < n'" and y: "0 \<le> (y::rat)" "y < 1"
  shows "adjusted (of_int n' + y) \<le> adjusted (of_int n + y)" "0 \<le> adjusted (of_int n + y)"
proof -
  let ?x = "of_int n + y" and ?x' = "of_int n' + y"
  have pos: "0 < ?x" "0 < ?x'" using n y by (simp_all add: add_pos_nonneg)
  have "(1::rat) \<le> of_int n" using n(1) by simp
  then have one: "1 \<le> ?x" using y by linarith
  then have "\<not> adjusted ?x + 1 \<le> 0"
    using adjusted_bounds(2) [OF pos(1)] powi_mono_rat [of "adjusted ?x + 1" 0] by auto
  then show a: "0 \<le> adjusted ?x" by simp
  define k where "k = nat (adjusted ?x + 1)"
  have k: "10 powi (adjusted ?x + 1) = (of_int (10 ^ k) :: rat)" using a by (simp add: k_def power_int_def)
  have "?x < of_int (10 ^ k)" using adjusted_bounds(2) [OF pos(1)] unfolding k .
  then have "of_int n < (of_int (10 ^ k) :: rat)" using y by linarith
  then have "n < 10 ^ k" by (simp only: of_int_less_iff)
  from same_digits_power [OF d n this] have "n' + 1 \<le> 10 ^ k" by simp
  then have "of_int n' + 1 \<le> (of_int (10 ^ k) :: rat)" by (metis of_int_1 of_int_add of_int_le_iff)
  then have "?x' < 10 powi (adjusted ?x + 1)" using y unfolding k by linarith
  from adjusted_less [OF pos(2) this] show "adjusted ?x' \<le> adjusted ?x" by simp
qed

lemma ctx_shift:
  assumes n: "0 < n" "n < 10 ^ 58" and y: "0 \<le> (y::rat)" "y < 1"
  defines "q \<equiv> 10 powi (adjusted (of_int n + y) - 59)"
  shows "ctx 60 (of_int n + y) = of_int n + of_int (round_half_even (y / q)) * q"
proof -
  let ?x = "of_int n + y"
  have pos: "0 < ?x" using n y by (simp add: add_pos_nonneg)
  have "same_digits n n" by (simp add: same_digits_def)
  from adjusted_shift(2) [OF this n(1) n(1) y] have a: "0 \<le> adjusted ?x" .
  have "of_int (n + 1) \<le> (of_int (10 ^ 58) :: rat)" using n(2) by (simp only: of_int_le_iff)
  then have "?x < 10 powi 58" using y by simp
  from adjusted_less [OF pos this] have a58: "adjusted ?x < 58" .
  define j where "j = nat (59 - adjusted ?x)"
  have "q * 10 powi int j = 10 powi (adjusted ?x - 59 + int j)" unfolding q_def by (rule power_int_add [symmetric]) simp
  also have "adjusted ?x - 59 + int j = 0" using a58 by (simp add: j_def)
  finally have qj: "q * 10 ^ j = 1" by simp
  have q: "0 < q" by (simp add: q_def)
  have j: "0 < j" using a58 by (simp add: j_def)
  have "1 / q = 10 ^ j" using qj q by (simp add: nonzero_divide_eq_eq mult.commute)
  then have "?x / q = of_int (n * 10 ^ j) + y / q"
    using q by (simp add: add_divide_distrib divide_inverse [of "of_int n"] inverse_eq_divide)
  moreover have "even (n * 10 ^ j)" using j by simp
  ultimately have "round_half_even (?x / q) = n * 10 ^ j + round_half_even (y / q)"
    by (simp only: round_half_even_shift)
  moreover have "ctx 60 ?x = of_int (round_half_even (?x / q)) * q"
    using pos by (simp add: ctx_def q_def Let_def)
  ultimately have "ctx 60 ?x = of_int n * (q * 10 ^ j) + of_int (round_half_even (y / q)) * q"
    by (simp add: algebra_simps)
  then show ?thesis by (simp add: qj)
qed

lemma exact_share_split:
  assumes t: "0 \<le> t" and b: "0 \<le> b" and s: "0 < s" and tb: "t * b < 10 ^ 57"
  shows "exact_share t b s = ctx 60 (of_int (t * b div s) + of_int (t * b mod s) / of_int s)"
proof -
  have "t * b = t * b div s * s + t * b mod s" by simp
  then have "(of_int (t * b) :: rat) = of_int (t * b div s) * of_int s + of_int (t * b mod s)" by (metis of_int_add of_int_mult)
  then have "of_int (t * b) / of_int s = (of_int (t * b div s) + of_int (t * b mod s) / of_int s :: rat)"
    using s by (simp add: add_divide_distrib)
  moreover have "t * b < 10 ^ 59" using tb by simp
  ultimately show ?thesis using t b by (simp add: exact_share_def exact_share_product del: of_int_mult)
qed

lemma equal_fractions:
  assumes t: "0 \<le> t" and s: "0 < s" and b: "0 \<le> b" "t * b < 10 ^ 57" and b': "0 \<le> b'" "t * b' < 10 ^ 57"
    and r: "t * b mod s = t * b' mod s" and d: "same_digits (t * b div s) (t * b' div s)"
  shows "share_fraction t b s = share_fraction t b' s"
proof -
  define n where "n = t * b div s"
  define n' where "n' = t * b' div s"
  define y where "y = (of_int (t * b mod s) / of_int s :: rat)"
  have down: "round_down (exact_share t c s) = t * c div s" if "0 \<le> c" "t * c < 10 ^ 57" for c
    using round_down_exact_share [OF t that(1) s] that(2) by simp
  have share: "exact_share t b s = ctx 60 (of_int n + y)" "exact_share t b' s = ctx 60 (of_int n' + y)"
    using exact_share_split [OF t b(1) s b(2)] exact_share_split [OF t b'(1) s b'(2)] by (simp_all add: n_def n'_def y_def r)
  have y: "0 \<le> y" "y < 1" using s by (simp_all add: y_def)
  have n: "0 \<le> n" "0 \<le> n'" using t b(1) b'(1) s by (simp_all add: n_def n'_def pos_imp_zdiv_nonneg_iff)
  have small: "n < 10 ^ 58" "n' < 10 ^ 58"
  proof -
    have "t * c div s \<le> t * c" if "0 \<le> c" for c
      using t that s zdiv_mono2 [of "t * c" 1 s] by simp
    then show "n < 10 ^ 58" "n' < 10 ^ 58" using b b' unfolding n_def n'_def by force+
  qed
  have "exact_share t b s - of_int n = exact_share t b' s - of_int n'"
  proof (cases "n = 0")
    case True
    with d have "n' = 0" by (simp add: same_digits_def n_def n'_def)
    with True show ?thesis by (simp add: share)
  next
    case False
    with d n have p: "0 < n" "0 < n'" by (auto simp: same_digits_def n_def n'_def)
    have d': "same_digits n n'" "same_digits n' n" using d by (auto simp: same_digits_def n_def n'_def)
    have "adjusted (of_int n + y) = adjusted (of_int n' + y)"
      using adjusted_shift(1) [OF d'(1) p y] adjusted_shift(1) [OF d'(2) p(2,1) y] by simp
    then show ?thesis by (simp add: share ctx_shift [OF p(1) small(1) y] ctx_shift [OF p(2) small(2) y])
  qed
  then show ?thesis by (simp add: share_fraction_def dsub_def down [OF b] down [OF b'] n_def n'_def)
qed

lemma winner_tie:
  assumes ok: "alloc_ok t bases" and s: "0 < (\<Sum>x\<leftarrow>bases. snd x)"
    and tight: "t * (\<Sum>x\<leftarrow>bases. snd x) < 10 ^ 57"
    and m: "(m, b) \<in> set bases" "m \<in> set (alloc_winners t bases tk)"
    and m': "(m', b') \<in> set bases" "m' \<notin> set (alloc_winners t bases tk)"
    and r: "t * b' mod (\<Sum>x\<leftarrow>bases. snd x) = t * b mod (\<Sum>x\<leftarrow>bases. snd x)"
    and d: "same_digits (t * b' div (\<Sum>x\<leftarrow>bases. snd x)) (t * b div (\<Sum>x\<leftarrow>bases. snd x))"
  shows "tk m \<le> tk m'"
proof (rule winner_key(2) [OF ok m m'], rule equal_fractions [OF _ s _ _ _ _ r d])
  show "0 \<le> t" using ok by (simp add: alloc_ok_def)
qed (fact tight_products [OF ok tight m(1)] tight_products [OF ok tight m'(1)])+

section \<open>Properties\<close>

lemma share_unique:
  assumes "alloc_ok t bases" "allocation_cents t bases tk = Inr sh" "(m, c) \<in> set sh" "(m, c') \<in> set sh"
  shows "c' = c"
proof -
  have "distinct (map fst sh)" using assms(1) allocation_keys [OF assms(2)] by (simp add: alloc_ok_def)
  then show ?thesis using assms(3,4) by (metis eq_key_imp_eq_value)
qed

lemma rounded_up_iff:
  assumes ok: "alloc_ok t bases" and s: "0 < (\<Sum>x\<leftarrow>bases. snd x)"
    and run: "allocation_cents t bases tk = Inr sh" and m: "(m, b) \<in> set bases"
  shows "(m, t * b div (\<Sum>x\<leftarrow>bases. snd x) + 1) \<in> set sh \<longleftrightarrow> m \<in> set (alloc_winners t bases tk)"
proof -
  let ?c = "if m \<in> set (alloc_winners t bases tk) then alloc_floor t bases b + 1 else alloc_floor t bases b"
  have mem: "(m, ?c) \<in> set sh" using allocation_cents_eq [OF ok s, of tk] run m by force
  have "(m, t * b div (\<Sum>x\<leftarrow>bases. snd x) + 1) \<in> set sh \<longleftrightarrow> ?c = t * b div (\<Sum>x\<leftarrow>bases. snd x) + 1"
    using share_unique [OF ok run mem] mem by metis
  then show ?thesis by (simp add: alloc_floor_def)
qed

text \<open>The allocation never loses or invents a cent: over distinct members with non-negative
  bases it returns one share per member, in the same order, and the shares add up to the
  distributable result.\<close>

theorem allocation_distributes_all:
  assumes "alloc_ok t bases" and "t = 0 \<or> 0 < (\<Sum>x\<leftarrow>bases. snd x)"
  shows "\<exists>sh. allocation_cents t bases tk = Inr sh \<and> map fst sh = map fst bases
    \<and> (\<Sum>x\<leftarrow>sh. snd x) = t"
  using allocation_returns [OF assms] closing_alloc.alloc_keys
    closing_alloc.alloc_sum [OF assms(1)] by metis

theorem allocation_distributes_all_witness:
  "\<exists>sh. allocation_cents 100 [(1, 10), (2, 10), (3, 10)] (\<lambda>m. (m, m)) = Inr sh
    \<and> map fst sh = [1, 2, 3] \<and> (\<Sum>x\<leftarrow>sh. snd x) = 100"
  using allocation_distributes_all [of 100 "[(1, 10), (2, 10), (3, 10)]" "\<lambda>m. (m, m)"]
  by (simp add: alloc_ok_def)

text \<open>Quota rule: every share is the exact proportion rounded down or up to a cent, so it
  misses the exact proportion by less than one cent, and a member without eligible principal
  receives nothing.\<close>

theorem allocation_quota:
  assumes "alloc_ok t bases" and "0 < (\<Sum>x\<leftarrow>bases. snd x)"
    and "allocation_cents t bases tk = Inr sh" and "(m, c) \<in> set sh"
  shows "\<exists>b. (m, b) \<in> set bases \<and> \<bar>c * (\<Sum>x\<leftarrow>bases. snd x) - t * b\<bar> < (\<Sum>x\<leftarrow>bases. snd x)
    \<and> (b = 0 \<longrightarrow> c = 0)"
proof -
  let ?S = "\<Sum>x\<leftarrow>bases. snd x"
  from allocation_share_cases [OF assms] obtain b where b: "(m, b) \<in> set bases"
    "c = t * b div ?S \<or> (c = t * b div ?S + 1 \<and> t * b mod ?S \<noteq> 0)"
    unfolding alloc_floor_def by blast
  have eq: "t * b = t * b div ?S * ?S + t * b mod ?S" by simp
  have r: "0 \<le> t * b mod ?S" "t * b mod ?S < ?S" using assms(2) by auto
  have "\<bar>c * ?S - t * b\<bar> < ?S"
    using b(2)
  proof
    assume "c = t * b div ?S"
    then have "c * ?S = t * b div ?S * ?S" by simp
    then show ?thesis using eq r by linarith
  next
    assume c: "c = t * b div ?S + 1 \<and> t * b mod ?S \<noteq> 0"
    then have "c * ?S = t * b div ?S * ?S + ?S" by (simp add: distrib_right)
    then show ?thesis using eq r c by linarith
  qed
  moreover have "b = 0 \<longrightarrow> c = 0" using b(2) by auto
  ultimately show ?thesis using b(1) by blast
qed

theorem allocation_quota_witness:
  "\<exists>sh c b. allocation_cents 7 [(1, 10), (2, 0)] (\<lambda>m. (m, m)) = Inr sh \<and> (2, c) \<in> set sh
    \<and> (2, b) \<in> set [(1::int, 10::int), (2, 0)] \<and> \<bar>c * 10 - 7 * b\<bar> < 10 \<and> (b = 0 \<longrightarrow> c = 0)"
proof -
  have ok: "alloc_ok 7 [(1, 10), (2, 0)]" by (simp add: alloc_ok_def)
  from allocation_returns [OF ok] obtain sh where
    run: "allocation_cents 7 [(1, 10), (2, 0)] (\<lambda>m. (m, m)) = Inr sh" by auto
  from allocation_keys [OF run] obtain c where c: "(2, c) \<in> set sh" by auto
  show ?thesis using allocation_quota [OF ok _ run c] run c by auto
qed

text \<open>C35. Largest remainders win, and ties go to the smaller tie key: if one member is rounded up and another is not,
  the exact remainder of the first is at least that of the second, and when the two remainders are equal and the
  rounded-down shares have as many digits (as they do when the bases are equal), the first has the tie key, the pair of
  participation and member id, that is not greater.\<close>

theorem allocation_largest_remainder:
  assumes ok: "alloc_ok t bases" and s: "0 < (\<Sum>x\<leftarrow>bases. snd x)" "(\<Sum>x\<leftarrow>bases. snd x) < 10 ^ 57"
    and tight: "t * (\<Sum>x\<leftarrow>bases. snd x) < 10 ^ 57"
    and run: "allocation_cents t bases tk = Inr sh"
    and m: "(m, b) \<in> set bases" "(m, t * b div (\<Sum>x\<leftarrow>bases. snd x) + 1) \<in> set sh"
    and m': "(m', b') \<in> set bases" "(m', t * b' div (\<Sum>x\<leftarrow>bases. snd x)) \<in> set sh"
  shows "t * b' mod (\<Sum>x\<leftarrow>bases. snd x) \<le> t * b mod (\<Sum>x\<leftarrow>bases. snd x)
    \<and> (t * b' mod (\<Sum>x\<leftarrow>bases. snd x) = t * b mod (\<Sum>x\<leftarrow>bases. snd x)
        \<and> same_digits (t * b' div (\<Sum>x\<leftarrow>bases. snd x)) (t * b div (\<Sum>x\<leftarrow>bases. snd x)) \<longrightarrow> tk m \<le> tk m')"
proof -
  have up: "m \<in> set (alloc_winners t bases tk)" by (rule rounded_up_iff [OF ok s(1) run m(1), THEN iffD1]) (rule m(2))
  have down: "m' \<notin> set (alloc_winners t bases tk)"
    using rounded_up_iff [OF ok s(1) run m'(1)] share_unique [OF ok run m'(2)] by force
  show ?thesis
    using winner_remainder [OF ok s tight m(1) up m'(1) down] winner_tie [OF ok s(1) tight m(1) up m'(1) down] by blast
qed

lemma adjusted_unique: "10 powi e \<le> x \<Longrightarrow> x < 10 powi (e + 1) \<Longrightarrow> adjusted x = e"
  using adjusted_less [of x e] adjusted_less [of x "e + 1"] adjusted_bounds [of x] powi_pos_rat [of e]
  by (meson add_le_cancel_right linorder_not_less order.strict_trans1 order_antisym powi_mono_rat zle_add1_eq_le zless_imp_add1_zle)

lemma round_half_even_near: "\<bar>x - of_int m\<bar> < 1 / 2 \<Longrightarrow> round_half_even x = m"
  using round_half_even_error [of x] by linarith

lemma ctx_near:
  assumes x: "10 powi e \<le> x" "x < 10 powi (e + 1)" and m: "\<bar>x * 10 ^ k - of_int m\<bar> < 1 / 2" and k: "e - int p + 1 = - int k"
  shows "ctx p x = of_int m / 10 ^ k"
proof -
  have pos: "0 < x" using x(1) powi_pos_rat [of e] by linarith
  have q: "10 powi (- int k) = 1 / (10 :: rat) ^ k" by (simp add: power_int_minus inverse_eq_divide)
  have "round_half_even (x * 10 ^ k) = m" using m by (rule round_half_even_near)
  then show ?thesis using pos by (simp add: ctx_def adjusted_unique [OF x] k q)
qed

theorem allocation_largest_remainder_witness:
  "allocation_cents 1 [(1, 1), (2, 1), (3, 0)] (\<lambda>m. (10 - m, m)) = Inr [(1, 0), (2, 1), (3, 0)]
    \<and> 1 * (1::int) mod 2 \<le> 1 * 1 mod 2 \<and> (10 - 2, 2) \<le> (10 - 1 :: int, 1 :: int)"
proof -
  let ?bs = "[(1::int, 1::int), (2, 1), (3, 0)]" and ?tk = "\<lambda>m::int. (10 - m, m)"
  have half: "ctx 60 (1 / 2) = 1 / 2" by (rule ctx_exact [where k = 1 and m = 5]) simp_all
  then have share: "exact_share 1 1 2 = 1 / 2" "exact_share 1 0 2 = 0"
    using exact_share_product [of 1 1] exact_share_product [of 1 0] by (simp_all add: exact_share_def)
  have fl: "\<lfloor>1 / 2 :: rat\<rfloor> = 0" by (simp add: floor_eq_iff)
  have run: "allocation_cents 1 ?bs ?tk = Inr [(1, 0), (2, 1), (3, 0)]"
    by (simp add: allocation_cents_def Let_def slice_to_def round_down_def dsub_def less_eq_prod_def share half fl)
  have ok: "alloc_ok 1 ?bs" by (simp add: alloc_ok_def)
  from allocation_largest_remainder [OF ok _ _ _ run, of 2 1 1 1] run show ?thesis
    by (simp add: same_digits_def)
qed

text \<open>Without as many digits the tie key decides nothing: three members with bases 1, 4 and 31 share 12 cents, each with the
  remainder 12/36, and whatever the participation ids are the cent goes to the smallest base, whose
  fraction keeps one more decimal than the others.\<close>

lemma tie_key_ignored:
  "allocation_cents 12 [(1, 1), (2, 4), (3, 31)] tk = Inr [(1, 1), (2, 1), (3, 10)]"
proof -
  have near: "ctx 60 (1 / 3) = of_int 333333333333333333333333333333333333333333333333333333333333 / 10 ^ 60" "ctx 60 (4 / 3) = of_int 133333333333333333333333333333333333333333333333333333333333 / 10 ^ 59"
    "ctx 60 (31 / 3) = of_int 103333333333333333333333333333333333333333333333333333333333 / 10 ^ 58"
    by (rule ctx_near [where e = "- 1"] ctx_near [where e = 0] ctx_near [where e = 1]; simp add: power_int_def; fail)+
  have share: "exact_share 12 1 36 = ctx 60 (1 / 3)" "exact_share 12 4 36 = ctx 60 (4 / 3)" "exact_share 12 31 36 = ctx 60 (31 / 3)"
    using exact_share_product [of 12 1] exact_share_product [of 12 4] exact_share_product [of 12 31]
    by (simp_all add: exact_share_def)
  have down: "round_down (exact_share 12 1 36) = 0" "round_down (exact_share 12 4 36) = 1" "round_down (exact_share 12 31 36) = 10"
    by (simp_all add: share near round_down_def floor_eq_iff)
  have frac: "dsub 60 (exact_share 12 1 36) 0 = 333333333333333333333333333333333333333333333333333333333333 / 10 ^ 60"
    "dsub 60 (exact_share 12 4 36) 1 = 33333333333333333333333333333333333333333333333333333333333 / 10 ^ 59" "dsub 60 (exact_share 12 31 36) 10 = 3333333333333333333333333333333333333333333333333333333333 / 10 ^ 58"
    using ctx_exact [of "333333333333333333333333333333333333333333333333333333333333 / 10 ^ 60" 60 "333333333333333333333333333333333333333333333333333333333333" 60] ctx_exact [of "33333333333333333333333333333333333333333333333333333333333 / 10 ^ 59" 59 "33333333333333333333333333333333333333333333333333333333333" 60]
      ctx_exact [of "3333333333333333333333333333333333333333333333333333333333 / 10 ^ 58" 58 "3333333333333333333333333333333333333333333333333333333333" 60]
    by (simp_all add: dsub_def share near)
  show ?thesis
    by (simp add: allocation_cents_def Let_def slice_to_def down frac less_eq_prod_def)
qed

end
