(* ===== verification/Closing_Properties.thy ===== *)
theory Closing_Properties
  imports Allocation
begin

text \<open>
  Properties of \<open>calculate_cycle_closing\<close>: money is conserved from the realized result and
  the refundable principal to the participants' rows, the final assertion of the code cannot
  fail, the included gains are exactly those of the cycle, and the result does not depend on
  the order in which the evidence is listed.
\<close>

section \<open>The accumulated contributions\<close>

text \<open>The trace the step appends, given the events it has accumulated.\<close>

definition trace_of :: "contribution_evidence \<Rightarrow> string \<Rightarrow> event_acc \<Rightarrow> contribution_trace" where
  "trace_of c status ea =
     (let due = cents (co_amount c); full = (ea_signed ea = due \<and> 0 < due);
          blocked = (status = ''BLOCKED_DELINQUENCY'')
      in \<lparr>ct_contribution_id = co_id c, ct_member_id = co_member_id c, ct_amount = due,
          ct_confirmed_net_at_cutoff = ea_signed ea, ct_eligible = (full \<and> \<not> blocked),
          ct_refundable_principal = (if blocked then ea_signed ea else if full then due else 0),
          ct_event_ids = ea_used_ids ea\<rparr>)"

lemma contribution_step_result:
  assumes "contribution_step ev cutoff st c acc = Inr acc'"
  shows "(acc' = acc \<and> co_cycle_id c \<noteq> ev_cycle_id ev) \<or>
    (\<exists>status lim tr. map_of st (co_member_id c) = Some (status, lim)
      \<and> pa_trace acc' = pa_trace acc @ [tr] \<and> ct_member_id tr = co_member_id c
      \<and> ct_amount tr = cents (co_amount c)
      \<and> 0 \<le> ct_confirmed_net_at_cutoff tr \<and> ct_confirmed_net_at_cutoff tr \<le> ct_amount tr
      \<and> ct_eligible tr = (ct_confirmed_net_at_cutoff tr = ct_amount tr \<and> 0 < ct_amount tr
            \<and> status \<noteq> ''BLOCKED_DELINQUENCY'')
      \<and> ct_refundable_principal tr = (if status = ''BLOCKED_DELINQUENCY'' then ct_confirmed_net_at_cutoff tr
            else if ct_eligible tr then ct_amount tr else 0)
      \<and> pa_rateio acc' = (if ct_eligible tr then add_at (co_member_id c) (ct_amount tr) (pa_rateio acc)
            else pa_rateio acc)
      \<and> pa_refundable acc' = add_at (co_member_id c) (ct_refundable_principal tr) (pa_refundable acc))"
proof (cases "co_cycle_id c = ev_cycle_id ev")
  case True
  with assms obtain status lim where st: "map_of st (co_member_id c) = Some (status, lim)"
    by (auto simp: contribution_step_def split: option.splits)
  with True assms obtain events ea where "contribution_outcome cutoff c status events ea acc = Inr acc'"
    by (auto simp: contribution_step_def Let_def res_bind_eq_Inr)
  then have ea: "0 \<le> ea_signed ea" "ea_signed ea \<le> cents (co_amount c)"
    "acc' = \<lparr>pa_rateio = (if ct_eligible (trace_of c status ea)
           then add_at (co_member_id c) (cents (co_amount c)) (pa_rateio acc) else pa_rateio acc),
       pa_refundable = add_at (co_member_id c) (ct_refundable_principal (trace_of c status ea)) (pa_refundable acc),
       pa_trace = pa_trace acc @ [trace_of c status ea]\<rparr>"
    by (auto simp add: contribution_outcome_def trace_of_def Let_def not_less split: if_splits)
  with st show ?thesis
    by (intro disjI2 exI [of _ status] exI [of _ lim] exI [of _ "trace_of c status ea"])
      (simp add: trace_of_def Let_def)
next
  case False
  with assms show ?thesis by (simp add: contribution_step_def)
qed

text \<open>What the traced contributions of a member add up to.\<close>

definition member_sum :: "(contribution_trace \<Rightarrow> cents) \<Rightarrow> contribution_trace list \<Rightarrow> int \<Rightarrow> cents" where
  "member_sum f trs m = (\<Sum>tr\<leftarrow>filter (\<lambda>tr. ct_member_id tr = m) trs. f tr)"

definition eligible_amount :: "contribution_trace \<Rightarrow> cents" where
  "eligible_amount tr = (if ct_eligible tr then ct_amount tr else 0)"

definition trace_wf :: "contribution_trace \<Rightarrow> bool" where
  "trace_wf tr \<longleftrightarrow> 0 \<le> ct_confirmed_net_at_cutoff tr \<and> ct_confirmed_net_at_cutoff tr \<le> ct_amount tr
     \<and> 0 \<le> ct_refundable_principal tr \<and> ct_refundable_principal tr \<le> ct_confirmed_net_at_cutoff tr
     \<and> (ct_eligible tr \<longrightarrow> ct_confirmed_net_at_cutoff tr = ct_amount tr
          \<and> ct_refundable_principal tr = ct_amount tr)"

definition principal_inv :: "(int \<times> string \<times> instant) list \<Rightarrow> principal_acc \<Rightarrow> bool" where
  "principal_inv st acc \<longleftrightarrow>
     (\<forall>tr\<in>set (pa_trace acc). trace_wf tr)
     \<and> pa_rateio acc = member_sum eligible_amount (pa_trace acc)
     \<and> pa_refundable acc = member_sum ct_refundable_principal (pa_trace acc)
     \<and> (\<forall>tr\<in>set (pa_trace acc). ct_member_id tr \<in> fst ` set st)
     \<and> (\<forall>tr\<in>set (pa_trace acc). map_option fst (map_of st (ct_member_id tr)) = Some ''BLOCKED_DELINQUENCY''
          \<longrightarrow> \<not> ct_eligible tr)"

lemma member_sum_append:
  "member_sum f (trs @ [tr]) = add_at (ct_member_id tr) (f tr) (member_sum f trs)"
  by (auto simp: member_sum_def add_at_def)

lemma principal_inv_init:
  "principal_inv st \<lparr>pa_rateio = (\<lambda>_. 0), pa_refundable = (\<lambda>_. 0), pa_trace = []\<rparr>"
  by (auto simp: principal_inv_def member_sum_def)

lemma principal_inv_step:
  assumes "principal_inv st acc" "contribution_step ev cutoff st c acc = Inr acc'"
  shows "principal_inv st acc'"
  using contribution_step_result [OF assms(2)]
proof (elim disjE exE conjE)
  assume "acc' = acc"
  with assms(1) show ?thesis by simp
next
  fix status lim tr
  assume *: "map_of st (co_member_id c) = Some (status, lim)"
    "pa_trace acc' = pa_trace acc @ [tr]" "ct_member_id tr = co_member_id c"
    "ct_amount tr = cents (co_amount c)"
    "0 \<le> ct_confirmed_net_at_cutoff tr" "ct_confirmed_net_at_cutoff tr \<le> ct_amount tr"
    "ct_eligible tr = (ct_confirmed_net_at_cutoff tr = ct_amount tr \<and> 0 < ct_amount tr
        \<and> status \<noteq> ''BLOCKED_DELINQUENCY'')"
    "ct_refundable_principal tr = (if status = ''BLOCKED_DELINQUENCY'' then ct_confirmed_net_at_cutoff tr
            else if ct_eligible tr then ct_amount tr else 0)"
    "pa_rateio acc' = (if ct_eligible tr then add_at (co_member_id c) (ct_amount tr) (pa_rateio acc)
            else pa_rateio acc)"
    "pa_refundable acc' = add_at (co_member_id c) (ct_refundable_principal tr) (pa_refundable acc)"
  have wf: "trace_wf tr" unfolding trace_wf_def using *(5-8) by auto
  have rateio: "pa_rateio acc' = add_at (ct_member_id tr) (eligible_amount tr) (pa_rateio acc)"
    using *(9) by (auto simp: eligible_amount_def add_at_def *(3))
  have mem: "ct_member_id tr \<in> fst ` set st" using *(1,3) by (force dest: map_of_SomeD)
  have blk: "map_option fst (map_of st (ct_member_id tr)) = Some ''BLOCKED_DELINQUENCY'' \<longrightarrow> \<not> ct_eligible tr"
    using *(1,3,7) by auto
  show ?thesis
    using assms(1) wf mem blk
    unfolding principal_inv_def rateio *(10) *(3) [symmetric]
    by (simp add: *(2) member_sum_append ball_Un)
qed

lemma principal_inv_fold:
  assumes "fold_res (contribution_step ev cutoff st) cs acc = Inr acc'" "principal_inv st acc"
  shows "principal_inv st acc'"
  by (rule fold_res_invariant [where I = "principal_inv st", OF assms]) (rule principal_inv_step)

lemma trace_amounts:
  assumes "fold_res (contribution_step ev cutoff st) cs acc = Inr acc'"
  shows "(\<Sum>tr\<leftarrow>pa_trace acc'. \<bar>ct_amount tr\<bar>)
    \<le> (\<Sum>tr\<leftarrow>pa_trace acc. \<bar>ct_amount tr\<bar>) + (\<Sum>c\<leftarrow>cs. \<bar>cents (co_amount c)\<bar>)"
  using assms
proof (induction cs arbitrary: acc)
  case (Cons c cs)
  then obtain a where a: "contribution_step ev cutoff st c acc = Inr a"
    "fold_res (contribution_step ev cutoff st) cs a = Inr acc'" by (auto simp: res_bind_eq_Inr)
  have "(\<Sum>tr\<leftarrow>pa_trace a. \<bar>ct_amount tr\<bar>)
      \<le> (\<Sum>tr\<leftarrow>pa_trace acc. \<bar>ct_amount tr\<bar>) + \<bar>cents (co_amount c)\<bar>"
    using contribution_step_result [OF a(1)] by (elim disjE exE conjE) auto
  with Cons.IH [OF a(2)] show ?case by simp
qed simp

lemma member_sum_members:
  "distinct ms \<Longrightarrow> (\<Sum>m\<leftarrow>ms. member_sum f trs m)
    = (\<Sum>tr\<leftarrow>trs. if ct_member_id tr \<in> set ms then f tr else 0)"
proof (induction ms)
  case (Cons m ms)
  have "member_sum f trs m + (\<Sum>tr\<leftarrow>trs. if ct_member_id tr \<in> set ms then f tr else 0)
      = (\<Sum>tr\<leftarrow>trs. if ct_member_id tr \<in> set (m # ms) then f tr else 0)"
    using Cons.prems unfolding member_sum_def by (induction trs) auto
  with Cons show ?case by simp
qed simp

lemma member_sum_over_members:
  assumes "distinct ms" "\<And>tr. tr \<in> set trs \<Longrightarrow> 0 \<le> f tr"
  shows "(\<Sum>m\<leftarrow>ms. member_sum f trs m) \<le> (\<Sum>tr\<leftarrow>trs. f tr)"
proof -
  have "(\<Sum>m\<leftarrow>ms. member_sum f trs m) = (\<Sum>tr\<leftarrow>trs. if ct_member_id tr \<in> set ms then f tr else 0)"
    using assms(1) by (rule member_sum_members)
  also have "\<dots> \<le> (\<Sum>tr\<leftarrow>trs. f tr)" using assms(2) by (intro sum_list_le_int) auto
  finally show ?thesis .
qed

lemma member_sum_nonneg:
  "(\<And>tr. tr \<in> set trs \<Longrightarrow> 0 \<le> f tr) \<Longrightarrow> 0 \<le> member_sum f trs m"
  unfolding member_sum_def by (rule sum_list_nonneg_int) auto

section \<open>The accumulated gains\<close>

definition gain_inv :: "closing_evidence \<Rightarrow> instant \<Rightarrow> instant \<Rightarrow> gain_acc \<Rightarrow> bool" where
  "gain_inv ev start_at cutoff acc \<longleftrightarrow>
     ga_gross acc = (\<Sum>g\<leftarrow>ga_included acc. gt_amount g)
     \<and> distinct (map (\<lambda>g. (gt_source_type g, gt_source_id g, gt_kind g)) (ga_included acc @ ga_excluded acc))
     \<and> (\<lambda>g. (gt_source_type g, gt_source_id g, gt_kind g)) ` set (ga_included acc @ ga_excluded acc) = ga_seen acc
     \<and> (\<forall>g\<in>set (ga_included acc). start_at \<le> gt_occurred_at g \<and> gt_occurred_at g \<le> cutoff
          \<and> gt_kind g \<in> RESULT_KINDS \<and> gt_kind g \<notin> NON_RESULT_KINDS
          \<and> (gt_source_type g = ''PAYMENT_SETTLEMENT'' \<or> gt_source_type g = ''CYCLE_REALIZED_GAIN_EVENT''))"

lemma gain_reason_None:
  assumes "gain_reason ev start_at cutoff moment g = None"
  shows "start_at \<le> moment" "moment \<le> cutoff" "ge_kind g \<in> RESULT_KINDS" "ge_kind g \<notin> NON_RESULT_KINDS"
    "ge_source_type g = ''PAYMENT_SETTLEMENT'' \<or> ge_source_type g = ''CYCLE_REALIZED_GAIN_EVENT''"
    "ge_cycle_id g = Some (ev_cycle_id ev)"
  using assms unfolding gain_reason_def RECEIPT_RESULT_KINDS_def
  by (simp_all split: if_split_asm option.split_asm) blast

lemma gain_step_inv:
  assumes "gain_inv ev start_at cutoff acc" "gain_step ev start_at cutoff g acc = Inr acc'"
  shows "gain_inv ev start_at cutoff acc'"
proof -
  from assms(2) obtain moment where m: "gain_key g \<notin> ga_seen acc"
    "closing_utc (ge_occurred_at g) = Inr moment"
    by (auto simp: gain_step_def res_bind_eq_Inr split: if_splits)
  show ?thesis
  proof (cases "gain_reason ev start_at cutoff moment g")
    case None
    note facts = gain_reason_None [OF None]
    from assms(2) m None have "acc' = acc\<lparr>ga_seen := insert (gain_key g) (ga_seen acc),
        ga_included := ga_included acc @ [\<lparr>gt_source_id = ge_source_id g,
          gt_source_type = ge_source_type g, gt_kind = ge_kind g, gt_amount = cents (ge_amount g),
          gt_occurred_at = moment, gt_reason = None\<rparr>],
        ga_gross := ga_gross acc + cents (ge_amount g)\<rparr>"
      by (simp add: gain_step_def Let_def)
    with assms(1) m(1) facts show ?thesis
      unfolding gain_inv_def by (auto simp: gain_key_def)
  next
    case (Some r)
    then obtain reason gap where r: "gain_reason ev start_at cutoff moment g = Some (reason, gap)"
      by (cases r) auto
    from assms(2) m r have "ga_gross acc' = ga_gross acc" "ga_included acc' = ga_included acc"
      "ga_seen acc' = insert (gain_key g) (ga_seen acc)"
      "ga_excluded acc' = ga_excluded acc @ [\<lparr>gt_source_id = ge_source_id g,
          gt_source_type = ge_source_type g, gt_kind = ge_kind g, gt_amount = cents (ge_amount g),
          gt_occurred_at = moment, gt_reason = Some reason\<rparr>]"
      by (auto simp add: gain_step_def Let_def)
    with assms(1) m(1) show ?thesis
      unfolding gain_inv_def by (auto simp: gain_key_def)
  qed
qed

lemma gain_step_gross:
  assumes "gain_step ev start_at cutoff g acc = Inr acc'"
  shows "ga_gross acc' = ga_gross acc \<or> ga_gross acc' = ga_gross acc + cents (ge_amount g)"
proof -
  from assms obtain moment where "gain_key g \<notin> ga_seen acc"
    "closing_utc (ge_occurred_at g) = Inr moment"
    by (auto simp: gain_step_def res_bind_eq_Inr split: if_splits)
  with assms show ?thesis
    by (cases "gain_reason ev start_at cutoff moment g") (auto simp: gain_step_def Let_def)
qed

lemma gain_gross_bound:
  assumes "fold_res (gain_step ev start_at cutoff) gs acc = Inr acc'"
  shows "\<bar>ga_gross acc'\<bar> \<le> \<bar>ga_gross acc\<bar> + (\<Sum>g\<leftarrow>gs. \<bar>cents (ge_amount g)\<bar>)"
  using assms
proof (induction gs arbitrary: acc)
  case (Cons g gs)
  then obtain a where a: "gain_step ev start_at cutoff g acc = Inr a"
    "fold_res (gain_step ev start_at cutoff) gs a = Inr acc'" by (auto simp: res_bind_eq_Inr)
  have "\<bar>ga_gross a\<bar> \<le> \<bar>ga_gross acc\<bar> + \<bar>cents (ge_amount g)\<bar>"
    using gain_step_gross [OF a(1)] by auto
  with Cons.IH [OF a(2)] show ?case by simp
qed simp

section \<open>The administration fee\<close>

definition closing_fee :: "cents \<Rightarrow> cents" where
  "closing_fee gross = cents (dmul 28 (dec gross) ADMINISTRATION_FEE_RATE)"

lemma closing_fee_bounds:
  assumes "0 \<le> gross" "gross < 10 ^ 28"
  shows "0 \<le> closing_fee gross" "closing_fee gross \<le> gross"
proof -
  have "0 \<le> dec gross * (15 / 100)" using assms(1) by simp
  then have "0 \<le> ctx 28 (dec gross * (15 / 100))" by (rule ctx_nonneg) simp
  then show "0 \<le> closing_fee gross"
    by (simp add: closing_fee_def dmul_def ADMINISTRATION_FEE_RATE_def cents_nonneg)
  have "dec gross * (15 / 100) \<le> dec gross" using assms(1) by (simp add: field_simps)
  then have "ctx 28 (dec gross * (15 / 100)) \<le> ctx 28 (dec gross)" by (rule ctx_mono) simp
  also have "\<dots> = dec gross" using assms by (intro ctx_cents_exact) simp
  finally have "cents (ctx 28 (dec gross * (15 / 100))) \<le> cents (dec gross)" by (rule cents_mono)
  then show "closing_fee gross \<le> gross"
    by (simp add: closing_fee_def dmul_def ADMINISTRATION_FEE_RATE_def)
qed

section \<open>The stages of a closing\<close>

definition evidence_bounded :: "closing_evidence \<Rightarrow> bool" where
  \<comment> \<open>amounts are \<open>Numeric(14, 2)\<close>; this leaves room for millions of them\<close>
  "evidence_bounded ev \<longleftrightarrow> (\<Sum>c\<leftarrow>ev_contributions ev. \<bar>cents (co_amount c)\<bar>) < 10 ^ 28
     \<and> (\<Sum>g\<leftarrow>ev_gains ev. \<bar>cents (ge_amount g)\<bar>) < 10 ^ 28"

record closing_stage =
  cs_cutoff :: instant
  cs_statuses :: "(int \<times> string \<times> instant) list"
  cs_pa :: principal_acc
  cs_ga :: gain_acc

text \<open>The stages before the allocation, as facts about one run.\<close>

definition staged :: "closing_evidence \<Rightarrow> closing_stage \<Rightarrow> bool" where
  "staged ev s \<longleftrightarrow>
     closing_utc (ev_closing_cutoff_at ev) = Inr (cs_cutoff s)
     \<and> distinct (map pe_member_id (closing_rows ev))
     \<and> closing_statuses (closing_rows ev) (cs_cutoff s) = Inr (cs_statuses s)
     \<and> fold_res (contribution_step ev (cs_cutoff s) (cs_statuses s)) (sort_key co_id (ev_contributions ev))
         \<lparr>pa_rateio = (\<lambda>_. 0), pa_refundable = (\<lambda>_. 0), pa_trace = []\<rparr> = Inr (cs_pa s)
     \<and> fold_res (gain_step ev (belem_midnight (ev_cycle_start_date ev)) (cs_cutoff s))
         (sort_key gain_key (ev_gains ev))
         \<lparr>ga_included = [], ga_excluded = [], ga_gross = 0, ga_seen = {},
          ga_gaps = ev_source_gaps ev\<rparr> = Inr (cs_ga s)
     \<and> 0 \<le> ga_gross (cs_ga s)"

definition stage_bases :: "closing_evidence \<Rightarrow> closing_stage \<Rightarrow> (int \<times> cents) list" where
  "stage_bases ev s = rateio_bases (closing_rows ev) (cs_statuses s) (pa_rateio (cs_pa s))"

definition stage_distributable :: "closing_stage \<Rightarrow> cents" where
  "stage_distributable s = ga_gross (cs_ga s) - closing_fee (ga_gross (cs_ga s))"

lemma staged_principal_inv: "staged ev s \<Longrightarrow> principal_inv (cs_statuses s) (cs_pa s)"
  unfolding staged_def by (blast intro: principal_inv_fold principal_inv_init)

lemma staged_gain_inv:
  assumes "staged ev s"
  shows "gain_inv ev (belem_midnight (ev_cycle_start_date ev)) (cs_cutoff s) (cs_ga s)"
proof -
  let ?I = "gain_inv ev (belem_midnight (ev_cycle_start_date ev)) (cs_cutoff s)"
  have "?I \<lparr>ga_included = [], ga_excluded = [], ga_gross = 0, ga_seen = {},
      ga_gaps = ev_source_gaps ev\<rparr>" by (simp add: gain_inv_def)
  with assms show ?thesis
    unfolding staged_def by (blast intro: fold_res_invariant [where I = ?I] gain_step_inv)
qed

lemma staged_gross_bound:
  assumes "staged ev s" "evidence_bounded ev"
  shows "ga_gross (cs_ga s) < 10 ^ 28"
proof -
  have "\<bar>ga_gross (cs_ga s)\<bar> \<le> (\<Sum>g\<leftarrow>sort_key gain_key (ev_gains ev). \<bar>cents (ge_amount g)\<bar>)"
    using assms(1) gain_gross_bound unfolding staged_def by fastforce
  with assms(2) show ?thesis
    using abs_ge_self [of "ga_gross (cs_ga s)"] by (simp add: evidence_bounded_def)
qed

lemma statuses_keys:
  "closing_statuses rows cutoff = Inr st \<Longrightarrow> map fst st = map pe_member_id rows"
  unfolding closing_statuses_def map_res_list_all2
  by (induction rows st rule: list_all2_induct) (auto simp: res_bind_eq_Inr)

lemma staged_bases:
  assumes "staged ev s"
  shows "distinct (map fst (stage_bases ev s))"
    "set (map fst (stage_bases ev s)) \<subseteq> set (map pe_member_id (closing_rows ev))"
    "\<And>m b. (m, b) \<in> set (stage_bases ev s) \<Longrightarrow> b = pa_rateio (cs_pa s) m"
    "\<forall>(m, b)\<in>set (stage_bases ev s). 0 \<le> b"
proof -
  have d: "distinct (map pe_member_id (closing_rows ev))" using assms by (simp add: staged_def)
  show "distinct (map fst (stage_bases ev s))"
    using d by (auto simp: stage_bases_def rateio_bases_def comp_def distinct_map intro: inj_on_subset)
  show "set (map fst (stage_bases ev s)) \<subseteq> set (map pe_member_id (closing_rows ev))"
    by (auto simp: stage_bases_def rateio_bases_def)
  show val: "\<And>m b. (m, b) \<in> set (stage_bases ev s) \<Longrightarrow> b = pa_rateio (cs_pa s) m"
    by (auto simp: stage_bases_def rateio_bases_def)
  have inv: "principal_inv (cs_statuses s) (cs_pa s)" by (rule staged_principal_inv [OF assms])
  have "0 \<le> eligible_amount tr" if "tr \<in> set (pa_trace (cs_pa s))" for tr
    using inv that by (auto simp: principal_inv_def trace_wf_def eligible_amount_def)
  then have "0 \<le> pa_rateio (cs_pa s) m" for m
    using inv by (simp add: principal_inv_def member_sum_nonneg)
  with val show "\<forall>(m, b)\<in>set (stage_bases ev s). 0 \<le> b" by blast
qed

lemma staged_base_bound:
  assumes "staged ev s" "evidence_bounded ev"
  shows "(\<Sum>x\<leftarrow>stage_bases ev s. snd x) < 10 ^ 28"
proof -
  let ?trs = "pa_trace (cs_pa s)"
  have inv: "principal_inv (cs_statuses s) (cs_pa s)" by (rule staged_principal_inv [OF assms(1)])
  have "(\<Sum>x\<leftarrow>stage_bases ev s. snd x)
      = (\<Sum>m\<leftarrow>map fst (stage_bases ev s). member_sum eligible_amount ?trs m)"
    using inv by (simp add: stage_bases_def rateio_bases_def comp_def principal_inv_def)
  also have "\<dots> \<le> (\<Sum>tr\<leftarrow>?trs. eligible_amount tr)"
    using inv staged_bases(1) [OF assms(1)]
    by (intro member_sum_over_members) (auto simp: principal_inv_def trace_wf_def eligible_amount_def)
  also have "\<dots> \<le> (\<Sum>tr\<leftarrow>?trs. \<bar>ct_amount tr\<bar>)"
    by (intro sum_list_le_int) (auto simp: eligible_amount_def)
  also have "\<dots> \<le> (\<Sum>c\<leftarrow>sort_key co_id (ev_contributions ev). \<bar>cents (co_amount c)\<bar>)"
    using assms(1) trace_amounts unfolding staged_def by fastforce
  finally show ?thesis using assms(2) by (simp add: evidence_bounded_def)
qed

lemma staged_alloc_ok:
  assumes "staged ev s" "evidence_bounded ev"
  shows "alloc_ok (stage_distributable s) (stage_bases ev s)"
proof -
  have g: "0 \<le> ga_gross (cs_ga s)" using assms(1) by (simp add: staged_def)
  note f = closing_fee_bounds [OF g staged_gross_bound [OF assms]]
  have d: "0 \<le> stage_distributable s" "stage_distributable s < 10 ^ 28"
    using f staged_gross_bound [OF assms] by (auto simp: stage_distributable_def)
  have b: "0 \<le> (\<Sum>x\<leftarrow>stage_bases ev s. snd x)"
    using staged_bases(4) [OF assms(1)] by (intro sum_list_nonneg_int) auto
  have "stage_distributable s * (\<Sum>x\<leftarrow>stage_bases ev s. snd x) \<le> 10 ^ 28 * 10 ^ 28"
    using d b staged_base_bound [OF assms] by (intro mult_mono) auto
  with d staged_bases [OF assms(1)] show ?thesis by (simp add: alloc_ok_def)
qed

text \<open>The participants' shares look the allocation up, so they distribute everything.\<close>

lemma participant_share [simp]:
  "pr_gross_share (participant st pa tb sh oa row) = closing_alloc.share sh (pe_member_id row)"
  by (simp add: participant_def Let_def closing_alloc.share_def)

lemma staged_shares_distribute:
  assumes "staged ev s" "evidence_bounded ev"
    and "allocation_cents (stage_distributable s) (stage_bases ev s) tk = Inr sh"
  shows "(\<Sum>row\<leftarrow>closing_rows ev. closing_alloc.share sh (pe_member_id row)) = stage_distributable s"
proof -
  have "distinct (map pe_member_id (closing_rows ev))" using assms(1) by (simp add: staged_def)
  from closing_alloc.shares_distribute [OF staged_alloc_ok [OF assms(1,2)] assms(3) this
      staged_bases(2) [OF assms(1)]]
  show ?thesis by (simp add: comp_def)
qed

section \<open>No failing assertion\<close>

lemma closing_utc_never_asserts [never_asserts_intros]: "never_asserts (closing_utc v)"
  by (cases v) (auto simp: closing_utc_def)

lemma timed_events_never_asserts [never_asserts_intros]: "never_asserts (timed_events es)"
  unfolding timed_events_def by (intro never_asserts_intros)

lemma contribution_event_never_asserts [never_asserts_intros]:
  "never_asserts (contribution_event cutoff limit p acc)"
  by (cases p) (simp add: contribution_event_def Let_def)

lemma contribution_step_never_asserts [never_asserts_intros]:
  "never_asserts (contribution_step ev cutoff st c acc)"
proof -
  have "never_asserts (contribution_outcome cutoff c status es ea acc)" for status es ea
    by (simp add: contribution_outcome_def Let_def)
  then show ?thesis
    unfolding contribution_step_def
    by (auto simp: Let_def intro!: never_asserts_intros split: option.splits)
qed

lemma gain_step_never_asserts [never_asserts_intros]:
  "never_asserts (gain_step ev start_at cutoff g acc)"
  unfolding gain_step_def
  by (auto simp: Let_def intro!: never_asserts_intros split: option.splits)

lemma obligation_step_never_asserts [never_asserts_intros]:
  "never_asserts (obligation_step ev d st ob acc)"
proof -
  have "never_asserts (agreement_claim ob ag)" for ag
    by (auto simp: agreement_claim_def split: option.splits)
  then show ?thesis
    unfolding obligation_step_def
    by (auto simp: Let_def intro!: never_asserts_intros split: option.splits)
qed

lemma closing_statuses_never_asserts [never_asserts_intros]:
  "never_asserts (closing_statuses rows cutoff)"
proof -
  have "never_asserts (effective_status row cutoff)" for row
    by (auto simp: effective_status_def split: option.splits)
  then show ?thesis unfolding closing_statuses_def by (intro never_asserts_intros)
qed

lemma allocation_never_asserts [never_asserts_intros]: "never_asserts (allocation_cents t bs tk)"
  by (simp add: allocation_cents_def Let_def)

section \<open>A successful run\<close>

definition stage_memory ::
    "closing_evidence \<Rightarrow> closing_stage \<Rightarrow> (int \<times> cents) list \<Rightarrow> obligation_acc \<Rightarrow> closing_memory \<Rightarrow> bool" where
  "stage_memory ev s sh oa mem \<longleftrightarrow>
     cm_gross_realized_result mem = ga_gross (cs_ga s)
     \<and> cm_administration_fee mem = closing_fee (ga_gross (cs_ga s))
     \<and> cm_distributable_result mem = stage_distributable s
     \<and> cm_contributions mem = pa_trace (cs_pa s)
     \<and> cm_included_gains mem = ga_included (cs_ga s)
     \<and> cm_excluded_gains mem = ga_excluded (cs_ga s)
     \<and> cm_closing_cutoff_at mem = cs_cutoff s
     \<and> cm_cycle_start_date mem = ev_cycle_start_date ev
     \<and> cm_participants mem = map (participant (cs_statuses s) (cs_pa s)
         (\<Sum>x\<leftarrow>stage_bases ev s. snd x) sh oa) (closing_rows ev)
     \<and> (\<Sum>p\<leftarrow>cm_participants mem. pr_gross_share p) = cm_distributable_result mem
     \<and> fold_res (obligation_step ev (belem_date (cs_cutoff s)) (cs_statuses s))
         (sort_key oe_source_id (ev_obligations ev))
         \<lparr>oa_by_member = (\<lambda>_. []), oa_seen = {}, oa_agreements = Map.empty\<rparr> = Inr oa"

lemma closing_run_exists:
  assumes "calculate_cycle_closing hash ev = Inr mem"
  shows "\<exists>s sh oa. staged ev s
    \<and> allocation_cents (stage_distributable s) (stage_bases ev s) (tie_keys (closing_rows ev)) = Inr sh
    \<and> stage_memory ev s sh oa mem"
  using assms unfolding calculate_cycle_closing_def Let_def closing_fee_def [symmetric]
proof (elim res_elims, goal_cases)
  case (1 cutoff st pa ga sh oa)
  let ?s = "\<lparr>cs_cutoff = cutoff, cs_statuses = st, cs_pa = pa, cs_ga = ga\<rparr>"
  have "staged ev ?s" using 1 by (simp add: staged_def)
  moreover have "allocation_cents (stage_distributable ?s) (stage_bases ev ?s)
      (tie_keys (closing_rows ev)) = Inr sh"
    using 1(8) by (simp add: stage_distributable_def stage_bases_def)
  moreover have "stage_memory ev ?s sh oa mem"
    using 1(1,9-11) by (auto simp: stage_memory_def stage_distributable_def stage_bases_def)
  ultimately show ?case by blast
qed

lemma closing_run:
  assumes "calculate_cycle_closing hash ev = Inr mem"
  obtains s sh oa where "staged ev s"
    "allocation_cents (stage_distributable s) (stage_bases ev s) (tie_keys (closing_rows ev)) = Inr sh"
    "stage_memory ev s sh oa mem"
  using closing_run_exists [OF assms] by blast

lemma participant_rows:
  assumes "p = participant st pa tb sh oa row"
  shows "pr_gross_entitlement p = pr_refundable_principal p + pr_gross_share p"
    "pr_projected_compensation p = min (pr_gross_entitlement p) (pr_obligations_total p)"
    "pr_projected_net p = pr_gross_entitlement p - pr_projected_compensation p"
    "pr_residual_debt p = max 0 (pr_obligations_total p - pr_gross_entitlement p)"
    "pr_refundable_principal p = pa_refundable pa (pe_member_id row)"
    "pr_rateio_principal p = pa_rateio pa (pe_member_id row)"
    "pr_member_id p = pe_member_id row"
  using assms by (simp_all add: participant_def Let_def)

lemma obligation_amounts:
  assumes "fold_res (obligation_step ev d st) obs
      \<lparr>oa_by_member = (\<lambda>_. []), oa_seen = {}, oa_agreements = Map.empty\<rparr> = Inr oa"
  shows "\<forall>m. \<forall>ob\<in>set (oa_by_member oa m). 0 < ot_amount ob"
proof (rule fold_res_invariant [where I = "\<lambda>oa. \<forall>m. \<forall>ob\<in>set (oa_by_member oa m). 0 < ot_amount ob", OF assms])
  fix ob u v
  assume "\<forall>m. \<forall>ob\<in>set (oa_by_member u m). 0 < ot_amount ob" "obligation_step ev d st ob u = Inr v"
  then show "\<forall>m. \<forall>ob\<in>set (oa_by_member v m). 0 < ot_amount ob"
    unfolding obligation_step_def Let_def
    by (auto simp: res_bind_eq_Inr split: option.splits if_splits)
qed simp

lemma participant_balance:
  assumes run: "staged ev s" "evidence_bounded ev"
    "allocation_cents (stage_distributable s) (stage_bases ev s) (tie_keys (closing_rows ev)) = Inr sh"
    "stage_memory ev s sh oa mem" and p: "p \<in> set (cm_participants mem)"
  shows "pr_projected_compensation p + pr_projected_net p = pr_gross_entitlement p
      \<and> pr_projected_compensation p + pr_residual_debt p = pr_obligations_total p
      \<and> 0 \<le> pr_projected_compensation p \<and> 0 \<le> pr_projected_net p \<and> 0 \<le> pr_residual_debt p"
proof -
  from run(4) p obtain row where row: "row \<in> set (closing_rows ev)"
    "p = participant (cs_statuses s) (cs_pa s) (\<Sum>x\<leftarrow>stage_bases ev s. snd x) sh oa row"
    by (auto simp: stage_memory_def)
  have "0 \<le> pr_gross_share p"
    using closing_alloc.share_nonneg [OF staged_alloc_ok [OF run(1,2)] run(3)] row(2) by simp
  moreover have "0 \<le> pr_refundable_principal p"
    using staged_principal_inv [OF run(1)] unfolding participant_rows(5) [OF row(2)]
    by (auto simp: principal_inv_def trace_wf_def intro!: member_sum_nonneg)
  moreover have "0 \<le> pr_obligations_total p"
    using run(4) row(2) by (auto simp: participant_def Let_def stage_memory_def
        intro!: sum_list_nonneg_int dest!: obligation_amounts intro: order_less_imp_le)
  ultimately show ?thesis using participant_rows [OF row(2)] by auto
qed

lemma refundable_total:
  assumes "staged ev s" "stage_memory ev s sh oa mem"
  shows "(\<Sum>p\<leftarrow>cm_participants mem. pr_refundable_principal p)
      = (\<Sum>tr\<leftarrow>cm_contributions mem. ct_refundable_principal tr)"
proof -
  let ?ms = "map pe_member_id (closing_rows ev)" and ?trs = "pa_trace (cs_pa s)"
  have inv: "principal_inv (cs_statuses s) (cs_pa s)" by (rule staged_principal_inv [OF assms(1)])
  have keys: "map fst (cs_statuses s) = ?ms"
    using assms(1) statuses_keys by (auto simp: staged_def)
  then have mem: "ct_member_id tr \<in> set ?ms" if "tr \<in> set ?trs" for tr
    using inv that by (metis list.set_map principal_inv_def)
  have "(\<Sum>p\<leftarrow>cm_participants mem. pr_refundable_principal p)
      = (\<Sum>m\<leftarrow>?ms. member_sum ct_refundable_principal ?trs m)"
    using assms(2) inv
    by (simp add: stage_memory_def comp_def participant_def Let_def principal_inv_def)
  also have "\<dots> = (\<Sum>tr\<leftarrow>?trs. if ct_member_id tr \<in> set ?ms then ct_refundable_principal tr else 0)"
    by (rule member_sum_members) (use assms(1) in \<open>simp add: staged_def\<close>)
  also have "\<dots> = (\<Sum>tr\<leftarrow>?trs. ct_refundable_principal tr)"
    using mem by (intro arg_cong [where f = sum_list] map_cong) auto
  finally show ?thesis using assms(2) by (simp add: stage_memory_def)
qed

section \<open>A small closing\<close>

definition demo_evidence :: closing_evidence where
  "demo_evidence =
     \<lparr>ev_cycle_id = 1, ev_cycle_start_date = epoch_ordinal, ev_closing_cutoff_at = Aware (30 * day_us),
      ev_participations =
        [\<lparr>pe_id = 1, pe_member_id = 7, pe_status = ''ACTIVE'', pe_blocked_at = None, pe_voluntary_exit_at = None\<rparr>,
         \<lparr>pe_id = 2, pe_member_id = 8, pe_status = ''BLOCKED_DELINQUENCY'',
          pe_blocked_at = Some (Aware (20 * day_us)), pe_voluntary_exit_at = None\<rparr>],
      ev_contributions =
        [\<lparr>co_id = 1, co_member_id = 7, co_cycle_id = 1, co_amount = dec 15000, co_status = ''PAID'',
          co_cancelled_at = None, co_events =
            [\<lparr>ce_event_id = ''e1'', ce_amount = dec 15000, ce_occurred_at = Aware (9 * day_us),
              ce_source = ''ORIGINAL'', ce_settlement_id = Some 1\<rparr>]\<rparr>,
         \<lparr>co_id = 2, co_member_id = 8, co_cycle_id = 1, co_amount = dec 15000, co_status = ''CANCELLED'',
          co_cancelled_at = None, co_events =
            [\<lparr>ce_event_id = ''e2'', ce_amount = dec 5000, ce_occurred_at = Aware (9 * day_us),
              ce_source = ''ORIGINAL'', ce_settlement_id = Some 2\<rparr>]\<rparr>],
      ev_gains =
        [\<lparr>ge_source_id = ''s1'', ge_source_type = ''PAYMENT_SETTLEMENT'', ge_kind = ''LOAN_INTEREST'',
          ge_cycle_id = Some 1, ge_amount = dec 100, ge_occurred_at = Aware (10 * day_us)\<rparr>],
      ev_obligations = [], ev_superseded_loan_ids = [], ev_own_balance_settled_loan_ids = [],
      ev_source_gaps = []\<rparr>"

lemma demo_evidence_facts: "evidence_bounded demo_evidence"
  by (simp add: evidence_bounded_def demo_evidence_def)

lemma demo_fee: "cents (dmul 28 (dec 100) ADMINISTRATION_FEE_RATE) = 15"
  by code_simp

lemmas demo_simps = demo_evidence_def closing_rows_def closing_statuses_def effective_status_def
  contribution_step_def timed_events_def closing_utc_def contribution_event_def
  contribution_outcome_def opt_insert_def opt_in_def add_at_def gain_step_def gain_reason_def
  gain_key_def belem_midnight_def belem_offset_def epoch_ordinal_def NON_RESULT_KINDS_def
  RESULT_KINDS_def RECEIPT_RESULT_KINDS_def UNAVAILABLE_RESULT_KINDS_def day_us_def second_def
  rateio_bases_def participant_def

lemma demo_run:
  "\<exists>mem. calculate_cycle_closing (\<lambda>_. []) demo_evidence = Inr mem \<and> cm_distributable_result mem = 85"
  unfolding calculate_cycle_closing_def Let_def
  by (simp add: demo_simps Let_def demo_fee allocation_single)

lemma demo_blocked:
  "\<exists>mem p. calculate_cycle_closing (\<lambda>_. []) demo_evidence = Inr mem
    \<and> p \<in> set (cm_participants mem) \<and> pr_status p = ''BLOCKED_DELINQUENCY''"
proof -
  have "\<exists>mem. calculate_cycle_closing (\<lambda>_. []) demo_evidence = Inr mem
      \<and> list_ex (\<lambda>p. pr_status p = ''BLOCKED_DELINQUENCY'') (cm_participants mem)"
    unfolding calculate_cycle_closing_def Let_def
    by (simp add: demo_simps Let_def demo_fee allocation_single)
  then show ?thesis by (auto simp: list_ex_iff)
qed

section \<open>Properties\<close>

text \<open>The closing never dies on its own assertion that the largest-remainder allocation
  lost cents: with amounts within the decimal precision, the shares of all participants,
  blocked and exited ones included, add up to the distributable result.\<close>

theorem closing_assertion_unreachable:
  assumes "evidence_bounded ev"
  shows "never_asserts (calculate_cycle_closing hash ev)"
proof -
  show ?thesis
    unfolding calculate_cycle_closing_def Let_def closing_fee_def [symmetric]
  proof (intro never_asserts_intros, goal_cases)
    case (4 cutoff st pa ga sh oa)
    let ?s = "\<lparr>cs_cutoff = cutoff, cs_statuses = st, cs_pa = pa, cs_ga = ga\<rparr>"
    have "staged ev ?s" using 4 by (simp add: staged_def)
    then have "(\<Sum>row\<leftarrow>closing_rows ev. closing_alloc.share sh (pe_member_id row)) = stage_distributable ?s"
      using 4(8) by (intro staged_shares_distribute [OF _ assms])
        (simp_all add: stage_distributable_def stage_bases_def)
    with 4(10) show ?case by (simp add: stage_distributable_def comp_def)
  qed simp_all
qed

theorem closing_assertion_unreachable_witness:
  "never_asserts (calculate_cycle_closing (\<lambda>_. []) demo_evidence)"
  by (rule closing_assertion_unreachable) (simp add: demo_evidence_facts)

text \<open>C32. Money is conserved. The realized result splits into the administration fee and the
  distributable result, neither negative, and the participants' gross shares add up to the distributable result. What the participants receive, paid out or set off
  against their debts, is the distributable result plus the refundable principal of the traced
  contributions. For each participant compensation and net payout make up the entitlement,
  compensation and residual debt make up what is owed, and none of them is negative.\<close>

theorem closing_conservation:
  assumes "calculate_cycle_closing hash ev = Inr mem" and "evidence_bounded ev"
  shows "cm_gross_realized_result mem = cm_administration_fee mem + cm_distributable_result mem
    \<and> 0 \<le> cm_administration_fee mem \<and> 0 \<le> cm_distributable_result mem
    \<and> (\<Sum>p\<leftarrow>cm_participants mem. pr_gross_share p) = cm_distributable_result mem
    \<and> (\<Sum>p\<leftarrow>cm_participants mem. pr_projected_net p + pr_projected_compensation p)
        = cm_distributable_result mem + (\<Sum>tr\<leftarrow>cm_contributions mem. ct_refundable_principal tr)
    \<and> (\<forall>p\<in>set (cm_participants mem).
         pr_projected_compensation p + pr_projected_net p = pr_gross_entitlement p
         \<and> pr_projected_compensation p + pr_residual_debt p = pr_obligations_total p
         \<and> 0 \<le> pr_projected_compensation p \<and> 0 \<le> pr_projected_net p \<and> 0 \<le> pr_residual_debt p)"
proof -
  obtain s sh oa where run: "staged ev s"
    "allocation_cents (stage_distributable s) (stage_bases ev s) (tie_keys (closing_rows ev)) = Inr sh"
    "stage_memory ev s sh oa mem" using closing_run [OF assms(1)] .
  have g: "0 \<le> ga_gross (cs_ga s)" using run(1) by (simp add: staged_def)
  note fee = closing_fee_bounds [OF g staged_gross_bound [OF run(1) assms(2)]]
  have fees: "cm_gross_realized_result mem = cm_administration_fee mem + cm_distributable_result mem"
    "0 \<le> cm_administration_fee mem" "0 \<le> cm_distributable_result mem"
    using run(3) fee by (auto simp: stage_memory_def stage_distributable_def)
  have each: "pr_projected_compensation p + pr_projected_net p = pr_gross_entitlement p
      \<and> pr_projected_compensation p + pr_residual_debt p = pr_obligations_total p
      \<and> 0 \<le> pr_projected_compensation p \<and> 0 \<le> pr_projected_net p \<and> 0 \<le> pr_residual_debt p"
    if "p \<in> set (cm_participants mem)" for p
    by (rule participant_balance [OF run(1) assms(2) run(2,3) that])
  have shares: "(\<Sum>p\<leftarrow>cm_participants mem. pr_gross_share p) = cm_distributable_result mem"
    using run(3) unfolding stage_memory_def by metis
  have "(\<Sum>p\<leftarrow>cm_participants mem. pr_projected_net p + pr_projected_compensation p)
      = (\<Sum>p\<leftarrow>cm_participants mem. pr_gross_share p + pr_refundable_principal p)"
    using run(3) by (auto simp: stage_memory_def participant_def Let_def intro!: arg_cong [where f = sum_list])
  also have "\<dots> = cm_distributable_result mem + (\<Sum>p\<leftarrow>cm_participants mem. pr_refundable_principal p)"
    by (simp add: sum_list_addf shares)
  also have "(\<Sum>p\<leftarrow>cm_participants mem. pr_refundable_principal p)
      = (\<Sum>tr\<leftarrow>cm_contributions mem. ct_refundable_principal tr)"
    by (rule refundable_total [OF run(1,3)])
  finally show ?thesis using fees shares each by blast
qed

theorem closing_conservation_witness:
  "\<exists>mem. calculate_cycle_closing (\<lambda>_. []) demo_evidence = Inr mem
    \<and> cm_gross_realized_result mem = cm_administration_fee mem + cm_distributable_result mem
    \<and> (\<Sum>p\<leftarrow>cm_participants mem. pr_gross_share p) = cm_distributable_result mem \<and> 0 < cm_distributable_result mem"
proof -
  obtain mem where mem: "calculate_cycle_closing (\<lambda>_. []) demo_evidence = Inr mem"
    "cm_distributable_result mem = 85" using demo_run by blast
  with closing_conservation [OF mem(1)] show ?thesis by (simp add: demo_evidence_facts)
qed

text \<open>A member blocked for delinquency takes no part in the distribution: no eligible
  principal, no share; what it gets back is the confirmed net principal of its own
  contributions.\<close>

theorem closing_blocked_member:
  assumes "calculate_cycle_closing hash ev = Inr mem"
    and "p \<in> set (cm_participants mem)" and "pr_status p = ''BLOCKED_DELINQUENCY''"
  shows "pr_gross_share p = 0 \<and> pr_rateio_principal p = 0
    \<and> pr_gross_entitlement p = (\<Sum>tr\<leftarrow>filter (\<lambda>tr. ct_member_id tr = pr_member_id p) (cm_contributions mem).
         ct_refundable_principal tr)"
proof -
  obtain s sh oa where run: "staged ev s"
    "allocation_cents (stage_distributable s) (stage_bases ev s) (tie_keys (closing_rows ev)) = Inr sh"
    "stage_memory ev s sh oa mem" using closing_run [OF assms(1)] .
  from run(3) assms(2) obtain row where row: "row \<in> set (closing_rows ev)"
    "p = participant (cs_statuses s) (cs_pa s) (\<Sum>x\<leftarrow>stage_bases ev s. snd x) sh oa row"
    by (auto simp: stage_memory_def)
  have blk: "map_option fst (map_of (cs_statuses s) (pe_member_id row)) = Some ''BLOCKED_DELINQUENCY''"
    using assms(3) row(2) by (simp add: participant_def Let_def split: option.splits prod.splits)
  have "pe_member_id row \<notin> set (map fst (stage_bases ev s))"
    using blk by (auto simp: stage_bases_def rateio_bases_def)
  from closing_alloc.share_outside [OF run(2) this] row(2)
  have share: "pr_gross_share p = 0" by simp
  have inv: "principal_inv (cs_statuses s) (cs_pa s)" by (rule staged_principal_inv [OF run(1)])
  have "map eligible_amount (filter (\<lambda>tr. ct_member_id tr = pe_member_id row) (pa_trace (cs_pa s)))
      = map (\<lambda>_. 0) (filter (\<lambda>tr. ct_member_id tr = pe_member_id row) (pa_trace (cs_pa s)))"
    using inv blk by (auto simp: principal_inv_def eligible_amount_def)
  then have "member_sum eligible_amount (pa_trace (cs_pa s)) (pe_member_id row) = 0"
    by (simp only: member_sum_def sum_list_0)
  then have "pr_rateio_principal p = 0"
    using inv unfolding participant_rows(6) [OF row(2)] by (simp add: principal_inv_def)
  moreover have "pr_gross_entitlement p = member_sum ct_refundable_principal (pa_trace (cs_pa s)) (pr_member_id p)"
    using inv unfolding participant_rows(1) [OF row(2)] share participant_rows(5,7) [OF row(2)]
    by (simp add: principal_inv_def)
  moreover have "cm_contributions mem = pa_trace (cs_pa s)"
    using run(3) by (simp add: stage_memory_def)
  ultimately show ?thesis using share by (simp add: member_sum_def)
qed

theorem closing_blocked_member_witness:
  "\<exists>mem p. calculate_cycle_closing (\<lambda>_. []) demo_evidence = Inr mem \<and> p \<in> set (cm_participants mem)
    \<and> pr_status p = ''BLOCKED_DELINQUENCY'' \<and> pr_gross_share p = 0"
proof -
  obtain mem p where mem: "calculate_cycle_closing (\<lambda>_. []) demo_evidence = Inr mem"
    "p \<in> set (cm_participants mem)" "pr_status p = ''BLOCKED_DELINQUENCY''" using demo_blocked by blast
  with closing_blocked_member [OF mem] show ?thesis by blast
qed

text \<open>The realized result counts exactly the included gains, each source once, and an
  included gain occurred inside the cycle, is of a result kind and comes from a settlement or a
  recorded realized gain; principal never enters.\<close>

theorem closing_included_gains:
  assumes "calculate_cycle_closing hash ev = Inr mem"
  shows "cm_gross_realized_result mem = (\<Sum>g\<leftarrow>cm_included_gains mem. gt_amount g)
    \<and> distinct (map (\<lambda>g. (gt_source_type g, gt_source_id g, gt_kind g))
         (cm_included_gains mem @ cm_excluded_gains mem))
    \<and> (\<forall>g\<in>set (cm_included_gains mem).
         belem_midnight (cm_cycle_start_date mem) \<le> gt_occurred_at g
         \<and> gt_occurred_at g \<le> cm_closing_cutoff_at mem
         \<and> gt_kind g \<in> RESULT_KINDS \<and> gt_kind g \<notin> NON_RESULT_KINDS
         \<and> (gt_source_type g = ''PAYMENT_SETTLEMENT'' \<or> gt_source_type g = ''CYCLE_REALIZED_GAIN_EVENT''))"
proof -
  obtain s sh oa where run: "staged ev s" "stage_memory ev s sh oa mem"
    using closing_run [OF assms(1)] by blast
  with staged_gain_inv [OF run(1)] show ?thesis
    unfolding gain_inv_def stage_memory_def by simp
qed

theorem closing_included_gains_witness:
  "\<exists>mem. calculate_cycle_closing (\<lambda>_. []) demo_evidence = Inr mem
    \<and> cm_gross_realized_result mem = (\<Sum>g\<leftarrow>cm_included_gains mem. gt_amount g)"
proof -
  obtain mem where mem: "calculate_cycle_closing (\<lambda>_. []) demo_evidence = Inr mem"
    using demo_run by blast
  with closing_included_gains [OF mem] show ?thesis by blast
qed

text \<open>C40. The result, and with it the calculation hash, does not depend on the order in which
  participations, contributions, gains and obligations are listed, as long as their sort keys
  tell them apart.\<close>

theorem closing_order_independent:
  assumes "mset ps = mset (ev_participations ev)" and "mset cs = mset (ev_contributions ev)"
    and "mset gs = mset (ev_gains ev)" and "mset obs = mset (ev_obligations ev)"
    and "inj_on (\<lambda>r. (pe_id r, pe_member_id r)) (set ps)" and "inj_on co_id (set cs)"
    and "inj_on gain_key (set gs)" and "inj_on oe_source_id (set obs)"
  shows "calculate_cycle_closing hash (ev\<lparr>ev_participations := ps, ev_contributions := cs,
      ev_gains := gs, ev_obligations := obs\<rparr>) = calculate_cycle_closing hash ev"
proof -
  let ?ev = "ev\<lparr>ev_participations := ps, ev_contributions := cs, ev_gains := gs, ev_obligations := obs\<rparr>"
  have "closing_rows ?ev = closing_rows ev"
    using sort_key_perm_eq [OF assms(1,5)] by (simp add: closing_rows_def)
  moreover have "contribution_step ?ev = contribution_step ev"
    by (intro ext) (simp add: contribution_step_def)
  moreover have "gain_reason ?ev = gain_reason ev"
    by (intro ext) (simp add: gain_reason_def split: option.split)
  then have "gain_step ?ev = gain_step ev"
    by (intro ext) (simp add: gain_step_def)
  moreover have fields: "ev_superseded_loan_ids ?ev = ev_superseded_loan_ids ev"
    "ev_closing_cutoff_at ?ev = ev_closing_cutoff_at ev" "ev_cycle_id ?ev = ev_cycle_id ev"
    "ev_cycle_start_date ?ev = ev_cycle_start_date ev" "ev_source_gaps ?ev = ev_source_gaps ev"
    "ev_own_balance_settled_loan_ids ?ev = ev_own_balance_settled_loan_ids ev"
    "ev_contributions ?ev = cs" "ev_gains ?ev = gs" "ev_obligations ?ev = obs"
    by simp_all
  moreover from fields have "obligation_step ?ev = obligation_step ev"
    by (intro ext) (simp only: obligation_step_def)
  moreover note sort_key_perm_eq [OF assms(2,6)] sort_key_perm_eq [OF assms(3,7)]
    sort_key_perm_eq [OF assms(4,8)]
  ultimately show ?thesis by (simp only: calculate_cycle_closing_def)
qed

theorem closing_order_independent_witness:
  "calculate_cycle_closing (\<lambda>m. cm_calculation_hash m @ ''h'') (demo_evidence\<lparr>
      ev_participations := rev (ev_participations demo_evidence),
      ev_contributions := rev (ev_contributions demo_evidence),
      ev_gains := ev_gains demo_evidence, ev_obligations := []\<rparr>)
    = calculate_cycle_closing (\<lambda>m. cm_calculation_hash m @ ''h'') demo_evidence"
  by (rule closing_order_independent) (simp_all add: demo_evidence_def)

end
