(* ===== verification/Amortization.thy ===== *)
theory Amortization
  imports Decimal_Arith
begin

text \<open>
  Loan schedules: \<open>core/loan_rules.py\<close>, \<open>services/loan_amortization.py\<close> and
  \<open>services/finance.py\<close>. The linear engine works on unquantized decimals in the default
  28-digit context, the Price engine on quantized balances in a 50-digit context
  (\<open>max(context.prec, 50)\<close>). Arguments have the types the code checks for, so its
  \<open>isinstance\<close> errors have no counterpart; every other raise is a branch.
  An integral power is rounded once to the precision of the context.
\<close>

section \<open>Rules\<close>

definition MAX_LOAN_INSTALLMENTS :: int where "MAX_LOAN_INSTALLMENTS = 6"
definition OFFICIAL_LOAN_MONTHLY_RATE :: decimal where "OFFICIAL_LOAN_MONTHLY_RATE = 20 / 100"
definition LOAN_CALCULATION_VERSION :: string where "LOAN_CALCULATION_VERSION = ''linear_amortization_v1''"
definition PRICE_CALCULATION_VERSION :: string where "PRICE_CALCULATION_VERSION = ''price_amortization_v1''"
definition LATE_CHARGE_VERSION :: string where "LATE_CHARGE_VERSION = ''late_charge_daily_simple_v1''"
definition LATE_CHARGE_SETTLEMENT_COMPONENT_VERSION :: string where
  "LATE_CHARGE_SETTLEMENT_COMPONENT_VERSION = ''late_charge_components_v1''"

definition validate_loan_installments :: "int \<Rightarrow> unit res" where
  "validate_loan_installments installments =
     check (1 \<le> installments \<and> installments \<le> MAX_LOAN_INSTALLMENTS)
       (ValueError ''Emprestimos devem ter entre 1 e 6 parcelas.'')"

definition simple_interest :: "decimal \<Rightarrow> decimal \<Rightarrow> int \<Rightarrow> cents" where
  "simple_interest princ monthly_rate months =
     cents (dmul 28 (dmul 28 princ monthly_rate) (of_int months))"

definition service_fee :: "decimal \<Rightarrow> decimal \<Rightarrow> cents" where
  "service_fee interest rate = cents (dmul 28 interest rate)"

section \<open>The Price engine\<close>

record price_row =
  pw_number :: int
  pw_principal :: cents
  pw_interest :: cents
  pw_balance_after :: cents
  pw_amount :: cents
  pw_balance_before :: cents

definition price_payment :: "decimal \<Rightarrow> decimal \<Rightarrow> int \<Rightarrow> cents res" where
  "price_payment princ monthly_rate installments =
     (if monthly_rate = 0 then
        res_bind (ddiv 50 princ (of_int installments)) (\<lambda>q. Inr (cents q))
      else
        let one_plus_rate = dadd 50 1 monthly_rate
        in res_bind (ddiv 50 1 (ctx 50 (one_plus_rate ^ nat installments))) (\<lambda>discount_factor.
           res_bind (ddiv 50 (dmul 50 princ monthly_rate) (dsub 50 1 discount_factor))
             (\<lambda>theoretical_payment. Inr (cents theoretical_payment))))"

record price_acc =
  pc_balance :: cents
  pc_total_principal :: cents
  pc_rows :: "price_row list"

definition price_interest :: "cents \<Rightarrow> decimal \<Rightarrow> cents" where
  "price_interest opening_balance monthly_rate = cents (dmul 50 (dec opening_balance) monthly_rate)"

definition price_step :: "cents \<Rightarrow> decimal \<Rightarrow> int \<Rightarrow> int \<Rightarrow> price_acc \<Rightarrow> price_acc res" where
  "price_step payment monthly_rate installments number acc =
     (let opening_balance = pc_balance acc;
          interest = price_interest opening_balance monthly_rate;
          installment_principal = (if number = installments then opening_balance else payment - interest);
          amount = (if number = installments then installment_principal + interest else payment)
      in if number \<noteq> installments \<and> installment_principal < 0 then
           Inl (ValueError ''calculated principal cannot be negative'')
         else
           let balance = opening_balance - installment_principal
           in Inr \<lparr>pc_balance = balance,
                   pc_total_principal = pc_total_principal acc + installment_principal,
                   pc_rows = pc_rows acc @
                     [\<lparr>pw_number = number, pw_principal = installment_principal,
                       pw_interest = interest, pw_balance_after = balance, pw_amount = amount,
                       pw_balance_before = opening_balance\<rparr>]\<rparr>)"

definition calculate_price_amortization ::
    "decimal \<Rightarrow> decimal \<Rightarrow> int \<Rightarrow> (price_row list \<times> cents \<times> cents) res" where
  "calculate_price_amortization princ monthly_rate installments =
     (if princ \<le> 0 then Inl (ValueError ''principal must be greater than zero'')
      else if monthly_rate < 0 then Inl (ValueError ''monthly_rate must not be negative'')
      else if \<not> (1 \<le> installments \<and> installments \<le> MAX_LOAN_INSTALLMENTS) then
        Inl (ValueError ''installments must be between 1 and 6'')
      else
        res_bind (price_payment princ monthly_rate installments) (\<lambda>payment.
        res_bind (fold_res (price_step payment monthly_rate installments) [1..installments]
            \<lparr>pc_balance = cents princ, pc_total_principal = 0, pc_rows = []\<rparr>) (\<lambda>acc.
        Inr (pc_rows acc, pc_total_principal acc, pc_balance acc))))"

section \<open>The linear engine\<close>

record linear_row =
  lw_number :: int
  lw_principal :: decimal
  lw_interest :: cents
  lw_balance_after :: decimal
  lw_amount :: decimal
  lw_balance_before :: decimal

record linear_acc =
  lc_total_principal :: decimal
  lc_balance :: decimal
  lc_rows :: "linear_row list"

definition linear_step :: "decimal \<Rightarrow> decimal \<Rightarrow> int \<Rightarrow> decimal \<Rightarrow> int \<Rightarrow> linear_acc \<Rightarrow> linear_acc" where
  "linear_step princ monthly_rate installments principal_each number acc =
     (let installment_principal =
            (if number < installments then principal_each
             else dsub 28 princ (lc_total_principal acc));
          balance = lc_balance acc;
          interest = cents (dmul 28 balance monthly_rate);
          amount = dadd 28 installment_principal (dec interest)
      in \<lparr>lc_total_principal = dadd 28 (lc_total_principal acc) installment_principal,
          lc_balance = dsub 28 balance installment_principal,
          lc_rows = lc_rows acc @
            [\<lparr>lw_number = number, lw_principal = installment_principal, lw_interest = interest,
              lw_balance_after = dsub 28 balance installment_principal, lw_amount = amount,
              lw_balance_before = balance\<rparr>]\<rparr>)"

definition calculate_linear_amortization ::
    "decimal \<Rightarrow> decimal \<Rightarrow> int \<Rightarrow> (linear_row list \<times> decimal \<times> decimal) res" where
  "calculate_linear_amortization princ monthly_rate installments =
     res_bind (ddiv 28 princ (of_int installments)) (\<lambda>q.
     let principal_each = dec (cents q);
         acc = fold (linear_step princ monthly_rate installments principal_each) [1..installments]
           \<lparr>lc_total_principal = 0, lc_balance = princ, lc_rows = []\<rparr>
     in Inr (lc_rows acc, lc_total_principal acc, lc_balance acc))"

section \<open>Selection by version and the public simulations\<close>

datatype schedule =
    Linear_Schedule "linear_row list" decimal decimal
  | Price_Schedule "price_row list" cents cents

definition calculate_amortization ::
    "string option \<Rightarrow> decimal \<Rightarrow> decimal \<Rightarrow> int \<Rightarrow> schedule res" where
  "calculate_amortization calculation_version princ monthly_rate installments =
     (if calculation_version = Some LOAN_CALCULATION_VERSION then
        res_bind (calculate_linear_amortization princ monthly_rate installments)
          (\<lambda>(rows, total, balance). Inr (Linear_Schedule rows total balance))
      else if calculation_version = Some PRICE_CALCULATION_VERSION then
        res_bind (calculate_price_amortization princ monthly_rate installments)
          (\<lambda>(rows, total, balance). Inr (Price_Schedule rows total balance))
      else if calculation_version = None then
        Inl (ValueError ''calculation_version is required to generate a schedule'')
      else Inl (ValueError ''Unknown loan calculation version''))"

record 'row simulation =
  si_calculation_version :: string
  si_principal :: cents
  si_monthly_rate :: decimal
  si_installments :: int
  si_schedule :: "'row list"
  si_total_principal :: decimal
  si_total_interest :: cents
  si_total_payment :: decimal
  si_final_balance :: decimal

definition build_loan_simulation ::
    "decimal \<Rightarrow> decimal \<Rightarrow> int \<Rightarrow> linear_row simulation res" where
  "build_loan_simulation principal0 monthly_rate installments =
     (let princ = cents principal0
      in res_bind (calculate_linear_amortization (dec princ) monthly_rate installments)
        (\<lambda>(rows, total_principal, final_balance).
         Inr \<lparr>si_calculation_version = LOAN_CALCULATION_VERSION, si_principal = princ,
              si_monthly_rate = monthly_rate, si_installments = installments, si_schedule = rows,
              si_total_principal = total_principal,
              si_total_interest = (\<Sum>row\<leftarrow>rows. lw_interest row),
              si_total_payment = fold (\<lambda>row t. dadd 28 t (lw_amount row)) rows 0,
              si_final_balance = final_balance\<rparr>))"

definition build_price_loan_simulation ::
    "decimal \<Rightarrow> decimal \<Rightarrow> int \<Rightarrow> price_row simulation res" where
  "build_price_loan_simulation principal0 monthly_rate installments =
     (let princ = cents principal0
      in res_bind (calculate_price_amortization (dec princ) monthly_rate installments)
        (\<lambda>(rows, total_principal, final_balance).
         Inr \<lparr>si_calculation_version = PRICE_CALCULATION_VERSION, si_principal = princ,
              si_monthly_rate = monthly_rate, si_installments = installments, si_schedule = rows,
              si_total_principal = dec total_principal,
              si_total_interest = (\<Sum>row\<leftarrow>rows. pw_interest row),
              si_total_payment = dec (\<Sum>row\<leftarrow>rows. pw_amount row),
              si_final_balance = dec final_balance\<rparr>))"

section \<open>The Price schedule closes\<close>

lemma price_step_cases:
  assumes "price_step payment rate n k acc = Inr acc'"
  obtains p where
    "p = (if k = n then pc_balance acc else payment - price_interest (pc_balance acc) rate)"
    "k \<noteq> n \<Longrightarrow> 0 \<le> p"
    "acc' = \<lparr>pc_balance = pc_balance acc - p, pc_total_principal = pc_total_principal acc + p,
       pc_rows = pc_rows acc @ [\<lparr>pw_number = k, pw_principal = p,
         pw_interest = price_interest (pc_balance acc) rate, pw_balance_after = pc_balance acc - p,
         pw_amount = p + price_interest (pc_balance acc) rate, pw_balance_before = pc_balance acc\<rparr>]\<rparr>"
  using assms by (auto simp: price_step_def Let_def split: if_splits)

text \<open>Rows chain: each balance is the previous balance less the principal, an amount is
  principal plus interest.\<close>

fun price_chain :: "cents \<Rightarrow> price_row list \<Rightarrow> cents \<Rightarrow> bool" where
  "price_chain b [] c \<longleftrightarrow> b = c"
| "price_chain b (r # rs) c \<longleftrightarrow> pw_balance_before r = b
     \<and> pw_balance_after r = b - pw_principal r \<and> pw_amount r = pw_principal r + pw_interest r
     \<and> price_chain (pw_balance_after r) rs c"

lemma price_chain_append:
  "price_chain b (rs @ [r]) c \<longleftrightarrow> (\<exists>d. price_chain b rs d \<and> price_chain d [r] c)"
  by (induction rs arbitrary: b) auto

lemma price_chain_sum: "price_chain b rs c \<Longrightarrow> (\<Sum>r\<leftarrow>rs. pw_principal r) = b - c"
  by (induction rs arbitrary: b) auto

definition price_inv :: "cents \<Rightarrow> price_acc \<Rightarrow> bool" where
  "price_inv p acc \<longleftrightarrow> price_chain p (pc_rows acc) (pc_balance acc)
     \<and> pc_total_principal acc = p - pc_balance acc"

lemma price_inv_step:
  assumes "price_inv p acc" "price_step payment rate n k acc = Inr acc'"
  shows "price_inv p acc'"
  by (rule price_step_cases [OF assms(2)])
    (use assms(1) in \<open>simp add: price_inv_def price_chain_append\<close>)

lemma price_fold:
  assumes "fold_res (price_step payment rate n) ks acc = Inr acc'" "price_inv p acc"
  shows "price_inv p acc'"
  by (rule fold_res_invariant [where I = "price_inv p", OF assms]) (rule price_inv_step)

lemma upto_snoc: "1 \<le> n \<Longrightarrow> [1..n] = [1..n - 1] @ [n]"
  by (rule upto_rec2)

lemma price_rows_numbers:
  "fold_res (price_step payment rate n) ks acc = Inr acc' \<Longrightarrow>
    map pw_number (pc_rows acc') = map pw_number (pc_rows acc) @ ks"
proof (induction ks arbitrary: acc)
  case (Cons k ks)
  then obtain a where a: "price_step payment rate n k acc = Inr a"
    "fold_res (price_step payment rate n) ks a = Inr acc'" by (auto simp: res_bind_eq_Inr)
  have "map pw_number (pc_rows a) = map pw_number (pc_rows acc) @ [k]"
    by (rule price_step_cases [OF a(1)]) simp
  with Cons.IH [OF a(2)] show ?case by simp
qed simp

lemma price_run_closes:
  assumes "fold_res (price_step payment rate n) [1..n] acc = Inr acc'" "1 \<le> n"
  shows "pc_balance acc' = 0"
proof -
  from assms obtain u where "price_step payment rate n n u = Inr acc'"
    by (auto simp: upto_snoc fold_res_append res_bind_eq_Inr)
  then show ?thesis by (rule price_step_cases) simp
qed

text \<open>Every row but the last has the fixed payment and a principal that is not negative.\<close>

definition price_regular :: "cents \<Rightarrow> int \<Rightarrow> price_row \<Rightarrow> bool" where
  "price_regular payment n row \<longleftrightarrow>
     (pw_number row \<noteq> n \<longrightarrow> pw_amount row = payment \<and> 0 \<le> pw_principal row)"

lemma price_fold_regular:
  assumes "fold_res (price_step payment rate n) ks acc = Inr acc'"
    "list_all (price_regular payment n) (pc_rows acc)"
  shows "list_all (price_regular payment n) (pc_rows acc')"
proof (rule fold_res_invariant [where I = "\<lambda>a. list_all (price_regular payment n) (pc_rows a)", OF assms])
  fix k u v
  assume "list_all (price_regular payment n) (pc_rows u)" and "price_step payment rate n k u = Inr v"
  then show "list_all (price_regular payment n) (pc_rows v)"
    by (elim price_step_cases) (auto simp: price_regular_def)
qed

lemma price_run:
  assumes "calculate_price_amortization princ rate n = Inr (rows, total_principal, balance)"
  obtains payment acc where "0 < princ" "0 \<le> rate" "1 \<le> n" "n \<le> 6"
    "price_payment princ rate n = Inr payment"
    "fold_res (price_step payment rate n) [1..n]
       \<lparr>pc_balance = cents princ, pc_total_principal = 0, pc_rows = []\<rparr> = Inr acc"
    "rows = pc_rows acc" "total_principal = pc_total_principal acc" "balance = pc_balance acc"
  using assms unfolding calculate_price_amortization_def MAX_LOAN_INSTALLMENTS_def
  by (elim res_elims) auto

section \<open>The Price schedule always exists\<close>

lemma price_interest_mono: "a \<le> b \<Longrightarrow> 0 \<le> rate \<Longrightarrow> price_interest a rate \<le> price_interest b rate"
  by (simp add: price_interest_def dmul_def cents_mono ctx_mono mult_right_mono)

lemma price_denominator:
  assumes rate: "1 / 10 ^ 6 \<le> rate" and n: "1 \<le> n"
    and d: "ddiv 50 1 (ctx 50 (dadd 50 1 rate ^ nat n)) = Inr d"
  shows "0 < dsub 50 1 d" and "dsub 50 1 d \<le> 1"
proof -
  let ?b = "1 + 1 / 10 ^ 6 :: rat"
  let ?g = "dadd 50 1 rate"
  have b: "ctx 50 ?b = ?b"
    by (rule ctx_exact [where k = 6 and m = 1000001]) simp_all
  have "ctx 50 ?b \<le> ctx 50 (1 + rate)" using rate by (intro ctx_mono) simp_all
  then have g: "?b \<le> ?g" by (simp only: b dadd_def)
  have "?g ^ 1 \<le> ?g ^ nat n"
    using g n by (intro power_increasing) auto
  with g have "?b \<le> ?g ^ nat n" by simp
  then have "ctx 50 ?b \<le> ctx 50 (?g ^ nat n)" by (intro ctx_mono) simp_all
  then have pw: "?b \<le> ctx 50 (?g ^ nat n)" by (simp only: b)
  let ?P = "ctx 50 (?g ^ nat n)"
  have P: "0 < ?P" using pw by (rule less_le_trans [rotated]) simp
  with d have dd: "d = ctx 50 (1 / ?P)" by (simp add: ddiv_def split: if_splits)
  have "1 / ?P \<le> 1 / ?b" using pw by (intro divide_left_mono) (use P in simp_all)
  also have "\<dots> \<le> 9999999 / 10 ^ 7" by simp
  finally have "d \<le> ctx 50 (9999999 / 10 ^ 7)" unfolding dd by (rule ctx_mono) simp
  also have "\<dots> = 9999999 / 10 ^ 7"
    by (rule ctx_exact [where k = 7 and m = 9999999]) simp_all
  finally have d1: "d < 1" by simp
  have d0: "0 \<le> d" unfolding dd using P by (intro ctx_nonneg) simp_all
  show "0 < dsub 50 1 d" using d1 by (simp add: dsub_def ctx_pos)
  have "ctx 50 (1 - d) \<le> ctx 50 (of_int 1)" using d0 by (intro ctx_mono) simp_all
  then show "dsub 50 1 d \<le> 1" using ctx_of_int_exact [of 1 50] by (simp add: dsub_def)
qed

text \<open>The payment is defined and covers the interest of the whole principal.\<close>

lemma price_payment_covers:
  assumes p: "0 < p" and rate: "rate = 0 \<or> 1 / 10 ^ 6 \<le> rate" and n: "1 \<le> n"
  obtains payment where "price_payment (dec p) rate n = Inr payment" "price_interest p rate \<le> payment"
proof (cases "rate = 0")
  case True
  have "0 \<le> cents (ctx 50 (dec p / of_int n))"
    using p n by (intro cents_nonneg ctx_nonneg) (simp_all add: dec_def)
  then show ?thesis
    using that [of "cents (ctx 50 (dec p / of_int n))"] True n
    by (simp add: price_payment_def ddiv_def price_interest_def dmul_def)
next
  case False
  with rate have r: "1 / 10 ^ 6 \<le> rate" by simp
  then have r0: "0 < rate" by (rule less_le_trans [rotated]) simp
  let ?P = "ctx 50 (dadd 50 1 rate ^ nat n)"
  have "0 < dadd 50 1 rate" using r0 by (simp add: dadd_def ctx_pos)
  then have P: "?P \<noteq> 0" using ctx_pos [of "dadd 50 1 rate ^ nat n" 50] by simp
  define d where "d = ctx 50 (1 / ?P)"
  have d: "ddiv 50 1 ?P = Inr d" using P by (simp add: ddiv_def d_def)
  define D where "D = dsub 50 1 d"
  have D: "0 < D" "D \<le> 1" using price_denominator [OF r n d] by (simp_all add: D_def)
  define x where "x = ctx 50 (dec p * rate)"
  have x: "0 < x" using p r0 by (simp add: x_def ctx_pos dec_def)
  have pay: "price_payment (dec p) rate n = Inr (cents (ctx 50 (x / D)))"
    using False d D by (simp add: price_payment_def Let_def ddiv_def D_def dmul_def x_def)
  have "x \<le> x / D" using x D by (simp add: pos_le_divide_eq mult_left_le)
  then have "ctx 50 x \<le> ctx 50 (x / D)" by (rule ctx_mono) simp
  then have "cents x \<le> cents (ctx 50 (x / D))" by (simp add: x_def ctx_idem cents_mono)
  then show ?thesis
    by (intro that [OF pay]) (simp add: price_interest_def dmul_def x_def)
qed

lemma price_fold_total:
  assumes "price_interest p rate \<le> payment" "0 \<le> rate" "0 \<le> p" "pc_balance acc \<le> p"
  shows "\<exists>acc'. fold_res (price_step payment rate n) ks acc = Inr acc'"
  using assms(4)
proof (induction ks arbitrary: acc)
  case (Cons k ks)
  have "price_interest (pc_balance acc) rate \<le> payment"
    using price_interest_mono [OF Cons.prems assms(2)] assms(1) by simp
  then obtain a where "price_step payment rate n k acc = Inr a" "pc_balance a \<le> p"
    using Cons.prems assms(3) by (cases "k = n") (auto simp: price_step_def Let_def)
  with Cons.IH show ?case by simp
qed simp

text \<open>C39. A Price schedule that is returned is closed: its installments are numbered
  \<open>1..n\<close>, the balances chain from the principal to exactly zero, the principals add up to the
  principal, and all installments but the last pay one fixed amount with a principal part that
  is not negative.\<close>

theorem price_schedule_closes:
  assumes "calculate_price_amortization princ rate n = Inr (rows, total_principal, balance)"
  shows "map pw_number rows = [1..n] \<and> price_chain (cents princ) rows 0 \<and> balance = 0
    \<and> total_principal = cents princ \<and> (\<Sum>row\<leftarrow>rows. pw_principal row) = cents princ
    \<and> (\<exists>payment. list_all (price_regular payment n) rows)"
proof -
  from price_run [OF assms] obtain payment acc where n: "1 \<le> n"
    and run: "fold_res (price_step payment rate n) [1..n]
       \<lparr>pc_balance = cents princ, pc_total_principal = 0, pc_rows = []\<rparr> = Inr acc"
    and res: "rows = pc_rows acc" "total_principal = pc_total_principal acc" "balance = pc_balance acc"
    by metis
  have inv: "price_inv (cents princ) acc"
    by (rule price_fold [OF run]) (simp add: price_inv_def)
  have zero: "pc_balance acc = 0" by (rule price_run_closes [OF run n])
  with inv have chain: "price_chain (cents princ) rows 0" "total_principal = cents princ"
    by (simp_all add: price_inv_def res)
  have "list_all (price_regular payment n) rows"
    using price_fold_regular [OF run] by (simp add: res)
  then show ?thesis
    using chain price_rows_numbers [OF run] zero price_chain_sum [OF chain(1)] by (auto simp: res)
qed

lemma price_total:
  assumes "0 < p" "rate = 0 \<or> 1 / 10 ^ 6 \<le> rate" "1 \<le> n" "n \<le> 6"
  shows "\<exists>rows. calculate_price_amortization (dec p) rate n = Inr (rows, p, 0)"
proof -
  from assms(2) have rate: "0 \<le> rate" by (rule disjE) (simp, erule order_trans [rotated], simp)
  obtain payment where pay: "price_payment (dec p) rate n = Inr payment" "price_interest p rate \<le> payment"
    by (rule price_payment_covers [OF assms(1-3)])
  obtain acc where run: "fold_res (price_step payment rate n) [1..n]
       \<lparr>pc_balance = p, pc_total_principal = 0, pc_rows = []\<rparr> = Inr acc"
    using price_fold_total [OF pay(2) rate] assms(1) by fastforce
  then have "calculate_price_amortization (dec p) rate n
      = Inr (pc_rows acc, pc_total_principal acc, pc_balance acc)"
    using assms rate pay(1) by (simp add: calculate_price_amortization_def MAX_LOAN_INSTALLMENTS_def not_le)
  moreover have "pc_balance acc = 0" by (rule price_run_closes [OF run assms(3)])
  moreover have "price_inv p acc" by (rule price_fold [OF run]) (simp add: price_inv_def)
  ultimately show ?thesis by (simp add: price_inv_def)
qed

text \<open>A positive principal of whole cents at a zero rate, or a rate of at least
  \<open>0.000001\<close> a month, always has a Price schedule in one to six installments: the rounded
  payment covers the first interest, so the code's "calculated principal cannot be negative"
  is not reached and no division by zero happens.\<close>

theorem price_schedule_exists:
  assumes "0 < p" "rate = 0 \<or> 1 / 10 ^ 6 \<le> rate" "1 \<le> n" "n \<le> 6"
  shows "\<exists>rows. calculate_price_amortization (dec p) rate n = Inr (rows, p, 0)"
  by (rule price_total [OF assms])

theorem price_schedule_closes_witness:
  "\<exists>rows. calculate_price_amortization (dec 100000) (20 / 100) 6 = Inr (rows, 100000, 0)
     \<and> map pw_number rows = [1..6] \<and> price_chain 100000 rows 0"
proof -
  obtain rows where "calculate_price_amortization (dec 100000) (20 / 100) 6 = Inr (rows, 100000, 0)"
    using price_total [of 100000 "20 / 100" 6] by auto
  with price_schedule_closes [OF this] show ?thesis by simp
qed

theorem price_schedule_exists_witness:
  "\<exists>rows. calculate_price_amortization (dec 150000) OFFICIAL_LOAN_MONTHLY_RATE 5 = Inr (rows, 150000, 0)"
  by (rule price_schedule_exists) (simp_all add: OFFICIAL_LOAN_MONTHLY_RATE_def)

section \<open>The linear schedule in closed form\<close>

text \<open>Within \<open>10^20\<close> cents the decimal context does not round a balance, and the loop
  computes with whole cents.\<close>

definition linear_each :: "cents \<Rightarrow> int \<Rightarrow> cents" where
  "linear_each p n = cents (ctx 28 (dec p / of_int n))"

definition linear_interest :: "cents \<Rightarrow> decimal \<Rightarrow> cents" where
  "linear_interest balance rate = cents (ctx 28 (dec balance * rate))"

definition linear_row_of :: "cents \<Rightarrow> decimal \<Rightarrow> int \<Rightarrow> int \<Rightarrow> linear_row" where
  "linear_row_of p rate n k =
     (let each = linear_each p n; before = p - (k - 1) * each;
          principal_k = (if k < n then each else before)
      in \<lparr>lw_number = k, lw_principal = dec principal_k, lw_interest = linear_interest before rate,
          lw_balance_after = dec (before - principal_k),
          lw_amount = dec (principal_k + linear_interest before rate), lw_balance_before = dec before\<rparr>)"

lemma linear_each_bounds:
  assumes "0 \<le> p" "p \<le> 10 ^ 20" "1 \<le> n"
  shows "0 \<le> linear_each p n" "linear_each p n \<le> p"
proof -
  show "0 \<le> linear_each p n"
    using assms by (simp add: linear_each_def cents_nonneg ctx_nonneg)
  have "dec p * 1 \<le> dec p * of_int n" using assms by (intro mult_left_mono) auto
  then have "dec p / of_int n \<le> dec p" using assms by (simp add: divide_le_eq)
  then have "ctx 28 (dec p / of_int n) \<le> ctx 28 (dec p)" by (rule ctx_mono) simp
  also have "\<dots> = dec p" using assms by (intro ctx_cents_exact) simp
  finally show "linear_each p n \<le> p" unfolding linear_each_def by (metis cents_dec cents_mono)
qed

text \<open>A cent amount is the nearest one to the exact share.\<close>

lemma linear_each_nearest:
  assumes p: "0 < p" "p \<le> 10 ^ 20" and n: "1 \<le> n" "n \<le> 6"
  shows "\<bar>2 * (n * linear_each p n - p)\<bar> \<le> n"
proof -
  define x where "x = dec p / of_int n"
  have x: "0 < x" using p n by (simp add: x_def dec_def)
  have "x \<le> 10 ^ 18"
  proof -
    have "dec p \<le> dec (10 ^ 20)" using p by (simp only: dec_le_iff)
    also have "\<dots> = 10 ^ 18" by (simp add: dec_def)
    also have "\<dots> \<le> 10 ^ 18 * of_int n" using n by simp
    finally show ?thesis using n by (simp add: x_def divide_le_eq)
  qed
  have "\<bar>ctx 28 x - x\<bar> \<le> x * 10 powi (1 - int 28) / 2" using x by (intro ctx_rel_error) simp_all
  also have "x * 10 powi (1 - int 28) / 2 \<le> 10 ^ 18 * 10 powi (- 27) / 2"
    using \<open>x \<le> 10 ^ 18\<close> by simp
  also have "\<dots> \<le> 1 / 10 ^ 8" by (simp add: power_int_minus_divide)
  finally have e1: "\<bar>ctx 28 x - x\<bar> \<le> 1 / 10 ^ 8" .
  have e2: "\<bar>dec (linear_each p n) - ctx 28 x\<bar> \<le> 1 / 200"
    unfolding linear_each_def x_def by (rule cents_error)
  have "\<bar>dec (linear_each p n) - x\<bar> \<le> 1 / 200 + 1 / 10 ^ 8"
    using e1 e2 by linarith
  then have "\<bar>of_int (n * linear_each p n - p) / (100 * of_int n)\<bar> \<le> (1 / 200 + 1 / 10 ^ 8 :: rat)"
    using n by (simp add: x_def dec_def diff_divide_distrib)
  then have "\<bar>of_int (n * linear_each p n - p)\<bar> \<le> (1 / 200 + 1 / 10 ^ 8 :: rat) * (100 * of_int n)"
    using n by (simp add: pos_divide_le_eq abs_mult)
  also have "\<dots> < (of_int n + 1) / 2" using n(2) by simp
  finally have "(of_int (2 * \<bar>n * linear_each p n - p\<bar>) :: rat) < of_int (n + 1)" by simp
  then have "2 * \<bar>n * linear_each p n - p\<bar> < n + 1" by (simp only: of_int_less_iff)
  then show ?thesis by (simp only: abs_mult abs_numeral)
qed

lemma linear_interest_bound:
  assumes "\<bar>b\<bar> \<le> 10 ^ 21" "0 \<le> rate" "rate \<le> 100"
  shows "\<bar>linear_interest b rate\<bar> \<le> 10 ^ 23"
proof -
  have "\<bar>of_int b\<bar> \<le> (10 ^ 21 :: rat)"
    using assms(1) by (metis of_int_abs of_int_le_iff of_int_numeral of_int_power)
  then have "\<bar>dec b\<bar> \<le> 10 ^ 19" by (simp add: dec_def)
  then have "\<bar>dec b\<bar> * rate \<le> 10 ^ 19 * 100" using assms by (intro mult_mono) auto
  then have y: "\<bar>dec b * rate\<bar> \<le> 10 ^ 21" using assms by (simp add: abs_mult)
  have e: "ctx 28 (dec c) = dec c" if "\<bar>c\<bar> \<le> 10 ^ 23" for c
    using that by (intro ctx_cents_exact) simp
  have "dec b * rate \<le> dec (10 ^ 23)" "dec (- (10 ^ 23)) \<le> dec b * rate"
    using y by (simp_all add: abs_le_iff dec_def)
  then have "ctx 28 (dec b * rate) \<le> dec (10 ^ 23)" "dec (- (10 ^ 23)) \<le> ctx 28 (dec b * rate)"
    using ctx_mono [of "dec b * rate" "dec (10 ^ 23)" 28] ctx_mono [of "dec (- (10 ^ 23))" "dec b * rate" 28]
      e [of "10 ^ 23"] e [of "- (10 ^ 23)"] by simp_all
  then have "linear_interest b rate \<le> 10 ^ 23" "- (10 ^ 23) \<le> linear_interest b rate"
    unfolding linear_interest_def by (metis cents_dec cents_mono)+
  then show ?thesis by simp
qed

definition linear_paid :: "cents \<Rightarrow> int \<Rightarrow> int \<Rightarrow> cents" where
  "linear_paid p n k = (if k < n then k * linear_each p n else p)"

lemma linear_step_exact:
  assumes p: "0 \<le> p" "p \<le> 10 ^ 20" and r: "0 \<le> rate" "rate \<le> 100"
    and k: "1 \<le> k" "k \<le> n" "n \<le> 6"
    and acc: "lc_total_principal acc = dec (linear_paid p n (k - 1))"
      "lc_balance acc = dec (p - linear_paid p n (k - 1))"
  shows "linear_step (dec p) rate n (dec (linear_each p n)) k acc =
    \<lparr>lc_total_principal = dec (linear_paid p n k), lc_balance = dec (p - linear_paid p n k),
     lc_rows = lc_rows acc @ [linear_row_of p rate n k]\<rparr>"
proof -
  define e where "e = linear_each p n"
  have e: "0 \<le> e" "e \<le> 10 ^ 20" using linear_each_bounds [OF p, of n] k p by (simp_all add: e_def)
  have ke: "0 \<le> (k - 1) * e" "(k - 1) * e \<le> 5 * 10 ^ 20"
    using e k mult_mono [of "k - 1" 5 e "10 ^ 20"] by auto
  have paid: "linear_paid p n (k - 1) = (k - 1) * e" using k by (simp add: linear_paid_def e_def)
  have x: "ctx 28 (dec c) = dec c" if "\<bar>c\<bar> \<le> 10 ^ 24" for c
    using that by (intro ctx_cents_exact) simp
  define b where "b = p - (k - 1) * e"
  have b: "\<bar>b\<bar> \<le> 10 ^ 21" using p ke by (simp add: b_def)
  have i: "\<bar>linear_interest b rate\<bar> \<le> 10 ^ 23" by (rule linear_interest_bound [OF b r])
  define q where "q = (if k < n then e else b)"
  have q: "\<bar>q\<bar> \<le> 10 ^ 21" using b e by (simp add: q_def)
  have ops: "dsub 28 (dec p) (dec ((k - 1) * e)) = dec b"
    "dadd 28 (dec ((k - 1) * e)) (dec q) = dec ((k - 1) * e + q)"
    "dsub 28 (dec b) (dec q) = dec (b - q)"
    "dadd 28 (dec q) (dec (linear_interest b rate)) = dec (q + linear_interest b rate)"
    using p ke b q i unfolding dadd_def dsub_def b_def dec_add [symmetric] dec_diff [symmetric]
    by (simp_all add: x)
  have paidk: "linear_paid p n k = (k - 1) * e + q"
    using k by (auto simp: linear_paid_def q_def b_def e_def algebra_simps)
  have inst: "(if k < n then dec e else dec b) = dec q" by (simp add: q_def)
  have int: "cents (dmul 28 (dec b) rate) = linear_interest b rate"
    by (simp add: linear_interest_def dmul_def)
  have bal: "lc_balance acc = dec b" "p - ((k - 1) * e + q) = b - q"
    using acc(2) by (simp_all add: paid b_def)
  have row: "linear_row_of p rate n k = \<lparr>lw_number = k, lw_principal = dec q,
      lw_interest = linear_interest b rate, lw_balance_after = dec (b - q),
      lw_amount = dec (q + linear_interest b rate), lw_balance_before = dec b\<rparr>"
    by (simp add: linear_row_of_def Let_def q_def b_def e_def)
  show ?thesis
    unfolding linear_step_def Let_def acc(1) bal(1) paid e_def [symmetric] ops(1) inst int ops(2-) row
      paidk bal(2) ..
qed

lemma linear_fold:
  assumes p: "0 \<le> p" "p \<le> 10 ^ 20" and r: "0 \<le> rate" "rate \<le> 100" and n: "1 \<le> n" "n \<le> 6"
    and k: "int k \<le> n"
  shows "fold (linear_step (dec p) rate n (dec (linear_each p n))) [1..int k]
      \<lparr>lc_total_principal = 0, lc_balance = dec p, lc_rows = []\<rparr> =
    \<lparr>lc_total_principal = dec (linear_paid p n (int k)), lc_balance = dec (p - linear_paid p n (int k)),
     lc_rows = map (linear_row_of p rate n) [1..int k]\<rparr>"
  using k
proof (induction k)
  case 0
  with n show ?case by (simp add: linear_paid_def)
next
  case (Suc k)
  have u: "[1..int (Suc k)] = [1..int k] @ [int (Suc k)]" using upto_snoc [of "int (Suc k)"] by simp
  show ?case
    unfolding u using Suc linear_step_exact [OF p r, of "int (Suc k)" n] n by simp
qed

lemma linear_run:
  assumes "0 \<le> p" "p \<le> 10 ^ 20" "0 \<le> rate" "rate \<le> 100" "1 \<le> n" "n \<le> 6"
  shows "calculate_linear_amortization (dec p) rate n =
    Inr (map (linear_row_of p rate n) [1..n], dec p, 0)"
  using linear_fold [OF assms(1-6), of "nat n"] assms
  by (simp add: calculate_linear_amortization_def ddiv_def linear_each_def Let_def linear_paid_def)

text \<open>The linear engine in closed form, for a principal of \<open>0\<close> to \<open>10^20\<close> cents, a rate of
  at most 100 and one to six installments: the result is exact in cents, installment \<open>k\<close>
  amortizes the rounded share (the last one the remainder), its interest is the rate on the
  balance before it rounded half up, the principals add up to the principal and the balance ends at zero.\<close>

theorem linear_schedule_closed_form:
  assumes "0 \<le> p" "p \<le> 10 ^ 20" "0 \<le> rate" "rate \<le> 100" "1 \<le> n" "n \<le> 6"
  shows "calculate_linear_amortization (dec p) rate n =
    Inr (map (linear_row_of p rate n) [1..n], dec p, 0)"
  by (rule linear_run [OF assms])

theorem linear_schedule_closed_form_witness:
  "calculate_linear_amortization (dec 150000) (20 / 100) 5 =
    Inr (map (linear_row_of 150000 (20 / 100) 5) [1..5], dec 150000, 0)"
  by (rule linear_schedule_closed_form) simp_all

text \<open>With at least 15 cents of principal no linear installment has a negative principal,
  so the balance never increases and stays between zero and the principal.\<close>

theorem linear_rows_nonneg:
  assumes "15 \<le> p" "p \<le> 10 ^ 20" "0 \<le> rate" "rate \<le> 100" "1 \<le> n" "n \<le> 6"
    and "calculate_linear_amortization (dec p) rate n = Inr (rows, total_principal, balance)"
  shows "list_all (\<lambda>row. 0 \<le> lw_principal row \<and> 0 \<le> lw_balance_after row
    \<and> lw_balance_after row \<le> lw_balance_before row \<and> lw_balance_before row \<le> dec p \<and> 0 \<le> lw_interest row) rows"
proof -
  let ?e = "linear_each p n"
  have e: "0 \<le> ?e" using linear_each_bounds assms by simp
  have "2 * (n * ?e) \<le> 2 * p + n" using linear_each_nearest [of p n] assms by simp
  moreover have "n * (n - 1) \<le> 6 * 5" using assms by (intro mult_mono) auto
  ultimately have last: "0 \<le> p - (n - 1) * ?e"
  proof -
    have "n * ((n - 1) * ?e) * 2 = (n - 1) * (2 * (n * ?e))" by (simp add: algebra_simps)
    also have "\<dots> \<le> (n - 1) * (2 * p + n)"
      using assms \<open>2 * (n * ?e) \<le> 2 * p + n\<close> by (intro mult_left_mono) auto
    also have "\<dots> \<le> n * p * 2" using \<open>n * (n - 1) \<le> 6 * 5\<close> assms(1) by (simp add: algebra_simps)
    finally have "n * ((n - 1) * ?e) \<le> n * p" by simp
    with assms(5) show ?thesis by simp
  qed
  have each: "0 \<le> p - (k - 1) * ?e" if "k \<le> n" for k
  proof -
    have "(k - 1) * ?e \<le> (n - 1) * ?e" using that e by (intro mult_right_mono) auto
    with last show ?thesis by simp
  qed
  have rows: "rows = map (linear_row_of p rate n) [1..n]"
    using linear_run [of p rate n] assms by simp
  have ok: "0 \<le> lw_principal r \<and> 0 \<le> lw_balance_after r \<and> lw_balance_after r \<le> lw_balance_before r
    \<and> lw_balance_before r \<le> dec p \<and> 0 \<le> lw_interest r"
    if "1 \<le> k" "k \<le> n" "r = linear_row_of p rate n k" for k r
  proof -
    have b: "0 \<le> p - (k - 1) * ?e" "0 \<le> (k - 1) * ?e" using each that e by auto
    have "0 \<le> linear_interest (p - (k - 1) * ?e) rate"
      using b assms(3) by (simp add: linear_interest_def cents_nonneg ctx_nonneg)
    moreover have "k < n \<Longrightarrow> 0 \<le> p - (k - 1) * ?e - ?e"
      using each [of "k + 1"] by (simp add: algebra_simps)
    ultimately show ?thesis
      using b e by (simp add: that(3) linear_row_of_def Let_def)
  qed
  then show ?thesis by (auto simp: rows list_all_iff)
qed

theorem linear_rows_nonneg_witness:
  "\<exists>rows. calculate_linear_amortization (dec 100001) (20 / 100) 6 = Inr (rows, dec 100001, 0)
     \<and> list_all (\<lambda>row. 0 \<le> lw_principal row) rows"
  using linear_rows_nonneg [OF _ _ _ _ _ _ linear_run [of 100001 "20 / 100" 6]]
    linear_run [of 100001 "20 / 100" 6]
  by (auto simp: list_all_iff)

lemma ctx_half_cent: "ctx 28 (dec 3 / of_int 6) = 5 / 1000"
  using ctx_exact [where x = "5 / 1000" and k = 3 and m = 5 and p = 28] by (simp add: dec_def)

lemma cents_half_cent: "cents (5 / 1000) = 1"
  by (simp add: cents_def round_half_up_def floor_eq_iff)

lemma linear_each_tiny: "linear_each 3 6 = 1"
  unfolding linear_each_def ctx_half_cent cents_half_cent ..

text \<open>The bound on the principal is needed: three cents in six installments round each
  share up to one cent, and the last installment amortizes \<open>-0.02\<close>.\<close>

theorem linear_tiny_principal:
  "calculate_linear_amortization (dec 3) (20 / 100) 6 =
     Inr (map (linear_row_of 3 (20 / 100) 6) [1..6], dec 3, 0)
   \<and> lw_principal (linear_row_of 3 (20 / 100) 6 6) = dec (- 2)"
  using linear_run [of 3 "20 / 100" 6]
  by (simp add: linear_row_of_def linear_each_tiny)

section \<open>The public simulation\<close>

lemma linear_amounts_sum:
  assumes "\<And>k. k \<in> set ks \<Longrightarrow> f k = dec (g k) \<and> \<bar>g k\<bar> \<le> 10 ^ 24"
    and "\<bar>s\<bar> + int (length ks) * 10 ^ 24 < 10 ^ 28"
  shows "fold (\<lambda>k t. dadd 28 t (f k)) ks (dec s) = dec (s + (\<Sum>k\<leftarrow>ks. g k))"
  using assms
proof (induction ks arbitrary: s)
  case (Cons k ks)
  have k: "f k = dec (g k)" "\<bar>g k\<bar> \<le> 10 ^ 24" using Cons.prems(1) [of k] by auto
  have len: "\<bar>s + g k\<bar> + int (length ks) * 10 ^ 24 < 10 ^ 28"
    using Cons.prems(2) k(2) by (simp add: algebra_simps)
  then have "\<bar>s + g k\<bar> < 10 ^ 28" by (smt (verit) mult_nonneg_nonneg of_nat_0_le_iff zero_le_power)
  then have "dadd 28 (dec s) (f k) = dec (s + g k)"
    by (simp add: dadd_def k dec_add [symmetric] ctx_cents_exact)
  with Cons.IH [OF _ len] Cons.prems(1) show ?case by (simp add: add.assoc)
qed simp

lemma linear_row_amount_bound:
  assumes p: "0 \<le> p" "p \<le> 10 ^ 20" and r: "0 \<le> rate" "rate \<le> 100" and k: "1 \<le> k" "k \<le> n" "n \<le> 6"
  obtains a where "lw_amount (linear_row_of p rate n k) = dec a" "\<bar>a\<bar> \<le> 10 ^ 24"
    "\<exists>q. lw_principal (linear_row_of p rate n k) = dec q \<and> a = q + lw_interest (linear_row_of p rate n k)"
proof -
  define e where "e = linear_each p n"
  have e: "0 \<le> e" "e \<le> 10 ^ 20" using linear_each_bounds [OF p, of n] k p by (simp_all add: e_def)
  have ke: "0 \<le> (k - 1) * e" "(k - 1) * e \<le> 5 * 10 ^ 20"
    using e k mult_mono [of "k - 1" 5 e "10 ^ 20"] by auto
  define b where "b = p - (k - 1) * e"
  have b: "\<bar>b\<bar> \<le> 10 ^ 21" using p ke by (simp add: b_def)
  define q where "q = (if k < n then e else b)"
  have q: "\<bar>q\<bar> \<le> 10 ^ 21" using b e by (simp add: q_def)
  have "\<bar>q + linear_interest b rate\<bar> \<le> 10 ^ 24"
    using linear_interest_bound [OF b r] q by simp
  then show ?thesis
    by (intro that [of "q + linear_interest b rate"])
      (simp_all add: linear_row_of_def Let_def q_def b_def e_def)
qed

lemma linear_principals:
  assumes "1 \<le> n"
  shows "(\<Sum>k\<leftarrow>[1..n]. if k < n then linear_each p n else p - (n - 1) * linear_each p n) = p"
proof -
  have "(\<Sum>k\<leftarrow>[1..n - 1]. if k < n then linear_each p n else p - (n - 1) * linear_each p n)
      = (\<Sum>k\<leftarrow>[1..n - 1]. linear_each p n)"
    by (intro arg_cong [where f = sum_list] map_cong) auto
  also have "\<dots> = (n - 1) * linear_each p n"
    using assms by (simp add: sum_list_triv)
  finally show ?thesis using assms by (simp add: upto_snoc)
qed

text \<open>The public simulation: the amount is quantized first, the schedule repays it exactly
  and the reported total payment is that principal plus the total interest.\<close>

theorem loan_simulation_totals:
  assumes "0 \<le> cents x" "cents x \<le> 10 ^ 20" "0 \<le> rate" "rate \<le> 100" "1 \<le> n" "n \<le> 6"
  shows "\<exists>sim. build_loan_simulation x rate n = Inr sim \<and> si_principal sim = cents x
    \<and> map lw_number (si_schedule sim) = [1..n] \<and> si_total_principal sim = dec (cents x)
    \<and> si_final_balance sim = 0 \<and> si_total_payment sim = dec (cents x + si_total_interest sim)"
proof -
  let ?p = "cents x" and ?row = "linear_row_of (cents x) rate n"
  define q where "q k = (if k < n then linear_each ?p n else ?p - (n - 1) * linear_each ?p n)" for k
  define a where "a k = q k + lw_interest (?row k)" for k
  have amt: "lw_amount (?row k) = dec (a k) \<and> \<bar>a k\<bar> \<le> 10 ^ 24" if "k \<in> set [1..n]" for k
  proof -
    from that have k: "1 \<le> k" "k \<le> n" by auto
    obtain c y where c: "lw_amount (?row k) = dec c" "\<bar>c\<bar> \<le> 10 ^ 24" "lw_principal (?row k) = dec y"
      "c = y + lw_interest (?row k)"
      using linear_row_amount_bound [OF assms(1-4) k assms(6)] by metis
    have "lw_principal (?row k) = dec (q k)"
      using k by (auto simp: linear_row_of_def Let_def q_def)
    with c show ?thesis by (simp add: a_def)
  qed
  have "fold (\<lambda>k t. dadd 28 t (lw_amount (?row k))) [1..n] (dec 0) = dec (0 + (\<Sum>k\<leftarrow>[1..n]. a k))"
    using assms by (intro linear_amounts_sum amt) auto
  also have "(\<Sum>k\<leftarrow>[1..n]. a k) = ?p + (\<Sum>k\<leftarrow>[1..n]. lw_interest (?row k))"
    using linear_principals [OF assms(5), of ?p] by (simp add: a_def sum_list_addf q_def)
  finally have tot: "fold (\<lambda>row t. dadd 28 t (lw_amount row)) (map ?row [1..n]) 0
      = dec (?p + (\<Sum>row\<leftarrow>map ?row [1..n]. lw_interest row))"
    by (simp add: fold_map o_def)
  have num: "map lw_number (map ?row [1..n]) = [1..n]"
    by (simp add: linear_row_of_def Let_def o_def)
  show ?thesis
    unfolding build_loan_simulation_def Let_def linear_run [OF assms]
    by (simp only: res_bind_Inr prod.case tot) (use num in simp)
qed

theorem loan_simulation_totals_witness:
  "\<exists>sim. build_loan_simulation (dec 120000) (20 / 100) 6 = Inr sim \<and> si_final_balance sim = 0
    \<and> si_total_payment sim = dec (120000 + si_total_interest sim)"
  using loan_simulation_totals [of "dec 120000" "20 / 100" 6] by auto

end
