(* ===== verification/Py_Strings.thy ===== *)
theory Py_Strings
  imports Prelude
begin

text \<open>
  The string operations of Python the program uses, on characters up to code 255:
  \<open>isspace\<close>, \<open>strip\<close>, \<open>isdigit\<close>, \<open>lower\<close> and \<open>upper\<close> restricted to ASCII letters, the
  decimal text of an integer and \<open>split\<close> on one character.
\<close>

type_synonym code = nat

definition char_code :: "char \<Rightarrow> code" where
  "char_code c = of_char c"

definition py_isspace :: "char \<Rightarrow> bool" where
  "py_isspace c = (let n = char_code c
     in 9 \<le> n \<and> n \<le> 13 \<or> 28 \<le> n \<and> n \<le> 32 \<or> n = 133 \<or> n = 160)"

definition py_isdigit :: "char \<Rightarrow> bool" where
  "py_isdigit c = (48 \<le> char_code c \<and> char_code c \<le> 57)"

definition py_strip :: "string \<Rightarrow> string" where
  "py_strip s = rev (dropWhile py_isspace (rev (dropWhile py_isspace s)))"

definition py_upper_char :: "char \<Rightarrow> char" where
  "py_upper_char c = (if 97 \<le> char_code c \<and> char_code c \<le> 122 then char_of (char_code c - 32) else c)"

definition py_lower_char :: "char \<Rightarrow> char" where
  "py_lower_char c = (if 65 \<le> char_code c \<and> char_code c \<le> 90 then char_of (char_code c + 32) else c)"

definition py_upper :: "string \<Rightarrow> string" where "py_upper = map py_upper_char"
definition py_lower :: "string \<Rightarrow> string" where "py_lower = map py_lower_char"

definition blank :: "string \<Rightarrow> bool" where
  \<comment> \<open>\<open>not value.strip()\<close>\<close>
  "blank s = (py_strip s = [])"

lemma blank_Nil [simp]: "blank []"
  by (simp add: blank_def py_strip_def)

end
