(* ===== verification/Scheduler_Runs.thy ===== *)
theory Scheduler_Runs
  imports Py_Strings Civil_Time
begin

text \<open>
  The scheduler's run and unit leases: \<open>services/scheduler_runs.py\<close> on the tables
  \<open>scheduler_runs\<close> and \<open>scheduler_run_units\<close> of \<open>models/core.py\<close>. The columns both
  tables share are a record of their own, extended by each table. An operation takes the
  reading of the clock and the two tables, and returns the tables it leaves or the exception;
  committing, rolling back and row locks are the caller's, so a transition of
  \<open>sched_step\<close> is one committed operation. \<open>_get_or_create\<close> takes what other transactions
  commit between its lookup and its insert as an argument.
\<close>

section \<open>Tables\<close>

datatype run_status = Run_PENDING | Run_RUNNING | Run_SUCCEEDED | Run_FAILED

record lease_row =
  lr_status :: run_status
  lr_attempt_count :: int
  lr_lease_owner :: "string option"
  lr_lease_expires_at :: "datetime option"
  lr_started_at :: "instant option"
  lr_completed_at :: "instant option"
  lr_last_error :: "string option"
  lr_updated_at :: instant

record scheduler_run = lease_row +
  ru_id :: int
  ru_job_key :: string
  ru_financial_date :: date
  ru_scheduled_for :: instant

record scheduler_run_unit = lease_row +
  un_id :: int
  un_run_id :: int
  un_unit_key :: string

record sched_db =
  sd_runs :: "scheduler_run list"
  sd_units :: "scheduler_run_unit list"

text \<open>The check constraints of both tables.\<close>

definition lease_row_ok :: "'a lease_row_scheme \<Rightarrow> bool" where
  "lease_row_ok r \<longleftrightarrow> 0 \<le> lr_attempt_count r
     \<and> (lr_status r = Run_RUNNING \<longleftrightarrow> lr_lease_owner r \<noteq> None)
     \<and> (lr_status r = Run_RUNNING \<longleftrightarrow> lr_lease_expires_at r \<noteq> None)
     \<and> (lr_status r = Run_SUCCEEDED \<longleftrightarrow> lr_completed_at r \<noteq> None)"

section \<open>Helpers\<close>

definition SAFE_ERROR_CODES :: "string list" where
  "SAFE_ERROR_CODES = [''execution_failed'', ''lease_lost'', ''dependency_unavailable'',
     ''database_unavailable'', ''validation_failed'', ''unknown'']"

definition sched_utc :: "instant \<Rightarrow> datetime option \<Rightarrow> instant res" where
  "sched_utc clock value =
     (case value of None \<Rightarrow> Inr clock
      | Some v \<Rightarrow> utc_strict v ''scheduler timestamps must be timezone-aware'')"

definition owner :: "string \<Rightarrow> string res" where
  "owner value =
     (if blank value \<or> 120 < length value then
        Inl (ValueError ''lease_owner must be a non-empty identifier of at most 120 characters'')
      else Inr value)"

definition lease_expiry :: "instant \<Rightarrow> int \<Rightarrow> instant res" where
  "lease_expiry now lease_seconds =
     (if lease_seconds \<le> 0 then Inl (ValueError ''lease_seconds must be a positive integer'')
      else Inr (now + lease_seconds * second))"

definition safe_error_code :: "string option \<Rightarrow> string" where
  "safe_error_code value =
     (case value of None \<Rightarrow> ''execution_failed''
      | Some v \<Rightarrow> if v \<in> set SAFE_ERROR_CODES then v else ''execution_failed'')"

section \<open>Claiming and asserting a lease\<close>

definition claim :: "string \<Rightarrow> instant \<Rightarrow> int \<Rightarrow> 'a lease_row_scheme \<Rightarrow> (bool \<times> 'a lease_row_scheme) res" where
  "claim lease_owner now lease_seconds row =
     res_bind (owner lease_owner) (\<lambda>o'.
     res_bind (lease_expiry now lease_seconds) (\<lambda>expiry.
     if lr_status row = Run_SUCCEEDED then Inr (False, row)
     else if lr_status row = Run_RUNNING
         \<and> (case lr_lease_expires_at row of None \<Rightarrow> False | Some e \<Rightarrow> now < stored_utc e) then
       Inr (False, row)
     else Inr (True, row\<lparr>lr_status := Run_RUNNING, lr_attempt_count := lr_attempt_count row + 1,
            lr_lease_owner := Some o', lr_lease_expires_at := Some (Aware expiry),
            lr_started_at := Some now, lr_completed_at := None, lr_last_error := None,
            lr_updated_at := now\<rparr>)))"

text \<open>The conditions are evaluated in order: the owner is validated only for a running row.\<close>

definition assert_claim :: "string \<Rightarrow> instant \<Rightarrow> 'a lease_row_scheme \<Rightarrow> unit res" where
  "assert_claim lease_owner now row =
     (let lost = Inl (SchedulerLeaseLost ''scheduler lease is no longer owned by this claimant'')
      in if lr_status row \<noteq> Run_RUNNING then lost
         else res_bind (owner lease_owner) (\<lambda>o'.
           if lr_lease_owner row \<noteq> Some o' then lost
           else case lr_lease_expires_at row of
             None \<Rightarrow> lost
           | Some e \<Rightarrow> if stored_utc e \<le> now then lost else Inr ()))"

section \<open>Creation\<close>

text \<open>\<open>_get_or_create\<close>: \<open>find_rows\<close> is the lookup, \<open>insert\<close> adds the candidate and
  \<open>others\<close> is what other transactions commit before the insert. The insert violates the unique
  constraint on the looked-up columns when the row exists by then.\<close>

definition get_or_create ::
    "('db \<Rightarrow> 'r list) \<Rightarrow> ('db \<Rightarrow> 'r \<times> 'db) \<Rightarrow> ('db \<Rightarrow> 'db) \<Rightarrow> 'db \<Rightarrow> ('r \<times> bool \<times> 'db) res" where
  "get_or_create find_rows insert_row others db =
     res_bind (one_or_none (find_rows db)) (\<lambda>row.
     case row of Some r \<Rightarrow> Inr (r, False, db)
     | None \<Rightarrow>
         let db' = others db
         in if find_rows db' = [] then (let (r, db'') = insert_row db' in Inr (r, True, db''))
            else res_bind (one_or_none (find_rows db')) (\<lambda>winner.
              case winner of None \<Rightarrow> Inl (IntegrityError ''unique'') | Some r \<Rightarrow> Inr (r, False, db')))"

definition runs_of_key :: "string \<Rightarrow> date \<Rightarrow> sched_db \<Rightarrow> scheduler_run list" where
  "runs_of_key job_key financial_date db =
     filter (\<lambda>r. ru_job_key r = job_key \<and> ru_financial_date r = financial_date) (sd_runs db)"

definition insert_run :: "instant \<Rightarrow> string \<Rightarrow> date \<Rightarrow> instant \<Rightarrow> sched_db \<Rightarrow> scheduler_run \<times> sched_db" where
  "insert_run clock job_key financial_date scheduled_for db =
     (let r = \<lparr>lr_status = Run_PENDING, lr_attempt_count = 0, lr_lease_owner = None,
               lr_lease_expires_at = None, lr_started_at = None, lr_completed_at = None,
               lr_last_error = None, lr_updated_at = clock, ru_id = next_id ru_id (sd_runs db),
               ru_job_key = job_key, ru_financial_date = financial_date,
               ru_scheduled_for = scheduled_for\<rparr>
      in (r, db\<lparr>sd_runs := sd_runs db @ [r]\<rparr>))"

definition get_or_create_run ::
    "instant \<Rightarrow> (sched_db \<Rightarrow> sched_db) \<Rightarrow> string \<Rightarrow> date \<Rightarrow> datetime option \<Rightarrow> sched_db
      \<Rightarrow> (scheduler_run \<times> bool \<times> sched_db) res" where
  "get_or_create_run clock others job_key financial_date scheduled_for db =
     (if blank job_key \<or> 100 < length job_key then
        Inl (ValueError ''job_key must be a non-empty identifier of at most 100 characters'')
      else res_bind (sched_utc clock scheduled_for) (\<lambda>scheduled.
        get_or_create (runs_of_key job_key financial_date)
          (insert_run clock job_key financial_date scheduled) others db))"

definition units_of_key :: "int \<Rightarrow> string \<Rightarrow> sched_db \<Rightarrow> scheduler_run_unit list" where
  "units_of_key run_id unit_key db =
     filter (\<lambda>u. un_run_id u = run_id \<and> un_unit_key u = unit_key) (sd_units db)"

definition insert_unit :: "instant \<Rightarrow> int \<Rightarrow> string \<Rightarrow> sched_db \<Rightarrow> scheduler_run_unit \<times> sched_db" where
  "insert_unit clock run_id unit_key db =
     (let u = \<lparr>lr_status = Run_PENDING, lr_attempt_count = 0, lr_lease_owner = None,
               lr_lease_expires_at = None, lr_started_at = None, lr_completed_at = None,
               lr_last_error = None, lr_updated_at = clock, un_id = next_id un_id (sd_units db),
               un_run_id = run_id, un_unit_key = unit_key\<rparr>
      in (u, db\<lparr>sd_units := sd_units db @ [u]\<rparr>))"

definition get_or_create_unit ::
    "instant \<Rightarrow> (sched_db \<Rightarrow> sched_db) \<Rightarrow> int \<Rightarrow> string \<Rightarrow> sched_db
      \<Rightarrow> (scheduler_run_unit \<times> bool \<times> sched_db) res" where
  "get_or_create_unit clock others run_id unit_key db =
     (if blank unit_key \<or> 120 < length unit_key then
        Inl (ValueError ''unit_key must be a non-empty identifier of at most 120 characters'')
      else if get_by ru_id run_id (sd_runs db) = None then
        Inl (ValueError ''scheduler run does not exist'')
      else get_or_create (units_of_key run_id unit_key) (insert_unit clock run_id unit_key) others db)"

section \<open>Operations on a run\<close>

definition put_run :: "scheduler_run \<Rightarrow> sched_db \<Rightarrow> sched_db" where
  "put_run r db = db\<lparr>sd_runs := put_by ru_id r (sd_runs db)\<rparr>"

definition put_unit :: "scheduler_run_unit \<Rightarrow> sched_db \<Rightarrow> sched_db" where
  "put_unit u db = db\<lparr>sd_units := put_by un_id u (sd_units db)\<rparr>"

text \<open>\<open>one_or_none\<close> and \<open>one\<close> on the primary key.\<close>

definition run_of :: "int \<Rightarrow> sched_db \<Rightarrow> scheduler_run option" where
  "run_of run_id db = get_by ru_id run_id (sd_runs db)"

definition unit_of :: "int \<Rightarrow> sched_db \<Rightarrow> scheduler_run_unit option" where
  "unit_of unit_id db = get_by un_id unit_id (sd_units db)"

definition the_one :: "'a option \<Rightarrow> 'a res" where
  "the_one x = (case x of None \<Rightarrow> Inl NoResultFound | Some r \<Rightarrow> Inr r)"

definition claim_run ::
    "instant \<Rightarrow> int \<Rightarrow> string \<Rightarrow> datetime option \<Rightarrow> int \<Rightarrow> sched_db \<Rightarrow> (bool \<times> sched_db) res" where
  "claim_run clock run_id lease_owner now lease_seconds db =
     res_bind (sched_utc clock now) (\<lambda>now.
     case run_of run_id db of None \<Rightarrow> Inr (False, db)
     | Some row \<Rightarrow> res_bind (claim lease_owner now lease_seconds row)
         (\<lambda>(claimed, row'). Inr (claimed, put_run row' db)))"

definition renew_run_lease ::
    "instant \<Rightarrow> int \<Rightarrow> string \<Rightarrow> int \<Rightarrow> sched_db \<Rightarrow> (instant \<times> sched_db) res" where
  "renew_run_lease clock run_id lease_owner lease_seconds db =
     (case run_of run_id db of
        None \<Rightarrow> Inl (SchedulerLeaseLost ''scheduler run no longer exists'')
      | Some row \<Rightarrow>
          res_bind (assert_claim lease_owner clock row) (\<lambda>_.
          res_bind (lease_expiry clock lease_seconds) (\<lambda>expiry.
          Inr (expiry, put_run (row\<lparr>lr_lease_expires_at := Some (Aware expiry),
                                    lr_updated_at := clock\<rparr>) db))))"

definition incomplete_units :: "int \<Rightarrow> sched_db \<Rightarrow> scheduler_run_unit list" where
  "incomplete_units run_id db =
     filter (\<lambda>u. un_run_id u = run_id \<and> lr_status u \<noteq> Run_SUCCEEDED) (sd_units db)"

definition succeeded_row :: "instant \<Rightarrow> 'a lease_row_scheme \<Rightarrow> 'a lease_row_scheme" where
  "succeeded_row now row = row\<lparr>lr_status := Run_SUCCEEDED, lr_lease_owner := None,
     lr_lease_expires_at := None, lr_completed_at := Some now, lr_last_error := None,
     lr_updated_at := now\<rparr>"

definition failed_row :: "instant \<Rightarrow> string option \<Rightarrow> 'a lease_row_scheme \<Rightarrow> 'a lease_row_scheme" where
  "failed_row now error_code row = row\<lparr>lr_status := Run_FAILED, lr_lease_owner := None,
     lr_lease_expires_at := None, lr_completed_at := None,
     lr_last_error := Some (safe_error_code error_code), lr_updated_at := now\<rparr>"

definition mark_run_succeeded ::
    "instant \<Rightarrow> int \<Rightarrow> string \<Rightarrow> datetime option \<Rightarrow> sched_db \<Rightarrow> (scheduler_run \<times> sched_db) res" where
  "mark_run_succeeded clock run_id lease_owner completed_at db =
     res_bind (sched_utc clock completed_at) (\<lambda>now.
     res_bind (the_one (run_of run_id db)) (\<lambda>row.
     res_bind (assert_claim lease_owner now row) (\<lambda>_.
     if incomplete_units run_id db \<noteq> [] then Inl (ValueError ''scheduler run has incomplete units'')
     else Inr (succeeded_row now row, put_run (succeeded_row now row) db))))"

definition lock_run_for_execution ::
    "instant \<Rightarrow> int \<Rightarrow> string \<Rightarrow> sched_db \<Rightarrow> instant res" where
  "lock_run_for_execution clock run_id lease_owner db =
     (case run_of run_id db of
        None \<Rightarrow> Inl (SchedulerLeaseLost ''scheduler run no longer exists'')
      | Some row \<Rightarrow> res_bind (assert_claim lease_owner clock row) (\<lambda>_. Inr clock))"

definition mark_run_succeeded_after_locked_execution ::
    "instant \<Rightarrow> int \<Rightarrow> string \<Rightarrow> datetime \<Rightarrow> datetime option \<Rightarrow> sched_db
      \<Rightarrow> (scheduler_run \<times> sched_db) res" where
  "mark_run_succeeded_after_locked_execution clock run_id lease_owner lease_validated_at completed_at db =
     res_bind (sched_utc clock (Some lease_validated_at)) (\<lambda>validated_at.
     res_bind (sched_utc clock completed_at) (\<lambda>now.
     res_bind (the_one (run_of run_id db)) (\<lambda>row.
     res_bind (assert_claim lease_owner validated_at row) (\<lambda>_.
     if incomplete_units run_id db \<noteq> [] then Inl (ValueError ''scheduler run has incomplete units'')
     else Inr (succeeded_row now row, put_run (succeeded_row now row) db)))))"

definition mark_run_failed ::
    "instant \<Rightarrow> int \<Rightarrow> string \<Rightarrow> string option \<Rightarrow> datetime option \<Rightarrow> sched_db
      \<Rightarrow> (scheduler_run \<times> sched_db) res" where
  "mark_run_failed clock run_id lease_owner error_code failed_at db =
     res_bind (sched_utc clock failed_at) (\<lambda>now.
     res_bind (the_one (run_of run_id db)) (\<lambda>row.
     res_bind (assert_claim lease_owner now row) (\<lambda>_.
     Inr (failed_row now error_code row, put_run (failed_row now error_code row) db))))"

section \<open>Operations on a unit\<close>

text \<open>A unit still leased to another worker loses its lease, since the run was reclaimed.\<close>

definition fenced_unit :: "string \<Rightarrow> instant \<Rightarrow> scheduler_run_unit \<Rightarrow> scheduler_run_unit" where
  "fenced_unit lease_owner now u =
     (if lr_status u = Run_RUNNING \<and> lr_lease_owner u \<noteq> Some lease_owner
      then u\<lparr>lr_lease_expires_at := Some (Aware now)\<rparr> else u)"

definition claim_unit ::
    "instant \<Rightarrow> int \<Rightarrow> string \<Rightarrow> datetime option \<Rightarrow> int \<Rightarrow> sched_db \<Rightarrow> (bool \<times> sched_db) res" where
  "claim_unit clock unit_id lease_owner now lease_seconds db =
     res_bind (sched_utc clock now) (\<lambda>now.
     case unit_of unit_id db of None \<Rightarrow> Inr (False, db)
     | Some u \<Rightarrow>
       (case run_of (un_run_id u) db of None \<Rightarrow> Inr (False, db)
        | Some run \<Rightarrow>
            if lr_status run \<noteq> Run_RUNNING then Inr (False, db)
            else res_bind (owner lease_owner) (\<lambda>o'.
              if lr_lease_owner run \<noteq> Some o' then Inr (False, db)
              else case lr_lease_expires_at run of
                None \<Rightarrow> Inr (False, db)
              | Some e \<Rightarrow>
                  if stored_utc e \<le> now then Inr (False, db)
                  else res_bind (claim lease_owner now lease_seconds (fenced_unit lease_owner now u))
                         (\<lambda>(claimed, u'). Inr (claimed, put_unit u' db)))))"

definition locked_unit :: "int \<Rightarrow> string \<Rightarrow> instant \<Rightarrow> sched_db \<Rightarrow> scheduler_run_unit res" where
  "locked_unit unit_id lease_owner now db =
     (case unit_of unit_id db of
        None \<Rightarrow> Inl (LookupError ''scheduler unit not found'')
      | Some row \<Rightarrow>
          res_bind (the_one (run_of (un_run_id row) db)) (\<lambda>run.
          res_bind (assert_claim lease_owner now run) (\<lambda>_.
          res_bind (assert_claim lease_owner now row) (\<lambda>_. Inr row))))"

definition lock_unit_for_execution ::
    "instant \<Rightarrow> int \<Rightarrow> string \<Rightarrow> sched_db \<Rightarrow> instant res" where
  "lock_unit_for_execution clock unit_id lease_owner db =
     (case unit_of unit_id db of
        None \<Rightarrow> Inl (SchedulerLeaseLost ''scheduler unit no longer exists'')
      | Some row \<Rightarrow>
        (case run_of (un_run_id row) db of
           None \<Rightarrow> Inl (SchedulerLeaseLost ''scheduler run no longer exists'')
         | Some run \<Rightarrow>
             res_bind (assert_claim lease_owner clock run) (\<lambda>_.
             res_bind (assert_claim lease_owner clock row) (\<lambda>_. Inr clock))))"

definition mark_unit_succeeded ::
    "instant \<Rightarrow> int \<Rightarrow> string \<Rightarrow> datetime option \<Rightarrow> sched_db \<Rightarrow> (scheduler_run_unit \<times> sched_db) res" where
  "mark_unit_succeeded clock unit_id lease_owner completed_at db =
     res_bind (sched_utc clock completed_at) (\<lambda>now.
     res_bind (locked_unit unit_id lease_owner now db) (\<lambda>row.
     Inr (succeeded_row now row, put_unit (succeeded_row now row) db)))"

definition mark_unit_succeeded_after_locked_execution ::
    "instant \<Rightarrow> int \<Rightarrow> string \<Rightarrow> datetime \<Rightarrow> datetime option \<Rightarrow> sched_db
      \<Rightarrow> (scheduler_run_unit \<times> sched_db) res" where
  "mark_unit_succeeded_after_locked_execution clock unit_id lease_owner lease_validated_at completed_at db =
     res_bind (sched_utc clock (Some lease_validated_at)) (\<lambda>validated_at.
     res_bind (sched_utc clock completed_at) (\<lambda>now.
     res_bind (locked_unit unit_id lease_owner validated_at db) (\<lambda>row.
     Inr (succeeded_row now row, put_unit (succeeded_row now row) db))))"

definition mark_unit_failed ::
    "instant \<Rightarrow> int \<Rightarrow> string \<Rightarrow> string option \<Rightarrow> datetime option \<Rightarrow> sched_db
      \<Rightarrow> (scheduler_run_unit \<times> sched_db) res" where
  "mark_unit_failed clock unit_id lease_owner error_code failed_at db =
     res_bind (sched_utc clock failed_at) (\<lambda>now.
     res_bind (locked_unit unit_id lease_owner now db) (\<lambda>row.
     Inr (failed_row now error_code row, put_unit (failed_row now error_code row) db)))"

end
