(* ===== verification/Scheduler_Safety.thy ===== *)
theory Scheduler_Safety
  imports Scheduler_Runs
begin

text \<open>
  The scheduler as a transition system: workers create, claim, renew, finish and fail runs and
  units while the clock advances, one committed operation at a time. The lemmas show the
  invariant of the tables, exclusive ownership of a live lease, fencing of a stale claimant,
  that success is final, and that an expired lease can be taken over.
\<close>

section \<open>Keyed tables\<close>

text \<open>What the operations rely on when they read a row by its key and write it back.\<close>

locale keyed_table =
  fixes get :: "int \<Rightarrow> 'db \<Rightarrow> 'r option" and put :: "'r \<Rightarrow> 'db \<Rightarrow> 'db" and key :: "'r \<Rightarrow> int"
  assumes get_key: "get i db = Some r \<Longrightarrow> key r = i"
    and get_put_same: "get (key r) db \<noteq> None \<Longrightarrow> get (key r) (put r db) = Some r"
    and get_put_other: "i \<noteq> key r \<Longrightarrow> get i (put r db) = get i db"
begin

lemma get_update:
  assumes "get i db = Some r" "key r' = i"
  shows "get j (put r' db) = (if j = i then Some r' else get j db)"
  using assms get_put_same [of r' db] get_put_other [of j r' db] by auto

lemma update_keeps:
  assumes "get i db = Some r" "key r' = i" "P r \<Longrightarrow> P r'" "\<And>j x. get j db = Some x \<Longrightarrow> P x"
    "get k (put r' db) = Some y"
  shows "P y"
  using assms(3-) assms(1) by (auto simp: get_update [OF assms(1,2)] split: if_splits)

end

interpretation run_table: keyed_table run_of put_run ru_id
  by unfold_locales
    (auto simp: run_of_def put_run_def table_simps dest: get_by_Some_mem)

interpretation unit_table: keyed_table unit_of put_unit un_id
  by unfold_locales
    (auto simp: unit_of_def put_unit_def table_simps dest: get_by_Some_mem)

lemma unit_of_put_run [simp]: "unit_of i (put_run r db) = unit_of i db"
  by (simp add: unit_of_def put_run_def)

lemma run_of_put_unit [simp]: "run_of i (put_unit u db) = run_of i db"
  by (simp add: run_of_def put_unit_def)

lemma sd_put [simp]: "sd_units (put_run r db) = sd_units db" "sd_runs (put_unit u db) = sd_runs db"
  by (simp_all add: put_run_def put_unit_def)

section \<open>What an operation does to one row\<close>

definition live :: "instant \<Rightarrow> 'a lease_row_scheme \<Rightarrow> bool" where
  "live now row \<longleftrightarrow> lr_status row = Run_RUNNING
     \<and> (case lr_lease_expires_at row of None \<Rightarrow> False | Some e \<Rightarrow> now < stored_utc e)"

definition owned_by :: "string \<Rightarrow> instant \<Rightarrow> 'a lease_row_scheme \<Rightarrow> bool" where
  "owned_by w now row \<longleftrightarrow> live now row \<and> lr_lease_owner row = Some w"

definition valid_owner :: "string \<Rightarrow> bool" where
  "valid_owner w \<longleftrightarrow> \<not> blank w \<and> length w \<le> 120"

definition claimed_row :: "string \<Rightarrow> instant \<Rightarrow> instant \<Rightarrow> 'a lease_row_scheme \<Rightarrow> 'a lease_row_scheme" where
  "claimed_row w now expiry row = row\<lparr>lr_status := Run_RUNNING,
     lr_attempt_count := lr_attempt_count row + 1, lr_lease_owner := Some w,
     lr_lease_expires_at := Some (Aware expiry), lr_started_at := Some now,
     lr_completed_at := None, lr_last_error := None, lr_updated_at := now\<rparr>"

lemma owner_eq: "owner w = (if valid_owner w then Inr w
    else Inl (ValueError ''lease_owner must be a non-empty identifier of at most 120 characters''))"
  by (auto simp: owner_def valid_owner_def)

lemma assert_claim_Inr [simp]: "assert_claim w now row = Inr u \<longleftrightarrow> valid_owner w \<and> owned_by w now row"
  by (cases u) (auto simp: assert_claim_def owner_eq owned_by_def live_def Let_def split: option.splits)

lemma assert_claim_ok: "valid_owner w \<Longrightarrow> owned_by w now row \<Longrightarrow> assert_claim w now row = Inr ()"
  by simp

lemma assert_claim_lost:
  assumes "valid_owner w" "\<not> owned_by w now row"
  shows "assert_claim w now row
    = Inl (SchedulerLeaseLost ''scheduler lease is no longer owned by this claimant'')"
  using assms by (auto simp: assert_claim_def owner_eq owned_by_def live_def Let_def split: option.splits)

lemma claim_eq:
  "claim w now secs row =
    (if \<not> valid_owner w then Inl (ValueError ''lease_owner must be a non-empty identifier of at most 120 characters'')
     else if secs \<le> 0 then Inl (ValueError ''lease_seconds must be a positive integer'')
     else if lr_status row = Run_SUCCEEDED \<or> live now row then Inr (False, row)
     else Inr (True, claimed_row w now (now + secs * second) row))"
  by (simp add: claim_def owner_eq lease_expiry_def live_def claimed_row_def)

text \<open>\<open>force\<close> allows taking over a live lease, which \<open>claim_unit\<close> does for the units of a
  run it has reclaimed.\<close>

inductive lease_change ::
    "bool \<Rightarrow> instant \<Rightarrow> string \<Rightarrow> 'a lease_row_scheme \<Rightarrow> 'a lease_row_scheme \<Rightarrow> bool"
  for force :: bool and now :: instant and w :: string where
  unchanged: "lease_change force now w row row"
| claimed: "\<lbrakk>lr_status row \<noteq> Run_SUCCEEDED; force \<or> \<not> live now row; now < expiry\<rbrakk>
    \<Longrightarrow> lease_change force now w row (claimed_row w now expiry row)"
| renewed: "\<lbrakk>owned_by w now row; now < expiry\<rbrakk>
    \<Longrightarrow> lease_change force now w row
         (row\<lparr>lr_lease_expires_at := Some (Aware expiry), lr_updated_at := now\<rparr>)"
| succeeded: "owned_by w now row \<Longrightarrow> lease_change force now w row (succeeded_row later row)"
| failed: "owned_by w now row \<Longrightarrow> lease_change force now w row (failed_row now code row)"

inductive_cases lease_changeE: "lease_change force now w row row'"

lemma lease_change_ok: "lease_change force now w row row' \<Longrightarrow> lease_row_ok row \<Longrightarrow> lease_row_ok row'"
  by (induction rule: lease_change.induct)
    (auto simp: lease_row_ok_def claimed_row_def succeeded_row_def failed_row_def owned_by_def live_def)

lemma lease_change_final:
  "lease_change force now w row row' \<Longrightarrow> lr_status row = Run_SUCCEEDED \<Longrightarrow> row' = row"
  by (induction rule: lease_change.induct) (auto simp: owned_by_def live_def)

lemma lease_change_exclusive:
  "lease_change False now w row row' \<Longrightarrow> live now row \<Longrightarrow> lr_lease_owner row \<noteq> Some w \<Longrightarrow> row' = row"
  by (induction rule: lease_change.induct) (auto simp: owned_by_def)

lemma lease_change_fenced:
  "lease_change force now w row row' \<Longrightarrow> lr_lease_owner row \<noteq> Some v \<Longrightarrow> w \<noteq> v
    \<Longrightarrow> lr_lease_owner row' \<noteq> Some v"
  by (induction rule: lease_change.induct) (auto simp: claimed_row_def succeeded_row_def failed_row_def)

lemma lease_change_attempts:
  "lease_change force now w row row' \<Longrightarrow> lr_attempt_count row \<le> lr_attempt_count row'"
  by (induction rule: lease_change.induct) (auto simp: claimed_row_def succeeded_row_def failed_row_def)

lemma safe_error_code_safe: "safe_error_code c \<in> set SAFE_ERROR_CODES"
  by (auto simp: safe_error_code_def SAFE_ERROR_CODES_def split: option.splits)

definition error_safe :: "'a lease_row_scheme \<Rightarrow> bool" where
  "error_safe row \<longleftrightarrow> (case lr_last_error row of None \<Rightarrow> True | Some c \<Rightarrow> c \<in> set SAFE_ERROR_CODES)"

lemma lease_change_error_safe:
  "lease_change force now w row row' \<Longrightarrow> error_safe row \<Longrightarrow> error_safe row'"
  by (induction rule: lease_change.induct)
    (auto simp: error_safe_def claimed_row_def succeeded_row_def failed_row_def safe_error_code_safe)

section \<open>The transition system\<close>

datatype action =
    Create_Run string date datetime
  | Create_Unit int string
  | Claim_Run int string int
  | Renew_Run int string int
  | Succeed_Run int string
  | Execute_Run int string instant
  | Fail_Run int string "string option"
  | Claim_Unit int string int
  | Succeed_Unit int string
  | Execute_Unit int string instant
  | Fail_Unit int string "string option"

text \<open>\<open>Execute_Run\<close> and \<open>Execute_Unit\<close> are the two halves of a locked execution in one
  transaction: the lock is validated at the reading of the clock, the success is recorded
  \<open>duration\<close> later, perhaps after the lease has expired.\<close>

fun perform :: "instant \<Rightarrow> action \<Rightarrow> sched_db \<Rightarrow> sched_db res" where
  "perform t (Create_Run k d s) db =
     res_bind (get_or_create_run t (\<lambda>x. x) k d (Some s) db) (\<lambda>(_, _, db'). Inr db')"
| "perform t (Create_Unit i k) db =
     res_bind (get_or_create_unit t (\<lambda>x. x) i k db) (\<lambda>(_, _, db'). Inr db')"
| "perform t (Claim_Run i w secs) db = res_bind (claim_run t i w None secs db) (\<lambda>(_, db'). Inr db')"
| "perform t (Renew_Run i w secs) db = res_bind (renew_run_lease t i w secs db) (\<lambda>(_, db'). Inr db')"
| "perform t (Succeed_Run i w) db = res_bind (mark_run_succeeded t i w None db) (\<lambda>(_, db'). Inr db')"
| "perform t (Execute_Run i w duration) db =
     res_bind (lock_run_for_execution t i w db) (\<lambda>validated.
     res_bind (mark_run_succeeded_after_locked_execution (t + duration) i w (Aware validated) None db)
       (\<lambda>(_, db'). Inr db'))"
| "perform t (Fail_Run i w c) db = res_bind (mark_run_failed t i w c None db) (\<lambda>(_, db'). Inr db')"
| "perform t (Claim_Unit i w secs) db = res_bind (claim_unit t i w None secs db) (\<lambda>(_, db'). Inr db')"
| "perform t (Succeed_Unit i w) db = res_bind (mark_unit_succeeded t i w None db) (\<lambda>(_, db'). Inr db')"
| "perform t (Execute_Unit i w duration) db =
     res_bind (lock_unit_for_execution t i w db) (\<lambda>validated.
     res_bind (mark_unit_succeeded_after_locked_execution (t + duration) i w (Aware validated) None db)
       (\<lambda>(_, db'). Inr db'))"
| "perform t (Fail_Unit i w c) db = res_bind (mark_unit_failed t i w c None db) (\<lambda>(_, db'). Inr db')"

fun action_owner :: "action \<Rightarrow> string option" where
  "action_owner (Create_Run _ _ _) = None"
| "action_owner (Create_Unit _ _) = None"
| "action_owner (Claim_Run _ w _) = Some w"
| "action_owner (Renew_Run _ w _) = Some w"
| "action_owner (Succeed_Run _ w) = Some w"
| "action_owner (Execute_Run _ w _) = Some w"
| "action_owner (Fail_Run _ w _) = Some w"
| "action_owner (Claim_Unit _ w _) = Some w"
| "action_owner (Succeed_Unit _ w) = Some w"
| "action_owner (Execute_Unit _ w _) = Some w"
| "action_owner (Fail_Unit _ w _) = Some w"

text \<open>A run of the system: the clock never goes back, an operation that raises changes
  nothing. \<open>P\<close> restricts the actions taken.\<close>

inductive sched_steps :: "(action \<Rightarrow> bool) \<Rightarrow> instant \<times> sched_db \<Rightarrow> instant \<times> sched_db \<Rightarrow> bool"
  for P :: "action \<Rightarrow> bool" where
  start: "sched_steps P s s"
| tick: "sched_steps P s (t, db) \<Longrightarrow> t \<le> t' \<Longrightarrow> sched_steps P s (t', db)"
| act: "sched_steps P s (t, db) \<Longrightarrow> P a \<Longrightarrow> perform t a db = Inr db' \<Longrightarrow> sched_steps P s (t, db')"

definition empty_sched :: sched_db where "empty_sched = \<lparr>sd_runs = [], sd_units = []\<rparr>"

section \<open>The effect of an operation\<close>

definition same_run_key :: "scheduler_run \<Rightarrow> scheduler_run \<Rightarrow> bool" where
  "same_run_key r r' \<longleftrightarrow> ru_id r' = ru_id r \<and> ru_job_key r' = ru_job_key r
     \<and> ru_financial_date r' = ru_financial_date r"

definition same_unit_key :: "scheduler_run_unit \<Rightarrow> scheduler_run_unit \<Rightarrow> bool" where
  "same_unit_key u u' \<longleftrightarrow> un_id u' = un_id u \<and> un_run_id u' = un_run_id u \<and> un_unit_key u' = un_unit_key u"

inductive sched_effect :: "instant \<Rightarrow> action \<Rightarrow> sched_db \<Rightarrow> sched_db \<Rightarrow> bool"
  for t :: instant and a :: action and db :: sched_db where
  eff_same: "sched_effect t a db db"
| eff_new_run: "\<lbrakk>runs_of_key k d db = []; insert_run t k d s db = (r, db')\<rbrakk> \<Longrightarrow> sched_effect t a db db'"
| eff_new_unit: "\<lbrakk>units_of_key i k db = []; run_of i db \<noteq> None; insert_unit t i k db = (u, db')\<rbrakk>
    \<Longrightarrow> sched_effect t a db db'"
| eff_run: "\<lbrakk>action_owner a = Some w; run_of i db = Some row; lease_change False t w row row';
      same_run_key row row'\<rbrakk> \<Longrightarrow> sched_effect t a db (put_run row' db)"
| eff_unit: "\<lbrakk>action_owner a = Some w; unit_of i db = Some row; lease_change True t w row row';
      same_unit_key row row'\<rbrakk> \<Longrightarrow> sched_effect t a db (put_unit row' db)"

lemma same_keys [simp]:
  "same_run_key r r" "same_run_key r (claimed_row w t e r)" "same_run_key r (succeeded_row t r)"
  "same_run_key r (failed_row t c r)" "same_run_key r (r\<lparr>lr_lease_expires_at := x, lr_updated_at := t\<rparr>)"
  "same_unit_key u u" "same_unit_key u (claimed_row w t e u)" "same_unit_key u (succeeded_row t u)"
  "same_unit_key u (failed_row t c u)"
  by (simp_all add: same_run_key_def same_unit_key_def claimed_row_def succeeded_row_def failed_row_def)

lemma lease_expiry_later [simp]: "lease_expiry now secs = Inr e \<longleftrightarrow> 0 < secs \<and> e = now + secs * second"
  by (auto simp: lease_expiry_def)

lemma seconds_pos [simp]: "0 < secs * second \<longleftrightarrow> 0 < secs"
  by (simp add: second_def)

lemma the_one_Inr [simp]: "the_one x = Inr r \<longleftrightarrow> x = Some r"
  by (auto simp: the_one_def split: option.splits)

lemma sched_utc_simps [simp]:
  "sched_utc clock None = Inr clock" "sched_utc clock (Some (Aware v)) = Inr v"
  by (simp_all add: sched_utc_def)

lemma locked_unit_Inr:
  "locked_unit i w now db = Inr u \<longleftrightarrow> unit_of i db = Some u \<and> valid_owner w \<and> owned_by w now u
     \<and> (\<exists>run. run_of (un_run_id u) db = Some run \<and> owned_by w now run)"
  by (auto simp: locked_unit_def res_bind_eq_Inr split: option.splits)

lemma claim_lease_change:
  "claim w now secs row = Inr (b, row') \<Longrightarrow> lease_change force now w row row'"
  by (auto simp: claim_eq not_le split: if_splits intro!: lease_change.unchanged lease_change.claimed)

lemma claim_row:
  "claim w now secs row = Inr (b, row') \<Longrightarrow> row' = row \<or> row' = claimed_row w now (now + secs * second) row"
  by (auto simp: claim_eq split: if_splits)

lemma get_or_create_id:
  assumes "get_or_create f ins (\<lambda>x. x) db = Inr (r, new, db')"
  shows "db' = db \<or> f db = [] \<and> ins db = (r, db')"
  using assms
  by (auto simp: get_or_create_def res_bind_eq_Inr one_or_none_def Let_def
      split: option.splits list.splits if_splits prod.splits)

lemma claim_unit_inv:
  assumes "claim_unit t i w now secs db = Inr (b, db')"
  obtains "db' = db" "\<not> b" | n u run u' where "sched_utc t now = Inr n" "unit_of i db = Some u"
    "run_of (un_run_id u) db = Some run" "owned_by w n run"
    "claim w n secs (fenced_unit w n u) = Inr (b, u')" "db' = put_unit u' db"
proof -
  from assms obtain n where n: "sched_utc t now = Inr n"
    unfolding claim_unit_def by (elim res_bind_InrE) simp
  show ?thesis
  proof (cases "unit_of i db")
    case None
    with assms n show ?thesis by (intro that(1)) (auto simp: claim_unit_def)
  next
    case (Some u)
    show ?thesis
    proof (cases "run_of (un_run_id u) db")
      case None
      with assms n Some show ?thesis by (intro that(1)) (auto simp: claim_unit_def)
    next
      case run: (Some run)
      show ?thesis
      proof (cases "owned_by w n run")
        case True
        with assms n Some run have "\<exists>u'. claim w n secs (fenced_unit w n u) = Inr (b, u') \<and> db' = put_unit u' db"
          by (auto simp: claim_unit_def owned_by_def live_def owner_eq res_bind_eq_Inr
              split: if_splits option.splits)
        with that(2) [OF n Some run True] show ?thesis by blast
      next
        case False
        with assms n Some run have "db' = db \<and> \<not> b"
          by (auto simp: claim_unit_def owned_by_def live_def owner_eq split: if_splits option.splits)
        then show ?thesis by (intro that(1)) auto
      qed
    qed
  qed
qed

lemma fenced_claim:
  assumes "claim w n secs (fenced_unit w n u) = Inr (b, u')"
  shows "lease_change True n w u u' \<and> same_unit_key u u'"
proof (cases "lr_status u = Run_RUNNING \<and> lr_lease_owner u \<noteq> Some w")
  case True
  then have l: "fenced_unit w n u = u\<lparr>lr_lease_expires_at := Some (Aware n)\<rparr>"
    by (simp add: fenced_unit_def)
  with True have "\<not> live n (fenced_unit w n u)" "lr_status (fenced_unit w n u) \<noteq> Run_SUCCEEDED"
    by (auto simp: live_def)
  with assms have "u' = claimed_row w n (n + secs * second) u" "0 < secs"
    by (auto simp: claim_eq l claimed_row_def split: if_splits)
  with True show ?thesis by (auto intro!: lease_change.claimed)
next
  case False
  then have "fenced_unit w n u = u" by (auto simp: fenced_unit_def)
  with assms claim_row [of w n secs u b u'] show ?thesis
    by (auto intro: claim_lease_change)
qed

lemma claim_unit_row:
  assumes "claim_unit t i w now secs db = Inr (b, db')"
  obtains "db' = db" | n u u' where "sched_utc t now = Inr n" "unit_of i db = Some u"
    "lease_change True n w u u'" "same_unit_key u u'" "db' = put_unit u' db"
  using assms by (rule claim_unit_inv) (use that fenced_claim in blast)+

lemma perform_effect:
  assumes "perform t a db = Inr db'"
  shows "sched_effect t a db db'"
proof (cases a)
  case (Create_Run k d s)
  with assms show ?thesis
    by (auto simp: res_bind_eq_Inr get_or_create_run_def split: if_splits
        dest!: get_or_create_id intro: eff_same eff_new_run)
next
  case (Create_Unit i k)
  with assms show ?thesis
    by (auto simp: res_bind_eq_Inr get_or_create_unit_def run_of_def split: if_splits
        dest!: get_or_create_id intro: eff_same intro: eff_new_unit [unfolded run_of_def])
next
  case (Claim_Run i w secs)
  with assms consider row b row' where "run_of i db = Some row" "claim w t secs row = Inr (b, row')"
      "db' = put_run row' db" | "db' = db"
    by (auto simp: res_bind_eq_Inr claim_run_def split: option.splits)
  then show ?thesis
  proof cases
    case 1
    with claim_row [OF 1(2)] show ?thesis
      by (auto simp: Claim_Run intro!: eff_run [of _ w i] claim_lease_change)
  qed (simp add: eff_same)
next
  case (Renew_Run i w secs)
  with assms show ?thesis
    by (auto simp: res_bind_eq_Inr renew_run_lease_def split: option.splits
        intro!: eff_run [of _ w i] lease_change.renewed)
next
  case (Succeed_Run i w)
  with assms show ?thesis
    by (auto simp: res_bind_eq_Inr mark_run_succeeded_def split: if_splits
        intro!: eff_run [of _ w i] lease_change.succeeded)
next
  case (Execute_Run i w d)
  with assms show ?thesis
    by (auto simp: res_bind_eq_Inr mark_run_succeeded_after_locked_execution_def
        lock_run_for_execution_def split: if_splits option.splits
        intro!: eff_run [of _ w i] lease_change.succeeded)
next
  case (Fail_Run i w c)
  with assms show ?thesis
    by (auto simp: res_bind_eq_Inr mark_run_failed_def
        intro!: eff_run [of _ w i] lease_change.failed)
next
  case (Claim_Unit i w secs)
  with assms obtain b where "claim_unit t i w None secs db = Inr (b, db')"
    by (auto simp: res_bind_eq_Inr)
  then show ?thesis
    by (rule claim_unit_row) (auto simp: Claim_Unit intro: eff_same eff_unit)
next
  case (Succeed_Unit i w)
  with assms show ?thesis
    by (auto simp: res_bind_eq_Inr mark_unit_succeeded_def locked_unit_Inr
        intro!: eff_unit [of _ w i] lease_change.succeeded)
next
  case (Execute_Unit i w d)
  with assms show ?thesis
    by (auto simp: res_bind_eq_Inr mark_unit_succeeded_after_locked_execution_def locked_unit_Inr
        lock_unit_for_execution_def split: option.splits
        intro!: eff_unit [of _ w i] lease_change.succeeded)
next
  case (Fail_Unit i w c)
  with assms show ?thesis
    by (auto simp: res_bind_eq_Inr mark_unit_failed_def locked_unit_Inr
        intro!: eff_unit [of _ w i] lease_change.failed)
qed

inductive_cases sched_effectE: "sched_effect t a db db'"

section \<open>The invariant of the tables\<close>

definition sched_ok :: "sched_db \<Rightarrow> bool" where
  "sched_ok db \<longleftrightarrow>
     list_all (\<lambda>r. lease_row_ok r \<and> error_safe r) (sd_runs db)
     \<and> list_all (\<lambda>u. lease_row_ok u \<and> error_safe u \<and> run_of (un_run_id u) db \<noteq> None) (sd_units db)
     \<and> distinct (map ru_id (sd_runs db)) \<and> distinct (map un_id (sd_units db))
     \<and> distinct (map (\<lambda>r. (ru_job_key r, ru_financial_date r)) (sd_runs db))
     \<and> distinct (map (\<lambda>u. (un_run_id u, un_unit_key u)) (sd_units db))"

lemma list_all_put_by: "list_all P rows \<Longrightarrow> P r \<Longrightarrow> list_all P (put_by k r rows)"
  by (induction rows) (auto simp: put_by_def)

text \<open>Writing back a row whose other keys are unchanged keeps the keys of the table.\<close>

lemma map_put_by:
  assumes "get_by k i rows = Some r" "k r' = i" "f r' = f r" "distinct (map k rows)"
  shows "map f (put_by k r' rows) = map f rows"
  using assms
proof (induction rows)
  case (Cons x rows)
  show ?case
  proof (cases "k x = i")
    case True
    with Cons.prems have "x = r" and "\<forall>y\<in>set rows. k y \<noteq> k x" by (auto simp: image_iff)
    with True Cons.prems show ?thesis by (auto simp: put_by_def simp del: set_map)
  next
    case False
    with Cons show ?thesis by (auto simp: put_by_def)
  qed
qed simp

lemma run_of_mem: "run_of i db = Some r \<Longrightarrow> r \<in> set (sd_runs db) \<and> ru_id r = i"
  by (auto simp: run_of_def dest: get_by_Some_mem)

lemma unit_of_mem: "unit_of i db = Some u \<Longrightarrow> u \<in> set (sd_units db) \<and> un_id u = i"
  by (auto simp: unit_of_def dest: get_by_Some_mem)

lemma sched_ok_run:
  assumes ok: "sched_ok db" and r: "run_of i db = Some r" and k: "same_run_key r r'"
    and "lease_row_ok r'" "error_safe r'"
  shows "sched_ok (put_run r' db)"
proof -
  from k run_of_mem [OF r] have id: "ru_id r' = i" by (simp add: same_run_key_def)
  have keys: "map f (put_by ru_id r' (sd_runs db)) = map f (sd_runs db)" if "f r' = f r" for f :: "_ \<Rightarrow> 'b"
    using ok r that id by (intro map_put_by [where i = i and r = r]) (auto simp: sched_ok_def run_of_def)
  have "run_of j (put_run r' db) = None \<longleftrightarrow> run_of j db = None" for j
    by (auto simp: run_table.get_update [OF r id] r)
  with ok assms(4,5) k show ?thesis
    by (simp add: sched_ok_def list_all_put_by keys same_run_key_def put_run_def)
qed

lemma sched_ok_unit:
  assumes ok: "sched_ok db" and u: "unit_of i db = Some u" and k: "same_unit_key u u'"
    and "lease_row_ok u'" "error_safe u'"
  shows "sched_ok (put_unit u' db)"
proof -
  from k unit_of_mem [OF u] have id: "un_id u' = i" by (simp add: same_unit_key_def)
  have keys: "map f (put_by un_id u' (sd_units db)) = map f (sd_units db)" if "f u' = f u" for f :: "_ \<Rightarrow> 'b"
    using ok u that id by (intro map_put_by [where i = i and r = u]) (auto simp: sched_ok_def unit_of_def)
  have "run_of (un_run_id u') db \<noteq> None"
    using ok unit_of_mem [OF u] k by (auto simp: sched_ok_def same_unit_key_def list_all_iff)
  with ok assms(4,5) k show ?thesis
    by (simp add: sched_ok_def list_all_put_by keys same_unit_key_def put_unit_def run_of_def)
qed

lemma row_ok_mem:
  assumes "sched_ok db"
  shows "run_of i db = Some r \<Longrightarrow> lease_row_ok r \<and> error_safe r"
    and "unit_of i db = Some u \<Longrightarrow> lease_row_ok u \<and> error_safe u"
  using assms run_of_mem [of i db r] unit_of_mem [of i db u] by (auto simp: sched_ok_def list_all_iff)

lemma sched_ok_insert_run:
  assumes ok: "sched_ok db" and f: "runs_of_key k d db = []" and i: "insert_run t k d s db = (r, db')"
  shows "sched_ok db'"
proof -
  have r: "db' = db\<lparr>sd_runs := sd_runs db @ [r]\<rparr>" "ru_id r = next_id ru_id (sd_runs db)"
    "ru_job_key r = k" "ru_financial_date r = d" "lease_row_ok r" "error_safe r"
    using i by (auto simp: insert_run_def Let_def lease_row_ok_def error_safe_def)
  have "distinct (map ru_id (sd_runs db @ [r]))"
    using ok r(2) by (intro distinct_append_next_id) (simp_all add: sched_ok_def)
  moreover have "(k, d) \<notin> (\<lambda>r. (ru_job_key r, ru_financial_date r)) ` set (sd_runs db)"
    using f by (auto simp: runs_of_key_def filter_empty_conv)
  ultimately show ?thesis
    using ok r by (auto simp: sched_ok_def list_all_iff run_of_def get_by_append split: option.splits)
qed

lemma sched_ok_insert_unit:
  assumes ok: "sched_ok db" and f: "units_of_key i k db = []" and p: "run_of i db \<noteq> None"
    and ins: "insert_unit t i k db = (u, db')"
  shows "sched_ok db'"
proof -
  have u: "db' = db\<lparr>sd_units := sd_units db @ [u]\<rparr>" "un_id u = next_id un_id (sd_units db)"
    "un_run_id u = i" "un_unit_key u = k" "lease_row_ok u" "error_safe u"
    using ins by (auto simp: insert_unit_def Let_def lease_row_ok_def error_safe_def)
  have "distinct (map un_id (sd_units db @ [u]))"
    using ok u(2) by (intro distinct_append_next_id) (simp_all add: sched_ok_def)
  moreover have "(i, k) \<notin> (\<lambda>u. (un_run_id u, un_unit_key u)) ` set (sd_units db)"
    using f by (auto simp: units_of_key_def filter_empty_conv)
  ultimately show ?thesis
    using ok u p by (auto simp: sched_ok_def run_of_def)
qed

lemma sched_effect_ok: "sched_effect t a db db' \<Longrightarrow> sched_ok db \<Longrightarrow> sched_ok db'"
  by (induction rule: sched_effect.induct)
    (blast intro: sched_ok_insert_run sched_ok_insert_unit sched_ok_run sched_ok_unit
      lease_change_ok lease_change_error_safe dest: row_ok_mem)+

lemma sched_steps_ok: "sched_steps P s s' \<Longrightarrow> sched_ok (snd s) \<Longrightarrow> sched_ok (snd s')"
  by (induction rule: sched_steps.induct) (auto dest: perform_effect sched_effect_ok)

section \<open>What happens to one run along a history\<close>

text \<open>An operation of others leaves a run alone, or changes it as \<open>lease_change\<close> says.\<close>

lemma run_effect:
  assumes "sched_effect t a db db'" "run_of i db = Some r"
  obtains "run_of i db' = Some r" | w r' where "action_owner a = Some w" "lease_change False t w r r'"
    "run_of i db' = Some r'"
  using assms(1)
proof (cases rule: sched_effect.cases)
  case (eff_new_run k d s x)
  with assms(2) have "run_of i db' = Some r"
    by (auto simp: insert_run_def Let_def run_of_def get_by_append)
  then show ?thesis by (rule that(1))
next
  case (eff_new_unit j k u)
  with assms(2) have "run_of i db' = Some r" by (auto simp: insert_unit_def Let_def run_of_def)
  then show ?thesis by (rule that(1))
next
  case (eff_run w j row row')
  from run_of_mem [OF eff_run(3)] eff_run(5) have id: "ru_id row' = j" by (simp add: same_run_key_def)
  show ?thesis
  proof (cases "i = j")
    case True
    with eff_run assms(2) that(2) [of w row'] run_table.get_update [OF eff_run(3) id, of i]
    show ?thesis by auto
  next
    case False
    with eff_run assms(2) that(1) run_table.get_update [OF eff_run(3) id, of i] show ?thesis by auto
  qed
qed (use assms(2) that(1) in auto)

lemma unit_effect:
  assumes "sched_effect t a db db'" "unit_of i db = Some r"
  obtains "unit_of i db' = Some r" | w r' where "action_owner a = Some w" "lease_change True t w r r'"
    "same_unit_key r r'" "unit_of i db' = Some r'"
  using assms(1)
proof (cases rule: sched_effect.cases)
  case (eff_new_run k d s x)
  with assms(2) have "unit_of i db' = Some r" by (auto simp: insert_run_def Let_def unit_of_def)
  then show ?thesis by (rule that(1))
next
  case (eff_new_unit j k u)
  with assms(2) have "unit_of i db' = Some r"
    by (auto simp: insert_unit_def Let_def unit_of_def get_by_append)
  then show ?thesis by (rule that(1))
next
  case (eff_unit w j row row')
  from unit_of_mem [OF eff_unit(3)] eff_unit(5) have id: "un_id row' = j" by (simp add: same_unit_key_def)
  show ?thesis
  proof (cases "i = j")
    case True
    with eff_unit assms(2) that(2) [of w row'] unit_table.get_update [OF eff_unit(3) id, of i]
    show ?thesis by auto
  next
    case False
    with eff_unit assms(2) that(1) unit_table.get_update [OF eff_unit(3) id, of i] show ?thesis by auto
  qed
qed (use assms(2) that(1) in auto)

lemma sched_steps_time: "sched_steps P s s' \<Longrightarrow> fst s \<le> fst s'"
  by (induction rule: sched_steps.induct) auto

section \<open>Properties\<close>

text \<open>C34. Every table the scheduler can reach satisfies its check constraints, its keys are
  unique (one run per job and civil date, one unit per run and key), every unit belongs to a
  run, and \<open>last_error\<close> holds only codes of the fixed vocabulary.\<close>

theorem sched_reachable_ok:
  assumes "sched_steps P (t, empty_sched) (t', db)"
  shows "sched_ok db"
  using sched_steps_ok [OF assms] by (simp add: sched_ok_def empty_sched_def)

lemma exclusive_steps:
  assumes "sched_steps (\<lambda>a. action_owner a \<noteq> Some w) s s'" "fst s' < stored_utc e"
    "run_of i (snd s) = Some r" "lr_status r = Run_RUNNING" "lr_lease_owner r = Some w"
    "lr_lease_expires_at r = Some e"
  shows "run_of i (snd s') = Some r"
  using assms
proof induction
  case (act s t db a db')
  then have r: "run_of i db = Some r" and live: "live t r" by (simp_all add: live_def)
  from act have "sched_effect t a db db'" by (auto dest: perform_effect)
  from this r show ?case
  proof (rule run_effect)
    fix v r' assume "action_owner a = Some v" "lease_change False t v r r'" "run_of i db' = Some r'"
    with act live show ?thesis using lease_change_exclusive by fastforce
  qed simp
qed auto

text \<open>C33. Exclusive ownership: while the lease a worker holds on a run has not expired, no
  sequence of operations of other workers changes that run in any column.\<close>

theorem live_lease_exclusive:
  assumes "run_of i db = Some r" "owned_by w t r" "lr_lease_expires_at r = Some e"
    and "sched_steps (\<lambda>a. action_owner a \<noteq> Some w) (t, db) (t', db')" "t' < stored_utc e"
  shows "run_of i db' = Some r"
  using exclusive_steps [OF assms(4), of e i r] assms by (simp add: owned_by_def live_def)

lemma not_owned_steps:
  assumes "sched_steps (\<lambda>a. action_owner a \<noteq> Some w) s s'" "run_of i (snd s) = Some r"
    "lr_lease_owner r \<noteq> Some w"
  shows "\<exists>r'. run_of i (snd s') = Some r' \<and> lr_lease_owner r' \<noteq> Some w"
  using assms
proof induction
  case (act s t db a db')
  then obtain r1 where r1: "run_of i db = Some r1" "lr_lease_owner r1 \<noteq> Some w" by auto
  from act have "sched_effect t a db db'" by (auto dest: perform_effect)
  from this r1(1) show ?case
  proof (rule run_effect)
    fix v r' assume "action_owner a = Some v" "lease_change False t v r1 r'" "run_of i db' = Some r'"
    with r1(2) act.hyps(2) show ?thesis using lease_change_fenced by fastforce
  qed (use r1 in auto)
qed auto

definition fenced_out :: "string \<Rightarrow> int \<Rightarrow> instant \<Rightarrow> sched_db \<Rightarrow> bool" where
  "fenced_out w i t db \<longleftrightarrow>
     (let lost = SchedulerLeaseLost ''scheduler lease is no longer owned by this claimant''
      in renew_run_lease t i w 300 db = Inl lost
       \<and> lock_run_for_execution t i w db = Inl lost
       \<and> mark_run_succeeded t i w None db = Inl lost
       \<and> mark_run_failed t i w None None db = Inl lost)"

text \<open>Fencing: once another worker has reclaimed the run, a stale claimant that does not
  claim again can neither renew the lease, nor lock the run, nor record its success or failure,
  whatever the other workers do: each attempt raises \<open>SchedulerLeaseLost\<close>.\<close>

theorem stale_claimant_fenced:
  assumes "claim_run t i v None secs db = Inr (True, db1)" "valid_owner w" "v \<noteq> w"
    and "sched_steps (\<lambda>a. action_owner a \<noteq> Some w) (t, db1) (t', db')"
  shows "fenced_out w i t' db'"
proof -
  from assms(1) obtain row row' where r: "run_of i db = Some row" "claim v t secs row = Inr (True, row')"
    "db1 = put_run row' db"
    by (auto simp: claim_run_def res_bind_eq_Inr split: option.splits)
  from r(2) have row': "row' = claimed_row v t (t + secs * second) row"
    by (auto simp: claim_eq split: if_splits)
  then have "run_of i db1 = Some row'"
    using run_table.get_update [OF r(1), of row' i] run_of_mem [OF r(1)] r(3)
    by (simp add: claimed_row_def)
  moreover have "lr_lease_owner row' \<noteq> Some w" using assms(3) by (simp add: row' claimed_row_def)
  ultimately obtain r' where "run_of i db' = Some r'" "lr_lease_owner r' \<noteq> Some w"
    using not_owned_steps [OF assms(4)] by auto
  then show ?thesis
    using assert_claim_lost [OF assms(2), of t' r']
    by (simp add: fenced_out_def renew_run_lease_def lock_run_for_execution_def
        mark_run_succeeded_def mark_run_failed_def the_one_def owned_by_def Let_def)
qed

lemma run_final_steps:
  assumes "sched_steps P s s'" "run_of i (snd s) = Some r" "lr_status r = Run_SUCCEEDED"
  shows "run_of i (snd s') = Some r"
  using assms
proof induction
  case (act s t db a db')
  then have r: "run_of i db = Some r" by simp
  from act have "sched_effect t a db db'" by (auto dest: perform_effect)
  from this r show ?case by (rule run_effect) (use act.prems(2) lease_change_final in auto)
qed auto

lemma unit_final_steps:
  assumes "sched_steps P s s'" "unit_of i (snd s) = Some u" "lr_status u = Run_SUCCEEDED"
  shows "unit_of i (snd s') = Some u"
  using assms
proof induction
  case (act s t db a db')
  then have r: "unit_of i db = Some u" by simp
  from act have "sched_effect t a db db'" by (auto dest: perform_effect)
  from this r show ?case by (rule unit_effect) (use act.prems(2) lease_change_final in auto)
qed auto

text \<open>Success is final: a run recorded as succeeded, and every unit it had then, never
  change again, so its date is executed at most once. All those units have succeeded.\<close>

theorem run_success_final:
  assumes "sched_ok db" "mark_run_succeeded t i w completed db = Inr (r, db1)"
    and "sched_steps P (t, db1) (t', db')"
  shows "run_of i db' = Some r \<and> lr_status r = Run_SUCCEEDED
    \<and> (\<forall>u\<in>set (sd_units db1). un_run_id u = i \<longrightarrow>
         lr_status u = Run_SUCCEEDED \<and> unit_of (un_id u) db' = Some u)"
proof -
  from assms(2) obtain now row where row: "run_of i db = Some row" "r = succeeded_row now row"
    "db1 = put_run r db" "incomplete_units i db = []"
    by (auto simp: mark_run_succeeded_def res_bind_eq_Inr split: if_splits)
  have "run_of i db1 = Some r"
    using run_table.get_update [OF row(1), of r i] run_of_mem [OF row(1)] row(2,3)
    by (simp add: succeeded_row_def)
  moreover have st: "lr_status r = Run_SUCCEEDED" by (simp add: row(2) succeeded_row_def)
  ultimately have r: "run_of i db' = Some r" using run_final_steps [OF assms(3)] by simp
  have "lr_status u = Run_SUCCEEDED \<and> unit_of (un_id u) db' = Some u"
    if u: "u \<in> set (sd_units db1)" "un_run_id u = i" for u
  proof -
    have s: "lr_status u = Run_SUCCEEDED"
      using row(3,4) u by (auto simp: incomplete_units_def filter_empty_conv)
    have "unit_of (un_id u) db1 \<noteq> None" using u by (auto simp: unit_of_def get_by_None_iff)
    then obtain u' where u': "unit_of (un_id u) db1 = Some u'" by auto
    have "distinct (map un_id (sd_units db1))" using assms(1) row(3) by (simp add: sched_ok_def)
    then have "inj_on un_id (set (sd_units db1))" by (simp add: distinct_map)
    with u(1) unit_of_mem [OF u'] have "u' = u" by (auto dest: inj_onD)
    with u' s show ?thesis using unit_final_steps [OF assms(3)] by simp
  qed
  with r st show ?thesis by blast
qed

text \<open>A claim, on every branch: an invalid owner or duration raises before anything is
  read, a succeeded run or a live lease is not claimed and nothing changes, and every other
  run (pending, failed, or running with an expired lease, so that a crashed worker is replaced) is
  claimed, its attempt counted.\<close>

theorem claim_run_outcome:
  assumes "run_of i db = Some r"
  shows "claim_run t i w None secs db =
    (if \<not> valid_owner w then
       Inl (ValueError ''lease_owner must be a non-empty identifier of at most 120 characters'')
     else if secs \<le> 0 then Inl (ValueError ''lease_seconds must be a positive integer'')
     else if lr_status r = Run_SUCCEEDED \<or> live t r then Inr (False, put_run r db)
     else Inr (True, put_run (claimed_row w t (t + secs * second) r) db))"
  using assms by (simp add: claim_run_def claim_eq)

text \<open>An execution that locked its run while the lease was live can record success at
  any later time, also after the lease has expired, when all units have succeeded; recording
  it without the lock then raises \<open>SchedulerLeaseLost\<close>.\<close>

theorem locked_execution_completes:
  assumes "lock_run_for_execution t i w db = Inr v" "incomplete_units i db = []"
    and "run_of i db = Some r" "lr_lease_expires_at r = Some e" "stored_utc e \<le> later"
  shows "(\<exists>r' db'. mark_run_succeeded_after_locked_execution clock i w (Aware v) (Some (Aware later)) db = Inr (r', db')
      \<and> lr_status r' = Run_SUCCEEDED \<and> lr_completed_at r' = Some later \<and> run_of i db' = Some r')
    \<and> mark_run_succeeded clock i w (Some (Aware later)) db
        = Inl (SchedulerLeaseLost ''scheduler lease is no longer owned by this claimant'')"
proof -
  from assms(1,3) have v: "v = t" "valid_owner w" "owned_by w t r"
    by (auto simp: lock_run_for_execution_def res_bind_eq_Inr)
  have "run_of i (put_run (succeeded_row later r) db) = Some (succeeded_row later r)"
    using run_table.get_update [OF assms(3), of "succeeded_row later r" i] run_of_mem [OF assms(3)]
    by (simp add: succeeded_row_def)
  moreover have "\<not> owned_by w later r" using assms(4,5) by (auto simp: owned_by_def live_def)
  ultimately show ?thesis
    using assms(2,3) v(1,2)
    by (simp add: mark_run_succeeded_after_locked_execution_def mark_run_succeeded_def the_one_def
        assert_claim_lost assert_claim_ok v(3) succeeded_row_def)
qed

text \<open>\<open>get_or_create_run\<close> under a race: whatever other transactions commit between its
  lookup and its insert (as long as the unique key holds there), it returns the one row of that
  job and date, reports it as created only when nobody else had, and calling it again
  returns the same row and changes nothing.\<close>

theorem create_run_race:
  assumes "length (runs_of_key k d db) \<le> 1" "length (runs_of_key k d (others db)) \<le> 1"
    and "get_or_create_run clock others k d s db = Inr (r, created, db')"
  shows "runs_of_key k d db' = [r]
    \<and> (created \<longleftrightarrow> runs_of_key k d db = [] \<and> runs_of_key k d (others db) = [])
    \<and> get_or_create_run clock2 others2 k d None db' = Inr (r, False, db')"
proof -
  from assms(3) obtain sched where v: "\<not> blank k" "\<not> 100 < length k"
    and g: "get_or_create (runs_of_key k d) (insert_run clock k d sched) others db = Inr (r, created, db')"
    by (auto simp: get_or_create_run_def res_bind_eq_Inr split: if_splits)
  have one: "runs_of_key k d db' = [r]
    \<and> (created \<longleftrightarrow> runs_of_key k d db = [] \<and> runs_of_key k d (others db) = [])"
    using g assms(1,2)
    by (auto simp: get_or_create_def one_or_none_def insert_run_def Let_def runs_of_key_def
        split: list.splits if_splits)
  then show ?thesis
    using v by (auto simp: get_or_create_run_def get_or_create_def one_or_none_def)
qed

section \<open>Witnesses\<close>

text \<open>A run leased to \<open>a\<close> until second 300, with one unit that has succeeded.\<close>

definition demo_sched_run :: scheduler_run where
  "demo_sched_run = \<lparr>lr_status = Run_RUNNING, lr_attempt_count = 1, lr_lease_owner = Some ''a'',
     lr_lease_expires_at = Some (Naive (300 * second)), lr_started_at = Some 0, lr_completed_at = None,
     lr_last_error = None, lr_updated_at = 0, ru_id = 1, ru_job_key = ''daily'',
     ru_financial_date = 739000, ru_scheduled_for = 0\<rparr>"

definition demo_sched_unit :: scheduler_run_unit where
  "demo_sched_unit = \<lparr>lr_status = Run_SUCCEEDED, lr_attempt_count = 1, lr_lease_owner = None,
     lr_lease_expires_at = None, lr_started_at = Some 0, lr_completed_at = Some 5,
     lr_last_error = None, lr_updated_at = 5, un_id = 1, un_run_id = 1, un_unit_key = ''cycle:1:participation:1''\<rparr>"

definition demo_sched :: sched_db where
  "demo_sched = \<lparr>sd_runs = [demo_sched_run], sd_units = [demo_sched_unit]\<rparr>"

lemma demo_valid [simp]: "valid_owner ''a''" "valid_owner ''b''"
  by (code_simp)+

lemma demo_run_of [simp]: "run_of 1 demo_sched = Some demo_sched_run"
  by (simp add: run_of_def demo_sched_def demo_sched_run_def)

lemma demo_fields [simp]:
  "lr_status demo_sched_run = Run_RUNNING" "lr_lease_owner demo_sched_run = Some ''a''"
  "lr_lease_expires_at demo_sched_run = Some (Naive (300 * second))"
  by (simp_all add: demo_sched_run_def)

lemma demo_owned: "t < 300 * second \<Longrightarrow> owned_by ''a'' t demo_sched_run"
  by (simp add: owned_by_def live_def)

lemma demo_not_live: "300 * second \<le> t \<Longrightarrow> \<not> live t demo_sched_run"
  by (simp add: live_def)

lemma demo_complete [simp]: "incomplete_units 1 demo_sched = []"
  by (simp add: incomplete_units_def demo_sched_def demo_sched_unit_def)

theorem sched_reachable_ok_witness:
  "\<exists>db. sched_steps (\<lambda>_. True) (0, empty_sched) (0, db) \<and> sd_runs db \<noteq> [] \<and> sched_ok db"
proof -
  let ?a = "Create_Run ''daily'' 739000 (Aware 0)"
  have "\<not> blank ''daily''" by code_simp
  then obtain db where db: "perform 0 ?a empty_sched = Inr db" "sd_runs db \<noteq> []"
    by (auto simp: get_or_create_run_def get_or_create_def one_or_none_def runs_of_key_def
        insert_run_def empty_sched_def Let_def)
  have "sched_steps (\<lambda>_. True) (0, empty_sched) (0, db)"
    by (rule sched_steps.act [OF sched_steps.start _ db(1)]) simp
  with db(2) sched_reachable_ok [OF this] show ?thesis by auto
qed

theorem live_lease_exclusive_witness:
  "run_of 1 (put_run demo_sched_run demo_sched) = Some demo_sched_run
   \<and> claim_run 10 1 ''b'' None 60 demo_sched = Inr (False, put_run demo_sched_run demo_sched)"
proof -
  have c: "claim_run 10 1 ''b'' None 60 demo_sched = Inr (False, put_run demo_sched_run demo_sched)"
    by (simp add: claim_run_def claim_eq live_def second_def)
  have st: "sched_steps (\<lambda>a. action_owner a \<noteq> Some ''a'') (10, demo_sched) (10, put_run demo_sched_run demo_sched)"
    by (rule sched_steps.act [OF sched_steps.start, where a = "Claim_Run 1 ''b'' 60"]) (simp_all add: c)
  have "owned_by ''a'' 10 demo_sched_run" by (simp add: demo_owned second_def)
  from live_lease_exclusive [OF demo_run_of this demo_fields(3) st] c show ?thesis
    by (simp add: second_def)
qed

theorem stale_claimant_fenced_witness:
  "\<exists>db. claim_run (300 * second) 1 ''b'' None 60 demo_sched = Inr (True, db)
     \<and> fenced_out ''a'' 1 (301 * second) db"
proof -
  obtain db where db: "claim_run (300 * second) 1 ''b'' None 60 demo_sched = Inr (True, db)"
    by (simp add: claim_run_def claim_eq demo_not_live)
  have "sched_steps (\<lambda>a. action_owner a \<noteq> Some ''a'') (300 * second, db) (301 * second, db)"
    by (rule sched_steps.tick [OF sched_steps.start]) (simp add: second_def)
  with stale_claimant_fenced [OF db, of "''a''"] db show ?thesis by auto
qed

theorem run_success_final_witness:
  "\<exists>r db. mark_run_succeeded 7 1 ''a'' None demo_sched = Inr (r, db) \<and> run_of 1 db = Some r
     \<and> lr_status r = Run_SUCCEEDED"
proof -
  have ok: "sched_ok demo_sched"
    by (simp add: sched_ok_def demo_sched_def demo_sched_run_def demo_sched_unit_def lease_row_ok_def
        error_safe_def run_of_def)
  have "owned_by ''a'' 7 demo_sched_run" by (simp add: demo_owned second_def)
  then obtain r db where m: "mark_run_succeeded 7 1 ''a'' None demo_sched = Inr (r, db)"
    by (simp add: mark_run_succeeded_def the_one_def assert_claim_ok)
  from run_success_final [OF ok m sched_steps.start] m show ?thesis by blast
qed

theorem claim_run_outcome_witness:
  "claim_run (400 * second) 1 ''b'' None 60 demo_sched
    = Inr (True, put_run (claimed_row ''b'' (400 * second) (460 * second) demo_sched_run) demo_sched)"
proof -
  have "\<not> live (400 * second) demo_sched_run" by (rule demo_not_live) (simp add: second_def)
  with claim_run_outcome [OF demo_run_of, of "400 * second" "''b''" 60] show ?thesis
    by (simp add: second_def)
qed

theorem locked_execution_completes_witness:
  "\<exists>r' db'. mark_run_succeeded_after_locked_execution 0 1 ''a'' (Aware 5)
      (Some (Aware (400 * second))) demo_sched = Inr (r', db') \<and> lr_status r' = Run_SUCCEEDED"
proof -
  have "owned_by ''a'' 5 demo_sched_run" by (simp add: demo_owned second_def)
  then have "lock_run_for_execution 5 1 ''a'' demo_sched = Inr 5"
    by (simp add: lock_run_for_execution_def assert_claim_ok)
  from locked_execution_completes [OF this demo_complete demo_run_of demo_fields(3), of "400 * second" 0]
  show ?thesis by (auto simp: second_def)
qed

theorem create_run_race_witness:
  "get_or_create_run 0 (\<lambda>_. demo_sched) ''daily'' 739000 None empty_sched
     = Inr (demo_sched_run, False, demo_sched) \<and> runs_of_key ''daily'' 739000 demo_sched = [demo_sched_run]"
proof -
  have nb: "\<not> blank ''daily''" by code_simp
  have k: "runs_of_key ''daily'' 739000 empty_sched = []" "runs_of_key ''daily'' 739000 demo_sched = [demo_sched_run]"
    by (simp_all add: runs_of_key_def empty_sched_def demo_sched_def demo_sched_run_def)
  then have g: "get_or_create_run 0 (\<lambda>_. demo_sched) ''daily'' 739000 None empty_sched
      = Inr (demo_sched_run, False, demo_sched)"
    using nb by (simp add: get_or_create_run_def get_or_create_def one_or_none_def)
  from create_run_race [OF _ _ g] g k show ?thesis by simp
qed

end
