(* ===== verification/Json.thy ===== *)
theory Json
  imports Decimal_Arith Civil_Time Py_Strings
begin

text \<open>
  The JSON documents the program hashes and stores. A leaf that the code formats as text
  (\<open>format(money, "f")\<close>, \<open>isoformat()\<close>) keeps the value that is formatted. A dictionary is the
  list of its entries; serialization sorts the keys, so the order carries no meaning. The
  serialization and the hash are parameters of the definitions that use them.
\<close>

datatype json =
    JNull
  | JBool bool
  | JInt int
  | JStr string
  | JMoney cents
  | JTime instant
  | JDate date
  | JList "json list"
  | JDict "(string \<times> json) list"

definition opt_json :: "('a \<Rightarrow> json) \<Rightarrow> 'a option \<Rightarrow> json" where
  "opt_json f x = (case x of None \<Rightarrow> JNull | Some v \<Rightarrow> f v)"

text \<open>\<open>dict.get\<close> on a document.\<close>

fun json_get :: "string \<Rightarrow> json \<Rightarrow> json option" where
  "json_get k (JDict entries) = map_of entries k"
| "json_get k _ = None"

definition is_dict :: "json \<Rightarrow> bool" where
  "is_dict j = (case j of JDict _ \<Rightarrow> True | _ \<Rightarrow> False)"

lemma opt_json_simps [simp]: "opt_json f None = JNull" "opt_json f (Some x) = f x"
  by (simp_all add: opt_json_def)

lemma opt_json_inj:
  assumes "opt_json f x = opt_json f y" "\<And>a. f a \<noteq> JNull" "\<And>a b. f a = f b \<Longrightarrow> a = b"
  shows "x = y"
  using assms(1) assms(2) [symmetric] assms(2,3) by (cases x; cases y) auto

text \<open>\<open>str(int)\<close>, and \<open>str.isdigit\<close> with \<open>int(str)\<close> on what the columns hold.\<close>

fun digits :: "nat \<Rightarrow> string" where
  "digits n = (if n < 10 then [char_of (48 + n)] else digits (n div 10) @ [char_of (48 + n mod 10)])"

declare digits.simps [simp del]

definition py_str :: "int \<Rightarrow> string" where
  "py_str i = (if i < 0 then CHR ''-'' # digits (nat (- i)) else digits (nat i))"

definition isdigit :: "string \<Rightarrow> bool" where
  "isdigit s \<longleftrightarrow> s \<noteq> [] \<and> list_all py_isdigit s"

definition digit_value :: "char \<Rightarrow> int" where
  "digit_value c = int (char_code c) - 48"

definition py_int :: "string \<Rightarrow> int" where
  "py_int s = fold (\<lambda>c n. 10 * n + digit_value c) s 0"

lemma char_code_digit [simp]: "n < 10 \<Longrightarrow> char_code (char_of (48 + n)) = 48 + n"
  by (simp add: char_code_def)

lemma isdigit_digits [simp]: "isdigit (digits n)"
proof (induction n rule: digits.induct)
  case (1 n)
  then show ?case
    by (subst digits.simps) (auto simp: isdigit_def py_isdigit_def list_all_iff)
qed

lemma py_int_digits [simp]: "py_int (digits n) = int n"
proof (induction n rule: digits.induct)
  case (1 n)
  show ?case
  proof (cases "n < 10")
    case True
    then show ?thesis by (subst digits.simps) (simp add: py_int_def digit_value_def)
  next
    case False
    have "py_int (digits n) = 10 * int (n div 10) + int (n mod 10)"
      using 1 \<open>\<not> n < 10\<close> by (subst digits.simps) (simp add: py_int_def digit_value_def)
    also have "\<dots> = int n" by presburger
    finally show ?thesis .
  qed
qed

lemma py_int_str: "0 \<le> i \<Longrightarrow> py_int (py_str i) = i \<and> isdigit (py_str i)"
  by (simp add: py_str_def)

lemma py_str_inj: "0 \<le> i \<Longrightarrow> 0 \<le> j \<Longrightarrow> py_str i = py_str j \<longleftrightarrow> i = j"
  by (metis py_int_str)

end
