(* ===== verification/Models.thy ===== *)
theory Models
  imports Json
begin

text \<open>
  The tables of \<open>models/core.py\<close> the financial services read and write, one record per table
  with the table's columns (a prefix replaces the class name), and the database as the record of its
  tables. Columns of type \<open>Numeric(14, 2)\<close> are cents, timestamps keep whether they came back
  with their zone. The check constraints that bear on amounts and states are predicates.
\<close>

section \<open>Members, cycles and contributions\<close>

record user_row =
  usr_id :: int
  usr_role :: string
  usr_is_active :: bool
  usr_is_master :: bool

record member_row =
  mem_id :: int
  mem_user_id :: int
  mem_group_id :: int
  mem_status :: string

record cycle_row =
  cyc_id :: int
  cyc_start_date :: date
  cyc_entry_deadline :: date
  cyc_closing_reference_date :: date
  cyc_monthly_amount :: cents
  cyc_months :: int
  cyc_max_quotas :: int
  cyc_status :: string

record quota_row =
  quo_id :: int
  quo_member_id :: int
  quo_cycle_id :: "int option"
  quo_units :: decimal
  quo_status :: string

record participation_row =
  cpa_id :: int
  cpa_cycle_id :: int
  cpa_member_id :: int
  cpa_status :: string
  cpa_joined_at :: "datetime option"
  cpa_voluntary_exit_at :: "datetime option"
  cpa_blocked_at :: "datetime option"
  cpa_block_reason :: "string option"

record contribution_row =
  con_id :: int
  con_member_id :: int
  con_cycle_id :: "int option"
  con_competence :: date
  con_amount :: cents
  con_status :: string
  con_payment_id :: "int option"
  con_due_date :: "date option"
  con_paid_amount :: "cents option"
  con_paid_at :: "datetime option"
  con_cancelled_at :: "datetime option"
  con_cancellation_reason :: "string option"

record charge_event_row =
  cev_id :: int
  cev_contribution_id :: int
  cev_participation_id :: int
  cev_event_type :: string
  cev_rule_version :: string
  cev_accrued_through :: date
  cev_fixed_penalty :: cents
  cev_daily_interest :: cents
  cev_cancelled_principal :: cents
  cev_created_at :: datetime

definition participation_state_ok :: "participation_row \<Rightarrow> bool" where
  "participation_state_ok p \<longleftrightarrow>
     cpa_status p = ''ACTIVE'' \<and> cpa_voluntary_exit_at p = None \<and> cpa_blocked_at p = None
        \<and> cpa_block_reason p = None
   \<or> cpa_status p = ''VOLUNTARILY_EXITED'' \<and> cpa_voluntary_exit_at p \<noteq> None \<and> cpa_blocked_at p = None
        \<and> cpa_block_reason p = None
   \<or> cpa_status p = ''BLOCKED_DELINQUENCY'' \<and> cpa_voluntary_exit_at p = None \<and> cpa_blocked_at p \<noteq> None
        \<and> cpa_block_reason p \<noteq> None"

section \<open>Payments and settlements\<close>

record payment_row =
  pay_id :: int
  pay_provider :: string
  pay_provider_order_id :: "string option"
  pay_provider_payment_id :: "string option"
  pay_amount :: cents
  pay_status :: string
  pay_external_reference :: "string option"
  pay_pix_txid :: "string option"
  pay_end_to_end_id :: "string option"
  pay_provider_status_detail :: "string option"
  pay_provider_payload_json :: "json option"
  pay_confirmed_at :: "datetime option"
  pay_amount_received :: "cents option"
  pay_ledger_posted_at :: "datetime option"
  pay_reference_type :: "string option"
  pay_reference_id :: "string option"
  pay_attempt_status :: "string option"
  pay_reconciliation_status :: "string option"

record settlement_amounts =
  stl_id :: int
  stl_payment_id :: int
  stl_member_id :: int
  stl_obligation_type :: string
  stl_contribution_id :: "int option"
  stl_loan_installment_id :: "int option"
  stl_agreement_installment_id :: "int option"
  stl_amount_received :: cents
  stl_amount_applied :: cents
  stl_principal_applied :: cents
  stl_interest_applied :: cents
  stl_penalty_applied :: cents
  stl_component_version :: "string option"
  stl_normal_interest_applied :: "cents option"
  stl_late_interest_applied :: "cents option"
  stl_fixed_penalty_applied :: "cents option"
  stl_excess_amount :: cents

text \<open>The evidence of the state before and after, for a loan and for an agreement.\<close>

record loan_evidence =
  lev_loan_status :: string
  lev_loan_state_revision :: int
  lev_loan_paid_at :: "datetime option"
  lev_installment_status :: string
  lev_installment_paid_at :: "datetime option"

record agreement_evidence =
  aev_installment_status :: string
  aev_installment_paid_at :: "datetime option"
  aev_paid_amount :: cents
  aev_paid_penalty_amount :: cents
  aev_agreement_status :: string
  aev_agreement_state_revision :: int

record settlement_row = settlement_amounts +
  stl_status_before :: string
  stl_status_after :: string
  stl_confirmed_at :: datetime
  stl_financial_date :: "date option"
  stl_confirmation_source :: string
  stl_webhook_event_id :: "int option"
  stl_receipt_number :: string
  stl_receipt_version :: string
  stl_receipt_snapshot :: "json option"
  stl_receipt_hash :: string
  stl_loan_before :: "loan_evidence option"
  stl_loan_after :: "loan_evidence option"
  stl_agreement_before :: "agreement_evidence option"
  stl_agreement_after :: "agreement_evidence option"

record reversal_row =
  rev_id :: int
  rev_payment_id :: int
  rev_settlement_id :: int
  rev_admin_id :: int
  rev_reason :: string
  rev_reversed_at :: datetime
  rev_financial_date :: "date option"
  rev_amount_received :: cents
  rev_amount_applied :: cents
  rev_principal_applied :: cents
  rev_interest_applied :: cents
  rev_penalty_applied :: cents
  rev_excess_amount :: cents
  rev_receipt_version :: string
  rev_competence :: date
  rev_original_competence :: "date option"
  rev_original_due_date :: "date option"
  rev_original_date_kind :: string
  rev_receipt_number :: string
  rev_receipt_snapshot :: "json option"
  rev_receipt_hash :: string

text \<open>The pair of a ledger entry and the entry that compensates it.\<close>

record reversal_component_row =
  rco_id :: int
  rco_reversal_id :: int
  rco_original_id :: int
  rco_compensating_id :: int

text \<open>The amount constraints of \<open>payment_settlements\<close>.\<close>

definition settlement_amounts_ok :: "'a settlement_amounts_scheme \<Rightarrow> bool" where
  "settlement_amounts_ok s \<longleftrightarrow>
     0 \<le> stl_amount_received s \<and> 0 \<le> stl_amount_applied s \<and> 0 \<le> stl_principal_applied s
   \<and> 0 \<le> stl_interest_applied s \<and> 0 \<le> stl_penalty_applied s \<and> 0 \<le> stl_excess_amount s
   \<and> stl_amount_received s = stl_amount_applied s + stl_excess_amount s
   \<and> stl_amount_applied s = stl_principal_applied s + stl_interest_applied s + stl_penalty_applied s"

definition settlement_components_ok :: "'a settlement_amounts_scheme \<Rightarrow> bool" where
  "settlement_components_ok s \<longleftrightarrow>
     (case stl_component_version s of
        None \<Rightarrow> stl_normal_interest_applied s = None \<and> stl_late_interest_applied s = None
          \<and> stl_fixed_penalty_applied s = None
      | Some v \<Rightarrow> v = ''late_charge_components_v1'' \<and> stl_obligation_type s = ''LOAN_INSTALLMENT''
          \<and> (case (stl_normal_interest_applied s, stl_late_interest_applied s, stl_fixed_penalty_applied s) of
               (Some n, Some l, Some f) \<Rightarrow> 0 \<le> n \<and> 0 \<le> l \<and> 0 \<le> f \<and> stl_interest_applied s = n
                  \<and> stl_penalty_applied s = l + f
             | _ \<Rightarrow> False))"

definition settlement_obligation_ok :: "'a settlement_amounts_scheme \<Rightarrow> bool" where
  "settlement_obligation_ok s \<longleftrightarrow>
     stl_obligation_type s = ''CONTRIBUTION'' \<and> stl_contribution_id s \<noteq> None
        \<and> stl_loan_installment_id s = None \<and> stl_agreement_installment_id s = None
   \<or> stl_obligation_type s = ''LOAN_INSTALLMENT'' \<and> stl_contribution_id s = None
        \<and> stl_loan_installment_id s \<noteq> None \<and> stl_agreement_installment_id s = None
   \<or> stl_obligation_type s = ''AGREEMENT_INSTALLMENT'' \<and> stl_contribution_id s = None
        \<and> stl_loan_installment_id s = None \<and> stl_agreement_installment_id s \<noteq> None
        \<and> stl_interest_applied s = 0"

section \<open>Loans and agreements\<close>

record loan_row =
  loan_id :: int
  loan_member_id :: int
  loan_cycle_id :: "int option"
  loan_principal :: cents
  loan_principal_settled_with_own_balance :: cents
  loan_monthly_rate :: decimal
  loan_installments :: int
  loan_calculation_version :: "string option"
  loan_status :: string
  loan_disbursed_at :: "datetime option"
  loan_paid_at :: "datetime option"
  loan_state_revision :: int

record installment_row =
  ins_id :: int
  ins_loan_id :: int
  ins_number :: int
  ins_due_date :: date
  ins_principal :: cents
  ins_interest :: cents
  ins_amount :: cents
  ins_paid_amount :: cents
  ins_penalty_amount :: cents
  ins_paid_penalty_amount :: cents
  ins_last_penalty_date :: "date option"
  ins_late_charge_version :: "string option"
  ins_fixed_penalty_amount :: "cents option"
  ins_paid_fixed_penalty_amount :: "cents option"
  ins_late_interest_amount :: "cents option"
  ins_paid_late_interest_amount :: "cents option"
  ins_late_interest_accrued_through_date :: "date option"
  ins_paid_at :: "datetime option"
  ins_status :: string
  ins_collection_stage :: string

record late_event_row =
  lce_id :: int
  lce_installment_id :: int
  lce_version :: string
  lce_event_type :: string
  lce_effective_date :: date
  lce_amount :: "cents option"
  lce_eligible_principal :: "cents option"
  lce_settlement_id :: "int option"
  lce_reversal_id :: "int option"

record agreement_row =
  agr_id :: int
  agr_loan_id :: int
  agr_member_id :: int
  agr_requested_by :: int
  agr_decided_by :: "int option"
  agr_status :: string
  agr_installments :: int
  agr_total_amount :: cents
  agr_reason :: "string option"
  agr_snapshot :: json
  agr_requested_at :: datetime
  agr_decided_at :: "datetime option"
  agr_state_revision :: int

record agreement_installment_row =
  agi_id :: int
  agi_agreement_id :: int
  agi_number :: int
  agi_due_date :: date
  agi_principal :: cents
  agi_penalty_amount :: cents
  agi_amount :: cents
  agi_paid_amount :: cents
  agi_paid_penalty_amount :: cents
  agi_paid_at :: "datetime option"
  agi_status :: string

record collection_case_row =
  cas_id :: int
  cas_member_id :: int
  cas_loan_id :: "int option"
  cas_agreement_id :: "int option"
  cas_status :: string
  cas_stage :: string
  cas_opened_at :: datetime
  cas_last_action_at :: "datetime option"
  cas_next_action_at :: "datetime option"
  cas_resolved_at :: "datetime option"
  cas_resolved_by :: "int option"
  cas_resolution_note :: "string option"

section \<open>Books\<close>

record ledger_row =
  led_id :: int
  led_account :: string
  led_direction :: string
  led_amount :: cents
  led_reference_type :: string
  led_reference_id :: string
  led_reversal_of_id :: "int option"
  led_previous_hash :: "string option"
  led_entry_hash :: "string option"
  led_created_at :: datetime
  led_financial_date :: "date option"
  led_hash_version :: "int option"

record account_row =
  acc_id :: int
  acc_member_id :: int

record member_entry_row =
  ent_id :: int
  ent_account_id :: int
  ent_entry_type :: string
  ent_direction :: string
  ent_amount :: cents
  ent_reference_type :: "string option"
  ent_reference_id :: "string option"
  ent_created_at :: datetime
  ent_contribution_id :: "int option"
  ent_settlement_id :: "int option"
  ent_reversal_id :: "int option"

record audit_row =
  aud_actor :: "int option"
  aud_action :: string
  aud_entity_type :: string
  aud_entity_id :: string

record notification_row =
  ntf_id :: int
  ntf_user_id :: int
  ntf_channel :: string
  ntf_type :: string
  ntf_title :: string
  ntf_message :: string
  ntf_status :: string
  ntf_attempts :: int
  ntf_last_error :: "string option"
  ntf_reference_type :: "string option"
  ntf_reference_id :: "string option"
  ntf_sent_at :: "datetime option"

section \<open>The database\<close>

record books =
  db_ledger :: "ledger_row list"
  db_accounts :: "account_row list"
  db_entries :: "member_entry_row list"
  db_members :: "member_row list"
  db_audit :: "audit_row list"
  db_notifications :: "notification_row list"

record loan_tables = books +
  db_loans :: "loan_row list"
  db_installments :: "installment_row list"
  db_late_events :: "late_event_row list"
  db_settlements :: "settlement_row list"
  db_reversals :: "reversal_row list"
  db_payments :: "payment_row list"

record database = loan_tables +
  db_cycles :: "cycle_row list"
  db_quotas :: "quota_row list"
  db_participations :: "participation_row list"
  db_contributions :: "contribution_row list"
  db_charge_events :: "charge_event_row list"
  db_agreements :: "agreement_row list"
  db_agreement_installments :: "agreement_installment_row list"
  db_collection_cases :: "collection_case_row list"
  db_reversal_components :: "reversal_component_row list"
  db_users :: "user_row list"

text \<open>A changed row written back, and the rows most operations look up.\<close>

definition put_installment :: "installment_row \<Rightarrow> 'a loan_tables_scheme \<Rightarrow> 'a loan_tables_scheme" where
  "put_installment i db = db\<lparr>db_installments := put_by ins_id i (db_installments db)\<rparr>"

definition put_loan :: "loan_row \<Rightarrow> 'a loan_tables_scheme \<Rightarrow> 'a loan_tables_scheme" where
  "put_loan l db = db\<lparr>db_loans := put_by loan_id l (db_loans db)\<rparr>"

definition put_payment :: "payment_row \<Rightarrow> 'a loan_tables_scheme \<Rightarrow> 'a loan_tables_scheme" where
  "put_payment p db = db\<lparr>db_payments := put_by pay_id p (db_payments db)\<rparr>"

definition put_contribution :: "contribution_row \<Rightarrow> 'a database_scheme \<Rightarrow> 'a database_scheme" where
  "put_contribution c db = db\<lparr>db_contributions := put_by con_id c (db_contributions db)\<rparr>"

definition put_agreement :: "agreement_row \<Rightarrow> 'a database_scheme \<Rightarrow> 'a database_scheme" where
  "put_agreement a db = db\<lparr>db_agreements := put_by agr_id a (db_agreements db)\<rparr>"

definition put_agreement_installment ::
    "agreement_installment_row \<Rightarrow> 'a database_scheme \<Rightarrow> 'a database_scheme" where
  "put_agreement_installment i db =
     db\<lparr>db_agreement_installments := put_by agi_id i (db_agreement_installments db)\<rparr>"

lemma put_rows_simps [simp, table_simps]:
  "db_installments (put_installment i db) = put_by ins_id i (db_installments db)"
  "db_late_events (put_installment i db) = db_late_events db"
  "db_settlements (put_installment i db) = db_settlements db"
  "db_reversals (put_installment i db) = db_reversals db"
  "db_payments (put_installment i db) = db_payments db"
  "db_loans (put_installment i db) = db_loans db" "db_ledger (put_installment i db) = db_ledger db"
  "db_entries (put_installment i db) = db_entries db" "db_accounts (put_installment i db) = db_accounts db"
  "db_members (put_installment i db) = db_members db"
  "db_loans (put_loan l db) = put_by loan_id l (db_loans db)"
  "db_installments (put_loan l db) = db_installments db" "db_late_events (put_loan l db) = db_late_events db"
  "db_settlements (put_loan l db) = db_settlements db" "db_reversals (put_loan l db) = db_reversals db"
  "db_payments (put_loan l db) = db_payments db" "db_ledger (put_loan l db) = db_ledger db"
  "db_entries (put_loan l db) = db_entries db" "db_accounts (put_loan l db) = db_accounts db"
  "db_members (put_loan l db) = db_members db"
  "db_payments (put_payment p db) = put_by pay_id p (db_payments db)"
  "db_installments (put_payment p db) = db_installments db" "db_loans (put_payment p db) = db_loans db"
  "db_settlements (put_payment p db) = db_settlements db" "db_ledger (put_payment p db) = db_ledger db"
  "db_entries (put_payment p db) = db_entries db" "db_members (put_payment p db) = db_members db"
  "db_accounts (put_payment p db) = db_accounts db"
  by (simp_all add: put_installment_def put_loan_def put_payment_def)

end
