(* ===== verification/Ledger.thy ===== *)
theory Ledger
  imports Models
begin

text \<open>
  The hash-chained ledger, \<open>services/ledger.py\<close>. \<open>hash\<close> stands for SHA-256 of the canonical
  JSON text of a payload. A posting appends one row whose payload names the hash of
  the row with the largest id; \<open>db.flush()\<close> raises when the unique column \<open>entry_hash\<close> already
  has that value. The lemmas show that postings keep the chain verifiable, that a verified chain
  cannot be altered without a hash collision, and that a reversal cancels its original once.
\<close>

section \<open>Payloads and hashes\<close>

definition stamp_json :: "datetime \<Rightarrow> json" where
  "stamp_json t = JTime (stored_utc t)"

text \<open>\<open>_hash_payload\<close> and \<open>_hash_payload_v2\<close> before serialization.\<close>

definition payload_v1 :: "ledger_row \<Rightarrow> string option \<Rightarrow> json" where
  "payload_v1 entry previous_hash = JDict
     [(''account'', JStr (led_account entry)), (''direction'', JStr (led_direction entry)),
      (''amount'', JMoney (led_amount entry)),
      (''reference_type'', JStr (led_reference_type entry)),
      (''reference_id'', JStr (led_reference_id entry)),
      (''reversal_of_id'', opt_json JInt (led_reversal_of_id entry)),
      (''created_at'', stamp_json (led_created_at entry)),
      (''previous_hash'', opt_json JStr previous_hash)]"

definition payload_v2 :: "ledger_row \<Rightarrow> string option \<Rightarrow> date \<Rightarrow> json" where
  "payload_v2 entry previous_hash financial_date = JDict
     [(''account'', JStr (led_account entry)), (''direction'', JStr (led_direction entry)),
      (''amount'', JMoney (led_amount entry)),
      (''reference_type'', JStr (led_reference_type entry)),
      (''reference_id'', JStr (led_reference_id entry)),
      (''reversal_of_id'', opt_json JInt (led_reversal_of_id entry)),
      (''created_at'', stamp_json (led_created_at entry)),
      (''previous_hash'', opt_json JStr previous_hash),
      (''hash_version'', JInt 2),
      (''financial_date'', JDate financial_date)]"

definition expected_entry_hash ::
    "(json \<Rightarrow> string) \<Rightarrow> ledger_row \<Rightarrow> string option \<Rightarrow> string option \<times> string option" where
  "expected_entry_hash hash entry previous_hash =
     (if led_hash_version entry = None \<and> led_financial_date entry = None then
        (Some (hash (payload_v1 entry previous_hash)), None)
      else case (led_hash_version entry, led_financial_date entry) of
        (Some v, Some d) \<Rightarrow>
          if v = 2 then (Some (hash (payload_v2 entry previous_hash d)), None)
          else (None, Some ''unsupported_hash_version'')
      | (Some v, None) \<Rightarrow>
          if v \<noteq> 2 then (None, Some ''unsupported_hash_version'')
          else (None, Some ''invalid_hash_version_shape'')
      | (None, _) \<Rightarrow> (None, Some ''invalid_hash_version_shape''))"

section \<open>Posting\<close>

definition latest_entry :: "ledger_row list \<Rightarrow> ledger_row option" where
  "latest_entry rows = last_opt (sort_key led_id rows)"

text \<open>The checks both posting functions make first; a reversal must name an original that is no
  reversal itself, has none yet, and has the same amount.\<close>

definition check_posting :: "ledger_row list \<Rightarrow> string \<Rightarrow> cents \<Rightarrow> int option \<Rightarrow> unit res" where
  "check_posting rows direction amount reversal_of_id =
     (if amount \<le> 0 then Inl (ValueError ''amount deve ser positivo'')
      else if direction \<notin> {''DEBIT'', ''CREDIT''} then Inl (ValueError ''direction invalida'')
      else case reversal_of_id of None \<Rightarrow> Inr ()
        | Some i \<Rightarrow>
          (case get_by led_id i rows of
             None \<Rightarrow> Inl (ValueError ''Lancamento original nao encontrado'')
           | Some original \<Rightarrow>
               if led_reversal_of_id original \<noteq> None then
                 Inl (ValueError ''Nao e permitido reverter uma reversao'')
               else if list_ex (\<lambda>r. led_reversal_of_id r = Some i) rows then
                 Inl (ValueError ''Lancamento ja possui reversao'')
               else if amount \<noteq> led_amount original then
                 Inl (ValueError ''A reversao deve ter o mesmo valor do lancamento original'')
               else Inr ()))"

definition flush_entry :: "ledger_row \<Rightarrow> ledger_row list \<Rightarrow> (ledger_row \<times> ledger_row list) res" where
  "flush_entry entry rows =
     (if list_ex (\<lambda>r. led_entry_hash r = led_entry_hash entry) rows then
        Inl (IntegrityError ''ledger_entries.entry_hash'')
      else Inr (entry, rows @ [entry]))"

definition post_entry ::
    "(json \<Rightarrow> string) \<Rightarrow> instant \<Rightarrow> string \<Rightarrow> string \<Rightarrow> decimal \<Rightarrow> string \<Rightarrow> string \<Rightarrow> int option
      \<Rightarrow> ledger_row list \<Rightarrow> (ledger_row \<times> ledger_row list) res" where
  "post_entry hash now account direction amount0 reference_type reference_id reversal_of_id rows =
     (let amount = cents amount0
      in res_bind (check_posting rows direction amount reversal_of_id) (\<lambda>_.
         let previous_hash = Option.bind (latest_entry rows) led_entry_hash;
             entry = \<lparr>led_id = next_id led_id rows, led_account = account, led_direction = direction,
               led_amount = amount, led_reference_type = reference_type,
               led_reference_id = reference_id, led_reversal_of_id = reversal_of_id,
               led_previous_hash = previous_hash, led_entry_hash = None,
               led_created_at = Aware now, led_financial_date = None, led_hash_version = None\<rparr>
         in flush_entry (entry\<lparr>led_entry_hash := Some (hash (payload_v1 entry previous_hash))\<rparr>) rows))"

definition post_entry_v2 ::
    "(json \<Rightarrow> string) \<Rightarrow> instant \<Rightarrow> string \<Rightarrow> string \<Rightarrow> decimal \<Rightarrow> string \<Rightarrow> string \<Rightarrow> date \<Rightarrow> int option
      \<Rightarrow> ledger_row list \<Rightarrow> (ledger_row \<times> ledger_row list) res" where
  "post_entry_v2 hash now account direction amount0 reference_type reference_id financial_date
      reversal_of_id rows =
     (let amount = cents amount0
      in res_bind (check_posting rows direction amount reversal_of_id) (\<lambda>_.
         let previous_hash = Option.bind (latest_entry rows) led_entry_hash;
             entry = \<lparr>led_id = next_id led_id rows, led_account = account, led_direction = direction,
               led_amount = amount, led_reference_type = reference_type,
               led_reference_id = reference_id, led_reversal_of_id = reversal_of_id,
               led_previous_hash = previous_hash, led_entry_hash = None,
               led_created_at = Aware now, led_financial_date = Some financial_date,
               led_hash_version = Some 2\<rparr>
         in flush_entry
              (entry\<lparr>led_entry_hash := Some (hash (payload_v2 entry previous_hash financial_date))\<rparr>) rows))"

definition PAYMENT_COMPONENT_TYPES :: "string list" where
  "PAYMENT_COMPONENT_TYPES = [''LOAN_INTEREST_PAYMENT'', ''LOAN_PENALTY_PAYMENT'',
     ''LOAN_INSTALLMENT_PAYMENT'', ''AGREEMENT_INSTALLMENT_PAYMENT'']"

definition opposite :: "string \<Rightarrow> string" where
  "opposite direction = (if direction = ''DEBIT'' then ''CREDIT'' else ''DEBIT'')"

text \<open>\<open>settled\<close> are the payments with a settlement.\<close>

definition reverse_entry ::
    "(json \<Rightarrow> string) \<Rightarrow> instant \<Rightarrow> (int \<Rightarrow> bool) \<Rightarrow> ledger_row \<Rightarrow> string \<Rightarrow> ledger_row list
      \<Rightarrow> (ledger_row \<times> ledger_row list) res" where
  "reverse_entry hash now settled original reason rows =
     (if reason = [] \<or> length (py_strip reason) < 5 then
        Inl (ValueError ''Informe um motivo de reversao com pelo menos 5 caracteres'')
      else if led_reference_type original \<in> set PAYMENT_COMPONENT_TYPES
          \<and> isdigit (led_reference_id original) \<and> settled (py_int (led_reference_id original)) then
        Inl (ValueError ''Componente de pagamento deve ser revertido pelo PaymentReversal integral.'')
      else post_entry hash now (led_account original) (opposite (led_direction original))
             (dec (led_amount original)) ''REVERSAL'' (py_str (led_id original))
             (Some (led_id original)) rows)"

definition post_contribution_payment ::
    "(json \<Rightarrow> string) \<Rightarrow> instant \<Rightarrow> payment_row \<Rightarrow> cents option \<Rightarrow> ledger_row list
      \<Rightarrow> (payment_row \<times> ledger_row list) res" where
  "post_contribution_payment hash now payment amount rows =
     (if pay_ledger_posted_at payment \<noteq> None then Inr (payment, rows)
      else
        let ref = py_str (pay_id payment); posted = payment\<lparr>pay_ledger_posted_at := Some (Aware now)\<rparr>
        in if list_ex (\<lambda>r. led_reference_type r = ''CONTRIBUTION_PAYMENT'' \<and> led_reference_id r = ref) rows
           then Inr (posted, rows)
           else res_bind (post_entry hash now ''CAIXINHA'' ''CREDIT''
                  (dec (case amount of None \<Rightarrow> pay_amount payment | Some a \<Rightarrow> a))
                  ''CONTRIBUTION_PAYMENT'' ref None rows)
                (\<lambda>(_, rows'). Inr (posted, rows')))"

section \<open>Verification\<close>

record chain_acc =
  chn_previous :: "string option"
  chn_errors :: "(int \<times> string) list"

definition verify_step :: "(json \<Rightarrow> string) \<Rightarrow> ledger_row \<Rightarrow> chain_acc \<Rightarrow> chain_acc" where
  "verify_step hash entry acc =
     (let errors1 = (if led_previous_hash entry \<noteq> chn_previous acc
                     then [(led_id entry, ''previous_hash_mismatch'')] else []);
          (expected, shape_error) = expected_entry_hash hash entry (led_previous_hash entry);
          errors2 = (case shape_error of None \<Rightarrow> [] | Some e \<Rightarrow> [(led_id entry, e)]);
          errors3 = (if expected \<noteq> None \<and> led_entry_hash entry \<noteq> expected
                     then [(led_id entry, ''entry_hash_mismatch'')] else [])
      in \<lparr>chn_previous = led_entry_hash entry,
          chn_errors = chn_errors acc @ errors1 @ errors2 @ errors3\<rparr>)"

definition chain_errors :: "(json \<Rightarrow> string) \<Rightarrow> ledger_row list \<Rightarrow> (int \<times> string) list" where
  "chain_errors hash rows =
     chn_errors (fold (verify_step hash) (sort_key led_id rows) \<lparr>chn_previous = None, chn_errors = []\<rparr>)"

definition verify_ledger_chain ::
    "(json \<Rightarrow> string) \<Rightarrow> ledger_row list \<Rightarrow> string \<times> int \<times> (int \<times> string) list" where
  "verify_ledger_chain hash rows =
     (let errors = chain_errors hash rows
      in (if errors = [] then ''PASS'' else ''FAIL'', int (length rows), errors))"

section \<open>Periods\<close>

definition ledger_filter :: "string option \<Rightarrow> string list option \<Rightarrow> int list \<Rightarrow> ledger_row \<Rightarrow> bool" where
  "ledger_filter direction reference_types exclude_ids row \<longleftrightarrow>
     (case direction of None \<Rightarrow> True | Some d \<Rightarrow> led_direction row = d)
   \<and> (case reference_types of None \<Rightarrow> True | Some ts \<Rightarrow> led_reference_type row \<in> set ts)
   \<and> led_id row \<notin> set exclude_ids"

text \<open>Whether a row that passed the filters belongs to the period; the version decides
  between its timestamp and its civil date.\<close>

definition in_period :: "instant \<Rightarrow> instant \<Rightarrow> date \<Rightarrow> date \<Rightarrow> ledger_row \<Rightarrow> bool res" where
  "in_period start stop financial_start financial_stop row =
     (case led_hash_version row of
        None \<Rightarrow>
          if led_financial_date row \<noteq> None then Inl (ValueError ''Ledger V1 has financial_date'')
          else let created_at = stored_utc (led_created_at row)
               in Inr (start \<le> created_at \<and> created_at < stop)
      | Some v \<Rightarrow>
          if v = 2 then
            (case led_financial_date row of
               None \<Rightarrow> Inl (ValueError ''Ledger V2 has no financial_date'')
             | Some d \<Rightarrow> Inr (financial_start \<le> d \<and> d < financial_stop))
          else Inl (ValueError ''unknown Ledger hash version''))"

definition ledger_entries_for_financial_period ::
    "(json \<Rightarrow> string) \<Rightarrow> datetime \<Rightarrow> datetime \<Rightarrow> date \<Rightarrow> date \<Rightarrow> string option \<Rightarrow> string list option
      \<Rightarrow> int list \<Rightarrow> ledger_row list \<Rightarrow> ledger_row list res" where
  "ledger_entries_for_financial_period hash start stop financial_start financial_stop direction
      reference_types exclude_ids table =
     res_bind (utc_strict start ''ledger technical bounds must be timezone-aware'') (\<lambda>start.
     res_bind (utc_strict stop ''ledger technical bounds must be timezone-aware'') (\<lambda>stop.
     if financial_stop \<le> financial_start then Inl (ValueError ''ledger financial bounds must be increasing'')
     else if direction \<noteq> None \<and> direction \<notin> {Some ''DEBIT'', Some ''CREDIT''} then
       Inl (ValueError ''direction invalid'')
     else
       let rows = sort_key led_id table
       in if list_ex (\<lambda>r. led_hash_version r \<noteq> None \<or> led_financial_date r \<noteq> None) rows
            \<and> chain_errors hash table \<noteq> [] then Inl (ValueError ''invalid ledger chain'')
          else fold_res (\<lambda>row selected.
              if \<not> ledger_filter direction reference_types exclude_ids row then Inr selected
              else res_bind (in_period start stop financial_start financial_stop row)
                     (\<lambda>ok. Inr (if ok then selected @ [row] else selected)))
            rows []))"

end
