(* ===== verification/Ledger_Properties.thy ===== *)
theory Ledger_Properties
  imports Ledger
begin

text \<open>
  What the hash-chained ledger promises: a posting extends a verified chain, a verified chain
  determines its contents, a reversal cancels its original exactly once, and adjacent reporting
  periods partition the rows.
\<close>

section \<open>The chain\<close>

fun chain_from :: "(json \<Rightarrow> string) \<Rightarrow> string option \<Rightarrow> ledger_row list \<Rightarrow> bool" where
  "chain_from hash p [] \<longleftrightarrow> True"
| "chain_from hash p (r # rs) \<longleftrightarrow> led_previous_hash r = p
     \<and> fst (expected_entry_hash hash r p) = led_entry_hash r \<and> led_entry_hash r \<noteq> None
     \<and> chain_from hash (led_entry_hash r) rs"

definition last_hash :: "ledger_row list \<Rightarrow> string option" where
  "last_hash rows = Option.bind (last_opt rows) led_entry_hash"

lemma last_hash_simps [simp]: "last_hash [] = None" "last_hash (rs @ [r]) = led_entry_hash r"
  by (simp_all add: last_hash_def) (simp add: last_opt_def)

lemma chain_from_append:
  "chain_from hash p (rs @ [r]) \<longleftrightarrow> chain_from hash p rs
     \<and> chain_from hash (if rs = [] then p else last_hash rs) [r]"
proof (induction rs arbitrary: p)
  case (Cons x xs)
  show ?case
  proof (cases xs rule: rev_cases)
    case Nil
    then show ?thesis by (simp add: last_hash_def last_opt_def)
  next
    case (snoc ys y)
    then have "last_hash (x # xs) = last_hash xs" by (simp add: last_hash_def last_opt_def)
    with Cons snoc show ?thesis by auto
  qed
qed simp

lemma expected_shape:
  "snd (expected_entry_hash hash r p) = None \<longleftrightarrow> fst (expected_entry_hash hash r p) \<noteq> None"
  by (auto simp: expected_entry_hash_def split: option.splits)

lemma verify_step_errors:
  "chn_errors (verify_step hash r acc) = [] \<longleftrightarrow> chn_errors acc = [] \<and> led_previous_hash r = chn_previous acc
     \<and> fst (expected_entry_hash hash r (chn_previous acc)) = led_entry_hash r \<and> led_entry_hash r \<noteq> None"
  using expected_shape [of hash r "chn_previous acc"]
  by (auto simp: verify_step_def Let_def split: prod.splits option.splits if_splits)

lemma chn_previous_step [simp]: "chn_previous (verify_step hash r acc) = led_entry_hash r"
  by (simp add: verify_step_def Let_def split: prod.splits)

lemma verify_fold:
  "chn_errors (fold (verify_step hash) rows acc) = []
     \<longleftrightarrow> chn_errors acc = [] \<and> chain_from hash (chn_previous acc) rows"
  by (induction rows arbitrary: acc) (auto simp: verify_step_errors)

lemma chain_errors_iff: "chain_errors hash rows = [] \<longleftrightarrow> chain_from hash None (sort_key led_id rows)"
  by (simp add: chain_errors_def verify_fold)

text \<open>The one fact the postings share.\<close>

lemma flush_extends:
  assumes ok: "chain_errors hash rows = []" and id: "led_id e = next_id led_id rows"
    and prev: "led_previous_hash e = Option.bind (latest_entry rows) led_entry_hash"
    and h: "fst (expected_entry_hash hash e (led_previous_hash e)) = led_entry_hash e" "led_entry_hash e \<noteq> None"
  shows "chain_errors hash (rows @ [e]) = []"
proof -
  have s: "sort_key led_id (rows @ [e]) = sort_key led_id rows @ [e]"
    by (rule sort_key_snoc_max) (simp add: id next_id_fresh)
  have "(if sort_key led_id rows = [] then None else last_hash (sort_key led_id rows)) = led_previous_hash e"
    by (simp add: prev latest_entry_def last_hash_def last_opt_def)
  then have "chain_from hash (if sort_key led_id rows = [] then None else last_hash (sort_key led_id rows)) [e]"
    using h by simp
  with ok show ?thesis
    unfolding chain_errors_iff s chain_from_append by blast
qed

lemma post_entry_Inr:
  assumes "post_entry hash now account direction amount rt ri rv rows = Inr (e, rows')"
  shows "check_posting rows direction (cents amount) rv = Inr () \<and> rows' = rows @ [e]
    \<and> led_id e = next_id led_id rows \<and> led_account e = account \<and> led_direction e = direction
    \<and> led_amount e = cents amount \<and> led_reference_type e = rt \<and> led_reference_id e = ri
    \<and> led_reversal_of_id e = rv \<and> led_previous_hash e = Option.bind (latest_entry rows) led_entry_hash
    \<and> led_entry_hash e = fst (expected_entry_hash hash e (led_previous_hash e)) \<and> led_entry_hash e \<noteq> None
    \<and> led_created_at e = Aware now \<and> led_hash_version e = None \<and> led_financial_date e = None"
  using assms
  by (auto simp: post_entry_def flush_entry_def Let_def res_bind_eq_Inr expected_entry_hash_def payload_v1_def
      split: if_splits)

lemma post_entry_v2_Inr:
  assumes "post_entry_v2 hash now account direction amount rt ri fd rv rows = Inr (e, rows')"
  shows "check_posting rows direction (cents amount) rv = Inr () \<and> rows' = rows @ [e]
    \<and> led_id e = next_id led_id rows \<and> led_account e = account \<and> led_direction e = direction
    \<and> led_amount e = cents amount \<and> led_reference_type e = rt \<and> led_reference_id e = ri
    \<and> led_reversal_of_id e = rv \<and> led_previous_hash e = Option.bind (latest_entry rows) led_entry_hash
    \<and> led_entry_hash e = fst (expected_entry_hash hash e (led_previous_hash e)) \<and> led_entry_hash e \<noteq> None
    \<and> led_created_at e = Aware now \<and> led_hash_version e = Some 2 \<and> led_financial_date e = Some fd"
  using assms
  by (auto simp: post_entry_v2_def flush_entry_def Let_def res_bind_eq_Inr expected_entry_hash_def payload_v2_def
      split: if_splits)

text \<open>The two posting functions under one name, for the properties that hold of both.\<close>

definition posts ::
    "(json \<Rightarrow> string) \<Rightarrow> instant \<Rightarrow> ledger_row list \<Rightarrow> ledger_row \<Rightarrow> ledger_row list \<Rightarrow> bool" where
  "posts hash now rows e rows' \<longleftrightarrow> (\<exists>account direction amount rt ri rv fd.
     post_entry hash now account direction amount rt ri rv rows = Inr (e, rows')
     \<or> post_entry_v2 hash now account direction amount rt ri fd rv rows = Inr (e, rows'))"

lemma posts_intros:
  "post_entry hash now account direction amount rt ri rv rows = Inr (e, rows') \<Longrightarrow> posts hash now rows e rows'"
  "post_entry_v2 hash now account direction amount rt ri fd rv rows = Inr (e, rows') \<Longrightarrow> posts hash now rows e rows'"
  unfolding posts_def by blast+

lemma posts_chain:
  assumes "posts hash now rows e rows'" and "chain_errors hash rows = []"
  shows "chain_errors hash rows' = [] \<and> rows' = rows @ [e] \<and> 0 < led_amount e"
proof -
  have e: "rows' = rows @ [e]" "led_id e = next_id led_id rows" "0 < led_amount e"
    "led_previous_hash e = Option.bind (latest_entry rows) led_entry_hash"
    "fst (expected_entry_hash hash e (led_previous_hash e)) = led_entry_hash e" "led_entry_hash e \<noteq> None"
    using assms(1) by (auto simp: posts_def check_posting_def dest!: post_entry_Inr post_entry_v2_Inr split: if_splits)
  from e flush_extends [OF assms(2) e(2,4-6)] show ?thesis by simp
qed

text \<open>Both posting functions extend a verified ledger to a verified ledger, by one row
  with the largest id and the quantized positive amount, and change no earlier row.\<close>

theorem posting_keeps_chain:
  assumes "fst (verify_ledger_chain hash rows) = ''PASS''"
    and "post_entry hash now account direction amount rt ri rv rows = Inr (e, rows')
       \<or> post_entry_v2 hash now account direction amount rt ri fd rv rows = Inr (e, rows')"
  shows "fst (verify_ledger_chain hash rows') = ''PASS'' \<and> rows' = rows @ [e]
    \<and> led_amount e = cents amount \<and> 0 < led_amount e \<and> (\<forall>r\<in>set rows. led_id r < led_id e)"
proof -
  have "chain_errors hash rows = []"
    using assms(1) by (simp add: verify_ledger_chain_def Let_def split: if_splits)
  moreover have "posts hash now rows e rows'" using assms(2) by (auto intro: posts_intros)
  note posts_chain [OF this calculation]
  moreover have "led_amount e = cents amount" "led_id e = next_id led_id rows"
    using assms(2) by (auto dest!: post_entry_Inr post_entry_v2_Inr)
  ultimately show ?thesis
    by (auto simp: verify_ledger_chain_def Let_def next_id_fresh)
qed

section \<open>Tamper evidence\<close>

definition payload :: "ledger_row \<Rightarrow> json" where
  "payload r = (case led_financial_date r of
     None \<Rightarrow> payload_v1 r (led_previous_hash r) | Some d \<Rightarrow> payload_v2 r (led_previous_hash r) d)"

text \<open>Everything of a row but its id; the creation time as the instant it denotes.\<close>

definition ledger_content ::
    "ledger_row \<Rightarrow> (string \<times> string \<times> cents \<times> string \<times> string) \<times> int option \<times> instant
       \<times> date option \<times> int option \<times> string option \<times> string option" where
  "ledger_content r = ((led_account r, led_direction r, led_amount r, led_reference_type r, led_reference_id r),
     led_reversal_of_id r, stored_utc (led_created_at r), led_financial_date r, led_hash_version r,
     led_previous_hash r, led_entry_hash r)"

lemma chain_row:
  assumes "chain_from hash p [r]"
  shows "led_entry_hash r = Some (hash (payload r))" "led_previous_hash r = p"
    "led_hash_version r = (case led_financial_date r of None \<Rightarrow> None | Some _ \<Rightarrow> Some 2)"
  using assms by (auto simp: expected_entry_hash_def payload_def split: option.splits if_splits)

lemma opt_json_JStr_eq: "opt_json JStr x = opt_json JStr y \<longleftrightarrow> x = y"
  by (cases x; cases y) auto

lemma opt_json_JInt_eq: "opt_json JInt x = opt_json JInt y \<longleftrightarrow> x = y"
  by (cases x; cases y) auto

lemma payload_inj:
  assumes "payload r = payload s" "chain_from hash p [r]" "chain_from hash q [s]"
  shows "ledger_content r = ledger_content s"
  using assms(1) chain_row [OF assms(2)] chain_row [OF assms(3)]
  by (auto simp: payload_def payload_v1_def payload_v2_def ledger_content_def stamp_json_def
      opt_json_JStr_eq opt_json_JInt_eq split: option.splits)

lemma chain_determined:
  assumes "chain_from hash None rs" "chain_from hash None ss" "last_hash rs = last_hash ss"
    and "inj_on hash (payload ` (set rs \<union> set ss))"
  shows "map ledger_content rs = map ledger_content ss"
  using assms
proof (induction rs arbitrary: ss rule: rev_induct)
  case Nil
  show ?case
  proof (cases ss rule: rev_cases)
    case (snoc ys s)
    with Nil have "chain_from hash (if ys = [] then None else last_hash ys) [s]"
      by (simp only: chain_from_append)
    with Nil.prems(3) snoc show ?thesis by (simp split: if_splits)
  qed simp
next
  case (snoc r rs)
  define p where "p = (if rs = [] then None else last_hash rs)"
  have r: "chain_from hash None rs" "chain_from hash p [r]"
    using snoc.prems(1) unfolding chain_from_append p_def by auto
  have p: "p = last_hash rs" by (simp add: p_def)
  show ?case
  proof (cases ss rule: rev_cases)
    case Nil
    with snoc.prems(3) r(2) show ?thesis by simp
  next
    case (snoc ys s)
    define q where "q = (if ys = [] then None else last_hash ys)"
    have s: "chain_from hash None ys" "chain_from hash q [s]"
      using snoc.prems(2) unfolding snoc chain_from_append q_def by auto
    have q: "q = last_hash ys" by (simp add: q_def)
    have "hash (payload r) = hash (payload s)"
      using snoc.prems(3) chain_row(1) [OF r(2)] chain_row(1) [OF s(2)] by (simp add: snoc)
    then have "payload r = payload s" by (rule inj_onD [OF snoc.prems(4)]) (auto simp: snoc)
    then have c: "ledger_content r = ledger_content s" by (rule payload_inj [OF _ r(2) s(2)])
    then have "last_hash rs = last_hash ys"
      using chain_row(2) [OF r(2)] chain_row(2) [OF s(2)] by (simp add: ledger_content_def p q)
    with snoc.IH [OF r(1) s(1)] snoc.prems(4) c show ?thesis
      by (simp add: snoc inj_on_def)
  qed
qed

text \<open>C36. Tamper evidence: of two ledgers that both verify and end in the same hash, with
  no hash collision among their payloads, every row in id order agrees in account, direction, amount,
  references, reversal link, creation instant, financial date, version and hashes. So no such
  column of a verified ledger can be altered, and no row inserted or dropped, without changing
  the last hash.\<close>

theorem ledger_tamper_evident:
  assumes "fst (verify_ledger_chain hash rows) = ''PASS''" "fst (verify_ledger_chain hash rows2) = ''PASS''"
    and "Option.bind (latest_entry rows) led_entry_hash = Option.bind (latest_entry rows2) led_entry_hash"
    and "inj_on hash (payload ` (set rows \<union> set rows2))"
  shows "map ledger_content (sort_key led_id rows) = map ledger_content (sort_key led_id rows2)"
proof (rule chain_determined [of hash])
  show "chain_from hash None (sort_key led_id rows)" "chain_from hash None (sort_key led_id rows2)"
    using assms(1,2) by (simp_all add: verify_ledger_chain_def Let_def chain_errors_iff split: if_splits)
  show "last_hash (sort_key led_id rows) = last_hash (sort_key led_id rows2)"
    using assms(3) by (simp add: latest_entry_def last_hash_def)
  show "inj_on hash (payload ` (set (sort_key led_id rows) \<union> set (sort_key led_id rows2)))"
    using assms(4) by simp
qed

section \<open>Reversals\<close>

definition signed_amount :: "ledger_row \<Rightarrow> cents" where
  "signed_amount r = (if led_direction r = ''CREDIT'' then led_amount r else - led_amount r)"

definition ledger_balance :: "string \<Rightarrow> ledger_row list \<Rightarrow> cents" where
  "ledger_balance account rows = (\<Sum>r\<leftarrow>rows. if led_account r = account then signed_amount r else 0)"

lemma ledger_balance_append [simp]:
  "ledger_balance account (rows @ [e]) =
     ledger_balance account rows + (if led_account e = account then signed_amount e else 0)"
  by (simp add: ledger_balance_def)

lemma check_posting_Some:
  "check_posting rows direction amount (Some i) = Inr () \<longleftrightarrow>
     0 < amount \<and> direction \<in> {''DEBIT'', ''CREDIT''}
   \<and> (\<exists>original. get_by led_id i rows = Some original \<and> led_reversal_of_id original = None
        \<and> amount = led_amount original) \<and> \<not> list_ex (\<lambda>r. led_reversal_of_id r = Some i) rows"
  by (auto simp: check_posting_def split: option.splits if_splits)

text \<open>A reversal that succeeds posts the opposite direction and the same amount on the same
  account, so that each account balance is back to what it was without the original;
  afterwards neither the original nor the reversal can be reversed again, for any reason and
  at any time.\<close>

theorem reversal_cancels_once:
  assumes "reverse_entry hash now settled original reason rows = Inr (e, rows')"
    and "get_by led_id (led_id original) rows = Some original"
    and "led_direction original \<in> {''DEBIT'', ''CREDIT''}"
  shows "rows' = rows @ [e] \<and> led_reversal_of_id e = Some (led_id original)
    \<and> ledger_balance account rows' = ledger_balance account rows
        - (if led_account original = account then signed_amount original else 0)
    \<and> (\<forall>now2 settled2 reason2. (\<exists>m. reverse_entry hash now2 settled2 original reason2 rows' = Inl m)
        \<and> (\<exists>m. reverse_entry hash now2 settled2 e reason2 rows' = Inl m))"
proof -
  have p: "post_entry hash now (led_account original) (opposite (led_direction original))
      (dec (led_amount original)) ''REVERSAL'' (py_str (led_id original)) (Some (led_id original)) rows
      = Inr (e, rows')"
    using assms(1) by (simp add: reverse_entry_def split: if_splits)
  note e = post_entry_Inr [OF p]
  have link: "led_reversal_of_id e = Some (led_id original)" "rows' = rows @ [e]" using e by simp_all
  have bal: "signed_amount e = - signed_amount original" "led_account e = led_account original"
    using e assms(3) by (auto simp: signed_amount_def opposite_def)
  have no1: "check_posting rows' d a (Some (led_id original)) \<noteq> Inr ()" for d a
    using link by (auto simp: check_posting_Some)
  have "get_by led_id (led_id e) rows = None"
    using e next_id_fresh [of _ rows led_id] by (fastforce simp: get_by_None_iff)
  then have "get_by led_id (led_id e) rows' = Some e" using link by (simp add: get_by_append)
  then have no2: "check_posting rows' d a (Some (led_id e)) \<noteq> Inr ()" for d a
    using link by (auto simp: check_posting_Some)
  have fail: "\<exists>m. reverse_entry hash now2 settled2 x reason2 rows' = Inl m"
    if "\<And>d a. check_posting rows' d a (Some (led_id x)) \<noteq> Inr ()" for now2 settled2 x reason2
  proof (cases "reverse_entry hash now2 settled2 x reason2 rows'")
    case (Inr y)
    then obtain e2 rows2 where "post_entry hash now2 (led_account x) (opposite (led_direction x))
        (dec (led_amount x)) ''REVERSAL'' (py_str (led_id x)) (Some (led_id x)) rows' = Inr (e2, rows2)"
      by (cases y) (simp add: reverse_entry_def split: if_splits)
    with that post_entry_Inr [OF this] show ?thesis by simp
  qed simp
  show ?thesis
    using link bal fail [OF no1] fail [OF no2] by (simp add: link(2))
qed

section \<open>Periods\<close>

definition belongs :: "instant \<Rightarrow> instant \<Rightarrow> date \<Rightarrow> date \<Rightarrow> ledger_row \<Rightarrow> bool" where
  "belongs start stop fs fe row \<longleftrightarrow>
     (case led_financial_date row of
        None \<Rightarrow> start \<le> stored_utc (led_created_at row) \<and> stored_utc (led_created_at row) < stop
      | Some d \<Rightarrow> fs \<le> d \<and> d < fe)"

definition version_known :: "ledger_row \<Rightarrow> bool" where
  "version_known row \<longleftrightarrow> (led_hash_version row = None \<and> led_financial_date row = None)
     \<or> (led_hash_version row = Some 2 \<and> led_financial_date row \<noteq> None)"

lemma in_period_eq:
  "in_period start stop fs fe row = Inr b \<longleftrightarrow> version_known row \<and> b = belongs start stop fs fe row"
  by (auto simp: in_period_def version_known_def belongs_def Let_def split: option.splits if_splits)

lemma period_fold:
  "fold_res (\<lambda>row selected.
      if \<not> ledger_filter dir types excl row then Inr selected
      else res_bind (in_period start stop fs fe row) (\<lambda>ok. Inr (if ok then selected @ [row] else selected)))
     rows acc = Inr xs
   \<longleftrightarrow> (\<forall>r\<in>set rows. ledger_filter dir types excl r \<longrightarrow> version_known r)
     \<and> xs = acc @ filter (\<lambda>r. ledger_filter dir types excl r \<and> belongs start stop fs fe r) rows"
proof (induction rows arbitrary: acc)
  case (Cons r rows)
  show ?case
  proof (cases "ledger_filter dir types excl r \<and> version_known r")
    case True
    then have "in_period start stop fs fe r = Inr (belongs start stop fs fe r)"
      by (simp add: in_period_eq)
    with True Cons show ?thesis by auto
  next
    case False
    show ?thesis
    proof (cases "ledger_filter dir types excl r")
      case True
      with False have "\<And>b. in_period start stop fs fe r \<noteq> Inr b" by (simp add: in_period_eq)
      with True False show ?thesis by (auto simp: res_bind_eq_Inr)
    next
      case nf: False
      with Cons show ?thesis by simp
    qed
  qed
qed auto

lemma period_rows:
  "ledger_entries_for_financial_period hash (Aware start) (Aware stop) fs fe dir types excl table = Inr xs
   \<longleftrightarrow> fs < fe \<and> (dir = None \<or> dir = Some ''DEBIT'' \<or> dir = Some ''CREDIT'')
     \<and> (list_ex (\<lambda>r. led_hash_version r \<noteq> None \<or> led_financial_date r \<noteq> None) (sort_key led_id table)
          \<longrightarrow> chain_errors hash table = [])
     \<and> (\<forall>r\<in>set table. ledger_filter dir types excl r \<longrightarrow> version_known r)
     \<and> xs = filter (\<lambda>r. ledger_filter dir types excl r \<and> belongs start stop fs fe r) (sort_key led_id table)"
  unfolding ledger_entries_for_financial_period_def Let_def
  by (auto simp: period_fold not_le)

lemma filter_split_mset:
  assumes "\<And>x. x \<in> set xs \<Longrightarrow> P x \<longleftrightarrow> Q x \<or> R x" "\<And>x. x \<in> set xs \<Longrightarrow> \<not> (Q x \<and> R x)"
  shows "mset (filter P xs) = mset (filter Q xs) + mset (filter R xs)"
  using assms by (induction xs) auto

text \<open>Adjacent periods partition the ledger: the rows selected for \<open>[a, c)\<close> are those of
  \<open>[a, b)\<close> together with those of \<open>[b, c)\<close>, none twice and none lost, for rows dated by timestamp
  and rows dated by civil date alike.\<close>

theorem periods_partition:
  assumes "ledger_entries_for_financial_period hash (Aware a) (Aware c) fa fc dir types excl table = Inr xs"
    and "a \<le> b" "b \<le> c" "fa < fb" "fb < fc"
  shows "\<exists>ys zs. ledger_entries_for_financial_period hash (Aware a) (Aware b) fa fb dir types excl table = Inr ys
    \<and> ledger_entries_for_financial_period hash (Aware b) (Aware c) fb fc dir types excl table = Inr zs
    \<and> mset xs = mset ys + mset zs"
proof -
  have xs: "xs = filter (\<lambda>r. ledger_filter dir types excl r \<and> belongs a c fa fc r) (sort_key led_id table)"
    using assms(1) by (simp add: period_rows)
  have "mset xs = mset (filter (\<lambda>r. ledger_filter dir types excl r \<and> belongs a b fa fb r) (sort_key led_id table))
      + mset (filter (\<lambda>r. ledger_filter dir types excl r \<and> belongs b c fb fc r) (sort_key led_id table))"
    unfolding xs by (intro filter_split_mset) (use assms(2-) in \<open>auto simp: belongs_def split: option.splits\<close>)
  with assms show ?thesis by (auto simp: period_rows)
qed

section \<open>Witnesses\<close>

text \<open>A ledger with one verified row, under a hash that counts the links of the chain.\<close>

fun demo_hash :: "json \<Rightarrow> string" where
  "demo_hash (JDict entries) =
     (case map_of entries ''previous_hash'' of Some (JStr p) \<Rightarrow> CHR ''x'' # p | _ \<Rightarrow> ''y'')"
| "demo_hash _ = []"

definition demo_ledger_row :: ledger_row where
  "demo_ledger_row = \<lparr>led_id = 1, led_account = ''CAIXINHA'', led_direction = ''CREDIT'', led_amount = 15000,
     led_reference_type = ''CONTRIBUTION_PAYMENT'', led_reference_id = ''7'', led_reversal_of_id = None,
     led_previous_hash = None, led_entry_hash = Some ''y'', led_created_at = Aware 0,
     led_financial_date = None, led_hash_version = None\<rparr>"

lemma demo_ledger_ok: "chain_errors demo_hash [demo_ledger_row] = []"
  by (simp add: chain_errors_iff demo_ledger_row_def expected_entry_hash_def payload_v1_def)

theorem posting_keeps_chain_witness:
  "\<exists>e rows'. post_entry demo_hash 9 ''CAIXINHA'' ''DEBIT'' (dec 5000) ''LOAN_DISBURSEMENT'' ''3'' None
      [demo_ledger_row] = Inr (e, rows') \<and> fst (verify_ledger_chain demo_hash rows') = ''PASS''"
proof -
  have "\<exists>e rows'. post_entry demo_hash 9 ''CAIXINHA'' ''DEBIT'' (dec 5000) ''LOAN_DISBURSEMENT'' ''3'' None
      [demo_ledger_row] = Inr (e, rows')"
    by (simp add: post_entry_def check_posting_def flush_entry_def latest_entry_def demo_ledger_row_def
        last_opt_def payload_v1_def Let_def)
  then obtain e rows' where p: "post_entry demo_hash 9 ''CAIXINHA'' ''DEBIT'' (dec 5000) ''LOAN_DISBURSEMENT'' ''3''
      None [demo_ledger_row] = Inr (e, rows')" by blast
  have "fst (verify_ledger_chain demo_hash [demo_ledger_row]) = ''PASS''"
    by (simp add: verify_ledger_chain_def demo_ledger_ok)
  from posting_keeps_chain [OF this disjI1 [OF p]] p show ?thesis by blast
qed

theorem ledger_tamper_evident_witness:
  "map ledger_content (sort_key led_id [demo_ledger_row])
     = map ledger_content (sort_key led_id [demo_ledger_row\<lparr>led_id := 5\<rparr>])"
proof (rule ledger_tamper_evident [of demo_hash])
  show "fst (verify_ledger_chain demo_hash [demo_ledger_row]) = ''PASS''"
    by (simp add: verify_ledger_chain_def demo_ledger_ok)
  show "fst (verify_ledger_chain demo_hash [demo_ledger_row\<lparr>led_id := 5\<rparr>]) = ''PASS''"
    by (simp add: verify_ledger_chain_def chain_errors_iff demo_ledger_row_def expected_entry_hash_def payload_v1_def)
  show "Option.bind (latest_entry [demo_ledger_row]) led_entry_hash
      = Option.bind (latest_entry [demo_ledger_row\<lparr>led_id := 5\<rparr>]) led_entry_hash"
    by (simp add: latest_entry_def last_opt_def)
  have "payload (demo_ledger_row\<lparr>led_id := 5\<rparr>) = payload demo_ledger_row"
    by (simp add: payload_def demo_ledger_row_def payload_v1_def)
  then show "inj_on demo_hash (payload ` (set [demo_ledger_row] \<union> set [demo_ledger_row\<lparr>led_id := 5\<rparr>]))"
    by (auto simp: inj_on_def)
qed

theorem reversal_cancels_once_witness:
  "\<exists>e rows'. reverse_entry demo_hash 9 (\<lambda>_. False) demo_ledger_row ''mistake'' [demo_ledger_row] = Inr (e, rows')
     \<and> ledger_balance ''CAIXINHA'' rows' = 0"
proof -
  have s: "\<not> length (py_strip ''mistake'') < 5" by code_simp
  have "\<exists>e rows'. reverse_entry demo_hash 9 (\<lambda>_. False) demo_ledger_row ''mistake'' [demo_ledger_row] = Inr (e, rows')"
    using s by (simp add: reverse_entry_def post_entry_def check_posting_def flush_entry_def latest_entry_def
        demo_ledger_row_def last_opt_def payload_v1_def opposite_def Let_def PAYMENT_COMPONENT_TYPES_def)
  then obtain e rows' where r: "reverse_entry demo_hash 9 (\<lambda>_. False) demo_ledger_row ''mistake'' [demo_ledger_row]
      = Inr (e, rows')" by blast
  from reversal_cancels_once [OF r, of "''CAIXINHA''"] r show ?thesis
    by (auto simp: demo_ledger_row_def ledger_balance_def)
qed

theorem periods_partition_witness:
  "\<exists>ys zs. ledger_entries_for_financial_period demo_hash (Aware (- 5)) (Aware 0) 1 2 None None [] [demo_ledger_row] = Inr ys
    \<and> ledger_entries_for_financial_period demo_hash (Aware 0) (Aware 5) 2 3 None None [] [demo_ledger_row] = Inr zs
    \<and> mset [demo_ledger_row] = mset ys + mset zs"
proof (rule periods_partition)
  show "ledger_entries_for_financial_period demo_hash (Aware (- 5)) (Aware 5) 1 3 None None [] [demo_ledger_row]
      = Inr [demo_ledger_row]"
    by (simp add: period_rows ledger_filter_def version_known_def belongs_def demo_ledger_row_def)
qed simp_all

end
