(* ===== verification/Member_Financial.thy ===== *)
theory Member_Financial
  imports Models
begin

text \<open>
  A member's own financial account, \<open>services/member_financial.py\<close>: obtaining the account
  under the member's lock, posting entries, and the position computed from them. Sums of cents are
  exact; \<open>quantize\<close> without a rounding mode is half-even.
\<close>

section \<open>Operations\<close>

definition cents_even :: "decimal \<Rightarrow> cents" where
  "cents_even x = round_half_even (x * 100)"

lemma cents_even_dec [simp, cents_simps]: "cents_even (dec c) = c"
  by (simp add: cents_even_def dec_def)

text \<open>\<open>Member -> Account\<close>, creating the account when the member has none.\<close>

definition lock_member_financial_account ::
    "int \<Rightarrow> 'a books_scheme \<Rightarrow> (member_row \<times> account_row \<times> 'a books_scheme) res" where
  "lock_member_financial_account member_id db =
     (case get_by mem_id member_id (db_members db) of
        None \<Rightarrow> Inl (ValueError ''Participante nao encontrado.'')
      | Some locked_member \<Rightarrow>
          (case find (\<lambda>a. acc_member_id a = mem_id locked_member) (db_accounts db) of
             Some account \<Rightarrow> Inr (locked_member, account, db)
           | None \<Rightarrow>
               let account = \<lparr>acc_id = next_id acc_id (db_accounts db), acc_member_id = mem_id locked_member\<rparr>
               in Inr (locked_member, account, db\<lparr>db_accounts := db_accounts db @ [account]\<rparr>)))"

definition get_or_create_member_financial_account ::
    "member_row \<Rightarrow> 'a books_scheme \<Rightarrow> (account_row \<times> 'a books_scheme) res" where
  "get_or_create_member_financial_account member db =
     res_bind (lock_member_financial_account (mem_id member) db) (\<lambda>(_, account, db'). Inr (account, db'))"

record entry_request =
  rq_entry_type :: string
  rq_direction :: string
  rq_amount :: decimal
  rq_reference_type :: "string option"
  rq_reference_id :: "string option"
  rq_account :: "account_row option"
  rq_contribution_id :: "int option"
  rq_settlement_id :: "int option"

definition add_member_financial_entry ::
    "instant \<Rightarrow> member_row \<Rightarrow> entry_request \<Rightarrow> 'a books_scheme \<Rightarrow> (member_entry_row \<times> 'a books_scheme) res" where
  "add_member_financial_entry now member rq db =
     (let amount = cents_even (rq_amount rq)
      in if amount \<le> 0 then Inl (ValueError ''O valor do lancamento deve ser maior que zero.'')
         else if rq_direction rq \<notin> {''CREDIT'', ''DEBIT''} then
           Inl (ValueError ''direction deve ser CREDIT ou DEBIT.'')
         else res_bind (case rq_account rq of Some a \<Rightarrow> Inr (a, db)
                | None \<Rightarrow> get_or_create_member_financial_account member db) (\<lambda>(account, db').
           let entry = \<lparr>ent_id = next_id ent_id (db_entries db'), ent_account_id = acc_id account,
                 ent_entry_type = rq_entry_type rq, ent_direction = rq_direction rq, ent_amount = amount,
                 ent_reference_type = rq_reference_type rq, ent_reference_id = rq_reference_id rq,
                 ent_created_at = Aware now, ent_contribution_id = rq_contribution_id rq,
                 ent_settlement_id = rq_settlement_id rq, ent_reversal_id = None\<rparr>
           in Inr (entry, db'\<lparr>db_entries := db_entries db' @ [entry]\<rparr>)))"

record position =
  ps_own_balance :: cents
  ps_committed_balance :: cents
  ps_available_balance :: cents

definition position_step :: "member_entry_row \<Rightarrow> cents \<times> cents \<Rightarrow> cents \<times> cents" where
  "position_step entry balances =
     (let (own, committed) = balances; amount = ent_amount entry; kind = ent_entry_type entry
      in if ent_direction entry = ''CREDIT'' then
           (if kind \<in> {''CONTRIBUTION'', ''LOAN_PRINCIPAL_PAYMENT'', ''ADJUSTMENT''} then own + amount else own,
            if kind = ''LOAN_PRINCIPAL_PAYMENT'' then max 0 (committed - amount)
            else if kind = ''LOAN_PRINCIPAL_COMMITMENT'' then committed + amount else committed)
         else if ent_direction entry = ''DEBIT'' then
           if kind \<in> {''OWN_BALANCE_RENEGOTIATION'', ''OWN_BALANCE_SETTLEMENT'', ''CONTRIBUTION_REVERSAL''} then
             (max 0 (own - amount), max 0 (committed - amount))
           else if kind = ''LOAN_PRINCIPAL_REVERSAL'' then (own - amount, committed + amount)
           else (own, committed)
         else (own, committed))"

definition balances_of :: "member_entry_row list \<Rightarrow> cents \<times> cents" where
  "balances_of entries = fold position_step entries (0, 0)"

definition calculate_member_financial_position :: "member_entry_row list \<Rightarrow> position" where
  "calculate_member_financial_position entries =
     (let (own_balance, committed_balance) = balances_of entries
      in \<lparr>ps_own_balance = own_balance, ps_committed_balance = committed_balance,
          ps_available_balance = max 0 (own_balance - committed_balance)\<rparr>)"

definition get_member_financial_position :: "member_row \<Rightarrow> 'a books_scheme \<Rightarrow> position" where
  "get_member_financial_position member db =
     (case find (\<lambda>a. acc_member_id a = mem_id member) (db_accounts db) of
        None \<Rightarrow> \<lparr>ps_own_balance = 0, ps_committed_balance = 0, ps_available_balance = 0\<rparr>
      | Some account \<Rightarrow> calculate_member_financial_position
          (sort_key ent_id (filter (\<lambda>e. ent_account_id e = acc_id account) (db_entries db))))"

section \<open>Facts\<close>

lemma balances_snoc [simp]: "balances_of (entries @ [e]) = position_step e (balances_of entries)"
  by (simp add: balances_of_def)

lemma balances_append: "balances_of (xs @ ys) = fold position_step ys (balances_of xs)"
  by (simp add: balances_of_def)

lemma committed_nonneg:
  assumes "\<And>e. e \<in> set entries \<Longrightarrow> 0 \<le> ent_amount e"
  shows "0 \<le> snd (balances_of entries)"
  using assms
  by (induction entries rule: rev_induct) (auto simp: balances_of_def position_step_def Let_def split: prod.splits)

lemma own_nonneg:
  assumes "\<And>e. e \<in> set entries \<Longrightarrow> 0 \<le> ent_amount e"
    and "\<And>e. e \<in> set entries \<Longrightarrow> ent_entry_type e \<noteq> ''LOAN_PRINCIPAL_REVERSAL''"
  shows "0 \<le> fst (balances_of entries)"
  using assms
  by (induction entries rule: rev_induct) (auto simp: balances_of_def position_step_def Let_def split: prod.splits)

lemma add_entry_Inr:
  assumes "add_member_financial_entry now member rq db = Inr (e, db')"
  shows "0 < ent_amount e \<and> ent_amount e = cents_even (rq_amount rq) \<and> ent_direction e = rq_direction rq
    \<and> ent_direction e \<in> {''CREDIT'', ''DEBIT''} \<and> ent_entry_type e = rq_entry_type rq
    \<and> ent_id e = next_id ent_id (db_entries db) \<and> db_entries db' = db_entries db @ [e]
    \<and> db_ledger db' = db_ledger db \<and> db_members db' = db_members db \<and> db_audit db' = db_audit db
    \<and> (\<forall>a. rq_account rq = Some a \<longrightarrow> ent_account_id e = acc_id a \<and> db' = db\<lparr>db_entries := db_entries db @ [e]\<rparr>)"
  using assms
  by (auto simp: add_member_financial_entry_def Let_def res_bind_eq_Inr get_or_create_member_financial_account_def
      lock_member_financial_account_def split: if_splits option.splits)

lemma lock_account_again:
  assumes "lock_member_financial_account i db = Inr (m, a, db1)"
    and "db_members db2 = db_members db1" "db_accounts db2 = db_accounts db1"
  shows "lock_member_financial_account i db2 = Inr (m, a, db2)"
  using assms
  by (auto simp: lock_member_financial_account_def find_append Let_def split: option.splits)

lemma lock_account_effect:
  assumes "lock_member_financial_account i db = Inr (m, a, db1)"
  shows "db1 = db\<lparr>db_accounts := db_accounts db1\<rparr> \<and> acc_member_id a = i \<and> mem_id m = i
    \<and> find (\<lambda>x. acc_member_id x = i) (db_accounts db1) = Some a"
  using assms
  by (auto simp: lock_member_financial_account_def find_append Let_def dest: get_by_Some_mem find_Some_prop
      split: option.splits)

text \<open>The position after an entry posted on the locked account.\<close>

lemma position_after_entry:
  assumes "lock_member_financial_account i db0 = Inr (m, a, db)"
    and "add_member_financial_entry now m rq db = Inr (e, db')" and "rq_account rq = Some a"
  shows "\<exists>own committed. get_member_financial_position m db =
        \<lparr>ps_own_balance = own, ps_committed_balance = committed, ps_available_balance = max 0 (own - committed)\<rparr>
    \<and> get_member_financial_position m db' = (let (own', committed') = position_step e (own, committed) in
        \<lparr>ps_own_balance = own', ps_committed_balance = committed', ps_available_balance = max 0 (own' - committed')\<rparr>)"
proof -
  have a: "find (\<lambda>x. acc_member_id x = mem_id m) (db_accounts db) = Some a"
    using lock_account_effect [OF assms(1)] by simp
  have e: "db' = db\<lparr>db_entries := db_entries db @ [e]\<rparr>" "ent_account_id e = acc_id a" "ent_id e = next_id ent_id (db_entries db)"
    using add_entry_Inr [OF assms(2)] assms(3) by auto
  let ?own = "\<lambda>xs. sort_key ent_id (filter (\<lambda>x. ent_account_id x = acc_id a) xs)"
  have "?own (db_entries db') = ?own (db_entries db) @ [e]"
    using sort_key_snoc_max [of "filter (\<lambda>x. ent_account_id x = acc_id a) (db_entries db)" ent_id e]
    by (simp add: e next_id_fresh)
  moreover have "db_accounts db' = db_accounts db" by (simp add: e(1))
  ultimately show ?thesis
    by (cases "balances_of (?own (db_entries db))")
      (auto simp: get_member_financial_position_def a calculate_member_financial_position_def split: prod.splits)
qed

section \<open>Properties\<close>

text \<open>One account per member: locking succeeds exactly when the member exists, returns that
  member and its account, creates the account only when there was none, and locking again
  finds the same account and changes nothing.\<close>

theorem lock_account_idempotent:
  assumes "lock_member_financial_account i db = Inr (m, a, db')"
  shows "get_by mem_id i (db_members db) = Some m \<and> acc_member_id a = i
    \<and> lock_member_financial_account i db' = Inr (m, a, db')
    \<and> filter (\<lambda>x. acc_member_id x = i) (db_accounts db') =
        (if filter (\<lambda>x. acc_member_id x = i) (db_accounts db) = [] then [a]
         else filter (\<lambda>x. acc_member_id x = i) (db_accounts db))"
proof -
  from assms obtain m' where m': "get_by mem_id i (db_members db) = Some m'"
    by (auto simp: lock_member_financial_account_def split: option.splits)
  then have i: "mem_id m' = i" by (auto dest: get_by_Some_mem)
  show ?thesis
  proof (cases "find (\<lambda>a. acc_member_id a = i) (db_accounts db)")
    case None
    with assms m' i have "m = m'" "a = \<lparr>acc_id = next_id acc_id (db_accounts db), acc_member_id = i\<rparr>"
      "db' = db\<lparr>db_accounts := db_accounts db @ [a]\<rparr>"
      by (auto simp: lock_member_financial_account_def Let_def)
    moreover from this None have "find (\<lambda>x. acc_member_id x = i) (db_accounts db') = Some a"
      by (simp add: find_append)
    moreover have "filter (\<lambda>x. acc_member_id x = i) (db_accounts db) = []"
      using None by (simp add: find_None_iff filter_empty_conv)
    ultimately show ?thesis using m' i by (simp add: lock_member_financial_account_def)
  next
    case (Some x)
    with assms m' i have "m = m'" "a = x" "db' = db"
      by (auto simp: lock_member_financial_account_def)
    moreover have "acc_member_id x = i" "filter (\<lambda>x. acc_member_id x = i) (db_accounts db) \<noteq> []"
      using Some by (auto simp: find_Some_iff filter_empty_conv)
    ultimately show ?thesis using Some m' i by (simp add: lock_member_financial_account_def)
  qed
qed

text \<open>The position: the committed balance is never negative, the own balance is not
  negative unless principal was reversed, the available balance is what is left of the own
  balance after the commitment, never negative and never more than the own balance when that is not negative.\<close>

theorem position_bounds:
  assumes "\<forall>e\<in>set entries. 0 \<le> ent_amount e"
  shows "let p = calculate_member_financial_position entries
    in 0 \<le> ps_committed_balance p \<and> 0 \<le> ps_available_balance p
     \<and> ps_available_balance p = max 0 (ps_own_balance p - ps_committed_balance p)
     \<and> ((\<forall>e\<in>set entries. ent_entry_type e \<noteq> ''LOAN_PRINCIPAL_REVERSAL'') \<longrightarrow>
          0 \<le> ps_own_balance p \<and> ps_available_balance p \<le> ps_own_balance p)"
  using committed_nonneg [of entries] own_nonneg [of entries] assms
  by (auto simp: calculate_member_financial_position_def Let_def split: prod.splits)

definition principal_payment_pair :: "member_entry_row \<Rightarrow> member_entry_row \<Rightarrow> bool" where
  "principal_payment_pair e r \<longleftrightarrow> ent_entry_type e = ''LOAN_PRINCIPAL_PAYMENT'' \<and> ent_direction e = ''CREDIT''
     \<and> ent_entry_type r = ''LOAN_PRINCIPAL_REVERSAL'' \<and> ent_direction r = ''DEBIT'' \<and> ent_amount r = ent_amount e"

text \<open>A principal payment moves its amount from the commitment to the own balance, and the
  entry that reverses it restores the whole position, when the commitment covered the payment.\<close>

theorem principal_reversal_restores:
  assumes "principal_payment_pair e r"
    and "ent_amount e \<le> ps_committed_balance (calculate_member_financial_position entries)"
  shows "calculate_member_financial_position (entries @ [e, r]) = calculate_member_financial_position entries
    \<and> ps_own_balance (calculate_member_financial_position (entries @ [e])) =
        ps_own_balance (calculate_member_financial_position entries) + ent_amount e
    \<and> ps_committed_balance (calculate_member_financial_position (entries @ [e])) =
        ps_committed_balance (calculate_member_financial_position entries) - ent_amount e"
  using assms
  by (auto simp: calculate_member_financial_position_def balances_append balances_snoc position_step_def
      principal_payment_pair_def Let_def max_def split: prod.splits)

definition entry_of :: "string \<Rightarrow> string \<Rightarrow> cents \<Rightarrow> member_entry_row" where
  "entry_of kind direction amount = \<lparr>ent_id = 0, ent_account_id = 0, ent_entry_type = kind,
     ent_direction = direction, ent_amount = amount, ent_reference_type = None, ent_reference_id = None,
     ent_created_at = Aware 0, ent_contribution_id = None, ent_settlement_id = None, ent_reversal_id = None\<rparr>"

text \<open>Reversing a contribution also takes its amount off the commitment of a loan: a member
  who contributed 100, committed 100 to a loan, had the contribution reversed and paid it again has 100
  available although the loan's commitment was never repaid.\<close>

theorem contribution_reversal_frees_commitment:
  "ps_available_balance (calculate_member_financial_position
     [entry_of ''CONTRIBUTION'' ''CREDIT'' 10000, entry_of ''LOAN_PRINCIPAL_COMMITMENT'' ''CREDIT'' 10000,
      entry_of ''CONTRIBUTION_REVERSAL'' ''DEBIT'' 10000, entry_of ''CONTRIBUTION'' ''CREDIT'' 10000]) = 10000
   \<and> ps_available_balance (calculate_member_financial_position
     [entry_of ''CONTRIBUTION'' ''CREDIT'' 10000, entry_of ''LOAN_PRINCIPAL_COMMITMENT'' ''CREDIT'' 10000]) = 0"
  by (simp add: calculate_member_financial_position_def balances_of_def position_step_def entry_of_def)

section \<open>Witnesses\<close>

definition demo_books :: books where
  "demo_books = \<lparr>db_ledger = [], db_accounts = [], db_entries = [],
     db_members = [\<lparr>mem_id = 4, mem_user_id = 9, mem_group_id = 1, mem_status = ''ACTIVE''\<rparr>], db_audit = [], db_notifications = []\<rparr>"

theorem lock_account_idempotent_witness:
  "\<exists>m a db'. lock_member_financial_account 4 demo_books = Inr (m, a, db')
     \<and> lock_member_financial_account 4 db' = Inr (m, a, db')"
proof -
  obtain m a db' where l: "lock_member_financial_account 4 demo_books = Inr (m, a, db')"
    by (simp add: lock_member_financial_account_def demo_books_def Let_def)
  with lock_account_idempotent [OF l] show ?thesis by blast
qed

theorem position_bounds_witness:
  "ps_available_balance (calculate_member_financial_position [entry_of ''CONTRIBUTION'' ''CREDIT'' 10000])
     \<le> ps_own_balance (calculate_member_financial_position [entry_of ''CONTRIBUTION'' ''CREDIT'' 10000])"
  using position_bounds [of "[entry_of ''CONTRIBUTION'' ''CREDIT'' 10000]"]
  by (simp add: Let_def entry_of_def)

theorem principal_reversal_restores_witness:
  "calculate_member_financial_position
     ([entry_of ''LOAN_PRINCIPAL_COMMITMENT'' ''CREDIT'' 10000] @
      [entry_of ''LOAN_PRINCIPAL_PAYMENT'' ''CREDIT'' 4000, entry_of ''LOAN_PRINCIPAL_REVERSAL'' ''DEBIT'' 4000])
   = calculate_member_financial_position [entry_of ''LOAN_PRINCIPAL_COMMITMENT'' ''CREDIT'' 10000]"
  by (rule principal_reversal_restores [THEN conjunct1])
    (simp_all add: principal_payment_pair_def entry_of_def calculate_member_financial_position_def
      balances_of_def position_step_def)

end
