(* ===== verification/Late_Charge.thy ===== *)
theory Late_Charge
  imports Models
begin

text \<open>
  The pure charge rules: daily simple late interest and the fixed penalty of a loan installment
  (\<open>services/late_charge_v1.py\<close>) and of a contribution (\<open>services/contribution_charge_v1.py\<close>),
  computed in the default 28-digit decimal context, and the financial civil date.
\<close>

section \<open>The financial civil date\<close>

datatype moment = Civil date | Stamp datetime

fun financial_civil_date :: "moment \<Rightarrow> date res" where
  "financial_civil_date (Civil d) = Inr d"
| "financial_civil_date (Stamp (Aware t)) = Inr (belem_date t)"
| "financial_civil_date (Stamp (Naive t)) = Inl (ValueError ''datetime deve ser timezone-aware'')"

text \<open>\<open>_stored_financial_date\<close>: a stored timestamp without its zone is UTC.\<close>

definition stored_financial_date :: "datetime \<Rightarrow> date" where
  "stored_financial_date t = belem_date (stored_utc t)"

section \<open>Loan installments\<close>

definition DAILY_LATE_INTEREST_RATE :: decimal where
  "DAILY_LATE_INTEREST_RATE = ctx 28 (20 / 100 / 30)"

definition FIXED_PENALTY_AMOUNT :: cents where "FIXED_PENALTY_AMOUNT = 1000"

definition calculate_fixed_penalty :: "bool \<Rightarrow> cents" where
  "calculate_fixed_penalty already_assessed = (if already_assessed then 0 else FIXED_PENALTY_AMOUNT)"

record principal_segment =
  sg_principal :: decimal
  sg_days :: int

definition validate_segment :: "principal_segment \<Rightarrow> (decimal \<times> int) res" where
  "validate_segment segment =
     (if sg_principal segment < 0 then Inl (ValueError ''principal nao pode ser negativo'')
      else if sg_days segment < 0 then Inl (ValueError ''days nao pode ser negativo'')
      else Inr (sg_principal segment, sg_days segment))"

definition late_interest_step :: "principal_segment \<Rightarrow> decimal \<Rightarrow> decimal res" where
  "late_interest_step segment exact_total =
     res_bind (validate_segment segment) (\<lambda>(princ, days).
       Inr (dadd 28 exact_total (dmul 28 (dmul 28 princ (of_int days)) DAILY_LATE_INTEREST_RATE)))"

definition calculate_late_interest :: "principal_segment list \<Rightarrow> cents res" where
  "calculate_late_interest segments =
     res_bind (fold_res late_interest_step segments 0) (\<lambda>exact_total. Inr (cents exact_total))"

definition is_late_charge_eligible :: "date \<Rightarrow> date option \<Rightarrow> bool" where
  "is_late_charge_eligible due_date effective_date =
     (case effective_date of None \<Rightarrow> False | Some d \<Rightarrow> d \<le> due_date)"

section \<open>Facts\<close>

lemma financial_civil_date_Aware: "financial_civil_date (Stamp (Aware t)) = Inr (stored_financial_date (Aware t))"
  by (simp add: stored_financial_date_def)

lemma rate_pos: "0 < DAILY_LATE_INTEREST_RATE"
  by (simp add: DAILY_LATE_INTEREST_RATE_def ctx_pos)

definition segment_ok :: "principal_segment \<Rightarrow> bool" where
  "segment_ok s \<longleftrightarrow> 0 \<le> sg_principal s \<and> 0 \<le> sg_days s"

definition segment_interest :: "principal_segment \<Rightarrow> decimal" where
  "segment_interest s = dmul 28 (dmul 28 (sg_principal s) (of_int (sg_days s))) DAILY_LATE_INTEREST_RATE"

definition late_total :: "principal_segment list \<Rightarrow> decimal" where
  "late_total segments = fold (\<lambda>s t. dadd 28 t (segment_interest s)) segments 0"

lemma segment_interest_nonneg: "segment_ok s \<Longrightarrow> 0 \<le> segment_interest s"
  using rate_pos by (simp add: segment_interest_def segment_ok_def dmul_def ctx_nonneg)

lemma late_fold:
  "list_all segment_ok segments \<Longrightarrow>
    fold_res late_interest_step segments t = Inr (fold (\<lambda>s t. dadd 28 t (segment_interest s)) segments t)"
  by (induction segments arbitrary: t)
    (auto simp: late_interest_step_def validate_segment_def segment_ok_def segment_interest_def not_less)

lemma calculate_late_interest_eq:
  "list_all segment_ok segments \<Longrightarrow> calculate_late_interest segments = Inr (cents (late_total segments))"
  by (simp add: calculate_late_interest_def late_fold late_total_def)

lemma late_total_Nil [simp]: "late_total [] = 0"
  by (simp add: late_total_def)

lemma late_total_snoc: "late_total (segments @ [s]) = ctx 28 (late_total segments + segment_interest s)"
  by (simp add: late_total_def dadd_def)

lemma late_total_ctx: "ctx 28 (late_total segments) = late_total segments"
  by (cases segments rule: rev_cases) (simp_all add: late_total_snoc ctx_idem)

lemma late_total_mono:
  assumes "segment_ok s"
  shows "late_total segments \<le> late_total (segments @ [s])"
proof -
  have "ctx 28 (late_total segments) \<le> ctx 28 (late_total segments + segment_interest s)"
    using segment_interest_nonneg [OF assms] by (intro ctx_mono) simp_all
  then show ?thesis by (simp add: late_total_snoc late_total_ctx)
qed

lemma late_total_nonneg: "list_all segment_ok segments \<Longrightarrow> 0 \<le> late_total segments"
proof (induction segments rule: rev_induct)
  case (snoc s segments)
  then have "late_total segments \<le> late_total (segments @ [s])" by (intro late_total_mono) simp
  with snoc show ?case by simp
qed simp

text \<open>Late interest never decreases as days pass: on valid segments it is defined, not
  negative, and appending a further segment never lowers it, whatever the roundings of the
  decimal context.\<close>

theorem late_interest_monotone:
  assumes "list_all segment_ok segments" "segment_ok s"
  shows "\<exists>a b. calculate_late_interest segments = Inr a \<and> calculate_late_interest (segments @ [s]) = Inr b
    \<and> 0 \<le> a \<and> a \<le> b"
  using assms late_total_mono [of s segments] late_total_nonneg [of segments]
  by (simp add: calculate_late_interest_eq cents_mono cents_nonneg)

theorem late_interest_monotone_witness:
  "\<exists>b. calculate_late_interest [\<lparr>sg_principal = dec 100000, sg_days = 1\<rparr>, \<lparr>sg_principal = dec 100000, sg_days = 1\<rparr>]
     = Inr b \<and> 0 \<le> b"
  using late_interest_monotone [of "[\<lparr>sg_principal = dec 100000, sg_days = 1\<rparr>]" "\<lparr>sg_principal = dec 100000, sg_days = 1\<rparr>"]
  by (auto simp: segment_ok_def)

section \<open>Accuracy of one segment\<close>

lemma rate_error: "\<bar>DAILY_LATE_INTEREST_RATE - 1 / 150\<bar> \<le> 1 / 10 ^ 28"
proof -
  have "\<bar>ctx 28 (1 / 150) - 1 / 150\<bar> \<le> 1 / 150 * 10 powi (1 - int 28) / 2"
    by (rule ctx_rel_error) simp_all
  also have "\<dots> \<le> 1 / 10 ^ 28" by (simp add: power_int_minus_divide)
  finally show ?thesis by (simp add: DAILY_LATE_INTEREST_RATE_def)
qed

text \<open>Accuracy: for a principal up to ten billion and up to ten thousand days, the charged
  interest is within half a cent (and a millionth of a cent) of principal times days times 20% over 30.\<close>

theorem late_interest_accuracy:
  assumes "0 \<le> p" "p \<le> 10 ^ 12" "0 \<le> days" "days \<le> 10 ^ 4"
    and "calculate_late_interest [\<lparr>sg_principal = dec p, sg_days = days\<rparr>] = Inr c"
  shows "\<bar>dec c - dec p * of_int days / 150\<bar> \<le> 1 / 200 + 1 / 10 ^ 8"
proof -
  let ?s = "\<lparr>sg_principal = dec p, sg_days = days\<rparr>"
  have ok: "segment_ok ?s" using assms by (simp add: segment_ok_def)
  have pd: "0 \<le> p * days" "p * days \<le> 10 ^ 12 * 10 ^ 4"
    using assms mult_mono [of p "10 ^ 12" days "10 ^ 4"] by auto
  define x where "x = dec (p * days)"
  have x: "0 \<le> x" "x \<le> 10 ^ 14"
  proof -
    show "0 \<le> x" using pd by (simp add: x_def)
    have "x \<le> dec (10 ^ 16)" unfolding x_def dec_le_iff using pd by simp
    then show "x \<le> 10 ^ 14" by (simp add: dec_def)
  qed
  have "dec p * of_int days = x" by (simp add: x_def dec_def)
  moreover have "ctx 28 x = x" unfolding x_def using pd by (intro ctx_cents_exact) simp
  ultimately have si: "segment_interest ?s = ctx 28 (x * DAILY_LATE_INTEREST_RATE)"
    by (simp add: segment_interest_def dmul_def)
  define y where "y = x * DAILY_LATE_INTEREST_RATE"
  have "\<bar>y - x / 150\<bar> = x * \<bar>DAILY_LATE_INTEREST_RATE - 1 / 150\<bar>"
    using x(1) by (simp add: y_def abs_mult_pos' algebra_simps flip: abs_mult)
  also have "\<dots> \<le> 10 ^ 14 * (1 / 10 ^ 28)" using x rate_error by (intro mult_mono) auto
  finally have e1: "\<bar>y - x / 150\<bar> \<le> 1 / 10 ^ 14" by simp
  have "0 \<le> y" using x(1) rate_pos by (simp add: y_def)
  moreover have "x / 150 \<le> 10 ^ 14 / 150" using x(2) by simp
  moreover have "y - x / 150 \<le> 1 / 10 ^ 14" using e1 by (rule abs_le_D1)
  moreover have "10 ^ 14 / 150 + 1 / 10 ^ 14 \<le> (10 ^ 13 :: rat)" by simp
  ultimately have y: "0 \<le> y" "y \<le> 10 ^ 13" by linarith+
  have e2: "\<bar>ctx 28 y - y\<bar> \<le> 1 / 10 ^ 13"
  proof (cases "y = 0")
    case False
    then have "\<bar>ctx 28 y - y\<bar> \<le> y * 10 powi (1 - int 28) / 2"
      using y by (intro ctx_rel_error) auto
    also have "\<dots> \<le> 10 ^ 13 * 10 powi (1 - int 28) / 2" using y by simp
    also have "\<dots> \<le> 1 / 10 ^ 13" by (simp add: power_int_minus_divide)
    finally show ?thesis .
  qed simp
  have "c = cents (ctx 28 y)"
    using assms(5) ok late_total_snoc [of "[]" ?s] si
    by (simp add: calculate_late_interest_eq y_def ctx_idem)
  then have "\<bar>dec c - ctx 28 y\<bar> \<le> 1 / 200" by (simp only: cents_error)
  moreover have "dec p * of_int days / 150 = x / 150" by (simp add: x_def dec_def)
  moreover have "1 / 10 ^ 13 + 1 / 10 ^ 14 \<le> (1 / 10 ^ 8 :: rat)" by simp
  ultimately show ?thesis using e1 e2 by linarith
qed

theorem late_interest_accuracy_witness:
  "\<exists>c. calculate_late_interest [\<lparr>sg_principal = dec 100000, sg_days = 30\<rparr>] = Inr c
     \<and> \<bar>dec c - dec 100000 * 30 / 150\<bar> \<le> 1 / 200 + 1 / 10 ^ 8"
proof -
  have "list_all segment_ok [\<lparr>sg_principal = dec 100000, sg_days = 30\<rparr>]" by (simp add: segment_ok_def)
  from calculate_late_interest_eq [OF this] obtain c
    where c: "calculate_late_interest [\<lparr>sg_principal = dec 100000, sg_days = 30\<rparr>] = Inr c" by simp
  with late_interest_accuracy [OF _ _ _ _ c] show ?thesis by simp
qed

section \<open>Contributions\<close>

record contribution_charges =
  ch_fixed_penalty :: cents
  ch_daily_interest :: cents

record charge_acc =
  ca_balance :: cents
  ca_start :: date
  ca_exact_interest :: decimal
  ca_late_principal :: cents

definition charge_interest :: "cents \<Rightarrow> int \<Rightarrow> decimal" where
  "charge_interest balance days =
     dmul 28 (dmul 28 (dec balance) (of_int days)) DAILY_LATE_INTEREST_RATE"

definition charge_step :: "date \<Rightarrow> date \<Rightarrow> date \<times> cents \<Rightarrow> charge_acc \<Rightarrow> charge_acc res" where
  "charge_step due_date through_date payment acc =
     (let (paid_date, amount) = payment
      in if amount < 0 \<or> ca_balance acc < amount then
           Inl (ValueError ''invalid principal payment history'')
         else if through_date < paid_date then Inr acc
         else
           let acc' = (if paid_date \<le> due_date then
                         acc\<lparr>ca_late_principal := ca_late_principal acc - amount\<rparr>
                       else if ca_start acc < paid_date then
                         acc\<lparr>ca_exact_interest := dadd 28 (ca_exact_interest acc)
                               (charge_interest (ca_balance acc) (paid_date - ca_start acc)),
                             ca_start := paid_date\<rparr>
                       else acc)
           in Inr (acc'\<lparr>ca_balance := ca_balance acc' - amount\<rparr>))"

definition calculate_contribution_charges ::
    "cents \<Rightarrow> date \<Rightarrow> moment \<Rightarrow> (date \<times> cents) list \<Rightarrow> contribution_charges res" where
  "calculate_contribution_charges princ due_date through principal_payments =
     (if princ < 0 then Inl (ValueError ''principal must be nonnegative'')
      else
        res_bind (financial_civil_date through) (\<lambda>through_date.
        res_bind (fold_res (charge_step due_date through_date) (sort_key fst principal_payments)
            \<lparr>ca_balance = princ, ca_start = due_date + 1, ca_exact_interest = 0, ca_late_principal = princ\<rparr>)
          (\<lambda>acc.
        let exact_interest = (if ca_start acc \<le> through_date then
              dadd 28 (ca_exact_interest acc)
                (charge_interest (ca_balance acc) (through_date - ca_start acc + 1))
              else ca_exact_interest acc)
        in Inr \<lparr>ch_fixed_penalty =
                  (if due_date < through_date \<and> 0 < ca_late_principal acc then FIXED_PENALTY_AMOUNT else 0),
                ch_daily_interest = cents exact_interest\<rparr>)))"

lemma charge_interest_0 [simp]: "charge_interest 0 days = 0"
  by (simp add: charge_interest_def dmul_def)

lemma charge_interest_nonneg: "0 \<le> balance \<Longrightarrow> 0 \<le> days \<Longrightarrow> 0 \<le> charge_interest balance days"
  using rate_pos by (simp add: charge_interest_def dmul_def ctx_nonneg)

definition charge_inv :: "charge_acc \<Rightarrow> bool" where
  "charge_inv acc \<longleftrightarrow> 0 \<le> ca_balance acc \<and> 0 \<le> ca_exact_interest acc
     \<and> ca_balance acc \<le> ca_late_principal acc"

lemma charge_step_inv:
  "charge_inv acc \<Longrightarrow> charge_step due through payment acc = Inr acc' \<Longrightarrow> charge_inv acc'"
  by (auto simp: charge_step_def charge_inv_def Let_def dadd_def ctx_nonneg charge_interest_nonneg
      split: prod.splits if_splits)

text \<open>Charges of a contribution are never negative; none are due through the due date,
  and with a positive principal and no payment the first late day owes the fixed penalty and the
  daily interest on the whole principal.\<close>

theorem contribution_charges_bounds:
  assumes "calculate_contribution_charges princ due through payments = Inr ch"
    and "financial_civil_date through = Inr day"
  shows "0 \<le> ch_daily_interest ch \<and> ch_fixed_penalty ch \<in> {0, FIXED_PENALTY_AMOUNT}
    \<and> (day \<le> due \<longrightarrow> ch_fixed_penalty ch = 0 \<and> ch_daily_interest ch = 0)
    \<and> (payments = [] \<and> 0 < princ \<and> due < day \<longrightarrow> ch_fixed_penalty ch = FIXED_PENALTY_AMOUNT
         \<and> ch_daily_interest ch = cents (charge_interest princ (day - due)))"
proof -
  let ?init = "\<lparr>ca_balance = princ, ca_start = due + 1, ca_exact_interest = 0, ca_late_principal = princ\<rparr>"
  from assms obtain acc where p: "0 \<le> princ"
    and run: "fold_res (charge_step due day) (sort_key fst payments) ?init = Inr acc"
    and ch: "ch = \<lparr>ch_fixed_penalty = (if due < day \<and> 0 < ca_late_principal acc then FIXED_PENALTY_AMOUNT else 0),
        ch_daily_interest = cents (if ca_start acc \<le> day then dadd 28 (ca_exact_interest acc)
          (charge_interest (ca_balance acc) (day - ca_start acc + 1)) else ca_exact_interest acc)\<rparr>"
    by (auto simp: calculate_contribution_charges_def res_bind_eq_Inr Let_def split: if_splits)
  have inv: "charge_inv acc"
  proof (rule fold_res_invariant [where I = charge_inv, OF run])
    show "charge_inv ?init" using p by (simp add: charge_inv_def)
  qed (rule charge_step_inv)
  have early: "ca_start acc = due + 1 \<and> ca_exact_interest acc = 0" if "day \<le> due"
    by (rule fold_res_invariant [where I = "\<lambda>a. ca_start a = due + 1 \<and> ca_exact_interest a = 0", OF run])
      (use that in \<open>auto simp: charge_step_def Let_def split: prod.splits if_splits\<close>)
  have "0 \<le> ch_daily_interest ch"
    using inv by (auto simp: ch charge_inv_def dadd_def intro!: cents_nonneg ctx_nonneg charge_interest_nonneg add_nonneg_nonneg)
  moreover have "acc = ?init" if "payments = []" using run that by simp
  ultimately show ?thesis
    using early by (auto simp: ch dadd_def charge_interest_def dmul_def ctx_idem)
qed

lemma timely_fold:
  assumes "\<forall>(d, a)\<in>set ps. d \<le> due \<and> 0 \<le> a" "(\<Sum>(d, a)\<leftarrow>ps. a) \<le> ca_balance acc" "due \<le> day"
  shows "fold_res (charge_step due day) ps acc = Inr (acc\<lparr>ca_balance := ca_balance acc - (\<Sum>(d, a)\<leftarrow>ps. a),
    ca_late_principal := ca_late_principal acc - (\<Sum>(d, a)\<leftarrow>ps. a)\<rparr>)"
  using assms
proof (induction ps arbitrary: acc)
  case (Cons p ps)
  obtain d a where p: "p = (d, a)" by (cases p)
  have nonneg: "0 \<le> (\<Sum>(d, a)\<leftarrow>ps. a)"
    using Cons.prems(1) by (intro sum_list_nonneg_int) auto
  with Cons.prems p have "charge_step due day p acc =
      Inr (acc\<lparr>ca_late_principal := ca_late_principal acc - a, ca_balance := ca_balance acc - a\<rparr>)"
    by (auto simp: charge_step_def)
  with Cons p show ?case by (simp add: algebra_simps)
qed simp

text \<open>A contribution whose principal was paid in full by the due date, in any number of
  payments in any order, is never charged, however late the charge is computed.\<close>

theorem timely_contribution_uncharged:
  assumes "0 \<le> princ" "\<forall>(d, a)\<in>set payments. d \<le> due \<and> 0 \<le> a" "(\<Sum>(d, a)\<leftarrow>payments. a) = princ" "due \<le> day"
  shows "calculate_contribution_charges princ due (Civil day) payments
    = Inr \<lparr>ch_fixed_penalty = 0, ch_daily_interest = 0\<rparr>"
proof -
  have "(\<Sum>(d, a)\<leftarrow>sort_key fst payments. a) = princ"
    using assms(3) by simp
  then show ?thesis
    using assms by (simp add: calculate_contribution_charges_def timely_fold dadd_def)
qed

theorem contribution_charges_bounds_witness:
  "\<exists>ch. calculate_contribution_charges 15000 100 (Civil 103) [] = Inr ch
     \<and> ch_fixed_penalty ch = 1000 \<and> ch_daily_interest ch = cents (charge_interest 15000 3)"
proof -
  obtain ch where c: "calculate_contribution_charges 15000 100 (Civil 103) [] = Inr ch"
    by (simp add: calculate_contribution_charges_def)
  from contribution_charges_bounds [OF c] c show ?thesis by (simp add: FIXED_PENALTY_AMOUNT_def)
qed

theorem timely_contribution_uncharged_witness:
  "calculate_contribution_charges 15000 100 (Civil 400) [(98, 5000), (90, 10000)]
    = Inr \<lparr>ch_fixed_penalty = 0, ch_daily_interest = 0\<rparr>"
  by (rule timely_contribution_uncharged) simp_all

end
