(* ===== verification/Payment_Event_Periods.thy ===== *)
theory Payment_Event_Periods
  imports Late_Charge
begin

text \<open>
  The temporal classification of settlements and reversals,
  \<open>services/payment_event_periods.py\<close>: legacy events are placed by their UTC timestamp, temporal
  ones by their civil date and only when their receipt verifies. The verification of the
  receipts is a parameter: \<open>vf_settlement\<close> and \<open>vf_reversal\<close> are what
  \<open>verify_settlement_v6\<close> and \<open>validate_reversal_effect\<close> answer for a row.
\<close>

record verifier =
  vf_settlement :: "settlement_row \<Rightarrow> bool"
  vf_reversal :: "reversal_row \<Rightarrow> bool"

definition SETTLEMENT_TEMPORAL_VERSION :: string where "SETTLEMENT_TEMPORAL_VERSION = ''v6''"
definition REVERSAL_TEMPORAL_VERSION :: string where "REVERSAL_TEMPORAL_VERSION = ''v2''"

definition LEGACY_SETTLEMENT_VERSIONS :: "string \<Rightarrow> string list" where
  "LEGACY_SETTLEMENT_VERSIONS obligation_type =
     (if obligation_type = ''CONTRIBUTION'' then [''v1'']
      else if obligation_type = ''LOAN_INSTALLMENT'' then [''v1'', ''v2'', ''v3'', ''v4'']
      else if obligation_type = ''AGREEMENT_INSTALLMENT'' then [''v1'', ''v5'']
      else [])"

definition LEGACY_REVERSAL_VERSIONS :: "string list" where
  "LEGACY_REVERSAL_VERSIONS = [''v1'']"

datatype event_kind = SETTLEMENT | REVERSAL
datatype event_semantics = LEGACY | TEMPORAL
datatype evidence_status = LEGACY_COMPATIBILITY | LEGACY_VERIFIED | TEMPORAL_VERIFIED

record period_identity =
  pid_kind :: event_kind
  pid_semantics :: event_semantics
  pid_timestamp :: instant
  pid_financial_date :: "date option"
  pid_payment_id :: int
  pid_settlement_id :: int
  pid_reversal_id :: "int option"
  pid_obligation_type :: string
  pid_evidence :: evidence_status

definition classify_settlement_event ::
    "verifier \<Rightarrow> payment_row \<Rightarrow> settlement_row \<Rightarrow> period_identity res" where
  "classify_settlement_event vf payment settlement =
     (let identity = \<lparr>pid_kind = SETTLEMENT, pid_semantics = LEGACY,
            pid_timestamp = stored_utc (stl_confirmed_at settlement), pid_financial_date = None,
            pid_payment_id = pay_id payment, pid_settlement_id = stl_id settlement,
            pid_reversal_id = None, pid_obligation_type = stl_obligation_type settlement,
            pid_evidence = LEGACY_COMPATIBILITY\<rparr>;
          version = stl_receipt_version settlement
      in if stl_payment_id settlement \<noteq> pay_id payment then
           Inl (PaymentEventEvidenceError ''settlement does not reference its Payment'')
         else if version = SETTLEMENT_TEMPORAL_VERSION then
           (case stl_financial_date settlement of
              None \<Rightarrow> Inl (PaymentEventEvidenceError ''settlement v6 has no financial_date'')
            | Some d \<Rightarrow>
                if \<not> vf_settlement vf settlement then
                  Inl (PaymentEventEvidenceError ''settlement v6 evidence invalid'')
                else Inr (identity\<lparr>pid_semantics := TEMPORAL, pid_financial_date := Some d,
                            pid_evidence := TEMPORAL_VERIFIED\<rparr>))
         else if version \<notin> set (LEGACY_SETTLEMENT_VERSIONS (stl_obligation_type settlement)) then
           Inl (UnsupportedPaymentEventVersion ''unknown or unsupported settlement receipt version'')
         else if stl_financial_date settlement \<noteq> None then
           Inl (PaymentEventEvidenceError ''legacy settlement unexpectedly has financial_date'')
         else Inr identity)"

text \<open>\<open>None\<close> is an invalid legacy reversal without its settlement: it has no event.\<close>

definition classify_reversal_event ::
    "verifier \<Rightarrow> settlement_row list \<Rightarrow> reversal_row \<Rightarrow> period_identity option res" where
  "classify_reversal_event vf settlements reversal =
     (let version = rev_receipt_version reversal; temporal = (version = REVERSAL_TEMPORAL_VERSION);
          valid = vf_reversal vf reversal
      in if version \<notin> set LEGACY_REVERSAL_VERSIONS \<and> \<not> temporal then
           Inl (UnsupportedPaymentEventVersion ''unknown reversal receipt version'')
         else if temporal \<and> rev_financial_date reversal = None then
           Inl (PaymentEventEvidenceError ''reversal v2 has no financial_date'')
         else if \<not> temporal \<and> rev_financial_date reversal \<noteq> None then
           Inl (PaymentEventEvidenceError ''legacy reversal unexpectedly has financial_date'')
         else if temporal \<and> \<not> valid then
           Inl (PaymentEventEvidenceError ''reversal v2 evidence invalid'')
         else case get_by stl_id (rev_settlement_id reversal) settlements of
           None \<Rightarrow> if temporal then Inl (PaymentEventEvidenceError ''reversal v2 settlement is missing'')
                   else Inr None
         | Some settlement \<Rightarrow>
             Inr (Some \<lparr>pid_kind = REVERSAL, pid_semantics = (if temporal then TEMPORAL else LEGACY),
               pid_timestamp = stored_utc (rev_reversed_at reversal),
               pid_financial_date = (if temporal then rev_financial_date reversal else None),
               pid_payment_id = rev_payment_id reversal, pid_settlement_id = rev_settlement_id reversal,
               pid_reversal_id = Some (rev_id reversal),
               pid_obligation_type = stl_obligation_type settlement,
               pid_evidence = (if temporal then TEMPORAL_VERIFIED
                               else if valid then LEGACY_VERIFIED else LEGACY_COMPATIBILITY)\<rparr>))"

text \<open>A bound given as a timestamp must be a UTC midnight; its date label is the bound.\<close>

definition from_boundary :: "datetime option \<Rightarrow> date option res" where
  "from_boundary value =
     (case value of None \<Rightarrow> Inr None
      | Some v \<Rightarrow> if stored_utc v mod day_us \<noteq> 0 then
          Inl (ValueError ''temporal DATE events require civil date bounds for sub-day windows'')
        else Inr (Some (utc_date (stored_utc v))))"

definition civil_date_window ::
    "datetime option \<Rightarrow> datetime option \<Rightarrow> date option \<Rightarrow> date option \<Rightarrow> (date option \<times> date option) res" where
  "civil_date_window start stop financial_start financial_end_exclusive =
     res_bind (if financial_start \<noteq> None then Inr financial_start else from_boundary start) (\<lambda>lower.
     res_bind (if financial_end_exclusive \<noteq> None then Inr financial_end_exclusive else from_boundary stop) (\<lambda>upper.
     case (lower, upper) of
       (Some l, Some u) \<Rightarrow> if u < l then Inl (ValueError ''financial date window end precedes start'')
                           else Inr (lower, upper)
     | _ \<Rightarrow> Inr (lower, upper)))"

definition event_is_in_period ::
    "period_identity \<Rightarrow> datetime option \<Rightarrow> datetime option \<Rightarrow> date option \<Rightarrow> date option \<Rightarrow> bool res" where
  "event_is_in_period identity start stop financial_start financial_end_exclusive =
     (if pid_semantics identity = LEGACY then
        Inr ((case start of None \<Rightarrow> True | Some s \<Rightarrow> stored_utc s \<le> pid_timestamp identity)
           \<and> (case stop of None \<Rightarrow> True | Some e \<Rightarrow> pid_timestamp identity < stored_utc e))
      else case pid_financial_date identity of
        None \<Rightarrow> Inl (PaymentEventEvidenceError ''verified temporal event has no financial_date'')
      | Some d \<Rightarrow>
          res_bind (civil_date_window start stop financial_start financial_end_exclusive) (\<lambda>(lower, upper).
          Inr ((case lower of None \<Rightarrow> True | Some l \<Rightarrow> l \<le> d)
             \<and> (case upper of None \<Rightarrow> True | Some u \<Rightarrow> d < u))))"

section \<open>Properties\<close>

text \<open>Only verified evidence dates an event: a settlement classified as temporal has the
  temporal version, a civil date and a receipt that verifies; a legacy one has a version accepted for
  its kind of obligation and no civil date. A tampered or unknown version is never classified.\<close>

theorem settlement_classification:
  assumes "classify_settlement_event vf payment settlement = Inr identity"
  shows "(pid_semantics identity = TEMPORAL \<and> stl_receipt_version settlement = ''v6''
        \<and> vf_settlement vf settlement \<and> pid_financial_date identity \<noteq> None
        \<and> pid_financial_date identity = stl_financial_date settlement)
    \<or> (pid_semantics identity = LEGACY \<and> pid_financial_date identity = None \<and> stl_financial_date settlement = None
        \<and> stl_receipt_version settlement \<in> set (LEGACY_SETTLEMENT_VERSIONS (stl_obligation_type settlement)))"
  using assms
  by (auto simp: classify_settlement_event_def Let_def SETTLEMENT_TEMPORAL_VERSION_def
      split: if_splits option.splits)

lemma midnight_bound:
  assumes "from_boundary (Some v) = Inr b"
  shows "b = Some (utc_date (stored_utc v)) \<and> stored_utc v mod day_us = 0"
  using assms by (auto simp: from_boundary_def split: if_splits)

text \<open>Adjacent periods given by UTC midnights place every classified event in exactly one
  of them when it lies in their union: legacy events by instant, temporal events by civil date.\<close>

theorem event_periods_partition:
  assumes "event_is_in_period identity (Some a) (Some b) None None = Inr in_first"
    and "event_is_in_period identity (Some b) (Some c) None None = Inr in_second"
    and "stored_utc a \<le> stored_utc b" "stored_utc b \<le> stored_utc c"
  shows "\<exists>in_both. event_is_in_period identity (Some a) (Some c) None None = Inr in_both
    \<and> in_both = (in_first \<or> in_second) \<and> \<not> (in_first \<and> in_second)"
proof (cases "pid_semantics identity = LEGACY")
  case True
  with assms show ?thesis by (auto simp: event_is_in_period_def)
next
  case False
  then obtain d where d: "pid_financial_date identity = Some d"
    using assms(1) by (auto simp: event_is_in_period_def split: option.splits)
  have m: "stored_utc x mod day_us = 0" if "x \<in> {a, b, c}" for x
    using that assms(1,2) False d
    by (auto simp: event_is_in_period_def civil_date_window_def res_bind_eq_Inr dest!: midnight_bound)
  have le: "utc_date (stored_utc a) \<le> utc_date (stored_utc b)" "utc_date (stored_utc b) \<le> utc_date (stored_utc c)"
    using assms(3,4) day_us_pos by (auto simp: utc_date_def zdiv_mono1)
  have w: "event_is_in_period identity (Some x) (Some y) None None
      = Inr (utc_date (stored_utc x) \<le> d \<and> d < utc_date (stored_utc y))"
    if "x \<in> {a, b, c}" "y \<in> {a, b, c}" "utc_date (stored_utc x) \<le> utc_date (stored_utc y)" for x y
    using that(3) m [OF that(1)] m [OF that(2)] False d
    by (simp add: event_is_in_period_def civil_date_window_def from_boundary_def)
  show ?thesis
    using assms(1,2) w [of a b] w [of b c] w [of a c] le by auto
qed

section \<open>Witnesses\<close>

definition demo_settlement :: settlement_row where
  "demo_settlement = \<lparr>stl_id = 1, stl_payment_id = 7, stl_member_id = 4, stl_obligation_type = ''LOAN_INSTALLMENT'',
     stl_contribution_id = None, stl_loan_installment_id = Some 3, stl_agreement_installment_id = None,
     stl_amount_received = 30000, stl_amount_applied = 30000, stl_principal_applied = 20000,
     stl_interest_applied = 10000, stl_penalty_applied = 0, stl_component_version = None,
     stl_normal_interest_applied = None, stl_late_interest_applied = None, stl_fixed_penalty_applied = None,
     stl_excess_amount = 0, stl_status_before = ''PENDING'', stl_status_after = ''PAID'',
     stl_confirmed_at = Naive (20000 * day_us), stl_financial_date = None, stl_confirmation_source = ''WEBHOOK'',
     stl_webhook_event_id = None, stl_receipt_number = ''PIX-V4-7'', stl_receipt_version = ''v4'',
     stl_receipt_snapshot = None, stl_receipt_hash = ''h'', stl_loan_before = None, stl_loan_after = None,
     stl_agreement_before = None, stl_agreement_after = None\<rparr>"

definition demo_payment :: payment_row where
  "demo_payment = \<lparr>pay_id = 7, pay_provider = ''mp'', pay_provider_order_id = Some ''o'',
     pay_provider_payment_id = Some ''p'', pay_amount = 30000, pay_status = ''approved'',
     pay_external_reference = None, pay_pix_txid = None, pay_end_to_end_id = None,
     pay_provider_status_detail = None, pay_provider_payload_json = None, pay_confirmed_at = None,
     pay_amount_received = None, pay_ledger_posted_at = None, pay_reference_type = Some ''LOAN_INSTALLMENT'',
     pay_reference_id = Some ''3'', pay_attempt_status = Some ''PENDING'', pay_reconciliation_status = None\<rparr>"

definition demo_verifier :: verifier where
  "demo_verifier = \<lparr>vf_settlement = (\<lambda>_. False), vf_reversal = (\<lambda>_. False)\<rparr>"

lemma demo_classified:
  "\<exists>i. classify_settlement_event demo_verifier demo_payment demo_settlement = Inr i
     \<and> pid_semantics i = LEGACY \<and> pid_timestamp i = 20000 * day_us"
  by (simp add: classify_settlement_event_def demo_settlement_def demo_payment_def
      SETTLEMENT_TEMPORAL_VERSION_def LEGACY_SETTLEMENT_VERSIONS_def Let_def)

theorem settlement_classification_witness:
  "\<exists>i. classify_settlement_event demo_verifier demo_payment demo_settlement = Inr i
     \<and> pid_financial_date i = None"
proof -
  obtain i where i: "classify_settlement_event demo_verifier demo_payment demo_settlement = Inr i"
    "pid_semantics i = LEGACY" using demo_classified by blast
  from settlement_classification [OF i(1)] i show ?thesis by auto
qed

theorem event_periods_partition_witness:
  "\<exists>i. classify_settlement_event demo_verifier demo_payment demo_settlement = Inr i
     \<and> event_is_in_period i (Some (Aware (19999 * day_us))) (Some (Aware (20001 * day_us))) None None = Inr True"
proof -
  obtain i where i: "classify_settlement_event demo_verifier demo_payment demo_settlement = Inr i"
    "pid_semantics i = LEGACY" "pid_timestamp i = 20000 * day_us" using demo_classified by blast
  have "event_is_in_period i (Some (Aware (19999 * day_us))) (Some (Aware (20000 * day_us))) None None = Inr False"
    "event_is_in_period i (Some (Aware (20000 * day_us))) (Some (Aware (20001 * day_us))) None None = Inr True"
    using i day_us_pos by (simp_all add: event_is_in_period_def)
  from event_periods_partition [OF this] i(1) day_us_pos show ?thesis by (auto simp: mult_right_mono)
qed

end
