(* ===== verification/Loan_Obligations.thy ===== *)
theory Loan_Obligations
  imports Payment_Event_Periods
begin

text \<open>
  The runtime of loan-installment obligations, \<open>services/loan_obligation_runtime.py\<close>: the
  late-charge events are the authority, the columns of the installment projections of them. The
  functions take the loan tables and return them changed; row locks have no counterpart.
  \<open>vf\<close> is the verification of temporal receipts. Reading several rows that one query
  returns is a list; a dictionary over settlements or dates is a function of its key.
\<close>

section \<open>Dates of events\<close>

definition settlement_financial_date ::
    "verifier \<Rightarrow> 'a loan_tables_scheme \<Rightarrow> settlement_row \<Rightarrow> date res" where
  "settlement_financial_date vf db settlement =
     (if stl_receipt_version settlement = ''v6'' then
        (case get_by pay_id (stl_payment_id settlement) (db_payments db) of
           None \<Rightarrow> Inl (PaymentEventEvidenceError ''settlement v6 Payment ausente'')
         | Some payment \<Rightarrow>
             res_bind (classify_settlement_event vf payment settlement) (\<lambda>identity.
             case (pid_semantics identity, pid_financial_date identity) of
               (TEMPORAL, Some d) \<Rightarrow> Inr d
             | _ \<Rightarrow> Inl (PaymentEventEvidenceError ''settlement v6 sem identidade temporal autenticada'')))
      else if stl_receipt_version settlement
          \<notin> set (LEGACY_SETTLEMENT_VERSIONS (stl_obligation_type settlement)) then
        Inl (PaymentEventEvidenceError ''versao de receipt de settlement nao suportada'')
      else if stl_financial_date settlement \<noteq> None then
        Inl (PaymentEventEvidenceError ''settlement legado possui financial_date'')
      else Inr (stored_financial_date (stl_confirmed_at settlement)))"

definition reversal_financial_date ::
    "verifier \<Rightarrow> 'a loan_tables_scheme \<Rightarrow> reversal_row \<Rightarrow> date res" where
  "reversal_financial_date vf db reversal =
     (if rev_receipt_version reversal = ''v2'' then
        res_bind (classify_reversal_event vf (db_settlements db) reversal) (\<lambda>identity.
        case identity of
          None \<Rightarrow> Inl (PaymentEventEvidenceError ''reversal v2 sem identidade temporal autenticada'')
        | Some i \<Rightarrow>
            (case (pid_semantics i, pid_financial_date i) of
               (TEMPORAL, Some d) \<Rightarrow> Inr d
             | _ \<Rightarrow> Inl (PaymentEventEvidenceError ''reversal v2 sem identidade temporal autenticada'')))
      else if rev_receipt_version reversal \<notin> set LEGACY_REVERSAL_VERSIONS then
        Inl (PaymentEventEvidenceError ''versao de receipt de reversal nao suportada'')
      else if rev_financial_date reversal \<noteq> None then
        Inl (PaymentEventEvidenceError ''reversal legado possui financial_date'')
      else Inr (stored_financial_date (rev_reversed_at reversal)))"

section \<open>The late principal base\<close>

definition find_installment :: "int \<Rightarrow> 'a loan_tables_scheme \<Rightarrow> installment_row res" where
  "find_installment installment_id db =
     (case get_by ins_id installment_id (db_installments db) of
        None \<Rightarrow> Inl (ValueError ''Parcela de emprestimo nao encontrada.'')
      | Some i \<Rightarrow> Inr i)"

definition settlements_of :: "int \<Rightarrow> 'a loan_tables_scheme \<Rightarrow> settlement_row list" where
  "settlements_of installment_id db =
     sort_key (\<lambda>s. (stored_utc (stl_confirmed_at s), stl_id s))
       (filter (\<lambda>s. stl_obligation_type s = ''LOAN_INSTALLMENT''
          \<and> stl_loan_installment_id s = Some installment_id) (db_settlements db))"

definition reversal_by_settlement :: "'a loan_tables_scheme \<Rightarrow> int \<Rightarrow> reversal_row option" where
  "reversal_by_settlement db settlement_id =
     last_opt (filter (\<lambda>r. rev_settlement_id r = settlement_id) (db_reversals db))"

definition principal_movements_of ::
    "verifier \<Rightarrow> 'a loan_tables_scheme \<Rightarrow> settlement_row \<Rightarrow> (date \<times> cents) list res" where
  "principal_movements_of vf db settlement =
     res_bind (settlement_financial_date vf db settlement) (\<lambda>d.
     case reversal_by_settlement db (stl_id settlement) of
       None \<Rightarrow> Inr [(d + 1, stl_principal_applied settlement)]
     | Some reversal \<Rightarrow>
         if rev_principal_applied reversal \<noteq> stl_principal_applied settlement then
           Inl (ValueError ''Reversao possui componente de principal incompativel.'')
         else res_bind (reversal_financial_date vf db reversal) (\<lambda>r.
           Inr [(d + 1, stl_principal_applied settlement), (r + 1, - rev_principal_applied reversal)]))"

definition late_principal_movements ::
    "verifier \<Rightarrow> 'a loan_tables_scheme \<Rightarrow> int \<Rightarrow> (date \<times> cents) list res" where
  "late_principal_movements vf db installment_id =
     res_bind (map_res (principal_movements_of vf db) (settlements_of installment_id db)) (\<lambda>ms.
     Inr (sort_key fst (concat ms)))"

definition principal_paid_through :: "(date \<times> cents) list \<Rightarrow> date \<Rightarrow> cents" where
  "principal_paid_through movements on_date =
     max 0 (\<Sum>(d, amount)\<leftarrow>filter (\<lambda>m. fst m \<le> on_date) movements. amount)"

definition late_principal :: "installment_row \<Rightarrow> (date \<times> cents) list \<Rightarrow> date \<Rightarrow> cents" where
  "late_principal installment movements day =
     max 0 (ins_principal installment - principal_paid_through movements day)"

text \<open>The loop over the late days accumulates one segment a day.\<close>

fun schedule_loop ::
    "(date \<Rightarrow> cents) \<Rightarrow> principal_segment list \<Rightarrow> date list \<Rightarrow> (date \<times> cents \<times> cents) list res" where
  "schedule_loop base segments [] = Inr []"
| "schedule_loop base segments (day # days) =
     (let segments' = segments @ [\<lparr>sg_principal = dec (base day), sg_days = 1\<rparr>]
      in res_bind (calculate_late_interest segments') (\<lambda>interest.
         res_bind (schedule_loop base segments' days) (\<lambda>rest.
         Inr ((day, base day, interest) # rest))))"

definition daily_late_schedule ::
    "verifier \<Rightarrow> 'a loan_tables_scheme \<Rightarrow> installment_row \<Rightarrow> date \<Rightarrow> (date \<times> cents \<times> cents) list res" where
  "daily_late_schedule vf db installment through_date =
     res_bind (late_principal_movements vf db (ins_id installment)) (\<lambda>movements.
     schedule_loop (late_principal installment movements) []
       [ins_due_date installment + 1 .. through_date])"

definition reconstruct_late_principal_base ::
    "verifier \<Rightarrow> 'a loan_tables_scheme \<Rightarrow> installment_row \<Rightarrow> moment \<Rightarrow> cents res" where
  "reconstruct_late_principal_base vf db installment financial_date =
     res_bind (financial_civil_date financial_date) (\<lambda>on_date.
     if on_date \<le> ins_due_date installment then Inr 0
     else res_bind (late_principal_movements vf db (ins_id installment)) (\<lambda>movements.
       Inr (late_principal installment movements on_date)))"

definition expected_late_interest ::
    "verifier \<Rightarrow> 'a loan_tables_scheme \<Rightarrow> installment_row \<Rightarrow> date \<Rightarrow> cents res" where
  "expected_late_interest vf db installment through_date =
     res_bind (daily_late_schedule vf db installment through_date) (\<lambda>schedule.
     Inr (case last_opt schedule of None \<Rightarrow> 0 | Some (_, _, interest) \<Rightarrow> interest))"

section \<open>Late-charge events\<close>

definition FIXED_PENALTY_ASSESSED :: string where "FIXED_PENALTY_ASSESSED = ''FIXED_PENALTY_ASSESSED''"
definition LATE_INTEREST_ACCRUED :: string where "LATE_INTEREST_ACCRUED = ''LATE_INTEREST_ACCRUED''"
definition ADJUSTMENT_INCREASE :: string where
  "ADJUSTMENT_INCREASE = ''LATE_INTEREST_ADJUSTMENT_INCREASE''"
definition ADJUSTMENT_DECREASE :: string where
  "ADJUSTMENT_DECREASE = ''LATE_INTEREST_ADJUSTMENT_DECREASE''"
definition LATE_CHARGE_VERSION :: string where "LATE_CHARGE_VERSION = ''late_charge_daily_simple_v1''"
definition COMPONENT_VERSION :: string where "COMPONENT_VERSION = ''late_charge_components_v1''"

definition money :: "cents option \<Rightarrow> cents" where
  "money v = (case v of None \<Rightarrow> 0 | Some c \<Rightarrow> c)"

definition event_delta :: "late_event_row \<Rightarrow> cents" where
  "event_delta event =
     (if lce_event_type event = LATE_INTEREST_ACCRUED \<or> lce_event_type event = ADJUSTMENT_INCREASE
      then money (lce_amount event)
      else if lce_event_type event = ADJUSTMENT_DECREASE then - money (lce_amount event)
      else 0)"

definition events_of :: "int \<Rightarrow> 'a loan_tables_scheme \<Rightarrow> late_event_row list" where
  "events_of installment_id db =
     filter (\<lambda>e. lce_installment_id e = installment_id \<and> lce_version e = LATE_CHARGE_VERSION) (db_late_events db)"

definition late_interest_materialized ::
    "'a loan_tables_scheme \<Rightarrow> int \<Rightarrow> date option \<Rightarrow> cents res" where
  "late_interest_materialized db installment_id through_date =
     (let amount = (\<Sum>e\<leftarrow>filter (\<lambda>e. case through_date of None \<Rightarrow> True | Some d \<Rightarrow> lce_effective_date e \<le> d)
            (events_of installment_id db). event_delta e)
      in if amount < 0 then Inl (ValueError ''Mora materializada nao pode ser negativa.'') else Inr amount)"

definition initialize_projection :: "installment_row \<Rightarrow> installment_row res" where
  "initialize_projection installment =
     (case ins_late_charge_version installment of
        None \<Rightarrow> Inr (installment\<lparr>ins_late_charge_version := Some LATE_CHARGE_VERSION,
          ins_fixed_penalty_amount := Some 0, ins_paid_fixed_penalty_amount := Some 0,
          ins_late_interest_amount := Some 0, ins_paid_late_interest_amount := Some 0\<rparr>)
      | Some v \<Rightarrow> if v = LATE_CHARGE_VERSION then Inr installment
          else Inl (ValueError ''Versao de mora da parcela e incompativel.''))"

definition event_query ::
    "'a loan_tables_scheme \<Rightarrow> int \<Rightarrow> string \<Rightarrow> date option \<Rightarrow> int option \<Rightarrow> int option \<Rightarrow> late_event_row list" where
  "event_query db installment_id event_type effective_date payment_settlement_id payment_reversal_id =
     filter (\<lambda>e. lce_event_type e = event_type
       \<and> (case effective_date of None \<Rightarrow> True | Some d \<Rightarrow> lce_effective_date e = d)
       \<and> (case payment_settlement_id of None \<Rightarrow> True | Some i \<Rightarrow> lce_settlement_id e = Some i)
       \<and> (case payment_reversal_id of None \<Rightarrow> True | Some i \<Rightarrow> lce_reversal_id e = Some i))
      (events_of installment_id db)"

text \<open>The unique indexes of \<open>loan_late_charge_events\<close> and its constraint on amounts.\<close>

definition is_adjustment :: "late_event_row \<Rightarrow> bool" where
  "is_adjustment e \<longleftrightarrow> lce_event_type e \<in> {ADJUSTMENT_INCREASE, ADJUSTMENT_DECREASE}"

definition events_clash :: "late_event_row \<Rightarrow> late_event_row \<Rightarrow> bool" where
  "events_clash e f \<longleftrightarrow> lce_installment_id e = lce_installment_id f \<and> lce_version e = lce_version f \<and>
     (lce_event_type e = FIXED_PENALTY_ASSESSED \<and> lce_event_type f = FIXED_PENALTY_ASSESSED
    \<or> lce_event_type e = LATE_INTEREST_ACCRUED \<and> lce_event_type f = LATE_INTEREST_ACCRUED
        \<and> lce_effective_date e = lce_effective_date f
    \<or> is_adjustment e \<and> is_adjustment f
        \<and> (lce_settlement_id e \<noteq> None \<and> lce_settlement_id e = lce_settlement_id f
           \<or> lce_reversal_id e \<noteq> None \<and> lce_reversal_id e = lce_reversal_id f))"

text \<open>\<open>_insert_unique_event\<close>: a row that violates a constraint raises, and the query that
  found nothing before finds nothing again.\<close>

definition insert_unique_event ::
    "late_event_row \<Rightarrow> 'a loan_tables_scheme \<Rightarrow> (late_event_row \<times> bool \<times> 'a loan_tables_scheme) res" where
  "insert_unique_event values_row db =
     res_bind (one_or_none (event_query db (lce_installment_id values_row) (lce_event_type values_row)
         (if lce_event_type values_row = LATE_INTEREST_ACCRUED then Some (lce_effective_date values_row) else None)
         (lce_settlement_id values_row) (lce_reversal_id values_row))) (\<lambda>existing.
     case existing of Some e \<Rightarrow> Inr (e, False, db)
     | None \<Rightarrow>
         if list_ex (events_clash values_row) (db_late_events db) \<or> money (lce_amount values_row) < 0
         then Inl (IntegrityError ''loan_late_charge_events'')
         else let e = values_row\<lparr>lce_id := next_id lce_id (db_late_events db)\<rparr>
              in Inr (e, True, db\<lparr>db_late_events := db_late_events db @ [e]\<rparr>))"

definition late_event ::
    "int \<Rightarrow> string \<Rightarrow> date \<Rightarrow> cents \<Rightarrow> cents option \<Rightarrow> int option \<Rightarrow> int option \<Rightarrow> late_event_row" where
  "late_event installment_id event_type effective_date amount eligible settlement_id reversal_id =
     \<lparr>lce_id = 0, lce_installment_id = installment_id, lce_version = LATE_CHARGE_VERSION,
      lce_event_type = event_type, lce_effective_date = effective_date, lce_amount = Some amount,
      lce_eligible_principal = eligible, lce_settlement_id = settlement_id, lce_reversal_id = reversal_id\<rparr>"

section \<open>The fixed penalty\<close>

definition materialize_fixed_penalty ::
    "verifier \<Rightarrow> int \<Rightarrow> moment \<Rightarrow> date option \<Rightarrow> 'a loan_tables_scheme
      \<Rightarrow> (late_event_row option \<times> 'a loan_tables_scheme) res" where
  "materialize_fixed_penalty vf installment_id through_date late_charge_effective_date db =
     res_bind (financial_civil_date through_date) (\<lambda>target_date.
     if late_charge_effective_date = None then Inr (None, db)
     else res_bind (find_installment installment_id db) (\<lambda>installment.
       let penalty_effective_date = ins_due_date installment + 1
       in if \<not> is_late_charge_eligible (ins_due_date installment) late_charge_effective_date
             \<or> target_date < penalty_effective_date then Inr (None, db)
          else res_bind (one_or_none
                 (event_query db (ins_id installment) FIXED_PENALTY_ASSESSED None None None)) (\<lambda>existing.
            case existing of
              Some event \<Rightarrow>
                res_bind (initialize_projection installment) (\<lambda>i.
                Inr (Some event, put_installment
                  (i\<lparr>ins_fixed_penalty_amount := Some (money (lce_amount event))\<rparr>) db))
            | None \<Rightarrow>
                res_bind (reconstruct_late_principal_base vf db installment (Civil penalty_effective_date))
                  (\<lambda>eligible_principal.
                if eligible_principal \<le> 0 then Inr (None, db)
                else res_bind (insert_unique_event (late_event (ins_id installment) FIXED_PENALTY_ASSESSED
                       penalty_effective_date (calculate_fixed_penalty False) None None None) db)
                  (\<lambda>(event, _, db').
                  res_bind (initialize_projection installment) (\<lambda>i.
                  Inr (Some event, put_installment
                    (i\<lparr>ins_fixed_penalty_amount := Some (money (lce_amount event))\<rparr>) db')))))))"

section \<open>Daily late interest\<close>

definition deltas_on :: "int \<Rightarrow> date \<Rightarrow> 'a loan_tables_scheme \<Rightarrow> date \<Rightarrow> cents" where
  "deltas_on installment_id target_date db day =
     (\<Sum>e\<leftarrow>filter (\<lambda>e. lce_effective_date e \<le> target_date \<and> lce_effective_date e = day)
        (events_of installment_id db). event_delta e)"

definition accrued_days :: "int \<Rightarrow> 'a loan_tables_scheme \<Rightarrow> date list" where
  "accrued_days installment_id db =
     map lce_effective_date (event_query db installment_id LATE_INTEREST_ACCRUED None None None)"

definition max_date :: "date list \<Rightarrow> date option" where
  "max_date ds = (case ds of [] \<Rightarrow> None | d # ds' \<Rightarrow> Some (fold max ds' d))"

record 'db accrual_acc =
  ac_created :: "late_event_row list"
  ac_running :: cents
  ac_db :: 'db

definition accrual_step ::
    "int \<Rightarrow> (date \<Rightarrow> cents) \<Rightarrow> date \<Rightarrow> date \<times> cents \<times> cents \<Rightarrow> ('a loan_tables_scheme) accrual_acc
      \<Rightarrow> ('a loan_tables_scheme) accrual_acc res" where
  "accrual_step installment_id ledger_deltas start entry acc =
     (let (day, princ, expected) = entry;
          running = ac_running acc + ledger_deltas day
      in if running < 0 then Inl (ValueError ''Mora materializada nao pode ser negativa.'')
         else if day < start then Inr (acc\<lparr>ac_running := running\<rparr>)
         else res_bind (insert_unique_event (late_event installment_id LATE_INTEREST_ACCRUED day
                (max 0 (expected - running)) (Some princ) None None) (ac_db acc))
           (\<lambda>(event, was_created, db').
            Inr \<lparr>ac_created = (if was_created then ac_created acc @ [event] else ac_created acc),
                 ac_running = running + money (lce_amount event), ac_db = db'\<rparr>))"

definition project_accrual :: "installment_row \<Rightarrow> 'a loan_tables_scheme \<Rightarrow> ('a loan_tables_scheme) res" where
  "project_accrual installment db =
     res_bind (late_interest_materialized db (ins_id installment) None) (\<lambda>amount.
     let cursor = (case max_date (accrued_days (ins_id installment) db) of
             None \<Rightarrow> ins_late_interest_accrued_through_date installment
           | Some largest \<Rightarrow>
               (case ins_late_interest_accrued_through_date installment of
                  None \<Rightarrow> Some largest | Some c \<Rightarrow> if c < largest then Some largest else Some c))
     in Inr (put_installment (installment\<lparr>ins_late_interest_accrued_through_date := cursor,
               ins_late_interest_amount := Some amount\<rparr>) db))"

definition materialize_daily_late_interest ::
    "verifier \<Rightarrow> int \<Rightarrow> moment \<Rightarrow> date option \<Rightarrow> 'a loan_tables_scheme
      \<Rightarrow> (late_event_row list \<times> 'a loan_tables_scheme) res" where
  "materialize_daily_late_interest vf installment_id through_date late_charge_effective_date db =
     res_bind (financial_civil_date through_date) (\<lambda>target_date.
     if late_charge_effective_date = None then Inr ([], db)
     else res_bind (find_installment installment_id db) (\<lambda>installment0.
       if \<not> is_late_charge_eligible (ins_due_date installment0) late_charge_effective_date
          \<or> target_date \<le> ins_due_date installment0 then Inr ([], db)
       else res_bind (initialize_projection installment0) (\<lambda>installment.
         let first_day = ins_due_date installment + 1;
             start = (case max_date (accrued_days (ins_id installment) db) of
                        None \<Rightarrow> first_day | Some d \<Rightarrow> max first_day (d + 1));
             ledger_deltas = deltas_on (ins_id installment) target_date db
         in res_bind (daily_late_schedule vf db installment target_date) (\<lambda>schedule.
            res_bind (fold_res (accrual_step (ins_id installment) ledger_deltas start) schedule
                \<lparr>ac_created = [], ac_running = 0, ac_db = db\<rparr>) (\<lambda>acc.
            res_bind (project_accrual installment (ac_db acc)) (\<lambda>db'.
            Inr (ac_created acc, db')))))))"

section \<open>Adjustments\<close>

definition adjustment_effective_date :: "datetime \<Rightarrow> date" where
  "adjustment_effective_date value = stored_financial_date value + 1"

definition materialize_adjustment ::
    "verifier \<Rightarrow> installment_row \<Rightarrow> string \<Rightarrow> date \<Rightarrow> int option \<Rightarrow> int option \<Rightarrow> 'a loan_tables_scheme
      \<Rightarrow> (late_event_row option \<times> 'a loan_tables_scheme) res" where
  "materialize_adjustment vf installment event_type effective_date payment_settlement_id
      payment_reversal_id db =
     (case ins_late_interest_accrued_through_date installment of
        None \<Rightarrow> Inr (None, db)
      | Some cursor \<Rightarrow>
          if cursor < effective_date then Inr (None, db)
          else res_bind (one_or_none (event_query db (ins_id installment) event_type None
                 payment_settlement_id payment_reversal_id)) (\<lambda>existing.
            case existing of Some e \<Rightarrow> Inr (Some e, db)
            | None \<Rightarrow>
              res_bind (late_interest_materialized db (ins_id installment) (Some cursor)) (\<lambda>current.
              res_bind (expected_late_interest vf db installment cursor) (\<lambda>expected.
              let amount = (if event_type = ADJUSTMENT_DECREASE
                            then min (max 0 (current - expected)) current
                            else max 0 (expected - current))
              in res_bind (insert_unique_event (late_event (ins_id installment) event_type effective_date
                     amount None payment_settlement_id payment_reversal_id) db) (\<lambda>(event, _, db').
                 res_bind (late_interest_materialized db' (ins_id installment) None) (\<lambda>late_amount.
                 Inr (Some event, put_installment
                   (installment\<lparr>ins_late_interest_amount := Some late_amount\<rparr>) db')))))))"

definition installment_of_settlement :: "settlement_row option \<Rightarrow> string \<Rightarrow> int res" where
  "installment_of_settlement settlement msg =
     (case settlement of None \<Rightarrow> Inl (ValueError msg)
      | Some s \<Rightarrow>
          if stl_obligation_type s \<noteq> ''LOAN_INSTALLMENT'' then Inl (ValueError msg)
          else case stl_loan_installment_id s of None \<Rightarrow> Inl (ValueError msg) | Some i \<Rightarrow> Inr i)"

definition materialize_settlement_late_interest_adjustment ::
    "verifier \<Rightarrow> int \<Rightarrow> 'a loan_tables_scheme \<Rightarrow> (late_event_row option \<times> 'a loan_tables_scheme) res" where
  "materialize_settlement_late_interest_adjustment vf settlement_id db =
     (let settlement = get_by stl_id settlement_id (db_settlements db)
      in res_bind (installment_of_settlement settlement
             ''Settlement nao referencia uma parcela de emprestimo.'') (\<lambda>installment_id.
         res_bind (find_installment installment_id db) (\<lambda>installment.
         if ins_late_charge_version installment \<noteq> Some LATE_CHARGE_VERSION then Inr (None, db)
         else materialize_adjustment vf installment ADJUSTMENT_DECREASE
                (adjustment_effective_date (stl_confirmed_at (the settlement)))
                (Some settlement_id) None db)))"

definition materialize_reversal_late_interest_adjustment ::
    "verifier \<Rightarrow> int \<Rightarrow> 'a loan_tables_scheme \<Rightarrow> (late_event_row option \<times> 'a loan_tables_scheme) res" where
  "materialize_reversal_late_interest_adjustment vf reversal_id db =
     (case get_by rev_id reversal_id (db_reversals db) of
        None \<Rightarrow> Inl (ValueError ''Reversao nao encontrada.'')
      | Some reversal \<Rightarrow>
          res_bind (installment_of_settlement (get_by stl_id (rev_settlement_id reversal) (db_settlements db))
             ''Reversao nao referencia uma parcela de emprestimo.'') (\<lambda>installment_id.
          res_bind (find_installment installment_id db) (\<lambda>installment.
          if ins_late_charge_version installment \<noteq> Some LATE_CHARGE_VERSION then Inr (None, db)
          else materialize_adjustment vf installment ADJUSTMENT_INCREASE
                 (adjustment_effective_date (rev_reversed_at reversal)) None (Some reversal_id) db)))"

section \<open>What is due\<close>

text \<open>Settlements in force on a date: dated by then and not reversed by then.\<close>

definition active_filter ::
    "verifier \<Rightarrow> 'a loan_tables_scheme \<Rightarrow> date \<Rightarrow> settlement_row \<Rightarrow> settlement_row list
      \<Rightarrow> settlement_row list res" where
  "active_filter vf db on_date settlement active =
     res_bind (settlement_financial_date vf db settlement) (\<lambda>d.
     if on_date < d then Inr active
     else case reversal_by_settlement db (stl_id settlement) of
       None \<Rightarrow> Inr (active @ [settlement])
     | Some reversal \<Rightarrow>
         res_bind (reversal_financial_date vf db reversal) (\<lambda>r.
         Inr (if r \<le> on_date then active else active @ [settlement])))"

definition active_settlements ::
    "verifier \<Rightarrow> 'a loan_tables_scheme \<Rightarrow> int \<Rightarrow> date \<Rightarrow> settlement_row list res" where
  "active_settlements vf db installment_id on_date =
     fold_res (active_filter vf db on_date) (settlements_of installment_id db) []"

definition versioned_component :: "(settlement_row \<Rightarrow> cents option) \<Rightarrow> settlement_row list \<Rightarrow> cents" where
  "versioned_component field rows =
     (\<Sum>row\<leftarrow>filter (\<lambda>row. stl_component_version row = Some COMPONENT_VERSION) rows. money (field row))"

definition normal_interest_paid :: "settlement_row list \<Rightarrow> cents" where
  "normal_interest_paid rows =
     (\<Sum>row\<leftarrow>rows. if stl_component_version row = Some COMPONENT_VERSION
        then money (stl_normal_interest_applied row) else stl_interest_applied row)"

record obligation =
  ob_principal_due :: cents
  ob_normal_interest_due :: cents
  ob_fixed_penalty_due :: cents
  ob_late_interest_due :: cents
  ob_total_due :: cents

definition fixed_assessed :: "'a loan_tables_scheme \<Rightarrow> int \<Rightarrow> date \<Rightarrow> cents" where
  "fixed_assessed db installment_id on_date =
     (\<Sum>e\<leftarrow>filter (\<lambda>e. lce_effective_date e \<le> on_date)
        (event_query db installment_id FIXED_PENALTY_ASSESSED None None None). money (lce_amount e))"

definition loan_installment_obligation ::
    "verifier \<Rightarrow> 'a loan_tables_scheme \<Rightarrow> installment_row \<Rightarrow> moment \<Rightarrow> obligation res" where
  "loan_installment_obligation vf db installment financial_date =
     res_bind (financial_civil_date financial_date) (\<lambda>on_date.
     if on_date < ins_due_date installment then
       Inr \<lparr>ob_principal_due = 0, ob_normal_interest_due = 0, ob_fixed_penalty_due = 0,
            ob_late_interest_due = 0, ob_total_due = 0\<rparr>
     else res_bind (active_settlements vf db (ins_id installment) on_date) (\<lambda>settlements.
       res_bind (late_interest_materialized db (ins_id installment) (Some on_date)) (\<lambda>late.
       let principal_due = max 0 (ins_principal installment - (\<Sum>row\<leftarrow>settlements. stl_principal_applied row));
           normal_due = max 0 (ins_interest installment - normal_interest_paid settlements);
           fixed_due = max 0 (fixed_assessed db (ins_id installment) on_date
             - versioned_component stl_fixed_penalty_applied settlements);
           late_due = max 0 (late - versioned_component stl_late_interest_applied settlements)
       in Inr \<lparr>ob_principal_due = principal_due, ob_normal_interest_due = normal_due,
               ob_fixed_penalty_due = fixed_due, ob_late_interest_due = late_due,
               ob_total_due = principal_due + normal_due + fixed_due + late_due\<rparr>)))"

end
