(* ===== verification/Obligation_Properties.thy ===== *)
theory Obligation_Properties
  imports Loan_Obligations
begin

text \<open>
  What the obligation runtime promises: the components due are not negative and add up, the
  fixed penalty is assessed once, daily accruals add up to the late interest of the
  whole period, and accruing in several passes gives the same events as one pass.
\<close>

section \<open>Tables\<close>

lemma events_of_put [simp]: "events_of i (put_installment x db) = events_of i db"
  by (simp add: events_of_def)

lemma event_query_put [simp]: "event_query (put_installment x db) i t d s r = event_query db i t d s r"
  by (simp add: event_query_def)

lemma put_by_put_by [simp]: "k x = k y \<Longrightarrow> put_by k y (put_by k x rows) = put_by k y rows"
  by (induction rows) (auto simp: put_by_def)

lemma put_installment_twice [simp]:
  "ins_id x = ins_id y \<Longrightarrow> put_installment y (put_installment x db) = put_installment y db"
  by (simp add: put_installment_def)

lemma find_installment_Inr:
  "find_installment i db = Inr x \<longleftrightarrow> get_by ins_id i (db_installments db) = Some x"
  by (auto simp: find_installment_def split: option.splits)

lemma find_installment_id: "find_installment i db = Inr x \<Longrightarrow> ins_id x = i"
  by (auto simp: find_installment_Inr dest: get_by_Some_mem)

lemma find_installment_put:
  "find_installment i db = Inr x \<Longrightarrow> ins_id y = i \<Longrightarrow> find_installment i (put_installment y db) = Inr y"
  using get_by_put_same [of ins_id y "db_installments db"] by (auto simp: find_installment_Inr)

text \<open>The dates of settlements and reversals depend on those tables and the payments only.\<close>

definition same_evidence :: "'a loan_tables_scheme \<Rightarrow> 'a loan_tables_scheme \<Rightarrow> bool" where
  "same_evidence db db' \<longleftrightarrow> db_settlements db' = db_settlements db \<and> db_reversals db' = db_reversals db
     \<and> db_payments db' = db_payments db"

lemma movements_cong:
  assumes "same_evidence db db'"
  shows "late_principal_movements vf db' i = late_principal_movements vf db i"
proof -
  have s: "settlement_financial_date vf db' = settlement_financial_date vf db"
    "reversal_financial_date vf db' = reversal_financial_date vf db"
    using assms by (auto simp: same_evidence_def settlement_financial_date_def reversal_financial_date_def fun_eq_iff)
  have r: "reversal_by_settlement db' = reversal_by_settlement db"
    using assms by (auto simp: same_evidence_def reversal_by_settlement_def fun_eq_iff)
  have "principal_movements_of vf db' = principal_movements_of vf db"
    by (rule ext) (simp only: principal_movements_of_def s r)
  moreover have "settlements_of i db' = settlements_of i db"
    using assms by (simp add: same_evidence_def settlements_of_def)
  ultimately show ?thesis by (simp add: late_principal_movements_def)
qed

section \<open>The daily schedule\<close>

lemma late_principal_nonneg [simp]: "0 \<le> late_principal inst movements day"
  by (simp add: late_principal_def)

definition day_segments :: "(date \<Rightarrow> cents) \<Rightarrow> date list \<Rightarrow> principal_segment list" where
  "day_segments base days = map (\<lambda>d. \<lparr>sg_principal = dec (base d), sg_days = 1\<rparr>) days"

lemma day_segments_ok: "(\<And>d. 0 \<le> base d) \<Longrightarrow> list_all segment_ok (day_segments base days)"
  by (simp add: day_segments_def list_all_iff segment_ok_def)

text \<open>The cumulative interest through each day, in closed form.\<close>

fun schedule_rows :: "(date \<Rightarrow> cents) \<Rightarrow> principal_segment list \<Rightarrow> date list \<Rightarrow> (date \<times> cents \<times> cents) list" where
  "schedule_rows base segments [] = []"
| "schedule_rows base segments (d # ds) =
     (let segments' = segments @ [\<lparr>sg_principal = dec (base d), sg_days = 1\<rparr>]
      in (d, base d, cents (late_total segments')) # schedule_rows base segments' ds)"

lemma schedule_loop_eq:
  assumes "\<And>d. 0 \<le> base d" "list_all segment_ok segments"
  shows "schedule_loop base segments days = Inr (schedule_rows base segments days)"
  using assms(2)
proof (induction days arbitrary: segments)
  case (Cons d days)
  have "list_all segment_ok (segments @ [\<lparr>sg_principal = dec (base d), sg_days = 1\<rparr>])"
    using Cons.prems assms(1) by (simp add: segment_ok_def [of "\<lparr>sg_principal = dec (base d), sg_days = 1\<rparr>"])
  with Cons.IH show ?case by (simp add: Let_def calculate_late_interest_eq)
qed simp

lemma schedule_rows_append:
  "schedule_rows base segments (xs @ ys) =
     schedule_rows base segments xs @ schedule_rows base (segments @ day_segments base xs) ys"
  by (induction xs arbitrary: segments) (simp_all add: Let_def day_segments_def)

lemma schedule_rows_days [simp]: "map fst (schedule_rows base segments days) = days"
  by (induction days arbitrary: segments) (simp_all add: Let_def)

lemma schedule_rows_last:
  assumes "days \<noteq> []"
  shows "\<exists>p. last (schedule_rows base segments days)
    = (last days, p, cents (late_total (segments @ day_segments base days)))"
proof -
  from assms obtain ds d where days: "days = ds @ [d]" by (metis append_butlast_last_id)
  show ?thesis
    unfolding days schedule_rows_append by (simp add: Let_def day_segments_def)
qed

text \<open>Expected interests grow along the schedule.\<close>

fun grows :: "cents \<Rightarrow> (date \<times> cents \<times> cents) list \<Rightarrow> bool" where
  "grows r [] \<longleftrightarrow> True"
| "grows r ((d, p, x) # s) \<longleftrightarrow> r \<le> x \<and> grows x s"

lemma schedule_rows_grow:
  assumes "\<And>d. 0 \<le> base d"
  shows "grows (cents (late_total segments)) (schedule_rows base segments days)"
proof (induction days arbitrary: segments)
  case (Cons d days)
  have "late_total segments \<le> late_total (segments @ [\<lparr>sg_principal = dec (base d), sg_days = 1\<rparr>])"
    using assms by (intro late_total_mono) (simp add: segment_ok_def)
  with Cons show ?case by (simp add: Let_def cents_mono)
qed simp

section \<open>The accrual loop\<close>

text \<open>The events one pass appends, in closed form: day by day the growth of the interest.\<close>

fun accrual_rows :: "int \<Rightarrow> int \<Rightarrow> cents \<Rightarrow> (date \<times> cents \<times> cents) list \<Rightarrow> late_event_row list" where
  "accrual_rows i n r [] = []"
| "accrual_rows i n r ((d, p, x) # s) =
     (late_event i LATE_INTEREST_ACCRUED d (x - r) (Some p) None None)\<lparr>lce_id := n\<rparr>
       # accrual_rows i (n + 1) x s"

lemma next_id_snoc: "k r = next_id k rows \<Longrightarrow> next_id k (rows @ [r]) = next_id k rows + 1"
  by (simp add: next_id_def)

lemma accrual_rows_fields:
  "e \<in> set (accrual_rows i n r s) \<Longrightarrow> lce_installment_id e = i \<and> lce_version e = LATE_CHARGE_VERSION
     \<and> lce_event_type e = LATE_INTEREST_ACCRUED \<and> lce_effective_date e \<in> set (map fst s)"
  by (induction i n r s rule: accrual_rows.induct) (auto simp: late_event_def)

lemma accrual_rows_dates: "map lce_effective_date (accrual_rows i n r s) = map fst s"
  by (induction i n r s rule: accrual_rows.induct) (auto simp: late_event_def)

lemma accrual_rows_append:
  "accrual_rows i n r (s @ t) = accrual_rows i n r s
     @ accrual_rows i (n + int (length s)) (if s = [] then r else snd (snd (last s))) t"
  by (induction i n r s rule: accrual_rows.induct) (auto simp: add.assoc)

lemma accrual_rows_sum:
  "(\<Sum>e\<leftarrow>accrual_rows i n r s. event_delta e) = (if s = [] then 0 else snd (snd (last s)) - r)"
  by (induction i n r s rule: accrual_rows.induct) (auto simp: late_event_def event_delta_def money_def)

text \<open>The loop on days without events.\<close>

lemma insert_accrual:
  assumes "0 \<le> amount" "\<And>e. e \<in> set (db_late_events db) \<Longrightarrow> lce_installment_id e = i
      \<Longrightarrow> lce_version e = LATE_CHARGE_VERSION \<Longrightarrow> lce_event_type e = LATE_INTEREST_ACCRUED
      \<Longrightarrow> lce_effective_date e \<noteq> d"
  shows "insert_unique_event (late_event i LATE_INTEREST_ACCRUED d amount (Some p) None None) db =
    (let e = (late_event i LATE_INTEREST_ACCRUED d amount (Some p) None None)
               \<lparr>lce_id := next_id lce_id (db_late_events db)\<rparr>
     in Inr (e, True, db\<lparr>db_late_events := db_late_events db @ [e]\<rparr>))"
proof -
  have q: "event_query db i LATE_INTEREST_ACCRUED (Some d) None None = []"
    using assms(2) by (auto simp: event_query_def events_of_def filter_empty_conv)
  have "\<not> events_clash (late_event i LATE_INTEREST_ACCRUED d amount (Some p) None None) x"
    if "x \<in> set (db_late_events db)" for x
    using assms(2) [OF that]
    by (auto simp: events_clash_def late_event_def is_adjustment_def LATE_INTEREST_ACCRUED_def
        FIXED_PENALTY_ASSESSED_def ADJUSTMENT_INCREASE_def ADJUSTMENT_DECREASE_def)
  then have "\<not> list_ex (events_clash (late_event i LATE_INTEREST_ACCRUED d amount (Some p) None None)) (db_late_events db)"
    by (auto simp: list_ex_iff)
  with q assms(1) show ?thesis
    by (simp add: insert_unique_event_def one_or_none_def late_event_def money_def Let_def)
qed

lemma accrual_loop:
  assumes "grows r s" "distinct (map fst s)" "0 \<le> r" "\<forall>d\<in>set (map fst s). start \<le> d \<and> deltas d = 0"
    and "\<And>e. e \<in> set (db_late_events db) \<Longrightarrow> lce_installment_id e = i \<Longrightarrow> lce_version e = LATE_CHARGE_VERSION
      \<Longrightarrow> lce_event_type e = LATE_INTEREST_ACCRUED \<Longrightarrow> lce_effective_date e \<notin> set (map fst s)"
  shows "fold_res (accrual_step i deltas start) s \<lparr>ac_created = cr, ac_running = r, ac_db = db\<rparr> =
    (let rows = accrual_rows i (next_id lce_id (db_late_events db)) r s
     in Inr \<lparr>ac_created = cr @ rows, ac_running = (if s = [] then r else snd (snd (last s))),
             ac_db = db\<lparr>db_late_events := db_late_events db @ rows\<rparr>\<rparr>)"
  using assms
proof (induction s arbitrary: cr r db)
  case (Cons y s)
  obtain d p x where y: "y = (d, p, x)" by (cases y)
  define e where "e = (late_event i LATE_INTEREST_ACCRUED d (x - r) (Some p) None None)
    \<lparr>lce_id := next_id lce_id (db_late_events db)\<rparr>"
  define db2 where "db2 = db\<lparr>db_late_events := db_late_events db @ [e]\<rparr>"
  have rx: "r \<le> x" "grows x s" using Cons.prems(1) y by auto
  have ins: "insert_unique_event (late_event i LATE_INTEREST_ACCRUED d (x - r) (Some p) None None) db
      = Inr (e, True, db2)"
    using rx Cons.prems(5) y by (subst insert_accrual) (auto simp: e_def db2_def Let_def)
  have step: "accrual_step i deltas start y \<lparr>ac_created = cr, ac_running = r, ac_db = db\<rparr>
      = Inr \<lparr>ac_created = cr @ [e], ac_running = x, ac_db = db2\<rparr>"
    using rx Cons.prems(3,4) y ins
    by (auto simp: accrual_step_def max_def e_def late_event_def money_def)
  have nid: "next_id lce_id (db_late_events db2) = next_id lce_id (db_late_events db) + 1"
    by (simp add: db2_def e_def next_id_snoc)
  have "fold_res (accrual_step i deltas start) s \<lparr>ac_created = cr @ [e], ac_running = x, ac_db = db2\<rparr> =
    (let rows = accrual_rows i (next_id lce_id (db_late_events db2)) x s
     in Inr \<lparr>ac_created = (cr @ [e]) @ rows, ac_running = (if s = [] then x else snd (snd (last s))),
             ac_db = db2\<lparr>db_late_events := db_late_events db2 @ rows\<rparr>\<rparr>)"
  proof (rule Cons.IH [OF rx(2)])
    show "distinct (map fst s)" "0 \<le> x" "\<forall>d\<in>set (map fst s). start \<le> d \<and> deltas d = 0"
      using Cons.prems y rx by auto
    fix f assume f: "f \<in> set (db_late_events db2)" "lce_installment_id f = i" "lce_version f = LATE_CHARGE_VERSION"
      "lce_event_type f = LATE_INTEREST_ACCRUED"
    show "lce_effective_date f \<notin> set (map fst s)"
    proof (cases "f = e")
      case True
      with Cons.prems(2) y show ?thesis by (simp add: e_def late_event_def)
    next
      case False
      with f(1) have "f \<in> set (db_late_events db)" by (simp add: db2_def)
      from Cons.prems(5) [OF this f(2-4)] y show ?thesis by simp
    qed
  qed
  moreover have rows: "accrual_rows i (next_id lce_id (db_late_events db)) r (y # s)
      = e # accrual_rows i (next_id lce_id (db_late_events db2)) x s"
    by (simp only: y accrual_rows.simps nid e_def)
  moreover have "db2\<lparr>db_late_events := db_late_events db2 @ rows\<rparr>
      = db\<lparr>db_late_events := db_late_events db @ e # rows\<rparr>" for rows
    by (simp add: db2_def)
  moreover have "snd (snd (last (y # s))) = (if s = [] then x else snd (snd (last s)))"
    by (simp add: y)
  ultimately show ?case
    unfolding fold_res.simps step res_bind_Inr rows Let_def by simp
qed simp

text \<open>The loop on days accrued before: only the running total moves.\<close>

lemma accrual_skip:
  assumes "\<forall>d\<in>set (map fst s). d < start" "\<forall>d. 0 \<le> deltas d" "0 \<le> r"
  shows "fold_res (accrual_step i deltas start) s \<lparr>ac_created = cr, ac_running = r, ac_db = db\<rparr> =
    Inr \<lparr>ac_created = cr, ac_running = r + (\<Sum>d\<leftarrow>map fst s. deltas d), ac_db = db\<rparr>"
  using assms
proof (induction s arbitrary: r)
  case (Cons y s)
  obtain d p x where y: "y = (d, p, x)" by (cases y)
  have "0 \<le> r + deltas d" "d < start" using Cons.prems y by (auto intro: add_nonneg_nonneg)
  then have "accrual_step i deltas start y \<lparr>ac_created = cr, ac_running = r, ac_db = db\<rparr>
      = Inr \<lparr>ac_created = cr, ac_running = r + deltas d, ac_db = db\<rparr>"
    by (simp add: accrual_step_def y)
  then show ?case using Cons.IH [of "r + deltas d"] Cons.prems \<open>0 \<le> r + deltas d\<close>
    by (simp add: y add.assoc)
qed simp

section \<open>One pass from an accrued state\<close>

lemma max_date_eq: "max_date ds = (if ds = [] then None else Some (Max (set ds)))"
  using Max.set_eq_fold [of "hd ds" "tl ds"] by (cases ds) (auto simp: max_date_def)

lemma Max_upto: "a \<le> b \<Longrightarrow> Max (set [a..b]) = (b::int)"
  by (intro Max_eqI) auto

lemma upto_split_at: "a \<le> t + 1 \<Longrightarrow> t \<le> b \<Longrightarrow> [a..b] = [a..t] @ [t + 1..(b::int)]"
  using upto_split1 [of a "t + 1" b] by (cases "t = b") auto

lemma last_upto [simp]: "a \<le> b \<Longrightarrow> last [a..b] = (b::int)"
  by (simp add: upto_rec2)

lemma filter_unique:
  assumes "distinct (map f es)" "e \<in> set es"
  shows "filter (\<lambda>x. f x = f e) es = [e]"
  using assms
proof (induction es)
  case (Cons x es)
  show ?case
  proof (cases "x = e")
    case True
    with Cons.prems have "f e \<notin> f ` set es" by simp
    then have "filter (\<lambda>y. f y = f e) es = []" unfolding filter_empty_conv by (metis imageI)
    with True show ?thesis by simp
  next
    case False
    with Cons.prems have "f x \<noteq> f e" by auto
    with False Cons show ?thesis by simp
  qed
qed simp

text \<open>The rows of the schedule for the late days through \<open>t\<close>, and their last interest.\<close>

definition sched_to :: "(date \<Rightarrow> cents) \<Rightarrow> date \<Rightarrow> date \<Rightarrow> (date \<times> cents \<times> cents) list" where
  "sched_to base due t = schedule_rows base [] [due + 1..t]"

definition interest_to :: "(date \<Rightarrow> cents) \<Rightarrow> date \<Rightarrow> date \<Rightarrow> cents" where
  "interest_to base due t = cents (late_total (day_segments base [due + 1..t]))"

definition sched_between :: "(date \<Rightarrow> cents) \<Rightarrow> date \<Rightarrow> date \<Rightarrow> date \<Rightarrow> (date \<times> cents \<times> cents) list" where
  "sched_between base due t T = schedule_rows base (day_segments base [due + 1..t]) [t + 1..T]"

lemma sched_to_split: "due \<le> t \<Longrightarrow> t \<le> T \<Longrightarrow> sched_to base due T = sched_to base due t @ sched_between base due t T"
  by (simp add: sched_to_def sched_between_def upto_split_at [of "due + 1" t T] schedule_rows_append)

lemma sched_days [simp]: "map fst (sched_to base due t) = [due + 1..t]"
  "map fst (sched_between base due t T) = [t + 1..T]"
  by (simp_all add: sched_to_def sched_between_def)

lemma interest_to_due [simp]: "interest_to base due due = 0"
  by (simp add: interest_to_def day_segments_def)

lemma sched_to_last:
  assumes "due \<le> t"
  shows "(if sched_to base due t = [] then 0 else snd (snd (last (sched_to base due t)))) = interest_to base due t"
proof (cases "due < t")
  case True
  then have ne: "[due + 1..t] \<noteq> []" by simp
  from schedule_rows_last [OF this, of base "[]"] obtain p
    where "last (sched_to base due t) = (t, p, interest_to base due t)"
    using True by (auto simp: sched_to_def interest_to_def)
  moreover have "sched_to base due t \<noteq> []" using ne by (metis list.map_disc_iff sched_days(1))
  ultimately show ?thesis by simp
next
  case False
  with assms show ?thesis by (simp add: sched_to_def)
qed

lemma sched_between_last:
  assumes "due \<le> t" "t \<le> T"
  shows "(if sched_between base due t T = [] then interest_to base due t
    else snd (snd (last (sched_between base due t T)))) = interest_to base due T"
proof (cases "t < T")
  case True
  then have ne: "[t + 1..T] \<noteq> []" by simp
  have u: "day_segments base [due + 1..t] @ day_segments base [t + 1..T] = day_segments base [due + 1..T]"
    using assms by (simp add: day_segments_def upto_split_at [of "due + 1" t T])
  from schedule_rows_last [OF ne, of base "day_segments base [due + 1..t]"] obtain p
    where "last (sched_between base due t T) = (T, p, interest_to base due T)"
    using True by (auto simp: sched_between_def interest_to_def u)
  moreover have "sched_between base due t T \<noteq> []" using ne by (metis list.map_disc_iff sched_days(2))
  ultimately show ?thesis by simp
next
  case False
  with assms show ?thesis by (simp add: sched_between_def)
qed

lemma interest_to_nonneg: "(\<And>d. 0 \<le> base d) \<Longrightarrow> 0 \<le> interest_to base due t"
  by (simp add: interest_to_def cents_nonneg late_total_nonneg day_segments_ok)

lemma grows_deltas: "grows r s \<Longrightarrow> e \<in> set (accrual_rows i n r s) \<Longrightarrow> 0 \<le> event_delta e"
  by (induction i n r s rule: accrual_rows.induct) (auto simp: late_event_def event_delta_def money_def)

lemma sched_to_grows: "(\<And>d. 0 \<le> base d) \<Longrightarrow> grows 0 (sched_to base due t)"
  using schedule_rows_grow [of base "[]"] by (simp add: sched_to_def)

lemma sched_between_grows:
  "(\<And>d. 0 \<le> base d) \<Longrightarrow> grows (interest_to base due t) (sched_between base due t T)"
  using schedule_rows_grow [of base "day_segments base [due + 1..t]"]
  by (simp add: sched_between_def interest_to_def)

text \<open>The installment's events are the accruals through \<open>t\<close>.\<close>

definition accrued_to :: "'a loan_tables_scheme \<Rightarrow> int \<Rightarrow> (date \<Rightarrow> cents) \<Rightarrow> date \<Rightarrow> date \<Rightarrow> bool" where
  "accrued_to db i base due t \<longleftrightarrow> (\<exists>n. events_of i db = accrual_rows i n 0 (sched_to base due t))"

lemma accrued_query:
  assumes "accrued_to db i base due t"
  shows "accrued_days i db = [due + 1..t]"
proof -
  from assms obtain n where n: "events_of i db = accrual_rows i n 0 (sched_to base due t)"
    by (auto simp: accrued_to_def)
  then have "event_query db i LATE_INTEREST_ACCRUED None None None = events_of i db"
    by (auto simp: event_query_def filter_id_conv dest: accrual_rows_fields)
  then show ?thesis by (simp add: accrued_days_def n accrual_rows_dates)
qed

lemma accrued_deltas:
  assumes acc: "accrued_to db i base due t" and b: "\<And>d. 0 \<le> base d" and t: "due \<le> t" "t \<le> T"
  shows "0 \<le> deltas_on i T db d" "t < d \<Longrightarrow> deltas_on i T db d = 0"
    "(\<Sum>d\<leftarrow>[due + 1..t]. deltas_on i T db d) = interest_to base due t"
proof -
  from acc obtain n where n: "events_of i db = accrual_rows i n 0 (sched_to base due t)"
    by (auto simp: accrued_to_def)
  let ?es = "accrual_rows i n 0 (sched_to base due t)"
  have pos: "0 \<le> event_delta e" if "e \<in> set ?es" for e
    using grows_deltas [OF sched_to_grows that] b by simp
  show "0 \<le> deltas_on i T db d" for d
    unfolding deltas_on_def n by (intro sum_list_nonneg_int) (auto intro: pos)
  have dates: "map lce_effective_date ?es = [due + 1..t]" by (simp add: accrual_rows_dates)
  then have in_dates: "lce_effective_date e \<in> set [due + 1..t]" if "e \<in> set ?es" for e
    using that by (metis image_eqI list.set_map)
  then have le: "lce_effective_date e \<le> t" if "e \<in> set ?es" for e
    using that by force
  show "t < d \<Longrightarrow> deltas_on i T db d = 0" for d
    using le unfolding deltas_on_def n by (subst filter_False) force+
  have one: "deltas_on i T db (lce_effective_date e) = event_delta e" if "e \<in> set ?es" for e
  proof -
    have "filter (\<lambda>x. lce_effective_date x \<le> T \<and> lce_effective_date x = lce_effective_date e) ?es
        = filter (\<lambda>x. lce_effective_date x = lce_effective_date e) ?es"
      using le t(2) by (intro filter_cong) force+
    also have "\<dots> = [e]"
      using that dates by (intro filter_unique) (metis distinct_upto, simp)
    finally show ?thesis by (simp add: deltas_on_def n)
  qed
  have "(\<Sum>d\<leftarrow>[due + 1..t]. deltas_on i T db d) = (\<Sum>e\<leftarrow>?es. event_delta e)"
    unfolding dates [symmetric] by (simp add: o_def one cong: map_cong)
  also have "\<dots> = interest_to base due t"
    using sched_to_last [OF t(1), of base] by (auto simp: accrual_rows_sum split: if_splits)
  finally show "(\<Sum>d\<leftarrow>[due + 1..t]. deltas_on i T db d) = interest_to base due t" .
qed

lemma initialize_projection_Inr:
  "initialize_projection x = Inr y \<Longrightarrow> ins_id y = ins_id x \<and> ins_due_date y = ins_due_date x
     \<and> ins_principal y = ins_principal x \<and> ins_late_charge_version y = Some LATE_CHARGE_VERSION
     \<and> ins_late_interest_accrued_through_date y = ins_late_interest_accrued_through_date x"
  by (auto simp: initialize_projection_def split: option.splits if_splits)

lemma initialize_projection_again:
  "ins_late_charge_version x = Some LATE_CHARGE_VERSION \<Longrightarrow> initialize_projection x = Inr x"
  by (simp add: initialize_projection_def)

definition advance_cursor :: "date \<Rightarrow> date option \<Rightarrow> date option" where
  "advance_cursor T c = (case c of None \<Rightarrow> Some T | Some c \<Rightarrow> Some (max c T))"

definition pass_rows :: "'a loan_tables_scheme \<Rightarrow> int \<Rightarrow> (date \<Rightarrow> cents) \<Rightarrow> date \<Rightarrow> date \<Rightarrow> date \<Rightarrow> late_event_row list" where
  "pass_rows db i base due t T =
     accrual_rows i (next_id lce_id (db_late_events db)) (interest_to base due t) (sched_between base due t T)"

lemma events_of_append:
  "events_of i (db\<lparr>db_late_events := db_late_events db @ rows\<rparr>) =
     events_of i db @ filter (\<lambda>e. lce_installment_id e = i \<and> lce_version e = LATE_CHARGE_VERSION) rows"
  by (simp add: events_of_def)

lemma pass_rows_events:
  "filter (\<lambda>e. lce_installment_id e = i \<and> lce_version e = LATE_CHARGE_VERSION) (pass_rows db i base due t T)
     = pass_rows db i base due t T"
  by (auto simp: pass_rows_def filter_id_conv dest: accrual_rows_fields)

lemma accrual_rows_ids:
  assumes "events_of i db = accrual_rows i n 0 (sched_to base due t)"
  shows "(\<Sum>e\<leftarrow>events_of i db. event_delta e) = (if sched_to base due t = [] then 0 else snd (snd (last (sched_to base due t))))"
  by (simp add: assms accrual_rows_sum)

text \<open>One pass through \<open>T\<close> over an installment accrued through \<open>t\<close>, in closed form.\<close>

lemma materialize_pass:
  assumes find: "find_installment i db = Inr inst0" and due: "ins_due_date inst0 = due"
    and elig: "is_late_charge_eligible due (Some eff)" and late: "due < T" "due \<le> t" "t \<le> T"
    and init: "initialize_projection inst0 = Inr inst"
    and ms: "late_principal_movements vf db i = Inr ms" and base: "base = late_principal inst ms"
    and acc: "accrued_to db i base due t"
  shows "materialize_daily_late_interest vf i (Civil T) (Some eff) db =
    Inr (pass_rows db i base due t T, put_installment
      (inst\<lparr>ins_late_interest_accrued_through_date :=
               advance_cursor T (ins_late_interest_accrued_through_date inst0),
            ins_late_interest_amount := Some (interest_to base due T)\<rparr>)
      (db\<lparr>db_late_events := db_late_events db @ pass_rows db i base due t T\<rparr>))"
proof -
  note inst = initialize_projection_Inr [OF init] find_installment_id [OF find]
  have b: "\<And>d. 0 \<le> base d" by (simp add: base)
  obtain n where n: "events_of i db = accrual_rows i n 0 (sched_to base due t)"
    using acc by (auto simp: accrued_to_def)
  let ?s = "sched_between base due t T"
  let ?rows = "pass_rows db i base due t T"
  let ?deltas = "deltas_on i T db"
  note deltas = accrued_deltas [OF acc b late(2,3)]
  have start: "(case max_date (accrued_days i db) of None \<Rightarrow> ins_due_date inst + 1
      | Some d \<Rightarrow> max (ins_due_date inst + 1) (d + 1)) = t + 1"
    using late(2) inst due Max_upto [of "due + 1" t] by (simp add: accrued_query [OF acc] max_date_eq)
  have sched: "daily_late_schedule vf db inst T = Inr (sched_to base due t @ ?s)"
    using inst due ms schedule_loop_eq [of base "[]" "[due + 1..T]"] b sched_to_split [OF late(2,3), of base]
    by (simp add: daily_late_schedule_def base [symmetric] sched_to_def)
  have skip: "fold_res (accrual_step i ?deltas (t + 1)) (sched_to base due t)
      \<lparr>ac_created = [], ac_running = 0, ac_db = db\<rparr>
      = Inr \<lparr>ac_created = [], ac_running = interest_to base due t, ac_db = db\<rparr>"
    using accrual_skip [of "sched_to base due t" "t + 1" ?deltas 0 i "[]" db] deltas by simp
  have free: "lce_effective_date e \<notin> set (map fst ?s)"
    if "e \<in> set (db_late_events db)" "lce_installment_id e = i" "lce_version e = LATE_CHARGE_VERSION" for e
  proof -
    have "e \<in> set (events_of i db)" using that by (simp add: events_of_def)
    then have "lce_effective_date e \<in> set [due + 1..t]"
      using accrual_rows_fields [of e i n 0 "sched_to base due t"] by (simp only: n sched_days)
    then show ?thesis by auto
  qed
  have loop: "fold_res (accrual_step i ?deltas (t + 1)) ?s
      \<lparr>ac_created = [], ac_running = interest_to base due t, ac_db = db\<rparr>
    = Inr \<lparr>ac_created = ?rows, ac_running = interest_to base due T,
           ac_db = db\<lparr>db_late_events := db_late_events db @ ?rows\<rparr>\<rparr>"
  proof -
    have dl: "\<forall>d\<in>set (map fst ?s). t + 1 \<le> d \<and> ?deltas d = 0"
      using deltas(2) by auto
    have di: "distinct (map fst ?s)" by (simp only: sched_days distinct_upto)
    have "fold_res (accrual_step i ?deltas (t + 1)) ?s
        \<lparr>ac_created = [], ac_running = interest_to base due t, ac_db = db\<rparr> =
      (let rows = accrual_rows i (next_id lce_id (db_late_events db)) (interest_to base due t) ?s
       in Inr \<lparr>ac_created = [] @ rows,
               ac_running = (if ?s = [] then interest_to base due t else snd (snd (last ?s))),
               ac_db = db\<lparr>db_late_events := db_late_events db @ rows\<rparr>\<rparr>)"
      by (rule accrual_loop [OF sched_between_grows [OF b] di interest_to_nonneg [OF b] dl]) (rule free)
    then show ?thesis
      unfolding sched_between_last [OF late(2,3)] Let_def pass_rows_def by simp
  qed
  let ?db1 = "db\<lparr>db_late_events := db_late_events db @ ?rows\<rparr>"
  have ev1: "events_of i ?db1 = events_of i db @ ?rows"
    by (simp only: events_of_append pass_rows_events)
  have sum1: "(\<Sum>e\<leftarrow>events_of i db. event_delta e) = interest_to base due t"
    using sched_to_last [OF late(2), where base = base] by (simp only: accrual_rows_ids [OF n])
  have sum2: "(\<Sum>e\<leftarrow>?rows. event_delta e) = interest_to base due T - interest_to base due t"
    using sched_between_last [OF late(2,3), where base = base]
    by (auto simp: pass_rows_def accrual_rows_sum split: if_splits)
  have sum: "(\<Sum>e\<leftarrow>events_of i ?db1. event_delta e) = interest_to base due T"
    by (simp add: ev1 sum1 sum2)
  have mat: "late_interest_materialized ?db1 i None = Inr (interest_to base due T)"
    using sum interest_to_nonneg [where base = base and due = due and t = T, OF b] by (simp add: late_interest_materialized_def)
  have days: "accrued_days i ?db1 = [due + 1..T]"
  proof -
    have f1: "lce_event_type e = LATE_INTEREST_ACCRUED" if "e \<in> set (events_of i db)" for e
      using that accrual_rows_fields [of e i n 0 "sched_to base due t"] by (simp add: n)
    have f2: "lce_event_type e = LATE_INTEREST_ACCRUED" if "e \<in> set ?rows" for e
      using that accrual_rows_fields [of e i _ "interest_to base due t" ?s] by (simp add: pass_rows_def)
    have "event_query ?db1 i LATE_INTEREST_ACCRUED None None None = events_of i ?db1"
      unfolding event_query_def ev1 using f1 f2 by (auto simp: filter_id_conv)
    moreover have "map lce_effective_date (events_of i db) = [due + 1..t]"
      by (simp add: n accrual_rows_dates)
    moreover have "map lce_effective_date ?rows = [t + 1..T]"
      by (simp add: pass_rows_def accrual_rows_dates)
    ultimately show ?thesis
      using late(2,3) by (simp only: accrued_days_def ev1 map_append upto_split_at [of "due + 1" t T])
  qed
  have cursor: "(case max_date (accrued_days i ?db1) of None \<Rightarrow> c
      | Some largest \<Rightarrow> (case c of None \<Rightarrow> Some largest | Some c \<Rightarrow> if c < largest then Some largest else Some c))
      = advance_cursor T c" for c
    using late Max_upto [of "due + 1" T]
    by (auto simp: days max_date_eq advance_cursor_def max_def split: option.splits)
  show ?thesis
    unfolding materialize_daily_late_interest_def
    using find due elig late inst
    by (simp add: init Let_def start sched fold_res_append skip loop project_accrual_def mat cursor)
qed

section \<open>Properties\<close>

lemma sched_to_empty [simp]: "sched_to base due due = []"
  by (simp add: sched_to_def)

lemma sched_between_due [simp]: "sched_between base due due T = sched_to base due T"
  by (simp add: sched_between_def sched_to_def day_segments_def)

lemma fresh_accrued: "events_of i db = [] \<Longrightarrow> accrued_to db i base due due"
  by (simp add: accrued_to_def)

lemma fresh_pass_accrued:
  "events_of i db = [] \<Longrightarrow>
     accrued_to (put_installment x (db\<lparr>db_late_events := db_late_events db @ pass_rows db i base due due T\<rparr>)) i base due T"
  by (auto simp: accrued_to_def events_of_append pass_rows_events) (auto simp: pass_rows_def)

text \<open>The run of a pass that does something, taken apart.\<close>

lemma materialize_pieces:
  assumes "materialize_daily_late_interest vf i (Civil T) (Some d) db = Inr (created, db')"
    and "find_installment i db = Inr inst0" "is_late_charge_eligible (ins_due_date inst0) (Some d)"
    and "ins_due_date inst0 < T"
  obtains inst ms where "initialize_projection inst0 = Inr inst" "late_principal_movements vf db i = Inr ms"
proof -
  from assms obtain inst schedule where i: "initialize_projection inst0 = Inr inst"
    and s: "daily_late_schedule vf db inst T = Inr schedule"
    by (auto simp: materialize_daily_late_interest_def res_bind_eq_Inr Let_def)
  from s obtain ms where "late_principal_movements vf db i = Inr ms"
    using initialize_projection_Inr [OF i] find_installment_id [OF assms(2)]
    by (auto simp: daily_late_schedule_def res_bind_eq_Inr)
  with i show ?thesis by (rule that)
qed

lemma materialize_idle:
  assumes "find_installment i db = Inr inst0"
    and "\<not> (\<exists>d. eff = Some d \<and> is_late_charge_eligible (ins_due_date inst0) eff \<and> ins_due_date inst0 < T)"
  shows "materialize_daily_late_interest vf i (Civil T) eff db = Inr ([], db)"
  using assms by (cases eff) (auto simp: materialize_daily_late_interest_def)

lemma late_principal_cong:
  "ins_principal x = ins_principal y \<Longrightarrow> late_principal x ms = late_principal y ms"
  by (simp add: late_principal_def fun_eq_iff)

text \<open>For an installment without late-charge events, one materialization through a late
  date makes the materialized interest equal to the late interest the schedule demands for the
  whole period: the daily amounts, each rounded as a difference, add up to the amount rounded once.\<close>

theorem accrual_equals_expected:
  assumes "events_of i db = []" "find_installment i db = Inr inst" "ins_due_date inst < T"
    and "is_late_charge_eligible (ins_due_date inst) eff"
    and "materialize_daily_late_interest vf i (Civil T) eff db = Inr (created, db')"
  shows "expected_late_interest vf db' inst T = late_interest_materialized db' i (Some T)
    \<and> length created = nat (T - ins_due_date inst)
    \<and> map lce_effective_date created = [ins_due_date inst + 1..T]
    \<and> (\<forall>e\<in>set created. 0 \<le> money (lce_amount e))"
proof -
  let ?due = "ins_due_date inst"
  obtain d where eff: "eff = Some d" using assms(4) by (cases eff) (auto simp: is_late_charge_eligible_def)
  obtain inst1 ms where init: "initialize_projection inst = Inr inst1"
    and ms: "late_principal_movements vf db i = Inr ms"
    by (rule materialize_pieces [OF assms(5) [unfolded eff] assms(2) assms(4) [unfolded eff] assms(3)])
  define base where "base = late_principal inst1 ms"
  have b: "\<And>d. 0 \<le> base d" by (simp add: base_def)
  note pass = materialize_pass [OF assms(2) refl assms(4) [unfolded eff] assms(3) order_refl
      less_imp_le [OF assms(3)] init ms base_def fresh_accrued [OF assms(1)]]
  let ?rows = "pass_rows db i base ?due ?due T"
  let ?x = "inst1\<lparr>ins_late_interest_accrued_through_date :=
      advance_cursor T (ins_late_interest_accrued_through_date inst),
      ins_late_interest_amount := Some (interest_to base ?due T)\<rparr>"
  let ?db' = "put_installment ?x (db\<lparr>db_late_events := db_late_events db @ ?rows\<rparr>)"
  have res: "created = ?rows" "db' = ?db'" using pass assms(5) eff by auto
  have rows: "?rows = accrual_rows i (next_id lce_id (db_late_events db)) 0 (sched_to base ?due T)"
    by (simp add: pass_rows_def)
  have ev: "events_of i db' = ?rows"
    using assms(1) by (simp add: res(2) events_of_append pass_rows_events)
  have dates: "map lce_effective_date ?rows = [?due + 1..T]" by (simp add: rows accrual_rows_dates)
  then have le: "lce_effective_date e \<le> T" if "e \<in> set ?rows" for e
    using that by (metis atLeastAtMost_iff image_eqI list.set_map set_upto)
  have sum: "(\<Sum>e\<leftarrow>?rows. event_delta e) = interest_to base ?due T"
    using sched_to_last [OF less_imp_le [OF assms(3)], where base = base]
    by (auto simp: rows accrual_rows_sum split: if_splits)
  have "filter (\<lambda>e. lce_effective_date e \<le> T) ?rows = ?rows" using le by (simp add: filter_id_conv)
  then have mat: "late_interest_materialized db' i (Some T) = Inr (interest_to base ?due T)"
    using sum interest_to_nonneg [where base = base and due = ?due and t = T, OF b] by (simp add: late_interest_materialized_def ev)
  have "same_evidence db db'" by (simp add: same_evidence_def res(2))
  then have ms': "late_principal_movements vf db' i = Inr ms" using ms by (simp add: movements_cong)
  have base': "late_principal inst ms = base"
    unfolding base_def by (rule late_principal_cong) (simp add: initialize_projection_Inr [OF init])
  have "daily_late_schedule vf db' inst T = Inr (sched_to base ?due T)"
    using find_installment_id [OF assms(2)] schedule_loop_eq [of base "[]" "[?due + 1..T]"] b ms'
    by (simp add: daily_late_schedule_def base' sched_to_def)
  then have ex: "expected_late_interest vf db' inst T = Inr (interest_to base ?due T)"
    using sched_to_last [OF less_imp_le [OF assms(3)], where base = base] assms(3)
    by (auto simp: expected_late_interest_def last_opt_def split: if_splits prod.splits)
  have "0 \<le> money (lce_amount e)" if "e \<in> set ?rows" for e
  proof -
    have "0 \<le> event_delta e"
      using grows_deltas [OF sched_to_grows [of base, OF b] that [unfolded rows]] .
    then show ?thesis
      using accrual_rows_fields [OF that [unfolded rows]] by (simp add: event_delta_def)
  qed
  moreover have "length ?rows = nat (T - ?due)"
    using arg_cong [OF dates, of length] assms(3) by simp
  ultimately show ?thesis
    unfolding ex mat res(1) dates by blast
qed

lemma next_id_accruals:
  "next_id lce_id (rows @ accrual_rows i (next_id lce_id rows) r s) = next_id lce_id rows + int (length s)"
proof (induction s arbitrary: rows r)
  case (Cons y s)
  obtain d p x where y: "y = (d, p, x)" by (cases y)
  define e where "e = (late_event i LATE_INTEREST_ACCRUED d (x - r) (Some p) None None)\<lparr>lce_id := next_id lce_id rows\<rparr>"
  have "next_id lce_id (rows @ [e]) = next_id lce_id rows + 1" by (rule next_id_snoc) (simp add: e_def)
  with Cons.IH [of "rows @ [e]" x] show ?case by (simp add: y e_def)
qed simp

lemma pass_rows_compose:
  assumes "due \<le> t" "t \<le> T"
  shows "pass_rows db i base due due T = pass_rows db i base due due t
    @ pass_rows (db\<lparr>db_late_events := db_late_events db @ pass_rows db i base due due t\<rparr>) i base due t T"
  using sched_to_split [OF assms, of base] sched_to_last [OF assms(1), of base]
  by (simp add: pass_rows_def accrual_rows_append next_id_accruals)

lemma pass_rows_put [simp]: "pass_rows (put_installment x db) i base due t T = pass_rows db i base due t T"
  by (simp add: pass_rows_def)

lemma put_installment_events [simp]:
  "(put_installment x db)\<lparr>db_late_events := es\<rparr> = put_installment x (db\<lparr>db_late_events := es\<rparr>)"
  by (simp add: put_installment_def)

lemma advance_cursor_twice: "t \<le> T \<Longrightarrow> advance_cursor T (advance_cursor t c) = advance_cursor T c"
  by (auto simp: advance_cursor_def split: option.splits)

text \<open>A pass that cannot start or finds nothing to do, and one that cannot read its evidence.\<close>

lemma materialize_error:
  assumes "find_installment i db = Inr inst0" "is_late_charge_eligible (ins_due_date inst0) (Some eff)"
    and "ins_due_date inst0 < T"
    and "res_bind (initialize_projection inst0) (\<lambda>_. late_principal_movements vf db i) = Inl e"
  shows "materialize_daily_late_interest vf i (Civil T) (Some eff) db = Inl e"
proof (cases "initialize_projection inst0")
  case (Inl e')
  with assms show ?thesis by (simp add: materialize_daily_late_interest_def)
next
  case (Inr inst)
  with assms initialize_projection_Inr [OF Inr] find_installment_id [OF assms(1)] show ?thesis
    by (simp add: materialize_daily_late_interest_def daily_late_schedule_def Let_def)
qed


section \<open>The fixed penalty is assessed once\<close>

lemma event_query_append:
  "event_query (db\<lparr>db_late_events := db_late_events db @ [e]\<rparr>) i t d s r =
     event_query db i t d s r
       @ event_query (db\<lparr>db_late_events := [e]\<rparr>) i t d s r"
  by (simp add: event_query_def events_of_def)

lemma one_or_none_Inr: "one_or_none xs = Inr y \<longleftrightarrow> (case y of None \<Rightarrow> xs = [] | Some x \<Rightarrow> xs = [x])"
  by (auto simp: one_or_none_def split: list.splits option.splits)

text \<open>What a run of \<open>materialize_fixed_penalty\<close> that returned an event has done.\<close>

definition penalised :: "int \<Rightarrow> installment_row \<Rightarrow> late_event_row \<Rightarrow> 'a loan_tables_scheme \<Rightarrow> 'a loan_tables_scheme
    \<Rightarrow> installment_row \<Rightarrow> 'a loan_tables_scheme \<Rightarrow> bool" where
  "penalised i inst ev db db1 inst' db0 \<longleftrightarrow>
     db1 = put_installment inst' db0 \<and> db_installments db0 = db_installments db
   \<and> event_query db0 i FIXED_PENALTY_ASSESSED None None None = [ev]
   \<and> ins_id inst' = i \<and> ins_due_date inst' = ins_due_date inst
   \<and> ins_late_charge_version inst' = Some LATE_CHARGE_VERSION
   \<and> ins_fixed_penalty_amount inst' = Some (money (lce_amount ev))"

lemma fixed_penalty_run:
  assumes "materialize_fixed_penalty vf i t eff db = Inr (Some ev, db1)" "find_installment i db = Inr inst"
  shows "is_late_charge_eligible (ins_due_date inst) eff \<and> eff \<noteq> None
    \<and> (\<exists>inst' db0. penalised i inst ev db db1 inst' db0)"
proof -
  note id = find_installment_id [OF assms(2)]
  obtain d where d: "financial_civil_date t = Inr d" and eff: "eff \<noteq> None"
    using assms by (auto simp: materialize_fixed_penalty_def res_bind_eq_Inr split: if_splits)
  from assms d eff id have el: "is_late_charge_eligible (ins_due_date inst) eff"
    by (auto simp: materialize_fixed_penalty_def Let_def split: if_splits)
  from assms d eff id obtain q where q: "one_or_none (event_query db i FIXED_PENALTY_ASSESSED None None None) = Inr q"
    by (auto simp: materialize_fixed_penalty_def Let_def res_bind_eq_Inr split: if_splits)
  show ?thesis
  proof (cases q)
    case (Some e)
    then have query: "event_query db i FIXED_PENALTY_ASSESSED None None None = [e]"
      using q by (simp add: one_or_none_Inr)
    from assms d eff id q Some obtain j where "initialize_projection inst = Inr j"
      and "ev = e" "db1 = put_installment (j\<lparr>ins_fixed_penalty_amount := Some (money (lce_amount e))\<rparr>) db"
      by (auto simp: materialize_fixed_penalty_def Let_def res_bind_eq_Inr split: if_splits)
    with initialize_projection_Inr [of inst j] id query have "penalised i inst ev db db1 (j\<lparr>ins_fixed_penalty_amount := Some (money (lce_amount e))\<rparr>) db"
      by (simp add: penalised_def)
    with el eff show ?thesis by blast
  next
    case None
    from assms d eff id q None obtain j e b db' where j: "initialize_projection inst = Inr j"
      and ins: "insert_unique_event (late_event i FIXED_PENALTY_ASSESSED (ins_due_date inst + 1)
         (calculate_fixed_penalty False) None None None) db = Inr (e, b, db')"
      and res: "ev = e" "db1 = put_installment (j\<lparr>ins_fixed_penalty_amount := Some (money (lce_amount e))\<rparr>) db'"
      by (auto simp: materialize_fixed_penalty_def Let_def res_bind_eq_Inr split: if_splits)
    have none: "event_query db i FIXED_PENALTY_ASSESSED None None None = []"
      using q None by (simp add: one_or_none_Inr)
    have "db' = db\<lparr>db_late_events := db_late_events db @ [e]\<rparr>"
      "event_query (db\<lparr>db_late_events := [e]\<rparr>) i FIXED_PENALTY_ASSESSED None None None = [e]"
      using ins none
      by (auto simp: insert_unique_event_def late_event_def one_or_none_def Let_def event_query_def events_of_def
          FIXED_PENALTY_ASSESSED_def LATE_INTEREST_ACCRUED_def split: if_splits)
    with none have q': "event_query db' i FIXED_PENALTY_ASSESSED None None None = [e]" "db_installments db' = db_installments db"
      by (simp_all add: event_query_append)
    with initialize_projection_Inr [OF j] id res have "penalised i inst ev db db1 (j\<lparr>ins_fixed_penalty_amount := Some (money (lce_amount e))\<rparr>) db'"
      by (simp add: penalised_def)
    with el eff show ?thesis by blast
  qed
qed

text \<open>The fixed penalty is assessed at most once: a run that returned its event leaves exactly
  that one event for the installment, and every later run finds it and changes nothing.\<close>

theorem fixed_penalty_once:
  assumes "materialize_fixed_penalty vf i t eff db = Inr (Some ev, db1)" "find_installment i db = Inr inst"
    and "financial_civil_date t' = Inr d" "ins_due_date inst < d"
  shows "event_query db1 i FIXED_PENALTY_ASSESSED None None None = [ev]
    \<and> materialize_fixed_penalty vf i t' eff db1 = Inr (Some ev, db1)"
proof -
  from fixed_penalty_run [OF assms(1,2)] obtain inst' db0
    where el: "is_late_charge_eligible (ins_due_date inst) eff" "eff \<noteq> None"
      and p: "penalised i inst ev db db1 inst' db0" by blast
  note r = p [unfolded penalised_def]
  have find: "find_installment i db1 = Inr inst'"
    using find_installment_put [of i db0 inst inst'] assms(2) r by (simp add: find_installment_Inr)
  have fixed: "inst'\<lparr>ins_fixed_penalty_amount := Some (money (lce_amount ev))\<rparr> = inst'" using r by simp
  have q: "event_query db1 i FIXED_PENALTY_ASSESSED None None None = [ev]" using r by simp
  have id: "ins_id inst' = i" "ins_due_date inst' = ins_due_date inst"
    "ins_late_charge_version inst' = Some LATE_CHARGE_VERSION" using r by auto
  have "materialize_fixed_penalty vf i t' eff db1 = Inr (Some ev, put_installment inst' db1)"
    using assms(3,4) el q id
    by (simp add: materialize_fixed_penalty_def find Let_def one_or_none_def initialize_projection_again fixed)
  with q show ?thesis using r by simp
qed

section \<open>What is due\<close>

text \<open>A settlement in force on a date, as a predicate: dated by then and not reversed by then.\<close>

definition in_force :: "verifier \<Rightarrow> 'a loan_tables_scheme \<Rightarrow> date \<Rightarrow> settlement_row \<Rightarrow> bool" where
  "in_force vf db on_date s \<longleftrightarrow>
     (case settlement_financial_date vf db s of Inl _ \<Rightarrow> False
      | Inr paid \<Rightarrow> paid \<le> on_date
          \<and> (case reversal_by_settlement db (stl_id s) of None \<Rightarrow> True
             | Some r \<Rightarrow> (case reversal_financial_date vf db r of Inl _ \<Rightarrow> False | Inr reversed \<Rightarrow> on_date < reversed)))"

lemma active_filter_eq:
  "active_filter vf db d s active = Inr out \<Longrightarrow> out = active @ filter (in_force vf db d) [s]"
  by (auto simp: active_filter_def in_force_def res_bind_eq_Inr split: if_splits option.splits)

lemma active_fold:
  "fold_res (active_filter vf db d) ss acc = Inr out \<Longrightarrow> out = acc @ filter (in_force vf db d) ss"
proof (induction ss arbitrary: acc)
  case (Cons s ss)
  then obtain a where a: "active_filter vf db d s acc = Inr a" "fold_res (active_filter vf db d) ss a = Inr out"
    by (auto simp: res_bind_eq_Inr)
  with Cons.IH [OF a(2)] active_filter_eq [OF a(1)] show ?case by auto
qed simp

lemma active_settlements_eq:
  "active_settlements vf db i d = Inr out \<Longrightarrow> out = filter (in_force vf db d) (settlements_of i db)"
  unfolding active_settlements_def by (drule active_fold) simp

text \<open>What an installment owes on a date: nothing before its due date, and after it the
  principal, normal interest, fixed penalty and late interest less what the settlements in force then
  have applied, each never below zero, and a total that is their sum.\<close>

theorem obligation_components:
  assumes "loan_installment_obligation vf db inst t = Inr ob" "financial_civil_date t = Inr d"
  shows "(d < ins_due_date inst \<longrightarrow> ob_total_due ob = 0)
    \<and> 0 \<le> ob_principal_due ob \<and> 0 \<le> ob_normal_interest_due ob \<and> 0 \<le> ob_fixed_penalty_due ob \<and> 0 \<le> ob_late_interest_due ob
    \<and> ob_total_due ob = ob_principal_due ob + ob_normal_interest_due ob + ob_fixed_penalty_due ob + ob_late_interest_due ob
    \<and> (ins_due_date inst \<le> d \<longrightarrow> ob_principal_due ob =
        max 0 (ins_principal inst - (\<Sum>s\<leftarrow>filter (in_force vf db d) (settlements_of (ins_id inst) db). stl_principal_applied s)))"
  using assms
  by (auto simp: loan_installment_obligation_def res_bind_eq_Inr Let_def dest: active_settlements_eq split: if_splits)

text \<open>Reversing brings the debt back: once no settlement of a late installment is in force, it owes
  its whole principal and normal interest, the assessed penalty and all late interest accrued by then.\<close>

theorem reversed_settlements_restore_debt:
  assumes "loan_installment_obligation vf db inst t = Inr ob" "financial_civil_date t = Inr d"
    and "ins_due_date inst \<le> d" "\<forall>s\<in>set (settlements_of (ins_id inst) db). \<not> in_force vf db d s"
  shows "ob_principal_due ob = max 0 (ins_principal inst) \<and> ob_normal_interest_due ob = max 0 (ins_interest inst)
    \<and> ob_fixed_penalty_due ob = max 0 (fixed_assessed db (ins_id inst) d)
    \<and> late_interest_materialized db (ins_id inst) (Some d) = Inr (ob_late_interest_due ob)"
proof -
  from assms(1-3) obtain ss late where ss: "active_settlements vf db (ins_id inst) d = Inr ss"
    and late: "late_interest_materialized db (ins_id inst) (Some d) = Inr late"
    and ob: "ob_principal_due ob = max 0 (ins_principal inst - (\<Sum>row\<leftarrow>ss. stl_principal_applied row))"
      "ob_normal_interest_due ob = max 0 (ins_interest inst - normal_interest_paid ss)"
      "ob_fixed_penalty_due ob = max 0 (fixed_assessed db (ins_id inst) d - versioned_component stl_fixed_penalty_applied ss)"
      "ob_late_interest_due ob = max 0 (late - versioned_component stl_late_interest_applied ss)"
    by (auto simp: loan_installment_obligation_def res_bind_eq_Inr Let_def)
  have "ss = []" using active_settlements_eq [OF ss] assms(4) by (simp add: filter_empty_conv)
  moreover have "0 \<le> late" using late by (auto simp: late_interest_materialized_def Let_def split: if_splits)
  ultimately show ?thesis using ob late by (simp add: normal_interest_paid_def versioned_component_def)
qed

section \<open>Witnesses\<close>

definition demo_installment :: installment_row where
  "demo_installment = \<lparr>ins_id = 3, ins_loan_id = 1, ins_number = 1, ins_due_date = 20001, ins_principal = 100000,
     ins_interest = 20000, ins_amount = 120000, ins_paid_amount = 0, ins_penalty_amount = 0,
     ins_paid_penalty_amount = 0, ins_last_penalty_date = None, ins_late_charge_version = None,
     ins_fixed_penalty_amount = None, ins_paid_fixed_penalty_amount = None, ins_late_interest_amount = None,
     ins_paid_late_interest_amount = None, ins_late_interest_accrued_through_date = None,
     ins_paid_at = None, ins_status = ''PENDING'', ins_collection_stage = ''NORMAL''\<rparr>"

definition demo_loan_db :: loan_tables where
  "demo_loan_db = \<lparr>db_ledger = [], db_accounts = [], db_entries = [], db_members = [], db_audit = [], db_notifications = [],
     db_loans = [], db_installments = [demo_installment], db_late_events = [], db_settlements = [demo_settlement],
     db_reversals = [], db_payments = [demo_payment]\<rparr>"

lemma demo_loan_db_simps [simp]:
  "find_installment 3 demo_loan_db = Inr demo_installment" "events_of 3 demo_loan_db = []"
  "ins_due_date demo_installment = 20001" "ins_id demo_installment = 3" "ins_principal demo_installment = 100000"
  "ins_interest demo_installment = 20000" "ins_late_charge_version demo_installment = None"
  by (simp_all add: find_installment_def demo_loan_db_def demo_installment_def events_of_def)

lemma demo_settlements [simp]: "settlements_of 3 demo_loan_db = [demo_settlement]"
  by (simp add: settlements_of_def demo_loan_db_def demo_settlement_def)

lemma demo_settlement_date:
  "settlement_financial_date vf demo_loan_db demo_settlement = Inr (stored_financial_date (Naive (20000 * day_us)))"
  by (simp add: settlement_financial_date_def demo_settlement_def LEGACY_SETTLEMENT_VERSIONS_def)

lemma demo_reversal [simp]: "reversal_by_settlement demo_loan_db x = None"
  by (simp add: reversal_by_settlement_def demo_loan_db_def last_opt_def)

lemma demo_movements:
  "late_principal_movements vf demo_loan_db 3 = Inr [(stored_financial_date (Naive (20000 * day_us)) + 1, 20000)]"
  by (simp add: late_principal_movements_def principal_movements_of_def demo_settlement_date)
    (simp add: demo_settlement_def)

lemma demo_init: "\<exists>x. initialize_projection demo_installment = Inr x"
  by (simp add: initialize_projection_def)

lemma demo_accrual_run: "20001 < T \<Longrightarrow> \<exists>c db'. materialize_daily_late_interest vf 3 (Civil T) (Some 20000) demo_loan_db = Inr (c, db')"
proof -
  assume "20001 < T"
  moreover obtain x where "initialize_projection demo_installment = Inr x" using demo_init by blast
  ultimately show ?thesis
    using materialize_pass [where i = 3 and db = demo_loan_db and t = 20001 and eff = 20000, OF _ _ _ _ _ _ _ demo_movements refl
        fresh_accrued]
    by (auto simp: is_late_charge_eligible_def)
qed

theorem accrual_equals_expected_witness:
  "\<exists>c db'. materialize_daily_late_interest demo_verifier 3 (Civil 20004) (Some 20000) demo_loan_db = Inr (c, db')
     \<and> length c = 3 \<and> expected_late_interest demo_verifier db' demo_installment 20004 = late_interest_materialized db' 3 (Some 20004)"
proof -
  obtain c db' where run: "materialize_daily_late_interest demo_verifier 3 (Civil 20004) (Some 20000) demo_loan_db = Inr (c, db')"
    using demo_accrual_run [of 20004 demo_verifier] by auto
  from accrual_equals_expected [OF _ _ _ _ run] run show ?thesis
    by (simp add: is_late_charge_eligible_def)
qed



lemma demo_penalty_run:
  "\<exists>ev db1. materialize_fixed_penalty vf 3 (Civil 20010) (Some 20000) demo_loan_db = Inr (Some ev, db1)
     \<and> lce_amount ev = Some (calculate_fixed_penalty False)"
proof -
  have q: "event_query demo_loan_db 3 t d s r = []" for t d s r by (simp add: event_query_def)
  have base: "\<exists>p. reconstruct_late_principal_base vf demo_loan_db demo_installment (Civil 20002) = Inr p \<and> 0 < p"
    by (auto simp: reconstruct_late_principal_base_def demo_movements late_principal_def principal_paid_through_def)
  have "db_late_events demo_loan_db = []" by (simp add: demo_loan_db_def)
  then have "\<exists>e db'. insert_unique_event (late_event 3 FIXED_PENALTY_ASSESSED 20002 (calculate_fixed_penalty False) None None None)
      demo_loan_db = Inr (e, True, db') \<and> lce_amount e = Some (calculate_fixed_penalty False)"
    by (simp add: insert_unique_event_def late_event_def q one_or_none_def money_def
        calculate_fixed_penalty_def FIXED_PENALTY_AMOUNT_def Let_def)
  with base demo_init show ?thesis
    by (auto simp: materialize_fixed_penalty_def is_late_charge_eligible_def Let_def q one_or_none_def)
qed

theorem fixed_penalty_once_witness:
  "\<exists>ev db1. materialize_fixed_penalty demo_verifier 3 (Civil 20010) (Some 20000) demo_loan_db = Inr (Some ev, db1)
     \<and> materialize_fixed_penalty demo_verifier 3 (Civil 20030) (Some 20000) db1 = Inr (Some ev, db1)"
proof -
  obtain ev db1 where run: "materialize_fixed_penalty demo_verifier 3 (Civil 20010) (Some 20000) demo_loan_db = Inr (Some ev, db1)"
    using demo_penalty_run [of demo_verifier] by auto
  from fixed_penalty_once [OF run demo_loan_db_simps(1), of "Civil 20030" 20030] run show ?thesis by simp
qed

lemma demo_obligation_run:
  "\<exists>ob. loan_installment_obligation vf demo_loan_db demo_installment (Civil 20002) = Inr ob"
  by (simp add: loan_installment_obligation_def active_settlements_def active_filter_def demo_settlement_date
      late_interest_materialized_def Let_def)

theorem obligation_components_witness:
  "\<exists>ob. loan_installment_obligation demo_verifier demo_loan_db demo_installment (Civil 20002) = Inr ob
     \<and> 0 \<le> ob_total_due ob"
proof -
  obtain ob where run: "loan_installment_obligation demo_verifier demo_loan_db demo_installment (Civil 20002) = Inr ob"
    using demo_obligation_run [of demo_verifier] by auto
  from obligation_components [OF run, of 20002] run show ?thesis by auto
qed

theorem reversed_settlements_restore_debt_witness:
  "\<exists>ob. loan_installment_obligation demo_verifier (demo_loan_db\<lparr>db_settlements := []\<rparr>) demo_installment (Civil 20002) = Inr ob
     \<and> ob_principal_due ob = 100000"
proof -
  let ?db = "demo_loan_db\<lparr>db_settlements := []\<rparr>"
  have s: "settlements_of 3 ?db = []" by (simp add: settlements_of_def)
  then obtain ob where run: "loan_installment_obligation demo_verifier ?db demo_installment (Civil 20002) = Inr ob"
    by (simp add: loan_installment_obligation_def active_settlements_def late_interest_materialized_def Let_def
        events_of_def demo_loan_db_def)
  from reversed_settlements_restore_debt [OF run, of 20002] s run show ?thesis by simp
qed

end
