(* ===== verification/Loan_Payoff.thy ===== *)
theory Loan_Payoff
  imports Obligation_Properties
begin

text \<open>
  The payoff quote of a loan, \<open>loan_payoff_quote\<close> of \<open>services/loan_obligation_runtime.py\<close>:
  a read-only sum over the loan's installments of what is open on a date. The theorem
  relates it to the obligations of the single installments.
\<close>

record payoff_quote =
  pq_financial_date :: date
  pq_principal_due :: cents
  pq_normal_interest_due :: cents
  pq_fixed_penalty_due :: cents
  pq_late_interest_due :: cents
  pq_total_due :: cents

definition loan_installments_of :: "loan_row \<Rightarrow> 'a loan_tables_scheme \<Rightarrow> installment_row list" where
  "loan_installments_of loan db =
     sort_key ins_number (filter (\<lambda>i. ins_loan_id i = loan_id loan) (db_installments db))"

definition settlements_of_loan :: "int set \<Rightarrow> 'a loan_tables_scheme \<Rightarrow> settlement_row list" where
  "settlements_of_loan installment_ids db =
     sort_key (\<lambda>s. (stored_utc (stl_confirmed_at s), stl_id s))
       (filter (\<lambda>s. stl_obligation_type s = ''LOAN_INSTALLMENT''
          \<and> opt_in (stl_loan_installment_id s) installment_ids) (db_settlements db))"

definition OWN_BALANCE_TYPES :: "string list" where
  "OWN_BALANCE_TYPES = [''OWN_BALANCE_SETTLEMENT'', ''OWN_BALANCE_RENEGOTIATION'']"

definition own_balance_entries :: "loan_row \<Rightarrow> 'a loan_tables_scheme \<Rightarrow> member_entry_row list" where
  "own_balance_entries loan db =
     filter (\<lambda>e. opt_in (ent_reference_type e) (set OWN_BALANCE_TYPES)
         \<and> ent_reference_id e = Some (py_str (loan_id loan))
         \<and> ent_entry_type e \<in> set OWN_BALANCE_TYPES \<and> ent_direction e = ''DEBIT'') (db_entries db)"

text \<open>One installment of the loop: the normal interest counts only once it is due, the
  late charges as far as they are materialized.\<close>

record payoff_acc =
  py_normal :: cents
  py_fixed :: cents
  py_late :: cents

definition payoff_step ::
    "'a loan_tables_scheme \<Rightarrow> date \<Rightarrow> settlement_row list \<Rightarrow> installment_row \<Rightarrow> payoff_acc \<Rightarrow> payoff_acc res" where
  "payoff_step db on_date active installment acc =
     (let rows = filter (\<lambda>s. stl_loan_installment_id s = Some (ins_id installment)) active;
          normal = (if ins_due_date installment \<le> on_date
                    then max 0 (ins_interest installment - normal_interest_paid rows) else 0);
          fixed = max 0 (fixed_assessed db (ins_id installment) on_date
                    - versioned_component stl_fixed_penalty_applied rows)
      in res_bind (late_interest_materialized db (ins_id installment) (Some on_date)) (\<lambda>materialized.
         Inr \<lparr>py_normal = py_normal acc + normal, py_fixed = py_fixed acc + fixed,
              py_late = py_late acc
                + max 0 (materialized - versioned_component stl_late_interest_applied rows)\<rparr>))"

definition loan_payoff_quote ::
    "verifier \<Rightarrow> 'a loan_tables_scheme \<Rightarrow> loan_row \<Rightarrow> moment \<Rightarrow> payoff_quote res" where
  "loan_payoff_quote vf db loan financial_date =
     res_bind (financial_civil_date financial_date) (\<lambda>on_date.
     let installments = loan_installments_of loan db
     in if installments = [] then Inl (ValueError ''Emprestimo nao possui parcelas.'')
        else
     res_bind (fold_res (active_filter vf db on_date)
         (settlements_of_loan (set (map ins_id installments)) db) []) (\<lambda>active.
     let principal_paid = (\<Sum>s\<leftarrow>active. stl_principal_applied s);
         entries = own_balance_entries loan db;
         recorded = (\<Sum>e\<leftarrow>entries. ent_amount e)
     in if recorded \<noteq> loan_principal_settled_with_own_balance loan then
          Inl (ValueError ''Projecao de principal liquidado com saldo proprio e inconsistente.'')
        else
     let through = (\<Sum>e\<leftarrow>filter (\<lambda>e. stored_financial_date (ent_created_at e) \<le> on_date) entries. ent_amount e);
         principal_due = max 0 (loan_principal loan - principal_paid - through)
     in res_bind (fold_res (payoff_step db on_date active) installments
          \<lparr>py_normal = 0, py_fixed = 0, py_late = 0\<rparr>) (\<lambda>acc.
        Inr \<lparr>pq_financial_date = on_date, pq_principal_due = principal_due,
             pq_normal_interest_due = py_normal acc, pq_fixed_penalty_due = py_fixed acc,
             pq_late_interest_due = py_late acc,
             pq_total_due = principal_due + py_normal acc + py_fixed acc + py_late acc\<rparr>)))"

section \<open>The quote and the installments' obligations\<close>

lemma settlements_of_installment:
  "i \<in> ids \<Longrightarrow> settlements_of i db
     = filter (\<lambda>s. stl_loan_installment_id s = Some i) (settlements_of_loan ids db)"
  by (auto simp: settlements_of_def settlements_of_loan_def filter_sort opt_in_def
      intro!: arg_cong [of _ _ "sort_key _"] filter_cong split: option.splits)

lemma active_of_loan:
  assumes "fold_res (active_filter vf db d) ss [] = Inr active"
  shows "active = filter (in_force vf db d) ss"
  using active_fold [OF assms] by simp

lemma active_of_installment:
  assumes "fold_res (active_filter vf db d) (settlements_of_loan ids db) [] = Inr active"
    and "active_settlements vf db i d = Inr rows" "i \<in> ids"
  shows "filter (\<lambda>s. stl_loan_installment_id s = Some i) active = rows"
  unfolding active_of_loan [OF assms(1)] active_settlements_eq [OF assms(2)] settlements_of_installment [OF assms(3)]
  by (simp add: conj_commute)

text \<open>Rows that belong to one of distinct installments, summed installment by installment.\<close>

lemma sum_by_installment:
  assumes "distinct ids" "\<And>s. s \<in> set rows \<Longrightarrow> opt_in (stl_loan_installment_id s) (set ids)"
  shows "(\<Sum>i\<leftarrow>ids. \<Sum>s\<leftarrow>filter (\<lambda>s. stl_loan_installment_id s = Some i) rows. f s) = (\<Sum>s\<leftarrow>rows. f s :: int)"
  using assms(2)
proof (induction rows)
  case (Cons s rows)
  then obtain j where j: "stl_loan_installment_id s = Some j" "j \<in> set ids"
    using Cons.prems [of s] by (cases "stl_loan_installment_id s") auto
  have "(\<Sum>i\<leftarrow>ids. if j = i then f s else 0) = f s"
    using assms(1) j(2) by (simp add: sum_list_distinct_conv_sum_set)
  moreover have "(\<Sum>i\<leftarrow>ids. \<Sum>s\<leftarrow>filter (\<lambda>s. stl_loan_installment_id s = Some i) (s # rows). f s)
      = (\<Sum>i\<leftarrow>ids. (if j = i then f s else 0) + (\<Sum>s\<leftarrow>filter (\<lambda>s. stl_loan_installment_id s = Some i) rows. f s))"
    by (intro arg_cong [of _ _ sum_list] map_cong) (auto simp: j)
  ultimately show ?case using Cons by (simp add: sum_list_addf)
qed simp

text \<open>What one installment adds, as its obligation has it.\<close>

lemma payoff_step_obligation:
  assumes "fold_res (active_filter vf db d) (settlements_of_loan ids db) [] = Inr active"
    and "ins_id i \<in> ids" "ins_due_date i \<le> d" "financial_civil_date t = Inr d"
    and "loan_installment_obligation vf db i t = Inr ob"
  shows "payoff_step db d active i acc =
    Inr \<lparr>py_normal = py_normal acc + ob_normal_interest_due ob, py_fixed = py_fixed acc + ob_fixed_penalty_due ob,
         py_late = py_late acc + ob_late_interest_due ob\<rparr>
    \<and> ob_principal_due ob = max 0 (ins_principal i
        - (\<Sum>s\<leftarrow>filter (\<lambda>s. stl_loan_installment_id s = Some (ins_id i)) active. stl_principal_applied s))
    \<and> ob_total_due ob = ob_principal_due ob + ob_normal_interest_due ob + ob_fixed_penalty_due ob + ob_late_interest_due ob"
proof -
  from assms(3-5) obtain rows late where rows: "active_settlements vf db (ins_id i) d = Inr rows"
    and late: "late_interest_materialized db (ins_id i) (Some d) = Inr late"
    and ob: "ob = \<lparr>ob_principal_due = max 0 (ins_principal i - (\<Sum>row\<leftarrow>rows. stl_principal_applied row)),
        ob_normal_interest_due = max 0 (ins_interest i - normal_interest_paid rows),
        ob_fixed_penalty_due = max 0 (fixed_assessed db (ins_id i) d - versioned_component stl_fixed_penalty_applied rows),
        ob_late_interest_due = max 0 (late - versioned_component stl_late_interest_applied rows),
        ob_total_due = max 0 (ins_principal i - (\<Sum>row\<leftarrow>rows. stl_principal_applied row))
          + max 0 (ins_interest i - normal_interest_paid rows)
          + max 0 (fixed_assessed db (ins_id i) d - versioned_component stl_fixed_penalty_applied rows)
          + max 0 (late - versioned_component stl_late_interest_applied rows)\<rparr>"
    by (auto simp: loan_installment_obligation_def res_bind_eq_Inr Let_def)
  have "filter (\<lambda>s. stl_loan_installment_id s = Some (ins_id i)) active = rows"
    by (rule active_of_installment [OF assms(1) rows assms(2)])
  with late assms(3) show ?thesis by (simp add: payoff_step_def Let_def ob)
qed

lemma payoff_fold:
  assumes "fold_res (active_filter vf db d) (settlements_of_loan ids db) [] = Inr active"
    and "set (map ins_id is) \<subseteq> ids" "\<forall>i\<in>set is. ins_due_date i \<le> d" "financial_civil_date t = Inr d"
    and "map_res (\<lambda>i. loan_installment_obligation vf db i t) is = Inr obs"
  shows "fold_res (payoff_step db d active) is acc =
    Inr \<lparr>py_normal = py_normal acc + (\<Sum>ob\<leftarrow>obs. ob_normal_interest_due ob),
         py_fixed = py_fixed acc + (\<Sum>ob\<leftarrow>obs. ob_fixed_penalty_due ob),
         py_late = py_late acc + (\<Sum>ob\<leftarrow>obs. ob_late_interest_due ob)\<rparr>"
  using assms(2,3,5)
proof (induction "is" arbitrary: acc obs)
  case (Cons i "is")
  then obtain ob rest where o: "loan_installment_obligation vf db i t = Inr ob"
    "map_res (\<lambda>i. loan_installment_obligation vf db i t) is = Inr rest" "obs = ob # rest"
    by (auto simp: res_bind_eq_Inr)
  have "ins_id i \<in> ids" "ins_due_date i \<le> d" using Cons.prems by auto
  from payoff_step_obligation [OF assms(1) this assms(4) o(1), of acc]
  show ?case using Cons.IH [OF _ _ o(2)] Cons.prems by (simp add: o(3) add.assoc)
qed simp

text \<open>C31. For a loan whose installments are all due by the day of the quote, whose principal is the sum of theirs, was never
  reduced with the member's own balance and was not overpaid on any installment, the payoff quote is the sum of the
  obligations of its installments, component by component: nothing is counted twice or left out. (Without these
  conditions the two differ by design: the quote has the principal of installments still to come, which have no
  obligation yet.)\<close>

theorem payoff_sums_obligations:
  assumes "loan_payoff_quote vf db loan t = Inr q" "financial_civil_date t = Inr d"
    and "installments = loan_installments_of loan db" "distinct (map ins_id installments)"
    and "\<forall>i\<in>set installments. ins_due_date i \<le> d"
    and "map_res (\<lambda>i. loan_installment_obligation vf db i t) installments = Inr obs"
    and "loan_principal loan = (\<Sum>i\<leftarrow>installments. ins_principal i)" "own_balance_entries loan db = []"
    and "\<forall>i\<in>set installments. (\<Sum>s\<leftarrow>filter (in_force vf db d) (settlements_of (ins_id i) db). stl_principal_applied s)
      \<le> ins_principal i"
  shows "pq_principal_due q = (\<Sum>ob\<leftarrow>obs. ob_principal_due ob)
    \<and> pq_normal_interest_due q = (\<Sum>ob\<leftarrow>obs. ob_normal_interest_due ob)
    \<and> pq_fixed_penalty_due q = (\<Sum>ob\<leftarrow>obs. ob_fixed_penalty_due ob)
    \<and> pq_late_interest_due q = (\<Sum>ob\<leftarrow>obs. ob_late_interest_due ob)
    \<and> pq_total_due q = (\<Sum>ob\<leftarrow>obs. ob_total_due ob)"
proof -
  let ?is = "installments" and ?ids = "set (map ins_id installments)"
  let ?ss = "settlements_of_loan ?ids db"
  from assms(1,2,3,8) obtain active acc where active: "fold_res (active_filter vf db d) ?ss [] = Inr active"
    and fold: "fold_res (payoff_step db d active) ?is \<lparr>py_normal = 0, py_fixed = 0, py_late = 0\<rparr> = Inr acc"
    and q: "q = \<lparr>pq_financial_date = d,
        pq_principal_due = max 0 (loan_principal loan - (\<Sum>s\<leftarrow>active. stl_principal_applied s)),
        pq_normal_interest_due = py_normal acc, pq_fixed_penalty_due = py_fixed acc, pq_late_interest_due = py_late acc,
        pq_total_due = max 0 (loan_principal loan - (\<Sum>s\<leftarrow>active. stl_principal_applied s))
          + py_normal acc + py_fixed acc + py_late acc\<rparr>"
    by (auto simp: loan_payoff_quote_def res_bind_eq_Inr Let_def split: if_splits)
  have acc: "acc = \<lparr>py_normal = \<Sum>ob\<leftarrow>obs. ob_normal_interest_due ob, py_fixed = \<Sum>ob\<leftarrow>obs. ob_fixed_penalty_due ob,
      py_late = \<Sum>ob\<leftarrow>obs. ob_late_interest_due ob\<rparr>"
    using payoff_fold [OF active _ assms(5,2,6), of "\<lparr>py_normal = 0, py_fixed = 0, py_late = 0\<rparr>"] fold by simp
  let ?paid = "\<lambda>j. \<Sum>s\<leftarrow>filter (\<lambda>s. stl_loan_installment_id s = Some j) active. stl_principal_applied s"
  have parts: "list_all2 (\<lambda>i ob. 0 \<le> ob_principal_due ob \<and> ob_principal_due ob = ins_principal i - ?paid (ins_id i)
      \<and> ob_total_due ob = ob_principal_due ob + ob_normal_interest_due ob + ob_fixed_penalty_due ob + ob_late_interest_due ob) ?is obs"
  proof (rule list.rel_mono_strong)
    show "list_all2 (\<lambda>i ob. loan_installment_obligation vf db i t = Inr ob) ?is obs"
      using assms(6) by (simp add: map_res_list_all2)
  next
    fix i ob assume i: "i \<in> set ?is" "loan_installment_obligation vf db i t = Inr ob"
    have "filter (\<lambda>s. stl_loan_installment_id s = Some (ins_id i)) active
        = filter (in_force vf db d) (settlements_of (ins_id i) db)"
      using i(1) by (simp add: active_of_loan [OF active] settlements_of_installment [of "ins_id i" ?ids] conj_commute)
    then have "?paid (ins_id i) \<le> ins_principal i" using assms(9) i(1) by simp
    moreover have "ins_id i \<in> ?ids" "ins_due_date i \<le> d" using i(1) assms(5) by auto
    note payoff_step_obligation [OF active this assms(2) i(2)]
    ultimately show "0 \<le> ob_principal_due ob \<and> ob_principal_due ob = ins_principal i - ?paid (ins_id i)
      \<and> ob_total_due ob = ob_principal_due ob + ob_normal_interest_due ob + ob_fixed_penalty_due ob + ob_late_interest_due ob"
      by simp
  qed
  from parts have sums: "(\<Sum>ob\<leftarrow>obs. ob_principal_due ob) = (\<Sum>i\<leftarrow>?is. ins_principal i) - (\<Sum>j\<leftarrow>map ins_id ?is. ?paid j)
    \<and> (\<Sum>ob\<leftarrow>obs. ob_total_due ob) = (\<Sum>ob\<leftarrow>obs. ob_principal_due ob) + (\<Sum>ob\<leftarrow>obs. ob_normal_interest_due ob)
        + (\<Sum>ob\<leftarrow>obs. ob_fixed_penalty_due ob) + (\<Sum>ob\<leftarrow>obs. ob_late_interest_due ob)
    \<and> 0 \<le> (\<Sum>i\<leftarrow>?is. ins_principal i) - (\<Sum>j\<leftarrow>map ins_id ?is. ?paid j)"
    by (induction rule: list_all2_induct) auto
  have "(\<Sum>j\<leftarrow>map ins_id ?is. ?paid j) = (\<Sum>s\<leftarrow>active. stl_principal_applied s)"
    using active_of_loan [OF active] assms(4) by (intro sum_by_installment) (auto simp: settlements_of_loan_def)
  then show ?thesis using sums by (simp add: q acc assms(7))
qed

definition demo_loan :: loan_row where
  "demo_loan = \<lparr>loan_id = 1, loan_member_id = 4, loan_cycle_id = None, loan_principal = 100000,
     loan_principal_settled_with_own_balance = 0, loan_monthly_rate = 20 / 100, loan_installments = 1,
     loan_calculation_version = Some [], loan_status = ''ACTIVE'', loan_disbursed_at = None,
     loan_paid_at = None, loan_state_revision = 0\<rparr>"

lemma demo_loan_facts:
  "loan_installments_of demo_loan demo_loan_db = [demo_installment]" "own_balance_entries demo_loan demo_loan_db = []"
  "settlements_of_loan {3} demo_loan_db = [demo_settlement]" "loan_principal demo_loan = 100000"
  "loan_principal_settled_with_own_balance demo_loan = 0"
  by (simp_all add: loan_installments_of_def own_balance_entries_def settlements_of_loan_def demo_loan_def
      demo_loan_db_def demo_installment_def demo_settlement_def)

lemma demo_payoff_run: "\<exists>q. loan_payoff_quote vf demo_loan_db demo_loan (Civil 20002) = Inr q"
  by (simp add: loan_payoff_quote_def demo_loan_facts active_filter_def demo_settlement_date payoff_step_def Let_def
      late_interest_materialized_def)

theorem payoff_sums_obligations_witness:
  "\<exists>q ob. loan_payoff_quote demo_verifier demo_loan_db demo_loan (Civil 20002) = Inr q
     \<and> loan_installment_obligation demo_verifier demo_loan_db demo_installment (Civil 20002) = Inr ob
     \<and> pq_total_due q = ob_total_due ob"
proof -
  obtain q where q: "loan_payoff_quote demo_verifier demo_loan_db demo_loan (Civil 20002) = Inr q"
    using demo_payoff_run [of demo_verifier] by auto
  obtain ob where ob: "loan_installment_obligation demo_verifier demo_loan_db demo_installment (Civil 20002) = Inr ob"
    using demo_obligation_run [of demo_verifier] by auto
  have "stl_principal_applied demo_settlement = 20000" by (simp add: demo_settlement_def)
  then have "pq_total_due q = (\<Sum>ob\<leftarrow>[ob]. ob_total_due ob)"
    using payoff_sums_obligations [OF q, of 20002 "[demo_installment]" "[ob]"] ob by (simp add: demo_loan_facts)
  with q ob show ?thesis by auto
qed

end
