(* ===== verification/Calendar.thy ===== *)
theory Calendar
  imports Civil_Time
begin

text \<open>
  The proleptic Gregorian calendar behind Python's \<open>date\<close>: the ordinal of a year, month and
  day, the year, month and day of an ordinal, and \<open>add_months\<close> of \<open>services/loan_engine_v17.py\<close>.
  Years outside 1..9999 raise.
\<close>

section \<open>Years and months\<close>

definition is_leap :: "int \<Rightarrow> bool" where
  "is_leap y \<longleftrightarrow> y mod 4 = 0 \<and> (y mod 100 \<noteq> 0 \<or> y mod 400 = 0)"

definition days_before_year :: "int \<Rightarrow> int" where
  "days_before_year year = (let y = year - 1 in y * 365 + y div 4 - y div 100 + y div 400)"

text \<open>\<open>calendar.monthrange(year, month)[1]\<close>.\<close>

definition days_in_month :: "int \<Rightarrow> int \<Rightarrow> int" where
  "days_in_month y m =
     (if m = 2 then (if is_leap y then 29 else 28)
      else if m \<in> {4, 6, 9, 11} then 30 else 31)"

definition days_before_month :: "int \<Rightarrow> int \<Rightarrow> int" where
  "days_before_month y m = (\<Sum>k\<leftarrow>[1..m - 1]. days_in_month y k)"

record ymd =
  yr :: int
  mon :: int
  dom :: int

definition valid_ymd :: "ymd \<Rightarrow> bool" where
  "valid_ymd d \<longleftrightarrow> 1 \<le> yr d \<and> yr d \<le> 9999 \<and> 1 \<le> mon d \<and> mon d \<le> 12
     \<and> 1 \<le> dom d \<and> dom d \<le> days_in_month (yr d) (mon d)"

definition ordinal :: "ymd \<Rightarrow> date" where
  "ordinal d = days_before_year (yr d) + days_before_month (yr d) (mon d) + dom d"

text \<open>\<open>date(year, month, day)\<close>.\<close>

definition make_date :: "int \<Rightarrow> int \<Rightarrow> int \<Rightarrow> date res" where
  "make_date year month day =
     (let d = \<lparr>yr = year, mon = month, dom = day\<rparr>
      in if valid_ymd d then Inr (ordinal d) else Inl (ValueError ''date out of range''))"

text \<open>The year, month and day of an ordinal, as \<open>date.fromordinal\<close> computes them by the cycles of
  400, 100, 4 years and one year; the last day of a cycle is the exception.\<close>

definition year_of :: "date \<Rightarrow> int" where
  "year_of n =
     (let r = n - 1; n400 = r div 146097; r1 = r mod 146097;
          n100 = r1 div 36524; r2 = r1 mod 36524;
          n4 = r2 div 1461; r3 = r2 mod 1461; n1 = r3 div 365;
          year = n400 * 400 + n100 * 100 + n4 * 4 + n1 + 1
      in if n1 = 4 \<or> n100 = 4 then year - 1 else year)"

definition month_of_day :: "int \<Rightarrow> int \<Rightarrow> int" where
  "month_of_day y n = int (length (filter (\<lambda>m. days_before_month y m < n) [1..12]))"

definition of_ordinal :: "date \<Rightarrow> ymd" where
  "of_ordinal n =
     (let y = year_of n; r = n - days_before_year y; m = month_of_day y r
      in \<lparr>yr = y, mon = m, dom = r - days_before_month y m\<rparr>)"

section \<open>Adding months\<close>

definition add_months :: "date \<Rightarrow> int \<Rightarrow> date res" where
  "add_months d months =
     (let c = of_ordinal d; month_index = mon c - 1 + months;
          year = yr c + month_index div 12; month = month_index mod 12 + 1
      in make_date year month (min (dom c) (days_in_month year month)))"

section \<open>Facts\<close>

lemma days_in_month_bounds: "28 \<le> days_in_month y m \<and> days_in_month y m \<le> 31"
  by (simp add: days_in_month_def)

lemma div_mod_eq:
  assumes "(x::int) = k * q + r" "0 \<le> r" "r < k"
  shows "x div k = q \<and> x mod k = r"
  using assms int_div_pos_eq [OF assms] int_mod_pos_eq [OF assms] by simp

text \<open>A year as its place in the cycles of 400, 100 and 4 years.\<close>

definition cycles :: "int \<Rightarrow> int \<Rightarrow> int \<Rightarrow> int \<Rightarrow> int \<Rightarrow> bool" where
  "cycles y a b c e \<longleftrightarrow> y - 1 = 400 * a + 100 * b + 4 * c + e
     \<and> 0 \<le> b \<and> b \<le> 3 \<and> 0 \<le> c \<and> c \<le> 24 \<and> 0 \<le> e \<and> e \<le> 3"

lemma cycles_exist: "\<exists>a b c e. cycles y a b c e"
proof -
  define q where "q = (y - 1) mod 400"
  define r where "r = q mod 100"
  have q: "y - 1 = 400 * ((y - 1) div 400) + q" "0 \<le> q" "q < 400" by (simp_all add: q_def)
  have r: "q = 100 * (q div 100) + r" "0 \<le> r" "r < 100" by (simp_all add: r_def)
  have e: "r = 4 * (r div 4) + r mod 4" "0 \<le> r mod 4" "r mod 4 \<le> 3" by presburger+
  have "0 \<le> q div 100" "q div 100 \<le> 3" using q(2,3) by presburger+
  moreover have "0 \<le> r div 4" "r div 4 \<le> 24" using r(2,3) by presburger+
  ultimately have "cycles y ((y - 1) div 400) (q div 100) (r div 4) (r mod 4)"
    using q(1) r(1) e unfolding cycles_def by linarith
  then show ?thesis by blast
qed

lemma cycles_div:
  assumes "cycles y a b c e"
  shows "(y - 1) div 4 = 100 * a + 25 * b + c" "(y - 1) div 100 = 4 * a + b" "(y - 1) div 400 = a"
  using assms div_mod_eq [of "y - 1" 4 "100 * a + 25 * b + c" e]
    div_mod_eq [of "y - 1" 100 "4 * a + b" "4 * c + e"] div_mod_eq [of "y - 1" 400 a "100 * b + 4 * c + e"]
  by (auto simp: cycles_def)

lemma cycles_days:
  "cycles y a b c e \<Longrightarrow> days_before_year y = 146097 * a + 36524 * b + 1461 * c + 365 * e"
  by (simp add: days_before_year_def Let_def cycles_div) (simp add: cycles_def)

lemma cycles_leap:
  assumes "cycles y a b c e"
  shows "is_leap y \<longleftrightarrow> e = 3 \<and> (c = 24 \<longrightarrow> b = 3)"
proof -
  have y: "y = 400 * a + 100 * b + 4 * c + e + 1" using assms by (simp add: cycles_def)
  have "y mod 4 = (if e = 3 then 0 else e + 1)"
    using assms div_mod_eq [of y 4 "100 * a + 25 * b + c" "e + 1"] div_mod_eq [of y 4 "100 * a + 25 * b + c + 1" 0]
    by (auto simp: cycles_def y)
  moreover have "y mod 100 = (if e = 3 \<and> c = 24 then 0 else 4 * c + e + 1)"
    using assms div_mod_eq [of y 100 "4 * a + b" "4 * c + e + 1"] div_mod_eq [of y 100 "4 * a + b + 1" 0]
    by (auto simp: cycles_def y)
  moreover have "y mod 400 = (if e = 3 \<and> c = 24 \<and> b = 3 then 0 else 100 * b + 4 * c + e + 1)"
    using assms div_mod_eq [of y 400 a "100 * b + 4 * c + e + 1"] div_mod_eq [of y 400 "a + 1" 0]
    by (auto simp: cycles_def y)
  ultimately show ?thesis using assms by (auto simp: is_leap_def cycles_def)
qed

definition days_in_year :: "int \<Rightarrow> int" where
  "days_in_year y = (if is_leap y then 366 else 365)"

lemma year_of_day:
  assumes "days_before_year y < n" "n \<le> days_before_year y + days_in_year y"
  shows "year_of n = y"
proof -
  obtain a b c e where cy: "cycles y a b c e" using cycles_exist by blast
  note b = cy [unfolded cycles_def]
  define s where "s = n - 1 - days_before_year y"
  have s: "0 \<le> s" "s \<le> 365" "s = 365 \<Longrightarrow> e = 3 \<and> (c = 24 \<longrightarrow> b = 3)"
    using assms by (auto simp: s_def days_in_year_def cycles_leap [OF cy] split: if_splits)
  have n: "n - 1 = 146097 * a + (36524 * b + 1461 * c + 365 * e + s)"
    by (simp add: s_def cycles_days [OF cy])
  let ?R = "36524 * b + 1461 * c + 365 * e + s"
  have R: "0 \<le> ?R" "?R < 146097" using b s by auto
  note d400 = div_mod_eq [OF n R]
  show ?thesis
  proof (cases "s = 365")
    case False
    with s have s': "s \<le> 364" by simp
    have d100: "?R div 36524 = b \<and> ?R mod 36524 = 1461 * c + 365 * e + s"
      by (rule div_mod_eq) (use b s s' in auto)
    have d4: "(1461 * c + 365 * e + s) div 1461 = c \<and> (1461 * c + 365 * e + s) mod 1461 = 365 * e + s"
      by (rule div_mod_eq) (use b s s' in auto)
    have d1: "(365 * e + s) div 365 = e \<and> (365 * e + s) mod 365 = s"
      by (rule div_mod_eq) (use s s' in auto)
    show ?thesis using b by (simp add: year_of_def Let_def d400 d100 d4 d1)
  next
    case True
    with s(3) have e: "e = 3" and cb: "c = 24 \<longrightarrow> b = 3" by auto
    show ?thesis
    proof (cases "c = 24")
      case True
      with cb have "?R div 36524 = 4 \<and> ?R mod 36524 = 0"
        using e \<open>s = 365\<close> by (intro div_mod_eq) auto
      then show ?thesis using b True cb e by (simp add: year_of_def Let_def d400)
    next
      case False
      have d100: "?R div 36524 = b \<and> ?R mod 36524 = 1461 * c + 1460"
        by (rule div_mod_eq) (use b False e \<open>s = 365\<close> in auto)
      have d4: "(1461 * c + 1460) div 1461 = c \<and> (1461 * c + 1460) mod 1461 = 1460"
        by (rule div_mod_eq) (use b in auto)
      show ?thesis by (simp only: year_of_def Let_def d400 d100 d4) (use b e in simp)
    qed
  qed
qed

lemma upto_12: "[1..12] = [1, 2, 3, 4, 5, 6, 7, 8, 9, 10, 11, 12::int]"
  by (simp add: upto_rec1)

lemma months: "1 \<le> m \<Longrightarrow> m \<le> 12 \<Longrightarrow> m \<in> {1, 2, 3, 4, 5, 6, 7, 8, 9, 10, 11, 12::int}"
  unfolding insert_iff empty_iff by presburger

lemma days_before_months [simp]:
  "days_before_month y 1 = 0" "days_before_month y 2 = 31"
  "days_before_month y 3 = (if is_leap y then 60 else 59)" "days_before_month y 4 = (if is_leap y then 91 else 90)"
  "days_before_month y 5 = (if is_leap y then 121 else 120)" "days_before_month y 6 = (if is_leap y then 152 else 151)"
  "days_before_month y 7 = (if is_leap y then 182 else 181)" "days_before_month y 8 = (if is_leap y then 213 else 212)"
  "days_before_month y 9 = (if is_leap y then 244 else 243)" "days_before_month y 10 = (if is_leap y then 274 else 273)"
  "days_before_month y 11 = (if is_leap y then 305 else 304)" "days_before_month y 12 = (if is_leap y then 335 else 334)"
  by (simp_all add: days_before_month_def days_in_month_def upto_rec1)

lemma days_before_next: "1 \<le> m \<Longrightarrow> days_before_month y (m + 1) = days_before_month y m + days_in_month y m"
  using upto_rec2 [of 1 m] by (simp add: days_before_month_def)

lemma days_before_mono:
  assumes "1 \<le> k" "k < m"
  shows "days_before_month y k + days_in_month y k \<le> days_before_month y m"
  using assms(2)
proof (induction m rule: int_gr_induct)
  case base
  then show ?case using assms(1) by (simp add: days_before_next)
next
  case (step m)
  then show ?case using assms(1) days_in_month_bounds [of y m] by (simp add: days_before_next)
qed

lemma month_of_day_eq:
  assumes "1 \<le> m" "m \<le> 12" "days_before_month y m < n" "n \<le> days_before_month y m + days_in_month y m"
  shows "month_of_day y n = m"
proof -
  have "days_before_month y k < n \<longleftrightarrow> k \<le> m" if "k \<in> set [1..12]" for k
    using that assms days_before_mono [of k m y] days_before_mono [of m k y] days_in_month_bounds [of y k]
    by (cases k m rule: linorder_cases) auto
  then have "filter (\<lambda>k. days_before_month y k < n) [1..12] = filter (\<lambda>k. k \<le> m) [1..12]"
    by (intro filter_cong) auto
  also have "[1..12] = [1..m] @ [m + 1..12]" using assms(1,2) upto_split1 [of 1 "m + 1" 12] by (cases "m = 12") auto
  then have "filter (\<lambda>k. k \<le> m) [1..12] = [1..m]" by simp
  finally show ?thesis using assms(1) by (simp add: month_of_day_def)
qed

lemma day_of_year_bound:
  assumes "1 \<le> m" "m \<le> 12" "d \<le> days_in_month y m"
  shows "days_before_month y m + d \<le> days_in_year y"
  using months [OF assms(1,2)] assms(3) by (auto simp: days_in_month_def days_in_year_def split: if_splits)

lemma days_before_month_nonneg: "1 \<le> m \<Longrightarrow> m \<le> 12 \<Longrightarrow> 0 \<le> days_before_month y m"
  using months [of m] by auto

lemma of_ordinal_ordinal: "valid_ymd d \<Longrightarrow> of_ordinal (ordinal d) = d"
proof -
  assume "valid_ymd d"
  then have v: "1 \<le> mon d" "mon d \<le> 12" "1 \<le> dom d" "dom d \<le> days_in_month (yr d) (mon d)"
    by (auto simp: valid_ymd_def)
  note before = days_before_month_nonneg [OF v(1,2), of "yr d"]
  have y: "year_of (ordinal d) = yr d"
    using day_of_year_bound [OF v(1,2,4)] before v(3) by (intro year_of_day) (auto simp: ordinal_def)
  have "month_of_day (yr d) (days_before_month (yr d) (mon d) + dom d) = mon d"
    using v by (intro month_of_day_eq) auto
  then show ?thesis by (simp add: of_ordinal_def Let_def y) (simp add: ordinal_def)
qed

text \<open>Adding months keeps the day of the month, or takes the last day of a shorter month, in the
  month that many months later; a result within the years 1..9999 is a date.\<close>

theorem add_months_calendar:
  assumes "valid_ymd c" "i = 12 * yr c + mon c - 1 + n" "12 \<le> i" "i < 12 * 10000"
  shows "\<exists>d. add_months (ordinal c) n = Inr d \<and> valid_ymd (of_ordinal d)
    \<and> 12 * yr (of_ordinal d) + mon (of_ordinal d) - 1 = i
    \<and> dom (of_ordinal d) = min (dom c) (days_in_month (yr (of_ordinal d)) (mon (of_ordinal d)))"
proof -
  let ?y = "yr c + (mon c - 1 + n) div 12" and ?m = "(mon c - 1 + n) mod 12 + 1"
  let ?d = "\<lparr>yr = ?y, mon = ?m, dom = min (dom c) (days_in_month ?y ?m)\<rparr>"
  have i: "12 * ?y + ?m - 1 = i" using assms(2) by simp
  have m: "1 \<le> ?m" "?m \<le> 12" by simp_all
  have "12 * Y + M - 1 = i \<Longrightarrow> 1 \<le> M \<Longrightarrow> M \<le> 12 \<Longrightarrow> 1 \<le> Y \<and> Y \<le> 9999" for Y M
    using assms(3,4) by linarith
  from this [OF i m] have "1 \<le> ?y" "?y \<le> 9999" by auto
  moreover have "1 \<le> dom c" using assms(1) by (simp add: valid_ymd_def)
  ultimately have v: "valid_ymd ?d"
    using m days_in_month_bounds [of ?y ?m] by (simp add: valid_ymd_def)
  then have "add_months (ordinal c) n = Inr (ordinal ?d)"
    by (simp add: add_months_def make_date_def Let_def of_ordinal_ordinal [OF assms(1)])
  moreover have "of_ordinal (ordinal ?d) = ?d" by (rule of_ordinal_ordinal [OF v])
  ultimately show ?thesis using v i by simp
qed

theorem add_months_calendar_witness:
  "\<exists>d. add_months (ordinal \<lparr>yr = 2024, mon = 1, dom = 31\<rparr>) 1 = Inr d \<and> of_ordinal d = \<lparr>yr = 2024, mon = 2, dom = 29\<rparr>"
proof -
  let ?c = "\<lparr>yr = 2024, mon = 1, dom = 31\<rparr>"
  have "valid_ymd ?c" by (simp add: valid_ymd_def days_in_month_def)
  from add_months_calendar [OF this refl, of 1] obtain d where d: "add_months (ordinal ?c) 1 = Inr d"
    "valid_ymd (of_ordinal d)" "12 * yr (of_ordinal d) + mon (of_ordinal d) - 1 = 12 * 2024 + 1 - 1 + 1"
    "dom (of_ordinal d) = min 31 (days_in_month (yr (of_ordinal d)) (mon (of_ordinal d)))" by auto
  have "1 \<le> mon (of_ordinal d)" "mon (of_ordinal d) \<le> 12" using d(2) by (auto simp: valid_ymd_def)
  then have y: "yr (of_ordinal d) = 2024" and m: "mon (of_ordinal d) = 2" using d(3) by presburger+
  then have "of_ordinal d = \<lparr>yr = 2024, mon = 2, dom = 29\<rparr>"
    using d(4) by (cases "of_ordinal d") (simp add: days_in_month_def is_leap_def)
  with d(1) show ?thesis by blast
qed

end
