(* ===== verification/Loan_Engine.thy ===== *)
theory Loan_Engine
  imports Calendar Ledger Member_Financial
begin

text \<open>
  The loan engine, \<open>services/loan_engine_v17.py\<close>: the shared lock and revision of a loan, what an
  installment owes and how a payment is spread over it, the daily penalty of unversioned
  installments, completion, and the release of an approved loan. A loan or installment that the code
  mutates is returned changed; the caller writes it back. \<open>now\<close> is \<open>datetime.now\<close>.
\<close>

section \<open>Rows\<close>

definition lock_loan :: "int \<Rightarrow> 'a loan_tables_scheme \<Rightarrow> loan_row res" where
  "lock_loan i db =
     (case get_by loan_id i (db_loans db) of
        None \<Rightarrow> Inl (ValueError ''Emprestimo nao encontrado.'') | Some l \<Rightarrow> Inr l)"

definition touch_loan :: "loan_row \<Rightarrow> loan_row" where
  "touch_loan l = l\<lparr>loan_state_revision := loan_state_revision l + 1\<rparr>"

section \<open>Installments\<close>

definition penalty_open :: "installment_row \<Rightarrow> cents" where
  "penalty_open inst = max 0 (ins_penalty_amount inst - ins_paid_penalty_amount inst)"

definition base_open :: "installment_row \<Rightarrow> cents" where
  "base_open inst = max 0 (ins_amount inst - ins_paid_amount inst)"

definition installment_due :: "installment_row \<Rightarrow> cents" where
  "installment_due inst = base_open inst + penalty_open inst"

record application =
  ap_applied :: cents
  ap_penalty_applied :: cents
  ap_base_applied :: cents
  ap_excess :: cents
  ap_status :: string

definition apply_payment :: "instant \<Rightarrow> installment_row \<Rightarrow> decimal \<Rightarrow> application \<times> installment_row" where
  "apply_payment now inst amount0 =
     (let amount = cents amount0;
          due = penalty_open inst + base_open inst;
          applied = min amount due;
          penalty_applied = min (penalty_open inst) applied;
          base_applied = min (base_open inst) (applied - penalty_applied);
          inst1 = inst\<lparr>ins_paid_penalty_amount := ins_paid_penalty_amount inst + penalty_applied,
                       ins_paid_amount := ins_paid_amount inst + base_applied\<rparr>;
          inst2 = inst1\<lparr>ins_status := (if installment_due inst1 \<le> 0 then ''PAID'' else ''PARTIAL'')\<rparr>;
          inst3 = (if ins_status inst2 = ''PAID'' \<and> ins_paid_at inst2 = None
                   then inst2\<lparr>ins_paid_at := Some (Aware now)\<rparr> else inst2)
      in (\<lparr>ap_applied = applied, ap_penalty_applied = penalty_applied, ap_base_applied = base_applied,
           ap_excess = amount - applied, ap_status = ins_status inst3\<rparr>, inst3))"

definition calculate_daily_penalty ::
    "installment_row \<Rightarrow> date \<Rightarrow> decimal \<Rightarrow> (cents \<times> installment_row) res" where
  "calculate_daily_penalty inst on_date daily_rate =
     (if daily_rate < 0 then Inl (ValueError ''daily_rate nao pode ser negativo'')
      else if ins_status inst = ''PAID'' \<or> on_date \<le> ins_due_date inst then Inr (0, inst)
      else
        let last = (case ins_last_penalty_date inst of None \<Rightarrow> ins_due_date inst | Some d \<Rightarrow> d);
            start = max (last + 1) (ins_due_date inst + 1);
            days = max 0 (on_date - start + 1)
        in if days = 0 \<or> daily_rate = 0 then Inr (0, inst)
           else let increment = cents (dmul 28 (dmul 28 (dec (base_open inst)) daily_rate) (of_int days))
                in Inr (increment, inst\<lparr>ins_penalty_amount := ins_penalty_amount inst + increment,
                          ins_last_penalty_date := Some on_date\<rparr>))"

section \<open>Loans\<close>

definition installments_of :: "int \<Rightarrow> 'a loan_tables_scheme \<Rightarrow> installment_row list" where
  "installments_of i db = filter (\<lambda>r. ins_loan_id r = i) (db_installments db)"

definition all_paid :: "installment_row list \<Rightarrow> bool" where
  "all_paid rows \<longleftrightarrow> rows \<noteq> [] \<and> list_all (\<lambda>r. ins_status r = ''PAID'') rows"

text \<open>The caller holds the loan; the installments are read from the tables.\<close>

definition ensure_loan_completion ::
    "instant \<Rightarrow> bool \<Rightarrow> loan_row \<Rightarrow> 'a loan_tables_scheme \<Rightarrow> bool \<times> loan_row" where
  "ensure_loan_completion now revision_already_bumped l db =
     (if all_paid (installments_of (loan_id l) db) then
        let changed = (loan_status l \<noteq> ''PAID'' \<or> loan_paid_at l = None);
            l1 = l\<lparr>loan_status := ''PAID'',
                   loan_paid_at := (if loan_paid_at l = None then Some (Aware now) else loan_paid_at l)\<rparr>
        in (True, if changed \<and> \<not> revision_already_bumped then touch_loan l1 else l1)
      else (False, l))"

definition create_notification ::
    "int \<Rightarrow> string \<Rightarrow> string \<Rightarrow> string \<Rightarrow> string option \<Rightarrow> string option \<Rightarrow> string
      \<Rightarrow> 'a books_scheme \<Rightarrow> notification_row \<times> 'a books_scheme" where
  "create_notification user_id ntype title message reference_type reference_id channel db =
     (let n = \<lparr>ntf_id = next_id ntf_id (db_notifications db), ntf_user_id = user_id, ntf_channel = channel,
            ntf_type = ntype, ntf_title = title, ntf_message = message, ntf_status = ''PENDING'',
            ntf_attempts = 0, ntf_last_error = None, ntf_reference_type = reference_type,
            ntf_reference_id = reference_id, ntf_sent_at = None\<rparr>
      in (n, db\<lparr>db_notifications := db_notifications db @ [n]\<rparr>))"

definition add_audit :: "int option \<Rightarrow> string \<Rightarrow> string \<Rightarrow> string \<Rightarrow> 'a books_scheme \<Rightarrow> 'a books_scheme" where
  "add_audit actor action entity_type entity_id db =
     db\<lparr>db_audit := db_audit db @ [\<lparr>aud_actor = actor, aud_action = action,
          aud_entity_type = entity_type, aud_entity_id = entity_id\<rparr>]\<rparr>"

lemma add_audit_simps [simp, table_simps]:
  "db_ledger (add_audit a b c d db) = db_ledger db" "db_entries (add_audit a b c d db) = db_entries db"
  "db_accounts (add_audit a b c d db) = db_accounts db" "db_members (add_audit a b c d db) = db_members db"
  "db_loans (add_audit a b c d ldb) = db_loans ldb" "db_installments (add_audit a b c d ldb) = db_installments ldb"
  "db_payments (add_audit a b c d ldb) = db_payments ldb" "db_settlements (add_audit a b c d ldb) = db_settlements ldb"
  by (simp_all add: add_audit_def)

lemma create_notification_simps [simp, table_simps]:
  "db_ledger (snd (create_notification a b c d e f g db)) = db_ledger db"
  "db_entries (snd (create_notification a b c d e f g db)) = db_entries db"
  "db_accounts (snd (create_notification a b c d e f g db)) = db_accounts db"
  "db_members (snd (create_notification a b c d e f g db)) = db_members db"
  "db_loans (snd (create_notification a b c d e f g ldb)) = db_loans ldb"
  by (simp_all add: create_notification_def Let_def)

definition commitment_request :: "loan_row \<Rightarrow> account_row \<Rightarrow> entry_request" where
  "commitment_request l account =
     \<lparr>rq_entry_type = ''LOAN_PRINCIPAL_COMMITMENT'', rq_direction = ''CREDIT'',
      rq_amount = dec (loan_principal l), rq_reference_type = Some ''LOAN_PRINCIPAL_COMMITMENT'',
      rq_reference_id = Some (py_str (loan_id l)), rq_account = Some account,
      rq_contribution_id = None, rq_settlement_id = None\<rparr>"

definition has_commitment :: "loan_row \<Rightarrow> 'a books_scheme \<Rightarrow> bool" where
  "has_commitment l db \<longleftrightarrow>
     list_ex (\<lambda>e. ent_entry_type e = ''LOAN_PRINCIPAL_COMMITMENT''
       \<and> ent_reference_type e = Some ''LOAN_PRINCIPAL_COMMITMENT''
       \<and> ent_reference_id e = Some (py_str (loan_id l))) (db_entries db)"

definition disbursement_of :: "loan_row \<Rightarrow> 'a books_scheme \<Rightarrow> ledger_row option" where
  "disbursement_of l db =
     find (\<lambda>e. led_reference_type e = ''LOAN_DISBURSEMENT'' \<and> led_reference_id e = py_str (loan_id l))
       (db_ledger db)"

definition commit_principal ::
    "instant \<Rightarrow> member_row \<Rightarrow> account_row \<Rightarrow> loan_row \<Rightarrow> 'a books_scheme \<Rightarrow> 'a books_scheme res" where
  "commit_principal now member account l db =
     (if has_commitment l db then Inr db
      else res_bind (add_member_financial_entry now member (commitment_request l account) db) (\<lambda>(_, db'). Inr db'))"

definition finish_release :: "instant \<Rightarrow> int \<Rightarrow> loan_row \<Rightarrow> 'a loan_tables_scheme \<Rightarrow> 'a loan_tables_scheme" where
  "finish_release now admin_id l db =
     (let l1 = touch_loan (l\<lparr>loan_status := ''ACTIVE'', loan_disbursed_at := Some (Aware now)\<rparr>);
          db1 = add_audit (Some admin_id) ''LOAN_RELEASE'' ''LOAN'' (py_str (loan_id l)) (put_loan l1 db)
      in case get_by mem_id (loan_member_id l) (db_members db1) of
           None \<Rightarrow> db1
         | Some m \<Rightarrow> snd (create_notification (mem_user_id m) ''LOAN_RELEASED'' ''Emprestimo liberado''
             ''Seu emprestimo foi liberado e as parcelas ja estao disponiveis para pagamento.''
             (Some ''LOAN'') (Some (py_str (loan_id l))) ''IN_APP'' db1))"

text \<open>A loan that was paid out already is only brought in line with its disbursement.\<close>

definition align_release :: "ledger_row \<Rightarrow> loan_row \<Rightarrow> loan_row" where
  "align_release disbursement l =
     (let changed = (loan_status l \<noteq> ''ACTIVE'' \<or> loan_disbursed_at l = None);
          l1 = l\<lparr>loan_status := ''ACTIVE'',
                 loan_disbursed_at := (case loan_disbursed_at l of
                    None \<Rightarrow> Some (led_created_at disbursement) | Some t \<Rightarrow> Some t)\<rparr>
      in if changed then touch_loan l1 else l1)"

definition release_loan ::
    "(json \<Rightarrow> string) \<Rightarrow> instant \<Rightarrow> loan_row \<Rightarrow> int \<Rightarrow> 'a loan_tables_scheme \<Rightarrow> (bool \<times> 'a loan_tables_scheme) res" where
  "release_loan hash now loan0 admin_id db0 =
     res_bind (lock_member_financial_account (loan_member_id loan0) db0) (\<lambda>(member, account, db).
     res_bind (lock_loan (loan_id loan0) db) (\<lambda>l.
     case disbursement_of l db of
       Some disbursement \<Rightarrow> Inr (False, put_loan (align_release disbursement l) db)
     | None \<Rightarrow>
         if loan_status l \<noteq> ''APPROVED'' then
           Inl (ValueError ''Somente emprestimos aprovados podem ser liberados.'')
         else
     res_bind (post_entry hash now ''CAIXINHA'' ''DEBIT'' (dec (loan_principal l)) ''LOAN_DISBURSEMENT''
         (py_str (loan_id l)) None (db_ledger db)) (\<lambda>(_, ledger).
     res_bind (commit_principal now member account l (db\<lparr>db_ledger := ledger\<rparr>)) (\<lambda>db1.
     Inr (True, finish_release now admin_id l db1)))))"

section \<open>The daily penalty of all overdue installments\<close>

record 'db penalty_run =
  pn_installments :: int
  pn_total :: cents
  pn_touched :: "int set"
  pn_db :: 'db

definition overdue :: "date \<Rightarrow> installment_row \<Rightarrow> bool" where
  "overdue on_date r \<longleftrightarrow> ins_due_date r < on_date \<and> ins_status r \<noteq> ''PAID''"

definition penalize ::
    "date \<Rightarrow> decimal \<Rightarrow> int \<Rightarrow> installment_row \<Rightarrow> ('a loan_tables_scheme) penalty_run
      \<Rightarrow> ('a loan_tables_scheme) penalty_run res" where
  "penalize on_date daily_rate i inst run =
     res_bind (calculate_daily_penalty inst on_date daily_rate) (\<lambda>(inc, inst').
     let db = put_installment inst' (pn_db run)
     in if inc = 0 then Inr (run\<lparr>pn_db := db\<rparr>)
        else Inr \<lparr>pn_installments = pn_installments run + 1, pn_total = pn_total run + inc,
                  pn_touched = insert i (pn_touched run),
                  pn_db = (if i \<in> pn_touched run then db
                           else case get_by loan_id i (db_loans db) of
                                  None \<Rightarrow> db | Some l \<Rightarrow> put_loan (touch_loan l) db)\<rparr>)"

definition penalize_loan ::
    "date \<Rightarrow> decimal \<Rightarrow> int \<Rightarrow> ('a loan_tables_scheme) penalty_run \<Rightarrow> ('a loan_tables_scheme) penalty_run res" where
  "penalize_loan on_date daily_rate i run =
     res_bind (lock_loan i (pn_db run)) (\<lambda>l.
     fold_res (penalize on_date daily_rate i)
       (filter (overdue on_date) (installments_of i (pn_db run))) run)"

definition accrue_overdue_penalties ::
    "date \<Rightarrow> decimal \<Rightarrow> 'a loan_tables_scheme \<Rightarrow> ('a loan_tables_scheme) penalty_run res" where
  "accrue_overdue_penalties on_date daily_rate db =
     fold_res (penalize_loan on_date daily_rate)
       (sort (remdups (map ins_loan_id (filter (overdue on_date) (db_installments db)))))
       \<lparr>pn_installments = 0, pn_total = 0, pn_touched = {}, pn_db = db\<rparr>"

end
