(* ===== verification/Loan_Engine_Properties.thy ===== *)
theory Loan_Engine_Properties
  imports Loan_Engine Ledger_Properties
begin

text \<open>
  What the loan engine promises: a payment is split without loss, penalty first; a run of the
  daily penalty charges every overdue installment once per day and touches each affected loan
  once; and a loan is released at most once.
\<close>

section \<open>One payment\<close>

lemma open_nonneg [simp]: "0 \<le> penalty_open i" "0 \<le> base_open i" "0 \<le> installment_due i"
  by (simp_all add: penalty_open_def base_open_def installment_due_def)

lemma penalty_open_pay:
  "x \<le> penalty_open i \<Longrightarrow> 0 \<le> x \<Longrightarrow>
     penalty_open (i\<lparr>ins_paid_penalty_amount := ins_paid_penalty_amount i + x\<rparr>) = penalty_open i - x"
  by (auto simp: penalty_open_def max_def split: if_splits)

lemma base_open_pay:
  "x \<le> base_open i \<Longrightarrow> 0 \<le> x \<Longrightarrow> base_open (i\<lparr>ins_paid_amount := ins_paid_amount i + x\<rparr>) = base_open i - x"
  by (auto simp: base_open_def max_def split: if_splits)

lemma open_updates [simp]:
  "penalty_open (i\<lparr>ins_paid_amount := a\<rparr>) = penalty_open i" "penalty_open (i\<lparr>ins_status := s\<rparr>) = penalty_open i"
  "penalty_open (i\<lparr>ins_paid_at := t\<rparr>) = penalty_open i" "penalty_open (i\<lparr>ins_last_penalty_date := d\<rparr>) = penalty_open i"
  "base_open (i\<lparr>ins_paid_penalty_amount := a\<rparr>) = base_open i" "base_open (i\<lparr>ins_status := s\<rparr>) = base_open i"
  "base_open (i\<lparr>ins_paid_at := t\<rparr>) = base_open i" "base_open (i\<lparr>ins_last_penalty_date := d\<rparr>) = base_open i"
  "base_open (i\<lparr>ins_penalty_amount := a\<rparr>) = base_open i"
  by (simp_all add: penalty_open_def base_open_def)

text \<open>The two parts of a payment, and the installment after them.\<close>

definition paid_parts :: "installment_row \<Rightarrow> cents \<Rightarrow> cents \<times> cents" where
  "paid_parts inst amount =
     (let applied = min amount (penalty_open inst + base_open inst); pen = min (penalty_open inst) applied
      in (pen, min (base_open inst) (applied - pen)))"

lemma paid_parts_bounds:
  assumes "0 \<le> amount" "paid_parts inst amount = (pen, base)"
  shows "0 \<le> pen \<and> pen \<le> penalty_open inst \<and> 0 \<le> base \<and> base \<le> base_open inst
    \<and> pen + base = min amount (installment_due inst)
    \<and> (0 < base \<longrightarrow> pen = penalty_open inst)"
  using assms open_nonneg(1,2) [of inst]
  unfolding paid_parts_def Let_def installment_due_def prod.inject by linarith

lemma apply_payment_run:
  assumes "apply_payment now inst amount = (r, inst')" "paid_parts inst (cents amount) = (pen, base)" "0 \<le> cents amount"
  shows "ap_applied r = pen + base" "ap_penalty_applied r = pen" "ap_base_applied r = base"
    "ap_excess r = cents amount - (pen + base)" "ap_status r = ins_status inst'"
    "penalty_open inst' = penalty_open inst - pen" "base_open inst' = base_open inst - base"
    "ins_status inst' = (if installment_due inst' = 0 then ''PAID'' else ''PARTIAL'')"
    "ins_id inst' = ins_id inst" "ins_loan_id inst' = ins_loan_id inst" "ins_interest inst' = ins_interest inst"
proof -
  note b = paid_parts_bounds [OF assms(3,2)]
  have parts: "pen = min (penalty_open inst) (min (cents amount) (penalty_open inst + base_open inst))"
    "base = min (base_open inst) (min (cents amount) (penalty_open inst + base_open inst) - pen)"
    using assms(2) by (auto simp: paid_parts_def Let_def)
  define i1 where "i1 = inst\<lparr>ins_paid_penalty_amount := ins_paid_penalty_amount inst + pen,
                       ins_paid_amount := ins_paid_amount inst + base\<rparr>"
  define i2 where "i2 = i1\<lparr>ins_status := (if installment_due i1 \<le> 0 then ''PAID'' else ''PARTIAL'')\<rparr>"
  have i': "inst' = (if ins_status i2 = ''PAID'' \<and> ins_paid_at i2 = None
                   then i2\<lparr>ins_paid_at := Some (Aware now)\<rparr> else i2)"
    and r: "r = \<lparr>ap_applied = min (cents amount) (penalty_open inst + base_open inst), ap_penalty_applied = pen,
      ap_base_applied = base, ap_excess = cents amount - min (cents amount) (penalty_open inst + base_open inst),
      ap_status = ins_status inst'\<rparr>"
    using assms(1) unfolding apply_payment_def Let_def parts [symmetric] i1_def [symmetric] i2_def [symmetric]
    by (auto simp only: prod.inject)
  have o1: "penalty_open i1 = penalty_open inst - pen" "base_open i1 = base_open inst - base"
    using b penalty_open_pay [of pen inst] base_open_pay [of base "inst\<lparr>ins_paid_penalty_amount := ins_paid_penalty_amount inst + pen\<rparr>"]
    by (simp_all add: i1_def)
  have o': "penalty_open inst' = penalty_open i1" "base_open inst' = base_open i1"
    by (simp_all add: i' i2_def)
  then show "penalty_open inst' = penalty_open inst - pen" "base_open inst' = base_open inst - base"
    by (simp_all add: o1)
  have due: "installment_due inst' = installment_due i1" by (simp add: installment_due_def o')
  show "ins_status inst' = (if installment_due inst' = 0 then ''PAID'' else ''PARTIAL'')"
  proof -
    have "installment_due i1 \<le> 0 \<longleftrightarrow> installment_due i1 = 0" using open_nonneg(3) [of i1] by linarith
    then show ?thesis unfolding due by (simp add: i' i2_def)
  qed
  show "ap_applied r = pen + base" "ap_penalty_applied r = pen" "ap_base_applied r = base"
    "ap_excess r = cents amount - (pen + base)" "ap_status r = ins_status inst'"
    using b by (simp_all add: r installment_due_def)
  show "ins_id inst' = ins_id inst" "ins_loan_id inst' = ins_loan_id inst" "ins_interest inst' = ins_interest inst"
    by (simp_all add: i' i2_def i1_def)
qed

text \<open>A payment is spread over an installment without loss: what is applied and the excess
  add up to the payment rounded to cents, the penalty is paid before the base, the debt falls by exactly
  what is applied, there is an excess only when the debt is gone, and the installment is PAID exactly then.\<close>

theorem apply_payment_conserves:
  assumes "apply_payment now inst amount = (r, inst')" and "0 \<le> amount"
  shows "ap_applied r + ap_excess r = cents amount \<and> 0 \<le> ap_excess r
    \<and> ap_applied r = ap_penalty_applied r + ap_base_applied r
    \<and> 0 \<le> ap_penalty_applied r \<and> 0 \<le> ap_base_applied r
    \<and> installment_due inst' = installment_due inst - ap_applied r
    \<and> (0 < ap_base_applied r \<longrightarrow> penalty_open inst' = 0)
    \<and> (0 < ap_excess r \<longrightarrow> installment_due inst' = 0)
    \<and> (ins_status inst' = ''PAID'' \<longleftrightarrow> installment_due inst' = 0)"
proof -
  have a: "0 \<le> cents amount" using assms(2) by (simp add: cents_nonneg)
  obtain pen base where p: "paid_parts inst (cents amount) = (pen, base)" by fastforce
  note run = apply_payment_run [OF assms(1) p a]
  have "installment_due inst' = installment_due inst - (pen + base)"
    by (simp add: installment_due_def run(6,7))
  with paid_parts_bounds [OF a p] open_nonneg(3) [of inst'] show ?thesis
    by (simp add: run min_def split: if_splits)
qed

section \<open>The daily penalty\<close>

text \<open>What the rule makes of one overdue installment; it fails only for a negative rate.\<close>

definition charged :: "date \<Rightarrow> decimal \<Rightarrow> installment_row \<Rightarrow> cents \<times> installment_row" where
  "charged d rate r = (case calculate_daily_penalty r d rate of Inl _ \<Rightarrow> (0, r) | Inr x \<Rightarrow> x)"

lemma calculate_charged: "0 \<le> rate \<Longrightarrow> calculate_daily_penalty r d rate = Inr (charged d rate r)"
  by (auto simp: charged_def calculate_daily_penalty_def Let_def)

lemma charged_row:
  "ins_id (snd (charged d rate r)) = ins_id r" "ins_loan_id (snd (charged d rate r)) = ins_loan_id r"
  "ins_due_date (snd (charged d rate r)) = ins_due_date r" "ins_status (snd (charged d rate r)) = ins_status r"
  "ins_penalty_amount (snd (charged d rate r)) = ins_penalty_amount r + fst (charged d rate r)"
  by (simp_all add: charged_def calculate_daily_penalty_def Let_def split: option.splits)

lemma charged_overdue [simp]: "overdue d (snd (charged d rate r)) \<longleftrightarrow> overdue d r"
  by (simp add: overdue_def charged_row)

lemma charged_again: "charged d rate (snd (charged d rate r)) = (0, snd (charged d rate r))"
proof (cases "charged d rate r = (0, r)")
  case False
  then have "ins_last_penalty_date (snd (charged d rate r)) = Some d"
    by (auto simp: charged_def calculate_daily_penalty_def Let_def split: option.splits if_splits)
  then show ?thesis
    using charged_row [of d rate r]
    by (auto simp: charged_def [of d rate "snd (charged d rate r)"] calculate_daily_penalty_def Let_def
        split: option.splits)
qed simp

lemma distinct_map_unique: "distinct (map k xs) \<Longrightarrow> x \<in> set xs \<Longrightarrow> y \<in> set xs \<Longrightarrow> k x = k y \<Longrightarrow> x = y"
  by (auto simp: distinct_map inj_on_def)

text \<open>Writing a group of rows back one by one is one pass over the table.\<close>

lemma fold_put_by:
  assumes "\<And>r. k (f r) = k r" and "distinct (map k rows)"
  shows "fold (\<lambda>r. put_by k (f r)) rows table =
     map (\<lambda>x. case get_by k (k x) rows of None \<Rightarrow> x | Some r \<Rightarrow> f r) table"
  using assms(2)
proof (induction rows arbitrary: table)
  case (Cons r rows)
  then have "k r \<notin> k ` set rows" by simp
  then have "get_by k (k r) rows = None" unfolding get_by_None_iff by (metis image_eqI)
  with Cons show ?case by (auto simp: put_by_def assms(1))
qed simp

lemma get_by_filter:
  assumes "distinct (map k table)" "x \<in> set table"
  shows "get_by k (k x) (filter P table) = (if P x then Some x else None)"
proof (cases "get_by k (k x) (filter P table)")
  case None
  with assms show ?thesis by (auto simp: get_by_None_iff)
next
  case (Some y)
  then have "y \<in> set table \<and> P y \<and> k y = k x" by (auto dest: get_by_Some_mem)
  with Some distinct_map_unique [OF assms(1)] assms(2) show ?thesis by auto
qed

lemma fold_put_filter:
  assumes "\<And>r. k (f r) = k r" and "distinct (map k table)"
  shows "fold (\<lambda>r. put_by k (f r)) (filter P table) table = map (\<lambda>x. if P x then f x else x) table"
proof -
  have "distinct (map k (filter P table))" using assms(2) by (rule distinct_map_filter)
  from fold_put_by [OF assms(1) this] show ?thesis
    using get_by_filter [OF assms(2)] by (auto intro!: map_cong)
qed

lemma put_by_same: "distinct (map k table) \<Longrightarrow> r \<in> set table \<Longrightarrow> put_by k r table = table"
  by (auto simp: put_by_def intro!: map_idI dest: distinct_map_unique)

text \<open>One loan.\<close>

lemma penalize_run:
  assumes "fold_res (penalize d rate i) rows run = Inr run'" and "0 \<le> rate"
  shows "db_installments (pn_db run') =
      fold (\<lambda>r. put_by ins_id (snd (charged d rate r))) rows (db_installments (pn_db run))
    \<and> pn_total run' = pn_total run + (\<Sum>r\<leftarrow>rows. fst (charged d rate r))
    \<and> pn_installments run' = pn_installments run + int (length (filter (\<lambda>r. fst (charged d rate r) \<noteq> 0) rows))
    \<and> pn_touched run' = pn_touched run \<union> (if \<exists>r\<in>set rows. fst (charged d rate r) \<noteq> 0 then {i} else {})"
  using assms(1)
proof (induction rows arbitrary: run)
  case (Cons r rows)
  then obtain run1 where s: "penalize d rate i r run = Inr run1" "fold_res (penalize d rate i) rows run1 = Inr run'"
    by (auto simp: res_bind_eq_Inr)
  have one: "db_installments (pn_db run1) = put_by ins_id (snd (charged d rate r)) (db_installments (pn_db run))
    \<and> pn_total run1 = pn_total run + fst (charged d rate r)
    \<and> pn_installments run1 = pn_installments run + (if fst (charged d rate r) \<noteq> 0 then 1 else 0)
    \<and> pn_touched run1 = pn_touched run \<union> (if fst (charged d rate r) \<noteq> 0 then {i} else {})"
    using s(1)
    by (auto simp: penalize_def calculate_charged [OF assms(2)] Let_def split: prod.splits if_splits option.splits)
  from Cons.IH [OF s(2)] one show ?case by auto
qed simp

lemma penalize_loans:
  assumes "penalize d rate i r run = Inr run'" and "0 \<le> rate" and "distinct (map loan_id loans)"
    and inv: "db_loans (pn_db run) = map (\<lambda>l. if loan_id l \<in> pn_touched run then touch_loan l else l) loans"
  shows "db_loans (pn_db run') = map (\<lambda>l. if loan_id l \<in> pn_touched run' then touch_loan l else l) loans"
proof (cases "fst (charged d rate r) = 0 \<or> i \<in> pn_touched run")
  case True
  with assms(1) inv show ?thesis
    by (auto simp: penalize_def calculate_charged [OF assms(2)] Let_def insert_absorb
        split: prod.splits if_splits)
next
  case False
  let ?g = "\<lambda>T l. if loan_id l \<in> T then touch_loan l else l"
  have k: "loan_id (?g T l) = loan_id l" for T l by (simp add: touch_loan_def)
  have run': "pn_touched run' = insert i (pn_touched run)"
    "db_loans (pn_db run') = (case get_by loan_id i (db_loans (pn_db run)) of
        None \<Rightarrow> db_loans (pn_db run) | Some l \<Rightarrow> put_by loan_id (touch_loan l) (db_loans (pn_db run)))"
    using assms(1) False
    by (auto simp: penalize_def calculate_charged [OF assms(2)] Let_def split: prod.splits option.splits)
  show ?thesis
  proof (cases "get_by loan_id i (db_loans (pn_db run))")
    case None
    then have "i \<notin> loan_id ` set (map (?g (pn_touched run)) loans)"
      unfolding inv get_by_None_iff by blast
    then have "i \<notin> loan_id ` set loans" unfolding set_map image_image k .
    then have "\<forall>l\<in>set loans. loan_id l \<noteq> i" by blast
    with None run' inv show ?thesis by auto
  next
    case (Some l0)
    then obtain l where l: "l \<in> set loans" "l0 = ?g (pn_touched run) l" "loan_id l0 = i"
      by (auto simp: inv dest!: get_by_Some_mem)
    with False k [of l "pn_touched run"] have "l0 = l" "loan_id l = i" by auto
    moreover have "x = l" if "x \<in> set loans" "loan_id x = i" for x
      using that l(1) calculation(2) assms(3) by (auto simp: distinct_map inj_on_def)
    ultimately show ?thesis
      using Some False by (auto simp: run' inv put_by_def touch_loan_def)
  qed
qed

text \<open>All loans of a list.\<close>

definition charges_loan :: "date \<Rightarrow> decimal \<Rightarrow> installment_row list \<Rightarrow> int \<Rightarrow> bool" where
  "charges_loan d rate table i \<longleftrightarrow>
     list_ex (\<lambda>x. overdue d x \<and> ins_loan_id x = i \<and> fst (charged d rate x) \<noteq> 0) table"

definition charge_rows :: "date \<Rightarrow> decimal \<Rightarrow> int set \<Rightarrow> installment_row list \<Rightarrow> installment_row list" where
  "charge_rows d rate L table =
     map (\<lambda>x. if overdue d x \<and> ins_loan_id x \<in> L then snd (charged d rate x) else x) table"

lemma charge_rows_ids [simp]: "map ins_id (charge_rows d rate L table) = map ins_id table"
  by (simp add: charge_rows_def charged_row comp_def if_distrib cong: map_cong)

lemma charge_rows_insert:
  "i \<notin> L \<Longrightarrow> charge_rows d rate L (charge_rows d rate {i} table) = charge_rows d rate (insert i L) table"
  by (auto simp: charge_rows_def charged_row)

lemma charge_rows_penalties:
  "(\<Sum>x\<leftarrow>charge_rows d rate L table. ins_penalty_amount x) =
     (\<Sum>x\<leftarrow>table. ins_penalty_amount x)
     + (\<Sum>x\<leftarrow>table. if overdue d x \<and> ins_loan_id x \<in> L then fst (charged d rate x) else 0)"
  by (induction table) (auto simp: charge_rows_def charged_row)

lemma charges_loan_other:
  "j \<noteq> i \<Longrightarrow> charges_loan d rate (charge_rows d rate {i} table) j = charges_loan d rate table j"
  by (auto simp: charges_loan_def charge_rows_def list_ex_iff charged_row)

lemma penalize_loan_run:
  assumes "penalize_loan d rate i run = Inr run'" and "0 \<le> rate"
    and "distinct (map ins_id (db_installments (pn_db run)))"
  shows "db_installments (pn_db run') = charge_rows d rate {i} (db_installments (pn_db run))
    \<and> pn_total run' = pn_total run
        + (\<Sum>x\<leftarrow>db_installments (pn_db run'). ins_penalty_amount x)
        - (\<Sum>x\<leftarrow>db_installments (pn_db run). ins_penalty_amount x)
    \<and> pn_touched run' = pn_touched run \<union> {j. j = i \<and> charges_loan d rate (db_installments (pn_db run)) j}"
proof -
  let ?t = "db_installments (pn_db run)" and ?P = "\<lambda>x. overdue d x \<and> ins_loan_id x = i"
  have rows: "filter (overdue d) (installments_of i (pn_db run)) = filter ?P ?t"
    by (auto simp: installments_of_def intro!: filter_cong)
  from assms(1) have "fold_res (penalize d rate i) (filter ?P ?t) run = Inr run'"
    by (auto simp: penalize_loan_def res_bind_eq_Inr rows)
  note run = penalize_run [OF this assms(2)]
  have "db_installments (pn_db run') = charge_rows d rate {i} ?t"
    using run fold_put_filter [of ins_id "\<lambda>r. snd (charged d rate r)" ?t ?P] assms(3)
    by (simp add: charge_rows_def charged_row)
  moreover have "(\<Sum>r\<leftarrow>filter ?P ?t. fst (charged d rate r)) =
      (\<Sum>x\<leftarrow>?t. if overdue d x \<and> ins_loan_id x \<in> {i} then fst (charged d rate x) else 0)"
    by (simp add: sum_list_map_filter')
  moreover have "(if \<exists>r\<in>set (filter ?P ?t). fst (charged d rate r) \<noteq> 0 then {i} else {}) =
      {j. j = i \<and> charges_loan d rate ?t j}"
    by (auto simp: charges_loan_def list_ex_iff)
  ultimately show ?thesis using run by (simp add: charge_rows_penalties)
qed

lemma penalize_loans_run:
  assumes "fold_res (penalize_loan d rate) L run = Inr run'" and "0 \<le> rate" and "distinct L"
    and "distinct (map ins_id (db_installments (pn_db run)))"
  shows "db_installments (pn_db run') = charge_rows d rate (set L) (db_installments (pn_db run))
    \<and> pn_total run' = pn_total run
        + (\<Sum>x\<leftarrow>db_installments (pn_db run'). ins_penalty_amount x)
        - (\<Sum>x\<leftarrow>db_installments (pn_db run). ins_penalty_amount x)
    \<and> pn_touched run' = pn_touched run \<union> {j. j \<in> set L \<and> charges_loan d rate (db_installments (pn_db run)) j}"
  using assms
proof (induction L arbitrary: run)
  case Nil
  then show ?case by (simp add: charge_rows_def)
next
  case (Cons i L)
  then obtain run1 where s: "penalize_loan d rate i run = Inr run1" "fold_res (penalize_loan d rate) L run1 = Inr run'"
    by (auto simp: res_bind_eq_Inr)
  note one = penalize_loan_run [OF s(1) Cons.prems(2,4)]
  from Cons.IH [OF s(2)] Cons.prems one have
    "db_installments (pn_db run') = charge_rows d rate (set L) (db_installments (pn_db run1))
    \<and> pn_total run' = pn_total run1
        + (\<Sum>x\<leftarrow>db_installments (pn_db run'). ins_penalty_amount x)
        - (\<Sum>x\<leftarrow>db_installments (pn_db run1). ins_penalty_amount x)
    \<and> pn_touched run' = pn_touched run1 \<union> {j. j \<in> set L \<and> charges_loan d rate (db_installments (pn_db run1)) j}"
    by simp
  moreover have "j \<in> set L \<Longrightarrow> charges_loan d rate (db_installments (pn_db run1)) j =
      charges_loan d rate (db_installments (pn_db run)) j" for j
    using one Cons.prems(3) charges_loan_other [of j i] by auto
  ultimately show ?case using one Cons.prems(3) by (auto simp: charge_rows_insert)
qed

lemma penalize_loan_loans:
  assumes "fold_res (penalize_loan d rate) L run = Inr run'" and "0 \<le> rate" and "distinct (map loan_id loans)"
    and "db_loans (pn_db run) = map (\<lambda>l. if loan_id l \<in> pn_touched run then touch_loan l else l) loans"
  shows "db_loans (pn_db run') = map (\<lambda>l. if loan_id l \<in> pn_touched run' then touch_loan l else l) loans"
  using assms(1,4)
proof (rule fold_res_invariant)
  fix i u v
  assume u: "db_loans (pn_db u) = map (\<lambda>l. if loan_id l \<in> pn_touched u then touch_loan l else l) loans"
    and "penalize_loan d rate i u = Inr v"
  then have "fold_res (penalize d rate i) (filter (overdue d) (installments_of i (pn_db u))) u = Inr v"
    by (auto simp: penalize_loan_def res_bind_eq_Inr)
  then show "db_loans (pn_db v) = map (\<lambda>l. if loan_id l \<in> pn_touched v then touch_loan l else l) loans"
    using u by (rule fold_res_invariant) (blast intro: penalize_loans [OF _ assms(2,3)])
qed

text \<open>A second run on the same day finds nothing to charge.\<close>

lemma penalize_nothing:
  assumes "charged d rate r = (0, r)" "0 \<le> rate" "r \<in> set (db_installments (pn_db run))"
    "distinct (map ins_id (db_installments (pn_db run)))"
  shows "penalize d rate i r run = Inr run"
  using assms by (simp add: penalize_def calculate_charged put_installment_def put_by_same)

lemma penalize_loan_nothing:
  assumes "\<And>r. r \<in> set (db_installments (pn_db run)) \<Longrightarrow> overdue d r \<Longrightarrow> charged d rate r = (0, r)"
    and "0 \<le> rate" "distinct (map ins_id (db_installments (pn_db run)))" "get_by loan_id i (db_loans (pn_db run)) \<noteq> None"
  shows "penalize_loan d rate i run = Inr run"
proof -
  have "fold_res (penalize d rate i) rows run = Inr run"
    if "set rows \<subseteq> set (filter (overdue d) (db_installments (pn_db run)))" for rows
    using that by (induction rows) (auto simp: penalize_nothing [OF assms(1,2) _ assms(3)])
  from this [of "filter (overdue d) (installments_of i (pn_db run))"] show ?thesis using assms(4)
    by (auto simp: penalize_loan_def lock_loan_def installments_of_def split: option.splits)
qed

lemma get_by_None_keys: "get_by k i xs = None \<longleftrightarrow> i \<notin> set (map k xs)"
  by (auto simp: get_by_None_iff)

lemma get_by_keys:
  assumes "map k xs = map k ys"
  shows "get_by k i xs = None \<longleftrightarrow> get_by k i ys = None"
  unfolding get_by_None_keys assms ..

lemma lock_needed:
  assumes "fold_res (penalize_loan d rate) L run = Inr run'" and "0 \<le> rate" and "i \<in> set L"
  shows "get_by loan_id i (db_loans (pn_db run)) \<noteq> None"
  using assms(1,3)
proof (induction L arbitrary: run)
  case (Cons j L)
  then obtain run1 where s: "penalize_loan d rate j run = Inr run1" "fold_res (penalize_loan d rate) L run1 = Inr run'"
    by (auto simp: res_bind_eq_Inr)
  show ?case
  proof (cases "i = j")
    case True
    with s(1) show ?thesis by (auto simp: penalize_loan_def lock_loan_def split: option.splits)
  next
    case False
    then have "get_by loan_id i (db_loans (pn_db run1)) \<noteq> None"
      using Cons.IH [OF s(2)] Cons.prems(2) by simp
    moreover have "map loan_id (db_loans (pn_db run1)) = map loan_id (db_loans (pn_db run))"
    proof -
      from s(1) have "fold_res (penalize d rate j) (filter (overdue d) (installments_of j (pn_db run))) run = Inr run1"
        by (auto simp: penalize_loan_def res_bind_eq_Inr)
      then show ?thesis
      proof (rule fold_res_invariant)
        fix r u v
        assume "map loan_id (db_loans (pn_db u)) = map loan_id (db_loans (pn_db run))" "penalize d rate j r u = Inr v"
        then show "map loan_id (db_loans (pn_db v)) = map loan_id (db_loans (pn_db run))"
          by (auto simp: penalize_def calculate_charged [OF assms(2)] Let_def split: prod.splits if_splits option.splits)
      qed simp
    qed
    ultimately show ?thesis by (metis get_by_keys)
  qed
qed simp

text \<open>C28. A run of the daily penalty charges every overdue installment what the rule says and
  no other row, its total is the increase of the penalties, each loan whose penalties grew gets one new
  revision however many installments it has, and a second run on the same day charges nothing and
  changes nothing.\<close>

theorem penalty_run_effect:
  assumes "accrue_overdue_penalties d rate db = Inr run"
    and "distinct (map ins_id (db_installments db))" and "distinct (map loan_id (db_loans db))" and "0 \<le> rate"
  shows "db_installments (pn_db run) =
      map (\<lambda>x. if overdue d x then snd (charged d rate x) else x) (db_installments db)
    \<and> pn_total run = (\<Sum>x\<leftarrow>db_installments (pn_db run). ins_penalty_amount x)
        - (\<Sum>x\<leftarrow>db_installments db. ins_penalty_amount x)
    \<and> db_loans (pn_db run) =
        map (\<lambda>l. if charges_loan d rate (db_installments db) (loan_id l) then touch_loan l else l) (db_loans db)
    \<and> accrue_overdue_penalties d rate (pn_db run) =
        Inr \<lparr>pn_installments = 0, pn_total = 0, pn_touched = {}, pn_db = pn_db run\<rparr>"
proof -
  define ids where "ids t = sort (remdups (map ins_loan_id (filter (overdue d) t)))" for t
  let ?t = "db_installments db" and ?start = "\<lambda>x. \<lparr>pn_installments = 0, pn_total = 0, pn_touched = {}, pn_db = x\<rparr>"
  have run: "fold_res (penalize_loan d rate) (ids ?t) (?start db) = Inr run"
    using assms(1) by (simp add: accrue_overdue_penalties_def ids_def)
  have set_ids: "set (ids t) = ins_loan_id ` {x \<in> set t. overdue d x}" and "distinct (ids t)" for t
    by (auto simp: ids_def)
  then have "distinct (ids ?t)" by blast
  note all = penalize_loans_run [OF run assms(4) this, simplified, OF assms(2)]
  have rows: "charge_rows d rate (set (ids ?t)) ?t = map (\<lambda>x. if overdue d x then snd (charged d rate x) else x) ?t"
    by (auto simp: charge_rows_def set_ids)
  have touched: "pn_touched run = {j. charges_loan d rate ?t j}"
    using all by (auto simp: set_ids charges_loan_def list_ex_iff)
  have loans: "db_loans (pn_db run) = map (\<lambda>l. if loan_id l \<in> pn_touched run then touch_loan l else l) (db_loans db)"
    by (rule penalize_loan_loans [OF run assms(4,3)]) simp
  have keys: "map loan_id (db_loans (pn_db run)) = map loan_id (db_loans db)"
    by (simp add: loans touch_loan_def comp_def if_distrib cong: map_cong)
  have again: "fold_res (penalize_loan d rate) L (?start (pn_db run)) = Inr (?start (pn_db run))"
    if "set L \<subseteq> set (ids ?t)" for L
    using that
  proof (induction L)
    case (Cons i L)
    have "i \<in> set (ids ?t)" using Cons.prems by simp
    with lock_needed [OF run assms(4)] have "get_by loan_id i (db_loans db) \<noteq> None" by simp
    then have "get_by loan_id i (db_loans (pn_db run)) \<noteq> None"
      using get_by_keys [OF keys, of i] by simp
    moreover have "distinct (map ins_id (db_installments (pn_db run)))" using all assms(2) by simp
    ultimately have "penalize_loan d rate i (?start (pn_db run)) = Inr (?start (pn_db run))"
      using all assms(2,4) by (intro penalize_loan_nothing) (auto simp: rows charged_again split: if_splits)
    with Cons show ?case by simp
  qed simp
  have "ids (db_installments (pn_db run)) = ids ?t"
  proof -
    have "map ins_loan_id (filter (overdue d) (map (\<lambda>x. if overdue d x then snd (charged d rate x) else x) t))
        = map ins_loan_id (filter (overdue d) t)" for t
      by (induction t) (simp_all add: charged_row)
    then show ?thesis using all unfolding ids_def by (simp only: rows [unfolded ids_def])
  qed
  with again [of "ids ?t"] have "accrue_overdue_penalties d rate (pn_db run) = Inr (?start (pn_db run))"
    by (simp add: accrue_overdue_penalties_def ids_def)
  moreover have "db_loans (pn_db run) =
      map (\<lambda>l. if charges_loan d rate ?t (loan_id l) then touch_loan l else l) (db_loans db)"
    using loans unfolding touched by simp
  moreover note all [THEN conjunct1, unfolded rows] all [THEN conjunct2, THEN conjunct1]
  ultimately show ?thesis by blast
qed

section \<open>Releasing a loan\<close>

lemma put_loan_same:
  "distinct (map loan_id (db_loans db)) \<Longrightarrow> get_by loan_id i (db_loans db) = Some l \<Longrightarrow> put_loan l db = db"
  by (auto simp: put_loan_def put_by_same dest: get_by_Some_mem)

definition disburses :: "loan_row \<Rightarrow> ledger_row \<Rightarrow> bool" where
  "disburses l e \<longleftrightarrow> led_reference_type e = ''LOAN_DISBURSEMENT'' \<and> led_reference_id e = py_str (loan_id l)"

lemma disbursement_None: "disbursement_of l db = None \<longleftrightarrow> filter (disburses l) (db_ledger db) = []"
  by (auto simp: disbursement_of_def disburses_def find_None_iff filter_empty_conv)

text \<open>What a release that pays the loan out leaves behind.\<close>

definition released :: "cents \<Rightarrow> loan_row \<Rightarrow> 'a loan_tables_scheme \<Rightarrow> 'a loan_tables_scheme \<Rightarrow> bool" where
  "released amount l db db' \<longleftrightarrow>
     (\<exists>e. db_ledger db' = db_ledger db @ [e] \<and> disburses l e \<and> led_direction e = ''DEBIT''
        \<and> led_account e = ''CAIXINHA'' \<and> led_amount e = amount \<and> 0 < amount)
   \<and> has_commitment l db'"

lemma commit_principal_Inr:
  assumes "commit_principal now m a l db = Inr db'"
  shows "\<exists>es. db' = db\<lparr>db_entries := es\<rparr> \<and> has_commitment l db'"
proof (cases "has_commitment l db")
  case True
  with assms show ?thesis by (intro exI [of _ "db_entries db"]) (simp add: commit_principal_def)
next
  case False
  with assms obtain e where "add_member_financial_entry now m (commitment_request l a) db = Inr (e, db')"
    by (auto simp: res_bind_eq_Inr commit_principal_def)
  moreover from this have "ent_reference_type e = Some ''LOAN_PRINCIPAL_COMMITMENT''"
    "ent_reference_id e = Some (py_str (loan_id l))"
    by (auto simp: add_member_financial_entry_def commitment_request_def Let_def split: if_splits)
  ultimately show ?thesis
    by (intro exI [of _ "db_entries db @ [e]"])
      (auto dest!: add_entry_Inr simp: commitment_request_def has_commitment_def)
qed

lemma finish_release_tables:
  "db_ledger (finish_release now admin l db) = db_ledger db" "db_entries (finish_release now admin l db) = db_entries db"
  "db_accounts (finish_release now admin l db) = db_accounts db" "db_members (finish_release now admin l db) = db_members db"
  "db_loans (finish_release now admin l db) =
     put_by loan_id (touch_loan (l\<lparr>loan_status := ''ACTIVE'', loan_disbursed_at := Some (Aware now)\<rparr>)) (db_loans db)"
  by (simp_all add: finish_release_def Let_def split: option.splits)

lemma lock_accounts_only:
  assumes "lock_member_financial_account i db0 = Inr (m, a, db)"
  obtains acc where "db = db0\<lparr>db_accounts := acc\<rparr>"
  using lock_account_effect [OF assms] by blast

lemma release_prepared:
  assumes "release_loan hash now loan0 admin db0 = Inr (ok, db')"
  obtains m a acc l where "lock_member_financial_account (loan_member_id loan0) db0 = Inr (m, a, db0\<lparr>db_accounts := acc\<rparr>)"
    "get_by loan_id (loan_id loan0) (db_loans db0) = Some l"
proof -
  from assms obtain m a db where lock: "lock_member_financial_account (loan_member_id loan0) db0 = Inr (m, a, db)"
    by (auto simp: release_loan_def res_bind_eq_Inr)
  from lock_accounts_only [OF lock] obtain acc where db: "db = db0\<lparr>db_accounts := acc\<rparr>" .
  from assms lock obtain l where "get_by loan_id (loan_id loan0) (db_loans db0) = Some l"
    by (auto simp: release_loan_def lock_loan_def res_bind_eq_Inr db split: option.splits)
  with lock db that show thesis by blast
qed

lemma release_locked:
  assumes "lock_member_financial_account (loan_member_id loan0) db0 = Inr (m, a, db0\<lparr>db_accounts := acc\<rparr>)"
    and "get_by loan_id (loan_id loan0) (db_loans db0) = Some l"
  shows "disbursement_of l db0 = Some d \<Longrightarrow> release_loan hash now loan0 admin db0 =
      Inr (False, put_loan (align_release d l) (db0\<lparr>db_accounts := acc\<rparr>))"
    and "disbursement_of l db0 = None \<Longrightarrow> release_loan hash now loan0 admin db0 = Inr (ok, db') \<Longrightarrow>
      ok \<and> loan_status l = ''APPROVED'' \<and> (\<exists>e ledger db1.
        post_entry hash now ''CAIXINHA'' ''DEBIT'' (dec (loan_principal l)) ''LOAN_DISBURSEMENT''
          (py_str (loan_id l)) None (db_ledger db0) = Inr (e, ledger)
      \<and> commit_principal now m a l (db0\<lparr>db_accounts := acc, db_ledger := ledger\<rparr>) = Inr db1
      \<and> db' = finish_release now admin l db1)"
  using assms
  by (auto simp: release_loan_def lock_loan_def disbursement_of_def res_bind_eq_Inr split: if_splits)

text \<open>C27. A loan is paid out once. A release returns True exactly when the loan had no
  disbursement; then the loan was APPROVED, its principal is debited from the pool in one new ledger
  entry and committed on the member's account. Either way the loan is ACTIVE with a disbursement
  time and a disbursement entry, and every later release returns False and changes nothing.\<close>

theorem release_once:
  assumes run: "release_loan hash now loan0 admin db0 = Inr (ok, db')"
    and ids: "distinct (map loan_id (db_loans db0))"
    and l: "get_by loan_id (loan_id loan0) (db_loans db0) = Some l"
  shows "(ok \<longleftrightarrow> disbursement_of l db0 = None) \<and> (ok \<longrightarrow> loan_status l = ''APPROVED'' \<and> released (loan_principal l) l db0 db')
    \<and> (\<not> ok \<longrightarrow> db_ledger db' = db_ledger db0 \<and> db_entries db' = db_entries db0)
    \<and> (\<exists>l'. get_by loan_id (loan_id loan0) (db_loans db') = Some l' \<and> loan_status l' = ''ACTIVE'' \<and> loan_disbursed_at l' \<noteq> None)
    \<and> release_loan hash later loan0 admin' db' = Inr (False, db')"
proof -
  from release_prepared [OF run] l obtain m a acc where
    lock: "lock_member_financial_account (loan_member_id loan0) db0 = Inr (m, a, db0\<lparr>db_accounts := acc\<rparr>)" by metis
  have li: "loan_id l = loan_id loan0" using l by (auto dest: get_by_Some_mem)
  let ?Q = "\<lambda>l' d. db_loans db' = put_by loan_id l' (db_loans db0) \<and> loan_id l' = loan_id l \<and> loan_status l' = ''ACTIVE''
      \<and> loan_disbursed_at l' \<noteq> None \<and> db_members db' = db_members db0 \<and> db_accounts db' = acc
      \<and> disbursement_of l db' = Some d \<and> (ok \<longleftrightarrow> disbursement_of l db0 = None)
      \<and> (ok \<longrightarrow> loan_status l = ''APPROVED'' \<and> released (loan_principal l) l db0 db')
      \<and> (\<not> ok \<longrightarrow> db_ledger db' = db_ledger db0 \<and> db_entries db' = db_entries db0)"
  have "\<exists>l' d. ?Q l' d"
  proof (cases "disbursement_of l db0")
    case None
    from release_locked(2) [OF lock l None run] obtain e ledger db1 where r: "ok" "loan_status l = ''APPROVED''"
      and post: "post_entry hash now ''CAIXINHA'' ''DEBIT'' (dec (loan_principal l)) ''LOAN_DISBURSEMENT''
          (py_str (loan_id l)) None (db_ledger db0) = Inr (e, ledger)"
      and com: "commit_principal now m a l (db0\<lparr>db_accounts := acc, db_ledger := ledger\<rparr>) = Inr db1"
      and db': "db' = finish_release now admin l db1" by blast
    from commit_principal_Inr [OF com] obtain es where
      db1: "db1 = db0\<lparr>db_accounts := acc, db_ledger := ledger, db_entries := es\<rparr>" "has_commitment l db1" by auto
    have "0 < loan_principal l"
      using post by (auto simp: post_entry_def Let_def res_bind_eq_Inr check_posting_def split: if_splits)
    with post_entry_Inr [OF post] db1 None r show ?thesis
      by (intro exI [of _ "touch_loan (l\<lparr>loan_status := ''ACTIVE'', loan_disbursed_at := Some (Aware now)\<rparr>)"] exI [of _ e])
        (auto simp: db' finish_release_tables released_def disburses_def has_commitment_def
          touch_loan_def disbursement_of_def find_append)
  next
    case (Some d)
    with run release_locked(1) [OF lock l Some] have "ok = False"
      "db' = put_loan (align_release d l) (db0\<lparr>db_accounts := acc\<rparr>)" by auto
    with Some show ?thesis
      by (intro exI [of _ "align_release d l"] exI [of _ d])
        (auto simp: align_release_def Let_def touch_loan_def disbursement_of_def split: option.splits)
  qed
  then obtain l' where "\<exists>d. ?Q l' d" ..
  then obtain d where "?Q l' d" ..
  then have f: "db_loans db' = put_by loan_id l' (db_loans db0)" "loan_id l' = loan_id l"
    "loan_status l' = ''ACTIVE''" "loan_disbursed_at l' \<noteq> None" "db_members db' = db_members db0" "db_accounts db' = acc"
    "disbursement_of l db' = Some d" and rest: "ok \<longleftrightarrow> disbursement_of l db0 = None"
    "ok \<longrightarrow> loan_status l = ''APPROVED'' \<and> released (loan_principal l) l db0 db'"
    "\<not> ok \<longrightarrow> db_ledger db' = db_ledger db0 \<and> db_entries db' = db_entries db0" by simp_all
  have l': "get_by loan_id (loan_id loan0) (db_loans db') = Some l'"
    using get_by_put_same [of loan_id l' "db_loans db0"] l f(1,2) li by simp
  have same: "db'\<lparr>db_accounts := acc\<rparr> = db'" unfolding f(6) [symmetric] by simp
  have "lock_member_financial_account (loan_member_id loan0) db' = Inr (m, a, db'\<lparr>db_accounts := acc\<rparr>)"
    unfolding same using lock_account_again [OF lock, of db'] f(5,6) by simp
  moreover have "disbursement_of l' db' = Some d" using f(2,7) by (simp add: disbursement_of_def)
  ultimately have "release_loan hash later loan0 admin' db' =
      Inr (False, put_loan (align_release d l') (db'\<lparr>db_accounts := acc\<rparr>))"
    by (intro release_locked(1) l')
  moreover have "align_release d l' = l'" using f(3,4) by (auto simp: align_release_def Let_def)
  moreover have "distinct (map loan_id (db_loans db'))" using ids by (simp add: f(1))
  ultimately have "release_loan hash later loan0 admin' db' = Inr (False, db')"
    using put_loan_same [OF _ l'] by (simp add: same)
  with rest l' f(3,4) show ?thesis by blast
qed

section \<open>Witnesses\<close>

definition due_installment :: installment_row where
  "due_installment = \<lparr>ins_id = 7, ins_loan_id = 1, ins_number = 1, ins_due_date = 20000, ins_principal = 50000,
     ins_interest = 10000, ins_amount = 60000, ins_paid_amount = 0, ins_penalty_amount = 300,
     ins_paid_penalty_amount = 0, ins_last_penalty_date = None, ins_late_charge_version = None,
     ins_fixed_penalty_amount = None, ins_paid_fixed_penalty_amount = None, ins_late_interest_amount = None,
     ins_paid_late_interest_amount = None, ins_late_interest_accrued_through_date = None,
     ins_paid_at = None, ins_status = ''PENDING'', ins_collection_stage = ''NORMAL''\<rparr>"

definition approved_loan :: loan_row where
  "approved_loan = \<lparr>loan_id = 1, loan_member_id = 4, loan_cycle_id = None, loan_principal = 50000,
     loan_principal_settled_with_own_balance = 0, loan_monthly_rate = 1 / 5, loan_installments = 1,
     loan_calculation_version = None, loan_status = ''APPROVED'', loan_disbursed_at = None,
     loan_paid_at = None, loan_state_revision = 1\<rparr>"

definition engine_db :: loan_tables where
  "engine_db = \<lparr>db_ledger = [], db_accounts = [], db_entries = [],
     db_members = [\<lparr>mem_id = 4, mem_user_id = 9, mem_group_id = 1, mem_status = ''ACTIVE''\<rparr>],
     db_audit = [], db_notifications = [], db_loans = [approved_loan], db_installments = [due_installment],
     db_late_events = [], db_settlements = [], db_reversals = [], db_payments = []\<rparr>"

theorem apply_payment_conserves_witness:
  "let (r, i) = apply_payment 0 due_installment (dec 100000) in
     ap_applied r + ap_excess r = 100000 \<and> installment_due i = installment_due due_installment - ap_applied r"
proof -
  obtain r i where p: "apply_payment 0 due_installment (dec 100000) = (r, i)" by fastforce
  from apply_payment_conserves [OF p] show ?thesis
    by (simp add: p)
qed

theorem penalty_run_effect_witness:
  "\<exists>run. accrue_overdue_penalties 20005 (1 / 1000) engine_db = Inr run
     \<and> accrue_overdue_penalties 20005 (1 / 1000) (pn_db run) =
        Inr \<lparr>pn_installments = 0, pn_total = 0, pn_touched = {}, pn_db = pn_db run\<rparr>"
proof -
  obtain inc i' where c: "charged 20005 (1 / 1000) due_installment = (inc, i')" by fastforce
  have "overdue 20005 due_installment" "ins_loan_id due_installment = 1"
    by (simp_all add: overdue_def due_installment_def)
  with c have "\<exists>run. accrue_overdue_penalties 20005 (1 / 1000) engine_db = Inr run"
    by (simp add: accrue_overdue_penalties_def engine_db_def penalize_loan_def lock_loan_def
        installments_of_def penalize_def calculate_charged approved_loan_def Let_def)
  then obtain run where r: "accrue_overdue_penalties 20005 (1 / 1000) engine_db = Inr run" ..
  from penalty_run_effect [OF r] have "accrue_overdue_penalties 20005 (1 / 1000) (pn_db run) =
        Inr \<lparr>pn_installments = 0, pn_total = 0, pn_touched = {}, pn_db = pn_db run\<rparr>"
    by (simp add: engine_db_def)
  with r show ?thesis by blast
qed

theorem release_once_witness:
  "\<exists>db'. release_loan demo_hash 0 approved_loan 2 engine_db = Inr (True, db')
     \<and> release_loan demo_hash 5 approved_loan 3 db' = Inr (False, db')"
proof -
  have "\<exists>db'. release_loan demo_hash 0 approved_loan 2 engine_db = Inr (True, db')"
    by (simp add: release_loan_def engine_db_def approved_loan_def lock_member_financial_account_def Let_def
        lock_loan_def disbursement_of_def post_entry_def check_posting_def flush_entry_def latest_entry_def
        commit_principal_def has_commitment_def add_member_financial_entry_def commitment_request_def)
  then obtain db' where r: "release_loan demo_hash 0 approved_loan 2 engine_db = Inr (True, db')" ..
  from release_once [OF r, of approved_loan 5 3] have "release_loan demo_hash 5 approved_loan 3 db' = Inr (False, db')"
    by (simp add: engine_db_def approved_loan_def)
  with r show ?thesis by blast
qed

end
