(* ===== verification/Loan_Payments.thy ===== *)
theory Loan_Payments
  imports Loan_Engine Loan_Payoff Amortization
begin

text \<open>
  Payments of loans, \<open>services/loan_payments_v17.py\<close>: the confirmed payment of an unversioned
  installment, and the settlement or partial renegotiation of a loan with the member's own balance.
\<close>

section \<open>Confirmed payments\<close>

definition has_ledger :: "string \<Rightarrow> string \<Rightarrow> 'a books_scheme \<Rightarrow> bool" where
  "has_ledger reference_type ref db \<longleftrightarrow>
     list_ex (\<lambda>r. led_reference_type r = reference_type \<and> led_reference_id r = ref) (db_ledger db)"

definition post_credit ::
    "(json \<Rightarrow> string) \<Rightarrow> instant \<Rightarrow> cents \<Rightarrow> string \<Rightarrow> string \<Rightarrow> 'a books_scheme \<Rightarrow> 'a books_scheme res" where
  "post_credit hash now amount reference_type ref db =
     res_bind (post_entry hash now ''CAIXINHA'' ''CREDIT'' (dec amount) reference_type ref None (db_ledger db))
       (\<lambda>(_, ledger). Inr (db\<lparr>db_ledger := ledger\<rparr>))"

text \<open>A ledger entry for a positive amount, unless the payment has one already.\<close>

definition post_once ::
    "(json \<Rightarrow> string) \<Rightarrow> instant \<Rightarrow> cents \<Rightarrow> string \<Rightarrow> string \<Rightarrow> 'a books_scheme \<Rightarrow> 'a books_scheme res" where
  "post_once hash now amount reference_type ref db =
     (if 0 < amount \<and> \<not> has_ledger reference_type ref db
      then post_credit hash now amount reference_type ref db else Inr db)"

definition principal_entry :: "cents \<Rightarrow> string \<Rightarrow> account_row \<Rightarrow> entry_request" where
  "principal_entry amount ref account =
     \<lparr>rq_entry_type = ''LOAN_PRINCIPAL_PAYMENT'', rq_direction = ''CREDIT'', rq_amount = dec amount,
      rq_reference_type = Some ''LOAN_PRINCIPAL_PAYMENT'', rq_reference_id = Some ref,
      rq_account = Some account, rq_contribution_id = None, rq_settlement_id = None\<rparr>"

definition credit_principal ::
    "instant \<Rightarrow> member_row \<Rightarrow> account_row \<Rightarrow> cents \<Rightarrow> string \<Rightarrow> 'a books_scheme \<Rightarrow> 'a books_scheme res" where
  "credit_principal now member account amount ref db =
     (if 0 < amount
      then res_bind (add_member_financial_entry now member (principal_entry amount ref account) db) (\<lambda>(_, db'). Inr db')
      else Inr db)"

text \<open>Interest first: what the base payment applies to the interest still open.\<close>

definition interest_part :: "installment_row \<Rightarrow> cents \<Rightarrow> cents \<Rightarrow> cents" where
  "interest_part inst paid_before base_applied =
     min base_applied (max 0 (ins_interest inst - min (ins_interest inst) paid_before))"

definition apply_with_locks ::
    "(json \<Rightarrow> string) \<Rightarrow> instant \<Rightarrow> payment_row \<Rightarrow> installment_row \<Rightarrow> cents \<Rightarrow> loan_row \<Rightarrow> member_row \<Rightarrow> account_row
      \<Rightarrow> 'a loan_tables_scheme \<Rightarrow> (bool \<times> payment_row \<times> installment_row \<times> loan_row \<times> 'a loan_tables_scheme) res" where
  "apply_with_locks hash now payment inst amount l member account db =
     (if pay_ledger_posted_at payment \<noteq> None then Inr (False, payment, inst, l, db)
      else
        let paid_before = ins_paid_amount inst;
            (result, inst') = apply_payment now inst (dec amount);
            posted = payment\<lparr>pay_ledger_posted_at := Some (Aware now)\<rparr>;
            db1 = put_installment inst' db; ref = py_str (pay_id payment)
        in if ap_applied result \<le> 0 then Inr (False, posted, inst', l, put_payment posted db1)
           else
        let interest = interest_part inst paid_before (ap_base_applied result);
            principal = max 0 (ap_base_applied result - interest)
        in res_bind (post_once hash now (ap_penalty_applied result) ''LOAN_PENALTY_PAYMENT'' ref db1) (\<lambda>db2.
           res_bind (post_once hash now interest ''LOAN_INTEREST_PAYMENT'' ref db2) (\<lambda>db3.
           res_bind (credit_principal now member account principal ref db3) (\<lambda>db4.
           let l' = touch_loan (snd (ensure_loan_completion now True l db4))
           in Inr (True, posted, inst', l', put_loan l' (put_payment posted db4))))))"

definition apply_confirmed_payment ::
    "(json \<Rightarrow> string) \<Rightarrow> instant \<Rightarrow> payment_row \<Rightarrow> installment_row \<Rightarrow> cents option
      \<Rightarrow> 'a loan_tables_scheme \<Rightarrow> (bool \<times> 'a loan_tables_scheme) res" where
  "apply_confirmed_payment hash now payment inst amount db =
     (if pay_ledger_posted_at payment \<noteq> None then Inr (False, db)
      else case get_by loan_id (ins_loan_id inst) (db_loans db) of
        None \<Rightarrow> Inl (ValueError ''Emprestimo nao encontrado.'')
      | Some unlocked \<Rightarrow>
          res_bind (lock_member_financial_account (loan_member_id unlocked) db) (\<lambda>(member, account, db1).
          res_bind (lock_loan (loan_id unlocked) db1) (\<lambda>l.
          res_bind (one_row (filter (\<lambda>r. ins_id r = ins_id inst) (db_installments db1))) (\<lambda>locked.
          res_bind (apply_with_locks hash now payment locked
              (case amount of None \<Rightarrow> pay_amount payment | Some a \<Rightarrow> a) l member account db1)
            (\<lambda>(ok, _, _, _, db2). Inr (ok, db2))))))"

section \<open>Own balance\<close>

definition own_entries :: "string \<Rightarrow> loan_row \<Rightarrow> 'a books_scheme \<Rightarrow> member_entry_row list" where
  "own_entries kind l db =
     filter (\<lambda>e. ent_entry_type e = kind \<and> ent_reference_type e = Some kind
       \<and> ent_reference_id e = Some (py_str (loan_id l))) (db_entries db)"

definition own_debit :: "string \<Rightarrow> loan_row \<Rightarrow> cents \<Rightarrow> account_row \<Rightarrow> entry_request" where
  "own_debit kind l amount account =
     \<lparr>rq_entry_type = kind, rq_direction = ''DEBIT'', rq_amount = dec amount,
      rq_reference_type = Some kind, rq_reference_id = Some (py_str (loan_id l)),
      rq_account = Some account, rq_contribution_id = None, rq_settlement_id = None\<rparr>"

definition OPEN_LOAN_STATUSES :: "string list" where
  "OPEN_LOAN_STATUSES = [''ACTIVE'', ''OVERDUE'', ''IN_COLLECTION'']"

record own_settlement =
  os_amount :: cents
  os_idempotent :: bool

text \<open>\<open>sorted_rows\<close> are the loan's installments by number; closing them writes each back.\<close>

definition close_installments :: "instant \<Rightarrow> installment_row list \<Rightarrow> 'a loan_tables_scheme \<Rightarrow> 'a loan_tables_scheme" where
  "close_installments payoff_at rows db =
     fold (\<lambda>r d. put_installment (r\<lparr>ins_status := ''PAID'', ins_paid_at := Some (Aware payoff_at)\<rparr>) d) rows db"

text \<open>Whether the loan may be settled, and the principal that is open.\<close>

definition own_settlement_amount ::
    "verifier \<Rightarrow> instant \<Rightarrow> member_row \<Rightarrow> loan_row \<Rightarrow> 'a loan_tables_scheme \<Rightarrow> cents res" where
  "own_settlement_amount vf payoff_at member l db =
     (let installments = loan_installments_of l db
      in if loan_status l \<notin> set OPEN_LOAN_STATUSES then
           Inl (ValueError ''Emprestimo nao pode ser liquidado no status atual.'')
         else if installments = [] then Inl (ValueError ''Emprestimo nao possui parcelas.'')
         else if 0 < (\<Sum>i\<leftarrow>installments. penalty_open i) then
           Inl (ValueError ''Existem encargos vencidos.'')
         else
     res_bind (loan_payoff_quote vf db l (Stamp (Aware payoff_at))) (\<lambda>quote.
     if loan_calculation_version l = Some PRICE_CALCULATION_VERSION
         \<and> (0 < pq_normal_interest_due quote \<or> 0 < pq_fixed_penalty_due quote \<or> 0 < pq_late_interest_due quote) then
       Inl (ValueError ''BUSINESS_DECISION_REQUIRED'')
     else if pq_principal_due quote \<le> 0 then Inl (ValueError ''Nao existe principal em aberto para liquidar.'')
     else if ps_available_balance (get_member_financial_position member db) < pq_principal_due quote then
       Inl (ValueError ''Saldo proprio disponivel insuficiente para liquidacao.'')
     else Inr (pq_principal_due quote)))"

definition settle_loan_with_own_balance ::
    "verifier \<Rightarrow> instant \<Rightarrow> loan_row \<Rightarrow> int \<Rightarrow> datetime option \<Rightarrow> 'a loan_tables_scheme
      \<Rightarrow> (own_settlement \<times> 'a loan_tables_scheme) res" where
  "settle_loan_with_own_balance vf now loan0 actor_id financial_at db0 =
     res_bind (case financial_at of None \<Rightarrow> Inr now
                | Some t \<Rightarrow> utc_strict t ''financial_at precisa ser timezone-aware.'') (\<lambda>payoff_at.
     res_bind (lock_member_financial_account (loan_member_id loan0) db0) (\<lambda>(member, account, db).
     res_bind (lock_loan (loan_id loan0) db) (\<lambda>l.
     case own_entries ''OWN_BALANCE_SETTLEMENT'' l db of
       e # _ \<Rightarrow> Inr (\<lparr>os_amount = ent_amount e, os_idempotent = True\<rparr>, db)
     | [] \<Rightarrow>
     res_bind (own_settlement_amount vf payoff_at member l db) (\<lambda>principal_open.
     res_bind (add_member_financial_entry now member
         (own_debit ''OWN_BALANCE_SETTLEMENT'' l principal_open account) db) (\<lambda>(_, db1).
     let l' = touch_loan (l\<lparr>loan_principal_settled_with_own_balance :=
                  loan_principal_settled_with_own_balance l + principal_open,
                loan_status := ''PAID'', loan_paid_at := Some (Aware payoff_at)\<rparr>);
         db2 = put_loan l' (close_installments payoff_at (loan_installments_of l db) db1)
     in Inr (\<lparr>os_amount = principal_open, os_idempotent = False\<rparr>,
             add_audit (Some actor_id) ''LOAN_SETTLEMENT_OWN_BALANCE'' ''LOAN'' (py_str (loan_id l)) db2))))))"

record renegotiation =
  rn_amount_applied :: cents
  rn_remaining_principal :: cents
  rn_idempotent :: bool

definition renegotiate_loan_with_own_balance ::
    "instant \<Rightarrow> loan_row \<Rightarrow> decimal \<Rightarrow> int \<Rightarrow> 'a loan_tables_scheme \<Rightarrow> (renegotiation \<times> 'a loan_tables_scheme) res" where
  "renegotiate_loan_with_own_balance now loan0 amount0 actor_id db0 =
     res_bind (lock_member_financial_account (loan_member_id loan0) db0) (\<lambda>(member, account, db).
     res_bind (lock_loan (loan_id loan0) db) (\<lambda>l.
     let amount = cents_even amount0;
         principal_remaining = loan_principal l - loan_principal_settled_with_own_balance l
     in if amount \<le> 0 then Inl (ValueError ''O valor da renegociacao deve ser maior que zero.'')
     else if loan_status l \<notin> set OPEN_LOAN_STATUSES then
       Inl (ValueError ''Emprestimo nao pode ser renegociado no status atual.'')
     else case own_entries ''OWN_BALANCE_RENEGOTIATION'' l db of
       e # _ \<Rightarrow> Inr (\<lparr>rn_amount_applied = ent_amount e,
           rn_remaining_principal = max 0 principal_remaining, rn_idempotent = True\<rparr>, db)
     | [] \<Rightarrow>
     if principal_remaining \<le> 0 then Inl (ValueError ''Nao existe principal em aberto para renegociar.'')
     else if principal_remaining < amount then
       Inl (ValueError ''O valor da renegociacao nao pode exceder o principal em aberto.'')
     else if ps_available_balance (get_member_financial_position member db) < amount then
       Inl (ValueError ''Saldo proprio disponivel insuficiente para renegociacao.'')
     else
     res_bind (add_member_financial_entry now member
         (own_debit ''OWN_BALANCE_RENEGOTIATION'' l amount account) db) (\<lambda>(_, db1).
     let l' = touch_loan (l\<lparr>loan_principal_settled_with_own_balance :=
                loan_principal_settled_with_own_balance l + amount\<rparr>)
     in Inr (\<lparr>rn_amount_applied = amount,
              rn_remaining_principal = loan_principal l - loan_principal_settled_with_own_balance l',
              rn_idempotent = False\<rparr>,
             add_audit (Some actor_id) ''LOAN_RENEGOTIATION_OWN_BALANCE'' ''LOAN'' (py_str (loan_id l)) (put_loan l' db1)))))"

end
