(* ===== verification/Loan_Payment_Properties.thy ===== *)
theory Loan_Payment_Properties
  imports Loan_Payments Loan_Engine_Properties
begin

text \<open>
  What the payment operations of loans promise: an own-balance settlement or renegotiation moves
  exactly its amount out of the member's position and happens once per loan, and a confirmed
  payment is posted once, in entries that add up to what was applied.
\<close>

section \<open>Own balance\<close>

lemma close_installments_simps [simp]:
  "db_ledger (close_installments t rows db) = db_ledger db" "db_entries (close_installments t rows db) = db_entries db"
  "db_accounts (close_installments t rows db) = db_accounts db" "db_members (close_installments t rows db) = db_members db"
  "db_loans (close_installments t rows db) = db_loans db"
  unfolding close_installments_def by (induction rows arbitrary: db) simp_all

lemma close_installments_rows:
  "db_installments (close_installments t rows db) =
     fold (\<lambda>r. put_by ins_id (r\<lparr>ins_status := ''PAID'', ins_paid_at := Some (Aware t)\<rparr>)) rows (db_installments db)"
  unfolding close_installments_def by (induction rows arbitrary: db) simp_all

lemma close_loan_rows:
  assumes "distinct (map ins_id (db_installments db))"
  shows "db_installments (close_installments t (loan_installments_of l db) db) =
    map (\<lambda>r. if ins_loan_id r = loan_id l then r\<lparr>ins_status := ''PAID'', ins_paid_at := Some (Aware t)\<rparr> else r)
      (db_installments db)"
proof -
  let ?P = "\<lambda>r. ins_loan_id r = loan_id l" and ?f = "\<lambda>r. r\<lparr>ins_status := ''PAID'', ins_paid_at := Some (Aware t)\<rparr>"
  have d: "distinct (map ins_id (filter ?P (db_installments db)))" using assms by (rule distinct_map_filter)
  have g: "get_by ins_id (ins_id x) (loan_installments_of l db) = (if ?P x then Some x else None)"
    if "x \<in> set (db_installments db)" for x
  proof (cases "get_by ins_id (ins_id x) (loan_installments_of l db)")
    case None
    with that show ?thesis by (auto simp: get_by_None_iff loan_installments_of_def)
  next
    case (Some y)
    then have "y \<in> set (db_installments db) \<and> ?P y \<and> ins_id y = ins_id x"
      by (auto simp: loan_installments_of_def dest!: get_by_Some_mem)
    with Some distinct_map_unique [OF assms] that show ?thesis by auto
  qed
  have "distinct (map ins_id (loan_installments_of l db))" using d by (simp add: loan_installments_of_def)
  from fold_put_by [of ins_id ?f, OF _ this] show ?thesis
    unfolding close_installments_rows using g by (auto intro!: map_cong)
qed

text \<open>A debit of the own balance on the locked account: the entry and the position.\<close>

definition position_moves :: "cents \<Rightarrow> position \<Rightarrow> position \<Rightarrow> bool" where
  "position_moves amount p p' \<longleftrightarrow> ps_own_balance p' = ps_own_balance p - amount
     \<and> ps_committed_balance p' = max 0 (ps_committed_balance p - amount)
     \<and> ps_available_balance p' = max 0 (ps_own_balance p' - ps_committed_balance p')"

definition entries_nonneg :: "'a books_scheme \<Rightarrow> bool" where
  "entries_nonneg db \<longleftrightarrow> list_all (\<lambda>e. 0 \<le> ent_amount e) (db_entries db)"

lemma committed_position_nonneg:
  "entries_nonneg db \<Longrightarrow> 0 \<le> ps_committed_balance (get_member_financial_position m db)"
proof (cases "find (\<lambda>a. acc_member_id a = mem_id m) (db_accounts db)")
  case (Some a)
  let ?xs = "sort_key ent_id (filter (\<lambda>e. ent_account_id e = acc_id a) (db_entries db))"
  assume "entries_nonneg db"
  then have "0 \<le> snd (balances_of ?xs)"
    by (intro committed_nonneg) (auto simp: entries_nonneg_def list_all_iff)
  with Some show ?thesis
    by (cases "balances_of ?xs") (simp add: get_member_financial_position_def calculate_member_financial_position_def)
qed (simp add: get_member_financial_position_def)

lemma own_debit_posted:
  assumes lock: "lock_member_financial_account i db0 = Inr (m, a, db)"
    and add: "add_member_financial_entry now m (own_debit kind l amount a) db = Inr (e, db')"
    and kind: "kind \<in> {''OWN_BALANCE_RENEGOTIATION'', ''OWN_BALANCE_SETTLEMENT''}"
    and nonneg: "entries_nonneg db"
    and fits: "amount \<le> ps_available_balance (get_member_financial_position m db)"
  shows "0 < amount \<and> ent_amount e = amount \<and> db' = db\<lparr>db_entries := db_entries db @ [e]\<rparr>
    \<and> own_entries kind l db' = own_entries kind l db @ [e]
    \<and> position_moves amount (get_member_financial_position m db) (get_member_financial_position m db')"
proof -
  have e: "db' = db\<lparr>db_entries := db_entries db @ [e]\<rparr>" "0 < amount" "ent_amount e = amount"
    "ent_direction e = ''DEBIT''" "ent_entry_type e = kind"
    using add_entry_Inr [OF add] by (auto simp: own_debit_def)
  have "ent_reference_type e = Some kind" "ent_reference_id e = Some (py_str (loan_id l))"
    using add by (auto simp: add_member_financial_entry_def own_debit_def Let_def split: if_splits)
  with e have o: "own_entries kind l db' = own_entries kind l db @ [e]" by (simp add: own_entries_def)
  have "rq_account (own_debit kind l amount a) = Some a" by (simp add: own_debit_def)
  from position_after_entry [OF lock add this] obtain own committed where
    p: "get_member_financial_position m db =
        \<lparr>ps_own_balance = own, ps_committed_balance = committed, ps_available_balance = max 0 (own - committed)\<rparr>"
      "get_member_financial_position m db' = (let (own', committed') = position_step e (own, committed) in
        \<lparr>ps_own_balance = own', ps_committed_balance = committed', ps_available_balance = max 0 (own' - committed')\<rparr>)"
    by blast
  have "position_step e (own, committed) = (max 0 (own - amount), max 0 (committed - amount))"
    using e(3-5) kind by (auto simp: position_step_def)
  moreover have "amount \<le> max 0 (own - committed)" using fits p(1) by simp
  moreover have "0 \<le> committed"
    using committed_position_nonneg [OF nonneg, of m] p(1) by simp
  ultimately have "position_moves amount (get_member_financial_position m db) (get_member_financial_position m db')"
    using p e(2) by (auto simp: position_moves_def)
  with e o show ?thesis by simp
qed

lemma own_settlement_amount_Inr:
  assumes "own_settlement_amount vf t m l db = Inr a"
  shows "0 < a \<and> a \<le> ps_available_balance (get_member_financial_position m db)
    \<and> loan_status l \<in> set OPEN_LOAN_STATUSES \<and> loan_installments_of l db \<noteq> []
    \<and> (\<exists>q. loan_payoff_quote vf db l (Stamp (Aware t)) = Inr q \<and> pq_principal_due q = a)"
  using assms unfolding own_settlement_amount_def Let_def
  by (elim res_elims) (auto split: if_splits)

definition settlement_time :: "instant \<Rightarrow> datetime option \<Rightarrow> instant res" where
  "settlement_time now financial_at = (case financial_at of None \<Rightarrow> Inr now
     | Some t \<Rightarrow> utc_strict t ''financial_at precisa ser timezone-aware.'')"

definition settled_loan :: "instant \<Rightarrow> cents \<Rightarrow> loan_row \<Rightarrow> loan_row" where
  "settled_loan t amount l = touch_loan (l\<lparr>loan_principal_settled_with_own_balance :=
       loan_principal_settled_with_own_balance l + amount, loan_status := ''PAID'', loan_paid_at := Some (Aware t)\<rparr>)"

lemma settle_locked:
  assumes "lock_member_financial_account (loan_member_id loan0) db0 = Inr (m, a, db)"
    and "get_by loan_id (loan_id loan0) (db_loans db) = Some l"
    and "settle_loan_with_own_balance vf now loan0 actor fin db0 = Inr (s, db')"
  shows "(\<exists>e es. own_entries ''OWN_BALANCE_SETTLEMENT'' l db = e # es
           \<and> s = \<lparr>os_amount = ent_amount e, os_idempotent = True\<rparr> \<and> db' = db)
    \<or> (own_entries ''OWN_BALANCE_SETTLEMENT'' l db = [] \<and> \<not> os_idempotent s
         \<and> (\<exists>t e db1. settlement_time now fin = Inr t \<and> own_settlement_amount vf t m l db = Inr (os_amount s)
         \<and> add_member_financial_entry now m (own_debit ''OWN_BALANCE_SETTLEMENT'' l (os_amount s) a) db = Inr (e, db1)
         \<and> db' = add_audit (Some actor) ''LOAN_SETTLEMENT_OWN_BALANCE'' ''LOAN'' (py_str (loan_id l))
             (put_loan (settled_loan t (os_amount s) l) (close_installments t (loan_installments_of l db) db1))))"
proof (cases "own_entries ''OWN_BALANCE_SETTLEMENT'' l db")
  case Nil
  with assms(3) show ?thesis
    unfolding settle_loan_with_own_balance_def settlement_time_def [symmetric] assms(1) settled_loan_def [symmetric]
    by (auto simp: res_bind_eq_Inr assms(2) Let_def lock_loan_def)
next
  case (Cons e es)
  with assms(3) show ?thesis
    unfolding settle_loan_with_own_balance_def settlement_time_def [symmetric] assms(1)
    by (auto simp: res_bind_eq_Inr assms(2) lock_loan_def)
qed

text \<open>C26. Settling a loan with the member's own balance moves exactly the principal that the loan's payoff quote at that
  time has due, which the
  available balance covers: own and committed balance fall by it, the loan becomes PAID with the principal
  recorded, every installment of it is PAID and no other is touched. It happens once: settling again, at any
  time and by anyone, returns the same amount and changes nothing.\<close>

theorem own_settlement_effect:
  assumes lock: "lock_member_financial_account (loan_member_id loan0) db0 = Inr (m, a, db)"
    and l: "get_by loan_id (loan_id loan0) (db_loans db) = Some l"
    and run: "settle_loan_with_own_balance vf now loan0 actor fin db0 = Inr (s, db')" and first: "\<not> os_idempotent s"
    and ok: "entries_nonneg db" "distinct (map ins_id (db_installments db))"
  shows "0 < os_amount s \<and> os_amount s \<le> ps_available_balance (get_member_financial_position m db)
    \<and> position_moves (os_amount s) (get_member_financial_position m db) (get_member_financial_position m db')
    \<and> (\<exists>t q. settlement_time now fin = Inr t
         \<and> loan_payoff_quote vf db l (Stamp (Aware t)) = Inr q \<and> os_amount s = pq_principal_due q
         \<and> get_by loan_id (loan_id loan0) (db_loans db') = Some (settled_loan t (os_amount s) l)
         \<and> db_installments db' = map (\<lambda>r. if ins_loan_id r = loan_id l
             then r\<lparr>ins_status := ''PAID'', ins_paid_at := Some (Aware t)\<rparr> else r) (db_installments db))
    \<and> settle_loan_with_own_balance vf later loan0 actor' None db' = Inr (\<lparr>os_amount = os_amount s, os_idempotent = True\<rparr>, db')"
proof -
  from settle_locked [OF lock l run] first obtain t e db1 where
    time: "settlement_time now fin = Inr t" and
    none: "own_entries ''OWN_BALANCE_SETTLEMENT'' l db = []" and
    amount: "own_settlement_amount vf t m l db = Inr (os_amount s)" and
    add: "add_member_financial_entry now m (own_debit ''OWN_BALANCE_SETTLEMENT'' l (os_amount s) a) db = Inr (e, db1)" and
    db': "db' = add_audit (Some actor) ''LOAN_SETTLEMENT_OWN_BALANCE'' ''LOAN'' (py_str (loan_id l))
             (put_loan (settled_loan t (os_amount s) l) (close_installments t (loan_installments_of l db) db1))"
    by auto
  have fits: "0 < os_amount s" "os_amount s \<le> ps_available_balance (get_member_financial_position m db)"
    using own_settlement_amount_Inr [OF amount] by auto
  from own_settlement_amount_Inr [OF amount] obtain q where
    quote: "loan_payoff_quote vf db l (Stamp (Aware t)) = Inr q" "os_amount s = pq_principal_due q" by auto
  from own_debit_posted [OF lock add _ ok(1) fits(2)] none have
    posted: "ent_amount e = os_amount s" "db1 = db\<lparr>db_entries := db_entries db @ [e]\<rparr>"
      "own_entries ''OWN_BALANCE_SETTLEMENT'' l db1 = [e]"
      "position_moves (os_amount s) (get_member_financial_position m db) (get_member_financial_position m db1)" by auto
  have li: "loan_id l = loan_id loan0" using l by (auto dest: get_by_Some_mem)
  have sid: "loan_id (settled_loan t x l) = loan_id l" for x by (simp add: settled_loan_def touch_loan_def)
  have tabs: "db_accounts db' = db_accounts db" "db_members db' = db_members db" "db_entries db' = db_entries db1"
    by (simp_all add: db' posted(2))
  have pos: "get_member_financial_position m db' = get_member_financial_position m db1"
    using arg_cong [OF posted(2), of db_accounts] unfolding get_member_financial_position_def tabs(1,3) by simp
  have loan: "get_by loan_id (loan_id loan0) (db_loans db') = Some (settled_loan t (os_amount s) l)"
    using get_by_put_same [of loan_id "settled_loan t (os_amount s) l" "db_loans db"] l
    by (simp add: db' posted(2) sid li)
  have rows: "db_installments db' = map (\<lambda>r. if ins_loan_id r = loan_id l
             then r\<lparr>ins_status := ''PAID'', ins_paid_at := Some (Aware t)\<rparr> else r) (db_installments db)"
    using close_loan_rows [of db1 t l] ok(2) by (simp add: db' posted(2) loan_installments_of_def)
  have "own_entries ''OWN_BALANCE_SETTLEMENT'' (settled_loan t (os_amount s) l) db' = [e]"
    using posted(3) by (simp add: own_entries_def tabs sid)
  with lock_account_again [OF lock tabs(2,1)] loan posted(1) have
    "settle_loan_with_own_balance vf later loan0 actor' None db' = Inr (\<lparr>os_amount = os_amount s, os_idempotent = True\<rparr>, db')"
    by (simp add: settle_loan_with_own_balance_def lock_loan_def)
  with fits posted(4) loan rows time quote show ?thesis unfolding pos by blast
qed

definition renegotiated_loan :: "cents \<Rightarrow> loan_row \<Rightarrow> loan_row" where
  "renegotiated_loan amount l = touch_loan (l\<lparr>loan_principal_settled_with_own_balance :=
       loan_principal_settled_with_own_balance l + amount\<rparr>)"

lemma renegotiated_loan_simps [simp]:
  "loan_id (renegotiated_loan x l) = loan_id l" "loan_status (renegotiated_loan x l) = loan_status l"
  "loan_principal (renegotiated_loan x l) = loan_principal l"
  "loan_principal_settled_with_own_balance (renegotiated_loan x l) = loan_principal_settled_with_own_balance l + x"
  "loan_state_revision (renegotiated_loan x l) = loan_state_revision l + 1"
  by (simp_all add: renegotiated_loan_def touch_loan_def)

lemma renegotiate_locked:
  assumes "lock_member_financial_account (loan_member_id loan0) db0 = Inr (m, a, db)"
    and "get_by loan_id (loan_id loan0) (db_loans db) = Some l"
    and "renegotiate_loan_with_own_balance now loan0 amount actor db0 = Inr (s, db')" and "\<not> rn_idempotent s"
  shows "own_entries ''OWN_BALANCE_RENEGOTIATION'' l db = [] \<and> rn_amount_applied s = cents_even amount
    \<and> cents_even amount \<le> loan_principal l - loan_principal_settled_with_own_balance l
    \<and> cents_even amount \<le> ps_available_balance (get_member_financial_position m db)
    \<and> loan_status l \<in> set OPEN_LOAN_STATUSES
    \<and> rn_remaining_principal s = loan_principal l - loan_principal_settled_with_own_balance l - cents_even amount
    \<and> (\<exists>e db1. add_member_financial_entry now m (own_debit ''OWN_BALANCE_RENEGOTIATION'' l (cents_even amount) a) db = Inr (e, db1)
         \<and> db' = add_audit (Some actor) ''LOAN_RENEGOTIATION_OWN_BALANCE'' ''LOAN'' (py_str (loan_id l))
             (put_loan (renegotiated_loan (cents_even amount) l) db1))"
proof (cases "own_entries ''OWN_BALANCE_RENEGOTIATION'' l db")
  case Nil
  with assms(3) show ?thesis
    unfolding renegotiate_loan_with_own_balance_def assms(1) renegotiated_loan_def [symmetric] Let_def
    by (auto simp: res_bind_eq_Inr assms(2) lock_loan_def split: if_splits)
next
  case (Cons e es)
  with assms(3,4) show ?thesis
    unfolding renegotiate_loan_with_own_balance_def assms(1) Let_def
    by (auto simp: assms(2) lock_loan_def split: if_splits)
qed

text \<open>A partial renegotiation applies the requested cents, at most the open principal and the
  available balance: they leave the member's position, the settled principal grows by them and never
  exceeds the principal, the loan gets one new revision. There is one renegotiation per loan: a later
  request of any positive amount returns the first amount and changes nothing.\<close>

theorem renegotiation_effect:
  assumes lock: "lock_member_financial_account (loan_member_id loan0) db0 = Inr (m, a, db)"
    and l: "get_by loan_id (loan_id loan0) (db_loans db) = Some l"
    and run: "renegotiate_loan_with_own_balance now loan0 amount actor db0 = Inr (s, db')" and first: "\<not> rn_idempotent s"
    and ok: "entries_nonneg db" and more: "0 < cents_even amount2"
  shows "rn_amount_applied s = cents_even amount \<and> 0 < cents_even amount
    \<and> position_moves (cents_even amount) (get_member_financial_position m db) (get_member_financial_position m db')
    \<and> get_by loan_id (loan_id loan0) (db_loans db') = Some (renegotiated_loan (cents_even amount) l)
    \<and> 0 \<le> rn_remaining_principal s
    \<and> rn_remaining_principal s = loan_principal l - loan_principal_settled_with_own_balance (renegotiated_loan (cents_even amount) l)
    \<and> db_installments db' = db_installments db
    \<and> renegotiate_loan_with_own_balance later loan0 amount2 actor' db' = Inr (s\<lparr>rn_idempotent := True\<rparr>, db')"
proof -
  let ?a = "cents_even amount"
  note r = renegotiate_locked [OF lock l run first]
  then obtain e db1 where
    add: "add_member_financial_entry now m (own_debit ''OWN_BALANCE_RENEGOTIATION'' l ?a a) db = Inr (e, db1)" and
    db': "db' = add_audit (Some actor) ''LOAN_RENEGOTIATION_OWN_BALANCE'' ''LOAN'' (py_str (loan_id l))
             (put_loan (renegotiated_loan ?a l) db1)" by blast
  from own_debit_posted [OF lock add _ ok] r have
    posted: "0 < ?a" "ent_amount e = ?a" "db1 = db\<lparr>db_entries := db_entries db @ [e]\<rparr>"
      "own_entries ''OWN_BALANCE_RENEGOTIATION'' l db1 = [e]"
      "position_moves ?a (get_member_financial_position m db) (get_member_financial_position m db1)" by auto
  have li: "loan_id l = loan_id loan0" using l by (auto dest: get_by_Some_mem)
  have tabs: "db_accounts db' = db_accounts db" "db_members db' = db_members db" "db_entries db' = db_entries db1"
    by (simp_all add: db' posted(3))
  have pos: "get_member_financial_position m db' = get_member_financial_position m db1"
    using arg_cong [OF posted(3), of db_accounts] unfolding get_member_financial_position_def tabs(1,3) by simp
  have loan: "get_by loan_id (loan_id loan0) (db_loans db') = Some (renegotiated_loan ?a l)"
    using get_by_put_same [of loan_id "renegotiated_loan ?a l" "db_loans db"] l by (simp add: db' posted(3) li)
  have inst: "db_installments db' = db_installments db" by (simp add: db' posted(3))
  have one: "own_entries ''OWN_BALANCE_RENEGOTIATION'' (renegotiated_loan ?a l) db' = [e]"
    using posted(4) by (simp add: own_entries_def tabs)
  have rem: "rn_remaining_principal s = loan_principal l - loan_principal_settled_with_own_balance l - ?a"
    "rn_amount_applied s = ?a" "?a \<le> loan_principal l - loan_principal_settled_with_own_balance l"
    "loan_status l \<in> set OPEN_LOAN_STATUSES" using r by auto
  have "s\<lparr>rn_idempotent := True\<rparr> = \<lparr>rn_amount_applied = ?a,
      rn_remaining_principal = max 0 (loan_principal l - (loan_principal_settled_with_own_balance l + ?a)), rn_idempotent = True\<rparr>"
    using rem by (cases s) simp
  with one rem lock_account_again [OF lock tabs(2,1)] loan posted(2) more have
    "renegotiate_loan_with_own_balance later loan0 amount2 actor' db' = Inr (s\<lparr>rn_idempotent := True\<rparr>, db')"
    by (simp add: renegotiate_loan_with_own_balance_def lock_loan_def)
  with rem posted(1,5) loan inst show ?thesis unfolding pos by simp
qed

section \<open>Confirmed payments\<close>

lemma post_once_fresh:
  assumes "post_once hash now amount rt ref db = Inr db'" and "\<not> has_ledger rt ref db" and "0 \<le> amount"
    and "chain_errors hash (db_ledger db) = []"
  shows "\<exists>es. db' = db\<lparr>db_ledger := db_ledger db @ es\<rparr> \<and> chain_errors hash (db_ledger db') = []
    \<and> (\<Sum>e\<leftarrow>es. led_amount e) = amount
    \<and> list_all (\<lambda>e. led_direction e = ''CREDIT'' \<and> led_account e = ''CAIXINHA'' \<and> led_reference_type e = rt
        \<and> led_reference_id e = ref) es"
proof (cases "0 < amount")
  case False
  with assms(1,3,4) show ?thesis by (intro exI [of _ "[]"]) (simp add: post_once_def)
next
  case True
  with assms(1,2) obtain e ledger where p: "post_entry hash now ''CAIXINHA'' ''CREDIT'' (dec amount) rt ref None
      (db_ledger db) = Inr (e, ledger)" and db': "db' = db\<lparr>db_ledger := ledger\<rparr>"
    by (auto simp: post_once_def post_credit_def res_bind_eq_Inr)
  from posts_chain [OF posts_intros(1) [OF p] assms(4)] post_entry_Inr [OF p] show ?thesis
    by (intro exI [of _ "[e]"]) (simp add: db')
qed

lemma credit_principal_Inr:
  assumes "credit_principal now m a amount ref db = Inr db'" and "0 \<le> amount"
  shows "\<exists>es. db' = db\<lparr>db_entries := db_entries db @ es\<rparr> \<and> (\<Sum>e\<leftarrow>es. ent_amount e) = amount
    \<and> list_all (\<lambda>e. ent_entry_type e = ''LOAN_PRINCIPAL_PAYMENT'' \<and> ent_direction e = ''CREDIT''
        \<and> ent_account_id e = acc_id a) es"
proof (cases "0 < amount")
  case False
  with assms show ?thesis by (intro exI [of _ "[]"]) (simp add: credit_principal_def)
next
  case True
  with assms(1) obtain e where
    "add_member_financial_entry now m (principal_entry amount ref a) db = Inr (e, db')"
    by (auto simp: credit_principal_def res_bind_eq_Inr)
  from add_entry_Inr [OF this] show ?thesis
    by (intro exI [of _ "[e]"]) (simp add: principal_entry_def)
qed

lemma interest_part_bounds:
  "0 \<le> base \<Longrightarrow> 0 \<le> interest_part inst before base \<and> interest_part inst before base \<le> base"
  by (auto simp: interest_part_def)

text \<open>What a payment of which something was applied leaves in the books.\<close>

definition payment_books ::
    "(json \<Rightarrow> string) \<Rightarrow> string \<Rightarrow> cents \<Rightarrow> cents \<Rightarrow> cents \<Rightarrow> 'a books_scheme \<Rightarrow> 'a books_scheme \<Rightarrow> bool" where
  "payment_books hash ref penalty interest prin db db' \<longleftrightarrow> (\<exists>ps ns es.
     db_ledger db' = db_ledger db @ ps @ ns \<and> db_entries db' = db_entries db @ es
   \<and> chain_errors hash (db_ledger db') = []
   \<and> (\<Sum>e\<leftarrow>ps. led_amount e) = penalty \<and> (\<Sum>e\<leftarrow>ns. led_amount e) = interest \<and> (\<Sum>e\<leftarrow>es. ent_amount e) = prin
   \<and> list_all (\<lambda>e. led_direction e = ''CREDIT'' \<and> led_account e = ''CAIXINHA'' \<and> led_reference_id e = ref) (ps @ ns)
   \<and> list_all (\<lambda>e. ent_entry_type e = ''LOAN_PRINCIPAL_PAYMENT'' \<and> ent_direction e = ''CREDIT'') es)"

lemma post_parts:
  assumes "post_once hash now penalty ''LOAN_PENALTY_PAYMENT'' ref db1 = Inr db2"
    and "post_once hash now interest ''LOAN_INTEREST_PAYMENT'' ref db2 = Inr db3"
    and "credit_principal now m a prin ref db3 = Inr db4"
    and "0 \<le> penalty" "0 \<le> interest" "0 \<le> prin" and "chain_errors hash (db_ledger db1) = []"
    and "\<not> has_ledger ''LOAN_PENALTY_PAYMENT'' ref db1" "\<not> has_ledger ''LOAN_INTEREST_PAYMENT'' ref db1"
  shows "payment_books hash ref penalty interest prin db1 db4
    \<and> db4 = db1\<lparr>db_ledger := db_ledger db4, db_entries := db_entries db4\<rparr>"
proof -
  from post_once_fresh [OF assms(1,8,4,7)] obtain ps where ps: "db2 = db1\<lparr>db_ledger := db_ledger db1 @ ps\<rparr>"
    "chain_errors hash (db_ledger db2) = []" "(\<Sum>e\<leftarrow>ps. led_amount e) = penalty"
    "list_all (\<lambda>e. led_direction e = ''CREDIT'' \<and> led_account e = ''CAIXINHA''
      \<and> led_reference_type e = ''LOAN_PENALTY_PAYMENT'' \<and> led_reference_id e = ref) ps" by blast
  then have "\<not> has_ledger ''LOAN_INTEREST_PAYMENT'' ref db2"
    using assms(9) by (auto simp: has_ledger_def list_all_iff list_ex_iff)
  from post_once_fresh [OF assms(2) this assms(5) ps(2)] obtain ns where ns: "db3 = db2\<lparr>db_ledger := db_ledger db2 @ ns\<rparr>"
    "chain_errors hash (db_ledger db3) = []" "(\<Sum>e\<leftarrow>ns. led_amount e) = interest"
    "list_all (\<lambda>e. led_direction e = ''CREDIT'' \<and> led_account e = ''CAIXINHA''
      \<and> led_reference_type e = ''LOAN_INTEREST_PAYMENT'' \<and> led_reference_id e = ref) ns" by blast
  from credit_principal_Inr [OF assms(3,6)] obtain es where es: "db4 = db3\<lparr>db_entries := db_entries db3 @ es\<rparr>"
    "(\<Sum>e\<leftarrow>es. ent_amount e) = prin"
    "list_all (\<lambda>e. ent_entry_type e = ''LOAN_PRINCIPAL_PAYMENT'' \<and> ent_direction e = ''CREDIT'' \<and> ent_account_id e = acc_id a) es"
    by blast
  have db4: "db4 = db1\<lparr>db_ledger := db_ledger db1 @ ps @ ns, db_entries := db_entries db1 @ es\<rparr>"
    by (simp add: es(1) ns(1) ps(1))
  have "chain_errors hash (db_ledger db1 @ ps @ ns) = []" using ns(1,2) ps(1) by simp
  with db4 have "payment_books hash ref penalty interest prin db1 db4"
    unfolding payment_books_def
    by (rule_tac x = ps in exI, rule_tac x = ns in exI, rule_tac x = es in exI)
      (use ps(3,4) ns(3,4) es(2,3) in \<open>auto simp: list_all_iff\<close>)
  with db4 show ?thesis by simp
qed

text \<open>The ledger knows the payment under neither of its two reference types.\<close>

definition unposted :: "payment_row \<Rightarrow> 'a books_scheme \<Rightarrow> bool" where
  "unposted payment db \<longleftrightarrow> pay_ledger_posted_at payment = None
     \<and> \<not> has_ledger ''LOAN_PENALTY_PAYMENT'' (py_str (pay_id payment)) db
     \<and> \<not> has_ledger ''LOAN_INTEREST_PAYMENT'' (py_str (pay_id payment)) db"

lemma apply_with_locks_run:
  assumes run: "apply_with_locks hash now payment inst amount l m a db = Inr (ok, p', i, l', db')"
    and un: "unposted payment db" and chain: "chain_errors hash (db_ledger db) = []" and pos: "0 \<le> amount"
    and r: "apply_payment now inst (dec amount) = (r, inst')"
  shows "p' = payment\<lparr>pay_ledger_posted_at := Some (Aware now)\<rparr> \<and> i = inst' \<and> (ok \<longleftrightarrow> 0 < ap_applied r)
    \<and> (\<exists>interest prin. interest + prin = ap_base_applied r \<and> 0 \<le> interest \<and> 0 \<le> prin
         \<and> interest = min (ap_base_applied r) (max 0 (ins_interest inst - min (ins_interest inst) (ins_paid_amount inst)))
         \<and> payment_books hash (py_str (pay_id payment)) (ap_penalty_applied r) interest prin db db')
    \<and> db_payments db' = put_by pay_id p' (db_payments db)
    \<and> db_installments db' = put_by ins_id inst' (db_installments db)"
proof -
  have c: "0 \<le> cents (dec amount)" using pos by simp
  obtain pen base where parts: "paid_parts inst (cents (dec amount)) = (pen, base)" by fastforce
  note ap = apply_payment_run [OF r parts c]
  note b = paid_parts_bounds [OF c parts]
  let ?db1 = "put_installment inst' db" and ?ref = "py_str (pay_id payment)"
  define interest where "interest = interest_part inst (ins_paid_amount inst) (ap_base_applied r)"
  define prin where "prin = max 0 (ap_base_applied r - interest)"
  have split: "0 \<le> interest" "interest \<le> ap_base_applied r" "0 \<le> prin" "interest + prin = ap_base_applied r"
    using b interest_part_bounds [of "ap_base_applied r" inst] by (auto simp: interest_def prin_def ap)
  show ?thesis
  proof (cases "ap_applied r \<le> 0")
    case True
    then have z: "pen = 0" "base = 0" using b ap(1) by auto
    with True run un r show ?thesis
      by (auto simp: apply_with_locks_def unposted_def ap payment_books_def chain Let_def intro!: exI [of _ 0] exI [of _ "[]"])
  next
    case False
    with run un r obtain db2 db3 db4 where
      "post_once hash now (ap_penalty_applied r) ''LOAN_PENALTY_PAYMENT'' ?ref ?db1 = Inr db2"
      "post_once hash now interest ''LOAN_INTEREST_PAYMENT'' ?ref db2 = Inr db3"
      "credit_principal now m a prin ?ref db3 = Inr db4"
      and fin: "ok" "p' = payment\<lparr>pay_ledger_posted_at := Some (Aware now)\<rparr>" "i = inst'" "db' = put_loan l' (put_payment p' db4)"
      by (auto simp: apply_with_locks_def unposted_def Let_def res_bind_eq_Inr interest_def prin_def)
    with post_parts [of hash now "ap_penalty_applied r" ?ref ?db1 db2 interest db3 m a prin db4] split b un chain have
      books: "payment_books hash (py_str (pay_id payment)) (ap_penalty_applied r) interest prin ?db1 db4"
        "db4 = ?db1\<lparr>db_ledger := db_ledger db4, db_entries := db_entries db4\<rparr>"
      by (simp_all add: unposted_def has_ledger_def ap)
    have "payment_books hash (py_str (pay_id payment)) (ap_penalty_applied r) interest prin db db'"
      using books(1) by (simp add: payment_books_def fin(4))
    moreover have "db_payments db4 = db_payments db" "db_installments db4 = put_by ins_id inst' (db_installments db)"
      by (subst books(2), simp)+
    ultimately show ?thesis using False fin split interest_def by (auto simp: interest_part_def)
  qed
qed

text \<open>C16. A confirmed payment is posted completely and once. What it applies to the installment is
  split into penalty, interest still open (first) and principal; the first two are credited to the pool in
  new ledger entries that extend a verified chain, the third to the member, and the three add up to
  what was applied, which with the excess is the payment. The payment is marked, and applying it again
  returns False and changes nothing.\<close>

theorem confirmed_payment_posted_once:
  assumes run: "apply_confirmed_payment hash now payment inst amount db = Inr (ok, db')"
    and un: "unposted payment db" and chain: "fst (verify_ledger_chain hash (db_ledger db)) = ''PASS''"
    and a: "a = (case amount of None \<Rightarrow> pay_amount payment | Some x \<Rightarrow> x)" "0 \<le> a"
    and stored: "get_by pay_id (pay_id payment) (db_payments db) \<noteq> None"
  shows "\<exists>locked r inst' interest prin. filter (\<lambda>x. ins_id x = ins_id inst) (db_installments db) = [locked]
    \<and> apply_payment now locked (dec a) = (r, inst') \<and> (ok \<longleftrightarrow> 0 < ap_applied r)
    \<and> interest = min (ap_base_applied r) (max 0 (ins_interest locked - min (ins_interest locked) (ins_paid_amount locked)))
    \<and> ap_penalty_applied r + interest + prin + ap_excess r = a \<and> 0 \<le> prin
    \<and> payment_books hash (py_str (pay_id payment)) (ap_penalty_applied r) interest prin db db'
    \<and> fst (verify_ledger_chain hash (db_ledger db')) = ''PASS''
    \<and> db_installments db' = put_by ins_id inst' (db_installments db)
    \<and> (\<exists>p. get_by pay_id (pay_id payment) (db_payments db') = Some p
         \<and> apply_confirmed_payment hash later p inst amount' db' = Inr (False, db'))"
proof -
  have chain': "chain_errors hash (db_ledger db) = []"
    using chain by (simp add: verify_ledger_chain_def Let_def split: if_splits)
  from run un obtain l0 where l0: "get_by loan_id (ins_loan_id inst) (db_loans db) = Some l0"
    by (auto simp: apply_confirmed_payment_def unposted_def split: option.splits)
  with run un obtain m acc db1 where lock: "lock_member_financial_account (loan_member_id l0) db = Inr (m, acc, db1)"
    by (auto simp: apply_confirmed_payment_def unposted_def res_bind_eq_Inr)
  from lock_accounts_only [OF lock] obtain accs where db1: "db1 = db\<lparr>db_accounts := accs\<rparr>" .
  from run un l0 lock obtain locked where one: "one_row (filter (\<lambda>x. ins_id x = ins_id inst) (db_installments db)) = Inr locked"
    by (auto simp: apply_confirmed_payment_def unposted_def res_bind_eq_Inr db1)
  then have locked: "filter (\<lambda>x. ins_id x = ins_id inst) (db_installments db) = [locked]"
    by (auto simp: one_row_def split: list.splits)
  with run un l0 lock a(1) obtain l p' i l' where
    run': "apply_with_locks hash now payment locked a l m acc db1 = Inr (ok, p', i, l', db')"
    by (auto simp: apply_confirmed_payment_def unposted_def res_bind_eq_Inr db1 one_row_def)
  obtain r inst' where r: "apply_payment now locked (dec a) = (r, inst')" by fastforce
  have un': "unposted payment db1" using un by (simp add: unposted_def has_ledger_def db1)
  have chain1: "chain_errors hash (db_ledger db1) = []" using chain' by (simp add: db1)
  from apply_with_locks_run [OF run' un' chain1 a(2) r] obtain interest prin where
    p: "p' = payment\<lparr>pay_ledger_posted_at := Some (Aware now)\<rparr>" "ok \<longleftrightarrow> 0 < ap_applied r" and
    sum: "interest + prin = ap_base_applied r" "0 \<le> prin"
      "interest = min (ap_base_applied r) (max 0 (ins_interest locked - min (ins_interest locked) (ins_paid_amount locked)))" and
    books: "payment_books hash (py_str (pay_id payment)) (ap_penalty_applied r) interest prin db1 db'" and
    tabs: "db_payments db' = put_by pay_id p' (db_payments db1)" "db_installments db' = put_by ins_id inst' (db_installments db1)"
    by blast
  obtain pen base where parts: "paid_parts locked (cents (dec a)) = (pen, base)" by fastforce
  note ap = apply_payment_run [OF r parts]
  have total: "ap_penalty_applied r + interest + prin + ap_excess r = a" using sum(1) ap(1-4) a(2) by simp
  have "get_by pay_id (pay_id payment) (db_payments db') = Some p'"
    using get_by_put_same [of pay_id p' "db_payments db"] stored by (simp add: tabs(1) db1 p(1))
  moreover have "apply_confirmed_payment hash later p' inst amount' db' = Inr (False, db')"
    by (simp add: apply_confirmed_payment_def p(1))
  moreover have "payment_books hash (py_str (pay_id payment)) (ap_penalty_applied r) interest prin db db'"
    using books by (simp add: payment_books_def db1)
  moreover from this have "fst (verify_ledger_chain hash (db_ledger db')) = ''PASS''"
    by (auto simp: payment_books_def verify_ledger_chain_def)
  ultimately show ?thesis using locked r p(2) sum(2,3) total tabs(2)
    by (intro exI [of _ locked] exI [of _ r] exI [of _ inst'] exI [of _ interest] exI [of _ prin]) (simp add: db1)
qed

section \<open>Witnesses\<close>

definition paying_loan :: loan_row where
  "paying_loan = approved_loan\<lparr>loan_status := ''ACTIVE''\<rparr>"

definition pool_member :: member_row where
  "pool_member = \<lparr>mem_id = 4, mem_user_id = 9, mem_group_id = 1, mem_status = ''ACTIVE''\<rparr>"

definition pool_account :: account_row where
  "pool_account = \<lparr>acc_id = 1, acc_member_id = 4\<rparr>"

text \<open>A member with 600.00 of own balance, an active loan of 500.00 and one open installment.\<close>

definition paying_db :: loan_tables where
  "paying_db = \<lparr>db_ledger = [], db_accounts = [pool_account],
     db_entries = [(entry_of ''CONTRIBUTION'' ''CREDIT'' 60000)\<lparr>ent_id := 1, ent_account_id := 1\<rparr>],
     db_members = [pool_member], db_audit = [], db_notifications = [], db_loans = [paying_loan],
     db_installments = [due_installment\<lparr>ins_penalty_amount := 0\<rparr>],
     db_late_events = [], db_settlements = [], db_reversals = [], db_payments = [demo_payment]\<rparr>"

lemma paying_lock: "lock_member_financial_account 4 paying_db = Inr (pool_member, pool_account, paying_db)"
  by (simp add: lock_member_financial_account_def paying_db_def pool_member_def pool_account_def)

lemma paying_facts:
  "loan_member_id paying_loan = 4" "loan_id paying_loan = 1" "loan_status paying_loan = ''ACTIVE''"
  "loan_principal paying_loan = 50000" "loan_principal_settled_with_own_balance paying_loan = 0"
  "get_by loan_id 1 (db_loans paying_db) = Some paying_loan" "own_entries kind paying_loan paying_db = []"
  "entries_nonneg paying_db" "distinct (map ins_id (db_installments paying_db))"
  "ps_available_balance (get_member_financial_position pool_member paying_db) = 60000"
  "loan_calculation_version paying_loan = None"
  by (simp_all add: paying_db_def paying_loan_def approved_loan_def own_entries_def entries_nonneg_def entry_of_def
      get_member_financial_position_def pool_account_def pool_member_def calculate_member_financial_position_def
      balances_of_def position_step_def)

lemma paying_installments:
  "loan_installments_of paying_loan paying_db = [due_installment\<lparr>ins_penalty_amount := 0\<rparr>]"
  by (simp add: loan_installments_of_def paying_db_def paying_facts due_installment_def)

lemma paying_tables: "own_balance_entries paying_loan paying_db = []" "settlements_of_loan ids paying_db = []"
  "db_late_events paying_db = []"
  by (simp_all add: own_balance_entries_def settlements_of_loan_def paying_db_def entry_of_def)

lemma paying_quote: "\<exists>q. loan_payoff_quote demo_verifier paying_db paying_loan (Stamp (Aware 0)) = Inr q \<and> pq_principal_due q = 50000"
proof -
  have "late_interest_materialized paying_db i d = Inr 0" for i d
    by (simp add: late_interest_materialized_def events_of_def paying_tables)
  then obtain acc where "payoff_step paying_db d [] (due_installment\<lparr>ins_penalty_amount := 0\<rparr>)
      \<lparr>py_normal = 0, py_fixed = 0, py_late = 0\<rparr> = Inr (acc d)" for d
    by (simp add: payoff_step_def Let_def)
  then show ?thesis
    by (simp add: loan_payoff_quote_def paying_installments paying_tables paying_facts)
qed

theorem own_settlement_effect_witness:
  "\<exists>s db' t q. settle_loan_with_own_balance demo_verifier 0 paying_loan 2 None paying_db = Inr (s, db')
     \<and> loan_payoff_quote demo_verifier paying_db paying_loan (Stamp (Aware t)) = Inr q \<and> os_amount s = pq_principal_due q
     \<and> position_moves (os_amount s) (get_member_financial_position pool_member paying_db) (get_member_financial_position pool_member db')
     \<and> settle_loan_with_own_balance demo_verifier 5 paying_loan 3 None db' = Inr (\<lparr>os_amount = os_amount s, os_idempotent = True\<rparr>, db')"
proof -
  have "own_settlement_amount demo_verifier 0 pool_member paying_loan paying_db = Inr 50000"
    using paying_quote by (auto simp: own_settlement_amount_def paying_installments paying_facts OPEN_LOAN_STATUSES_def
        penalty_open_def due_installment_def)
  then have "\<exists>s db'. settle_loan_with_own_balance demo_verifier 0 paying_loan 2 None paying_db = Inr (s, db') \<and> \<not> os_idempotent s"
    by (simp add: settle_loan_with_own_balance_def paying_lock paying_facts lock_loan_def
        add_member_financial_entry_def own_debit_def Let_def)
  then obtain s db' where s: "settle_loan_with_own_balance demo_verifier 0 paying_loan 2 None paying_db = Inr (s, db')"
    "\<not> os_idempotent s" by blast
  have "lock_member_financial_account (loan_member_id paying_loan) paying_db = Inr (pool_member, pool_account, paying_db)"
    "get_by loan_id (loan_id paying_loan) (db_loans paying_db) = Some paying_loan" by (simp_all add: paying_lock paying_facts)
  from own_settlement_effect [OF this s paying_facts(8,9)] s(1) show ?thesis by blast
qed

theorem renegotiation_effect_witness:
  "\<exists>s db'. renegotiate_loan_with_own_balance 0 paying_loan (dec 20000) 2 paying_db = Inr (s, db')
     \<and> rn_remaining_principal s = 30000
     \<and> renegotiate_loan_with_own_balance 5 paying_loan (dec 7) 3 db' = Inr (s\<lparr>rn_idempotent := True\<rparr>, db')"
proof -
  have "\<exists>s db'. renegotiate_loan_with_own_balance 0 paying_loan (dec 20000) 2 paying_db = Inr (s, db') \<and> \<not> rn_idempotent s"
    by (simp add: renegotiate_loan_with_own_balance_def paying_lock paying_facts lock_loan_def
        add_member_financial_entry_def own_debit_def OPEN_LOAN_STATUSES_def Let_def)
  then obtain s db' where s: "renegotiate_loan_with_own_balance 0 paying_loan (dec 20000) 2 paying_db = Inr (s, db')"
    "\<not> rn_idempotent s" by blast
  have "lock_member_financial_account (loan_member_id paying_loan) paying_db = Inr (pool_member, pool_account, paying_db)"
    "get_by loan_id (loan_id paying_loan) (db_loans paying_db) = Some paying_loan" by (simp_all add: paying_lock paying_facts)
  from renegotiation_effect [OF this s paying_facts(8), of "dec 7" 5 3] s(1) show ?thesis by (auto simp: paying_facts)
qed

theorem confirmed_payment_posted_once_witness:
  "\<exists>ok db' p. apply_confirmed_payment demo_hash 0 demo_payment due_installment (Some 60000) paying_db = Inr (ok, db')
     \<and> fst (verify_ledger_chain demo_hash (db_ledger db')) = ''PASS''
     \<and> apply_confirmed_payment demo_hash 5 p due_installment None db' = Inr (False, db')"
proof -
  have ap: "apply_payment 0 (due_installment\<lparr>ins_penalty_amount := 0\<rparr>) (dec 60000) =
     (\<lparr>ap_applied = 60000, ap_penalty_applied = 0, ap_base_applied = 60000, ap_excess = 0, ap_status = ''PAID''\<rparr>,
      due_installment\<lparr>ins_penalty_amount := 0, ins_paid_amount := 60000, ins_status := ''PAID'', ins_paid_at := Some (Aware 0)\<rparr>)"
    by (simp add: apply_payment_def due_installment_def penalty_open_def base_open_def installment_due_def Let_def)
  have member: "loan_member_id paying_loan = 4" "ins_loan_id due_installment = 1" "ins_id due_installment = 7"
    "ins_interest due_installment = 10000" "ins_paid_amount due_installment = 0"
    by (simp_all add: paying_facts due_installment_def)
  have rows: "db_installments paying_db = [due_installment\<lparr>ins_penalty_amount := 0\<rparr>]" "db_ledger paying_db = []"
    by (simp_all add: paying_db_def)
  have "pay_ledger_posted_at demo_payment = None" by (simp add: demo_payment_def)
  then have "\<exists>db'. apply_confirmed_payment demo_hash 0 demo_payment due_installment (Some 60000) paying_db = Inr (True, db')"
    by (simp add: apply_confirmed_payment_def paying_facts paying_lock lock_loan_def one_row_def rows member
        apply_with_locks_def ap Let_def post_once_def has_ledger_def interest_part_def post_credit_def post_entry_def
        check_posting_def flush_entry_def latest_entry_def last_opt_def credit_principal_def principal_entry_def
        add_member_financial_entry_def)
  then obtain ok db' where p: "apply_confirmed_payment demo_hash 0 demo_payment due_installment (Some 60000) paying_db
      = Inr (ok, db')" by blast
  have "unposted demo_payment paying_db" "fst (verify_ledger_chain demo_hash (db_ledger paying_db)) = ''PASS''"
    "get_by pay_id (pay_id demo_payment) (db_payments paying_db) \<noteq> None"
    by (simp_all add: unposted_def has_ledger_def paying_db_def demo_payment_def verify_ledger_chain_def chain_errors_def)
  from confirmed_payment_posted_once [OF p this(1,2) _ _ this(3), of 60000 5 None] p show ?thesis by auto
qed

end
