(* ===== verification/Agreements.thy ===== *)
theory Agreements
  imports Loan_Engine
begin

text \<open>
  Collection agreements, \<open>services/agreements_v039.py\<close>: requesting an agreement over what a loan
  still owes, deciding it once by a compare-and-set on its revision, and replacing the debt by the
  agreement's own installments. \<open>now\<close> is \<open>datetime.now\<close> and \<open>today\<close> is \<open>date.today\<close>. The table's unique
  key on loan and status is part of the claim.
\<close>

section \<open>Rows\<close>

definition lock_collection_agreement :: "int \<Rightarrow> 'a database_scheme \<Rightarrow> agreement_row res" where
  "lock_collection_agreement i db =
     (case get_by agr_id i (db_agreements db) of
        None \<Rightarrow> Inl (ValueError ''Acordo nao encontrado.'') | Some a \<Rightarrow> Inr a)"

definition touch_collection_agreement :: "agreement_row \<Rightarrow> agreement_row" where
  "touch_collection_agreement a = a\<lparr>agr_state_revision := agr_state_revision a + 1\<rparr>"

text \<open>The compare-and-set of a decision, with the number of rows it changed.\<close>

definition claimable :: "int \<Rightarrow> int \<Rightarrow> agreement_row \<Rightarrow> bool" where
  "claimable i expected_revision a \<longleftrightarrow> agr_id a = i \<and> agr_status a = ''REQUESTED''
     \<and> agr_state_revision a = expected_revision"

definition claim_collection_agreement ::
    "int \<Rightarrow> int \<Rightarrow> string \<Rightarrow> int \<Rightarrow> instant \<Rightarrow> 'a database_scheme \<Rightarrow> (nat \<times> 'a database_scheme) res" where
  "claim_collection_agreement i expected_revision status decided_by decided_at db =
     (let hits = filter (claimable i expected_revision) (db_agreements db)
      in if list_ex (\<lambda>a. list_ex (\<lambda>b. agr_id b \<noteq> i \<and> agr_loan_id b = agr_loan_id a \<and> agr_status b = status)
              (db_agreements db)) hits
         then Inl (IntegrityError ''uq_agreement_loan_status'')
         else Inr (length hits, db\<lparr>db_agreements := map (\<lambda>a. if claimable i expected_revision a
                then a\<lparr>agr_status := status, agr_decided_by := Some decided_by, agr_decided_at := Some (Aware decided_at),
                       agr_state_revision := expected_revision + 1\<rparr> else a) (db_agreements db)\<rparr>))"

section \<open>Amounts\<close>

fun split_loop :: "cents \<Rightarrow> cents \<Rightarrow> int \<Rightarrow> int list \<Rightarrow> cents \<Rightarrow> cents list" where
  "split_loop debt base n [] acc = []"
| "split_loop debt base n (i # is) acc =
     (let v = (if i < n then base else debt - acc) in v # split_loop debt base n is (acc + v))"

definition split_amount :: "cents \<Rightarrow> int \<Rightarrow> cents list res" where
  "split_amount debt n =
     res_bind (ddiv 28 (dec debt) (of_int n)) (\<lambda>q. Inr (split_loop debt (cents q) n [1..n] 0))"

definition outstanding_for_loan :: "loan_row \<Rightarrow> 'a loan_tables_scheme \<Rightarrow> cents \<times> cents \<times> installment_row list" where
  "outstanding_for_loan loan db =
     (let rows = filter (\<lambda>i. ins_loan_id i = loan_id loan \<and> ins_status i \<noteq> ''PAID'') (db_installments db)
      in (\<Sum>i\<leftarrow>rows. ins_amount i - ins_paid_amount i,
          \<Sum>i\<leftarrow>rows. ins_penalty_amount i - ins_paid_penalty_amount i, rows))"

definition agreement_balance :: "agreement_installment_row \<Rightarrow> cents" where
  "agreement_balance ai =
     max 0 (agi_penalty_amount ai - agi_paid_penalty_amount ai) + max 0 (agi_principal ai - agi_paid_amount ai)"

section \<open>Requesting\<close>

text \<open>\<open>str(x or 0)\<close> of a money column: zero prints without decimals.\<close>

definition money_or_zero :: "cents \<Rightarrow> json" where
  "money_or_zero c = (if c = 0 then JStr ''0'' else JMoney c)"

definition request_snapshot :: "loan_row \<Rightarrow> instant \<Rightarrow> cents \<Rightarrow> cents \<Rightarrow> installment_row list \<Rightarrow> json" where
  "request_snapshot loan now base penalty rows =
     JDict [(''loan_id'', JInt (loan_id loan)), (''captured_at'', JTime now), (''base'', JMoney base),
       (''penalty'', JMoney penalty), (''total'', JMoney (base + penalty)),
       (''installments'', JList (map (\<lambda>i. JDict [(''id'', JInt (ins_id i)), (''number'', JInt (ins_number i)),
          (''due_date'', JDate (ins_due_date i)), (''amount'', JMoney (ins_amount i)),
          (''paid_amount'', money_or_zero (ins_paid_amount i)), (''penalty'', money_or_zero (ins_penalty_amount i)),
          (''paid_penalty'', money_or_zero (ins_paid_penalty_amount i))]) rows))]"

definition request_agreement ::
    "instant \<Rightarrow> int \<Rightarrow> int \<Rightarrow> int \<Rightarrow> string option \<Rightarrow> 'a database_scheme \<Rightarrow> (agreement_row \<times> 'a database_scheme) res" where
  "request_agreement now loan_id0 user_id installments reason db =
     (case get_by loan_id loan_id0 (db_loans db) of
        None \<Rightarrow> Inl (ValueError ''Emprestimo nao elegivel para acordo.'')
      | Some loan \<Rightarrow>
     if loan_status loan \<notin> {''ACTIVE'', ''OVERDUE'', ''IN_COLLECTION''} then
       Inl (ValueError ''Emprestimo nao elegivel para acordo.'')
     else case get_by mem_id (loan_member_id loan) (db_members db) of
        None \<Rightarrow> Inl (ValueError ''Participante nao encontrado.'')
      | Some member \<Rightarrow>
     if list_ex (\<lambda>a. agr_loan_id a = loan_id loan \<and> agr_status a = ''REQUESTED'') (db_agreements db) then
       Inl (ValueError ''Ja existe uma solicitacao de acordo pendente.'')
     else let (base, penalty, rows) = outstanding_for_loan loan db; debt = base + penalty
     in if debt \<le> 0 then Inl (ValueError ''Nao ha saldo para renegociar.'')
     else if installments < 1 \<or> 24 < installments then
       Inl (ValueError ''O acordo deve ter entre 1 e 24 parcelas.'')
     else let a = \<lparr>agr_id = next_id agr_id (db_agreements db), agr_loan_id = loan_id loan, agr_member_id = mem_id member,
            agr_requested_by = user_id, agr_decided_by = None, agr_status = ''REQUESTED'', agr_installments = installments,
            agr_total_amount = debt, agr_reason = reason, agr_snapshot = request_snapshot loan now base penalty rows,
            agr_requested_at = Aware now, agr_decided_at = None, agr_state_revision = 0\<rparr>
     in Inr (a, db\<lparr>db_agreements := db_agreements db @ [a]\<rparr>))"

section \<open>Deciding\<close>

text \<open>Open collection cases of the loan are resolved: the agreement replaces the debt.\<close>

definition resolve_case :: "instant \<Rightarrow> int \<Rightarrow> collection_case_row \<Rightarrow> collection_case_row" where
  "resolve_case now admin_id c = c\<lparr>cas_status := ''RESOLVED'', cas_last_action_at := Some (Aware now),
     cas_next_action_at := None, cas_resolved_at := Some (Aware now), cas_resolved_by := Some admin_id,
     cas_resolution_note := Some ''Encerrado: divida substituida por Agreement aprovado.''\<rparr>"

definition resolve_cases :: "instant \<Rightarrow> int \<Rightarrow> int \<Rightarrow> int \<Rightarrow> 'a database_scheme \<Rightarrow> 'a database_scheme" where
  "resolve_cases now admin_id member_id loan_id0 db =
     db\<lparr>db_collection_cases := map (\<lambda>c. if cas_member_id c = member_id \<and> cas_loan_id c = Some loan_id0
          \<and> cas_status c = ''OPEN'' then resolve_case now admin_id c else c) (db_collection_cases db)\<rparr>"

definition agree_installment :: "installment_row \<Rightarrow> installment_row" where
  "agree_installment i = i\<lparr>ins_status := ''AGREED'',
     ins_collection_stage := (if ins_collection_stage i = ''PAID'' then ''PAID'' else ''NORMAL'')\<rparr>"

definition agree_installments :: "installment_row list \<Rightarrow> 'a loan_tables_scheme \<Rightarrow> 'a loan_tables_scheme" where
  "agree_installments rows db = fold (\<lambda>i d. put_installment (agree_installment i) d) rows db"

definition new_installment ::
    "int \<Rightarrow> date \<Rightarrow> cents list \<Rightarrow> cents list \<Rightarrow> int \<Rightarrow> agreement_installment_row list \<Rightarrow> agreement_installment_row list res" where
  "new_installment agreement_id today principal_parts penalty_parts n rows =
     res_bind (add_months today n) (\<lambda>due.
     let princ = principal_parts ! nat (n - 1); pen = penalty_parts ! nat (n - 1)
     in Inr (rows @ [\<lparr>agi_id = next_id agi_id rows, agi_agreement_id = agreement_id, agi_number = n,
          agi_due_date = due, agi_principal = princ, agi_penalty_amount = pen, agi_amount = princ + pen,
          agi_paid_amount = 0, agi_paid_penalty_amount = 0, agi_paid_at = None, agi_status = ''OPEN''\<rparr>]))"

definition approve_agreement ::
    "instant \<Rightarrow> date \<Rightarrow> int \<Rightarrow> agreement_row \<Rightarrow> loan_row \<Rightarrow> member_row \<Rightarrow> 'a database_scheme \<Rightarrow> ('a database_scheme) res" where
  "approve_agreement now today admin_id a loan member db =
     (let (base, penalty, rows) = outstanding_for_loan loan db; debt = base + penalty
      in if debt \<le> 0 \<or> 1 < \<bar>debt - agr_total_amount a\<bar> then
           Inl (ValueError ''O saldo do emprestimo mudou desde a solicitacao; solicite um novo acordo.'')
         else res_bind (split_amount base (agr_installments a)) (\<lambda>principal_parts.
         let penalty_parts = penalty # replicate (nat (agr_installments a - 1)) 0
         in res_bind (fold_res (new_installment (agr_id a) today principal_parts penalty_parts)
                [1..agr_installments a] (db_agreement_installments db)) (\<lambda>items.
            let db1 = agree_installments rows (resolve_cases now admin_id (mem_id member) (loan_id loan) db);
                db2 = put_loan (touch_loan (loan\<lparr>loan_status := ''RESTRUCTURED''\<rparr>))
                        (db1\<lparr>db_agreement_installments := items\<rparr>)
            in Inr (snd (create_notification (mem_user_id member) ''AGREEMENT_APPROVED'' ''Acordo aprovado''
                 (''Seu acordo do emprestimo #'' @ py_str (loan_id loan) @ '' foi aprovado em ''
                   @ py_str (agr_installments a) @ '' parcela(s).'')
                 (Some ''COLLECTION_AGREEMENT'') (Some (py_str (agr_id a))) ''IN_APP'' db2)))))"

definition decide_agreement ::
    "instant \<Rightarrow> date \<Rightarrow> int \<Rightarrow> int \<Rightarrow> bool \<Rightarrow> 'a database_scheme \<Rightarrow> (agreement_row \<times> 'a database_scheme) res" where
  "decide_agreement now today agreement_id admin_id approve db0 =
     (case get_by agr_id agreement_id (db_agreements db0) of
        None \<Rightarrow> Inl (ValueError ''Acordo nao encontrado ou ja decidido.'')
      | Some a0 \<Rightarrow>
     if agr_status a0 \<noteq> ''REQUESTED'' then Inl (ValueError ''Acordo nao encontrado ou ja decidido.'')
     else res_bind (claim_collection_agreement (agr_id a0) (agr_state_revision a0)
            (if approve then ''APPROVED'' else ''REJECTED'') admin_id now db0) (\<lambda>(changed, db).
     if changed \<noteq> 1 then Inl (ValueError ''Acordo nao encontrado ou ja decidido.'')
     else res_bind (lock_collection_agreement (agr_id a0) db) (\<lambda>a.
     case (get_by loan_id (agr_loan_id a) (db_loans db), get_by mem_id (agr_member_id a) (db_members db)) of
       (Some loan, Some member) \<Rightarrow>
         let db1 = add_audit (Some admin_id) ''COLLECTION_AGREEMENT_DECISION'' ''COLLECTION_AGREEMENT'' (py_str (agr_id a)) db
         in if \<not> approve then
              Inr (a, snd (create_notification (mem_user_id member) ''AGREEMENT_REJECTED'' ''Acordo nao aprovado''
                ''Sua solicitacao de acordo financeiro nao foi aprovada.'' (Some ''COLLECTION_AGREEMENT'')
                (Some (py_str (agr_id a))) ''IN_APP'' db1))
            else res_bind (approve_agreement now today admin_id a loan member db1) (\<lambda>db2. Inr (a, db2))
     | _ \<Rightarrow> Inl (ValueError ''Dados do acordo invalidos.''))))"

end
