(* ===== verification/Agreement_Properties.thy ===== *)
theory Agreement_Properties
  imports Agreements Loan_Engine_Properties
begin

text \<open>
  What an agreement promises: its installments add up to the debt they replace, and it is
  decided once.
\<close>

section \<open>Splitting the debt\<close>

lemma split_loop_nth:
  assumes "0 < m"
  shows "split_loop debt base (int m) [int k..int m] acc =
     (if m < k then [] else replicate (m - k) base @ [debt - acc - int (m - k) * base])"
proof (induction "m - k" arbitrary: k acc)
  case 0
  then show ?case by (cases "m = k") (auto simp: upto.simps)
next
  case (Suc j)
  then have k: "k < m" by simp
  then have "[int k..int m] = int k # [int (Suc k)..int m]" by (subst upto.simps) (simp add: add.commute)
  moreover have "replicate (m - k) base = base # replicate (m - Suc k) base" using k by (simp add: Suc_diff_Suc flip: replicate_Suc)
  moreover have "int (m - k) = int (m - Suc k) + 1" using k by simp
  ultimately show ?case using Suc.hyps(1) [of "Suc k" "acc + base"] Suc.hyps(2) k
    by (simp add: algebra_simps)
qed

lemma split_amount_run:
  assumes "split_amount debt n = Inr parts" "1 \<le> n"
  shows "\<exists>base. parts = replicate (nat (n - 1)) base @ [debt - (n - 1) * base]
    \<and> base = cents (ctx 28 (dec debt / of_int n))"
proof -
  have "split_loop debt base n [1..n] 0 = replicate (nat (n - 1)) base @ [debt - (n - 1) * base]" for base
    using split_loop_nth [of "nat n" debt base 1 0] assms(2) by (simp add: nat_diff_distrib)
  with assms show ?thesis by (auto simp: split_amount_def ddiv_def)
qed

lemma split_amount_sum:
  assumes "split_amount debt n = Inr parts" "1 \<le> n"
  shows "length parts = nat n \<and> sum_list parts = debt"
  using split_amount_run [OF assms] assms(2) by (auto simp: sum_list_replicate)

text \<open>The last installment of an agreement takes what the rounding of the others leaves: a debt of
  twelve cents in the 24 installments a member may ask for becomes 23 installments of one cent and one of
  minus eleven.\<close>

theorem split_negative_last:
  "split_amount 12 24 = Inr (replicate 23 1 @ [- 11])"
proof -
  have d: "ctx 28 (dec 12 / 24) = 1 / 200"
    using ctx_exact [where x = "5 / 1000" and k = 3 and m = 5 and p = 28] by (simp add: dec_def)
  have "cents (1 / 200) = 1" by (simp add: cents_def round_half_up_def floor_eq_iff)
  moreover have "\<exists>parts. split_amount 12 24 = Inr parts" by (simp add: split_amount_def ddiv_def)
  ultimately show ?thesis using split_amount_run [of 12 24] by (auto simp: d)
qed

section \<open>The agreement's installments\<close>

definition agreement_rows :: "int \<Rightarrow> cents list \<Rightarrow> cents list \<Rightarrow> agreement_installment_row list \<Rightarrow> bool" where
  "agreement_rows agreement_id ps qs rows \<longleftrightarrow>
     map agi_number rows = [1..int (length rows)] \<and> length rows = length ps
   \<and> map agi_principal rows = ps \<and> map agi_penalty_amount rows = qs
   \<and> list_all (\<lambda>r. agi_agreement_id r = agreement_id \<and> agi_amount r = agi_principal r + agi_penalty_amount r
        \<and> agi_paid_amount r = 0 \<and> agi_paid_penalty_amount r = 0 \<and> agi_status r = ''OPEN'' \<and> agi_paid_at r = None) rows"

lemma new_installments:
  assumes "fold_res (new_installment i today ps qs) [1..int m] old = Inr rows"
    and "m \<le> length ps" "m \<le> length qs"
  shows "\<exists>new. rows = old @ new \<and> agreement_rows i (take m ps) (take m qs) new"
  using assms
proof (induction m arbitrary: rows)
  case 0
  then show ?case by (simp add: agreement_rows_def)
next
  case (Suc m)
  have "[1..int (Suc m)] = [1..int m] @ [int (Suc m)]" by (simp add: upto_rec2)
  with Suc.prems(1) obtain mid where
    mid: "fold_res (new_installment i today ps qs) [1..int m] old = Inr mid"
      "new_installment i today ps qs (int (Suc m)) mid = Inr rows"
    by (auto simp: fold_res_append res_bind_eq_Inr)
  from Suc.IH [OF mid(1)] Suc.prems obtain new where new: "mid = old @ new"
    "agreement_rows i (take m ps) (take m qs) new" by auto
  from mid(2) obtain r where r: "rows = mid @ [r]" "agi_number r = int (Suc m)" "agi_principal r = ps ! m"
    "agi_penalty_amount r = qs ! m" "agi_agreement_id r = i" "agi_amount r = agi_principal r + agi_penalty_amount r"
    "agi_paid_amount r = 0" "agi_paid_penalty_amount r = 0" "agi_status r = ''OPEN''" "agi_paid_at r = None"
    by (auto simp: new_installment_def res_bind_eq_Inr Let_def)
  have len: "length new = m" using new(2) Suc.prems by (simp add: agreement_rows_def)
  have "agreement_rows i (take (Suc m) ps) (take (Suc m) qs) (new @ [r])"
    using new(2) r Suc.prems len by (auto simp: agreement_rows_def take_Suc_conv_app_nth upto_rec2)
  then show ?case using r(1) new(1) by auto
qed

lemma agree_installments_simps [simp]:
  "db_loans (agree_installments rows db) = db_loans db"
  "db_members (agree_installments rows db) = db_members db"
  unfolding agree_installments_def by (induction rows arbitrary: db) simp_all

lemma agree_installments_rows:
  assumes "distinct (map ins_id (db_installments db))"
  shows "db_installments (agree_installments (filter P (db_installments db)) db) =
    map (\<lambda>r. if P r then agree_installment r else r) (db_installments db)"
proof -
  have "db_installments (agree_installments rows d) = fold (\<lambda>r. put_by ins_id (agree_installment r)) rows (db_installments d)"
    for rows and d :: "'a loan_tables_scheme"
    unfolding agree_installments_def by (induction rows arbitrary: d) simp_all
  moreover have "ins_id (agree_installment r) = ins_id r" for r by (simp add: agree_installment_def)
  ultimately show ?thesis using fold_put_filter [OF _ assms, of agree_installment P] by simp
qed

section \<open>Deciding\<close>

definition decided :: "instant \<Rightarrow> int \<Rightarrow> bool \<Rightarrow> agreement_row \<Rightarrow> agreement_row" where
  "decided now admin approve a = a\<lparr>agr_status := (if approve then ''APPROVED'' else ''REJECTED''),
     agr_decided_by := Some admin, agr_decided_at := Some (Aware now),
     agr_state_revision := agr_state_revision a + 1\<rparr>"

lemma decided_simps [simp]:
  "agr_id (decided now admin ap a) = agr_id a" "agr_loan_id (decided now admin ap a) = agr_loan_id a"
  "agr_member_id (decided now admin ap a) = agr_member_id a" "agr_installments (decided now admin ap a) = agr_installments a"
  "agr_total_amount (decided now admin ap a) = agr_total_amount a" "agr_status (decided now admin ap a) \<noteq> ''REQUESTED''"
  by (simp_all add: decided_def)

lemma claim_hits:
  assumes "distinct (map agr_id rows)" "get_by agr_id i rows = Some a" "agr_status a = ''REQUESTED''"
  shows "filter (claimable i (agr_state_revision a)) rows = [a]"
    and "map (\<lambda>x. if claimable i (agr_state_revision a) x then f x else x) rows
      = map (\<lambda>x. if agr_id x = i then f a else x) rows"
proof -
  have c: "claimable i (agr_state_revision a) x \<longleftrightarrow> x = a" if "x \<in> set rows" for x
    using that assms distinct_map_unique [OF assms(1) that, of a]
    by (auto simp: claimable_def dest!: get_by_Some_mem)
  have "a \<in> set rows" "agr_id a = i" using assms(2) by (auto dest: get_by_Some_mem)
  moreover have "distinct rows" using assms(1) by (simp add: distinct_map)
  ultimately have "filter (\<lambda>x. x = a) rows = [a]"
    by (induction rows) (auto simp: filter_empty_conv)
  then show "filter (claimable i (agr_state_revision a)) rows = [a]"
    using c by (metis (mono_tags, lifting) filter_cong)
  show "map (\<lambda>x. if claimable i (agr_state_revision a) x then f x else x) rows
      = map (\<lambda>x. if agr_id x = i then f a else x) rows"
    using c \<open>a \<in> set rows\<close> \<open>agr_id a = i\<close> distinct_map_unique [OF assms(1)] by (auto intro!: map_cong)
qed

lemma decide_prepared:
  assumes "decide_agreement now today i admin approve db = Inr (a, db')"
    and "distinct (map agr_id (db_agreements db))"
  shows "\<exists>a0 loan member db1. get_by agr_id i (db_agreements db) = Some a0 \<and> agr_status a0 = ''REQUESTED''
    \<and> a = decided now admin approve a0
    \<and> get_by loan_id (agr_loan_id a0) (db_loans db) = Some loan \<and> get_by mem_id (agr_member_id a0) (db_members db) = Some member
    \<and> db_agreements db1 = map (\<lambda>x. if agr_id x = i then a else x) (db_agreements db)
    \<and> db_loans db1 = db_loans db \<and> db_installments db1 = db_installments db
    \<and> db_agreement_installments db1 = db_agreement_installments db
    \<and> (if approve then approve_agreement now today admin a loan member db1 = Inr db'
       else db_agreements db' = db_agreements db1 \<and> db_loans db' = db_loans db1 \<and> db_installments db' = db_installments db1
         \<and> db_agreement_installments db' = db_agreement_installments db1)"
proof -
  from assms(1) obtain a0 where a0: "get_by agr_id i (db_agreements db) = Some a0" "agr_status a0 = ''REQUESTED''"
    by (auto simp: decide_agreement_def split: option.splits if_splits)
  then have id: "agr_id a0 = i" by (auto dest: get_by_Some_mem)
  note hits = claim_hits [OF assms(2) a0]
  define st where "st = (if approve then ''APPROVED'' else ''REJECTED'')"
  have upd: "a0\<lparr>agr_status := st, agr_decided_by := Some admin, agr_decided_at := Some (Aware now),
       agr_state_revision := agr_state_revision a0 + 1\<rparr> = decided now admin approve a0"
    by (simp add: decided_def st_def)
  define db0 where "db0 = db\<lparr>db_agreements := map (\<lambda>x. if agr_id x = i then decided now admin approve a0 else x) (db_agreements db)\<rparr>"
  have get: "get_by agr_id i (db_agreements db0) = Some (decided now admin approve a0)"
    using get_by_put_same [of agr_id "decided now admin approve a0" "db_agreements db"] a0(1) id
    by (simp add: db0_def put_by_def)
  have "claim_collection_agreement i (agr_state_revision a0) st admin now db = Inr (1, db0)"
    using assms(1) a0 hits(1) hits(2) [of "\<lambda>x. x\<lparr>agr_status := st, agr_decided_by := Some admin,
        agr_decided_at := Some (Aware now), agr_state_revision := agr_state_revision a0 + 1\<rparr>"] upd id
    by (auto simp: decide_agreement_def claim_collection_agreement_def st_def [symmetric] Let_def res_bind_eq_Inr db0_def
        split: if_splits)
  note claim = this
  define db1 where "db1 = add_audit (Some admin) ''COLLECTION_AGREEMENT_DECISION'' ''COLLECTION_AGREEMENT'' (py_str i) db0"
  let ?a = "decided now admin approve a0"
  have d0: "db_loans db0 = db_loans db" "db_members db0 = db_members db" by (simp_all add: db0_def)
  have locked: "lock_collection_agreement i db0 = Inr ?a" by (simp add: lock_collection_agreement_def get)
  note run = assms(1) [unfolded decide_agreement_def st_def [symmetric]]
  obtain loan member where lm: "get_by loan_id (agr_loan_id a0) (db_loans db) = Some loan"
    "get_by mem_id (agr_member_id a0) (db_members db) = Some member"
    using run by (simp add: a0 claim id locked d0 split: option.splits)
  have tabs: "db_agreements db1 = map (\<lambda>x. if agr_id x = i then ?a else x) (db_agreements db)"
    "db_loans db1 = db_loans db" "db_installments db1 = db_installments db"
    "db_agreement_installments db1 = db_agreement_installments db"
    by (simp_all add: db1_def db0_def add_audit_def)
  have "a = ?a \<and> (if approve then approve_agreement now today admin ?a loan member db1 = Inr db'
       else db_agreements db' = db_agreements db1 \<and> db_loans db' = db_loans db1 \<and> db_installments db' = db_installments db1
         \<and> db_agreement_installments db' = db_agreement_installments db1)"
    using run unfolding db1_def
    by (auto simp: a0 claim id locked d0 lm res_bind_eq_Inr create_notification_def Let_def split: if_splits)
  with a0 lm tabs show ?thesis by (intro exI [of _ a0] exI [of _ loan] exI [of _ member] exI [of _ db1]) (cases approve, simp_all)
qed

text \<open>C29. An approved agreement replaces exactly the debt: its installments are numbered from one, fresh and
  open, their principal adds up to what the loan's unpaid installments still owed and their penalties to the
  penalties owed, a total that is positive and within a cent of what was requested; those
  installments and no others become AGREED, and the loan is RESTRUCTURED with one new revision.\<close>

theorem agreement_replaces_debt:
  assumes run: "decide_agreement now today i admin True db = Inr (a, db')"
    and a0: "get_by agr_id i (db_agreements db) = Some a0" "1 \<le> agr_installments a0"
    and loan: "get_by loan_id (agr_loan_id a0) (db_loans db) = Some loan"
    and debt: "outstanding_for_loan loan db = (base, penalty, rows)"
    and ids: "distinct (map agr_id (db_agreements db))" "distinct (map ins_id (db_installments db))"
  shows "(\<exists>new ps. db_agreement_installments db' = db_agreement_installments db @ new
       \<and> agreement_rows i ps (penalty # replicate (nat (agr_installments a0 - 1)) 0) new
       \<and> int (length new) = agr_installments a0
       \<and> (\<Sum>r\<leftarrow>new. agi_principal r) = base \<and> (\<Sum>r\<leftarrow>new. agi_penalty_amount r) = penalty)
    \<and> 0 < base + penalty \<and> \<bar>base + penalty - agr_total_amount a0\<bar> \<le> 1
    \<and> db_installments db' = map (\<lambda>r. if ins_loan_id r = loan_id loan \<and> ins_status r \<noteq> ''PAID''
          then agree_installment r else r) (db_installments db)
    \<and> db_loans db' = put_by loan_id (touch_loan (loan\<lparr>loan_status := ''RESTRUCTURED''\<rparr>)) (db_loans db)"
proof -
  from decide_prepared [OF run ids(1)] a0(1) loan obtain member db1 where
    a: "a = decided now admin True a0" and
    tabs: "db_loans db1 = db_loans db" "db_installments db1 = db_installments db"
      "db_agreement_installments db1 = db_agreement_installments db" and
    ap: "approve_agreement now today admin a loan member db1 = Inr db'" by auto
  have id: "agr_id a = i" using a0(1) by (auto simp: a dest: get_by_Some_mem)
  have debt1: "outstanding_for_loan loan db1 = (base, penalty, rows)"
    using debt by (simp add: outstanding_for_loan_def tabs)
  have rows: "rows = filter (\<lambda>i. ins_loan_id i = loan_id loan \<and> ins_status i \<noteq> ''PAID'') (db_installments db)"
    using debt by (simp add: outstanding_for_loan_def Let_def)
  define qs where "qs = penalty # replicate (nat (agr_installments a0 - 1)) 0"
  from ap obtain ps items where ok: "\<not> base + penalty \<le> 0" "\<not> 1 < \<bar>base + penalty - agr_total_amount a0\<bar>"
    and split: "split_amount base (agr_installments a0) = Inr ps"
    and items: "fold_res (new_installment i today ps qs) [1..agr_installments a0] (db_agreement_installments db) = Inr items"
    and fin: "db_agreement_installments db' = items" "db_loans db' =
        put_by loan_id (touch_loan (loan\<lparr>loan_status := ''RESTRUCTURED''\<rparr>)) (db_loans db)"
      "db_installments db' = db_installments (agree_installments rows (resolve_cases now admin (mem_id member) (loan_id loan) db1))"
    unfolding approve_agreement_def debt1 id
    by (auto simp: a qs_def res_bind_eq_Inr Let_def create_notification_def resolve_cases_def tabs put_loan_def split: if_splits)
  define m where "m = nat (agr_installments a0)"
  have m: "agr_installments a0 = int m" "0 < m" using a0(2) by (simp_all add: m_def)
  have len: "length ps = m" "length qs = m" and sum: "sum_list ps = base"
    using split_amount_sum [OF split] a0(2) by (auto simp: m_def qs_def)
  from new_installments [OF items [unfolded m(1)]] len obtain new where
    new: "items = db_agreement_installments db @ new" "agreement_rows i ps qs new" by auto
  have "map agi_principal new = ps" "map agi_penalty_amount new = qs" "length new = m"
    using new(2) len by (auto simp: agreement_rows_def)
  moreover have "sum_list qs = penalty" by (simp add: qs_def sum_list_replicate)
  moreover have "db_installments db' = map (\<lambda>r. if ins_loan_id r = loan_id loan \<and> ins_status r \<noteq> ''PAID''
          then agree_installment r else r) (db_installments db)"
    using agree_installments_rows [of "resolve_cases now admin (mem_id member) (loan_id loan) db1"
        "\<lambda>i. ins_loan_id i = loan_id loan \<and> ins_status i \<noteq> ''PAID''"] ids(2)
    by (simp add: fin(3) rows resolve_cases_def tabs)
  ultimately show ?thesis using new fin(1,2) ok sum m(1) unfolding qs_def by auto
qed

text \<open>C30. An agreement is decided once: after a decision it is APPROVED or REJECTED with one new
  revision, every later decision is refused, whatever it decides, and a claim made with any
  revision read before changes no row.\<close>

theorem agreement_decided_once:
  assumes run: "decide_agreement now today i admin approve db = Inr (a, db')"
    and ids: "distinct (map agr_id (db_agreements db))"
  shows "(\<exists>a0. get_by agr_id i (db_agreements db) = Some a0 \<and> a = decided now admin approve a0)
    \<and> get_by agr_id i (db_agreements db') = Some a
    \<and> decide_agreement later today' i admin' approve' db' = Inl (ValueError ''Acordo nao encontrado ou ja decidido.'')
    \<and> claim_collection_agreement i revision status admin' later db' = Inr (0, db')"
proof -
  from decide_prepared [OF run ids] obtain a0 loan member db1 where a0: "get_by agr_id i (db_agreements db) = Some a0"
    and a: "a = decided now admin approve a0"
    and tabs: "db_agreements db1 = map (\<lambda>x. if agr_id x = i then a else x) (db_agreements db)"
    and fin: "if approve then approve_agreement now today admin a loan member db1 = Inr db'
       else db_agreements db' = db_agreements db1" by fastforce
  have "db_agreements (agree_installments rows d) = db_agreements d" for rows and d :: "'a database_scheme"
    unfolding agree_installments_def by (induction rows arbitrary: d) (simp_all add: put_installment_def)
  then have "db_agreements db' = db_agreements db1"
    using fin by (auto simp: approve_agreement_def res_bind_eq_Inr Let_def create_notification_def put_loan_def
        resolve_cases_def split: if_splits prod.splits)
  then have rows: "db_agreements db' = put_by agr_id a (db_agreements db)"
    using a0 by (simp add: tabs put_by_def a) (auto dest: get_by_Some_mem)
  have id: "agr_id a = i" using a0 by (auto simp: a dest: get_by_Some_mem)
  then have get: "get_by agr_id i (db_agreements db') = Some a"
    using get_by_put_same [of agr_id a "db_agreements db"] a0 by (simp add: rows)
  have "\<not> claimable i revision x" if "x \<in> set (db_agreements db')" for x
    using that id by (auto simp: rows put_by_def claimable_def a split: if_splits)
  then have "filter (claimable i revision) (db_agreements db') = []"
    "map (\<lambda>x. if claimable i revision x then f x else x) (db_agreements db') = db_agreements db'" for f
    by (auto simp: filter_empty_conv intro!: map_idI)
  then have "claim_collection_agreement i revision status admin' later db' = Inr (0, db')"
    by (simp add: claim_collection_agreement_def)
  with get a0 a show ?thesis by (auto simp: decide_agreement_def)
qed

text \<open>The table keeps one agreement per loan and status, so a loan's second request cannot be
  rejected: with one rejected agreement of the loan on record the decision fails on the unique key.\<close>

theorem second_rejection_fails:
  assumes "get_by agr_id i (db_agreements db) = Some a" and "agr_status a = ''REQUESTED''"
    and "b \<in> set (db_agreements db)" "agr_id b \<noteq> i" "agr_loan_id b = agr_loan_id a" "agr_status b = ''REJECTED''"
  shows "decide_agreement now today i admin False db = Inl (IntegrityError ''uq_agreement_loan_status'')"
proof -
  have "a \<in> set (db_agreements db)" "agr_id a = i" using assms(1) by (auto dest: get_by_Some_mem)
  then have "claimable i (agr_state_revision a) a" using assms(2) by (simp add: claimable_def)
  with \<open>a \<in> _\<close> assms(3-6) have
    "list_ex (\<lambda>a. list_ex (\<lambda>b. agr_id b \<noteq> i \<and> agr_loan_id b = agr_loan_id a \<and> agr_status b = ''REJECTED'')
       (db_agreements db)) (filter (claimable i (agr_state_revision a)) (db_agreements db))"
    by (auto simp: list_ex_iff)
  with assms(1,2) \<open>agr_id a = i\<close> show ?thesis
    by (simp add: decide_agreement_def claim_collection_agreement_def)
qed

section \<open>Witnesses\<close>

definition requested_agreement :: agreement_row where
  "requested_agreement = \<lparr>agr_id = 5, agr_loan_id = 1, agr_member_id = 4, agr_requested_by = 9, agr_decided_by = None,
     agr_status = ''REQUESTED'', agr_installments = 2, agr_total_amount = 60300, agr_reason = None, agr_snapshot = JNull,
     agr_requested_at = Aware 0, agr_decided_at = None, agr_state_revision = 0\<rparr>"

definition agreement_db :: "agreement_row list \<Rightarrow> database" where
  "agreement_db agreements = \<lparr>db_ledger = [], db_accounts = [], db_entries = [],
     db_members = [\<lparr>mem_id = 4, mem_user_id = 9, mem_group_id = 1, mem_status = ''ACTIVE''\<rparr>],
     db_audit = [], db_notifications = [], db_loans = [approved_loan\<lparr>loan_status := ''ACTIVE''\<rparr>],
     db_installments = [due_installment], db_late_events = [], db_settlements = [], db_reversals = [], db_payments = [],
     db_cycles = [], db_quotas = [], db_participations = [], db_contributions = [], db_charge_events = [],
     db_agreements = agreements, db_agreement_installments = [], db_collection_cases = [], db_reversal_components = [], db_users = []\<rparr>"

lemma demo_months: "add_months 20000 1 = Inr 20031" "add_months 20000 2 = Inr 20061"
  by code_simp+

lemma demo_split: "split_amount 60000 2 = Inr [30000, 30000]"
proof -
  have "ctx 28 (dec 60000 / 2) = dec 30000"
    using ctx_cents_exact [of 30000 28] by (simp add: dec_def)
  then have "split_amount 60000 2 = Inr (split_loop 60000 30000 2 [1..2] 0)" by (simp add: split_amount_def ddiv_def)
  then show ?thesis by (simp add: upto.simps)
qed

lemma demo_decision:
  "\<exists>a db'. decide_agreement 0 20000 5 2 True (agreement_db [requested_agreement]) = Inr (a, db')"
proof -
  have "outstanding_for_loan (approved_loan\<lparr>loan_status := ''ACTIVE''\<rparr>) db = (60000, 300, [due_installment])"
    if "db_installments db = [due_installment]" for db :: database
    by (simp add: outstanding_for_loan_def that approved_loan_def due_installment_def)
  then show ?thesis
    by (simp add: decide_agreement_def agreement_db_def requested_agreement_def claim_collection_agreement_def
        claimable_def lock_collection_agreement_def approve_agreement_def demo_split upto.simps new_installment_def
        demo_months Let_def approved_loan_def add_audit_def)
qed

theorem agreement_replaces_debt_witness:
  "\<exists>a db'. decide_agreement 0 20000 5 2 True (agreement_db [requested_agreement]) = Inr (a, db')
     \<and> (\<Sum>r\<leftarrow>db_agreement_installments db'. agi_principal r) = 60000"
proof -
  obtain a db' where r: "decide_agreement 0 20000 5 2 True (agreement_db [requested_agreement]) = Inr (a, db')"
    using demo_decision by blast
  have debt: "outstanding_for_loan (approved_loan\<lparr>loan_status := ''ACTIVE''\<rparr>) (agreement_db [requested_agreement])
      = (60000, 300, [due_installment])"
    by (simp add: outstanding_for_loan_def agreement_db_def approved_loan_def due_installment_def)
  from agreement_replaces_debt [OF r _ _ _ debt, of requested_agreement] r show ?thesis
    by (auto simp: agreement_db_def requested_agreement_def approved_loan_def)
qed

theorem agreement_decided_once_witness:
  "\<exists>a db'. decide_agreement 0 20000 5 2 True (agreement_db [requested_agreement]) = Inr (a, db')
     \<and> decide_agreement 9 20001 5 3 False db' = Inl (ValueError ''Acordo nao encontrado ou ja decidido.'')"
proof -
  obtain a db' where r: "decide_agreement 0 20000 5 2 True (agreement_db [requested_agreement]) = Inr (a, db')"
    using demo_decision by blast
  from agreement_decided_once [OF r] r show ?thesis by (auto simp: agreement_db_def)
qed

theorem second_rejection_fails_witness:
  "decide_agreement 0 20000 5 2 False
     (agreement_db [requested_agreement\<lparr>agr_id := 4, agr_status := ''REJECTED''\<rparr>, requested_agreement])
   = Inl (IntegrityError ''uq_agreement_loan_status'')"
  by (rule second_rejection_fails [of _ _ requested_agreement "requested_agreement\<lparr>agr_id := 4, agr_status := ''REJECTED''\<rparr>"])
    (simp_all add: agreement_db_def requested_agreement_def)

end
