(* ===== verification/Payment_Settlement.thy ===== *)
theory Payment_Settlement
  imports Loan_Payments Agreements
begin

text \<open>
  The settlement of provider-confirmed PIX payments, \<open>services/payment_settlement.py\<close>: one function
  that locks a payment, applies it to a contribution, a loan installment or an agreement installment, posts
  it, and writes the settlement row with its receipt. The branches of the function are definitions of their
  own, joined in \<open>settle_confirmed_pix_payment\<close> in the code's order. What the code takes from its surroundings is the record
  \<open>env\<close>: the clock, the setting \<open>loan_late_charge_effective_date\<close>, the two hashes over canonical JSON and the one over text, the
  verification of receipts, and \<open>str\<close> of a value that is not a scalar.
\<close>

record env =
  ev_now :: instant
  ev_effective_date :: "date option"
  ev_ledger_hash :: "json \<Rightarrow> string"
  ev_receipt_hash :: "json \<Rightarrow> string"
  ev_text_hash :: "string \<Rightarrow> string"
  ev_verifier :: verifier
  ev_str :: "json \<Rightarrow> string"

section \<open>The provider's payload\<close>

definition SECRET_KEYS :: "string list" where
  "SECRET_KEYS = [''token'', ''access_token'', ''authorization'', ''secret'', ''password'', ''credential'',
     ''api_key'', ''private_key'']"

function sanitize_payload :: "json \<Rightarrow> json" where
  "sanitize_payload (JDict entries) =
     JDict (map (\<lambda>(k, v). (k, if py_lower k \<in> set SECRET_KEYS then JStr ''[REDACTED]'' else sanitize_payload v)) entries)"
| "sanitize_payload (JList items) = JList (map sanitize_payload items)"
| "sanitize_payload JNull = JNull"
| "sanitize_payload (JBool b) = JBool b"
| "sanitize_payload (JInt i) = JInt i"
| "sanitize_payload (JStr s) = JStr s"
| "sanitize_payload (JMoney c) = JMoney c"
| "sanitize_payload (JTime t) = JTime t"
| "sanitize_payload (JDate d) = JDate d"
  by pat_completeness auto

lemma size_entry: "(k, v) \<in> set entries \<Longrightarrow> size v < Suc (size_list (size_prod (\<lambda>_. 0) size) entries)"
  by (induction entries) auto

termination sanitize_payload
proof (relation "measure size", goal_cases)
  case (2 entries x k v)
  then have "(k, v) \<in> set entries" by simp
  then show ?case using size_entry [of k v entries] by simp
next
  case (3 items x)
  then show ?case by (induction items) auto
qed simp

definition json_text :: "env \<Rightarrow> json \<Rightarrow> string" where
  "json_text ev v = (case v of JStr s \<Rightarrow> s | JInt i \<Rightarrow> py_str i
     | JBool b \<Rightarrow> (if b then ''True'' else ''False'') | _ \<Rightarrow> ev_str ev v)"

definition present :: "json option \<Rightarrow> json option" where
  "present v = (case v of Some JNull \<Rightarrow> None | _ \<Rightarrow> v)"

definition dict_or_none :: "json option \<Rightarrow> json option" where
  "dict_or_none v = (case v of Some j \<Rightarrow> if is_dict j then Some j else None | None \<Rightarrow> None)"

definition transaction_details :: "json \<Rightarrow> json option" where
  "transaction_details safe =
     (case dict_or_none (json_get ''transaction_details'' safe) of
        Some d \<Rightarrow> Some d
      | None \<Rightarrow> (case dict_or_none (json_get ''point_of_interaction'' safe) of
          Some p \<Rightarrow> dict_or_none (json_get ''transaction_data'' p) | None \<Rightarrow> None))"

definition persist_remote_payload :: "env \<Rightarrow> json option \<Rightarrow> payment_row \<Rightarrow> payment_row" where
  "persist_remote_payload ev remote p =
     (case remote of None \<Rightarrow> p
      | Some doc \<Rightarrow>
          if doc = JDict [] then p
          else let safe = sanitize_payload doc;
              text = (\<lambda>v old. case present v of None \<Rightarrow> old | Some j \<Rightarrow> Some (json_text ev j));
              p1 = p\<lparr>pay_provider_payload_json := Some safe\<rparr>
          in if \<not> is_dict safe then p1
             else let p2 = p1\<lparr>pay_external_reference := text (json_get ''external_reference'' safe) (pay_external_reference p1),
                       pay_provider_status_detail := text (json_get ''status_detail'' safe) (pay_provider_status_detail p1)\<rparr>
             in case transaction_details safe of None \<Rightarrow> p2
              | Some d \<Rightarrow> p2\<lparr>pay_pix_txid := text (json_get ''txid'' d) (pay_pix_txid p2),
                     pay_end_to_end_id := text (json_get ''end_to_end_id'' d) (pay_end_to_end_id p2)\<rparr>)"

section \<open>Statuses\<close>

definition contribution_paid_amount :: "contribution_row \<Rightarrow> cents" where
  "contribution_paid_amount c = (case con_paid_amount c of Some a \<Rightarrow> a
     | None \<Rightarrow> if con_status c = ''PAID'' then con_amount c else 0)"

definition contribution_financial_status :: "contribution_row \<Rightarrow> cents \<Rightarrow> instant \<Rightarrow> string" where
  "contribution_financial_status c paid_amount as_of =
     (if con_cancelled_at c \<noteq> None then ''CANCELLED''
      else if max 0 (con_amount c - paid_amount) = 0 then ''PAID''
      else if (case con_due_date c of None \<Rightarrow> False | Some d \<Rightarrow> d < belem_date as_of) then ''OVERDUE''
      else if con_paid_amount c = None \<and> con_status c \<in> {''PENDING'', ''PARTIAL'', ''OVERDUE''} then con_status c
      else if 0 < paid_amount then ''PARTIAL'' else ''PENDING'')"

text \<open>The installment's date is compared with the UTC date, the contribution's with the civil one.\<close>

definition installment_financial_status :: "installment_row \<Rightarrow> instant \<Rightarrow> string" where
  "installment_financial_status i as_of =
     (if ins_amount i - ins_paid_amount i + max 0 (ins_penalty_amount i - ins_paid_penalty_amount i) \<le> 0 then ''PAID''
      else if ins_due_date i < utc_date as_of then ''OVERDUE''
      else if 0 < ins_paid_amount i \<or> 0 < ins_paid_penalty_amount i then ''PARTIAL'' else ''PENDING'')"

section \<open>Finding the rows\<close>

definition text_or_empty :: "string option \<Rightarrow> string" where
  "text_or_empty s = (case s of None \<Rightarrow> [] | Some t \<Rightarrow> t)"

definition truthy :: "string option \<Rightarrow> bool" where
  "truthy s \<longleftrightarrow> s \<noteq> None \<and> s \<noteq> Some []"

text \<open>The id of a reference of the given kind, when the payment has one.\<close>

definition referenced_id :: "string \<Rightarrow> payment_row \<Rightarrow> int option" where
  "referenced_id kind p =
     (if py_upper (text_or_empty (pay_reference_type p)) = kind \<and> isdigit (text_or_empty (pay_reference_id p))
      then Some (py_int (text_or_empty (pay_reference_id p))) else None)"

definition locked_contribution :: "payment_row \<Rightarrow> 'a database_scheme \<Rightarrow> contribution_row option res" where
  "locked_contribution p db =
     (let contribution_id = referenced_id ''CONTRIBUTION'' p
      in res_bind (one_or_none (filter (\<lambda>c. case contribution_id of Some i \<Rightarrow> con_id c = i
             | None \<Rightarrow> con_payment_id c = Some (pay_id p)) (db_contributions db))) (\<lambda>contribution.
         case contribution of None \<Rightarrow> Inr None
         | Some c \<Rightarrow>
             if py_upper (text_or_empty (pay_reference_type p)) = ''CONTRIBUTION''
                \<and> contribution_id \<noteq> Some (con_id c)
             then Inl (ValueError ''Referencia de contribuicao invalida.'') else Inr (Some c)))"

definition locked_installment :: "payment_row \<Rightarrow> 'a loan_tables_scheme \<Rightarrow> installment_row option res" where
  "locked_installment p db =
     (case referenced_id ''LOAN_INSTALLMENT'' p of None \<Rightarrow> Inr None
      | Some i \<Rightarrow> one_or_none (filter (\<lambda>x. ins_id x = i) (db_installments db)))"

definition locked_agreement_installment ::
    "payment_row \<Rightarrow> 'a database_scheme \<Rightarrow> agreement_installment_row option res" where
  "locked_agreement_installment p db =
     (case referenced_id ''AGREEMENT_INSTALLMENT'' p of None \<Rightarrow> Inr None
      | Some i \<Rightarrow> one_or_none (filter (\<lambda>x. agi_id x = i) (db_agreement_installments db)))"

definition lock_payment :: "int \<Rightarrow> 'a loan_tables_scheme \<Rightarrow> payment_row res" where
  "lock_payment i db =
     (case get_by pay_id i (db_payments db) of
        None \<Rightarrow> Inl (ValueError ''Pagamento nao encontrado.'') | Some p \<Rightarrow> Inr p)"

definition lock_payment_settlement :: "int \<Rightarrow> 'a loan_tables_scheme \<Rightarrow> settlement_row option res" where
  "lock_payment_settlement i db = one_or_none (filter (\<lambda>s. stl_payment_id s = i) (db_settlements db))"

definition legacy_agreement_ledger_exists :: "int \<Rightarrow> 'a books_scheme \<Rightarrow> bool" where
  "legacy_agreement_ledger_exists i db = has_ledger ''AGREEMENT_INSTALLMENT_PAYMENT'' (py_str i) db"

section \<open>Receipts\<close>

definition ledger_snapshot :: "'a books_scheme \<Rightarrow> int \<Rightarrow> json list" where
  "ledger_snapshot db payment_id =
     map (\<lambda>r. JDict [(''id'', JInt (led_id r)), (''account'', JStr (led_account r)), (''direction'', JStr (led_direction r)),
         (''amount'', JMoney (led_amount r)), (''reference_type'', JStr (led_reference_type r)),
         (''reference_id'', JStr (led_reference_id r)), (''entry_hash'', opt_json JStr (led_entry_hash r))])
       (sort_key led_id (filter (\<lambda>r. led_reference_id r = py_str payment_id) (db_ledger db)))"

definition utc_iso :: "datetime option \<Rightarrow> json" where
  "utc_iso t = opt_json (\<lambda>v. JTime (stored_utc v)) t"

definition obligation_snapshot :: "settlement_row \<Rightarrow> json" where
  "obligation_snapshot s =
     JDict ([(''type'', JStr (stl_obligation_type s)), (''contribution_id'', opt_json JInt (stl_contribution_id s)),
       (''loan_installment_id'', opt_json JInt (stl_loan_installment_id s)), (''member_id'', JInt (stl_member_id s)),
       (''status_before'', JStr (stl_status_before s)), (''status_after'', JStr (stl_status_after s))]
       @ (if stl_obligation_type s = ''AGREEMENT_INSTALLMENT''
          then [(''agreement_installment_id'', opt_json JInt (stl_agreement_installment_id s))] else []))"

definition amounts_snapshot :: "settlement_row \<Rightarrow> json" where
  "amounts_snapshot s =
     JDict ([(''received'', JMoney (stl_amount_received s)), (''applied'', JMoney (stl_amount_applied s)),
       (''principal'', JMoney (stl_principal_applied s)), (''interest'', JMoney (stl_interest_applied s)),
       (''penalty'', JMoney (stl_penalty_applied s)), (''excess'', JMoney (stl_excess_amount s))]
       @ (if stl_component_version s = None then []
          else [(''normal_price_interest'', JMoney (money (stl_normal_interest_applied s))),
                (''late_interest'', JMoney (money (stl_late_interest_applied s))),
                (''fixed_penalty'', JMoney (money (stl_fixed_penalty_applied s)))]))"

definition loan_status_entries :: "loan_evidence \<Rightarrow> loan_evidence \<Rightarrow> (string \<times> json) list" where
  "loan_status_entries b a =
     [(''status_before'', JStr (lev_loan_status b)), (''status_after'', JStr (lev_loan_status a)),
      (''state_revision_before'', JInt (lev_loan_state_revision b)), (''state_revision_after'', JInt (lev_loan_state_revision a))]"

definition state_snapshot :: "settlement_row \<Rightarrow> (string \<times> json) list" where
  "state_snapshot s =
     (case (stl_loan_before s, stl_loan_after s) of
        (Some b, Some a) \<Rightarrow>
          let paid = [(''paid_at_before'', utc_iso (lev_loan_paid_at b)), (''paid_at_after'', utc_iso (lev_loan_paid_at a))]
          in if stl_receipt_version s = ''v2'' then [(''loan_state'', JDict (loan_status_entries b a))]
             else if stl_receipt_version s = ''v3'' then [(''loan_state'', JDict (loan_status_entries b a @ paid))]
             else if stl_receipt_version s = ''v4'' then
               [(''loan_state'', JDict (loan_status_entries b a @ paid)),
                (''loan_installment_state'', JDict
                   [(''status_before'', JStr (lev_installment_status b)), (''status_after'', JStr (lev_installment_status a)),
                    (''paid_at_before'', utc_iso (lev_installment_paid_at b)),
                    (''paid_at_after'', utc_iso (lev_installment_paid_at a))])]
             else []
      | _ \<Rightarrow> [])
     @ (case (stl_agreement_before s, stl_agreement_after s) of
        (Some b, Some a) \<Rightarrow>
          if stl_receipt_version s = ''v5'' then
            [(''agreement_installment_state'', JDict
                [(''status_before'', JStr (aev_installment_status b)), (''status_after'', JStr (aev_installment_status a)),
                 (''paid_at_before'', utc_iso (aev_installment_paid_at b)), (''paid_at_after'', utc_iso (aev_installment_paid_at a)),
                 (''paid_amount_before'', JMoney (aev_paid_amount b)), (''paid_amount_after'', JMoney (aev_paid_amount a)),
                 (''paid_penalty_amount_before'', JMoney (aev_paid_penalty_amount b)),
                 (''paid_penalty_amount_after'', JMoney (aev_paid_penalty_amount a))]),
             (''collection_agreement_state'', JDict
                [(''status_before'', JStr (aev_agreement_status b)), (''status_after'', JStr (aev_agreement_status a)),
                 (''state_revision_before'', JInt (aev_agreement_state_revision b)),
                 (''state_revision_after'', JInt (aev_agreement_state_revision a))])]
          else []
      | _ \<Rightarrow> [])"

definition receipt_snapshot :: "payment_row \<Rightarrow> settlement_row \<Rightarrow> json list \<Rightarrow> json" where
  "receipt_snapshot p s ledger =
     JDict ([(''receipt_version'', JStr (stl_receipt_version s)), (''receipt_number'', JStr (stl_receipt_number s)),
       (''payment'', JDict [(''id'', JInt (pay_id p)), (''provider'', JStr (pay_provider p)),
          (''provider_order_id'', opt_json JStr (pay_provider_order_id p)),
          (''provider_payment_id'', opt_json JStr (pay_provider_payment_id p)),
          (''external_reference'', opt_json JStr (pay_external_reference p)), (''pix_txid'', opt_json JStr (pay_pix_txid p)),
          (''end_to_end_id'', opt_json JStr (pay_end_to_end_id p)), (''reference_type'', opt_json JStr (pay_reference_type p)),
          (''reference_id'', opt_json JStr (pay_reference_id p))]),
       (''obligation'', obligation_snapshot s), (''amounts'', amounts_snapshot s),
       (''confirmation'', JDict [(''source'', JStr (stl_confirmation_source s)),
          (''confirmed_at'', JTime (stored_utc (stl_confirmed_at s))),
          (''webhook_event_id'', opt_json JInt (stl_webhook_event_id s))]),
       (''ledger_entries'', JList ledger)] @ state_snapshot s)"

text \<open>\<open>{id:012d}\<close> of a primary key.\<close>

definition pad12 :: "int \<Rightarrow> string" where
  "pad12 i = (let d = py_str i in replicate (12 - length d) (CHR ''0'') @ d)"

section \<open>What a branch reports\<close>

text \<open>The locals a branch leaves for the common end: \<open>ef_components\<close> is (normal, late, fixed) of a versioned
  application, \<open>ef_credit\<close> the contribution that became paid with the member and account to credit.\<close>

record effect =
  ef_effective_at :: instant
  ef_obligation_type :: string
  ef_member_id :: int
  ef_contribution_id :: "int option"
  ef_loan_installment_id :: "int option"
  ef_agreement_installment_id :: "int option"
  ef_applied :: cents
  ef_principal :: cents
  ef_interest :: cents
  ef_penalty :: cents
  ef_components :: "(cents \<times> cents \<times> cents) option"
  ef_status_before :: string
  ef_status_after :: string
  ef_loan :: "(loan_evidence \<times> loan_evidence) option"
  ef_agreement :: "(agreement_evidence \<times> agreement_evidence) option"
  ef_credit :: "(member_row \<times> account_row \<times> contribution_row) option"

section \<open>Agreement installments\<close>

definition agreement_evidence_of :: "agreement_installment_row \<Rightarrow> agreement_row \<Rightarrow> agreement_evidence" where
  "agreement_evidence_of i a = \<lparr>aev_installment_status = agi_status i, aev_installment_paid_at = agi_paid_at i,
     aev_paid_amount = agi_paid_amount i, aev_paid_penalty_amount = agi_paid_penalty_amount i,
     aev_agreement_status = agr_status a, aev_agreement_state_revision = agr_state_revision a\<rparr>"

definition agreement_confirmed :: "payment_row \<Rightarrow> json option \<Rightarrow> bool" where
  "agreement_confirmed p remote \<longleftrightarrow> pay_status p = ''approved''
     \<or> pay_status p = ''processed'' \<and> (case remote of None \<Rightarrow> False
         | Some doc \<Rightarrow> is_dict doc \<and> json_get ''status_detail'' doc = Some (JStr ''accredited''))"

text \<open>The penalty first, then the principal.\<close>

definition pay_agreement_installment ::
    "instant \<Rightarrow> cents \<Rightarrow> cents \<Rightarrow> agreement_installment_row \<Rightarrow> agreement_installment_row" where
  "pay_agreement_installment effective_at penalty princ i =
     (let i1 = i\<lparr>agi_paid_penalty_amount := agi_paid_penalty_amount i + penalty,
            agi_paid_amount := agi_paid_amount i + princ\<rparr>;
          remaining = agreement_balance i1;
          status = (if remaining = 0 then ''PAID'' else if 0 < penalty + princ then ''PARTIAL'' else ''OPEN'')
      in i1\<lparr>agi_status := status, agi_paid_at := (if status = ''PAID'' then Some (Aware effective_at) else agi_paid_at i1)\<rparr>)"

definition agreement_parts :: "cents \<Rightarrow> agreement_installment_row \<Rightarrow> cents \<times> cents" where
  "agreement_parts received i =
     (let penalty_open = max 0 (agi_penalty_amount i - agi_paid_penalty_amount i);
          principal_open = max 0 (agi_principal i - agi_paid_amount i);
          applied = min received (penalty_open + principal_open);
          penalty_applied = min penalty_open applied
      in (penalty_applied, min principal_open (applied - penalty_applied)))"

definition effect_of_agreement ::
    "instant \<Rightarrow> member_row \<Rightarrow> cents \<Rightarrow> cents \<Rightarrow> agreement_installment_row \<Rightarrow> agreement_installment_row \<Rightarrow> agreement_row
      \<Rightarrow> agreement_row \<Rightarrow> effect" where
  "effect_of_agreement effective_at member penalty princ i i' a a' =
     \<lparr>ef_effective_at = effective_at, ef_obligation_type = ''AGREEMENT_INSTALLMENT'', ef_member_id = mem_id member,
      ef_contribution_id = None, ef_loan_installment_id = None, ef_agreement_installment_id = Some (agi_id i),
      ef_applied = penalty + princ, ef_principal = princ, ef_interest = 0, ef_penalty = penalty,
      ef_components = None, ef_status_before = agi_status i, ef_status_after = agi_status i',
      ef_loan = None, ef_agreement = Some (agreement_evidence_of i a, agreement_evidence_of i' a'), ef_credit = None\<rparr>"

text \<open>The agreement after a payment: SETTLED once all its installments are PAID, one revision more.\<close>

definition paid_agreement :: "agreement_row \<Rightarrow> agreement_installment_row list \<Rightarrow> agreement_row" where
  "paid_agreement a items =
     touch_collection_agreement (if items \<noteq> [] \<and> list_all (\<lambda>x. agi_status x = ''PAID'') items
       then a\<lparr>agr_status := ''SETTLED''\<rparr> else a)"

definition settle_agreement ::
    "env \<Rightarrow> payment_row \<Rightarrow> cents \<Rightarrow> instant \<Rightarrow> agreement_row \<Rightarrow> agreement_installment_row \<Rightarrow> 'a database_scheme
      \<Rightarrow> (effect \<times> payment_row \<times> 'a database_scheme) res" where
  "settle_agreement ev p received effective_at agreement item db =
     (case get_by mem_id (agr_member_id agreement) (db_members db) of
        None \<Rightarrow> Inl (ValueError ''Participante do acordo nao encontrado.'')
      | Some member \<Rightarrow>
     if min received (agreement_balance item) \<le> 0 then
       Inl (ValueError ''Parcela de acordo nao possui saldo aplicavel.'')
     else let (penalty_applied, principal_applied) = agreement_parts received item;
         item' = pay_agreement_installment effective_at penalty_applied principal_applied item
     in res_bind (post_entry (ev_ledger_hash ev) (ev_now ev) ''CAIXINHA'' ''CREDIT'' (dec (penalty_applied + principal_applied))
          ''AGREEMENT_INSTALLMENT_PAYMENT'' (py_str (pay_id p)) None (db_ledger db)) (\<lambda>(_, ledger).
     let db1 = put_agreement_installment item' (db\<lparr>db_ledger := ledger\<rparr>);
         agreement' = paid_agreement agreement
           (filter (\<lambda>x. agi_agreement_id x = agr_id agreement) (db_agreement_installments db1))
     in Inr (effect_of_agreement effective_at member penalty_applied principal_applied item item' agreement agreement',
             p, put_agreement agreement' db1)))"

section \<open>Contributions\<close>

definition pay_contribution :: "instant \<Rightarrow> cents \<Rightarrow> contribution_row \<Rightarrow> contribution_row" where
  "pay_contribution effective_at after_paid c =
     (let c1 = c\<lparr>con_paid_amount := Some after_paid\<rparr>; after_status = contribution_financial_status c1 after_paid effective_at
      in c1\<lparr>con_status := after_status,
            con_paid_at := (if after_status = ''PAID'' \<and> con_paid_at c1 = None then Some (Aware effective_at) else con_paid_at c1)\<rparr>)"

definition effect_of_contribution ::
    "instant \<Rightarrow> member_row \<Rightarrow> account_row \<Rightarrow> cents \<Rightarrow> string \<Rightarrow> contribution_row \<Rightarrow> effect" where
  "effect_of_contribution effective_at member account applied before_status c =
     \<lparr>ef_effective_at = effective_at, ef_obligation_type = ''CONTRIBUTION'', ef_member_id = con_member_id c,
      ef_contribution_id = Some (con_id c), ef_loan_installment_id = None, ef_agreement_installment_id = None,
      ef_applied = applied, ef_principal = applied, ef_interest = 0, ef_penalty = 0, ef_components = None,
      ef_status_before = before_status, ef_status_after = con_status c, ef_loan = None, ef_agreement = None,
      ef_credit = (if before_status \<noteq> ''PAID'' \<and> con_status c = ''PAID'' then Some (member, account, c) else None)\<rparr>"

definition settle_contribution ::
    "env \<Rightarrow> payment_row \<Rightarrow> cents \<Rightarrow> instant \<Rightarrow> contribution_row \<Rightarrow> 'a database_scheme
      \<Rightarrow> (effect \<times> payment_row \<times> 'a database_scheme) res" where
  "settle_contribution ev p received effective_at unlocked db0 =
     res_bind (lock_member_financial_account (con_member_id unlocked) db0) (\<lambda>(member, account, db).
     res_bind (locked_contribution p db) (\<lambda>found.
     case found of None \<Rightarrow> Inl (ValueError ''Referencia de contribuicao invalida.'')
     | Some c \<Rightarrow>
     if con_member_id c \<noteq> mem_id member then Inl (ValueError ''Referencia de contribuicao invalida.'')
     else if con_cancelled_at c \<noteq> None then
       Inl (ValueError ''Contribuicao cancelada; pagamento requer reconciliacao.'')
     else let before_paid = contribution_paid_amount c;
         before_status = contribution_financial_status c before_paid effective_at;
         applied = min received (max 0 (con_amount c - before_paid));
         c' = pay_contribution effective_at (before_paid + applied) c
     in res_bind (if 0 < applied then post_contribution_payment (ev_ledger_hash ev) (ev_now ev) p (Some applied) (db_ledger db)
          else Inr (p, db_ledger db)) (\<lambda>(p', ledger).
     Inr (effect_of_contribution effective_at member account applied before_status c', p',
        put_contribution c' (db\<lparr>db_ledger := ledger\<rparr>)))))"

section \<open>Loan installments\<close>

record 'db loan_application =
  la_effective_at :: instant
  la_applied :: cents
  la_principal :: cents
  la_interest :: cents
  la_penalty :: cents
  la_components :: "(cents \<times> cents \<times> cents) option"
  la_status_before :: string
  la_status_after :: string
  la_installment :: installment_row
  la_loan :: loan_row
  la_payment :: payment_row
  la_db :: 'db

text \<open>The order of a versioned application: fixed penalty, late interest, normal interest, principal.\<close>

record allocation =
  al_applied :: cents
  al_fixed :: cents
  al_late :: cents
  al_normal :: cents
  al_principal :: cents

definition allocate_versioned :: "obligation \<Rightarrow> cents \<Rightarrow> allocation" where
  "allocate_versioned ob received =
     (let applied = min received (ob_total_due ob);
          fixed = min (ob_fixed_penalty_due ob) applied; r1 = applied - fixed;
          late = min (ob_late_interest_due ob) r1; r2 = r1 - late;
          normal = min (ob_normal_interest_due ob) r2; r3 = r2 - normal
      in \<lparr>al_applied = applied, al_fixed = fixed, al_late = late, al_normal = normal,
          al_principal = min (ob_principal_due ob) r3\<rparr>)"

definition projected_penalty :: "installment_row \<Rightarrow> cents" where
  "projected_penalty i = money (ins_fixed_penalty_amount i) + money (ins_late_interest_amount i)"

definition apply_allocation ::
    "instant \<Rightarrow> date \<Rightarrow> obligation \<Rightarrow> allocation \<Rightarrow> installment_row \<Rightarrow> installment_row" where
  "apply_allocation effective_at financial_date ob al i =
     (let i1 = i\<lparr>ins_paid_amount := ins_paid_amount i + (al_normal al + al_principal al),
            ins_paid_penalty_amount := ins_paid_penalty_amount i + (al_fixed al + al_late al)\<rparr>;
          i2 = (if ins_late_charge_version i1 = Some LATE_CHARGE_VERSION then
                  i1\<lparr>ins_paid_fixed_penalty_amount := Some (money (ins_paid_fixed_penalty_amount i1) + al_fixed al),
                     ins_paid_late_interest_amount := Some (money (ins_paid_late_interest_amount i1) + al_late al),
                     ins_penalty_amount := projected_penalty i1\<rparr>
                else i1)
      in if ob_total_due ob - al_applied al = 0 then i2\<lparr>ins_status := ''PAID'', ins_paid_at := Some (Aware effective_at)\<rparr>
         else i2\<lparr>ins_status := (if ins_due_date i2 < financial_date then ''OVERDUE'' else ''PARTIAL'')\<rparr>)"

definition post_positive ::
    "env \<Rightarrow> cents \<Rightarrow> string \<Rightarrow> string \<Rightarrow> 'a books_scheme \<Rightarrow> 'a books_scheme res" where
  "post_positive ev amount reference_type ref db =
     (if 0 < amount then post_credit (ev_ledger_hash ev) (ev_now ev) amount reference_type ref db else Inr db)"

text \<open>The loan after a versioned payment: completion, the payment's time as time of payment, one revision.\<close>

definition versioned_loan :: "env \<Rightarrow> instant \<Rightarrow> loan_row \<Rightarrow> 'a loan_tables_scheme \<Rightarrow> loan_row" where
  "versioned_loan ev effective_at l db =
     (let l1 = snd (ensure_loan_completion (ev_now ev) True l db)
      in touch_loan (if loan_status l1 = ''PAID'' then l1\<lparr>loan_paid_at := Some (Aware effective_at)\<rparr> else l1))"

definition settle_versioned ::
    "env \<Rightarrow> payment_row \<Rightarrow> cents \<Rightarrow> datetime option \<Rightarrow> loan_row \<Rightarrow> member_row \<Rightarrow> account_row \<Rightarrow> installment_row
      \<Rightarrow> 'a loan_tables_scheme \<Rightarrow> (('a loan_tables_scheme) loan_application) res" where
  "settle_versioned ev p received confirmed_at l member account inst0 db0 =
     (case confirmed_at of
        None \<Rightarrow> Inl (ValueError ''Settlement versionado de LoanInstallment exige confirmed_at explicito e confiavel.'')
      | Some t \<Rightarrow>
     res_bind (utc_strict t ''Settlement versionado de LoanInstallment exige confirmed_at timezone-aware.'') (\<lambda>effective_at.
     let financial_date = belem_date effective_at;
         before_status = installment_financial_status inst0 effective_at;
         vf = ev_verifier ev; ref = py_str (pay_id p)
     in res_bind (materialize_fixed_penalty vf (ins_id inst0) (Civil financial_date) (ev_effective_date ev) db0) (\<lambda>(_, db1).
     res_bind (materialize_daily_late_interest vf (ins_id inst0) (Civil financial_date) (ev_effective_date ev) db1) (\<lambda>(_, db2).
     res_bind (find_installment (ins_id inst0) db2) (\<lambda>inst.
     res_bind (loan_installment_obligation vf db2 inst (Civil financial_date)) (\<lambda>ob.
     let al = allocate_versioned ob received; penalty_applied = al_fixed al + al_late al;
         base_applied = al_normal al + al_principal al
     in if al_applied al \<le> 0 then
          Inl (ValueError ''Parcela versionada nao possui obrigacao vencida aplicavel.'')
        else if al_applied al \<noteq> base_applied + penalty_applied then
          Inl (ValueError ''Alocacao versionada nao fecha com o valor aplicado.'')
        else
     let inst' = apply_allocation effective_at financial_date ob al inst
     in res_bind (post_positive ev (al_normal al) ''LOAN_INTEREST_PAYMENT'' ref (put_installment inst' db2)) (\<lambda>db3.
     res_bind (post_positive ev penalty_applied ''LOAN_PENALTY_PAYMENT'' ref db3) (\<lambda>db4.
     res_bind (credit_principal (ev_now ev) member account (al_principal al) ref db4) (\<lambda>db5.
     let l' = versioned_loan ev effective_at l db5
     in Inr \<lparr>la_effective_at = effective_at, la_applied = al_applied al, la_principal = al_principal al,
          la_interest = al_normal al, la_penalty = penalty_applied,
          la_components = Some (al_normal al, al_late al, al_fixed al), la_status_before = before_status,
          la_status_after = ins_status inst', la_installment = inst', la_loan = l',
          la_payment = p\<lparr>pay_ledger_posted_at := Some (Aware (ev_now ev))\<rparr>, la_db = put_loan l' db5\<rparr>)))))))))"

definition settle_unversioned ::
    "env \<Rightarrow> payment_row \<Rightarrow> cents \<Rightarrow> instant \<Rightarrow> loan_row \<Rightarrow> member_row \<Rightarrow> account_row \<Rightarrow> installment_row
      \<Rightarrow> 'a loan_tables_scheme \<Rightarrow> (('a loan_tables_scheme) loan_application) res" where
  "settle_unversioned ev p received effective_at l member account inst db =
     (let before_penalty = ins_paid_penalty_amount inst; before_base = ins_paid_amount inst;
          before_status = installment_financial_status inst effective_at;
          interest_open = max 0 (ins_interest inst - min (ins_interest inst) before_base)
      in res_bind (apply_with_locks (ev_ledger_hash ev) (ev_now ev) p inst received l member account db)
           (\<lambda>(_, p', inst', l', db').
         let penalty_applied = ins_paid_penalty_amount inst' - before_penalty;
             base_applied = ins_paid_amount inst' - before_base;
             interest_applied = min base_applied interest_open
         in Inr \<lparr>la_effective_at = effective_at, la_applied = penalty_applied + base_applied,
              la_principal = max 0 (base_applied - interest_applied), la_interest = interest_applied,
              la_penalty = penalty_applied, la_components = None, la_status_before = before_status,
              la_status_after = installment_financial_status inst' effective_at, la_installment = inst',
              la_loan = l', la_payment = p', la_db = db'\<rparr>))"

definition loan_evidence_of :: "loan_row \<Rightarrow> installment_row \<Rightarrow> loan_evidence" where
  "loan_evidence_of l i = \<lparr>lev_loan_status = loan_status l, lev_loan_state_revision = loan_state_revision l,
     lev_loan_paid_at = loan_paid_at l, lev_installment_status = ins_status i, lev_installment_paid_at = ins_paid_at i\<rparr>"

definition effect_of_loan :: "member_row \<Rightarrow> loan_row \<Rightarrow> installment_row \<Rightarrow> 'db loan_application \<Rightarrow> effect" where
  "effect_of_loan member l inst la =
     \<lparr>ef_effective_at = la_effective_at la, ef_obligation_type = ''LOAN_INSTALLMENT'',
      ef_member_id = mem_id member, ef_contribution_id = None,
      ef_loan_installment_id = Some (ins_id (la_installment la)), ef_agreement_installment_id = None,
      ef_applied = la_applied la, ef_principal = la_principal la, ef_interest = la_interest la,
      ef_penalty = la_penalty la, ef_components = la_components la, ef_status_before = la_status_before la,
      ef_status_after = la_status_after la,
      ef_loan = Some (loan_evidence_of l inst, loan_evidence_of (la_loan la) (la_installment la)),
      ef_agreement = None, ef_credit = None\<rparr>"

definition settle_loan_installment ::
    "env \<Rightarrow> payment_row \<Rightarrow> cents \<Rightarrow> instant \<Rightarrow> datetime option \<Rightarrow> installment_row \<Rightarrow> 'a loan_tables_scheme
      \<Rightarrow> (effect \<times> payment_row \<times> 'a loan_tables_scheme) res" where
  "settle_loan_installment ev p received effective_at confirmed_at unlocked db0 =
     (case get_by loan_id (ins_loan_id unlocked) (db_loans db0) of
        None \<Rightarrow> Inl (ValueError ''Emprestimo da parcela nao encontrado.'')
      | Some unlocked_loan \<Rightarrow>
     res_bind (lock_member_financial_account (loan_member_id unlocked_loan) db0) (\<lambda>(member, account, db).
     res_bind (lock_loan (loan_id unlocked_loan) db) (\<lambda>l.
     res_bind (locked_installment p db) (\<lambda>found.
     case found of None \<Rightarrow> Inl (ValueError ''Parcela de emprestimo nao encontrada.'')
     | Some inst \<Rightarrow>
     res_bind (if is_late_charge_eligible (ins_due_date inst) (ev_effective_date ev)
          then settle_versioned ev p received confirmed_at l member account inst db
          else settle_unversioned ev p received effective_at l member account inst db) (\<lambda>la.
     if loan_state_revision (la_loan la) \<noteq> loan_state_revision l + 1 then
       Inl (ValueError ''Revisao do Loan invalida para settlement v4.'')
     else Inr (effect_of_loan member l inst la, la_payment la, la_db la))))))"

section \<open>The settlement row\<close>

definition OBLIGATION_STATUSES :: "string list" where
  "OBLIGATION_STATUSES = [''OPEN'', ''PENDING'', ''PARTIAL'', ''OVERDUE'', ''PAID'']"

definition LOAN_STATUSES :: "string list" where
  "LOAN_STATUSES = [''REQUESTED'', ''APPROVED'', ''REJECTED'', ''ACTIVE'', ''OVERDUE'', ''IN_COLLECTION'', ''PAID'', ''RESTRUCTURED'']"

text \<open>The table's constraints on the evidence of the three versions written here.\<close>

definition settlement_evidence_ok :: "settlement_row \<Rightarrow> bool" where
  "settlement_evidence_ok s \<longleftrightarrow>
     stl_status_before s \<in> set OBLIGATION_STATUSES \<and> stl_status_after s \<in> set OBLIGATION_STATUSES
   \<and> stl_receipt_version s \<in> set [''v1'', ''v4'', ''v5''] \<and> stl_financial_date s = None
   \<and> (stl_receipt_version s = ''v4'' \<longleftrightarrow> stl_obligation_type s = ''LOAN_INSTALLMENT'')
   \<and> (stl_receipt_version s = ''v5'' \<longleftrightarrow> stl_obligation_type s = ''AGREEMENT_INSTALLMENT'')
   \<and> (case (stl_loan_before s, stl_loan_after s) of
        (None, None) \<Rightarrow> stl_receipt_version s \<noteq> ''v4''
      | (Some b, Some a) \<Rightarrow> stl_receipt_version s = ''v4'' \<and> lev_loan_status b \<in> set LOAN_STATUSES
          \<and> lev_loan_status a \<in> set LOAN_STATUSES \<and> 0 \<le> lev_loan_state_revision b
          \<and> lev_loan_state_revision b < lev_loan_state_revision a
      | _ \<Rightarrow> False)
   \<and> (case (stl_agreement_before s, stl_agreement_after s) of
        (None, None) \<Rightarrow> stl_receipt_version s \<noteq> ''v5''
      | (Some b, Some a) \<Rightarrow> stl_receipt_version s = ''v5''
          \<and> aev_agreement_state_revision a = aev_agreement_state_revision b + 1
          \<and> 0 \<le> aev_paid_amount b \<and> 0 \<le> aev_paid_amount a \<and> 0 \<le> aev_paid_penalty_amount b \<and> 0 \<le> aev_paid_penalty_amount a
          \<and> aev_installment_status b \<in> {''OPEN'', ''PARTIAL'', ''PAID''} \<and> aev_installment_status a \<in> {''OPEN'', ''PARTIAL'', ''PAID''}
          \<and> aev_agreement_status b \<in> {''APPROVED'', ''SETTLED''} \<and> aev_agreement_status a \<in> {''APPROVED'', ''SETTLED''}
          \<and> aev_paid_amount a = aev_paid_amount b + stl_principal_applied s
          \<and> aev_paid_penalty_amount a = aev_paid_penalty_amount b + stl_penalty_applied s
      | _ \<Rightarrow> False)"

definition settlement_row_ok :: "settlement_row \<Rightarrow> bool" where
  "settlement_row_ok s \<longleftrightarrow> settlement_amounts_ok s \<and> settlement_components_ok s \<and> settlement_obligation_ok s
     \<and> settlement_evidence_ok s"

definition receipt_version_of :: "string \<Rightarrow> string" where
  "receipt_version_of obligation_type =
     (if obligation_type = ''LOAN_INSTALLMENT'' then ''v4''
      else if obligation_type = ''AGREEMENT_INSTALLMENT'' then ''v5'' else ''v1'')"

text \<open>The checks on the evidence before the row is written.\<close>

definition check_evidence :: "effect \<Rightarrow> unit res" where
  "check_evidence ef =
     (case ef_loan ef of
        Some (b, a) \<Rightarrow>
          if lev_loan_state_revision a \<noteq> lev_loan_state_revision b + 1 then
            Inl (ValueError ''Settlement v4 possui revisao do Loan invalida.'')
          else if lev_loan_status b = ''PAID'' \<or> lev_loan_paid_at b \<noteq> None then
            Inl (ValueError ''Settlement v4 possui paid_at_before incompativel.'')
          else if lev_loan_status a = ''PAID'' \<and> lev_loan_paid_at a = None then
            Inl (ValueError ''Settlement v4 exige paid_at_after ao fechar o Loan.'')
          else if lev_loan_status a \<noteq> ''PAID'' \<and> lev_loan_paid_at a \<noteq> None then
            Inl (ValueError ''Settlement v4 nao pode possuir paid_at_after fora de PAID.'')
          else Inr ()
      | None \<Rightarrow>
     (case ef_agreement ef of
        Some (b, a) \<Rightarrow>
          if aev_agreement_state_revision a \<noteq> aev_agreement_state_revision b + 1 then
            Inl (ValueError ''Settlement v5 possui revisao do Agreement invalida.'')
          else if aev_paid_amount a \<noteq> aev_paid_amount b + ef_principal ef then
            Inl (ValueError ''Settlement v5 possui equacao de paid_amount invalida.'')
          else if aev_paid_penalty_amount a \<noteq> aev_paid_penalty_amount b + ef_penalty ef then
            Inl (ValueError ''Settlement v5 possui equacao de paid_penalty_amount invalida.'')
          else Inr ()
      | None \<Rightarrow> Inr ()))"

definition settlement_of_effect ::
    "int \<Rightarrow> payment_row \<Rightarrow> cents \<Rightarrow> string \<Rightarrow> int option \<Rightarrow> effect \<Rightarrow> settlement_row" where
  "settlement_of_effect i p received confirmation_source webhook_event_id ef =
     (let version = receipt_version_of (ef_obligation_type ef)
      in \<lparr>stl_id = i, stl_payment_id = pay_id p, stl_member_id = ef_member_id ef,
          stl_obligation_type = ef_obligation_type ef, stl_contribution_id = ef_contribution_id ef,
          stl_loan_installment_id = ef_loan_installment_id ef, stl_agreement_installment_id = ef_agreement_installment_id ef,
          stl_amount_received = received, stl_amount_applied = ef_applied ef, stl_principal_applied = ef_principal ef,
          stl_interest_applied = ef_interest ef, stl_penalty_applied = ef_penalty ef,
          stl_component_version = (if ef_components ef = None then None else Some COMPONENT_VERSION),
          stl_normal_interest_applied = map_option fst (ef_components ef),
          stl_late_interest_applied = map_option (\<lambda>c. fst (snd c)) (ef_components ef),
          stl_fixed_penalty_applied = map_option (\<lambda>c. snd (snd c)) (ef_components ef),
          stl_excess_amount = received - ef_applied ef, stl_status_before = ef_status_before ef,
          stl_status_after = ef_status_after ef, stl_confirmed_at = Aware (ef_effective_at ef), stl_financial_date = None,
          stl_confirmation_source = confirmation_source, stl_webhook_event_id = webhook_event_id,
          stl_receipt_number = ''PIX-'' @ py_upper version @ ''-'' @ pad12 (pay_id p), stl_receipt_version = version,
          stl_receipt_snapshot = None, stl_receipt_hash = [],
          stl_loan_before = map_option fst (ef_loan ef), stl_loan_after = map_option snd (ef_loan ef),
          stl_agreement_before = map_option fst (ef_agreement ef), stl_agreement_after = map_option snd (ef_agreement ef)\<rparr>)"

text \<open>Flushing the row: its constraints, and the unique payment and receipt number.\<close>

definition insert_settlement :: "settlement_row \<Rightarrow> 'a loan_tables_scheme \<Rightarrow> ('a loan_tables_scheme) res" where
  "insert_settlement s db =
     (if \<not> settlement_row_ok s
         \<or> list_ex (\<lambda>x. stl_payment_id x = stl_payment_id s \<or> stl_receipt_number x = stl_receipt_number s) (db_settlements db)
      then Inl (IntegrityError ''payment_settlements'')
      else Inr (db\<lparr>db_settlements := db_settlements db @ [s]\<rparr>))"

definition put_settlement :: "settlement_row \<Rightarrow> 'a loan_tables_scheme \<Rightarrow> 'a loan_tables_scheme" where
  "put_settlement s db = db\<lparr>db_settlements := put_by stl_id s (db_settlements db)\<rparr>"

text \<open>A versioned settlement takes back late interest accrued past its date.\<close>

definition adjust_late_interest :: "env \<Rightarrow> settlement_row \<Rightarrow> 'a loan_tables_scheme \<Rightarrow> ('a loan_tables_scheme) res" where
  "adjust_late_interest ev s db =
     (if stl_component_version s = None then Inr db
      else res_bind (materialize_settlement_late_interest_adjustment (ev_verifier ev) (stl_id s) db) (\<lambda>(_, db1).
        case stl_loan_installment_id s of None \<Rightarrow> Inr db1
        | Some i \<Rightarrow> res_bind (find_installment i db1) (\<lambda>inst.
            Inr (if ins_late_charge_version inst = Some LATE_CHARGE_VERSION
                 then put_installment (inst\<lparr>ins_penalty_amount := projected_penalty inst\<rparr>) db1 else db1))))"

definition contribution_credit_request :: "settlement_row \<Rightarrow> contribution_row \<Rightarrow> account_row \<Rightarrow> entry_request" where
  "contribution_credit_request s c account =
     \<lparr>rq_entry_type = ''CONTRIBUTION'', rq_direction = ''CREDIT'', rq_amount = dec (con_amount c),
      rq_reference_type = Some ''PAYMENT_SETTLEMENT'', rq_reference_id = Some (py_str (stl_id s)),
      rq_account = Some account, rq_contribution_id = Some (con_id c), rq_settlement_id = Some (stl_id s)\<rparr>"

definition credit_contribution :: "env \<Rightarrow> settlement_row \<Rightarrow> effect \<Rightarrow> 'a books_scheme \<Rightarrow> 'a books_scheme res" where
  "credit_contribution ev s ef db =
     (case ef_credit ef of None \<Rightarrow> Inr db
      | Some (member, account, c) \<Rightarrow>
          res_bind (add_member_financial_entry (ev_now ev) member (contribution_credit_request s c account) db)
            (\<lambda>(_, db'). Inr db'))"

text \<open>A confirmed attempt whose creation was left unknown gives its slot back.\<close>

definition canonical_confirmation :: "string \<Rightarrow> json option \<Rightarrow> payment_row \<Rightarrow> bool" where
  "canonical_confirmation confirmation_source remote p \<longleftrightarrow>
     confirmation_source = ''WEBHOOK'' \<and> (case remote of None \<Rightarrow> False
       | Some doc \<Rightarrow> is_dict doc \<and> (pay_status p = ''approved''
           \<or> pay_status p = ''processed'' \<and> json_get ''status_detail'' doc = Some (JStr ''accredited'')))"

definition release_attempt :: "string \<Rightarrow> json option \<Rightarrow> string \<Rightarrow> effect \<Rightarrow> payment_row \<Rightarrow> payment_row" where
  "release_attempt confirmation_source remote reference_type ef p =
     (if ef_obligation_type ef \<in> {''CONTRIBUTION'', ''AGREEMENT_INSTALLMENT''} \<and> reference_type = ef_obligation_type ef
         \<and> truthy (pay_provider_order_id p) \<and> truthy (pay_provider_payment_id p) \<and> 0 < ef_applied ef
         \<and> canonical_confirmation confirmation_source remote p \<and> pay_attempt_status p = Some ''PENDING''
         \<and> opt_in (pay_reconciliation_status p) {''PROVIDER_CREATE_UNKNOWN'', ''RECONCILIATION_REQUIRED''}
      then p\<lparr>pay_attempt_status := None, pay_reconciliation_status := None\<rparr> else p)"

section \<open>Settling a payment\<close>

text \<open>The obligation a payment names, and what applying the payment to it does.\<close>

definition apply_to_obligation ::
    "env \<Rightarrow> payment_row \<Rightarrow> cents \<Rightarrow> instant \<Rightarrow> datetime option \<Rightarrow> json option \<Rightarrow> 'a database_scheme
      \<Rightarrow> (effect \<times> payment_row \<times> 'a database_scheme) res" where
  "apply_to_obligation ev p received effective_at confirmed_at remote db =
     res_bind (locked_contribution p db) (\<lambda>contribution.
     res_bind (locked_installment p db) (\<lambda>installment.
     if py_upper (py_strip (text_or_empty (pay_reference_type p))) = ''AGREEMENT_INSTALLMENT'' then
       if \<not> agreement_confirmed p remote then
         Inl (ValueError ''Pagamento de acordo sem confirmacao financeira valida.'')
       else if \<not> isdigit (text_or_empty (pay_reference_id p)) then
         Inl (ValueError ''Referencia de parcela de acordo invalida.'')
       else
       res_bind (one_or_none (filter (\<lambda>x. agi_id x = py_int (text_or_empty (pay_reference_id p)))
           (db_agreement_installments db))) (\<lambda>locator.
       res_bind (case locator of None \<Rightarrow> Inr None
           | Some x \<Rightarrow> res_bind (lock_collection_agreement (agi_agreement_id x) db) (\<lambda>a. Inr (Some a))) (\<lambda>agreement.
       res_bind (locked_agreement_installment p db) (\<lambda>item.
       case (item, agreement) of
         (None, _) \<Rightarrow> Inl (ValueError ''Referencia de parcela de acordo invalida.'')
       | (Some _, None) \<Rightarrow> Inl (ValueError ''Acordo da parcela nao encontrado.'')
       | (Some i, Some a) \<Rightarrow> settle_agreement ev p received effective_at a i db)))
     else case (contribution, installment) of
       (Some c, None) \<Rightarrow> settle_contribution ev p received effective_at c db
     | (None, Some i) \<Rightarrow> settle_loan_installment ev p received effective_at confirmed_at i db
     | _ \<Rightarrow> Inl (ValueError ''Pagamento deve referenciar exatamente uma contribuicao ou parcela de emprestimo.'')))"

definition finish_settlement ::
    "env \<Rightarrow> cents \<Rightarrow> string \<Rightarrow> int option \<Rightarrow> json option \<Rightarrow> effect \<Rightarrow> payment_row \<Rightarrow> 'a database_scheme
      \<Rightarrow> (settlement_row \<times> 'a database_scheme) res" where
  "finish_settlement ev received confirmation_source webhook_event_id remote ef p0 db0 =
     (let p1 = p0\<lparr>pay_amount_received := Some received,
            pay_confirmed_at := (case pay_confirmed_at p0 of None \<Rightarrow> Some (Aware (ef_effective_at ef)) | Some t \<Rightarrow> Some t)\<rparr>;
          p2 = (persist_remote_payload ev remote p1)\<lparr>pay_ledger_posted_at := Some (Aware (ev_now ev))\<rparr>
      in res_bind (check_evidence ef) (\<lambda>_.
         let s = settlement_of_effect (next_id stl_id (db_settlements db0)) p2 received confirmation_source webhook_event_id ef
         in res_bind (insert_settlement s (put_payment p2 db0)) (\<lambda>db1.
            res_bind (adjust_late_interest ev s db1) (\<lambda>db2.
            res_bind (credit_contribution ev s ef db2) (\<lambda>db3.
            let snapshot = receipt_snapshot p2 s (ledger_snapshot db3 (pay_id p2));
                s' = s\<lparr>stl_receipt_snapshot := Some snapshot, stl_receipt_hash := ev_receipt_hash ev snapshot\<rparr>
            in if list_ex (\<lambda>x. stl_id x \<noteq> stl_id s \<and> stl_receipt_hash x = stl_receipt_hash s') (db_settlements db3)
               then Inl (IntegrityError ''payment_settlements.receipt_hash'')
               else
            let p3 = release_attempt confirmation_source remote
                  (py_upper (py_strip (text_or_empty (pay_reference_type p2)))) ef p2
            in Inr (s', put_payment p3 (put_settlement s' db3)))))))"

definition to_utc :: "datetime \<Rightarrow> instant" where
  "to_utc t = stored_utc t"

definition settle_confirmed_pix_payment ::
    "env \<Rightarrow> int \<Rightarrow> string \<Rightarrow> int option \<Rightarrow> json option \<Rightarrow> datetime option \<Rightarrow> 'a database_scheme
      \<Rightarrow> (settlement_row \<times> 'a database_scheme) res" where
  "settle_confirmed_pix_payment ev payment_id confirmation_source webhook_event_id remote confirmed_at db =
     (if confirmation_source = [] then Inl (ValueError ''Origem da confirmacao e obrigatoria.'')
      else
     res_bind (lock_payment payment_id db) (\<lambda>p.
     res_bind (lock_payment_settlement (pay_id p) db) (\<lambda>existing.
     case existing of Some s \<Rightarrow> Inr (s, db)
     | None \<Rightarrow>
     if py_upper (py_strip (text_or_empty (pay_reference_type p))) = ''AGREEMENT_INSTALLMENT''
        \<and> (pay_ledger_posted_at p \<noteq> None \<or> legacy_agreement_ledger_exists (pay_id p) db) then
       Inl (ValueError ''Pagamento legado de acordo ja lancado nao pode receber settlement retroativo.'')
     else if pay_ledger_posted_at p \<noteq> None then
       Inl (ValueError ''Pagamento legado ja lancado nao pode ser relancado sem recibo de liquidacao.'')
     else
     let effective_at = (case confirmed_at of Some t \<Rightarrow> to_utc t
            | None \<Rightarrow> (case pay_confirmed_at p of Some t \<Rightarrow> to_utc t | None \<Rightarrow> ev_now ev));
         received = (case pay_amount_received p of Some a \<Rightarrow> a | None \<Rightarrow> pay_amount p)
     in if received < 0 then Inl (ValueError ''Valor confirmado nao pode ser negativo.'')
     else res_bind (apply_to_obligation ev p received effective_at confirmed_at remote db) (\<lambda>(ef, p', db').
          finish_settlement ev received confirmation_source webhook_event_id remote ef p' db'))))"

end
