(* ===== verification/Settlement_Properties.thy ===== *)
theory Settlement_Properties
  imports Payment_Settlement Loan_Payment_Properties Agreement_Properties
begin

text \<open>
  What the settlement of a confirmed payment promises: the amounts of its row satisfy the table's
  constraints, the books grow by exactly what was applied, and a payment is settled once.
\<close>

section \<open>What the branches leave alone\<close>

text \<open>The tables that assessing late charges does not touch.\<close>

definition keeps_books :: "'a loan_tables_scheme \<Rightarrow> 'a loan_tables_scheme \<Rightarrow> bool" where
  "keeps_books db db' \<longleftrightarrow> db_settlements db' = db_settlements db \<and> db_payments db' = db_payments db
     \<and> db_loans db' = db_loans db \<and> db_ledger db' = db_ledger db \<and> db_entries db' = db_entries db
     \<and> db_accounts db' = db_accounts db \<and> db_members db' = db_members db \<and> db_reversals db' = db_reversals db
     \<and> loan_tables.more db' = loan_tables.more db"

named_theorems keeps \<open>operations that keep the books\<close>

lemma keeps_books_refl [simp]: "keeps_books db db"
  by (simp add: keeps_books_def)

lemma keeps_books_trans [trans]: "keeps_books a b \<Longrightarrow> keeps_books b c \<Longrightarrow> keeps_books a c"
  by (simp add: keeps_books_def)

lemma keeps_put_installment [simp]: "keeps_books db (put_installment i db)"
  by (simp add: keeps_books_def put_installment_def)

lemma insert_event_keeps [keeps]: "insert_unique_event v db = Inr (e, b, db') \<Longrightarrow> keeps_books db db'"
  by (auto simp: insert_unique_event_def res_bind_eq_Inr keeps_books_def Let_def split: option.splits if_splits)

lemma keeps_then_put: "keeps_books db db' \<Longrightarrow> keeps_books db (put_installment i db')"
  by (simp add: keeps_books_def put_installment_def)

lemma fixed_penalty_keeps [keeps]:
  "materialize_fixed_penalty vf i t d db = Inr (e, db') \<Longrightarrow> keeps_books db db'"
  by (auto simp: materialize_fixed_penalty_def res_bind_eq_Inr Let_def split: if_splits option.splits
      intro: keeps_then_put dest!: insert_event_keeps)

lemma accrual_step_keeps:
  "accrual_step i deltas start x acc = Inr acc' \<Longrightarrow> keeps_books (ac_db acc) (ac_db acc')"
  by (auto simp: accrual_step_def res_bind_eq_Inr Let_def split: if_splits prod.splits dest!: insert_event_keeps)

lemma late_interest_keeps [keeps]:
  assumes "materialize_daily_late_interest vf i t d db = Inr (es, db')"
  shows "keeps_books db db'"
proof -
  have loop: "keeps_books db (ac_db acc)"
    if "fold_res (accrual_step j deltas start) rows \<lparr>ac_created = [], ac_running = 0, ac_db = db\<rparr> = Inr acc" for j deltas start rows acc
    by (rule fold_res_invariant [OF that]) (auto intro: keeps_books_trans accrual_step_keeps)
  have "db' = db \<or> (\<exists>j deltas start rows acc inst. fold_res (accrual_step j deltas start) rows
      \<lparr>ac_created = [], ac_running = 0, ac_db = db\<rparr> = Inr acc \<and> project_accrual inst (ac_db acc) = Inr db')"
    using assms by (auto simp: materialize_daily_late_interest_def res_bind_eq_Inr Let_def split: if_splits)
  moreover have "keeps_books x y" if "project_accrual inst x = Inr y" for inst and x y :: "'a loan_tables_scheme"
    using that by (auto simp: project_accrual_def res_bind_eq_Inr Let_def)
  ultimately show ?thesis by (auto intro: keeps_books_trans [OF loop])
qed

lemma adjustment_keeps [keeps]:
  "materialize_adjustment vf inst et d s r db = Inr (e, db') \<Longrightarrow> keeps_books db db'"
  by (auto simp: materialize_adjustment_def res_bind_eq_Inr Let_def split: if_splits option.splits
      intro: keeps_then_put dest!: insert_event_keeps)

lemma settlement_adjustment_keeps [keeps]:
  "materialize_settlement_late_interest_adjustment vf i db = Inr (e, db') \<Longrightarrow> keeps_books db db'"
  by (auto simp: materialize_settlement_late_interest_adjustment_def res_bind_eq_Inr Let_def split: if_splits
      dest!: adjustment_keeps)

lemma adjust_keeps [keeps]: "adjust_late_interest ev s db = Inr db' \<Longrightarrow> keeps_books db db'"
  by (auto simp: adjust_late_interest_def res_bind_eq_Inr split: if_splits option.splits
      intro: keeps_then_put dest!: settlement_adjustment_keeps)

section \<open>Amounts\<close>

definition effect_ok :: "cents \<Rightarrow> effect \<Rightarrow> bool" where
  "effect_ok received ef \<longleftrightarrow> ef_applied ef \<le> received \<and> 0 \<le> ef_principal ef \<and> 0 \<le> ef_interest ef \<and> 0 \<le> ef_penalty ef
     \<and> ef_applied ef = ef_principal ef + ef_interest ef + ef_penalty ef
     \<and> (case ef_components ef of None \<Rightarrow> True
        | Some (n, l, f) \<Rightarrow> ef_obligation_type ef = ''LOAN_INSTALLMENT'' \<and> 0 \<le> n \<and> 0 \<le> l \<and> 0 \<le> f
            \<and> ef_interest ef = n \<and> ef_penalty ef = l + f)
     \<and> (ef_obligation_type ef = ''CONTRIBUTION'' \<and> ef_contribution_id ef \<noteq> None
            \<and> ef_loan_installment_id ef = None \<and> ef_agreement_installment_id ef = None
        \<or> ef_obligation_type ef = ''LOAN_INSTALLMENT'' \<and> ef_contribution_id ef = None
            \<and> ef_loan_installment_id ef \<noteq> None \<and> ef_agreement_installment_id ef = None
        \<or> ef_obligation_type ef = ''AGREEMENT_INSTALLMENT'' \<and> ef_contribution_id ef = None
            \<and> ef_loan_installment_id ef = None \<and> ef_agreement_installment_id ef \<noteq> None \<and> ef_interest ef = 0)"

lemma effect_ok_row:
  assumes "effect_ok received ef" "0 \<le> received"
  shows "settlement_amounts_ok (settlement_of_effect i p received src w ef)
    \<and> settlement_components_ok (settlement_of_effect i p received src w ef)
    \<and> settlement_obligation_ok (settlement_of_effect i p received src w ef)"
proof (intro conjI)
  show "settlement_amounts_ok (settlement_of_effect i p received src w ef)"
    using assms by (simp add: effect_ok_def settlement_of_effect_def Let_def settlement_amounts_ok_def)
  show "settlement_components_ok (settlement_of_effect i p received src w ef)"
    using assms by (cases "ef_components ef")
      (auto simp: effect_ok_def settlement_of_effect_def Let_def settlement_components_ok_def COMPONENT_VERSION_def)
  show "settlement_obligation_ok (settlement_of_effect i p received src w ef)"
    using assms unfolding effect_ok_def settlement_obligation_ok_def
    by (simp add: settlement_of_effect_def Let_def)
qed

text \<open>The versioned allocation: what is paid is spread in the order of the code without remainder.\<close>

lemma obligation_sum:
  assumes "loan_installment_obligation vf db inst t = Inr ob"
  shows "0 \<le> ob_fixed_penalty_due ob \<and> 0 \<le> ob_late_interest_due ob \<and> 0 \<le> ob_normal_interest_due ob
    \<and> 0 \<le> ob_principal_due ob \<and> ob_total_due ob =
      ob_principal_due ob + ob_normal_interest_due ob + ob_fixed_penalty_due ob + ob_late_interest_due ob"
  using assms by (auto simp: loan_installment_obligation_def res_bind_eq_Inr Let_def split: if_splits)

lemma allocate_sum:
  assumes "0 \<le> received" "0 \<le> ob_fixed_penalty_due ob" "0 \<le> ob_late_interest_due ob" "0 \<le> ob_normal_interest_due ob"
    "0 \<le> ob_principal_due ob" "ob_total_due ob =
      ob_principal_due ob + ob_normal_interest_due ob + ob_fixed_penalty_due ob + ob_late_interest_due ob"
  shows "al_applied (allocate_versioned ob received) = min received (ob_total_due ob)"
    and "0 \<le> al_fixed (allocate_versioned ob received)" "0 \<le> al_late (allocate_versioned ob received)"
    and "0 \<le> al_normal (allocate_versioned ob received)" "0 \<le> al_principal (allocate_versioned ob received)"
    and "al_fixed (allocate_versioned ob received) + al_late (allocate_versioned ob received)
      + al_normal (allocate_versioned ob received) + al_principal (allocate_versioned ob received)
      = al_applied (allocate_versioned ob received)"
  using assms unfolding allocate_versioned_def Let_def allocation.simps by linarith+

lemma agreement_parts_bounds:
  assumes "agreement_parts received i = (pen, princ)" "0 \<le> received"
  shows "0 \<le> pen \<and> 0 \<le> princ \<and> pen + princ = min received (agreement_balance i)
    \<and> pen \<le> max 0 (agi_penalty_amount i - agi_paid_penalty_amount i)
    \<and> princ \<le> max 0 (agi_principal i - agi_paid_amount i)
    \<and> (0 < princ \<longrightarrow> pen = max 0 (agi_penalty_amount i - agi_paid_penalty_amount i))"
  using assms unfolding agreement_parts_def agreement_balance_def Let_def prod.inject by linarith

definition agreement_run ::
    "env \<Rightarrow> payment_row \<Rightarrow> cents \<Rightarrow> instant \<Rightarrow> agreement_row \<Rightarrow> agreement_installment_row \<Rightarrow> 'a database_scheme \<Rightarrow> effect
      \<Rightarrow> payment_row \<Rightarrow> 'a database_scheme \<Rightarrow> cents \<Rightarrow> cents \<Rightarrow> member_row \<Rightarrow> ledger_row \<Rightarrow> bool" where
  "agreement_run ev p received t a i db ef p' db' pen princ m e \<longleftrightarrow>
     (let i' = pay_agreement_installment t pen princ i;
          db1 = put_agreement_installment i' (db\<lparr>db_ledger := db_ledger db @ [e]\<rparr>);
          a' = paid_agreement a (filter (\<lambda>x. agi_agreement_id x = agr_id a) (db_agreement_installments db1))
      in get_by mem_id (agr_member_id a) (db_members db) = Some m \<and> agreement_parts received i = (pen, princ)
       \<and> 0 < min received (agreement_balance i)
       \<and> post_entry (ev_ledger_hash ev) (ev_now ev) ''CAIXINHA'' ''CREDIT'' (dec (pen + princ))
           ''AGREEMENT_INSTALLMENT_PAYMENT'' (py_str (pay_id p)) None (db_ledger db) = Inr (e, db_ledger db @ [e])
       \<and> ef = effect_of_agreement t m pen princ i i' a a' \<and> p' = p \<and> db' = put_agreement a' db1)"

lemma settle_agreement_run:
  assumes "settle_agreement ev p received t a i db = Inr (ef, p', db')"
  obtains pen princ m e where "agreement_run ev p received t a i db ef p' db' pen princ m e"
proof -
  from assms obtain m where m: "get_by mem_id (agr_member_id a) (db_members db) = Some m"
    by (auto simp: settle_agreement_def split: option.splits)
  obtain pen princ where parts: "agreement_parts received i = (pen, princ)" by fastforce
  note run = assms [unfolded settle_agreement_def m option.case parts Let_def prod.case]
  from run show thesis
  proof (elim if_Inl_InrE res_bind_InrE, goal_cases)
    case (1 x)
    then obtain e where "x = (e, db_ledger db @ [e])" using post_entry_Inr by (cases x) blast
    with 1 m parts have "agreement_run ev p received t a i db ef p' db' pen princ m e"
      by (simp add: agreement_run_def Let_def min_le_iff_disj)
    then show ?case by (rule that)
  qed
qed

lemma settle_agreement_ok:
  assumes "settle_agreement ev p received t a i db = Inr (ef, p', db')" "0 \<le> received"
  shows "effect_ok received ef"
  using assms(1)
proof (rule settle_agreement_run)
  fix pen princ m e
  assume "agreement_run ev p received t a i db ef p' db' pen princ m e"
  then have "agreement_parts received i = (pen, princ)" and ef: "\<exists>i' a'. ef = effect_of_agreement t m pen princ i i' a a'"
    by (auto simp: agreement_run_def Let_def)
  from agreement_parts_bounds [OF this(1) assms(2)] have "0 \<le> pen" "0 \<le> princ" "pen + princ \<le> received" by simp_all
  with ef show "effect_ok received ef" by (auto simp: effect_ok_def effect_of_agreement_def)
qed

definition contribution_run ::
    "env \<Rightarrow> payment_row \<Rightarrow> cents \<Rightarrow> instant \<Rightarrow> 'a database_scheme \<Rightarrow> effect \<Rightarrow> payment_row \<Rightarrow> 'a database_scheme
      \<Rightarrow> member_row \<Rightarrow> account_row \<Rightarrow> 'a database_scheme \<Rightarrow> contribution_row \<Rightarrow> cents \<Rightarrow> ledger_row list \<Rightarrow> bool" where
  "contribution_run ev p received t db0 ef p' db' m a db c applied ledger \<longleftrightarrow>
     (let c' = pay_contribution t (contribution_paid_amount c + applied) c
      in lock_member_financial_account (con_member_id c) db0 = Inr (m, a, db)
       \<and> locked_contribution p db = Inr (Some c) \<and> con_cancelled_at c = None
       \<and> applied = min received (max 0 (con_amount c - contribution_paid_amount c))
       \<and> (if 0 < applied then post_contribution_payment (ev_ledger_hash ev) (ev_now ev) p (Some applied) (db_ledger db)
          else Inr (p, db_ledger db)) = Inr (p', ledger)
       \<and> ef = effect_of_contribution t m a applied (contribution_financial_status c (contribution_paid_amount c) t) c'
       \<and> db' = put_contribution c' (db\<lparr>db_ledger := ledger\<rparr>))"

lemma settle_contribution_run:
  assumes "settle_contribution ev p received t c0 db0 = Inr (ef, p', db')"
  obtains m a db c applied ledger where "contribution_run ev p received t db0 ef p' db' m a db c applied ledger"
  using assms unfolding settle_contribution_def
proof (elim res_bind_InrE, goal_cases)
  case (1 x)
  obtain m a db where x: "x = (m, a, db)" by (cases x) auto
  from 1(3) [unfolded x prod.case] show ?case
  proof (elim res_bind_InrE, goal_cases)
    case (1 found)
    then obtain c where c: "found = Some c" by (cases found) auto
    from 1(2) [unfolded c option.case Let_def] show ?case
    proof (elim if_Inl_InrE res_bind_InrE, goal_cases)
      case (1 y)
      have "mem_id m = con_member_id c0"
        using lock_account_effect \<open>lock_member_financial_account (con_member_id c0) db0 = Inr x\<close> x by blast
      with 1 have "contribution_run ev p received t db0 ef p' db' m a db c
          (min received (max 0 (con_amount c - contribution_paid_amount c))) (snd y)"
        using \<open>lock_member_financial_account (con_member_id c0) db0 = Inr x\<close> \<open>locked_contribution p db = Inr found\<close> x c
        by (cases y) (simp add: contribution_run_def Let_def)
      then show ?case by (rule that)
    qed
  qed
qed

lemma settle_contribution_ok:
  assumes "settle_contribution ev p received t c db = Inr (ef, p', db')" "0 \<le> received"
  shows "effect_ok received ef"
  using assms(1)
proof (rule settle_contribution_run)
  fix m a d c applied ledger
  assume "contribution_run ev p received t db ef p' db' m a d c applied ledger"
  then show "effect_ok received ef" using assms(2)
    by (auto simp: contribution_run_def Let_def effect_ok_def effect_of_contribution_def)
qed

definition application_ok :: "cents \<Rightarrow> 'db loan_application \<Rightarrow> bool" where
  "application_ok received la \<longleftrightarrow> la_applied la \<le> received \<and> 0 \<le> la_principal la \<and> 0 \<le> la_interest la \<and> 0 \<le> la_penalty la
     \<and> la_applied la = la_principal la + la_interest la + la_penalty la
     \<and> (case la_components la of None \<Rightarrow> True
        | Some (n, l, f) \<Rightarrow> 0 \<le> n \<and> 0 \<le> l \<and> 0 \<le> f \<and> la_interest la = n \<and> la_penalty la = l + f)"

text \<open>A versioned application that succeeded, step by step.\<close>

definition versioned_run ::
    "env \<Rightarrow> payment_row \<Rightarrow> cents \<Rightarrow> datetime \<Rightarrow> loan_row \<Rightarrow> member_row \<Rightarrow> account_row \<Rightarrow> installment_row
      \<Rightarrow> 'a loan_tables_scheme \<Rightarrow> ('a loan_tables_scheme) loan_application \<Rightarrow> instant \<Rightarrow> 'a loan_tables_scheme \<Rightarrow> installment_row
      \<Rightarrow> obligation \<Rightarrow> 'a loan_tables_scheme \<Rightarrow> 'a loan_tables_scheme \<Rightarrow> 'a loan_tables_scheme \<Rightarrow> bool" where
  "versioned_run ev p received conf l m a inst db la t db2 i ob db3 db4 db5 \<longleftrightarrow>
     (let al = allocate_versioned ob received; i' = apply_allocation t (belem_date t) ob al i; ref = py_str (pay_id p)
      in conf = Aware t \<and> keeps_books db db2 \<and> find_installment (ins_id inst) db2 = Inr i
       \<and> loan_installment_obligation (ev_verifier ev) db2 i (Civil (belem_date t)) = Inr ob \<and> 0 < al_applied al
       \<and> post_positive ev (al_normal al) ''LOAN_INTEREST_PAYMENT'' ref (put_installment i' db2) = Inr db3
       \<and> post_positive ev (al_fixed al + al_late al) ''LOAN_PENALTY_PAYMENT'' ref db3 = Inr db4
       \<and> credit_principal (ev_now ev) m a (al_principal al) ref db4 = Inr db5
       \<and> la = \<lparr>la_effective_at = t, la_applied = al_applied al, la_principal = al_principal al,
          la_interest = al_normal al, la_penalty = al_fixed al + al_late al,
          la_components = Some (al_normal al, al_late al, al_fixed al),
          la_status_before = installment_financial_status inst t,
          la_status_after = ins_status i', la_installment = i', la_loan = versioned_loan ev t l db5,
          la_payment = p\<lparr>pay_ledger_posted_at := Some (Aware (ev_now ev))\<rparr>, la_db = put_loan (versioned_loan ev t l db5) db5\<rparr>)"

lemma utc_strict_Inr: "utc_strict d msg = Inr t \<longleftrightarrow> d = Aware t"
  by (cases d) auto

lemma settle_versioned_run:
  assumes "settle_versioned ev p received conf l m a inst db = Inr la"
  obtains c t db2 i ob db3 db4 db5 where "conf = Some c" "versioned_run ev p received c l m a inst db la t db2 i ob db3 db4 db5"
proof -
  from assms obtain c where c: "conf = Some c" by (auto simp: settle_versioned_def split: option.splits)
  note run = assms [unfolded settle_versioned_def c option.case Let_def]
  from run show thesis
  proof (elim res_bind_InrE, goal_cases)
    case (1 t x)
    then obtain e1 db1 where "x = (e1, db1)" by fastforce
    with 1 show ?case
    proof (simp, elim res_bind_InrE, goal_cases)
      case (1 y)
      then obtain e2 db2 where y: "y = (e2, db2)" by fastforce
      with 1 show ?case
      proof (simp, elim res_bind_InrE if_Inl_InrE, goal_cases)
        case (1 i ob db3 db4 db5)
        then have "keeps_books db db2" using fixed_penalty_keeps late_interest_keeps keeps_books_trans by blast
        with 1 have "versioned_run ev p received c l m a inst db la t db2 i ob db3 db4 db5"
          by (simp add: versioned_run_def utc_strict_Inr Let_def)
        with c show ?case by (rule that)
      qed
    qed
  qed
qed

lemma settle_versioned_ok:
  assumes "settle_versioned ev p received conf l m a inst db = Inr la" "0 \<le> received"
  shows "application_ok received la"
  using assms(1)
proof (rule settle_versioned_run)
  fix c t db2 i ob db3 db4 db5
  assume "versioned_run ev p received c l m a inst db la t db2 i ob db3 db4 db5"
  then have ob: "loan_installment_obligation (ev_verifier ev) db2 i (Civil (belem_date t)) = Inr ob"
    and la: "la_applied la = al_applied (allocate_versioned ob received)" "la_principal la = al_principal (allocate_versioned ob received)"
      "la_interest la = al_normal (allocate_versioned ob received)"
      "la_penalty la = al_fixed (allocate_versioned ob received) + al_late (allocate_versioned ob received)"
      "la_components la = Some (al_normal (allocate_versioned ob received), al_late (allocate_versioned ob received),
         al_fixed (allocate_versioned ob received))"
    by (simp_all add: versioned_run_def Let_def)
  from obligation_sum [OF ob] allocate_sum [OF assms(2), of ob] show "application_ok received la"
    by (auto simp: application_ok_def la)
qed

lemma apply_payment_paid:
  assumes "apply_payment now inst amount = (r, inst')"
  shows "ins_paid_penalty_amount inst' = ins_paid_penalty_amount inst + ap_penalty_applied r
    \<and> ins_paid_amount inst' = ins_paid_amount inst + ap_base_applied r"
  using assms by (auto simp: apply_payment_def Let_def)

lemma apply_with_locks_installment:
  assumes "apply_with_locks hash now p inst amount l m a db = Inr (ok, p', inst', l', db')" "pay_ledger_posted_at p = None"
  shows "inst' = snd (apply_payment now inst (dec amount))"
  using assms by (auto simp: apply_with_locks_def Let_def res_bind_eq_Inr split: prod.splits if_splits)

lemma settle_unversioned_ok:
  assumes "settle_unversioned ev p received t l m a inst db = Inr la" "0 \<le> received" "pay_ledger_posted_at p = None"
  shows "application_ok received la"
proof -
  obtain r inst' where r: "apply_payment (ev_now ev) inst (dec received) = (r, inst')" by fastforce
  obtain pen base where parts: "paid_parts inst (cents (dec received)) = (pen, base)" by fastforce
  have c: "0 \<le> cents (dec received)" using assms(2) by simp
  note run = apply_payment_run [OF r parts c] and b = paid_parts_bounds [OF c parts] and paid = apply_payment_paid [OF r]
  from assms(1) obtain x where x: "apply_with_locks (ev_ledger_hash ev) (ev_now ev) p inst received l m a db = Inr x"
    and la: "la = (case x of (_, p', i, l', db') \<Rightarrow>
       \<lparr>la_effective_at = t, la_applied = (ins_paid_penalty_amount i - ins_paid_penalty_amount inst) + (ins_paid_amount i - ins_paid_amount inst),
        la_principal = max 0 ((ins_paid_amount i - ins_paid_amount inst)
          - min (ins_paid_amount i - ins_paid_amount inst) (max 0 (ins_interest inst - min (ins_interest inst) (ins_paid_amount inst)))),
        la_interest = min (ins_paid_amount i - ins_paid_amount inst) (max 0 (ins_interest inst - min (ins_interest inst) (ins_paid_amount inst))),
        la_penalty = ins_paid_penalty_amount i - ins_paid_penalty_amount inst, la_components = None,
        la_status_before = installment_financial_status inst t, la_status_after = installment_financial_status i t,
        la_installment = i, la_loan = l', la_payment = p', la_db = db'\<rparr>)"
    by (auto simp: settle_unversioned_def res_bind_eq_Inr Let_def)
  obtain ok p' i l' db' where x': "x = (ok, p', i, l', db')" by (cases x) auto
  have "i = inst'" using apply_with_locks_installment [OF x [unfolded x'] assms(3)] r by simp
  with b paid run show ?thesis
    by (auto simp: application_ok_def la x' min_def max_def split: if_splits)
qed

text \<open>A loan installment's settlement: the locked rows, and the branch that was taken.\<close>

definition loan_run ::
    "env \<Rightarrow> payment_row \<Rightarrow> cents \<Rightarrow> instant \<Rightarrow> datetime option \<Rightarrow> 'a loan_tables_scheme \<Rightarrow> effect \<Rightarrow> payment_row \<Rightarrow> 'a loan_tables_scheme
      \<Rightarrow> member_row \<Rightarrow> account_row \<Rightarrow> 'a loan_tables_scheme \<Rightarrow> loan_row \<Rightarrow> installment_row \<Rightarrow> ('a loan_tables_scheme) loan_application \<Rightarrow> bool" where
  "loan_run ev p received t conf db0 ef p' db' m a db l inst la \<longleftrightarrow>
     lock_member_financial_account (loan_member_id l) db0 = Inr (m, a, db)
   \<and> get_by loan_id (loan_id l) (db_loans db0) = Some l \<and> locked_installment p db = Inr (Some inst)
   \<and> (if is_late_charge_eligible (ins_due_date inst) (ev_effective_date ev)
      then settle_versioned ev p received conf l m a inst db = Inr la
      else settle_unversioned ev p received t l m a inst db = Inr la)
   \<and> loan_state_revision (la_loan la) = loan_state_revision l + 1
   \<and> ef = effect_of_loan m l inst la \<and> p' = la_payment la \<and> db' = la_db la"

lemma settle_loan_installment_run:
  assumes "settle_loan_installment ev p received t conf i db0 = Inr (ef, p', db')"
  obtains m a db l inst la where "loan_run ev p received t conf db0 ef p' db' m a db l inst la"
proof -
  from assms obtain l0 where l0: "get_by loan_id (ins_loan_id i) (db_loans db0) = Some l0"
    by (auto simp: settle_loan_installment_def split: option.splits)
  then have l0': "get_by loan_id (loan_id l0) (db_loans db0) = Some l0" using get_by_Some_mem [OF l0] by simp
  note run = assms [unfolded settle_loan_installment_def l0 option.case]
  from run show thesis
  proof (elim res_bind_InrE, goal_cases)
    case (1 x)
    obtain m a db where x: "x = (m, a, db)" by (cases x) auto
    from 1(1) x lock_accounts_only obtain acc where db: "db = db0\<lparr>db_accounts := acc\<rparr>" by metis
    from 1(2) l0' have "res_bind (locked_installment p db) (\<lambda>found.
      case found of None \<Rightarrow> Inl (ValueError ''Parcela de emprestimo nao encontrada.'')
      | Some inst \<Rightarrow>
       res_bind (if is_late_charge_eligible (ins_due_date inst) (ev_effective_date ev)
          then settle_versioned ev p received conf l0 m a inst db
          else settle_unversioned ev p received t l0 m a inst db) (\<lambda>la.
       if loan_state_revision (la_loan la) \<noteq> loan_state_revision l0 + 1 then
         Inl (ValueError ''Revisao do Loan invalida para settlement v4.'')
       else Inr (effect_of_loan m l0 inst la, la_payment la, la_db la))) = Inr (ef, p', db')"
      by (simp add: x lock_loan_def) (simp add: db)
    then show ?case
    proof (elim res_bind_InrE, goal_cases)
      case (1 found)
      then obtain inst where inst: "found = Some inst" by (cases found) auto
      from 1(2) [unfolded inst option.case] show ?case
      proof (elim res_bind_InrE if_Inl_InrE, goal_cases)
        case (1 la)
        then have "loan_run ev p received t conf db0 ef p' db' m a db l0 inst la"
          using \<open>locked_installment p db = Inr found\<close> l0' \<open>lock_member_financial_account (loan_member_id l0) db0 = Inr x\<close> x inst
          by (auto simp: loan_run_def)
        then show ?case by (rule that)
      qed
    qed
  qed
qed

lemma settle_loan_installment_ok:
  assumes "settle_loan_installment ev p received t conf i db = Inr (ef, p', db')" "0 \<le> received" "pay_ledger_posted_at p = None"
  shows "effect_ok received ef"
  using assms(1)
proof (rule settle_loan_installment_run)
  fix m a d l inst la
  assume run: "loan_run ev p received t conf db ef p' db' m a d l inst la"
  then have "application_ok received la"
    by (auto simp: loan_run_def split: if_splits intro: settle_versioned_ok [OF _ assms(2)] settle_unversioned_ok [OF _ assms(2,3)])
  then show "effect_ok received ef" using run
    by (auto simp: effect_ok_def application_ok_def loan_run_def effect_of_loan_def split: option.splits)
qed

text \<open>The constraints of the settlements table hold by construction: for every obligation a payment can be
  applied to, the amounts of the row are nonnegative, received is applied plus excess, applied is
  principal plus interest plus penalty, the versioned components add up to interest and penalty, and exactly one
  obligation is named. The insertion cannot fail on them.\<close>

theorem settlement_constraints_hold:
  assumes "apply_to_obligation ev p received t conf remote db = Inr (ef, p', db')" and "0 \<le> received"
    and "pay_ledger_posted_at p = None"
  shows "settlement_amounts_ok (settlement_of_effect i q received src w ef)
    \<and> settlement_components_ok (settlement_of_effect i q received src w ef)
    \<and> settlement_obligation_ok (settlement_of_effect i q received src w ef)"
proof -
  have "effect_ok received ef"
    using assms settle_agreement_ok settle_contribution_ok settle_loan_installment_ok
    by (auto simp: apply_to_obligation_def res_bind_eq_Inr split: option.splits if_splits)
  then show ?thesis using assms(2) by (rule effect_ok_row)
qed

section \<open>A payment is settled once\<close>

definition same_rows :: "payment_row \<Rightarrow> payment_row \<Rightarrow> 'a loan_tables_scheme \<Rightarrow> 'a loan_tables_scheme \<Rightarrow> bool" where
  "same_rows p p' db db' \<longleftrightarrow> db_settlements db' = db_settlements db \<and> pay_id p' = pay_id p
     \<and> map pay_id (db_payments db') = map pay_id (db_payments db)"

lemma post_credit_ledger: "post_credit hash now a rt r db = Inr db' \<Longrightarrow> \<exists>x. db' = db\<lparr>db_ledger := x\<rparr>"
  by (auto simp: post_credit_def res_bind_eq_Inr)

lemma post_once_ledger: "post_once hash now a rt r db = Inr db' \<Longrightarrow> \<exists>x. db' = db\<lparr>db_ledger := x\<rparr>"
  by (auto simp: post_once_def dest!: post_credit_ledger split: if_splits intro: exI [of _ "db_ledger db"])

lemma post_positive_ledger: "post_positive ev a rt r db = Inr db' \<Longrightarrow> \<exists>x. db' = db\<lparr>db_ledger := x\<rparr>"
  by (auto simp: post_positive_def dest!: post_credit_ledger split: if_splits intro: exI [of _ "db_ledger db"])

lemma credit_principal_entries:
  "credit_principal now m a x r db = Inr db' \<Longrightarrow> db_settlements db' = db_settlements db \<and> db_payments db' = db_payments db
     \<and> db_loans db' = db_loans db \<and> db_installments db' = db_installments db \<and> db_ledger db' = db_ledger db"
  for db :: "'a loan_tables_scheme"
  by (auto simp: credit_principal_def res_bind_eq_Inr principal_entry_def dest!: add_entry_Inr split: if_splits)

lemma put_payment_keys [simp]: "map pay_id (db_payments (put_payment p db)) = map pay_id (db_payments db)"
  by simp

lemma apply_with_locks_rows:
  assumes "apply_with_locks hash now p inst amount l m a db = Inr (ok, p', inst', l', db')"
  shows "same_rows p p' db db'"
proof -
  obtain r i where r: "apply_payment now inst (dec amount) = (r, i)" by fastforce
  note run = assms [unfolded apply_with_locks_def r Let_def prod.case]
  show ?thesis
  proof (cases "pay_ledger_posted_at p \<noteq> None \<or> ap_applied r \<le> 0")
    case True
    with run show ?thesis by (auto simp: same_rows_def split: if_splits)
  next
    case False
    with run have "res_bind (post_once hash now (ap_penalty_applied r) ''LOAN_PENALTY_PAYMENT'' (py_str (pay_id p)) (put_installment i db))
       (\<lambda>db2. res_bind (post_once hash now (interest_part inst (ins_paid_amount inst) (ap_base_applied r)) ''LOAN_INTEREST_PAYMENT'' (py_str (pay_id p)) db2)
       (\<lambda>db3. res_bind (credit_principal now m a (max 0 (ap_base_applied r - interest_part inst (ins_paid_amount inst) (ap_base_applied r))) (py_str (pay_id p)) db3)
       (\<lambda>db4. Inr (True, p\<lparr>pay_ledger_posted_at := Some (Aware now)\<rparr>, i, touch_loan (snd (ensure_loan_completion now True l db4)),
           put_loan (touch_loan (snd (ensure_loan_completion now True l db4)))
             (put_payment (p\<lparr>pay_ledger_posted_at := Some (Aware now)\<rparr>) db4)))))
       = Inr (ok, p', inst', l', db')" by simp
    then show ?thesis
    proof (elim res_bind_InrE, goal_cases)
      case (1 db2 db3 db4)
      from 1 post_once_ledger [OF 1(1)] post_once_ledger [OF 1(2)] credit_principal_entries [OF 1(3)]
      show ?case by (auto simp: same_rows_def)
    qed
  qed
qed

lemma settle_versioned_rows:
  assumes "settle_versioned ev p received conf l m a inst db = Inr la"
  shows "same_rows p (la_payment la) db (la_db la)"
  using assms
proof (rule settle_versioned_run)
  fix c t db2 i ob db3 db4 db5
  assume run: "versioned_run ev p received c l m a inst db la t db2 i ob db3 db4 db5"
  then have k: "keeps_books db db2" by (simp add: versioned_run_def Let_def)
  from run obtain i' n x y where
    post: "post_positive ev n ''LOAN_INTEREST_PAYMENT'' (py_str (pay_id p)) (put_installment i' db2) = Inr db3"
      "post_positive ev x ''LOAN_PENALTY_PAYMENT'' (py_str (pay_id p)) db3 = Inr db4"
      "credit_principal (ev_now ev) m a y (py_str (pay_id p)) db4 = Inr db5"
    and la: "pay_id (la_payment la) = pay_id p" "la_db la = put_loan (versioned_loan ev t l db5) db5"
    by (auto simp: versioned_run_def Let_def)
  from post_positive_ledger [OF post(1)] post_positive_ledger [OF post(2)] credit_principal_entries [OF post(3)] k
  show "same_rows p (la_payment la) db (la_db la)"
    by (auto simp: same_rows_def la keeps_books_def)
qed

lemma settle_unversioned_rows:
  assumes "settle_unversioned ev p received t l m a inst db = Inr la"
  shows "same_rows p (la_payment la) db (la_db la)"
proof -
  from assms obtain ok p' i l' db' where
    "apply_with_locks (ev_ledger_hash ev) (ev_now ev) p inst received l m a db = Inr (ok, p', i, l', db')"
    "la_payment la = p'" "la_db la = db'"
    by (auto simp: settle_unversioned_def res_bind_eq_Inr Let_def)
  then show ?thesis using apply_with_locks_rows by blast
qed

lemma post_contribution_pay_id:
  "post_contribution_payment hash now p x rows = Inr (p', rows') \<Longrightarrow> pay_id p' = pay_id p"
  by (auto simp: post_contribution_payment_def Let_def res_bind_eq_Inr split: if_splits)

lemma apply_to_obligation_rows:
  assumes "apply_to_obligation ev p received t conf remote db = Inr (ef, p', db')"
  shows "same_rows p p' db db'"
proof -
  have agreement: "same_rows p p' db db'" if "settle_agreement ev p received t a i db = Inr (ef, p', db')" for a i
    using that by (rule settle_agreement_run)
      (auto simp: agreement_run_def Let_def same_rows_def put_agreement_def put_agreement_installment_def)
  have contribution: "same_rows p p' db db'" if "settle_contribution ev p received t c db = Inr (ef, p', db')" for c
    using that
  proof (rule settle_contribution_run)
    fix m a d c applied ledger
    assume run: "contribution_run ev p received t db ef p' db' m a d c applied ledger"
    then have lock: "lock_member_financial_account (con_member_id c) db = Inr (m, a, d)" by (simp add: contribution_run_def Let_def)
    from lock_accounts_only [OF lock] obtain acc where d: "d = db\<lparr>db_accounts := acc\<rparr>" .
    from run have "pay_id p' = pay_id p" "\<exists>c'. db' = put_contribution c' (d\<lparr>db_ledger := ledger\<rparr>)"
      by (auto simp: contribution_run_def Let_def split: if_splits dest: post_contribution_pay_id)
    then show "same_rows p p' db db'" by (auto simp: same_rows_def put_contribution_def d)
  qed
  have loan: "same_rows p p' db db'" if "settle_loan_installment ev p received t conf i db = Inr (ef, p', db')" for i
    using that
  proof (rule settle_loan_installment_run)
    fix m a d l inst la
    assume run: "loan_run ev p received t conf db ef p' db' m a d l inst la"
    then have lock: "lock_member_financial_account (loan_member_id l) db = Inr (m, a, d)" by (simp add: loan_run_def)
    from run have "same_rows p (la_payment la) d (la_db la)" "p' = la_payment la" "db' = la_db la"
      by (auto simp: loan_run_def split: if_splits intro: settle_versioned_rows settle_unversioned_rows)
    moreover from lock_accounts_only [OF lock] obtain acc where "d = db\<lparr>db_accounts := acc\<rparr>" .
    ultimately show "same_rows p p' db db'" by (simp add: same_rows_def)
  qed
  show ?thesis using assms agreement contribution loan
    by (auto simp: apply_to_obligation_def res_bind_eq_Inr split: option.splits if_splits)
qed

lemma persist_id [simp]: "pay_id (persist_remote_payload ev remote p) = pay_id p"
  by (auto simp: persist_remote_payload_def Let_def split: option.splits)

lemma release_attempt_id [simp]: "pay_id (release_attempt src remote rt ef p) = pay_id p"
  by (simp add: release_attempt_def)

lemma credit_contribution_rows:
  "credit_contribution ev s ef db = Inr db' \<Longrightarrow> db_settlements db' = db_settlements db \<and> db_payments db' = db_payments db
     \<and> db_ledger db' = db_ledger db" for db :: "'a loan_tables_scheme"
  by (auto simp: credit_contribution_def res_bind_eq_Inr contribution_credit_request_def dest!: add_entry_Inr
      split: option.splits)

lemma settlement_of_effect_ids [simp]:
  "stl_id (settlement_of_effect i p r src w ef) = i" "stl_payment_id (settlement_of_effect i p r src w ef) = pay_id p"
  "stl_amount_received (settlement_of_effect i p r src w ef) = r" "stl_amount_applied (settlement_of_effect i p r src w ef) = ef_applied ef"
  "stl_principal_applied (settlement_of_effect i p r src w ef) = ef_principal ef"
  "stl_obligation_type (settlement_of_effect i p r src w ef) = ef_obligation_type ef"
  by (simp_all add: settlement_of_effect_def Let_def)

text \<open>The common end appends one row: the effect's, with the receipt over the ledger entries of the payment.\<close>

definition settled_row ::
    "env \<Rightarrow> cents \<Rightarrow> string \<Rightarrow> int option \<Rightarrow> effect \<Rightarrow> payment_row \<Rightarrow> 'a database_scheme \<Rightarrow> payment_row \<Rightarrow> ledger_row list \<Rightarrow> settlement_row \<Rightarrow> bool" where
  "settled_row ev received src w ef p db p2 ledger s \<longleftrightarrow>
     (let row = settlement_of_effect (next_id stl_id (db_settlements db)) p2 received src w ef;
          snapshot = receipt_snapshot p2 row (ledger_snapshot \<lparr>db_ledger = ledger, db_accounts = [], db_entries = [],
            db_members = [], db_audit = [], db_notifications = []\<rparr> (pay_id p))
      in pay_id p2 = pay_id p \<and> settlement_row_ok row
       \<and> s = row\<lparr>stl_receipt_snapshot := Some snapshot, stl_receipt_hash := ev_receipt_hash ev snapshot\<rparr>)"

lemma finish_settlement_Inr:
  assumes "finish_settlement ev received src w remote ef p db = Inr (s, db')"
  shows "\<exists>p2. settled_row ev received src w ef p db p2 (db_ledger db) s \<and> db_settlements db' = db_settlements db @ [s]
    \<and> list_all (\<lambda>x. stl_payment_id x \<noteq> pay_id p) (db_settlements db)
    \<and> map pay_id (db_payments db') = map pay_id (db_payments db) \<and> db_ledger db' = db_ledger db
    \<and> check_evidence ef = Inr () \<and> (ef_credit ef = None \<longrightarrow> db_entries db' = db_entries db)"
proof -
  let ?p1 = "p\<lparr>pay_amount_received := Some received,
      pay_confirmed_at := (case pay_confirmed_at p of None \<Rightarrow> Some (Aware (ef_effective_at ef)) | Some t \<Rightarrow> Some t)\<rparr>"
  define p2 where "p2 = (persist_remote_payload ev remote ?p1)\<lparr>pay_ledger_posted_at := Some (Aware (ev_now ev))\<rparr>"
  define row where "row = settlement_of_effect (next_id stl_id (db_settlements db)) p2 received src w ef"
  have id: "pay_id p2 = pay_id p" by (simp add: p2_def)
  note run = assms [unfolded finish_settlement_def Let_def p2_def [symmetric] row_def [symmetric]]
  from run show ?thesis
  proof (elim res_bind_InrE if_Inl_InrE, goal_cases)
    case (1 u db1 db2 db3)
    have ins: "settlement_row_ok row" "list_all (\<lambda>x. stl_payment_id x \<noteq> pay_id p) (db_settlements db)"
      "db1 = (put_payment p2 db)\<lparr>db_settlements := db_settlements db @ [row]\<rparr>"
      using 1(2) by (auto simp: insert_settlement_def list_all_iff list_ex_iff row_def id split: if_splits)
    have k: "keeps_books db1 db2" using 1(3) by (rule adjust_keeps)
    have "db_settlements db3 = db_settlements db @ [row]" "db_ledger db3 = db_ledger db"
      "map pay_id (db_payments db3) = map pay_id (db_payments db)"
      using credit_contribution_rows [OF 1(4)] k by (simp_all add: keeps_books_def ins(3))
    note tabs = this
    have entries: "ef_credit ef = None \<Longrightarrow> db_entries db3 = db_entries db"
      using 1(4) k by (simp add: credit_contribution_def keeps_books_def ins(3))
    define snap where "snap = receipt_snapshot p2 row (ledger_snapshot db3 (pay_id p2))"
    have snap: "snap = receipt_snapshot p2 row (ledger_snapshot \<lparr>db_ledger = db_ledger db, db_accounts = [], db_entries = [],
            db_members = [], db_audit = [], db_notifications = []\<rparr> (pay_id p))"
      by (simp add: snap_def ledger_snapshot_def tabs(2) id)
    have s: "s = row\<lparr>stl_receipt_snapshot := Some snap, stl_receipt_hash := ev_receipt_hash ev snap\<rparr>"
      and db': "\<exists>q. pay_id q = pay_id p \<and> db' = put_payment q (put_settlement s db3)"
      using 1(6) by (auto simp: snap_def id intro: exI [of _ "release_attempt src remote
          (py_upper (py_strip (text_or_empty (pay_reference_type p2)))) ef p2"])
    have "put_by stl_id s (db_settlements db @ [row]) = db_settlements db @ [s]"
    proof -
      have "x \<in> set (db_settlements db) \<Longrightarrow> stl_id x \<noteq> next_id stl_id (db_settlements db)" for x
        using next_id_fresh [of x "db_settlements db" stl_id] by simp
      then show ?thesis by (auto simp: put_by_def s row_def intro!: map_idI)
    qed
    with s ins(1,2) snap tabs entries db' id 1(1) show ?case
      by (intro exI [of _ p2]) (auto simp: settled_row_def row_def put_settlement_def put_payment_def)
  qed
qed

lemma settle_fresh:
  assumes "settle_confirmed_pix_payment ev i src w remote conf db = Inr (s, db')"
    and "lock_payment_settlement i db = Inr None"
  obtains p received t ef p' db1 where "get_by pay_id i (db_payments db) = Some p" "pay_id p = i" "src \<noteq> []"
    "pay_ledger_posted_at p = None" "0 \<le> received"
    "received = (case pay_amount_received p of Some a \<Rightarrow> a | None \<Rightarrow> pay_amount p)"
    "apply_to_obligation ev p received t conf remote db = Inr (ef, p', db1)"
    "finish_settlement ev received src w remote ef p' db1 = Inr (s, db')"
proof -
  from assms(1) obtain p where p: "get_by pay_id i (db_payments db) = Some p" and src: "src \<noteq> []"
    by (auto simp: settle_confirmed_pix_payment_def lock_payment_def split: option.splits if_splits)
  then have id: "pay_id p = i" by (auto dest: get_by_Some_mem)
  define received where "received = (case pay_amount_received p of Some a \<Rightarrow> a | None \<Rightarrow> pay_amount p)"
  define t where "t = (case conf of Some t \<Rightarrow> to_utc t
            | None \<Rightarrow> (case pay_confirmed_at p of Some t \<Rightarrow> to_utc t | None \<Rightarrow> ev_now ev))"
  have "pay_ledger_posted_at p = None \<and> 0 \<le> received \<and>
    res_bind (apply_to_obligation ev p received t conf remote db) (\<lambda>(ef, p', db1).
      finish_settlement ev received src w remote ef p' db1) = Inr (s, db')"
    using assms src p id unfolding settle_confirmed_pix_payment_def received_def [symmetric] t_def [symmetric]
    by (auto simp: lock_payment_def Let_def received_def t_def split: if_splits)
  then show thesis using that p id src received_def by (auto simp: res_bind_eq_Inr)
qed

text \<open>C1. A payment is settled once. A settlement that is already there is returned and nothing changes;
  otherwise exactly one row is appended, for this payment. Either way, settling again, from any source, with any
  payload and at any time, returns that row and changes nothing.\<close>

theorem settlement_once:
  assumes run: "settle_confirmed_pix_payment ev i src w remote conf db = Inr (s, db')" and "src2 \<noteq> []"
  shows "(db' = db \<and> s \<in> set (db_settlements db) \<or> db_settlements db' = db_settlements db @ [s])
    \<and> stl_payment_id s = i
    \<and> settle_confirmed_pix_payment ev2 i src2 w2 remote2 conf2 db' = Inr (s, db')"
proof -
  from run have "\<exists>x. lock_payment_settlement i db = Inr x"
    by (auto simp: settle_confirmed_pix_payment_def lock_payment_def res_bind_eq_Inr split: option.splits if_splits
        dest!: get_by_Some_mem)
  then obtain x where x: "lock_payment_settlement i db = Inr x" ..
  from run obtain p where p: "get_by pay_id i (db_payments db) = Some p"
    by (auto simp: settle_confirmed_pix_payment_def lock_payment_def split: option.splits if_splits)
  then have id: "pay_id p = i" by (auto dest: get_by_Some_mem)
  show ?thesis
  proof (cases x)
    case (Some s0)
    with x have f: "filter (\<lambda>s. stl_payment_id s = i) (db_settlements db) = [s0]"
      by (auto simp: lock_payment_settlement_def one_or_none_def split: list.splits)
    then have "s0 \<in> set (db_settlements db) \<and> stl_payment_id s0 = i" by (metis (mono_tags, lifting) filter_eq_ConsD in_set_conv_decomp)
    with run p x Some id assms(2) show ?thesis
      by (auto simp: settle_confirmed_pix_payment_def lock_payment_def split: if_splits)
  next
    case None
    with x have "lock_payment_settlement i db = Inr None" by simp
    from settle_fresh [OF run this] obtain q received t ef p' db1 where
      q: "pay_id q = i" "apply_to_obligation ev q received t conf remote db = Inr (ef, p', db1)"
        "finish_settlement ev received src w remote ef p' db1 = Inr (s, db')" .
    note rows = apply_to_obligation_rows [OF q(2)]
    from finish_settlement_Inr [OF q(3)] obtain p2 where
      fin: "settled_row ev received src w ef p' db1 p2 (db_ledger db1) s" "db_settlements db' = db_settlements db1 @ [s]"
        "list_all (\<lambda>x. stl_payment_id x \<noteq> pay_id p') (db_settlements db1)"
        "map pay_id (db_payments db') = map pay_id (db_payments db1)" by blast
    have s: "stl_payment_id s = i" using fin(1) rows q(1) by (simp add: settled_row_def Let_def same_rows_def)
    have "get_by pay_id i (db_payments db') \<noteq> None"
      using p get_by_keys [of pay_id "db_payments db'" "db_payments db" i] fin(4) rows by (simp add: same_rows_def)
    then obtain r where r: "get_by pay_id i (db_payments db') = Some r" by blast
    then have "pay_id r = i" by (auto dest: get_by_Some_mem)
    moreover have "filter (\<lambda>x. stl_payment_id x = i) (db_settlements db1) = []"
      using fin(3) rows q(1) by (auto simp: list_all_iff filter_empty_conv same_rows_def)
    ultimately have "settle_confirmed_pix_payment ev2 i src2 w2 remote2 conf2 db' = Inr (s, db')"
      using r assms(2) s by (simp add: settle_confirmed_pix_payment_def lock_payment_def lock_payment_settlement_def
          fin(2) one_or_none_def)
    with s fin(2) rows show ?thesis by (simp add: same_rows_def)
  qed
qed

lemma settled_found:
  assumes "settle_confirmed_pix_payment ev i src w remote conf db = Inr (s, db')" "lock_payment_settlement i db = Inr None"
  shows "lock_payment_settlement i db' = Inr (Some s)"
proof -
  from settle_fresh [OF assms] obtain q received t ef p' db1 where
    q: "pay_id q = i" "apply_to_obligation ev q received t conf remote db = Inr (ef, p', db1)"
      "finish_settlement ev received src w remote ef p' db1 = Inr (s, db')" .
  from finish_settlement_Inr [OF q(3)] apply_to_obligation_rows [OF q(2)] q(1) show ?thesis
    by (auto simp: settled_row_def Let_def same_rows_def lock_payment_settlement_def one_or_none_def list_all_iff
        filter_empty_conv)
qed

section \<open>The books grow by what was applied\<close>

text \<open>New ledger credits of the payment extend the chain; with the new entries of the member, which
  are the principal of a loan, they add up to what was applied.\<close>

definition books_grow ::
    "(json \<Rightarrow> string) \<Rightarrow> string \<Rightarrow> cents \<Rightarrow> cents \<Rightarrow> 'a books_scheme \<Rightarrow> 'a books_scheme \<Rightarrow> bool" where
  "books_grow hash ref applied principal_part db db' \<longleftrightarrow> (\<exists>new es.
     db_ledger db' = db_ledger db @ new \<and> chain_errors hash (db_ledger db') = []
   \<and> list_all (\<lambda>e. led_direction e = ''CREDIT'' \<and> led_account e = ''CAIXINHA'' \<and> led_reference_id e = ref) new
   \<and> db_entries db' = db_entries db @ es \<and> (\<Sum>e\<leftarrow>es. ent_amount e) = principal_part
   \<and> list_all (\<lambda>e. ent_entry_type e = ''LOAN_PRINCIPAL_PAYMENT'' \<and> ent_direction e = ''CREDIT'') es
   \<and> (\<Sum>e\<leftarrow>new. led_amount e) + principal_part = applied)"

definition PAYMENT_LEDGER_TYPES :: "string list" where
  "PAYMENT_LEDGER_TYPES = [''CONTRIBUTION_PAYMENT'', ''LOAN_INTEREST_PAYMENT'', ''LOAN_PENALTY_PAYMENT'', ''AGREEMENT_INSTALLMENT_PAYMENT'']"

definition never_posted :: "int \<Rightarrow> 'a books_scheme \<Rightarrow> bool" where
  "never_posted i db \<longleftrightarrow> list_all (\<lambda>rt. \<not> has_ledger rt (py_str i) db) PAYMENT_LEDGER_TYPES"

lemma books_grow_accounts:
  "books_grow hash ref x y (db\<lparr>db_accounts := acc\<rparr>) db' = books_grow hash ref x y db db'"
  by (simp add: books_grow_def)

lemma post_credit_row:
  assumes "post_entry hash now ''CAIXINHA'' ''CREDIT'' (dec a) rt ref None rows = Inr (e, rows')" "chain_errors hash rows = []"
  shows "rows' = rows @ [e] \<and> chain_errors hash (rows @ [e]) = [] \<and> led_amount e = a \<and> led_direction e = ''CREDIT''
    \<and> led_account e = ''CAIXINHA'' \<and> led_reference_id e = ref \<and> led_reference_type e = rt"
  using posts_chain [OF posts_intros(1) [OF assms(1)] assms(2)] post_entry_Inr [OF assms(1)] by simp

lemma post_positive_row:
  assumes "post_positive ev a rt ref db = Inr db'" "0 \<le> a" "chain_errors (ev_ledger_hash ev) (db_ledger db) = []"
  shows "\<exists>es. db' = db\<lparr>db_ledger := db_ledger db @ es\<rparr> \<and> chain_errors (ev_ledger_hash ev) (db_ledger db') = []
    \<and> (\<Sum>e\<leftarrow>es. led_amount e) = a
    \<and> list_all (\<lambda>e. led_direction e = ''CREDIT'' \<and> led_account e = ''CAIXINHA'' \<and> led_reference_id e = ref) es"
proof (cases "0 < a")
  case False
  with assms show ?thesis by (intro exI [of _ "[]"]) (simp add: post_positive_def)
next
  case True
  with assms(1) obtain e rows where "post_entry (ev_ledger_hash ev) (ev_now ev) ''CAIXINHA'' ''CREDIT'' (dec a) rt ref None
      (db_ledger db) = Inr (e, rows)" "db' = db\<lparr>db_ledger := rows\<rparr>"
    by (auto simp: post_positive_def post_credit_def res_bind_eq_Inr)
  with post_credit_row [OF this(1) assms(3)] show ?thesis by (intro exI [of _ "[e]"]) simp
qed

lemma agreement_books:
  assumes "settle_agreement ev p received t a i db = Inr (ef, p', db')" "chain_errors (ev_ledger_hash ev) (db_ledger db) = []"
  shows "books_grow (ev_ledger_hash ev) (py_str (pay_id p)) (ef_applied ef) 0 db db'"
  using assms(1)
proof (rule settle_agreement_run)
  fix pen princ m e
  assume run: "agreement_run ev p received t a i db ef p' db' pen princ m e"
  then have post: "post_entry (ev_ledger_hash ev) (ev_now ev) ''CAIXINHA'' ''CREDIT'' (dec (pen + princ))
           ''AGREEMENT_INSTALLMENT_PAYMENT'' (py_str (pay_id p)) None (db_ledger db) = Inr (e, db_ledger db @ [e])"
    and tabs: "db_ledger db' = db_ledger db @ [e]" "db_entries db' = db_entries db" "ef_applied ef = pen + princ"
    by (auto simp: agreement_run_def Let_def put_agreement_def put_agreement_installment_def effect_of_agreement_def)
  from post_credit_row [OF post assms(2)] show "books_grow (ev_ledger_hash ev) (py_str (pay_id p)) (ef_applied ef) 0 db db'"
    unfolding books_grow_def by (intro exI [of _ "[e]"] exI [of _ "[]"]) (simp add: tabs)
qed

lemma contribution_books:
  assumes "settle_contribution ev p received t c db = Inr (ef, p', db')" "chain_errors (ev_ledger_hash ev) (db_ledger db) = []"
    and "never_posted (pay_id p) db" "pay_ledger_posted_at p = None" "0 \<le> received"
  shows "books_grow (ev_ledger_hash ev) (py_str (pay_id p)) (ef_applied ef) 0 db db'"
  using assms(1)
proof (rule settle_contribution_run)
  fix m a d c applied ledger
  assume run: "contribution_run ev p received t db ef p' db' m a d c applied ledger"
  then have lock: "lock_member_financial_account (con_member_id c) db = Inr (m, a, d)" by (simp add: contribution_run_def Let_def)
  from lock_accounts_only [OF lock] obtain acc where d: "d = db\<lparr>db_accounts := acc\<rparr>" .
  from run have post: "(if 0 < applied then post_contribution_payment (ev_ledger_hash ev) (ev_now ev) p (Some applied) (db_ledger d)
          else Inr (p, db_ledger d)) = Inr (p', ledger)" and amount: "applied = min received (max 0 (con_amount c - contribution_paid_amount c))"
    and ef: "\<exists>s c'. ef = effect_of_contribution t m a applied s c'" and db': "\<exists>c'. db' = put_contribution c' (d\<lparr>db_ledger := ledger\<rparr>)"
    unfolding contribution_run_def Let_def by blast+
  have "0 \<le> applied" using amount assms(5) by simp
  have tabs: "db_ledger db' = ledger" "db_entries db' = db_entries db" "ef_applied ef = applied" "db_ledger d = db_ledger db"
    using db' ef by (auto simp: put_contribution_def effect_of_contribution_def d)
  note post = post [unfolded tabs(4)]
  show "books_grow (ev_ledger_hash ev) (py_str (pay_id p)) (ef_applied ef) 0 db db'"
  proof (cases "0 < applied")
    case False
    with post \<open>0 \<le> applied\<close> assms(2) show ?thesis
      unfolding books_grow_def by (intro exI [of _ "[]"]) (simp add: tabs)
  next
    case True
    have "\<not> list_ex (\<lambda>r. led_reference_type r = ''CONTRIBUTION_PAYMENT'' \<and> led_reference_id r = py_str (pay_id p)) (db_ledger db)"
      using assms(3) by (simp add: never_posted_def PAYMENT_LEDGER_TYPES_def has_ledger_def)
    with True post assms(4) obtain e where e: "post_entry (ev_ledger_hash ev) (ev_now ev) ''CAIXINHA'' ''CREDIT'' (dec applied)
        ''CONTRIBUTION_PAYMENT'' (py_str (pay_id p)) None (db_ledger db) = Inr (e, ledger)"
      by (auto simp: post_contribution_payment_def Let_def res_bind_eq_Inr)
    from post_credit_row [OF e assms(2)] show ?thesis
      unfolding books_grow_def by (intro exI [of _ "[e]"] exI [of _ "[]"]) (simp add: tabs)
  qed
qed

lemma versioned_books:
  assumes "settle_versioned ev p received conf l m a inst db = Inr la" "chain_errors (ev_ledger_hash ev) (db_ledger db) = []"
    and "0 \<le> received"
  shows "books_grow (ev_ledger_hash ev) (py_str (pay_id p)) (la_applied la) (la_principal la) db (la_db la)"
  using assms(1)
proof (rule settle_versioned_run)
  fix c t db2 i ob db3 db4 db5
  assume run: "versioned_run ev p received c l m a inst db la t db2 i ob db3 db4 db5"
  define al where "al = allocate_versioned ob received"
  obtain i' where k: "keeps_books db db2" and ob: "loan_installment_obligation (ev_verifier ev) db2 i (Civil (belem_date t)) = Inr ob"
    and post: "post_positive ev (al_normal al) ''LOAN_INTEREST_PAYMENT'' (py_str (pay_id p)) (put_installment i' db2) = Inr db3"
      "post_positive ev (al_fixed al + al_late al) ''LOAN_PENALTY_PAYMENT'' (py_str (pay_id p)) db3 = Inr db4"
      "credit_principal (ev_now ev) m a (al_principal al) (py_str (pay_id p)) db4 = Inr db5"
    and la: "la_applied la = al_applied al" "la_principal la = al_principal al" "db_ledger (la_db la) = db_ledger db5" "db_entries (la_db la) = db_entries db5"
    using run by (auto simp: versioned_run_def Let_def al_def)
  note ob = obligation_sum [OF ob]
  have al: "0 \<le> al_fixed al" "0 \<le> al_late al" "0 \<le> al_normal al" "0 \<le> al_principal al"
    "al_fixed al + al_late al + al_normal al + al_principal al = al_applied al"
    using allocate_sum [OF assms(3), of ob] ob unfolding al_def by simp_all
  have chain: "chain_errors (ev_ledger_hash ev) (db_ledger (put_installment i' db2)) = []"
    using assms(2) k by (simp add: keeps_books_def)
  from post_positive_row [OF post(1) al(3) chain] obtain ns where
    n: "db3 = (put_installment i' db2)\<lparr>db_ledger := db_ledger db @ ns\<rparr>" "chain_errors (ev_ledger_hash ev) (db_ledger db3) = []"
      "(\<Sum>e\<leftarrow>ns. led_amount e) = al_normal al"
      "list_all (\<lambda>e. led_direction e = ''CREDIT'' \<and> led_account e = ''CAIXINHA'' \<and> led_reference_id e = py_str (pay_id p)) ns"
    using k by (auto simp: keeps_books_def)
  have "0 \<le> al_fixed al + al_late al" using al by simp
  from post_positive_row [OF post(2) this n(2)] obtain ps where
    q: "db4 = db3\<lparr>db_ledger := db_ledger db @ ns @ ps\<rparr>" "chain_errors (ev_ledger_hash ev) (db_ledger db4) = []"
      "(\<Sum>e\<leftarrow>ps. led_amount e) = al_fixed al + al_late al"
      "list_all (\<lambda>e. led_direction e = ''CREDIT'' \<and> led_account e = ''CAIXINHA'' \<and> led_reference_id e = py_str (pay_id p)) ps"
    by (auto simp: n(1))
  from credit_principal_Inr [OF post(3) al(4)] obtain es where
    es: "db5 = db4\<lparr>db_entries := db_entries db4 @ es\<rparr>" "(\<Sum>e\<leftarrow>es. ent_amount e) = al_principal al"
      "list_all (\<lambda>e. ent_entry_type e = ''LOAN_PRINCIPAL_PAYMENT'' \<and> ent_direction e = ''CREDIT'' \<and> ent_account_id e = acc_id a) es" by blast
  have tabs: "db_ledger db5 = db_ledger db @ ns @ ps" "db_entries db5 = db_entries db @ es"
    using k by (simp_all add: es(1) q(1) n(1) keeps_books_def)
  have "chain_errors (ev_ledger_hash ev) (db_ledger db @ ns @ ps) = []" using q(2) by (simp add: q(1))
  then show "books_grow (ev_ledger_hash ev) (py_str (pay_id p)) (la_applied la) (la_principal la) db (la_db la)"
    unfolding books_grow_def la tabs
    by (rule_tac x = "ns @ ps" in exI, rule_tac x = es in exI)
      (use n(3,4) q(3,4) es(2,3) al(5) in \<open>auto simp: list_all_iff\<close>)
qed

lemma unversioned_books:
  assumes "settle_unversioned ev p received t l m a inst db = Inr la" "chain_errors (ev_ledger_hash ev) (db_ledger db) = []"
    and "unposted p db" "0 \<le> received"
  shows "books_grow (ev_ledger_hash ev) (py_str (pay_id p)) (la_applied la) (la_principal la) db (la_db la)"
proof -
  obtain r inst' where r: "apply_payment (ev_now ev) inst (dec received) = (r, inst')" by fastforce
  obtain pen base where parts: "paid_parts inst (cents (dec received)) = (pen, base)" by fastforce
  have c: "0 \<le> cents (dec received)" using assms(4) by simp
  note ap = apply_payment_run [OF r parts c] and paid = apply_payment_paid [OF r]
  from assms(1) obtain ok p' i l' db' where
    run: "apply_with_locks (ev_ledger_hash ev) (ev_now ev) p inst received l m a db = Inr (ok, p', i, l', db')"
    and la: "la_applied la = (ins_paid_penalty_amount i - ins_paid_penalty_amount inst) + (ins_paid_amount i - ins_paid_amount inst)"
      "la_principal la = max 0 ((ins_paid_amount i - ins_paid_amount inst)
          - min (ins_paid_amount i - ins_paid_amount inst) (max 0 (ins_interest inst - min (ins_interest inst) (ins_paid_amount inst))))"
      "la_db la = db'"
    by (auto simp: settle_unversioned_def res_bind_eq_Inr Let_def)
  from apply_with_locks_run [OF run assms(3,2,4) r] obtain interest prin where
    i: "i = inst'" and sums: "interest + prin = ap_base_applied r" "0 \<le> prin"
      "interest = min (ap_base_applied r) (max 0 (ins_interest inst - min (ins_interest inst) (ins_paid_amount inst)))"
    and books: "payment_books (ev_ledger_hash ev) (py_str (pay_id p)) (ap_penalty_applied r) interest prin db db'" by blast
  have "ins_paid_penalty_amount i - ins_paid_penalty_amount inst = ap_penalty_applied r"
    "ins_paid_amount i - ins_paid_amount inst = ap_base_applied r" using paid i by simp_all
  then have "la_applied la = ap_penalty_applied r + interest + prin" "la_principal la = prin"
    using sums by (simp_all add: la)
  moreover from books obtain ps ns es where
    "db_ledger db' = db_ledger db @ ps @ ns" "db_entries db' = db_entries db @ es" "chain_errors (ev_ledger_hash ev) (db_ledger db') = []"
    "(\<Sum>e\<leftarrow>ps. led_amount e) = ap_penalty_applied r" "(\<Sum>e\<leftarrow>ns. led_amount e) = interest" "(\<Sum>e\<leftarrow>es. ent_amount e) = prin"
    "list_all (\<lambda>e. led_direction e = ''CREDIT'' \<and> led_account e = ''CAIXINHA'' \<and> led_reference_id e = py_str (pay_id p)) (ps @ ns)"
    "list_all (\<lambda>e. ent_entry_type e = ''LOAN_PRINCIPAL_PAYMENT'' \<and> ent_direction e = ''CREDIT'') es"
    unfolding payment_books_def by blast
  ultimately show ?thesis unfolding books_grow_def la(3)
    by (rule_tac x = "ps @ ns" in exI, rule_tac x = es in exI) simp
qed

lemma loan_books:
  assumes "settle_loan_installment ev p received t conf i db = Inr (ef, p', db')"
    and "chain_errors (ev_ledger_hash ev) (db_ledger db) = []" "unposted p db" "0 \<le> received"
  shows "books_grow (ev_ledger_hash ev) (py_str (pay_id p)) (ef_applied ef) (ef_principal ef) db db'"
  using assms(1)
proof (rule settle_loan_installment_run)
  fix m a d l inst la
  assume run: "loan_run ev p received t conf db ef p' db' m a d l inst la"
  then have lock: "lock_member_financial_account (loan_member_id l) db = Inr (m, a, d)" by (simp add: loan_run_def)
  from lock_accounts_only [OF lock] obtain acc where d: "d = db\<lparr>db_accounts := acc\<rparr>" .
  have chain: "chain_errors (ev_ledger_hash ev) (db_ledger d) = []" and un: "unposted p d"
    using assms(2,3) by (simp_all add: d unposted_def has_ledger_def)
  have "books_grow (ev_ledger_hash ev) (py_str (pay_id p)) (la_applied la) (la_principal la) d (la_db la)"
    using run versioned_books [OF _ chain assms(4)] unversioned_books [OF _ chain un assms(4)]
    by (auto simp: loan_run_def split: if_splits)
  moreover have "ef_applied ef = la_applied la" "ef_principal ef = la_principal la" "db' = la_db la"
    using run by (simp_all add: loan_run_def effect_of_loan_def)
  ultimately show "books_grow (ev_ledger_hash ev) (py_str (pay_id p)) (ef_applied ef) (ef_principal ef) db db'"
    by (simp add: books_grow_accounts d)
qed

text \<open>The part of a payment that goes to the member's account instead of the ledger.\<close>

definition account_part :: "effect \<Rightarrow> cents" where
  "account_part ef = (if ef_obligation_type ef = ''LOAN_INSTALLMENT'' then ef_principal ef else 0)"

lemma apply_to_obligation_books:
  assumes "apply_to_obligation ev p received t conf remote db = Inr (ef, p', db')"
    and "chain_errors (ev_ledger_hash ev) (db_ledger db) = []" "never_posted (pay_id p) db" "pay_ledger_posted_at p = None"
    and "0 \<le> received"
  shows "books_grow (ev_ledger_hash ev) (py_str (pay_id p)) (ef_applied ef) (account_part ef) db db'
    \<and> (ef_obligation_type ef \<noteq> ''CONTRIBUTION'' \<longrightarrow> ef_credit ef = None)"
proof -
  have un: "unposted p db" using assms(3,4) by (simp add: unposted_def never_posted_def PAYMENT_LEDGER_TYPES_def)
  have agreement: ?thesis if run: "settle_agreement ev p received t a i db = Inr (ef, p', db')" for a i
  proof -
    from run have "ef_obligation_type ef = ''AGREEMENT_INSTALLMENT'' \<and> ef_credit ef = None"
      by (rule settle_agreement_run) (simp add: agreement_run_def Let_def effect_of_agreement_def)
    then show ?thesis using agreement_books [OF run assms(2)] by (simp add: account_part_def)
  qed
  have contribution: ?thesis if run: "settle_contribution ev p received t c db = Inr (ef, p', db')" for c
  proof -
    from run have "ef_obligation_type ef = ''CONTRIBUTION''"
      by (rule settle_contribution_run) (simp add: contribution_run_def Let_def effect_of_contribution_def)
    then show ?thesis using contribution_books [OF run assms(2,3,4,5)] by (simp add: account_part_def)
  qed
  have loan: ?thesis if run: "settle_loan_installment ev p received t conf i db = Inr (ef, p', db')" for i
  proof -
    from run have "ef_obligation_type ef = ''LOAN_INSTALLMENT'' \<and> ef_credit ef = None"
      by (rule settle_loan_installment_run) (simp add: loan_run_def effect_of_loan_def)
    then show ?thesis using loan_books [OF run assms(2) un assms(5)] by (simp add: account_part_def)
  qed
  show ?thesis using assms(1) agreement contribution loan
    by (auto simp: apply_to_obligation_def res_bind_eq_Inr split: option.splits if_splits)
qed

lemma settlement_grows:
  assumes run: "settle_confirmed_pix_payment ev i src w remote conf db = Inr (s, db')"
    and fresh: "lock_payment_settlement i db = Inr None" "never_posted i db"
    and chain: "fst (verify_ledger_chain (ev_ledger_hash ev) (db_ledger db)) = ''PASS''"
  shows "\<exists>new. db_ledger db' = db_ledger db @ new \<and> fst (verify_ledger_chain (ev_ledger_hash ev) (db_ledger db')) = ''PASS''
    \<and> list_all (\<lambda>e. led_direction e = ''CREDIT'' \<and> led_account e = ''CAIXINHA'' \<and> led_reference_id e = py_str i) new
    \<and> (if stl_obligation_type s = ''LOAN_INSTALLMENT'' then
         (\<Sum>e\<leftarrow>new. led_amount e) + stl_principal_applied s = stl_amount_applied s
         \<and> (\<exists>es. db_entries db' = db_entries db @ es \<and> (\<Sum>e\<leftarrow>es. ent_amount e) = stl_principal_applied s
             \<and> list_all (\<lambda>e. ent_entry_type e = ''LOAN_PRINCIPAL_PAYMENT'' \<and> ent_direction e = ''CREDIT'') es)
       else (\<Sum>e\<leftarrow>new. led_amount e) = stl_amount_applied s)"
proof -
  from settle_fresh [OF run fresh(1)] obtain p received t ef p' db1 where
    p: "pay_id p = i" "pay_ledger_posted_at p = None" "0 \<le> received"
      "apply_to_obligation ev p received t conf remote db = Inr (ef, p', db1)"
      "finish_settlement ev received src w remote ef p' db1 = Inr (s, db')" .
  have chain': "chain_errors (ev_ledger_hash ev) (db_ledger db) = []"
    using chain by (simp add: verify_ledger_chain_def Let_def split: if_splits)
  have "never_posted (pay_id p) db" using fresh(2) p(1) by simp
  note books = apply_to_obligation_books [OF p(4) chain' this p(2,3)]
  from finish_settlement_Inr [OF p(5)] obtain p2 where
    row: "settled_row ev received src w ef p' db1 p2 (db_ledger db1) s" and fin: "db_ledger db' = db_ledger db1"
      "ef_credit ef = None \<longrightarrow> db_entries db' = db_entries db1" by (elim exE conjE) (rule that)
  have s: "stl_obligation_type s = ef_obligation_type ef" "stl_amount_applied s = ef_applied ef"
    "stl_principal_applied s = ef_principal ef" using row by (simp_all add: settled_row_def Let_def)
  from books obtain new es where
    new: "db_ledger db1 = db_ledger db @ new" "chain_errors (ev_ledger_hash ev) (db_ledger db1) = []"
      "list_all (\<lambda>e. led_direction e = ''CREDIT'' \<and> led_account e = ''CAIXINHA'' \<and> led_reference_id e = py_str i) new"
      "db_entries db1 = db_entries db @ es" "(\<Sum>e\<leftarrow>es. ent_amount e) = account_part ef"
      "list_all (\<lambda>e. ent_entry_type e = ''LOAN_PRINCIPAL_PAYMENT'' \<and> ent_direction e = ''CREDIT'') es"
      "(\<Sum>e\<leftarrow>new. led_amount e) + account_part ef = ef_applied ef"
    unfolding books_grow_def p(1) by (elim conjE exE) (rule that)
  have pass: "fst (verify_ledger_chain (ev_ledger_hash ev) (db_ledger db')) = ''PASS''"
    using new(2) by (simp add: verify_ledger_chain_def fin(1))
  show ?thesis
  proof (cases "ef_obligation_type ef = ''LOAN_INSTALLMENT''")
    case True
    with books have "db_entries db' = db_entries db @ es" using fin(2) new(4) by simp
    with True new pass show ?thesis
      by (intro exI [of _ new]) (auto simp: s fin(1) account_part_def intro!: exI [of _ es])
  next
    case False
    with new pass show ?thesis by (intro exI [of _ new]) (simp add: s fin(1) account_part_def)
  qed
qed


section \<open>What a contribution's settlement does\<close>

lemma more_tables:
  fixes db db' :: "'a database_scheme"
  assumes "loan_tables.more db' = loan_tables.more db"
  shows "db_contributions db' = db_contributions db \<and> db_agreements db' = db_agreements db
    \<and> db_agreement_installments db' = db_agreement_installments db"
  using assms by (cases db, cases db') simp

lemma finish_settlement_credit:
  fixes db :: "'a database_scheme"
  assumes "finish_settlement ev received src w remote ef p db = Inr (s, db')"
  shows "\<exists>row (db2 :: 'a database_scheme) db3. stl_id row = stl_id s \<and> credit_contribution ev row ef db2 = Inr db3 \<and> db_entries db2 = db_entries db
    \<and> db_entries db' = db_entries db3 \<and> loan_tables.more db' = loan_tables.more db
    \<and> stl_contribution_id s = ef_contribution_id ef \<and> stl_excess_amount s = received - ef_applied ef
    \<and> stl_amount_applied s = ef_applied ef \<and> stl_obligation_type s = ef_obligation_type ef
    \<and> db_accounts db' = db_accounts db \<and> db_members db' = db_members db"
proof -
  define p2 where "p2 = (persist_remote_payload ev remote (p\<lparr>pay_amount_received := Some received,
      pay_confirmed_at := (case pay_confirmed_at p of None \<Rightarrow> Some (Aware (ef_effective_at ef)) | Some t \<Rightarrow> Some t)\<rparr>))\<lparr>pay_ledger_posted_at := Some (Aware (ev_now ev))\<rparr>"
  define row where "row = settlement_of_effect (next_id stl_id (db_settlements db)) p2 received src w ef"
  have row: "stl_contribution_id row = ef_contribution_id ef" "stl_excess_amount row = received - ef_applied ef"
    "stl_amount_applied row = ef_applied ef" "stl_obligation_type row = ef_obligation_type ef"
    by (simp_all add: row_def settlement_of_effect_def Let_def)
  note run = assms [unfolded finish_settlement_def Let_def p2_def [symmetric] row_def [symmetric]]
  from run show ?thesis
  proof (elim res_bind_InrE if_Inl_InrE, goal_cases)
    case (1 u db1 db2 db3)
    have db1: "db1 = (put_payment p2 db)\<lparr>db_settlements := db_settlements db @ [row]\<rparr>"
      using 1(2) by (auto simp: insert_settlement_def split: if_splits)
    have k: "keeps_books db1 db2" using 1(3) by (rule adjust_keeps)
    have "loan_tables.more db3 = loan_tables.more db2 \<and> db_accounts db3 = db_accounts db2 \<and> db_members db3 = db_members db2"
      using 1(4) by (auto simp: credit_contribution_def res_bind_eq_Inr contribution_credit_request_def dest!: add_entry_Inr
          split: option.splits)
    moreover from 1(6) have "\<exists>x h q. s = row\<lparr>stl_receipt_snapshot := x, stl_receipt_hash := h\<rparr>
        \<and> db' = put_payment q (put_settlement s db3)" by blast
    ultimately have tabs: "stl_id row = stl_id s" "db_entries db2 = db_entries db" "db_entries db' = db_entries db3"
      "loan_tables.more db' = loan_tables.more db" "stl_contribution_id s = stl_contribution_id row"
      "stl_excess_amount s = stl_excess_amount row" "stl_amount_applied s = stl_amount_applied row"
      "stl_obligation_type s = stl_obligation_type row" "db_accounts db' = db_accounts db" "db_members db' = db_members db"
      using k by (auto simp: keeps_books_def db1 put_settlement_def put_payment_def)
    show ?case
      by (rule_tac x = row in exI, rule_tac x = db2 in exI, rule_tac x = db3 in exI, intro conjI)
        (fact 1(4) tabs [unfolded row])+
  qed
qed

lemma apply_to_obligation_cases:
  assumes "apply_to_obligation ev p received t conf remote db = Inr r"
  shows "(\<exists>a x. settle_agreement ev p received t a x db = Inr r) \<or> (\<exists>c. settle_contribution ev p received t c db = Inr r)
    \<or> (\<exists>x. settle_loan_installment ev p received t conf x db = Inr r)"
  using assms by (auto simp: apply_to_obligation_def res_bind_eq_Inr split: option.splits if_splits)

lemma contribution_settled:
  fixes db :: "'a database_scheme"
  assumes run: "settle_confirmed_pix_payment ev i src w remote conf db = Inr (s, db')"
    and fresh: "lock_payment_settlement i db = Inr None"
    and p: "get_by pay_id i (db_payments db) = Some p" "locked_contribution p db = Inr (Some c)"
      "stl_obligation_type s = ''CONTRIBUTION''"
  shows "\<exists>m a received t paid applied c'. received = (case pay_amount_received p of Some a \<Rightarrow> a | None \<Rightarrow> pay_amount p)
    \<and> paid = contribution_paid_amount c \<and> applied = min received (max 0 (con_amount c - paid))
    \<and> c' = pay_contribution t (paid + applied) c
    \<and> stl_contribution_id s = Some (con_id c) \<and> stl_amount_applied s = applied \<and> stl_excess_amount s = received - applied
    \<and> db_contributions db' = put_by con_id c' (db_contributions db)
    \<and> contribution_paid_amount c' = paid + applied
    \<and> (con_status c' = ''PAID'' \<longleftrightarrow> con_amount c \<le> paid + applied)
    \<and> (if contribution_financial_status c paid t \<noteq> ''PAID'' \<and> con_status c' = ''PAID'' then
         \<exists>e. db_entries db' = db_entries db @ [e] \<and> ent_entry_type e = ''CONTRIBUTION'' \<and> ent_direction e = ''CREDIT''
           \<and> ent_amount e = con_amount c \<and> ent_settlement_id e = Some (stl_id s)
       else db_entries db' = db_entries db)
    \<and> lock_member_financial_account (con_member_id c) db' = Inr (m, a, db')
    \<and> list_all (\<lambda>e. 0 < ent_amount e \<and> ent_account_id e = acc_id a \<and> ent_contribution_id e = Some (con_id c)) (drop (length (db_entries db)) (db_entries db'))"
proof -
  from settle_fresh [OF run fresh] p(1) obtain received t ef p' db1 where
    q: "received = (case pay_amount_received p of Some a \<Rightarrow> a | None \<Rightarrow> pay_amount p)"
      "apply_to_obligation ev p received t conf remote db = Inr (ef, p', db1)"
      "finish_settlement ev received src w remote ef p' db1 = Inr (s, db')" by (metis option.inject)
  from finish_settlement_credit [OF q(3)] obtain row db2 db3 where
    fin: "stl_id row = stl_id s" "credit_contribution ev row ef (db2 :: 'a database_scheme) = Inr db3" "db_entries db2 = db_entries db1"
      "db_entries db' = db_entries db3" "loan_tables.more db' = loan_tables.more db1"
      "stl_contribution_id s = ef_contribution_id ef" "stl_excess_amount s = received - ef_applied ef"
      "stl_amount_applied s = ef_applied ef" "stl_obligation_type s = ef_obligation_type ef"
      "db_accounts db' = db_accounts db1" "db_members db' = db_members db1" by blast
  have type: "ef_obligation_type ef = ''CONTRIBUTION''" using fin(9) p(3) by simp
  have "ef_obligation_type ef \<noteq> ''CONTRIBUTION''" if "settle_agreement ev p received t a x db = Inr (ef, p', db1)" for a x
    using that by (rule settle_agreement_run) (simp add: agreement_run_def Let_def effect_of_agreement_def)
  moreover have "ef_obligation_type ef \<noteq> ''CONTRIBUTION''" if "settle_loan_installment ev p received t conf x db = Inr (ef, p', db1)" for x
    using that by (rule settle_loan_installment_run) (simp add: loan_run_def effect_of_loan_def)
  ultimately obtain c0 where "settle_contribution ev p received t c0 db = Inr (ef, p', db1)"
    using apply_to_obligation_cases [OF q(2)] type by blast
  then show ?thesis
  proof (rule settle_contribution_run)
    fix m a d c1 applied ledger
    assume r: "contribution_run ev p received t db ef p' db1 m a d c1 applied ledger"
    then have lock: "lock_member_financial_account (con_member_id c1) db = Inr (m, a, d)" by (simp add: contribution_run_def Let_def)
    from lock_accounts_only [OF lock] obtain acc where d: "d = db\<lparr>db_accounts := acc\<rparr>" .
    have "locked_contribution p d = locked_contribution p db" by (simp add: locked_contribution_def d)
    with r p(2) have c1: "c1 = c" by (simp add: contribution_run_def Let_def)
    define c' where "c' = pay_contribution t (contribution_paid_amount c + applied) c"
    define before where "before = contribution_financial_status c (contribution_paid_amount c) t"
    have ef: "ef = effect_of_contribution t m a applied before c'" and db1: "db1 = put_contribution c' (d\<lparr>db_ledger := ledger\<rparr>)"
      and applied: "applied = min received (max 0 (con_amount c - contribution_paid_amount c))" and live: "con_cancelled_at c = None"
      using r unfolding contribution_run_def Let_def c1 c'_def before_def by blast+
    have c': "con_id c' = con_id c" "contribution_paid_amount c' = contribution_paid_amount c + applied"
      "con_amount c' = con_amount c" "con_status c' = ''PAID'' \<longleftrightarrow> con_amount c \<le> contribution_paid_amount c + applied"
      using live by (auto simp: c'_def pay_contribution_def Let_def contribution_paid_amount_def contribution_financial_status_def max_def
          split: option.splits)
    have cons: "db_contributions db' = put_by con_id c' (db_contributions db)"
      using more_tables [OF fin(5)] by (simp add: db1 put_contribution_def d)
    have entries: "db_entries db1 = db_entries db" by (simp add: db1 put_contribution_def d)
    have money: "if before \<noteq> ''PAID'' \<and> con_status c' = ''PAID'' then
         \<exists>e. db_entries db' = db_entries db @ [e] \<and> ent_entry_type e = ''CONTRIBUTION'' \<and> ent_direction e = ''CREDIT''
           \<and> ent_amount e = con_amount c \<and> ent_settlement_id e = Some (stl_id s)
       else db_entries db' = db_entries db"
    proof (cases "before \<noteq> ''PAID'' \<and> con_status c' = ''PAID''")
      case True
      with fin(2) obtain e where e: "add_member_financial_entry (ev_now ev) m (contribution_credit_request row c' a) db2 = Inr (e, db3)"
        by (auto simp: ef effect_of_contribution_def credit_contribution_def res_bind_eq_Inr)
      have "ent_settlement_id e = Some (stl_id row)"
        using e by (auto simp: add_member_financial_entry_def Let_def contribution_credit_request_def split: if_splits)
      with add_entry_Inr [OF e] True show ?thesis
        by (simp add: contribution_credit_request_def fin(1,3,4) entries c'(3))
    next
      case False
      then have "ef_credit ef = None" by (auto simp: ef effect_of_contribution_def)
      with fin(2) have "db_entries db3 = db_entries db2" by (simp add: credit_contribution_def)
      with False show ?thesis by (auto simp: fin(3,4) entries)
    qed
    have acct: "list_all (\<lambda>e. 0 < ent_amount e \<and> ent_account_id e = acc_id a \<and> ent_contribution_id e = Some (con_id c))
        (drop (length (db_entries db)) (db_entries db'))"
    proof (cases "ef_credit ef")
      case None
      with fin(2) have "db_entries db3 = db_entries db2" by (simp add: credit_contribution_def)
      then show ?thesis by (simp add: fin(3,4) entries)
    next
      case (Some x)
      with fin(2) obtain e where e: "add_member_financial_entry (ev_now ev) m (contribution_credit_request row c' a) db2 = Inr (e, db3)"
        by (auto simp: ef effect_of_contribution_def credit_contribution_def res_bind_eq_Inr split: if_splits)
      have "ent_contribution_id e = Some (con_id c')"
        using e by (auto simp: add_member_financial_entry_def Let_def contribution_credit_request_def split: if_splits)
      with add_entry_Inr [OF e] show ?thesis by (simp add: contribution_credit_request_def fin(3,4) entries c'(1))
    qed
    have again: "lock_member_financial_account (con_member_id c) db' = Inr (m, a, db')"
      using lock_account_again [OF lock [unfolded c1], of db'] by (simp add: fin(10,11) db1 put_contribution_def)
    have ids: "stl_contribution_id s = Some (con_id c)" "stl_amount_applied s = applied" "stl_excess_amount s = received - applied"
      by (simp_all add: fin(6,7,8) ef effect_of_contribution_def c'(1))
    show ?thesis
      by (intro exI [of _ m] exI [of _ a] exI [of _ received] exI [of _ t] exI [of _ "contribution_paid_amount c"] exI [of _ applied] exI [of _ c'] conjI)
        (fact q(1) refl applied c'_def ids cons c'(2,4) money [unfolded before_def] again acct)+
  qed
qed

text \<open>C3. A contribution is paid by what it still lacks and no more: the settlement applies the smaller of what was
  received and what is open and records the rest as excess, the contribution's paid amount grows by it, it is PAID
  exactly when nothing is open, and only in the settlement that completes it is the member credited, once,
  with the contribution's whole amount: every entry the settlement writes is of this contribution and on the
  account of the member who owes it.\<close>

theorem contribution_settlement_effect:
  fixes db :: "'a database_scheme"
  assumes run: "settle_confirmed_pix_payment ev i src w remote conf db = Inr (s, db')"
    and fresh: "lock_payment_settlement i db = Inr None"
    and p: "get_by pay_id i (db_payments db) = Some p" "locked_contribution p db = Inr (Some c)"
      "stl_obligation_type s = ''CONTRIBUTION''"
  shows "\<exists>m a received t paid applied c'. received = (case pay_amount_received p of Some a \<Rightarrow> a | None \<Rightarrow> pay_amount p)
    \<and> paid = contribution_paid_amount c \<and> applied = min received (max 0 (con_amount c - paid))
    \<and> c' = pay_contribution t (paid + applied) c
    \<and> stl_contribution_id s = Some (con_id c) \<and> stl_amount_applied s = applied \<and> stl_excess_amount s = received - applied
    \<and> db_contributions db' = put_by con_id c' (db_contributions db)
    \<and> contribution_paid_amount c' = paid + applied
    \<and> (con_status c' = ''PAID'' \<longleftrightarrow> con_amount c \<le> paid + applied)
    \<and> (if contribution_financial_status c paid t \<noteq> ''PAID'' \<and> con_status c' = ''PAID'' then
         \<exists>e. db_entries db' = db_entries db @ [e] \<and> ent_entry_type e = ''CONTRIBUTION'' \<and> ent_direction e = ''CREDIT''
           \<and> ent_amount e = con_amount c \<and> ent_settlement_id e = Some (stl_id s)
       else db_entries db' = db_entries db)
    \<and> lock_member_financial_account (con_member_id c) db' = Inr (m, a, db')
    \<and> acc_member_id a = con_member_id c
    \<and> list_all (\<lambda>e. ent_account_id e = acc_id a \<and> ent_contribution_id e = Some (con_id c))
         (drop (length (db_entries db)) (db_entries db'))"
proof -
  from contribution_settled [OF assms] obtain m a received t paid applied c' where
    r: "received = (case pay_amount_received p of Some a \<Rightarrow> a | None \<Rightarrow> pay_amount p)" "paid = contribution_paid_amount c"
      "applied = min received (max 0 (con_amount c - paid))" "c' = pay_contribution t (paid + applied) c"
      "stl_contribution_id s = Some (con_id c)" "stl_amount_applied s = applied" "stl_excess_amount s = received - applied"
      "db_contributions db' = put_by con_id c' (db_contributions db)" "contribution_paid_amount c' = paid + applied"
      "con_status c' = ''PAID'' \<longleftrightarrow> con_amount c \<le> paid + applied"
      "if contribution_financial_status c paid t \<noteq> ''PAID'' \<and> con_status c' = ''PAID'' then
         \<exists>e. db_entries db' = db_entries db @ [e] \<and> ent_entry_type e = ''CONTRIBUTION'' \<and> ent_direction e = ''CREDIT''
           \<and> ent_amount e = con_amount c \<and> ent_settlement_id e = Some (stl_id s)
       else db_entries db' = db_entries db"
      "lock_member_financial_account (con_member_id c) db' = Inr (m, a, db')"
      "list_all (\<lambda>e. 0 < ent_amount e \<and> ent_account_id e = acc_id a \<and> ent_contribution_id e = Some (con_id c))
         (drop (length (db_entries db)) (db_entries db'))" by (elim exE conjE) (rule that, assumption+)
  have member: "acc_member_id a = con_member_id c" using lock_account_effect [OF r(12)] by simp
  have account: "list_all (\<lambda>e. ent_account_id e = acc_id a \<and> ent_contribution_id e = Some (con_id c))
         (drop (length (db_entries db)) (db_entries db'))" using r(13) by (auto simp: list_all_iff)
  show ?thesis
    by (intro exI [of _ m] exI [of _ a] exI [of _ received] exI [of _ t] exI [of _ paid] exI [of _ applied] exI [of _ c'] conjI)
      (fact r member account)+
qed


text \<open>The receipt of a payment lists every ledger entry whose reference has the payment's number, whatever its
  type: an entry posted for another table's row with that number is among them.\<close>

theorem ledger_snapshot_foreign:
  assumes "post_entry hash now account direction amount reference_type (py_str i) reversed rows = Inr (e, rows')"
    and "db_ledger db = rows'"
  shows "\<exists>entry \<in> set (ledger_snapshot db i). json_get ''reference_type'' entry = Some (JStr reference_type)
    \<and> json_get ''amount'' entry = Some (JMoney (led_amount e))"
  using post_entry_Inr [OF assms(1)] assms(2)
  by (auto simp: ledger_snapshot_def)

section \<open>Witnesses\<close>

text \<open>A contribution of 300.00, open, and the PIX payment of 300.00 that pays it.\<close>

definition pix_contribution :: payment_row where
  "pix_contribution = demo_payment\<lparr>pay_reference_type := Some ''CONTRIBUTION'', pay_reference_id := Some ''3''\<rparr>"

definition open_contribution :: contribution_row where
  "open_contribution = \<lparr>con_id = 3, con_member_id = 4, con_cycle_id = Some 1, con_competence = 19000, con_amount = 30000,
     con_status = ''PENDING'', con_payment_id = None, con_due_date = Some 19000, con_paid_amount = None, con_paid_at = None,
     con_cancelled_at = None, con_cancellation_reason = None\<rparr>"

definition demo_env :: env where
  "demo_env = \<lparr>ev_now = 0, ev_effective_date = None, ev_ledger_hash = demo_hash, ev_receipt_hash = (\<lambda>_. ''h''), ev_text_hash = (\<lambda>t. t),
     ev_verifier = demo_verifier, ev_str = (\<lambda>_. [])\<rparr>"

definition pix_db :: database where
  "pix_db = (agreement_db [])\<lparr>db_accounts := [pool_account], db_contributions := [open_contribution],
     db_payments := [pix_contribution]\<rparr>"

lemma pix_settles:
  obtains s db' where "settle_confirmed_pix_payment demo_env 7 ''WEBHOOK'' None None (Some (Aware 0)) pix_db = Inr (s, db')"
    "stl_amount_applied s = 30000" "stl_obligation_type s = ''CONTRIBUTION''"
proof -
  have "case settle_confirmed_pix_payment demo_env 7 ''WEBHOOK'' None None (Some (Aware 0)) pix_db of
     Inr (s, db') \<Rightarrow> stl_amount_applied s = 30000 \<and> stl_obligation_type s = ''CONTRIBUTION'' | _ \<Rightarrow> False"
    by code_simp
  then show thesis using that by (auto split: sum.splits)
qed

lemma pix_facts:
  "lock_payment_settlement 7 pix_db = Inr None" "fst (verify_ledger_chain demo_hash (db_ledger pix_db)) = ''PASS''"
  "never_posted 7 pix_db" "get_by pay_id 7 (db_payments pix_db) = Some pix_contribution"
  "locked_contribution pix_contribution pix_db = Inr (Some open_contribution)"
  by code_simp+

theorem settlement_constraints_hold_witness:
  "\<exists>ef p' db'. apply_to_obligation demo_env pix_contribution 30000 0 None None pix_db = Inr (ef, p', db')
     \<and> settlement_amounts_ok (settlement_of_effect 1 p' 30000 ''WEBHOOK'' None ef)"
proof -
  have "case apply_to_obligation demo_env pix_contribution 30000 0 None None pix_db of Inr _ \<Rightarrow> True | _ \<Rightarrow> False"
    by code_simp
  then obtain ef p' db' where r: "apply_to_obligation demo_env pix_contribution 30000 0 None None pix_db = Inr (ef, p', db')"
    by (auto split: sum.splits)
  have "pay_ledger_posted_at pix_contribution = None" by code_simp
  from settlement_constraints_hold [OF r _ this] r show ?thesis by auto
qed

theorem settlement_once_witness:
  "\<exists>s db'. settle_confirmed_pix_payment demo_env 7 ''WEBHOOK'' None None (Some (Aware 0)) pix_db = Inr (s, db')
     \<and> settle_confirmed_pix_payment demo_env 7 ''MANUAL'' None None None db' = Inr (s, db')"
proof -
  obtain s db' where r: "settle_confirmed_pix_payment demo_env 7 ''WEBHOOK'' None None (Some (Aware 0)) pix_db = Inr (s, db')"
    by (rule pix_settles)
  from settlement_once [OF r, of "''MANUAL''"] r show ?thesis by auto
qed


theorem contribution_settlement_effect_witness:
  "\<exists>s db' m a. settle_confirmed_pix_payment demo_env 7 ''WEBHOOK'' None None (Some (Aware 0)) pix_db = Inr (s, db')
     \<and> stl_contribution_id s = Some 3 \<and> stl_excess_amount s = 0
     \<and> lock_member_financial_account (con_member_id open_contribution) db' = Inr (m, a, db')
     \<and> list_all (\<lambda>e. ent_account_id e = acc_id a) (drop (length (db_entries pix_db)) (db_entries db'))"
proof -
  obtain s db' where r: "settle_confirmed_pix_payment demo_env 7 ''WEBHOOK'' None None (Some (Aware 0)) pix_db = Inr (s, db')"
    "stl_amount_applied s = 30000" "stl_obligation_type s = ''CONTRIBUTION''" by (rule pix_settles)
  have "con_id open_contribution = 3" "pay_amount_received pix_contribution = None" "pay_amount pix_contribution = 30000"
    by code_simp+
  with contribution_settlement_effect [OF r(1) pix_facts(1,4,5) r(3)] r obtain m a where
    "stl_contribution_id s = Some 3" "stl_excess_amount s = 0"
    "lock_member_financial_account (con_member_id open_contribution) db' = Inr (m, a, db')"
    "list_all (\<lambda>e. ent_account_id e = acc_id a \<and> ent_contribution_id e = Some (con_id open_contribution))
       (drop (length (db_entries pix_db)) (db_entries db'))" by auto
  with r(1) show ?thesis by (intro exI [of _ s] exI [of _ db'] exI [of _ m] exI [of _ a]) (auto simp: list_all_iff)
qed


theorem ledger_snapshot_foreign_witness:
  "\<exists>e rows'. post_entry demo_hash 0 ''CAIXINHA'' ''DEBIT'' (dec 50000) ''LOAN_DISBURSEMENT'' ''7'' None [] = Inr (e, rows')
     \<and> (\<exists>entry \<in> set (ledger_snapshot (pix_db\<lparr>db_ledger := rows'\<rparr>) 7). json_get ''reference_type'' entry = Some (JStr ''LOAN_DISBURSEMENT''))"
proof -
  have "case post_entry demo_hash 0 ''CAIXINHA'' ''DEBIT'' (dec 50000) ''LOAN_DISBURSEMENT'' (py_str 7) None [] of Inr _ \<Rightarrow> True | _ \<Rightarrow> False"
    by code_simp
  then obtain e rows' where r: "post_entry demo_hash 0 ''CAIXINHA'' ''DEBIT'' (dec 50000) ''LOAN_DISBURSEMENT'' (py_str 7) None [] = Inr (e, rows')"
    by (auto split: sum.splits)
  have "py_str 7 = ''7''" by code_simp
  with ledger_snapshot_foreign [OF r, of "pix_db\<lparr>db_ledger := rows'\<rparr>"] r show ?thesis by auto
qed

end
