(* ===== verification/Payment_Reversal.thy ===== *)
theory Payment_Reversal
  imports Payment_Settlement Calendar
begin

text \<open>
  The reversal of a settled payment, \<open>services/payment_reversal.py\<close>: the validation of the settlement against its
  receipt, the compensation of its ledger entries, and the restoration of the contribution, the loan
  installment or the agreement installment. A receipt column is represented by the document it contains,
  so a text that is not canonical has no representation; \<open>canonical\<close> sorts the keys as the
  serialization does, and two documents are equal when their canonical forms are.
\<close>

section \<open>Documents\<close>

function canonical :: "json \<Rightarrow> json" where
  "canonical (JDict entries) = JDict (sort_key fst (map (\<lambda>(k, v). (k, canonical v)) entries))"
| "canonical (JList items) = JList (map canonical items)"
| "canonical JNull = JNull"
| "canonical (JBool b) = JBool b"
| "canonical (JInt i) = JInt i"
| "canonical (JStr s) = JStr s"
| "canonical (JMoney c) = JMoney c"
| "canonical (JTime t) = JTime t"
| "canonical (JDate d) = JDate d"
  by pat_completeness auto

termination canonical
proof (relation "measure size", goal_cases)
  case (2 entries x k v)
  then have "(k, v) \<in> set entries" by simp
  then show ?case using size_entry [of k v entries] by simp
next
  case (3 items x)
  then show ?case by (induction items) auto
qed simp

text \<open>\<open>document.get(key)\<close>, and \<open>document.get(key) or {}\<close>.\<close>

definition py_get :: "string \<Rightarrow> json \<Rightarrow> json" where
  "py_get k d = (case json_get k d of None \<Rightarrow> JNull | Some v \<Rightarrow> v)"

definition py_get_dict :: "string \<Rightarrow> json \<Rightarrow> json" where
  "py_get_dict k d = (let v = py_get k d in if v = JNull then JDict [] else v)"

definition same_timestamp :: "datetime option \<Rightarrow> datetime option \<Rightarrow> bool" where
  "same_timestamp left right \<longleftrightarrow> map_option stored_utc left = map_option stored_utc right"

section \<open>Finding and validating\<close>

definition active_contribution_credit :: "int \<Rightarrow> int \<Rightarrow> 'a books_scheme \<Rightarrow> cents" where
  "active_contribution_credit account_id contribution_id db =
     (let entries = filter (\<lambda>e. ent_account_id e = account_id \<and> ent_contribution_id e = Some contribution_id) (db_entries db)
      in (\<Sum>e\<leftarrow>filter (\<lambda>e. ent_entry_type e = ''CONTRIBUTION'' \<and> ent_direction e = ''CREDIT'') entries. ent_amount e)
         - (\<Sum>e\<leftarrow>filter (\<lambda>e. ent_entry_type e = ''CONTRIBUTION_REVERSAL'' \<and> ent_direction e = ''DEBIT'') entries. ent_amount e))"

definition validate_admin :: "int \<Rightarrow> 'a database_scheme \<Rightarrow> user_row res" where
  "validate_admin admin_id db =
     (case get_by usr_id admin_id (db_users db) of
        None \<Rightarrow> Inl (ValueError ''Somente Administrador Master pode estornar pagamentos.'')
      | Some admin \<Rightarrow>
          if \<not> usr_is_active admin \<or> usr_role admin \<noteq> ''ADMIN'' \<or> \<not> usr_is_master admin then
            Inl (ValueError ''Somente Administrador Master pode estornar pagamentos.'')
          else Inr admin)"

record amounts =
  am_received :: cents
  am_applied :: cents
  am_principal :: cents
  am_interest :: cents
  am_penalty :: cents
  am_excess :: cents
  am_normal :: cents
  am_late :: cents
  am_fixed :: cents

text \<open>The versioned components are read only where the settlement has a version.\<close>

definition amounts_of :: "settlement_row \<Rightarrow> amounts" where
  "amounts_of s = \<lparr>am_received = stl_amount_received s, am_applied = stl_amount_applied s,
     am_principal = stl_principal_applied s, am_interest = stl_interest_applied s, am_penalty = stl_penalty_applied s,
     am_excess = stl_excess_amount s, am_normal = money (stl_normal_interest_applied s),
     am_late = money (stl_late_interest_applied s), am_fixed = money (stl_fixed_penalty_applied s)\<rparr>"

definition validate_components :: "settlement_row \<Rightarrow> amounts \<Rightarrow> unit res" where
  "validate_components s v =
     (case stl_component_version s of None \<Rightarrow> Inr ()
      | Some version \<Rightarrow>
          if version \<noteq> COMPONENT_VERSION then Inl (ValueError ''Versao de componentes do settlement invalida.'')
          else if stl_normal_interest_applied s = None \<or> stl_late_interest_applied s = None \<or> stl_fixed_penalty_applied s = None then
            Inl (ValueError ''Settlement versionado possui componente ausente.'')
          else if am_interest v \<noteq> am_normal v then Inl (ValueError ''Settlement possui juros normais incompativeis.'')
          else if am_penalty v \<noteq> am_late v + am_fixed v then
            Inl (ValueError ''Settlement possui encargos de mora incompativeis.'')
          else Inr ())"

definition validate_money :: "bool \<Rightarrow> settlement_row \<Rightarrow> payment_row \<Rightarrow> amounts res" where
  "validate_money loan s p =
     (let v = amounts_of s
      in if am_received v < 0 \<or> am_applied v < 0 \<or> am_principal v < 0 \<or> am_interest v < 0 \<or> am_penalty v < 0 \<or> am_excess v < 0
         then Inl (ValueError ''Settlement possui valores financeiros negativos.'')
         else if am_received v \<noteq> am_applied v + am_excess v then
           Inl (ValueError ''Settlement possui equacao de recebimento invalida.'')
         else if am_applied v \<noteq> am_principal v + am_interest v + am_penalty v then
           Inl (ValueError ''Settlement possui equacao de aplicacao invalida.'')
         else
     res_bind (validate_components s v) (\<lambda>_.
         if am_received v \<noteq> (case pay_amount_received p of Some a \<Rightarrow> a | None \<Rightarrow> pay_amount p) then
           Inl (ValueError ''Settlement nao corresponde ao valor recebido pelo pagamento.'')
         else if \<not> loan \<and> (am_interest v \<noteq> 0 \<or> am_penalty v \<noteq> 0) then
           Inl (ValueError ''Contribution nao pode possuir juros ou multa aplicados.'')
         else if \<not> loan \<and> am_principal v \<noteq> am_applied v then
           Inl (ValueError ''Settlement de Contribution possui principal incompativel.'')
         else Inr v))"

definition reference_of :: "payment_row \<Rightarrow> string" where
  "reference_of p = py_upper (py_strip (text_or_empty (pay_reference_type p)))"

definition validate_contribution_reference :: "payment_row \<Rightarrow> settlement_row \<Rightarrow> contribution_row \<Rightarrow> unit res" where
  "validate_contribution_reference p s c =
     (if reference_of p = ''CONTRIBUTION'' \<and> pay_reference_id p \<noteq> Some (py_str (con_id c)) then
        Inl (ValueError ''Referencia de contribuicao incompativel.'')
      else if reference_of p \<noteq> ''CONTRIBUTION'' \<and> reference_of p \<noteq> [] then
        Inl (ValueError ''Pagamento nao referencia uma contribuicao.'')
      else if reference_of p = [] \<and> con_payment_id c \<noteq> Some (pay_id p) then
        Inl (ValueError ''Pagamento nao esta vinculado a contribuicao.'')
      else if stl_payment_id s \<noteq> pay_id p \<or> stl_contribution_id s \<noteq> Some (con_id c) then
        Inl (ValueError ''Settlement nao corresponde ao pagamento/contribuicao.'')
      else if stl_member_id s \<noteq> con_member_id c then
        Inl (ValueError ''Settlement nao corresponde ao membro da contribuicao.'')
      else if stl_obligation_type s \<noteq> ''CONTRIBUTION'' \<or> stl_receipt_version s \<noteq> ''v1'' then
        Inl (ValueError ''Settlement incompativel com reversao de Contribution.'')
      else if stl_loan_installment_id s \<noteq> None \<or> stl_agreement_installment_id s \<noteq> None then
        Inl (ValueError ''Settlement possui obrigacao incompativel.'')
      else if stl_loan_before s \<noteq> None \<or> stl_loan_after s \<noteq> None then
        Inl (ValueError ''Settlement de Contribution nao pode possuir evidencia de Loan.'')
      else Inr ())"

text \<open>Every ledger entry whose reference is the payment's number, in order.\<close>

definition referenced_entries :: "int \<Rightarrow> 'a books_scheme \<Rightarrow> ledger_row list" where
  "referenced_entries payment_id db =
     sort_key led_id (filter (\<lambda>r. led_reference_id r = py_str payment_id) (db_ledger db))"

definition has_reversal :: "ledger_row \<Rightarrow> 'a books_scheme \<Rightarrow> bool" where
  "has_reversal row db \<longleftrightarrow> list_ex (\<lambda>r. led_reversal_of_id r = Some (led_id row)) (db_ledger db)"

definition find_original_ledger :: "int \<Rightarrow> cents \<Rightarrow> 'a books_scheme \<Rightarrow> ledger_row list res" where
  "find_original_ledger payment_id amount db =
     (let rows = referenced_entries payment_id db;
          originals = filter (\<lambda>r. led_reference_type r = ''CONTRIBUTION_PAYMENT'') rows
      in if amount = 0 then
           if rows \<noteq> [] then Inl (ValueError ''Ledger inesperado para settlement sem valor aplicado.'') else Inr []
         else case originals of
           [row] \<Rightarrow>
             let extras = filter (\<lambda>x. led_id x \<noteq> led_id row) rows
             in if list_ex (\<lambda>x. led_reversal_of_id x = Some (led_id row)) extras then
                  Inl (ValueError ''Ledger de confirmacao ja possui reversao.'')
                else if extras \<noteq> [] then Inl (ValueError ''Ledger possui componentes inesperados.'')
                else if led_account row \<noteq> ''CAIXINHA'' \<or> led_direction row \<noteq> ''CREDIT'' then
                  Inl (ValueError ''Ledger de confirmacao incompativel.'')
                else if led_amount row \<noteq> amount \<or> led_reversal_of_id row \<noteq> None then
                  Inl (ValueError ''Valor ou origem do Ledger de confirmacao invalido.'')
                else if has_reversal row db then Inl (ValueError ''Ledger de confirmacao ja possui reversao.'')
                else Inr rows
         | _ \<Rightarrow> Inl (ValueError ''Ledger de confirmacao ausente ou duplicado.''))"

definition loan_ledger :: "ledger_row list \<Rightarrow> 'a books_scheme \<Rightarrow> string \<times> cents \<Rightarrow> ledger_row list res" where
  "loan_ledger rows db component =
     (let (kind, amount) = component; matches = filter (\<lambda>r. led_reference_type r = kind) rows
      in if 0 < amount then
           case matches of
             [row] \<Rightarrow>
               if led_account row \<noteq> ''CAIXINHA'' \<or> led_direction row \<noteq> ''CREDIT'' \<or> led_amount row \<noteq> amount
                  \<or> led_reversal_of_id row \<noteq> None then Inl (ValueError ''Ledger de componente incompativel.'')
               else if has_reversal row db then Inl (ValueError ''Ledger de componente ja possui reversao.'')
               else Inr [row]
           | _ \<Rightarrow> Inl (ValueError ''Ledger de componente ausente ou duplicado.'')
         else if matches \<noteq> [] then Inl (ValueError ''Ledger ficticio para componente sem valor aplicado.'')
         else Inr [])"

definition loan_ledgers :: "int \<Rightarrow> amounts \<Rightarrow> 'a books_scheme \<Rightarrow> ledger_row list res" where
  "loan_ledgers payment_id v db =
     res_bind (map_res (loan_ledger (referenced_entries payment_id db) db)
       [(''LOAN_INTEREST_PAYMENT'', am_interest v), (''LOAN_PENALTY_PAYMENT'', am_penalty v)]) (\<lambda>found.
     Inr (concat found))"

section \<open>The settlement against its receipt\<close>

text \<open>The stored receipt, when its hash is the stored one.\<close>

definition load_receipt :: "env \<Rightarrow> string \<Rightarrow> string \<Rightarrow> settlement_row \<Rightarrow> json res" where
  "load_receipt ev invalid tampered s =
     (case stl_receipt_snapshot s of None \<Rightarrow> Inl (ValueError invalid)
      | Some snapshot \<Rightarrow>
          if ev_receipt_hash ev snapshot \<noteq> stl_receipt_hash s then Inl (ValueError tampered) else Inr snapshot)"

definition time_json :: "datetime option \<Rightarrow> json" where
  "time_json t = opt_json (\<lambda>v. JTime (stored_utc v)) t"

definition expected_loan_state :: "loan_evidence \<Rightarrow> loan_evidence \<Rightarrow> json" where
  "expected_loan_state b a = JDict [(''status_before'', JStr (lev_loan_status b)), (''status_after'', JStr (lev_loan_status a)),
     (''state_revision_before'', JInt (lev_loan_state_revision b)), (''state_revision_after'', JInt (lev_loan_state_revision a)),
     (''paid_at_before'', time_json (lev_loan_paid_at b)), (''paid_at_after'', time_json (lev_loan_paid_at a))]"

definition amounts_match :: "json \<Rightarrow> (string \<times> cents) list \<Rightarrow> bool" where
  "amounts_match document expected \<longleftrightarrow> list_all (\<lambda>(k, v). py_get k document = JMoney v) expected"

definition payment_identity_ok :: "payment_row \<Rightarrow> json \<Rightarrow> bool" where
  "payment_identity_ok p document \<longleftrightarrow> py_get ''id'' document = JInt (pay_id p)
     \<and> py_get ''reference_type'' document = opt_json JStr (pay_reference_type p)
     \<and> py_get ''reference_id'' document = opt_json JStr (pay_reference_id p)"

definition loan_snapshot_ok :: "payment_row \<Rightarrow> settlement_row \<Rightarrow> loan_evidence \<Rightarrow> loan_evidence \<Rightarrow> amounts \<Rightarrow> json \<Rightarrow> unit res" where
  "loan_snapshot_ok p s b a v snapshot =
     (let ams = py_get_dict ''amounts'' snapshot; obligation = py_get_dict ''obligation'' snapshot
      in if \<not> amounts_match ams [(''received'', am_received v), (''applied'', am_applied v), (''principal'', am_principal v),
             (''interest'', am_interest v), (''penalty'', am_penalty v), (''excess'', am_excess v)] then
           Inl (ValueError ''Valores do settlement nao correspondem ao snapshot.'')
         else if stl_component_version s \<noteq> None \<and> \<not> amounts_match ams [(''normal_price_interest'', am_normal v),
             (''late_interest'', am_late v), (''fixed_penalty'', am_fixed v)] then
           Inl (ValueError ''Componentes versionados nao correspondem ao snapshot.'')
         else if \<not> payment_identity_ok p (py_get_dict ''payment'' snapshot) then
           Inl (ValueError ''Identidade do Payment nao corresponde ao snapshot.'')
         else if py_get ''type'' obligation \<noteq> JStr (stl_obligation_type s)
             \<or> py_get ''loan_installment_id'' obligation \<noteq> opt_json JInt (stl_loan_installment_id s)
             \<or> py_get ''member_id'' obligation \<noteq> JInt (stl_member_id s) then
           Inl (ValueError ''Referencia da obrigacao nao corresponde ao snapshot.'')
         else if lev_loan_state_revision a \<noteq> lev_loan_state_revision b + 1 then
           Inl (ValueError ''Settlement v4 possui revisao do Loan invalida.'')
         else Inr ())"

text \<open>The evidence of a loan installment's settlement, checked field by field.\<close>

definition validate_loan_settlement ::
    "env \<Rightarrow> payment_row \<Rightarrow> settlement_row \<Rightarrow> (amounts \<times> int \<times> loan_evidence \<times> loan_evidence) res" where
  "validate_loan_settlement ev p s =
     (if stl_receipt_version s \<noteq> ''v4'' then Inl (ValueError ''Reversao de Loan exige PaymentSettlement v4.'')
      else if stl_payment_id s \<noteq> pay_id p \<or> stl_obligation_type s \<noteq> ''LOAN_INSTALLMENT'' then
        Inl (ValueError ''Settlement incompativel com reversao de LoanInstallment.'')
      else case (stl_loan_installment_id s, stl_loan_before s, stl_loan_after s) of
        (Some i, Some b, Some a) \<Rightarrow>
     res_bind (load_receipt ev ''Snapshot do settlement invalido.'' ''Receipt/hash do settlement invalido.'' s) (\<lambda>snapshot.
     let state = py_get_dict ''loan_installment_state'' snapshot
     in if py_get ''status_before'' state \<noteq> JStr (lev_installment_status b)
           \<or> py_get ''status_after'' state \<noteq> JStr (lev_installment_status a) then
          Inl (ValueError ''Evidencia operacional da parcela nao corresponde ao snapshot.'')
        else if py_get ''paid_at_before'' state \<noteq> time_json (lev_installment_paid_at b)
           \<or> py_get ''paid_at_after'' state \<noteq> time_json (lev_installment_paid_at a) then
          Inl (ValueError ''paid_at operacional da parcela nao corresponde ao snapshot.'')
        else if canonical (py_get_dict ''loan_state'' snapshot) \<noteq> canonical (expected_loan_state b a) then
          Inl (ValueError ''Evidencia do Loan nao corresponde ao snapshot.'')
        else
     res_bind (validate_money True s p) (\<lambda>v.
     res_bind (loan_snapshot_ok p s b a v snapshot) (\<lambda>_. Inr (v, i, b, a))))
      | _ \<Rightarrow> Inl (ValueError ''Settlement v4 sem evidencia completa da parcela.''))"

definition expected_installment_state :: "agreement_evidence \<Rightarrow> agreement_evidence \<Rightarrow> json" where
  "expected_installment_state b a = JDict
     [(''status_before'', JStr (aev_installment_status b)), (''status_after'', JStr (aev_installment_status a)),
      (''paid_at_before'', time_json (aev_installment_paid_at b)), (''paid_at_after'', time_json (aev_installment_paid_at a)),
      (''paid_amount_before'', JMoney (aev_paid_amount b)), (''paid_amount_after'', JMoney (aev_paid_amount a)),
      (''paid_penalty_amount_before'', JMoney (aev_paid_penalty_amount b)),
      (''paid_penalty_amount_after'', JMoney (aev_paid_penalty_amount a))]"

definition expected_agreement_state :: "agreement_evidence \<Rightarrow> agreement_evidence \<Rightarrow> json" where
  "expected_agreement_state b a = JDict
     [(''status_before'', JStr (aev_agreement_status b)), (''status_after'', JStr (aev_agreement_status a)),
      (''state_revision_before'', JInt (aev_agreement_state_revision b)), (''state_revision_after'', JInt (aev_agreement_state_revision a))]"

text \<open>The checks on an agreement's amounts and evidence, and on its receipt, rebuilt from the columns and the ledger.\<close>

definition agreement_evidence_valid :: "amounts \<Rightarrow> agreement_evidence \<Rightarrow> agreement_evidence \<Rightarrow> unit res" where
  "agreement_evidence_valid v b a =
     (if aev_agreement_status b \<notin> {''APPROVED'', ''SETTLED''} \<or> aev_agreement_status a \<notin> {''APPROVED'', ''SETTLED''} then
        Inl (ValueError ''Settlement v5 possui status de Agreement invalido.'')
      else if aev_installment_status b \<notin> {''OPEN'', ''PARTIAL'', ''PAID''} \<or> aev_installment_status a \<notin> {''OPEN'', ''PARTIAL'', ''PAID''} then
        Inl (ValueError ''Settlement v5 possui status de parcela invalido.'')
      else if aev_agreement_state_revision b < 0 \<or> aev_agreement_state_revision a \<noteq> aev_agreement_state_revision b + 1 then
        Inl (ValueError ''Settlement v5 possui revisao de Agreement invalida.'')
      else if aev_paid_amount b < 0 \<or> aev_paid_amount a < 0 \<or> aev_paid_penalty_amount b < 0 \<or> aev_paid_penalty_amount a < 0 then
        Inl (ValueError ''Settlement v5 possui valores absolutos negativos.'')
      else if aev_paid_amount a \<noteq> aev_paid_amount b + am_principal v then
        Inl (ValueError ''Settlement v5 possui equacao de paid_amount invalida.'')
      else if aev_paid_penalty_amount a \<noteq> aev_paid_penalty_amount b + am_penalty v then
        Inl (ValueError ''Settlement v5 possui equacao de paid_penalty_amount invalida.'')
      else Inr ())"

definition agreement_snapshot_ok ::
    "payment_row \<Rightarrow> settlement_row \<Rightarrow> int \<Rightarrow> agreement_evidence \<Rightarrow> agreement_evidence \<Rightarrow> json \<Rightarrow> json \<Rightarrow> unit res" where
  "agreement_snapshot_ok p s installment_id b a expected snapshot =
     (let obligation = py_get_dict ''obligation'' snapshot
      in if canonical snapshot \<noteq> canonical expected then Inl (ValueError ''Snapshot v5 do settlement diverge das colunas.'')
         else if py_get ''type'' obligation \<noteq> JStr ''AGREEMENT_INSTALLMENT''
             \<or> py_get ''agreement_installment_id'' obligation \<noteq> JInt installment_id
             \<or> py_get ''member_id'' obligation \<noteq> JInt (stl_member_id s) then
           Inl (ValueError ''Referencia do Agreement nao corresponde ao snapshot.'')
         else if \<not> payment_identity_ok p (py_get_dict ''payment'' snapshot) then
           Inl (ValueError ''Payment nao corresponde ao snapshot do settlement.'')
         else if canonical (py_get_dict ''agreement_installment_state'' snapshot) \<noteq> canonical (expected_installment_state b a)
             \<or> canonical (py_get_dict ''collection_agreement_state'' snapshot) \<noteq> canonical (expected_agreement_state b a) then
           Inl (ValueError ''Evidencia operacional do Agreement diverge do snapshot.'')
         else Inr ())"

definition agreement_of_settlement ::
    "payment_row \<Rightarrow> settlement_row \<Rightarrow> 'a database_scheme \<Rightarrow> (agreement_row \<times> agreement_installment_row) res" where
  "agreement_of_settlement p s db =
     (if stl_receipt_version s \<noteq> ''v5'' then Inl (ValueError ''Reversao de Agreement exige PaymentSettlement v5.'')
      else if stl_payment_id s \<noteq> pay_id p \<or> stl_obligation_type s \<noteq> ''AGREEMENT_INSTALLMENT'' then
        Inl (ValueError ''Settlement incompativel com reversao de AgreementInstallment.'')
      else case stl_agreement_installment_id s of
        None \<Rightarrow> Inl (ValueError ''Settlement v5 sem AgreementInstallment.'')
      | Some i \<Rightarrow>
     if reference_of p \<noteq> ''AGREEMENT_INSTALLMENT'' \<or> pay_reference_id p \<noteq> Some (py_str i) then
       Inl (ValueError ''Payment nao corresponde ao AgreementInstallment.'')
     else case get_by agi_id i (db_agreement_installments db) of
        None \<Rightarrow> Inl (ValueError ''AgreementInstallment nao encontrado.'')
      | Some item \<Rightarrow>
     res_bind (lock_collection_agreement (agi_agreement_id item) db) (\<lambda>agreement.
     if agr_member_id agreement \<noteq> stl_member_id s then
       Inl (ValueError ''Settlement nao corresponde ao membro do Agreement.'')
     else Inr (agreement, item)))"

definition validate_agreement_settlement ::
    "env \<Rightarrow> payment_row \<Rightarrow> settlement_row \<Rightarrow> 'a database_scheme
      \<Rightarrow> (amounts \<times> agreement_row \<times> agreement_installment_row \<times> agreement_evidence \<times> agreement_evidence) res" where
  "validate_agreement_settlement ev p s db =
     res_bind (agreement_of_settlement p s db) (\<lambda>(agreement, item).
     res_bind (load_receipt ev ''Snapshot do settlement Agreement invalido.'' ''Receipt/hash do settlement Agreement invalido.'' s) (\<lambda>snapshot.
     res_bind (validate_money False s p) (\<lambda>v.
     if am_interest v \<noteq> 0 then Inl (ValueError ''Settlement Agreement nao pode possuir juros.'')
     else if am_applied v \<noteq> am_principal v + am_penalty v then
       Inl (ValueError ''Settlement Agreement possui componentes invalidos.'')
     else if am_received v \<noteq> am_applied v + am_excess v then
       Inl (ValueError ''Settlement Agreement possui excesso invalido.'')
     else case (stl_agreement_before s, stl_agreement_after s) of
       (Some b, Some a) \<Rightarrow>
     res_bind (agreement_evidence_valid v b a) (\<lambda>_.
     res_bind (agreement_snapshot_ok p s (agi_id item) b a (receipt_snapshot p s (ledger_snapshot db (pay_id p))) snapshot) (\<lambda>_.
     Inr (v, agreement, item, b, a)))
     | _ \<Rightarrow> Inl (ValueError ''Settlement v5 sem evidencia completa do Agreement.''))))"

section \<open>The reversal row, its components and its entries\<close>

definition first_of_month :: "instant \<Rightarrow> date" where
  "first_of_month t = ordinal ((of_ordinal (utc_date t))\<lparr>dom := 1\<rparr>)"

definition pending_text :: "payment_row \<Rightarrow> string" where
  "pending_text p = ''pending:'' @ py_str (pay_id p)"

definition new_reversal ::
    "env \<Rightarrow> int \<Rightarrow> payment_row \<Rightarrow> settlement_row \<Rightarrow> int \<Rightarrow> string \<Rightarrow> instant \<Rightarrow> date option \<Rightarrow> date option \<Rightarrow> string \<Rightarrow> amounts \<Rightarrow> reversal_row" where
  "new_reversal ev i p s admin_id reason reversed_at competence due_date kind v =
     \<lparr>rev_id = i, rev_payment_id = pay_id p, rev_settlement_id = stl_id s, rev_admin_id = admin_id, rev_reason = reason,
      rev_reversed_at = Aware reversed_at, rev_financial_date = None, rev_amount_received = am_received v,
      rev_amount_applied = am_applied v, rev_principal_applied = am_principal v, rev_interest_applied = am_interest v,
      rev_penalty_applied = am_penalty v, rev_excess_amount = am_excess v, rev_receipt_version = ''v1'',
      rev_competence = first_of_month reversed_at, rev_original_competence = competence, rev_original_due_date = due_date,
      rev_original_date_kind = kind, rev_receipt_number = ''PIX-REV-V1-'' @ py_str (pay_id p),
      rev_receipt_snapshot = Some (JStr (pending_text p)), rev_receipt_hash = ev_text_hash ev (pending_text p)\<rparr>"

definition reversal_row_ok :: "reversal_row \<Rightarrow> bool" where
  "reversal_row_ok r \<longleftrightarrow> 5 \<le> length (py_strip (rev_reason r))
     \<and> 0 \<le> rev_amount_received r \<and> 0 \<le> rev_amount_applied r \<and> 0 \<le> rev_principal_applied r \<and> 0 \<le> rev_interest_applied r
     \<and> 0 \<le> rev_penalty_applied r \<and> 0 \<le> rev_excess_amount r
     \<and> rev_amount_received r = rev_amount_applied r + rev_excess_amount r
     \<and> rev_amount_applied r = rev_principal_applied r + rev_interest_applied r + rev_penalty_applied r
     \<and> (rev_original_date_kind r = ''CONTRIBUTION_COMPETENCE'' \<and> rev_original_competence r \<noteq> None \<and> rev_original_due_date r = None
        \<or> rev_original_date_kind r \<in> {''LOAN_INSTALLMENT_DUE_DATE'', ''AGREEMENT_INSTALLMENT_DUE_DATE''}
          \<and> rev_original_competence r = None \<and> rev_original_due_date r \<noteq> None)
     \<and> (rev_receipt_version r = ''v2'' \<and> rev_financial_date r \<noteq> None \<or> rev_receipt_version r = ''v1'' \<and> rev_financial_date r = None)"

definition reversals_clash :: "reversal_row \<Rightarrow> reversal_row \<Rightarrow> bool" where
  "reversals_clash r x \<longleftrightarrow> rev_payment_id x = rev_payment_id r \<or> rev_settlement_id x = rev_settlement_id r
     \<or> rev_receipt_number x = rev_receipt_number r \<or> rev_receipt_hash x = rev_receipt_hash r"

definition insert_reversal :: "reversal_row \<Rightarrow> 'a loan_tables_scheme \<Rightarrow> 'a loan_tables_scheme res" where
  "insert_reversal r db =
     (if \<not> reversal_row_ok r \<or> list_ex (reversals_clash r) (db_reversals db) then Inl (IntegrityError ''payment_reversals'')
      else Inr (db\<lparr>db_reversals := db_reversals db @ [r]\<rparr>))"

text \<open>The compensating entry of an original, and the row that pairs them.\<close>

definition post_compensation :: "env \<Rightarrow> string \<Rightarrow> ledger_row \<Rightarrow> 'a books_scheme \<Rightarrow> (ledger_row \<times> 'a books_scheme) res" where
  "post_compensation ev direction original db =
     res_bind (post_entry (ev_ledger_hash ev) (ev_now ev) (led_account original) direction (dec (led_amount original))
       ''REVERSAL'' (py_str (led_id original)) (Some (led_id original)) (db_ledger db)) (\<lambda>(e, rows).
     Inr (e, db\<lparr>db_ledger := rows\<rparr>))"

definition add_component :: "int \<Rightarrow> ledger_row \<Rightarrow> ledger_row \<Rightarrow> 'a database_scheme \<Rightarrow> 'a database_scheme res" where
  "add_component reversal_id original compensating db =
     (if led_id original = led_id compensating \<or> list_ex (\<lambda>c. rco_original_id c = led_id original
          \<or> rco_compensating_id c = led_id compensating) (db_reversal_components db)
      then Inl (IntegrityError ''payment_reversal_components'')
      else Inr (db\<lparr>db_reversal_components := db_reversal_components db @
         [\<lparr>rco_id = next_id rco_id (db_reversal_components db), rco_reversal_id = reversal_id,
           rco_original_id = led_id original, rco_compensating_id = led_id compensating\<rparr>]\<rparr>))"

definition incompatible :: "ledger_row \<Rightarrow> ledger_row \<Rightarrow> bool" where
  "incompatible original compensating \<longleftrightarrow> led_id compensating = led_id original
     \<or> led_reversal_of_id compensating \<noteq> Some (led_id original)"

definition opposite_of :: "ledger_row \<Rightarrow> string" where
  "opposite_of original = (if led_direction original = ''CREDIT'' then ''DEBIT'' else ''CREDIT'')"

definition compensate ::
    "env \<Rightarrow> bool \<Rightarrow> int \<Rightarrow> ledger_row \<Rightarrow> (ledger_row \<times> ledger_row) list \<times> 'a database_scheme
      \<Rightarrow> ((ledger_row \<times> ledger_row) list \<times> 'a database_scheme) res" where
  "compensate ev checked reversal_id original state =
     (let (components, db) = state
      in res_bind (post_compensation ev (opposite_of original) original db) (\<lambda>(e, db1).
         if checked \<and> incompatible original e then
           Inl (ValueError ''Compensacao de Ledger incompativel com o original.'')
         else res_bind (add_component reversal_id original e db1) (\<lambda>db2. Inr (components @ [(original, e)], db2))))"

text \<open>A member entry that carries the reversal's id, written after the entry was added.\<close>

definition reversal_entry ::
    "instant \<Rightarrow> member_row \<Rightarrow> account_row \<Rightarrow> string \<Rightarrow> cents \<Rightarrow> int option \<Rightarrow> int \<Rightarrow> 'a books_scheme
      \<Rightarrow> (member_entry_row \<times> 'a books_scheme) res" where
  "reversal_entry now member account kind amount contribution_id reversal_id db =
     res_bind (add_member_financial_entry now member
       \<lparr>rq_entry_type = kind, rq_direction = ''DEBIT'', rq_amount = dec amount, rq_reference_type = Some ''PAYMENT_REVERSAL'',
        rq_reference_id = Some (py_str reversal_id), rq_account = Some account, rq_contribution_id = None,
        rq_settlement_id = None\<rparr> db) (\<lambda>(e, db1).
     let e' = e\<lparr>ent_contribution_id := contribution_id, ent_reversal_id := Some reversal_id\<rparr>
     in Inr (e', db1\<lparr>db_entries := put_by ent_id e' (db_entries db1)\<rparr>))"

text \<open>The last flush: the receipt and its hash.\<close>

definition finish_reversal :: "env \<Rightarrow> json \<Rightarrow> reversal_row \<Rightarrow> 'a loan_tables_scheme \<Rightarrow> (reversal_row \<times> 'a loan_tables_scheme) res" where
  "finish_reversal ev snapshot r db =
     (let r' = r\<lparr>rev_receipt_snapshot := Some snapshot, rev_receipt_hash := ev_receipt_hash ev snapshot\<rparr>
      in if list_ex (\<lambda>x. rev_id x \<noteq> rev_id r \<and> rev_receipt_hash x = rev_receipt_hash r') (db_reversals db)
         then Inl (IntegrityError ''uq_payment_reversals_receipt_hash'')
         else Inr (r', db\<lparr>db_reversals := put_by rev_id r' (db_reversals db)\<rparr>))"

section \<open>Contributions\<close>

definition contribution_reversal_snapshot ::
    "reversal_row \<Rightarrow> payment_row \<Rightarrow> settlement_row \<Rightarrow> contribution_row \<Rightarrow> string \<Rightarrow> string \<Rightarrow> (ledger_row \<times> ledger_row) list \<Rightarrow> json" where
  "contribution_reversal_snapshot r p s c state_before state_after components =
     JDict [(''receipt_version'', JStr (rev_receipt_version r)), (''receipt_number'', JStr (rev_receipt_number r)),
       (''reversal'', JDict [(''id'', JInt (rev_id r)), (''reversed_at'', JTime (stored_utc (rev_reversed_at r))),
          (''reversal_competence'', JDate (rev_competence r)), (''admin_id'', JInt (rev_admin_id r)), (''reason'', JStr (rev_reason r))]),
       (''payment'', JDict [(''id'', JInt (pay_id p)), (''status'', JStr (pay_status p))]),
       (''settlement'', JDict [(''id'', JInt (stl_id s)), (''receipt_number'', JStr (stl_receipt_number s)),
          (''receipt_version'', JStr (stl_receipt_version s))]),
       (''obligation'', JDict [(''type'', JStr (stl_obligation_type s)), (''contribution_id'', JInt (con_id c)),
          (''original_competence'', JDate (con_competence c)), (''state_before'', JStr state_before), (''state_after'', JStr state_after)]),
       (''amounts'', JDict [(''amount_received'', JMoney (rev_amount_received r)), (''amount_applied'', JMoney (rev_amount_applied r)),
          (''principal_applied'', JMoney (rev_principal_applied r)), (''interest_applied'', JMoney (rev_interest_applied r)),
          (''penalty_applied'', JMoney (rev_penalty_applied r)), (''excess_amount'', JMoney (rev_excess_amount r))]),
       (''ledger_components'', JList (map (\<lambda>(x, y). JDict [(''original_ledger_entry_id'', JInt (led_id x)),
          (''compensating_ledger_entry_id'', JInt (led_id y)), (''account'', JStr (led_account x)), (''amount'', JMoney (led_amount x)),
          (''original_direction'', JStr (led_direction x)), (''compensating_direction'', JStr (led_direction y))])
          (sort_key (\<lambda>(x, y). led_id x) components)))]"

definition unpay_contribution :: "cents \<Rightarrow> string \<Rightarrow> contribution_row \<Rightarrow> contribution_row" where
  "unpay_contribution new_paid after_status c =
     c\<lparr>con_paid_amount := Some new_paid,
       con_status := (if con_cancelled_at c \<noteq> None then ''CANCELLED'' else after_status),
       con_paid_at := (if after_status = ''PAID'' then con_paid_at c else None)\<rparr>"

text \<open>The member's credit is taken back when the contribution stops being paid; it must be whole or absent.\<close>

definition credit_to_reverse :: "account_row \<Rightarrow> contribution_row \<Rightarrow> string \<Rightarrow> string \<Rightarrow> 'a books_scheme \<Rightarrow> cents res" where
  "credit_to_reverse account c before_status after_status db =
     (if before_status = ''PAID'' \<and> after_status \<noteq> ''PAID'' then
        let credit = active_contribution_credit (acc_id account) (con_id c) db
        in if credit \<noteq> 0 \<and> credit \<noteq> con_amount c then
             Inl (ValueError ''Credito patrimonial da Contribution e inconsistente.'')
           else Inr credit
      else Inr 0)"

definition take_back_credit ::
    "instant \<Rightarrow> member_row \<Rightarrow> account_row \<Rightarrow> cents \<Rightarrow> int \<Rightarrow> int \<Rightarrow> 'a books_scheme \<Rightarrow> 'a books_scheme res" where
  "take_back_credit now member account credit contribution_id reversal_id db =
     (if 0 < credit then
        res_bind (reversal_entry now member account ''CONTRIBUTION_REVERSAL'' credit (Some contribution_id) reversal_id db)
          (\<lambda>(_, db'). Inr db')
      else Inr db)"

definition reverse_contribution ::
    "env \<Rightarrow> payment_row \<Rightarrow> settlement_row \<Rightarrow> int \<Rightarrow> string \<Rightarrow> instant \<Rightarrow> 'a database_scheme
      \<Rightarrow> (reversal_row \<times> 'a database_scheme) res" where
  "reverse_contribution ev p s admin_id reason reversed_at db0 =
     (case stl_contribution_id s of None \<Rightarrow> Inl (ValueError ''Settlement nao referencia Contribution.'')
      | Some i \<Rightarrow>
     (case get_by con_id i (db_contributions db0) of None \<Rightarrow> Inl (ValueError ''Contribution nao encontrada.'')
      | Some locator \<Rightarrow>
     res_bind (lock_member_financial_account (con_member_id locator) db0) (\<lambda>(member, account, db).
     (case get_by con_id i (db_contributions db) of None \<Rightarrow> Inl (ValueError ''Contribution nao encontrada.'')
      | Some c \<Rightarrow>
     if con_member_id c \<noteq> mem_id member then
       Inl (ValueError ''Contribution nao corresponde ao Member do settlement.'')
     else
     res_bind (validate_contribution_reference p s c) (\<lambda>_.
     res_bind (validate_money False s p) (\<lambda>v.
     if con_amount c < am_applied v then Inl (ValueError ''Settlement excede o valor da Contribution.'')
     else if money (con_paid_amount c) < am_applied v then
       Inl (ValueError ''Contribution nao possui valor pago suficiente para o estorno.'')
     else
     let current_paid = money (con_paid_amount c); new_paid = current_paid - am_applied v;
         before_status = contribution_financial_status c current_paid reversed_at;
         after_status = contribution_financial_status c new_paid reversed_at
     in res_bind (credit_to_reverse account c before_status after_status db) (\<lambda>credit.
     res_bind (find_original_ledger (pay_id p) (am_applied v) db) (\<lambda>originals.
     let r = new_reversal ev (next_id rev_id (db_reversals db)) p s admin_id reason reversed_at (Some (con_competence c)) None
               ''CONTRIBUTION_COMPETENCE'' v
     in res_bind (insert_reversal r db) (\<lambda>db1.
     res_bind (fold_res (compensate ev True (rev_id r)) originals ([], db1)) (\<lambda>(components, db2).
     let db3 = put_contribution (unpay_contribution new_paid after_status c) db2
     in res_bind (take_back_credit (ev_now ev) member account credit (con_id c) (rev_id r) db3) (\<lambda>db4.
     res_bind (finish_reversal ev (contribution_reversal_snapshot r p s c (con_status c) after_status components) r db4) (\<lambda>(r', db5).
     Inr (r', add_audit (Some admin_id) ''PAYMENT_REVERSED'' ''PAYMENT'' (py_str (pay_id p)) db5)))))))))))))"

section \<open>Agreement installments\<close>

definition agreement_reversal_snapshot ::
    "reversal_row \<Rightarrow> payment_row \<Rightarrow> settlement_row \<Rightarrow> agreement_evidence \<Rightarrow> agreement_evidence \<Rightarrow> agreement_row
      \<Rightarrow> agreement_installment_row \<Rightarrow> ledger_row \<Rightarrow> ledger_row \<Rightarrow> json" where
  "agreement_reversal_snapshot r p s b a agreement item original compensating =
     JDict [(''receipt_version'', JStr (rev_receipt_version r)), (''receipt_number'', JStr (rev_receipt_number r)),
       (''reversal'', JDict [(''id'', JInt (rev_id r)), (''reversed_at'', JTime (stored_utc (rev_reversed_at r))),
          (''reversal_competence'', JDate (rev_competence r)), (''admin_id'', JInt (rev_admin_id r)), (''reason'', JStr (rev_reason r))]),
       (''payment'', JDict [(''id'', JInt (pay_id p)), (''status'', JStr (pay_status p)),
          (''reference_type'', opt_json JStr (pay_reference_type p)), (''reference_id'', opt_json JStr (pay_reference_id p))]),
       (''settlement'', JDict [(''id'', JInt (stl_id s)), (''receipt_number'', JStr (stl_receipt_number s)),
          (''receipt_version'', JStr (stl_receipt_version s)), (''receipt_hash'', JStr (stl_receipt_hash s))]),
       (''obligation'', JDict [(''type'', JStr ''AGREEMENT_INSTALLMENT''), (''member_id'', JInt (stl_member_id s)),
          (''agreement_installment_id'', JInt (agi_id item)), (''collection_agreement_id'', JInt (agr_id agreement))]),
       (''agreement'', JDict [(''id'', JInt (agr_id agreement)), (''status_before'', JStr (aev_agreement_status b)),
          (''status_after'', JStr (aev_agreement_status a)), (''status_restored'', JStr (agr_status agreement)),
          (''state_revision_before'', JInt (aev_agreement_state_revision b)),
          (''state_revision_after'', JInt (aev_agreement_state_revision a)), (''state_revision'', JInt (agr_state_revision agreement))]),
       (''agreement_installment'', JDict [(''id'', JInt (agi_id item)), (''due_date'', JDate (agi_due_date item)),
          (''status_before'', JStr (aev_installment_status b)), (''status_after'', JStr (aev_installment_status a)),
          (''status_restored'', JStr (agi_status item)), (''paid_at_before'', time_json (aev_installment_paid_at b)),
          (''paid_at_after'', time_json (aev_installment_paid_at a)), (''paid_at_restored'', time_json (agi_paid_at item)),
          (''paid_amount_before'', JMoney (aev_paid_amount b)), (''paid_amount_after'', JMoney (aev_paid_amount a)),
          (''paid_amount_restored'', JMoney (agi_paid_amount item)),
          (''paid_penalty_amount_before'', JMoney (aev_paid_penalty_amount b)),
          (''paid_penalty_amount_after'', JMoney (aev_paid_penalty_amount a)),
          (''paid_penalty_amount_restored'', JMoney (agi_paid_penalty_amount item))]),
       (''amounts'', JDict [(''amount_received'', JMoney (rev_amount_received r)), (''amount_applied'', JMoney (rev_amount_applied r)),
          (''principal_applied'', JMoney (rev_principal_applied r)), (''interest_applied'', JMoney (rev_interest_applied r)),
          (''penalty_applied'', JMoney (rev_penalty_applied r)), (''excess_amount'', JMoney (rev_excess_amount r))]),
       (''ledger_component'', JDict [(''original_ledger_entry_id'', JInt (led_id original)),
          (''compensating_ledger_entry_id'', JInt (led_id compensating)), (''account'', JStr (led_account original)),
          (''amount'', JMoney (led_amount original)), (''original_direction'', JStr (led_direction original)),
          (''compensating_direction'', JStr (led_direction compensating)),
          (''reversal_of_id'', opt_json JInt (led_reversal_of_id compensating))])]"

definition agreement_original :: "int \<Rightarrow> amounts \<Rightarrow> 'a books_scheme \<Rightarrow> ledger_row res" where
  "agreement_original payment_id v db =
     (let rows = referenced_entries payment_id db
      in case filter (\<lambda>r. led_reference_type r = ''AGREEMENT_INSTALLMENT_PAYMENT'' \<and> led_reversal_of_id r = None) rows of
        [original] \<Rightarrow>
          let extras = filter (\<lambda>x. led_id x \<noteq> led_id original) rows
          in if list_ex (\<lambda>x. led_reversal_of_id x = Some (led_id original)) extras then
               Inl (ValueError ''Ledger Agreement ja possui reversao.'')
             else if extras \<noteq> [] then Inl (ValueError ''Ledger Agreement possui componentes inesperados.'')
             else if led_account original \<noteq> ''CAIXINHA'' \<or> led_direction original \<noteq> ''CREDIT''
                 \<or> led_reversal_of_id original \<noteq> None \<or> led_amount original \<noteq> am_applied v then
               Inl (ValueError ''Ledger Agreement incompativel.'')
             else if has_reversal original db then Inl (ValueError ''Ledger Agreement ja possui reversao.'')
             else Inr original
      | _ \<Rightarrow> Inl (ValueError ''Ledger Agreement ausente, duplicado ou com componente extra.''))"

text \<open>The installment and the agreement must still be as the settlement left them.\<close>

definition agreement_unchanged ::
    "amounts \<Rightarrow> agreement_row \<Rightarrow> agreement_installment_row \<Rightarrow> agreement_evidence \<Rightarrow> agreement_evidence \<Rightarrow> unit res" where
  "agreement_unchanged v agreement item b a =
     (if \<not> same_timestamp (agi_paid_at item) (aev_installment_paid_at a) then
        Inl (ValueError ''paid_at atual da parcela diverge do settlement v5.'')
      else if agi_status item \<noteq> aev_installment_status a \<or> agi_paid_amount item \<noteq> aev_paid_amount a
          \<or> agi_paid_penalty_amount item \<noteq> aev_paid_penalty_amount a then
        Inl (ValueError ''Estado atual da parcela diverge do settlement v5.'')
      else if agr_status agreement \<noteq> aev_agreement_status a \<or> agr_state_revision agreement \<noteq> aev_agreement_state_revision a then
        Inl (ValueError ''Estado atual do Agreement diverge do settlement v5.'')
      else if agi_paid_amount item - am_principal v \<noteq> aev_paid_amount b
          \<or> agi_paid_penalty_amount item - am_penalty v \<noteq> aev_paid_penalty_amount b then
        Inl (ValueError ''Valores da parcela nao permitem restauracao exata.'')
      else Inr ())"

definition restored_item :: "agreement_evidence \<Rightarrow> agreement_installment_row \<Rightarrow> agreement_installment_row" where
  "restored_item b item = item\<lparr>agi_paid_amount := aev_paid_amount b, agi_paid_penalty_amount := aev_paid_penalty_amount b,
     agi_status := aev_installment_status b, agi_paid_at := aev_installment_paid_at b\<rparr>"

definition restored_agreement :: "agreement_evidence \<Rightarrow> agreement_row \<Rightarrow> agreement_row" where
  "restored_agreement b agreement = touch_collection_agreement (agreement\<lparr>agr_status := aev_agreement_status b\<rparr>)"

definition reverse_agreement_payment ::
    "env \<Rightarrow> payment_row \<Rightarrow> settlement_row \<Rightarrow> int \<Rightarrow> string \<Rightarrow> instant \<Rightarrow> 'a database_scheme
      \<Rightarrow> (reversal_row \<times> 'a database_scheme) res" where
  "reverse_agreement_payment ev p s admin_id reason reversed_at db =
     res_bind (validate_agreement_settlement ev p s db) (\<lambda>(v, agreement, item, b, a).
     res_bind (agreement_unchanged v agreement item b a) (\<lambda>_.
     res_bind (agreement_original (pay_id p) v db) (\<lambda>original.
     let r = new_reversal ev (next_id rev_id (db_reversals db)) p s admin_id reason reversed_at None (Some (agi_due_date item))
               ''AGREEMENT_INSTALLMENT_DUE_DATE'' v
     in res_bind (insert_reversal r db) (\<lambda>db1.
     res_bind (post_compensation ev ''DEBIT'' original db1) (\<lambda>(compensating, db2).
     if incompatible original compensating then Inl (ValueError ''Compensacao de Ledger Agreement incompativel.'')
     else
     res_bind (add_component (rev_id r) original compensating db2) (\<lambda>db3.
     let item' = restored_item b item; agreement' = restored_agreement b agreement
     in if agr_state_revision agreement' \<noteq> aev_agreement_state_revision a + 1 then
          Inl (ValueError ''Revision do Agreement nao avancou monotonicamente.'')
        else
     res_bind (finish_reversal ev (agreement_reversal_snapshot r p s b a agreement' item' original compensating) r
       (put_agreement agreement' (put_agreement_installment item' db3))) (\<lambda>(r', db4).
     Inr (r', add_audit (Some admin_id) ''PAYMENT_REVERSED_AGREEMENT_INSTALLMENT'' ''PAYMENT'' (py_str (pay_id p)) db4))))))))"

section \<open>Loan installments\<close>

definition loan_component_json :: "ledger_row \<times> ledger_row \<Rightarrow> json" where
  "loan_component_json c =
     (let (x, y) = c in JDict [(''original_ledger_entry_id'', JInt (led_id x)), (''compensating_ledger_entry_id'', JInt (led_id y)),
        (''reversal_of_id'', opt_json JInt (led_reversal_of_id y)), (''amount'', JMoney (led_amount x)),
        (''original_direction'', JStr (led_direction x)), (''compensating_direction'', JStr (led_direction y))])"

definition loan_reversal_snapshot ::
    "reversal_row \<Rightarrow> payment_row \<Rightarrow> settlement_row \<Rightarrow> loan_evidence \<Rightarrow> loan_evidence \<Rightarrow> loan_row \<Rightarrow> installment_row
      \<Rightarrow> member_entry_row option \<Rightarrow> member_entry_row option \<Rightarrow> (ledger_row \<times> ledger_row) list \<Rightarrow> json" where
  "loan_reversal_snapshot r p s b a l i original_mfe compensating_mfe components =
     JDict [(''receipt_version'', JStr (rev_receipt_version r)), (''receipt_number'', JStr (rev_receipt_number r)),
       (''reversal'', JDict [(''id'', JInt (rev_id r)), (''reversed_at'', JTime (stored_utc (rev_reversed_at r))),
          (''reversal_competence'', JDate (rev_competence r)), (''admin_id'', JInt (rev_admin_id r)), (''reason'', JStr (rev_reason r))]),
       (''payment'', JDict [(''id'', JInt (pay_id p)), (''status'', JStr (pay_status p)),
          (''reference_type'', opt_json JStr (pay_reference_type p)), (''reference_id'', opt_json JStr (pay_reference_id p))]),
       (''settlement'', JDict [(''id'', JInt (stl_id s)), (''receipt_number'', JStr (stl_receipt_number s)),
          (''receipt_version'', JStr (stl_receipt_version s)), (''receipt_hash'', JStr (stl_receipt_hash s))]),
       (''member'', JDict [(''id'', JInt (stl_member_id s))]),
       (''loan'', JDict [(''id'', JInt (loan_id l)), (''status_before'', JStr (lev_loan_status b)),
          (''status_after'', JStr (lev_loan_status a)), (''state_revision_before'', JInt (lev_loan_state_revision b)),
          (''state_revision_after'', JInt (lev_loan_state_revision a)), (''status_restored'', JStr (loan_status l)),
          (''state_revision'', JInt (loan_state_revision l)), (''paid_at_before'', time_json (lev_loan_paid_at b)),
          (''paid_at_after'', time_json (lev_loan_paid_at a))]),
       (''loan_installment'', JDict [(''id'', JInt (ins_id i)), (''due_date'', JDate (ins_due_date i)),
          (''status_before'', JStr (lev_installment_status b)), (''status_after'', JStr (lev_installment_status a)),
          (''paid_at_before'', time_json (lev_installment_paid_at b)), (''paid_at_after'', time_json (lev_installment_paid_at a)),
          (''status_restored'', JStr (ins_status i)), (''paid_amount_restored'', JMoney (ins_paid_amount i)),
          (''paid_penalty_amount_restored'', JMoney (ins_paid_penalty_amount i))]),
       (''amounts'', JDict [(''amount_received'', JMoney (rev_amount_received r)), (''amount_applied'', JMoney (rev_amount_applied r)),
          (''principal_applied'', JMoney (rev_principal_applied r)), (''interest_applied'', JMoney (rev_interest_applied r)),
          (''penalty_applied'', JMoney (rev_penalty_applied r)), (''excess_amount'', JMoney (rev_excess_amount r))]),
       (''member_financial'', JDict [(''original_entry_id'', opt_json (\<lambda>e. JInt (ent_id e)) original_mfe),
          (''compensating_entry_id'', opt_json (\<lambda>e. JInt (ent_id e)) compensating_mfe)]),
       (''ledger_components'', JList (map loan_component_json (sort_key (\<lambda>(x, y). led_id x) components)))]"

text \<open>The rows of the payment, still as the settlement left them.\<close>

definition loan_of_settlement ::
    "payment_row \<Rightarrow> int \<Rightarrow> loan_evidence \<Rightarrow> member_row \<Rightarrow> 'a loan_tables_scheme \<Rightarrow> (loan_row \<times> installment_row) res" where
  "loan_of_settlement p installment_id a member db =
     (case get_by ins_id installment_id (db_installments db) of
        None \<Rightarrow> Inl (ValueError ''Payment nao corresponde a LoanInstallment.'')
      | Some i \<Rightarrow>
     if pay_reference_type p \<noteq> Some ''LOAN_INSTALLMENT'' \<or> pay_reference_id p \<noteq> Some (py_str (ins_id i)) then
       Inl (ValueError ''Payment nao corresponde a LoanInstallment.'')
     else res_bind (lock_loan (ins_loan_id i) db) (\<lambda>l.
     if loan_member_id l \<noteq> mem_id member \<or> loan_status l \<noteq> lev_loan_status a
        \<or> loan_state_revision l \<noteq> lev_loan_state_revision a then
       Inl (ValueError ''Estado atual do Loan diverge do settlement v4.'')
     else if \<not> same_timestamp (loan_paid_at l) (lev_loan_paid_at a) then
       Inl (ValueError ''paid_at atual do Loan diverge do settlement v4.'')
     else if ins_status i \<noteq> lev_installment_status a \<or> \<not> same_timestamp (ins_paid_at i) (lev_installment_paid_at a) then
       Inl (ValueError ''Estado atual da parcela diverge do settlement v4.'')
     else Inr (l, i)))"

text \<open>The member's entry of the principal, when there was principal.\<close>

definition principal_to_reverse ::
    "payment_row \<Rightarrow> member_row \<Rightarrow> account_row \<Rightarrow> amounts \<Rightarrow> 'a books_scheme \<Rightarrow> member_entry_row option res" where
  "principal_to_reverse p member account v db =
     (let candidates = filter (\<lambda>e. ent_account_id e = acc_id account \<and> ent_reference_id e = Some (py_str (pay_id p))
             \<and> ent_entry_type e = ''LOAN_PRINCIPAL_PAYMENT'') (db_entries db);
          matches = filter (\<lambda>e. ent_direction e = ''CREDIT'' \<and> ent_reference_type e = Some ''LOAN_PRINCIPAL_PAYMENT''
             \<and> ent_amount e = am_principal v) candidates
      in if 0 < am_principal v then
           case (candidates, matches) of
             ([_], [m]) \<Rightarrow>
               if ps_own_balance (get_member_financial_position member db) < am_principal v then
                 Inl (ValueError ''Saldo proprio insuficiente para estorno integral.'')
               else Inr (Some m)
           | _ \<Rightarrow> Inl (ValueError ''MFE original de principal ausente, duplicada ou incompativel.'')
         else if candidates \<noteq> [] then Inl (ValueError ''MFE de principal inesperada para settlement sem principal.'')
         else Inr None)"

definition installment_allows :: "settlement_row \<Rightarrow> amounts \<Rightarrow> installment_row \<Rightarrow> unit res" where
  "installment_allows s v i =
     (if ins_paid_amount i < am_principal v + am_interest v \<or> ins_paid_penalty_amount i < am_penalty v then
        Inl (ValueError ''Parcela nao possui valores pagos suficientes para restauracao.'')
      else if stl_component_version s = None then Inr ()
      else if ins_paid_fixed_penalty_amount i = None \<and> am_fixed v \<noteq> 0 \<or> ins_paid_late_interest_amount i = None \<and> am_late v \<noteq> 0 then
        Inl (ValueError ''Projecoes versionadas da parcela estao ausentes.'')
      else if money (ins_paid_fixed_penalty_amount i) < am_fixed v \<or> money (ins_paid_late_interest_amount i) < am_late v then
        Inl (ValueError ''Projecoes versionadas nao permitem restauracao exata.'')
      else Inr ())"

definition restored_installment :: "settlement_row \<Rightarrow> amounts \<Rightarrow> loan_evidence \<Rightarrow> installment_row \<Rightarrow> installment_row" where
  "restored_installment s v b i =
     (let i1 = i\<lparr>ins_paid_amount := ins_paid_amount i - (am_principal v + am_interest v),
            ins_paid_penalty_amount := ins_paid_penalty_amount i - am_penalty v\<rparr>;
          i2 = (if stl_component_version s = None then i1
                else i1\<lparr>ins_paid_fixed_penalty_amount := map_option (\<lambda>x. x - am_fixed v) (ins_paid_fixed_penalty_amount i1),
                        ins_paid_late_interest_amount := map_option (\<lambda>x. x - am_late v) (ins_paid_late_interest_amount i1)\<rparr>)
      in i2\<lparr>ins_status := lev_installment_status b, ins_paid_at := lev_installment_paid_at b\<rparr>)"

definition restored_loan :: "loan_evidence \<Rightarrow> loan_row \<Rightarrow> loan_row" where
  "restored_loan b l = touch_loan (l\<lparr>loan_status := lev_loan_status b, loan_paid_at := lev_loan_paid_at b\<rparr>)"

definition take_back_principal ::
    "instant \<Rightarrow> member_row \<Rightarrow> account_row \<Rightarrow> amounts \<Rightarrow> member_entry_row option \<Rightarrow> int \<Rightarrow> 'a books_scheme
      \<Rightarrow> (member_entry_row option \<times> 'a books_scheme) res" where
  "take_back_principal now member account v original reversal_id db =
     (case original of None \<Rightarrow> Inr (None, db)
      | Some _ \<Rightarrow> res_bind (reversal_entry now member account ''LOAN_PRINCIPAL_REVERSAL'' (am_principal v) None reversal_id db)
          (\<lambda>(e, db'). Inr (Some e, db')))"

text \<open>A versioned reversal brings back late interest that the settlement had stopped.\<close>

definition adjust_reversed_interest ::
    "env \<Rightarrow> settlement_row \<Rightarrow> int \<Rightarrow> int \<Rightarrow> 'a loan_tables_scheme \<Rightarrow> 'a loan_tables_scheme res" where
  "adjust_reversed_interest ev s reversal_id installment_id db =
     (if stl_component_version s = None then Inr db
      else res_bind (materialize_reversal_late_interest_adjustment (ev_verifier ev) reversal_id db) (\<lambda>(_, db1).
        res_bind (find_installment installment_id db1) (\<lambda>i.
          Inr (if ins_late_charge_version i = Some LATE_CHARGE_VERSION
               then put_installment (i\<lparr>ins_penalty_amount := projected_penalty i\<rparr>) db1 else db1))))"

definition reverse_loan_payment ::
    "env \<Rightarrow> payment_row \<Rightarrow> settlement_row \<Rightarrow> int \<Rightarrow> string \<Rightarrow> instant \<Rightarrow> 'a database_scheme
      \<Rightarrow> (reversal_row \<times> 'a database_scheme) res" where
  "reverse_loan_payment ev p s admin_id reason reversed_at db0 =
     res_bind (validate_loan_settlement ev p s) (\<lambda>(v, installment_id, b, a).
     res_bind (lock_member_financial_account (stl_member_id s) db0) (\<lambda>(member, account, db).
     res_bind (loan_of_settlement p installment_id a member db) (\<lambda>(l, i).
     res_bind (principal_to_reverse p member account v db) (\<lambda>original_mfe.
     res_bind (loan_ledgers (pay_id p) v db) (\<lambda>originals.
     res_bind (installment_allows s v i) (\<lambda>_.
     let r = new_reversal ev (next_id rev_id (db_reversals db)) p s admin_id reason reversed_at None (Some (ins_due_date i))
               ''LOAN_INSTALLMENT_DUE_DATE'' v
     in res_bind (insert_reversal r db) (\<lambda>db1.
     res_bind (take_back_principal (ev_now ev) member account v original_mfe (rev_id r) db1) (\<lambda>(compensating_mfe, db2).
     res_bind (fold_res (compensate ev False (rev_id r)) originals ([], db2)) (\<lambda>(components, db3).
     let i' = restored_installment s v b i; l' = restored_loan b l
     in res_bind (adjust_reversed_interest ev s (rev_id r) installment_id (put_loan l' (put_installment i' db3))) (\<lambda>db4.
     res_bind (find_installment installment_id db4) (\<lambda>i''.
     res_bind (finish_reversal ev (loan_reversal_snapshot r p s b a l' i'' original_mfe compensating_mfe components) r db4) (\<lambda>(r', db5).
     Inr (r', add_audit (Some admin_id) ''PAYMENT_REVERSED_LOAN_INSTALLMENT'' ''PAYMENT'' (py_str (pay_id p)) db5)))))))))))))"

section \<open>Reversing a payment\<close>

definition reverse_payment ::
    "env \<Rightarrow> int \<Rightarrow> int \<Rightarrow> string \<Rightarrow> datetime option \<Rightarrow> 'a database_scheme \<Rightarrow> (reversal_row \<times> 'a database_scheme) res" where
  "reverse_payment ev payment_id admin_id reason now db =
     (let normalized_reason = py_strip reason
      in if length normalized_reason < 5 then
           Inl (ValueError ''Informe um motivo de reversao com pelo menos 5 caracteres.'')
         else
     res_bind (case now of None \<Rightarrow> Inr (ev_now ev) | Some t \<Rightarrow> utc_strict t ''now precisa ser timezone-aware'') (\<lambda>reversed_at.
     res_bind (lock_payment payment_id db) (\<lambda>p.
     res_bind (one_or_none (filter (\<lambda>r. rev_payment_id r = pay_id p) (db_reversals db))) (\<lambda>existing.
     case existing of Some r \<Rightarrow> Inr (r, db)
     | None \<Rightarrow>
     if pay_status p \<noteq> ''approved'' then Inl (ValueError ''Somente pagamentos aprovados podem ser estornados.'')
     else
     res_bind (validate_admin admin_id db) (\<lambda>_.
     res_bind (lock_payment_settlement (pay_id p) db) (\<lambda>found.
     case found of None \<Rightarrow> Inl (ValueError ''PaymentSettlement obrigatorio nao encontrado.'')
     | Some s \<Rightarrow>
         if stl_obligation_type s = ''LOAN_INSTALLMENT'' then
           reverse_loan_payment ev p s admin_id normalized_reason reversed_at db
         else if stl_obligation_type s = ''AGREEMENT_INSTALLMENT'' then
           reverse_agreement_payment ev p s admin_id normalized_reason reversed_at db
         else reverse_contribution ev p s admin_id normalized_reason reversed_at db))))))"

end
