(* ===== verification/Reversal_Properties.thy ===== *)
theory Reversal_Properties
  imports Payment_Reversal Settlement_Properties
begin

text \<open>
  What the reversal of a payment promises: it is made once, its ledger entries cancel the entries of the settlement,
  and it puts the obligation back as it was; and the settlements it refuses although they are in order.
\<close>

section \<open>The branches\<close>

lemma reverse_fresh:
  assumes "reverse_payment ev i admin reason now db = Inr (r, db')"
    and "list_all (\<lambda>r. rev_payment_id r \<noteq> i) (db_reversals db)"
  shows "\<exists>p s t. get_by pay_id i (db_payments db) = Some p \<and> pay_id p = i \<and> pay_status p = ''approved''
    \<and> lock_payment_settlement i db = Inr (Some s) \<and> 5 \<le> length (py_strip reason)
    \<and> (if stl_obligation_type s = ''LOAN_INSTALLMENT'' then reverse_loan_payment ev p s admin (py_strip reason) t db
      else if stl_obligation_type s = ''AGREEMENT_INSTALLMENT'' then reverse_agreement_payment ev p s admin (py_strip reason) t db
      else reverse_contribution ev p s admin (py_strip reason) t db) = Inr (r, db')"
proof -
  have "filter (\<lambda>r. rev_payment_id r = i) (db_reversals db) = []"
    using assms(2) by (auto simp: list_all_iff filter_empty_conv)
  note none = this
  from assms(1) obtain p where p: "get_by pay_id i (db_payments db) = Some p"
    by (auto simp: reverse_payment_def lock_payment_def res_bind_eq_Inr Let_def split: option.splits if_splits)
  then have id: "pay_id p = i" by (auto dest: get_by_Some_mem)
  from assms(1) p id none obtain t where t: "5 \<le> length (py_strip reason)" "pay_status p = ''approved''"
    "res_bind (lock_payment_settlement i db) (\<lambda>found.
     case found of None \<Rightarrow> Inl (ValueError ''PaymentSettlement obrigatorio nao encontrado.'')
     | Some s \<Rightarrow>
         if stl_obligation_type s = ''LOAN_INSTALLMENT'' then reverse_loan_payment ev p s admin (py_strip reason) t db
         else if stl_obligation_type s = ''AGREEMENT_INSTALLMENT'' then reverse_agreement_payment ev p s admin (py_strip reason) t db
         else reverse_contribution ev p s admin (py_strip reason) t db) = Inr (r, db')"
    by (auto simp: reverse_payment_def lock_payment_def one_or_none_def res_bind_eq_Inr Let_def split: if_splits)
  from t(3) obtain s where "lock_payment_settlement i db = Inr (Some s)"
    by (auto simp: res_bind_eq_Inr split: option.splits)
  with t p id show ?thesis by (intro exI [of _ p] exI [of _ s] exI [of _ t]) simp
qed

section \<open>A reversal, step by step\<close>

definition contribution_undone ::
    "env \<Rightarrow> payment_row \<Rightarrow> settlement_row \<Rightarrow> int \<Rightarrow> string \<Rightarrow> instant \<Rightarrow> 'a database_scheme \<Rightarrow> reversal_row \<Rightarrow> 'a database_scheme
      \<Rightarrow> contribution_row \<Rightarrow> member_row \<Rightarrow> account_row \<Rightarrow> 'a database_scheme \<Rightarrow> amounts \<Rightarrow> cents \<Rightarrow> ledger_row list \<Rightarrow> reversal_row
      \<Rightarrow> 'a database_scheme \<Rightarrow> (ledger_row \<times> ledger_row) list \<Rightarrow> 'a database_scheme \<Rightarrow> 'a database_scheme \<Rightarrow> bool" where
  "contribution_undone ev p s admin reason t db0 r' db' c m a db v credit originals r db1 comps db2 db4 \<longleftrightarrow>
     (let new_paid = money (con_paid_amount c) - am_applied v;
          before = contribution_financial_status c (money (con_paid_amount c)) t;
          after = contribution_financial_status c new_paid t
      in stl_contribution_id s = Some (con_id c) \<and> get_by con_id (con_id c) (db_contributions db) = Some c
       \<and> lock_member_financial_account (con_member_id c) db0 = Inr (m, a, db)
       \<and> validate_contribution_reference p s c = Inr () \<and> validate_money False s p = Inr v
       \<and> am_applied v \<le> con_amount c \<and> am_applied v \<le> money (con_paid_amount c)
       \<and> credit_to_reverse a c before after db = Inr credit \<and> find_original_ledger (pay_id p) (am_applied v) db = Inr originals
       \<and> r = new_reversal ev (next_id rev_id (db_reversals db)) p s admin reason t (Some (con_competence c)) None ''CONTRIBUTION_COMPETENCE'' v
       \<and> insert_reversal r db = Inr db1
       \<and> fold_res (compensate ev True (rev_id r)) originals ([], db1) = Inr (comps, db2)
       \<and> take_back_credit (ev_now ev) m a credit (con_id c) (rev_id r) (put_contribution (unpay_contribution new_paid after c) db2) = Inr db4
       \<and> (\<exists>db5. finish_reversal ev (contribution_reversal_snapshot r p s c (con_status c) after comps) r db4 = Inr (r', db5)
            \<and> db' = add_audit (Some admin) ''PAYMENT_REVERSED'' ''PAYMENT'' (py_str (pay_id p)) db5))"

lemma reverse_contribution_run:
  assumes "reverse_contribution ev p s admin reason t db0 = Inr (r', db')"
  shows "\<exists>c m a db v credit originals r db1 comps db2 db4.
    contribution_undone ev p s admin reason t db0 r' db' c m a db v credit originals r db1 comps db2 db4"
proof -
  from assms obtain i where i: "stl_contribution_id s = Some i" by (auto simp: reverse_contribution_def split: option.splits)
  with assms obtain l where l: "get_by con_id i (db_contributions db0) = Some l"
    by (auto simp: reverse_contribution_def split: option.splits)
  note run = assms [unfolded reverse_contribution_def i l option.case]
  from run show ?thesis
  proof (elim res_bind_InrE, goal_cases)
    case (1 x)
    obtain m a db where x: "x = (m, a, db)" by (cases x) auto
    from lock_accounts_only [OF 1(1) [unfolded x]] obtain acc where db: "db = db0\<lparr>db_accounts := acc\<rparr>" .
    have c: "get_by con_id i (db_contributions db) = Some l" using l by (simp add: db)
    have id: "con_id l = i" using l by (auto dest: get_by_Some_mem)
    from 1(2) [unfolded x prod.case c option.case Let_def] show ?case
    proof (elim if_Inl_InrE res_bind_InrE, goal_cases)
      case (1 u v credit originals db1 y)
      obtain comps db2 where y: "y = (comps, db2)" by (cases y) auto
      note facts = 1(1-9)
      from 1(10) [unfolded y prod.case] show ?case
      proof (elim res_bind_InrE, goal_cases)
        case (1 db4 z)
        then have "contribution_undone ev p s admin reason t db0 r' db' l m a db v credit originals
            (new_reversal ev (next_id rev_id (db_reversals db)) p s admin reason t (Some (con_competence l)) None ''CONTRIBUTION_COMPETENCE'' v)
            db1 comps db2 db4"
          using facts y x c id i \<open>lock_member_financial_account (con_member_id l) db0 = Inr x\<close>
          by (cases z) (simp add: contribution_undone_def Let_def)
        then show ?case by (intro exI)
      qed
    qed
  qed
qed

section \<open>Settlements that cannot be reversed\<close>

text \<open>C11. A settlement of an agreement installment that applied any penalty cannot be reversed: the validation
  of amounts it shares with contributions refuses interest and penalties.\<close>

theorem agreement_penalty_irreversible:
  assumes "lock_payment_settlement i db = Inr (Some s)" and "stl_obligation_type s = ''AGREEMENT_INSTALLMENT''"
    and "stl_penalty_applied s \<noteq> 0" and "list_all (\<lambda>r. rev_payment_id r \<noteq> i) (db_reversals db)"
  shows "\<exists>e. reverse_payment ev i admin reason now db = Inl e"
proof (rule ccontr)
  assume "\<nexists>e. reverse_payment ev i admin reason now db = Inl e"
  then obtain r db' where "reverse_payment ev i admin reason now db = Inr (r, db')"
    by (metis old.sum.exhaust surj_pair)
  from reverse_fresh [OF this assms(4)] assms(1,2) obtain p t where
    "reverse_agreement_payment ev p s admin (py_strip reason) t db = Inr (r, db')" by auto
  then obtain v where "validate_money False s p = Inr v"
    by (auto simp: reverse_agreement_payment_def validate_agreement_settlement_def res_bind_eq_Inr)
  with assms(3) show False
    by (auto simp: validate_money_def Let_def amounts_of_def res_bind_eq_Inr split: if_splits)
qed

text \<open>C12. A contribution's payment cannot be reversed while the ledger has any other entry with the payment's number as
  reference, such as the disbursement of the loan of that number or the reversal of the ledger entry of that
  number.\<close>

theorem foreign_entry_blocks_reversal:
  assumes "lock_payment_settlement i db = Inr (Some s)" and "stl_obligation_type s = ''CONTRIBUTION''"
    and e: "e \<in> set (db_ledger db)" "led_reference_id e = py_str i" "led_reference_type e \<noteq> ''CONTRIBUTION_PAYMENT''"
    and "distinct (map led_id (db_ledger db))" "list_all (\<lambda>r. rev_payment_id r \<noteq> i) (db_reversals db)"
  shows "\<exists>x. reverse_payment ev i admin reason now db = Inl x"
proof (rule ccontr)
  assume "\<nexists>e. reverse_payment ev i admin reason now db = Inl e"
  then obtain r db' where "reverse_payment ev i admin reason now db = Inr (r, db')"
    by (metis old.sum.exhaust surj_pair)
  from reverse_fresh [OF this assms(7)] assms(1,2) obtain p t where p: "pay_id p = i"
    "reverse_contribution ev p s admin (py_strip reason) t db = Inr (r, db')" by auto
  from reverse_contribution_run [OF p(2)] obtain c m a d v credit originals x db1 comps db2 db4 where
    run: "contribution_undone ev p s admin (py_strip reason) t db r db' c m a d v credit originals x db1 comps db2 db4"
    by (elim exE) (rule that)
  then have lock: "lock_member_financial_account (con_member_id c) db = Inr (m, a, d)"
    and os: "find_original_ledger (pay_id p) (am_applied v) d = Inr originals" by (simp_all add: contribution_undone_def Let_def)
  from lock_accounts_only [OF lock] obtain acc where d: "d = db\<lparr>db_accounts := acc\<rparr>" .
  have mem: "e \<in> set (referenced_entries (pay_id p) d)" using e p(1) by (simp add: referenced_entries_def d)
  have uniq: "led_id x = led_id y \<Longrightarrow> x = y" if "x \<in> set (db_ledger d)" "y \<in> set (db_ledger d)" for x y
    using assms(6) that by (auto simp: d distinct_map dest: inj_onD)
  show False
  proof (cases "am_applied v = 0")
    case True
    with os mem show False by (auto simp: find_original_ledger_def Let_def split: if_splits)
  next
    case False
    with os obtain row where row: "filter (\<lambda>r. led_reference_type r = ''CONTRIBUTION_PAYMENT'') (referenced_entries (pay_id p) d) = [row]"
      "filter (\<lambda>x. led_id x \<noteq> led_id row) (referenced_entries (pay_id p) d) = []"
      by (auto simp: find_original_ledger_def Let_def split: list.splits if_splits)
    have "row \<in> set (filter (\<lambda>r. led_reference_type r = ''CONTRIBUTION_PAYMENT'') (referenced_entries (pay_id p) d))"
      unfolding row(1) by simp
    then have "row \<in> set (referenced_entries (pay_id p) d)" "led_reference_type row = ''CONTRIBUTION_PAYMENT''" by simp_all
    moreover have "led_id e = led_id row" using row(2) mem by (auto simp: filter_empty_conv)
    ultimately show False using uniq [of e row] mem e(3) by (auto simp: referenced_entries_def)
  qed
qed

section \<open>Compensation\<close>

definition compensates :: "ledger_row \<Rightarrow> ledger_row \<Rightarrow> bool" where
  "compensates original e \<longleftrightarrow> led_reversal_of_id e = Some (led_id original) \<and> led_amount e = led_amount original
     \<and> led_account e = led_account original \<and> led_direction e = opposite_of original"

lemma post_compensation_Inr:
  assumes "post_compensation ev (opposite_of original) original db = Inr (e, db')" "chain_errors (ev_ledger_hash ev) (db_ledger db) = []"
  shows "db' = db\<lparr>db_ledger := db_ledger db @ [e]\<rparr> \<and> compensates original e
    \<and> chain_errors (ev_ledger_hash ev) (db_ledger db @ [e]) = []"
proof -
  from assms(1) obtain rows where p: "post_entry (ev_ledger_hash ev) (ev_now ev) (led_account original) (opposite_of original)
      (dec (led_amount original)) ''REVERSAL'' (py_str (led_id original)) (Some (led_id original)) (db_ledger db) = Inr (e, rows)"
    "db' = db\<lparr>db_ledger := rows\<rparr>" by (auto simp: post_compensation_def res_bind_eq_Inr)
  from post_entry_Inr [OF p(1)] posts_chain [OF posts_intros(1) [OF p(1)] assms(2)] p(2) show ?thesis
    by (auto simp: compensates_def)
qed

lemma add_component_Inr:
  "add_component i x y db = Inr db' \<Longrightarrow> \<exists>cs. db' = db\<lparr>db_reversal_components := cs\<rparr>"
  by (auto simp: add_component_def split: if_splits)

lemma compensate_fold:
  assumes "fold_res (compensate ev checked i) originals (cs, db) = Inr (cs', db')"
    and "chain_errors (ev_ledger_hash ev) (db_ledger db) = []"
  shows "\<exists>es comps. db' = db\<lparr>db_ledger := db_ledger db @ es, db_reversal_components := comps\<rparr>
    \<and> list_all2 compensates originals es \<and> chain_errors (ev_ledger_hash ev) (db_ledger db @ es) = []"
  using assms
proof (induction originals arbitrary: cs db)
  case Nil
  then show ?case by (intro exI [of _ "[]"] exI [of _ "db_reversal_components db"]) simp
next
  case (Cons x xs)
  from Cons.prems(1) obtain st where st: "compensate ev checked i x (cs, db) = Inr st"
    "fold_res (compensate ev checked i) xs st = Inr (cs', db')" by (auto simp: res_bind_eq_Inr)
  from st(1) obtain e db1 db2 where e: "post_compensation ev (opposite_of x) x db = Inr (e, db1)"
    "add_component i x e db1 = Inr db2" "st = (cs @ [(x, e)], db2)"
    by (auto simp: compensate_def Let_def res_bind_eq_Inr split: if_splits)
  from post_compensation_Inr [OF e(1) Cons.prems(2)] have db1: "db1 = db\<lparr>db_ledger := db_ledger db @ [e]\<rparr>" "compensates x e"
    "chain_errors (ev_ledger_hash ev) (db_ledger db @ [e]) = []" by auto
  from add_component_Inr [OF e(2)] obtain comps where db2: "db2 = db1\<lparr>db_reversal_components := comps\<rparr>" by blast
  have "chain_errors (ev_ledger_hash ev) (db_ledger db2) = []" using db1 by (simp add: db2)
  from Cons.IH [OF st(2) [unfolded e(3)] this] obtain es comps' where
    "db' = db2\<lparr>db_ledger := db_ledger db2 @ es, db_reversal_components := comps'\<rparr>" "list_all2 compensates xs es"
    "chain_errors (ev_ledger_hash ev) (db_ledger db2 @ es) = []" by blast
  with db1(2) show ?case
    by (intro exI [of _ "e # es"] exI [of _ comps']) (simp add: db2 db1(1))
qed

text \<open>The originals a branch compensates: credits of the pool in the payment's name that add up to the amount.\<close>

definition originals_ok :: "int \<Rightarrow> cents \<Rightarrow> 'a books_scheme \<Rightarrow> ledger_row list \<Rightarrow> bool" where
  "originals_ok i amount db originals \<longleftrightarrow> set originals \<subseteq> set (db_ledger db) \<and> (\<Sum>x\<leftarrow>originals. led_amount x) = amount
     \<and> list_all (\<lambda>x. led_account x = ''CAIXINHA'' \<and> led_direction x = ''CREDIT'' \<and> led_reference_id x = py_str i) originals"

lemma referenced_mem: "x \<in> set (referenced_entries i db) \<longleftrightarrow> x \<in> set (db_ledger db) \<and> led_reference_id x = py_str i"
  by (auto simp: referenced_entries_def)

lemma filter_one_mem: "filter P xs = [x] \<Longrightarrow> x \<in> set xs \<and> P x"
  by (auto dest!: arg_cong [of _ _ set])

lemma find_original_ok:
  assumes "find_original_ledger i amount db = Inr originals" "distinct (map led_id (db_ledger db))"
  shows "originals_ok i amount db originals"
proof (cases "amount = 0")
  case True
  with assms show ?thesis by (auto simp: find_original_ledger_def originals_ok_def Let_def split: if_splits)
next
  case False
  with assms(1) obtain row where row: "filter (\<lambda>r. led_reference_type r = ''CONTRIBUTION_PAYMENT'') (referenced_entries i db) = [row]"
    "filter (\<lambda>x. led_id x \<noteq> led_id row) (referenced_entries i db) = []" "originals = referenced_entries i db"
    "led_account row = ''CAIXINHA''" "led_direction row = ''CREDIT''" "led_amount row = amount"
    by (auto simp: find_original_ledger_def Let_def split: list.splits if_splits)
  from filter_one_mem [OF row(1)] have mem: "row \<in> set (referenced_entries i db)" ..
  have d: "distinct (map led_id (referenced_entries i db))"
    using assms(2) by (simp add: referenced_entries_def distinct_map_filter)
  have "\<forall>x\<in>set (referenced_entries i db). led_id x = led_id row" using row(2) by (auto simp: filter_empty_conv)
  then have "set (referenced_entries i db) = {row}" using d mem by (auto simp: distinct_map dest: inj_onD)
  then have "referenced_entries i db = [row]" using d by (metis distinct_map distinct_singleton empty_set list.simps(15) set_empty
      distinct.simps(2) list.exhaust list.set_intros(1) singletonD insert_iff)
  with mem [unfolded referenced_mem] row(3-6) show ?thesis by (simp add: originals_ok_def)
qed

lemma loan_ledger_ok:
  assumes "loan_ledger (referenced_entries i db) db (kind, amount) = Inr found" "0 \<le> amount"
  shows "originals_ok i amount db found"
proof -
  from assms(1) consider "found = []" "\<not> 0 < amount"
    | row where "filter (\<lambda>r. led_reference_type r = kind) (referenced_entries i db) = [row]" "found = [row]" "0 < amount"
        "led_account row = ''CAIXINHA''" "led_direction row = ''CREDIT''" "led_amount row = amount"
    by (auto simp: loan_ledger_def Let_def split: if_splits list.splits)
  then show ?thesis
  proof cases
    case 1
    with assms(2) show ?thesis by (simp add: originals_ok_def)
  next
    case (2 row)
    from filter_one_mem [OF 2(1)] 2(2-6) show ?thesis by (simp add: originals_ok_def referenced_mem)
  qed
qed

lemma loan_ledgers_ok:
  assumes "loan_ledgers i v db = Inr originals" "0 \<le> am_interest v" "0 \<le> am_penalty v"
  shows "originals_ok i (am_interest v + am_penalty v) db originals"
proof -
  from assms(1) obtain xs ys where "loan_ledger (referenced_entries i db) db (''LOAN_INTEREST_PAYMENT'', am_interest v) = Inr xs"
    "loan_ledger (referenced_entries i db) db (''LOAN_PENALTY_PAYMENT'', am_penalty v) = Inr ys" "originals = xs @ ys"
    by (auto simp: loan_ledgers_def res_bind_eq_Inr)
  with loan_ledger_ok assms(2,3) have "originals_ok i (am_interest v) db xs" "originals_ok i (am_penalty v) db ys" by blast+
  with \<open>originals = xs @ ys\<close> show ?thesis by (simp add: originals_ok_def)
qed

lemma agreement_original_ok:
  assumes "agreement_original i v db = Inr original"
  shows "originals_ok i (am_applied v) db [original]"
proof -
  from assms obtain "filter (\<lambda>r. led_reference_type r = ''AGREEMENT_INSTALLMENT_PAYMENT'' \<and> led_reversal_of_id r = None)
      (referenced_entries i db) = [original]" "led_account original = ''CAIXINHA''" "led_direction original = ''CREDIT''"
      "led_amount original = am_applied v"
    by (auto simp: agreement_original_def Let_def split: list.splits if_splits)
  with filter_one_mem [OF this(1)] show ?thesis by (simp add: originals_ok_def referenced_mem)
qed

text \<open>What every branch leaves behind: the reversal row at the end of its table and the compensating entries at the
  end of the ledger; payments and settlements are untouched.\<close>

definition undone :: "env \<Rightarrow> int \<Rightarrow> cents \<Rightarrow> reversal_row \<Rightarrow> 'a database_scheme \<Rightarrow> 'a database_scheme \<Rightarrow> bool" where
  "undone ev i amount r db db' \<longleftrightarrow> rev_payment_id r = i \<and> db_reversals db' = db_reversals db @ [r]
     \<and> list_all (\<lambda>x. rev_payment_id x \<noteq> i) (db_reversals db)
     \<and> db_payments db' = db_payments db \<and> db_settlements db' = db_settlements db
     \<and> (\<exists>originals es. db_ledger db' = db_ledger db @ es \<and> originals_ok i amount db originals \<and> list_all2 compensates originals es
          \<and> chain_errors (ev_ledger_hash ev) (db_ledger db') = [])"

lemma new_reversal_simps [simp]:
  "rev_id (new_reversal ev i p s ad re t co du k v) = i" "rev_payment_id (new_reversal ev i p s ad re t co du k v) = pay_id p"
  "rev_settlement_id (new_reversal ev i p s ad re t co du k v) = stl_id s"
  "rev_amount_applied (new_reversal ev i p s ad re t co du k v) = am_applied v"
  "rev_principal_applied (new_reversal ev i p s ad re t co du k v) = am_principal v"
  by (simp_all add: new_reversal_def)

lemma insert_reversal_Inr:
  "insert_reversal r db = Inr db' \<Longrightarrow> db' = db\<lparr>db_reversals := db_reversals db @ [r]\<rparr>
     \<and> list_all (\<lambda>x. rev_payment_id x \<noteq> rev_payment_id r) (db_reversals db)"
  by (auto simp: insert_reversal_def reversals_clash_def list_all_iff list_ex_iff split: if_splits)

lemma finish_reversal_Inr:
  assumes "finish_reversal ev snapshot r db = Inr (r', db')" "db_reversals db = old @ [r]" "rev_id r = next_id rev_id old"
  shows "db' = db\<lparr>db_reversals := old @ [r']\<rparr> \<and> rev_payment_id r' = rev_payment_id r \<and> rev_id r' = rev_id r
    \<and> rev_amount_applied r' = rev_amount_applied r"
proof -
  have "x \<in> set old \<Longrightarrow> rev_id x \<noteq> rev_id r" for x using next_id_fresh [of x old rev_id] assms(3) by simp
  then have put: "rev_id x = rev_id r \<Longrightarrow> put_by rev_id x (old @ [r]) = old @ [x]" for x
    by (auto simp: put_by_def intro!: map_idI)
  show ?thesis using assms(1,2) by (auto simp: finish_reversal_def Let_def put split: if_splits)
qed

lemma reversal_entry_Inr:
  assumes "reversal_entry now m a kind amount c i db = Inr (e, db')"
  shows "db' = db\<lparr>db_entries := db_entries db @ [e]\<rparr> \<and> ent_entry_type e = kind \<and> ent_direction e = ''DEBIT''
    \<and> ent_amount e = amount \<and> ent_account_id e = acc_id a \<and> ent_reversal_id e = Some i \<and> ent_contribution_id e = c"
proof -
  from assms obtain e0 db1 where e0: "add_member_financial_entry now m
      \<lparr>rq_entry_type = kind, rq_direction = ''DEBIT'', rq_amount = dec amount, rq_reference_type = Some ''PAYMENT_REVERSAL'',
        rq_reference_id = Some (py_str i), rq_account = Some a, rq_contribution_id = None, rq_settlement_id = None\<rparr> db = Inr (e0, db1)"
    "e = e0\<lparr>ent_contribution_id := c, ent_reversal_id := Some i\<rparr>" "db' = db1\<lparr>db_entries := put_by ent_id e (db_entries db1)\<rparr>"
    by (auto simp: reversal_entry_def res_bind_eq_Inr Let_def)
  have "x \<in> set (db_entries db) \<Longrightarrow> ent_id x \<noteq> next_id ent_id (db_entries db)" for x
    using next_id_fresh [of x "db_entries db" ent_id] by simp
  then have "put_by ent_id e (db_entries db @ [e0]) = db_entries db @ [e]"
    using add_entry_Inr [OF e0(1)] by (auto simp: put_by_def e0(2) intro!: map_idI)
  with add_entry_Inr [OF e0(1)] e0(2,3) show ?thesis by simp
qed

lemma take_back_credit_Inr:
  assumes "take_back_credit now m a credit c i db = Inr db'"
  shows "\<exists>es. db' = db\<lparr>db_entries := db_entries db @ es\<rparr> \<and> (if 0 < credit then \<exists>e. es = [e] \<and> ent_entry_type e = ''CONTRIBUTION_REVERSAL''
      \<and> ent_direction e = ''DEBIT'' \<and> ent_amount e = credit \<and> ent_contribution_id e = Some c \<and> ent_account_id e = acc_id a else es = [])"
proof (cases "0 < credit")
  case True
  with assms obtain e where "reversal_entry now m a ''CONTRIBUTION_REVERSAL'' credit (Some c) i db = Inr (e, db')"
    by (auto simp: take_back_credit_def res_bind_eq_Inr)
  from reversal_entry_Inr [OF this] True show ?thesis by (intro exI [of _ "[e]"]) simp
next
  case False
  with assms show ?thesis by (intro exI [of _ "[]"]) (simp add: take_back_credit_def)
qed

lemma contribution_shape:
  assumes run: "contribution_undone ev p s admin reason t db0 r' db' c m a db v credit originals r db1 comps db2 db4"
    and chain: "chain_errors (ev_ledger_hash ev) (db_ledger db0) = []" and ids: "distinct (map led_id (db_ledger db0))"
  shows "undone ev (pay_id p) (am_applied v) r' db0 db'
    \<and> db_contributions db' = put_by con_id (unpay_contribution (money (con_paid_amount c) - am_applied v)
        (contribution_financial_status c (money (con_paid_amount c) - am_applied v) t) c) (db_contributions db0)
    \<and> rev_amount_applied r' = am_applied v
    \<and> (\<exists>es. db_entries db' = db_entries db0 @ es \<and> (if 0 < credit then \<exists>e. es = [e] \<and> ent_entry_type e = ''CONTRIBUTION_REVERSAL''
      \<and> ent_direction e = ''DEBIT'' \<and> ent_amount e = credit \<and> ent_contribution_id e = Some (con_id c) \<and> ent_account_id e = acc_id a else es = []))"
proof -
  define c' where "c' = unpay_contribution (money (con_paid_amount c) - am_applied v)
        (contribution_financial_status c (money (con_paid_amount c) - am_applied v) t) c"
  note steps = run [unfolded contribution_undone_def Let_def, folded c'_def]
  have lock: "lock_member_financial_account (con_member_id c) db0 = Inr (m, a, db)"
    and originals: "find_original_ledger (pay_id p) (am_applied v) db = Inr originals"
    and r_eq: "r = new_reversal ev (next_id rev_id (db_reversals db)) p s admin reason t (Some (con_competence c)) None ''CONTRIBUTION_COMPETENCE'' v"
    and ins: "insert_reversal r db = Inr db1"
    and comp: "fold_res (compensate ev True (rev_id r)) originals ([], db1) = Inr (comps, db2)"
    and credit: "take_back_credit (ev_now ev) m a credit (con_id c) (rev_id r) (put_contribution c' db2) = Inr db4"
    by (insert steps, (elim conjE, assumption)+)
  have r: "rev_payment_id r = pay_id p" "rev_id r = next_id rev_id (db_reversals db)" "rev_amount_applied r = am_applied v"
    by (simp_all add: r_eq)
  from steps have fin: "\<exists>snapshot db5. finish_reversal ev snapshot r db4 = Inr (r', db5)
      \<and> db' = add_audit (Some admin) ''PAYMENT_REVERSED'' ''PAYMENT'' (py_str (pay_id p)) db5"
    by (elim conjE exE) (rule exI, rule exI, rule conjI, assumption, assumption)
  from lock_accounts_only [OF lock] obtain acc where d: "db = db0\<lparr>db_accounts := acc\<rparr>" .
  have d1: "db1 = db\<lparr>db_reversals := db_reversals db @ [r]\<rparr>" "list_all (\<lambda>x. rev_payment_id x \<noteq> pay_id p) (db_reversals db)"
    using insert_reversal_Inr [OF ins] r(1) by auto
  have "chain_errors (ev_ledger_hash ev) (db_ledger db1) = []" using chain by (simp add: d1 d)
  from compensate_fold [OF comp this] obtain es cs where
    d2: "db2 = db1\<lparr>db_ledger := db_ledger db1 @ es, db_reversal_components := cs\<rparr>" "list_all2 compensates originals es"
      "chain_errors (ev_ledger_hash ev) (db_ledger db1 @ es) = []" by blast
  from take_back_credit_Inr [OF credit] obtain ns where
    d4: "db4 = (put_contribution c' db2)\<lparr>db_entries := db_entries (put_contribution c' db2) @ ns\<rparr>" and
    ns: "if 0 < credit then \<exists>e. ns = [e] \<and> ent_entry_type e = ''CONTRIBUTION_REVERSAL''
      \<and> ent_direction e = ''DEBIT'' \<and> ent_amount e = credit \<and> ent_contribution_id e = Some (con_id c) \<and> ent_account_id e = acc_id a else ns = []" by blast
  have old: "db_reversals db4 = db_reversals db @ [r]" by (simp add: d4 put_contribution_def d2 d1)
  from fin obtain snapshot db5 where f: "finish_reversal ev snapshot r db4 = Inr (r', db5)"
    "db' = add_audit (Some admin) ''PAYMENT_REVERSED'' ''PAYMENT'' (py_str (pay_id p)) db5" by blast
  note d5 = finish_reversal_Inr [OF f(1) old r(2)]
  have ok: "originals_ok (pay_id p) (am_applied v) db0 originals"
    using find_original_ok [OF originals] ids by (simp add: d originals_ok_def)
  have tabs: "db_reversals db' = db_reversals db0 @ [r']" "db_payments db' = db_payments db0" "db_settlements db' = db_settlements db0"
    "db_ledger db' = db_ledger db0 @ es" "db_entries db' = db_entries db0 @ ns"
    "db_contributions db' = put_by con_id c' (db_contributions db0)"
    using d5 by (simp_all add: f(2) add_audit_def d4 put_contribution_def d2 d1 d)
  have "undone ev (pay_id p) (am_applied v) r' db0 db'"
    unfolding undone_def using tabs(1-4) d5 r(1) d1(2) d2(2,3) ok by (auto simp: d1(1) d)
  with tabs(5,6) ns d5 r(3) show ?thesis by (auto simp: c'_def)
qed

lemma agreement_shape:
  fixes db :: "'a database_scheme"
  assumes run: "reverse_agreement_payment ev p s admin reason t db = Inr (r', db')"
    and chain: "chain_errors (ev_ledger_hash ev) (db_ledger db) = []"
  shows "\<exists>v agreement item b a. validate_agreement_settlement ev p s db = Inr (v, agreement, item, b, a)
    \<and> agreement_unchanged v agreement item b a = Inr () \<and> undone ev (pay_id p) (am_applied v) r' db db'
    \<and> rev_amount_applied r' = am_applied v \<and> db_entries db' = db_entries db
    \<and> db_agreement_installments db' = put_by agi_id (restored_item b item) (db_agreement_installments db)
    \<and> db_agreements db' = put_by agr_id (restored_agreement b agreement) (db_agreements db)"
proof -
  from run show ?thesis unfolding reverse_agreement_payment_def
  proof (elim res_bind_InrE, goal_cases)
    case (1 x)
    obtain v agreement item b a where x: "x = (v, agreement, item, b, a)" by (metis prod_cases5)
    define r where "r = new_reversal ev (next_id rev_id (db_reversals db)) p s admin reason t None (Some (agi_due_date item))
               ''AGREEMENT_INSTALLMENT_DUE_DATE'' v"
    have r: "rev_payment_id r = pay_id p" "rev_id r = next_id rev_id (db_reversals db)" "rev_amount_applied r = am_applied v"
      by (simp_all add: r_def)
    note valid = 1(1) [unfolded x]
    from 1(2) [unfolded x prod.case r_def [symmetric] Let_def] show ?case
    proof (elim res_bind_InrE, goal_cases)
      case (1 u original db1 y)
      obtain e db2 where y: "y = (e, db2)" by (cases y) auto
      note facts = 1(1-4)
      from 1(5) [unfolded y prod.case] show ?case
      proof (elim res_bind_InrE if_Inl_InrE, goal_cases)
        case (1 db3 z)
        obtain r2 db4 where z: "z = (r2, db4)" by (cases z) auto
        have d1: "db1 = db\<lparr>db_reversals := db_reversals db @ [r]\<rparr>" "list_all (\<lambda>x. rev_payment_id x \<noteq> pay_id p) (db_reversals db)"
          using insert_reversal_Inr [OF facts(3)] r(1) by auto
        have ok: "originals_ok (pay_id p) (am_applied v) db [original]" using agreement_original_ok [OF facts(2)] .
        then have "opposite_of original = ''DEBIT''" by (simp add: originals_ok_def opposite_of_def)
        with facts(4) y have comp: "post_compensation ev (opposite_of original) original db1 = Inr (e, db2)" by simp
        have "chain_errors (ev_ledger_hash ev) (db_ledger db1) = []" using chain by (simp add: d1)
        from post_compensation_Inr [OF comp this] have d2: "db2 = db1\<lparr>db_ledger := db_ledger db1 @ [e]\<rparr>" "compensates original e"
          "chain_errors (ev_ledger_hash ev) (db_ledger db1 @ [e]) = []" by auto
        from add_component_Inr [OF 1(2)] obtain cs where d3: "db3 = db2\<lparr>db_reversal_components := cs\<rparr>" by blast
        have fin: "finish_reversal ev (agreement_reversal_snapshot r p s b a (restored_agreement b agreement) (restored_item b item) original e) r
            (put_agreement (restored_agreement b agreement) (put_agreement_installment (restored_item b item) db3)) = Inr (r2, db4)"
          using 1(4) z by simp
        have out: "r' = r2" "db' = add_audit (Some admin) ''PAYMENT_REVERSED_AGREEMENT_INSTALLMENT'' ''PAYMENT'' (py_str (pay_id p)) db4"
          using 1(5) z by simp_all
        have old: "db_reversals (put_agreement (restored_agreement b agreement) (put_agreement_installment (restored_item b item) db3))
            = db_reversals db @ [r]" by (simp add: put_agreement_def put_agreement_installment_def d3 d2 d1)
        note d4 = finish_reversal_Inr [OF fin old r(2)]
        have tabs: "db_reversals db' = db_reversals db @ [r']" "db_payments db' = db_payments db" "db_settlements db' = db_settlements db"
          "db_ledger db' = db_ledger db @ [e]" "db_entries db' = db_entries db"
          "db_agreement_installments db' = put_by agi_id (restored_item b item) (db_agreement_installments db)"
          "db_agreements db' = put_by agr_id (restored_agreement b agreement) (db_agreements db)"
          using d4 by (simp_all add: out add_audit_def put_agreement_def put_agreement_installment_def d3 d2 d1)
        have "undone ev (pay_id p) (am_applied v) r' db db'"
          unfolding undone_def using tabs(1-4) d4 r(1) d1(2) d2(2,3) ok out(1)
          by (auto simp: d1(1) intro!: exI [of _ "[original]"])
        with tabs(5-7) d4 r(3) out(1) valid facts(1) show ?case
          by - (rule exI [of _ v], rule exI [of _ agreement], rule exI [of _ item], rule exI [of _ b], rule exI [of _ a], simp)
      qed
    qed
  qed
qed

lemma reversal_adjustment_keeps [keeps]:
  "materialize_reversal_late_interest_adjustment vf i db = Inr (e, db') \<Longrightarrow> keeps_books db db'"
  by (auto simp: materialize_reversal_late_interest_adjustment_def res_bind_eq_Inr Let_def split: if_splits option.splits
      dest!: adjustment_keeps)

lemma adjust_reversed_keeps:
  assumes "adjust_reversed_interest ev s i j db = Inr db'"
  shows "keeps_books db db' \<and> (stl_component_version s = None \<longrightarrow> db' = db)"
  using assms by (auto simp: adjust_reversed_interest_def res_bind_eq_Inr split: if_splits
      intro: keeps_then_put dest!: reversal_adjustment_keeps)

text \<open>Bringing late interest back changes two projections of the reversed installment and no other row: the late
  interest charged and, on an installment with versioned charges, the penalty shown.\<close>

lemma put_by_again: "k y = k x \<Longrightarrow> put_by k y (put_by k x rows) = put_by k y rows"
  by (induction rows) (auto simp: put_by_def)

lemma late_versions: "Loan_Obligations.LATE_CHARGE_VERSION = Amortization.LATE_CHARGE_VERSION"
  by (simp only: Loan_Obligations.LATE_CHARGE_VERSION_def Amortization.LATE_CHARGE_VERSION_def)

lemma insert_unique_event_rows:
  "insert_unique_event row db = Inr (e, created, db') \<Longrightarrow> db_installments db' = db_installments db"
  by (auto simp: insert_unique_event_def res_bind_eq_Inr Let_def split: option.splits if_splits)

lemma adjustment_put:
  assumes "materialize_adjustment vf inst kind day x y db = Inr (e, db')"
  shows "db' = db \<or> (\<exists>late. db_installments db' = put_by ins_id (inst\<lparr>ins_late_interest_amount := late\<rparr>) (db_installments db))"
proof (cases "ins_late_interest_accrued_through_date inst")
  case (Some cursor)
  from assms show ?thesis
  proof (cases "cursor < day")
    case False
    with assms Some obtain existing where ex: "one_or_none (event_query db (ins_id inst) kind None x y) = Inr existing"
      by (auto simp: materialize_adjustment_def res_bind_eq_Inr)
    show ?thesis
    proof (cases existing)
      case None
      with assms Some False ex show ?thesis
        by (auto simp: materialize_adjustment_def res_bind_eq_Inr Let_def put_installment_def
            dest!: insert_unique_event_rows)
    qed (use assms Some False ex in \<open>auto simp: materialize_adjustment_def\<close>)
  qed (use assms Some in \<open>auto simp: materialize_adjustment_def\<close>)
qed (use assms in \<open>auto simp: materialize_adjustment_def\<close>)

lemma adjustment_rows:
  assumes "materialize_adjustment vf inst kind day x y db = Inr (e, db')"
    and "db_installments db = put_by ins_id inst rows"
  shows "\<exists>late. db_installments db' = put_by ins_id (inst\<lparr>ins_late_interest_amount := late\<rparr>) rows"
  using adjustment_put [OF assms(1)]
proof
  assume "db' = db"
  then show ?thesis using assms(2) by (intro exI [of _ "ins_late_interest_amount inst"]) simp
next
  assume "\<exists>late. db_installments db' = put_by ins_id (inst\<lparr>ins_late_interest_amount := late\<rparr>) (db_installments db)"
  then show ?thesis by (auto simp: assms(2) put_by_again)
qed

lemma reversal_adjustment_rows:
  assumes run: "materialize_reversal_late_interest_adjustment vf i db = Inr (e, db')"
    and "get_by rev_id i (db_reversals db) = Some r" "get_by stl_id (rev_settlement_id r) (db_settlements db) = Some s"
    and "stl_loan_installment_id s = Some (ins_id inst)"
    and rows: "db_installments db = put_by ins_id inst rows" and "get_by ins_id (ins_id inst) rows \<noteq> None"
  shows "\<exists>late. db_installments db' = put_by ins_id (inst\<lparr>ins_late_interest_amount := late\<rparr>) rows"
proof -
  have find: "find_installment (ins_id inst) db = Inr inst"
    using get_by_put_same [of ins_id inst rows] assms(6) by (simp add: find_installment_def rows)
  show ?thesis
  proof (cases "ins_late_charge_version inst = Some LATE_CHARGE_VERSION")
    case True
    with run have "materialize_adjustment vf inst ADJUSTMENT_INCREASE (adjustment_effective_date (rev_reversed_at r)) None (Some i) db = Inr (e, db')"
      by (simp add: materialize_reversal_late_interest_adjustment_def assms(2-4) find installment_of_settlement_def late_versions split: if_splits)
    then show ?thesis using rows by (rule adjustment_rows)
  next
    case False
    with run have "db' = db"
      by (simp add: materialize_reversal_late_interest_adjustment_def assms(2-4) find installment_of_settlement_def late_versions split: if_splits)
    then show ?thesis using rows by (intro exI [of _ "ins_late_interest_amount inst"]) simp
  qed
qed

lemma get_by_next_id: "k r = next_id k rows \<Longrightarrow> get_by k (next_id k rows) (rows @ [r]) = Some r"
proof -
  assume r: "k r = next_id k rows"
  have "find (\<lambda>x. k x = next_id k rows) rows = None" by (auto simp: find_None_iff dest: next_id_fresh [of _ rows k])
  then show ?thesis by (simp add: get_by_def find_append r)
qed

text \<open>What the two projections become.\<close>

definition brought_back :: "settlement_row \<Rightarrow> installment_row \<Rightarrow> cents option \<Rightarrow> cents \<Rightarrow> bool" where
  "brought_back s inst late penalty \<longleftrightarrow>
     (if stl_component_version s = None then late = ins_late_interest_amount inst \<and> penalty = ins_penalty_amount inst
      else if ins_late_charge_version inst = Some LATE_CHARGE_VERSION
        then penalty = money (ins_fixed_penalty_amount inst) + money late
      else penalty = ins_penalty_amount inst)"

lemma adjust_reversed_rows:
  assumes run: "adjust_reversed_interest ev s i (ins_id inst) db = Inr db'"
    and "get_by rev_id i (db_reversals db) = Some r" "get_by stl_id (rev_settlement_id r) (db_settlements db) = Some s"
    and "stl_loan_installment_id s = Some (ins_id inst)"
    and rows: "db_installments db = put_by ins_id inst rows" and known: "get_by ins_id (ins_id inst) rows \<noteq> None"
  shows "\<exists>late penalty. db_installments db' = put_by ins_id
      (inst\<lparr>ins_late_interest_amount := late, ins_penalty_amount := penalty\<rparr>) rows
    \<and> brought_back s inst late penalty"
proof (cases "stl_component_version s")
  case None
  with run rows show ?thesis by (auto simp: adjust_reversed_interest_def brought_back_def
        intro!: exI [of _ "ins_late_interest_amount inst"] exI [of _ "ins_penalty_amount inst"])
next
  case (Some v)
  with run obtain e db1 i1 where one: "materialize_reversal_late_interest_adjustment (ev_verifier ev) i db = Inr (e, db1)"
    "find_installment (ins_id inst) db1 = Inr i1"
    "db' = (if ins_late_charge_version i1 = Some LATE_CHARGE_VERSION
       then put_installment (i1\<lparr>ins_penalty_amount := projected_penalty i1\<rparr>) db1 else db1)"
    by (auto simp: adjust_reversed_interest_def res_bind_eq_Inr late_versions)
  from reversal_adjustment_rows [OF one(1) assms(2-6)] obtain late where
    late: "db_installments db1 = put_by ins_id (inst\<lparr>ins_late_interest_amount := late\<rparr>) rows" by blast
  let ?i = "inst\<lparr>ins_late_interest_amount := late\<rparr>"
  have "i1 = ?i" using one(2) get_by_put_same [of ins_id ?i rows] known by (simp add: find_installment_def late)
  with one(3) late Some show ?thesis
    by (intro exI [of _ late] exI [of _ "if ins_late_charge_version inst = Some LATE_CHARGE_VERSION
        then money (ins_fixed_penalty_amount inst) + money late else ins_penalty_amount inst"])
      (auto simp: put_installment_def put_by_again projected_penalty_def brought_back_def)
qed

lemma take_back_principal_Inr:
  assumes "take_back_principal now m a v original i db = Inr (x, db')"
  shows "\<exists>es. db' = db\<lparr>db_entries := db_entries db @ es\<rparr> \<and> (case original of None \<Rightarrow> es = []
    | Some _ \<Rightarrow> \<exists>e. es = [e] \<and> ent_entry_type e = ''LOAN_PRINCIPAL_REVERSAL'' \<and> ent_direction e = ''DEBIT''
        \<and> ent_amount e = am_principal v \<and> ent_account_id e = acc_id a)"
proof (cases original)
  case None
  with assms show ?thesis by (intro exI [of _ "[]"]) (simp add: take_back_principal_def)
next
  case (Some o')
  with assms obtain e where "reversal_entry now m a ''LOAN_PRINCIPAL_REVERSAL'' (am_principal v) None i db = Inr (e, db')"
    by (auto simp: take_back_principal_def res_bind_eq_Inr)
  from reversal_entry_Inr [OF this] Some show ?thesis by (intro exI [of _ "[e]"]) simp
qed

lemma principal_to_reverse_Inr:
  "principal_to_reverse p m a v db = Inr x \<Longrightarrow> x = None \<longleftrightarrow> \<not> 0 < am_principal v"
  by (auto simp: principal_to_reverse_def Let_def split: if_splits list.splits)

lemma validate_money_Inr:
  assumes "validate_money loan s p = Inr v"
  shows "v = amounts_of s \<and> 0 \<le> am_applied v \<and> 0 \<le> am_principal v \<and> 0 \<le> am_interest v \<and> 0 \<le> am_penalty v
    \<and> am_applied v = am_principal v + am_interest v + am_penalty v \<and> (loan \<or> am_principal v = am_applied v)"
  using assms by (auto simp: validate_money_def Let_def res_bind_eq_Inr split: if_splits)

definition loan_undone ::
    "env \<Rightarrow> payment_row \<Rightarrow> settlement_row \<Rightarrow> instant \<Rightarrow> reversal_row \<Rightarrow> 'a database_scheme \<Rightarrow> 'a database_scheme
      \<Rightarrow> amounts \<Rightarrow> int \<Rightarrow> loan_evidence \<Rightarrow> loan_evidence \<Rightarrow> loan_row \<Rightarrow> installment_row \<Rightarrow> member_entry_row list \<Rightarrow> bool" where
  "loan_undone ev p s t r db db' v i b a l inst es \<longleftrightarrow>
     validate_loan_settlement ev p s = Inr (v, i, b, a)
   \<and> get_by ins_id i (db_installments db) = Some inst \<and> get_by loan_id (ins_loan_id inst) (db_loans db) = Some l
   \<and> loan_status l = lev_loan_status a \<and> loan_state_revision l = lev_loan_state_revision a
   \<and> installment_allows s v inst = Inr ()
   \<and> undone ev (pay_id p) (am_interest v + am_penalty v) r db db' \<and> rev_amount_applied r = am_applied v
   \<and> db_entries db' = db_entries db @ es
   \<and> (\<exists>m ac d. lock_member_financial_account (stl_member_id s) db = Inr (m, ac, d) \<and> loan_member_id l = mem_id m
      \<and> (if 0 < am_principal v then \<exists>e. es = [e] \<and> ent_entry_type e = ''LOAN_PRINCIPAL_REVERSAL'' \<and> ent_direction e = ''DEBIT''
        \<and> ent_amount e = am_principal v \<and> ent_account_id e = acc_id ac else es = []))
   \<and> db_loans db' = put_by loan_id (restored_loan b l) (db_loans db)
   \<and> (get_by stl_id (stl_id s) (db_settlements db) = Some s \<longrightarrow>
        (\<exists>late penalty. brought_back s (restored_installment s v b inst) late penalty
          \<and> db_installments db' = put_by ins_id ((restored_installment s v b inst)\<lparr>ins_late_interest_amount := late,
              ins_penalty_amount := penalty\<rparr>) (db_installments db)))"

lemma validate_loan_Inr:
  assumes "validate_loan_settlement ev p s = Inr (v, i, b, a)"
  shows "validate_money True s p = Inr v \<and> stl_loan_installment_id s = Some i \<and> stl_loan_before s = Some b \<and> stl_loan_after s = Some a"
  using assms by (auto simp: validate_loan_settlement_def Let_def res_bind_eq_Inr split: option.splits if_splits)

lemma loan_of_settlement_Inr:
  assumes "loan_of_settlement p i a m db = Inr (l, inst)"
  shows "get_by ins_id i (db_installments db) = Some inst \<and> get_by loan_id (ins_loan_id inst) (db_loans db) = Some l
    \<and> loan_status l = lev_loan_status a \<and> loan_state_revision l = lev_loan_state_revision a \<and> loan_member_id l = mem_id m"
  using assms by (auto simp: loan_of_settlement_def lock_loan_def res_bind_eq_Inr split: option.splits if_splits)

lemma loan_shape:
  fixes db0 :: "'a database_scheme"
  assumes run: "reverse_loan_payment ev p s admin reason t db0 = Inr (r', db')"
    and chain: "chain_errors (ev_ledger_hash ev) (db_ledger db0) = []"
  shows "\<exists>v i b a l inst es. loan_undone ev p s t r' db0 db' v i b a l inst es"
proof -
  from run show ?thesis unfolding reverse_loan_payment_def
  proof (elim res_bind_InrE, goal_cases)
    case (1 x)
    obtain v i b a where x: "x = (v, i, b, a)" by (metis prod_cases4)
    note valid = 1(1) [unfolded x]
    from validate_loan_Inr [OF valid] have "validate_money True s p = Inr v" ..
    note money = validate_money_Inr [OF this]
    from 1(2) [unfolded x prod.case] show ?case
    proof (elim res_bind_InrE, goal_cases)
      case (1 y)
      obtain m ac db where y: "y = (m, ac, db)" by (metis prod_cases3)
      note lock = 1(1) [unfolded y]
      from lock_accounts_only [OF lock] obtain acc where d: "db = db0\<lparr>db_accounts := acc\<rparr>" .
      from 1(2) [unfolded y prod.case] show ?case
      proof (elim res_bind_InrE, goal_cases)
        case (1 z)
        obtain l inst where z: "z = (l, inst)" by (cases z) auto
        note rows = loan_of_settlement_Inr [OF 1(1) [unfolded z]]
        define r where "r = new_reversal ev (next_id rev_id (db_reversals db)) p s admin reason t None (Some (ins_due_date inst))
               ''LOAN_INSTALLMENT_DUE_DATE'' v"
        have r: "rev_payment_id r = pay_id p" "rev_id r = next_id rev_id (db_reversals db)" "rev_amount_applied r = am_applied v"
          "rev_settlement_id r = stl_id s" by (simp_all add: r_def new_reversal_def)
        from 1(2) [unfolded z prod.case r_def [symmetric] Let_def] show ?case
        proof (elim res_bind_InrE, goal_cases)
          case (1 mfe originals u db1 w)
          obtain cmfe db2 where w: "w = (cmfe, db2)" by (cases w) auto
          note facts = 1(1-5)
          from 1(6) [unfolded w prod.case] show ?case
          proof (elim res_bind_InrE, goal_cases)
            case (1 q)
            obtain comps db3 where q: "q = (comps, db3)" by (cases q) auto
            note fold = 1(1) [unfolded q]
            from 1(2) [unfolded q prod.case] show ?case
            proof (elim res_bind_InrE, goal_cases)
              case (1 db4 inst2 f)
              obtain r2 db5 where f: "f = (r2, db5)" by (cases f) auto
              have d1: "db1 = db\<lparr>db_reversals := db_reversals db @ [r]\<rparr>" "list_all (\<lambda>x. rev_payment_id x \<noteq> pay_id p) (db_reversals db)"
                using insert_reversal_Inr [OF facts(4)] r(1) by auto
              from take_back_principal_Inr [OF facts(5) [unfolded w]] obtain es where
                d2: "db2 = db1\<lparr>db_entries := db_entries db1 @ es\<rparr>" and
                es: "case mfe of None \<Rightarrow> es = [] | Some _ \<Rightarrow> \<exists>e. es = [e] \<and> ent_entry_type e = ''LOAN_PRINCIPAL_REVERSAL''
                  \<and> ent_direction e = ''DEBIT'' \<and> ent_amount e = am_principal v \<and> ent_account_id e = acc_id ac" by blast
              have es': "if 0 < am_principal v then \<exists>e. es = [e] \<and> ent_entry_type e = ''LOAN_PRINCIPAL_REVERSAL''
                  \<and> ent_direction e = ''DEBIT'' \<and> ent_amount e = am_principal v \<and> ent_account_id e = acc_id ac else es = []"
                using es principal_to_reverse_Inr [OF facts(1)] by (cases mfe) auto
              have "chain_errors (ev_ledger_hash ev) (db_ledger db2) = []" using chain by (simp add: d2 d1 d)
              from compensate_fold [OF fold this] obtain cs comps' where
                d3: "db3 = db2\<lparr>db_ledger := db_ledger db2 @ cs, db_reversal_components := comps'\<rparr>" "list_all2 compensates originals cs"
                  "chain_errors (ev_ledger_hash ev) (db_ledger db2 @ cs) = []" by blast
              have k: "keeps_books (put_loan (restored_loan b l) (put_installment (restored_installment s v b inst) db3)) db4"
                using adjust_reversed_keeps [OF 1(1)] by auto
              have shown: "\<exists>late penalty. db_installments db4 = put_by ins_id ((restored_installment s v b inst)\<lparr>ins_late_interest_amount := late,
                    ins_penalty_amount := penalty\<rparr>) (db_installments db0) \<and> brought_back s (restored_installment s v b inst) late penalty"
                if "get_by stl_id (stl_id s) (db_settlements db0) = Some s"
              proof (rule adjust_reversed_rows)
                have i: "ins_id (restored_installment s v b inst) = i"
                  using rows by (auto simp: restored_installment_def Let_def dest: get_by_Some_mem)
                show "adjust_reversed_interest ev s (rev_id r) (ins_id (restored_installment s v b inst))
                   (put_loan (restored_loan b l) (put_installment (restored_installment s v b inst) db3)) = Inr db4"
                  unfolding i by (rule 1(1))
                show "get_by rev_id (rev_id r) (db_reversals (put_loan (restored_loan b l) (put_installment (restored_installment s v b inst) db3))) = Some r"
                  by (simp add: put_loan_def put_installment_def d3 d2 d1 r(2) get_by_next_id)
                show "get_by stl_id (rev_settlement_id r) (db_settlements (put_loan (restored_loan b l) (put_installment (restored_installment s v b inst) db3))) = Some s"
                  using that by (simp add: r(4) put_loan_def put_installment_def d3 d2 d1 d)
                show "stl_loan_installment_id s = Some (ins_id (restored_installment s v b inst))"
                  unfolding i using validate_loan_Inr [OF valid] by simp
                show "db_installments (put_loan (restored_loan b l) (put_installment (restored_installment s v b inst) db3)) =
                  put_by ins_id (restored_installment s v b inst) (db_installments db0)"
                  by (simp add: put_loan_def put_installment_def d3 d2 d1 d)
                show "get_by ins_id (ins_id (restored_installment s v b inst)) (db_installments db0) \<noteq> None"
                  unfolding i using rows by (simp add: d)
              qed
              have old: "db_reversals db4 = db_reversals db @ [r]"
                using k(1) by (simp add: keeps_books_def put_loan_def put_installment_def d3 d2 d1)
              have out: "r' = r2" "db' = add_audit (Some admin) ''PAYMENT_REVERSED_LOAN_INSTALLMENT'' ''PAYMENT'' (py_str (pay_id p)) db5"
                using 1(4) f by simp_all
              note d5 = finish_reversal_Inr [OF 1(3) [unfolded f] old r(2)]
              have ok: "originals_ok (pay_id p) (am_interest v + am_penalty v) db0 originals"
              proof -
                have "0 \<le> am_interest v" "0 \<le> am_penalty v" using money by blast+
                from loan_ledgers_ok [OF facts(2) this] show ?thesis by (simp add: d originals_ok_def)
              qed
              have tabs: "db_reversals db' = db_reversals db0 @ [r']" "db_payments db' = db_payments db0"
                "db_settlements db' = db_settlements db0" "db_ledger db' = db_ledger db0 @ cs" "db_entries db' = db_entries db0 @ es"
                "db_loans db' = put_by loan_id (restored_loan b l) (db_loans db0)"
                "db_installments db' = db_installments db4"
                using d5 k by (simp_all add: out add_audit_def keeps_books_def put_loan_def put_installment_def d3 d2 d1 d)
              have "undone ev (pay_id p) (am_interest v + am_penalty v) r' db0 db'"
                unfolding undone_def using tabs(1-4) d5 r(1) d1(2) d3(2,3) ok out(1) by (auto simp: d2 d1(1) d)
              moreover have "\<exists>m ac d. lock_member_financial_account (stl_member_id s) db0 = Inr (m, ac, d) \<and> loan_member_id l = mem_id m
                \<and> (if 0 < am_principal v then \<exists>e. es = [e] \<and> ent_entry_type e = ''LOAN_PRINCIPAL_REVERSAL'' \<and> ent_direction e = ''DEBIT''
                  \<and> ent_amount e = am_principal v \<and> ent_account_id e = acc_id ac else es = [])"
                using lock rows es' by blast
              moreover have "get_by stl_id (stl_id s) (db_settlements db0) = Some s \<longrightarrow> (\<exists>late penalty.
                  brought_back s (restored_installment s v b inst) late penalty
                \<and> db_installments db' = put_by ins_id ((restored_installment s v b inst)\<lparr>ins_late_interest_amount := late,
                    ins_penalty_amount := penalty\<rparr>) (db_installments db0))"
                using shown tabs(7) by metis
              ultimately have "loan_undone ev p s t r' db0 db' v i b a l inst es"
                using tabs(5,6) d5 r(3) out(1) valid facts(3) rows unfolding loan_undone_def by (simp add: d)
              then show ?case by (intro exI)
            qed
          qed
        qed
      qed
    qed
  qed
qed

section \<open>Once, and in balance\<close>

lemma opposite_sum:
  assumes "list_all2 compensates originals es" "originals_ok i amount db originals"
  shows "ledger_balance ''CAIXINHA'' es = - amount \<and> list_all (\<lambda>e. led_account e = ''CAIXINHA'' \<and> led_direction e = ''DEBIT'') es"
proof -
  have "ledger_balance ''CAIXINHA'' es = - (\<Sum>x\<leftarrow>originals. led_amount x)
      \<and> list_all (\<lambda>e. led_account e = ''CAIXINHA'' \<and> led_direction e = ''DEBIT'') es"
    using assms(1) assms(2) [unfolded originals_ok_def, THEN conjunct2, THEN conjunct2]
    by (induction rule: list_all2_induct)
      (auto simp: compensates_def opposite_of_def ledger_balance_def signed_amount_def)
  with assms(2) show ?thesis by (simp add: originals_ok_def)
qed

lemma ledger_balance_app: "ledger_balance account (xs @ ys) = ledger_balance account xs + ledger_balance account ys"
  by (simp add: ledger_balance_def)

text \<open>What a settlement had put into the pool: all it applied, less the principal of a loan installment.\<close>

definition pool_part :: "settlement_row \<Rightarrow> cents" where
  "pool_part s = (if stl_obligation_type s = ''LOAN_INSTALLMENT'' then stl_amount_applied s - stl_principal_applied s
     else stl_amount_applied s)"

lemma reversal_undone:
  fixes db :: "'a database_scheme"
  assumes run: "reverse_payment ev i admin reason now db = Inr (r, db')"
    and fresh: "list_all (\<lambda>x. rev_payment_id x \<noteq> i) (db_reversals db)"
    and s: "lock_payment_settlement i db = Inr (Some s)"
    and chain: "chain_errors (ev_ledger_hash ev) (db_ledger db) = []" and ids: "distinct (map led_id (db_ledger db))"
  shows "undone ev i (pool_part s) r db db' \<and> rev_amount_applied r = stl_amount_applied s"
proof -
  from reverse_fresh [OF run fresh] s obtain p t where p: "pay_id p = i" and branch:
    "(if stl_obligation_type s = ''LOAN_INSTALLMENT'' then reverse_loan_payment ev p s admin (py_strip reason) t db
      else if stl_obligation_type s = ''AGREEMENT_INSTALLMENT'' then reverse_agreement_payment ev p s admin (py_strip reason) t db
      else reverse_contribution ev p s admin (py_strip reason) t db) = Inr (r, db')" by auto
  consider "stl_obligation_type s = ''LOAN_INSTALLMENT''"
    | "stl_obligation_type s = ''AGREEMENT_INSTALLMENT''"
    | "stl_obligation_type s \<noteq> ''LOAN_INSTALLMENT''" "stl_obligation_type s \<noteq> ''AGREEMENT_INSTALLMENT''" by blast
  then show ?thesis
  proof cases
    case 1
    with branch have "reverse_loan_payment ev p s admin (py_strip reason) t db = Inr (r, db')" by simp
    from loan_shape [OF this chain] obtain v j b a l inst es where u: "loan_undone ev p s t r db db' v j b a l inst es"
      by (elim exE) (rule that)
    then have "validate_loan_settlement ev p s = Inr (v, j, b, a)" "undone ev (pay_id p) (am_interest v + am_penalty v) r db db'"
      "rev_amount_applied r = am_applied v" by (simp_all add: loan_undone_def)
    moreover from validate_loan_Inr [OF this(1)] have "validate_money True s p = Inr v" ..
    from validate_money_Inr [OF this] have "v = amounts_of s" "am_interest v + am_penalty v = am_applied v - am_principal v" by auto
    ultimately show ?thesis using 1 p by (simp add: pool_part_def amounts_of_def)
  next
    case 2
    with branch have "reverse_agreement_payment ev p s admin (py_strip reason) t db = Inr (r, db')" by simp
    from agreement_shape [OF this chain] obtain v g x b a where u: "validate_agreement_settlement ev p s db = Inr (v, g, x, b, a)"
      "undone ev (pay_id p) (am_applied v) r db db'" "rev_amount_applied r = am_applied v" by (elim exE conjE) (rule that)
    from u(1) have "validate_money False s p = Inr v"
      by (auto simp: validate_agreement_settlement_def res_bind_eq_Inr split: option.splits if_splits)
    from validate_money_Inr [OF this] u(2,3) 2 p show ?thesis by (simp add: pool_part_def amounts_of_def)
  next
    case 3
    with branch have "reverse_contribution ev p s admin (py_strip reason) t db = Inr (r, db')" by simp
    from reverse_contribution_run [OF this] obtain c m a d v credit originals x db1 comps db2 db4 where
      run: "contribution_undone ev p s admin (py_strip reason) t db r db' c m a d v credit originals x db1 comps db2 db4"
      by (elim exE) (rule that)
    then have "validate_money False s p = Inr v" by (simp add: contribution_undone_def Let_def)
    from validate_money_Inr [OF this] contribution_shape [OF run chain ids] 3 p show ?thesis
      by (simp add: pool_part_def amounts_of_def)
  qed
qed

lemma pass_chain: "fst (verify_ledger_chain hash rows) = ''PASS'' \<longleftrightarrow> chain_errors hash rows = []"
  by (simp add: verify_ledger_chain_def Let_def)

text \<open>C5. A payment is reversed once. A reversal that goes through appends one row, for this payment, and leaves the
  payments and their settlements as they are; asking for it again, whoever asks, with any reason the operation
  accepts, returns that row and changes nothing.\<close>

theorem reversal_once:
  fixes db :: "'a database_scheme"
  assumes "reverse_payment ev i admin reason now db = Inr (r, db')"
    and "list_all (\<lambda>x. rev_payment_id x \<noteq> i) (db_reversals db)"
    and "fst (verify_ledger_chain (ev_ledger_hash ev) (db_ledger db)) = ''PASS''" "distinct (map led_id (db_ledger db))"
    and "5 \<le> length (py_strip reason2)"
  shows "db_reversals db' = db_reversals db @ [r] \<and> rev_payment_id r = i
    \<and> db_payments db' = db_payments db \<and> db_settlements db' = db_settlements db
    \<and> reverse_payment ev2 i admin2 reason2 None db' = Inr (r, db')"
proof -
  from reverse_fresh [OF assms(1,2)] obtain p s where p: "get_by pay_id i (db_payments db) = Some p" "pay_id p = i"
    "lock_payment_settlement i db = Inr (Some s)" by blast
  have "undone ev i (pool_part s) r db db'"
    using reversal_undone [OF assms(1,2) p(3)] assms(3,4) by (simp add: pass_chain)
  then have u: "rev_payment_id r = i" "db_reversals db' = db_reversals db @ [r]" "db_payments db' = db_payments db"
    "db_settlements db' = db_settlements db" by (simp_all add: undone_def)
  have "filter (\<lambda>x. rev_payment_id x = i) (db_reversals db) = []"
    using assms(2) by (auto simp: list_all_iff filter_empty_conv)
  with u p(1,2) assms(5) have "reverse_payment ev2 i admin2 reason2 None db' = Inr (r, db')"
    by (simp add: reverse_payment_def lock_payment_def one_or_none_def Let_def)
  with u show ?thesis by simp
qed

text \<open>C6. A reversal cancels the settlement in the ledger and leaves nothing else there: for every entry it
  compensates, a credit of the pool in the payment's name, there is one debit of the same amount that names it; together
  they take out of the pool exactly what the settlement had put there, and the chain still verifies.\<close>

theorem reversal_books:
  fixes db :: "'a database_scheme"
  assumes "reverse_payment ev i admin reason now db = Inr (r, db')"
    and "list_all (\<lambda>x. rev_payment_id x \<noteq> i) (db_reversals db)" and "lock_payment_settlement i db = Inr (Some s)"
    and "fst (verify_ledger_chain (ev_ledger_hash ev) (db_ledger db)) = ''PASS''" "distinct (map led_id (db_ledger db))"
  shows "\<exists>originals es. db_ledger db' = db_ledger db @ es \<and> fst (verify_ledger_chain (ev_ledger_hash ev) (db_ledger db')) = ''PASS''
    \<and> set originals \<subseteq> set (db_ledger db) \<and> list_all2 compensates originals es
    \<and> list_all (\<lambda>x. led_reference_id x = py_str i) originals
    \<and> list_all (\<lambda>e. led_account e = ''CAIXINHA'' \<and> led_direction e = ''DEBIT'') es
    \<and> ledger_balance ''CAIXINHA'' (db_ledger db') = ledger_balance ''CAIXINHA'' (db_ledger db) - pool_part s
    \<and> rev_amount_applied r = stl_amount_applied s"
proof -
  have u: "undone ev i (pool_part s) r db db'" "rev_amount_applied r = stl_amount_applied s"
    using reversal_undone [OF assms(1-3)] assms(4,5) by (simp_all add: pass_chain)
  then obtain originals es where o: "db_ledger db' = db_ledger db @ es" "originals_ok i (pool_part s) db originals"
    "list_all2 compensates originals es" "chain_errors (ev_ledger_hash ev) (db_ledger db') = []" by (auto simp: undone_def)
  have "list_all (\<lambda>x. led_reference_id x = py_str i) originals" "set originals \<subseteq> set (db_ledger db)"
    using o(2) by (simp_all add: originals_ok_def list_all_iff)
  with o opposite_sum [OF o(3,2)] u(2) show ?thesis
    by (intro exI [of _ originals] exI [of _ es]) (simp add: pass_chain ledger_balance_app)
qed

text \<open>C7. Settling a payment and then reversing it puts the pool's balance back, whatever the obligation: the payment
  leaves no trace in the balance, and both histories are in a chain that verifies.\<close>

theorem settle_then_reverse_pool:
  fixes db :: "'a database_scheme"
  assumes settled: "settle_confirmed_pix_payment ev i src w remote conf db = Inr (s, db1)"
    and fresh: "lock_payment_settlement i db = Inr None" "never_posted i db"
    and pass: "fst (verify_ledger_chain (ev_ledger_hash ev) (db_ledger db)) = ''PASS''"
    and reversed: "reverse_payment ev2 i admin reason now db1 = Inr (r, db2)" "ev_ledger_hash ev2 = ev_ledger_hash ev"
    and "list_all (\<lambda>x. rev_payment_id x \<noteq> i) (db_reversals db1)" "distinct (map led_id (db_ledger db1))"
  shows "ledger_balance ''CAIXINHA'' (db_ledger db2) = ledger_balance ''CAIXINHA'' (db_ledger db)
    \<and> fst (verify_ledger_chain (ev_ledger_hash ev) (db_ledger db2)) = ''PASS''"
proof -
  from settlement_grows [OF settled fresh pass] obtain new where
    new: "db_ledger db1 = db_ledger db @ new" "fst (verify_ledger_chain (ev_ledger_hash ev) (db_ledger db1)) = ''PASS''"
      "list_all (\<lambda>e. led_direction e = ''CREDIT'' \<and> led_account e = ''CAIXINHA'' \<and> led_reference_id e = py_str i) new"
      "(\<Sum>e\<leftarrow>new. led_amount e) = pool_part s"
    by (auto simp: pool_part_def split: if_splits)
  have "ledger_balance ''CAIXINHA'' new = (\<Sum>e\<leftarrow>new. led_amount e)"
    using new(3) by (induction new) (auto simp: ledger_balance_def signed_amount_def)
  then have balance: "ledger_balance ''CAIXINHA'' (db_ledger db1) = ledger_balance ''CAIXINHA'' (db_ledger db) + pool_part s"
    using new by (simp add: ledger_balance_app)
  have "undone ev2 i (pool_part s) r db1 db2"
    using reversal_undone [OF reversed(1) assms(7) settled_found [OF settled fresh(1)]] new(2) assms(8) reversed(2)
    by (simp add: pass_chain)
  then obtain originals es where o: "db_ledger db2 = db_ledger db1 @ es" "originals_ok i (pool_part s) db1 originals"
    "list_all2 compensates originals es" "chain_errors (ev_ledger_hash ev2) (db_ledger db2) = []" by (auto simp: undone_def)
  with opposite_sum [OF o(3,2)] balance reversed(2) show ?thesis by (simp add: pass_chain ledger_balance_app)
qed

section \<open>Round trips\<close>

lemma put_by_twice: "k x = k y \<Longrightarrow> put_by k x (put_by k y rows) = put_by k x rows"
  by (simp add: put_by_def)

lemma one_filter_mem: "one_or_none (filter P xs) = Inr (Some x) \<Longrightarrow> x \<in> set xs \<and> P x"
  by (auto simp: one_or_none_def split: list.splits dest!: filter_one_mem)

lemma agreement_looked_up:
  assumes "apply_to_obligation ev p received t conf remote db = Inr (ef, p', db')" "ef_obligation_type ef = ''AGREEMENT_INSTALLMENT''"
  obtains a x where "settle_agreement ev p received t a x db = Inr (ef, p', db')" "x \<in> set (db_agreement_installments db)"
    "a \<in> set (db_agreements db)" "agr_id a = agi_agreement_id x"
proof -
  have no: "\<not> settle_contribution ev p received t c db = Inr (ef, p', db')" for c
    using assms(2) by (auto elim!: settle_contribution_run simp: contribution_run_def Let_def effect_of_contribution_def)
  have no2: "\<not> settle_loan_installment ev p received t conf x db = Inr (ef, p', db')" for x
    using assms(2) by (auto elim!: settle_loan_installment_run simp: loan_run_def effect_of_loan_def)
  from assms(1) no no2 obtain a x where r: "settle_agreement ev p received t a x db = Inr (ef, p', db')"
      "locked_agreement_installment p db = Inr (Some x)"
      "\<exists>y. one_or_none (filter (\<lambda>x. agi_id x = py_int (text_or_empty (pay_reference_id p))) (db_agreement_installments db)) = Inr (Some y)
         \<and> lock_collection_agreement (agi_agreement_id y) db = Inr a"
    by (auto simp: apply_to_obligation_def res_bind_eq_Inr split: option.splits if_splits)
  from r(2) have x: "one_or_none (filter (\<lambda>x. agi_id x = py_int (text_or_empty (pay_reference_id p))) (db_agreement_installments db)) = Inr (Some x)"
    by (auto simp: locked_agreement_installment_def referenced_id_def split: if_splits)
  with r(3) have "lock_collection_agreement (agi_agreement_id x) db = Inr a" by auto
  then have "a \<in> set (db_agreements db)" "agr_id a = agi_agreement_id x"
    by (auto simp: lock_collection_agreement_def dest: get_by_Some_mem split: option.splits)
  with that r(1) one_filter_mem [OF x] show thesis by blast
qed

lemma distinct_get_by: "distinct (map k rows) \<Longrightarrow> x \<in> set rows \<Longrightarrow> get_by k (k x) rows = Some x"
  using get_by_filter [of k rows x "\<lambda>_. True"] by simp

lemma get_put_key: "k y = i \<Longrightarrow> get_by k i rows \<noteq> None \<Longrightarrow> get_by k i (put_by k y rows) = Some y"
  using get_by_put_same [of k y rows] by simp

lemma restored_item_pay:
  "restored_item (agreement_evidence_of x a) (pay_agreement_installment t pen princ x) = x"
  by (simp add: restored_item_def agreement_evidence_of_def pay_agreement_installment_def Let_def)

lemma restored_agreement_paid:
  "restored_agreement (agreement_evidence_of x a) (paid_agreement a items) = a\<lparr>agr_state_revision := agr_state_revision a + 2\<rparr>"
  by (simp add: restored_agreement_def agreement_evidence_of_def paid_agreement_def touch_collection_agreement_def)

lemma validate_agreement_Inr:
  assumes "validate_agreement_settlement ev p s db = Inr (v, g, x, b, a)"
  shows "stl_agreement_before s = Some b \<and> (\<exists>j. stl_agreement_installment_id s = Some j
    \<and> get_by agi_id j (db_agreement_installments db) = Some x \<and> get_by agr_id (agi_agreement_id x) (db_agreements db) = Some g)"
  using assms by (auto simp: validate_agreement_settlement_def agreement_of_settlement_def lock_collection_agreement_def res_bind_eq_Inr
      split: option.splits if_splits)

text \<open>C8. Settling an agreement installment and reversing the payment restores the agreement: every installment row is again
  exactly as it was, and so is the agreement's row but for its revision, which counted both steps.\<close>

theorem agreement_round_trip:
  fixes db :: "'a database_scheme"
  assumes settled: "settle_confirmed_pix_payment ev i src w remote conf db = Inr (s, db1)"
    and fresh: "lock_payment_settlement i db = Inr None" and type: "stl_obligation_type s = ''AGREEMENT_INSTALLMENT''"
    and reversed: "reverse_payment ev2 i admin reason now db1 = Inr (r, db2)"
    and none: "list_all (\<lambda>x. rev_payment_id x \<noteq> i) (db_reversals db1)"
    and pass: "fst (verify_ledger_chain (ev_ledger_hash ev2) (db_ledger db1)) = ''PASS''"
    and ids: "distinct (map agi_id (db_agreement_installments db))" "distinct (map agr_id (db_agreements db))"
  shows "db_agreement_installments db2 = db_agreement_installments db
    \<and> (\<exists>a \<in> set (db_agreements db).
        db_agreements db2 = put_by agr_id (a\<lparr>agr_state_revision := agr_state_revision a + 2\<rparr>) (db_agreements db))"
proof -
  from settle_fresh [OF settled fresh] obtain p received t ef p' db0 where
    q: "apply_to_obligation ev p received t conf remote db = Inr (ef, p', db0)"
      "finish_settlement ev received src w remote ef p' db0 = Inr (s, db1)" .
  from finish_settlement_Inr [OF q(2)] obtain p2 where "settled_row ev received src w ef p' db0 p2 (db_ledger db0) s" by blast
  then have s: "stl_obligation_type s = ef_obligation_type ef" "stl_agreement_before s = map_option fst (ef_agreement ef)"
    "stl_agreement_installment_id s = ef_agreement_installment_id ef"
    by (simp_all add: settled_row_def Let_def settlement_of_effect_def)
  from finish_settlement_credit [OF q(2)] have "loan_tables.more db1 = loan_tables.more db0" by blast
  note more = more_tables [OF this]
  from agreement_looked_up [OF q(1)] s(1) type obtain a x where
    look: "settle_agreement ev p received t a x db = Inr (ef, p', db0)" "x \<in> set (db_agreement_installments db)"
      "a \<in> set (db_agreements db)" "agr_id a = agi_agreement_id x" by auto
  from settle_agreement_run [OF look(1)] obtain pen princ m e where run: "agreement_run ev p received t a x db ef p' db0 pen princ m e" .
  define x' where "x' = pay_agreement_installment t pen princ x"
  have x': "agi_id x' = agi_id x" "agi_agreement_id x' = agi_agreement_id x"
    by (simp_all add: x'_def pay_agreement_installment_def Let_def)
  from run obtain items where tabs: "db_agreement_installments db1 = put_by agi_id x' (db_agreement_installments db)"
      "db_agreements db1 = put_by agr_id (paid_agreement a items) (db_agreements db)"
      "map_option fst (ef_agreement ef) = Some (agreement_evidence_of x a)" "ef_agreement_installment_id ef = Some (agi_id x)"
    by (auto simp: agreement_run_def Let_def more put_agreement_def put_agreement_installment_def effect_of_agreement_def x'_def)
  have paid: "agr_id (paid_agreement a items) = agr_id a"
    by (simp add: paid_agreement_def touch_collection_agreement_def)
  from reverse_fresh [OF reversed none] settled_found [OF settled fresh] type obtain q2 t2 where
    "reverse_agreement_payment ev2 q2 s admin (py_strip reason) t2 db1 = Inr (r, db2)" by auto
  from agreement_shape [OF this] pass [unfolded pass_chain] obtain v g y b ax where
    shape: "validate_agreement_settlement ev2 q2 s db1 = Inr (v, g, y, b, ax)"
      "db_agreement_installments db2 = put_by agi_id (restored_item b y) (db_agreement_installments db1)"
      "db_agreements db2 = put_by agr_id (restored_agreement b g) (db_agreements db1)" by blast
  from validate_agreement_Inr [OF shape(1)] s(2,3) tabs(3,4) have
    found: "b = agreement_evidence_of x a" "get_by agi_id (agi_id x) (db_agreement_installments db1) = Some y"
      "get_by agr_id (agi_agreement_id y) (db_agreements db1) = Some g" by auto
  have "get_by agi_id (agi_id x) (db_agreement_installments db1) = Some x'"
    using distinct_get_by [OF ids(1) look(2)] by (simp add: tabs(1) get_put_key x'(1))
  with found(2) have y: "y = x'" by simp
  have "get_by agr_id (agr_id a) (db_agreements db1) = Some (paid_agreement a items)"
    using distinct_get_by [OF ids(2) look(3)] by (simp add: tabs(2) get_put_key paid)
  with found(3) have g: "g = paid_agreement a items" by (simp add: y x'(2) look(4))
  have "restored_item b y = x" "restored_agreement b g = a\<lparr>agr_state_revision := agr_state_revision a + 2\<rparr>"
    by (simp_all add: found(1) y g x'_def restored_item_pay restored_agreement_paid)
  then show ?thesis using look(2,3)
    by (simp add: shape(2,3) tabs(1,2) put_by_twice x' paid put_by_same [OF ids(1)]) (auto intro!: bexI [of _ a])
qed

lemma financial_status_paid_iff:
  "con_cancelled_at c = None \<Longrightarrow> contribution_financial_status c x t = ''PAID'' \<longleftrightarrow> con_amount c \<le> x"
  by (auto simp: contribution_financial_status_def max_def split: option.splits)

lemma unpay_pay:
  fixes c :: contribution_row
  shows "unpay_contribution x st (pay_contribution t y c) = c\<lparr>con_paid_amount := Some x,
    con_status := con_status (unpay_contribution x st (pay_contribution t y c)),
    con_paid_at := con_paid_at (unpay_contribution x st (pay_contribution t y c))\<rparr>"
  by (simp add: unpay_contribution_def pay_contribution_def Let_def)

lemma active_credit_append:
  assumes "list_all (\<lambda>e. ent_contribution_id e \<noteq> Some c) xs" "db_entries db = xs @ es"
  shows "active_contribution_credit a c db = active_contribution_credit a c (db\<lparr>db_entries := es\<rparr>)"
proof -
  have "filter (\<lambda>e. ent_account_id e = a \<and> ent_contribution_id e = Some c) xs = []"
    using assms(1) by (auto simp: list_all_iff filter_empty_conv)
  then show ?thesis by (simp add: active_contribution_credit_def assms(2))
qed

text \<open>C9. Settling a contribution for which the member's account has no entries yet and reversing the payment leaves it owing what it owed: only its paid amount, its status
  and its payment time are written, the paid amount is what it was, and it is PAID only if it was fully paid before. The
  member has gained nothing, or one credit of its amount and the debit that cancels it.\<close>

theorem contribution_round_trip:
  fixes db :: "'a database_scheme"
  assumes settled: "settle_confirmed_pix_payment ev i src w remote conf db = Inr (s, db1)"
    and fresh: "lock_payment_settlement i db = Inr None"
    and p: "get_by pay_id i (db_payments db) = Some p" "locked_contribution p db = Inr (Some c)"
      "stl_obligation_type s = ''CONTRIBUTION''"
    and reversed: "reverse_payment ev2 i admin reason now db1 = Inr (r, db2)"
    and none: "list_all (\<lambda>x. rev_payment_id x \<noteq> i) (db_reversals db1)"
    and pass: "fst (verify_ledger_chain (ev_ledger_hash ev2) (db_ledger db1)) = ''PASS''" "distinct (map led_id (db_ledger db1))"
    and ids: "distinct (map con_id (db_contributions db))"
    and first: "list_all (\<lambda>e. ent_contribution_id e \<noteq> Some (con_id c)) (db_entries db)"
  shows "\<exists>c2 es. db_contributions db2 = put_by con_id c2 (db_contributions db)
    \<and> c2 = c\<lparr>con_paid_amount := Some (contribution_paid_amount c), con_status := con_status c2, con_paid_at := con_paid_at c2\<rparr>
    \<and> (con_status c2 = ''PAID'' \<longleftrightarrow> con_amount c \<le> contribution_paid_amount c)
    \<and> db_entries db2 = db_entries db @ es
    \<and> (es = [] \<or> (\<exists>x y. es = [x, y] \<and> ent_account_id y = ent_account_id x \<and> ent_amount x = con_amount c \<and> ent_amount y = con_amount c
         \<and> ent_direction x = ''CREDIT'' \<and> ent_direction y = ''DEBIT''))"
proof -
  from contribution_settled [OF settled fresh p] obtain m a received t paid applied c' where
    c': "paid = contribution_paid_amount c" "c' = pay_contribution t (paid + applied) c" "stl_contribution_id s = Some (con_id c)"
      "stl_amount_applied s = applied" "db_contributions db1 = put_by con_id c' (db_contributions db)"
      "con_status c' = ''PAID'' \<longleftrightarrow> con_amount c \<le> paid + applied" and
    credit: "if contribution_financial_status c paid t \<noteq> ''PAID'' \<and> con_status c' = ''PAID'' then
         \<exists>e. db_entries db1 = db_entries db @ [e] \<and> ent_entry_type e = ''CONTRIBUTION'' \<and> ent_direction e = ''CREDIT''
           \<and> ent_amount e = con_amount c \<and> ent_settlement_id e = Some (stl_id s)
       else db_entries db1 = db_entries db" and
    lock: "lock_member_financial_account (con_member_id c) db1 = Inr (m, a, db1)" and
    acct: "list_all (\<lambda>e. 0 < ent_amount e \<and> ent_account_id e = acc_id a \<and> ent_contribution_id e = Some (con_id c)) (drop (length (db_entries db)) (db_entries db1))"
    by (elim exE conjE) (rule that)
  have keep: "con_id c' = con_id c" "con_amount c' = con_amount c" "con_member_id c' = con_member_id c" "con_paid_amount c' = Some (paid + applied)"
    "con_cancelled_at c' = con_cancelled_at c"
    by (simp_all add: c'(2) pay_contribution_def Let_def)
  from reverse_fresh [OF reversed none] settled_found [OF settled fresh] p(3) obtain q t2 where
    "reverse_contribution ev2 q s admin (py_strip reason) t2 db1 = Inr (r, db2)" by auto
  from reverse_contribution_run [OF this] obtain g m2 a2 d v cr originals x db3 comps db4 db5 where
    run: "contribution_undone ev2 q s admin (py_strip reason) t2 db1 r db2 g m2 a2 d v cr originals x db3 comps db4 db5"
    by (elim exE) (rule that)
  from run have g: "stl_contribution_id s = Some (con_id g)" "get_by con_id (con_id g) (db_contributions d) = Some g"
    "lock_member_financial_account (con_member_id g) db1 = Inr (m2, a2, d)" "validate_money False s q = Inr v"
    and cr: "credit_to_reverse a2 g (contribution_financial_status g (money (con_paid_amount g)) t2)
      (contribution_financial_status g (money (con_paid_amount g) - am_applied v) t2) d = Inr cr"
    unfolding contribution_undone_def Let_def by blast+
  have mem: "c \<in> set (db_contributions db)"
    using p(2) by (auto simp: locked_contribution_def Let_def res_bind_eq_Inr split: option.splits if_splits dest!: one_filter_mem)
  from lock_accounts_only [OF g(3)] obtain acc where d: "d = db1\<lparr>db_accounts := acc\<rparr>" .
  have "get_by con_id (con_id c) (db_contributions db1) = Some c'"
    using distinct_get_by [OF ids mem] by (simp add: c'(5) get_put_key keep(1))
  with g(1,2) c'(3) have "g = c'" by (simp add: d)
  note g = g [unfolded this] and cr = cr [unfolded this] and run = run [unfolded this]
  from g(3) lock keep(3) have same: "m2 = m" "a2 = a" "d = db1" by simp_all
  from validate_money_Inr [OF g(4)] have v: "am_applied v = applied" by (simp add: amounts_of_def c'(4))
  have nonneg: "0 \<le> applied" using validate_money_Inr [OF g(4)] unfolding v by blast
  define st where "st = contribution_financial_status c' paid t2"
  define c2 where "c2 = unpay_contribution paid st c'"
  have paid: "money (con_paid_amount c') = paid + applied" by (simp add: keep(4) money_def)
  note shape = contribution_shape [OF run pass(1) [unfolded pass_chain] pass(2), unfolded paid v]
  have cons: "db_contributions db2 = put_by con_id c2 (db_contributions db1)"
    using shape by (simp add: c2_def st_def)
  have undo: "\<exists>es. db_entries db2 = db_entries db1 @ es \<and> (if 0 < cr then \<exists>e. es = [e] \<and> ent_entry_type e = ''CONTRIBUTION_REVERSAL''
      \<and> ent_direction e = ''DEBIT'' \<and> ent_amount e = cr \<and> ent_contribution_id e = Some (con_id c') \<and> ent_account_id e = acc_id a2 else es = [])"
    using shape by blast
  have cr': "(if contribution_financial_status c' (paid + applied) t2 = ''PAID'' \<and> st \<noteq> ''PAID'' then
        active_contribution_credit (acc_id a) (con_id c) db1 else 0) = cr"
    using cr by (auto simp: credit_to_reverse_def paid v st_def same(2,3) keep(1) Let_def split: if_splits)
  have c2: "con_id c2 = con_id c" by (simp add: c2_def unpay_contribution_def keep(1))
  have rows: "db_contributions db2 = put_by con_id c2 (db_contributions db)"
    by (simp add: cons c'(5) put_by_twice c2 keep(1))
  have form: "c2 = c\<lparr>con_paid_amount := Some (contribution_paid_amount c), con_status := con_status c2, con_paid_at := con_paid_at c2\<rparr>"
    using unpay_pay [of paid st t "paid + applied" c] by (simp add: c2_def c'(1,2))
  have status: "con_status c2 = ''PAID'' \<longleftrightarrow> con_amount c \<le> contribution_paid_amount c"
  proof (cases "con_cancelled_at c")
    case None
    then show ?thesis using financial_status_paid_iff [of c' paid t2]
      by (simp add: c2_def unpay_contribution_def st_def keep(2,5) c'(1))
  next
    case (Some y)
    then have "con_status c' \<noteq> ''PAID''" by (simp add: c'(2) pay_contribution_def Let_def contribution_financial_status_def)
    then have "\<not> con_amount c \<le> paid" using c'(6) nonneg by simp
    with Some show ?thesis by (simp add: c2_def unpay_contribution_def keep(5) c'(1))
  qed
  have "\<exists>es. db_entries db2 = db_entries db @ es
    \<and> (es = [] \<or> (\<exists>x y. es = [x, y] \<and> ent_account_id y = ent_account_id x \<and> ent_amount x = con_amount c \<and> ent_amount y = con_amount c
         \<and> ent_direction x = ''CREDIT'' \<and> ent_direction y = ''DEBIT''))"
  proof (cases "contribution_financial_status c paid t \<noteq> ''PAID'' \<and> con_status c' = ''PAID''")
    case True
    with credit obtain e where e: "db_entries db1 = db_entries db @ [e]" "ent_entry_type e = ''CONTRIBUTION''"
      "ent_direction e = ''CREDIT''" "ent_amount e = con_amount c" by auto
    with acct have e': "0 < con_amount c" "ent_account_id e = acc_id a" "ent_contribution_id e = Some (con_id c)" by simp_all
    have live: "con_cancelled_at c = None"
      using True by (auto simp: c'(2) pay_contribution_def Let_def contribution_financial_status_def split: if_splits)
    with True financial_status_paid_iff [of c paid t] have "\<not> con_amount c \<le> paid" by simp
    then have "st \<noteq> ''PAID''" using financial_status_paid_iff [of c' paid t2] live by (simp add: st_def keep(2,5))
    moreover have "contribution_financial_status c' (paid + applied) t2 = ''PAID''"
      using financial_status_paid_iff [of c' "paid + applied" t2] live True c'(6) by (simp add: keep(2,5))
    moreover have "active_contribution_credit (acc_id a) (con_id c) db1 = con_amount c"
      using active_credit_append [OF first e(1)] e(2-4) e'(2,3) by (simp add: active_contribution_credit_def)
    ultimately have "cr = con_amount c" using cr' by simp
    with undo e'(1) obtain y where "db_entries db2 = db_entries db1 @ [y]" "ent_direction y = ''DEBIT''"
      "ent_amount y = con_amount c" "ent_account_id y = acc_id a" by (auto simp: same(2))
    with e e'(2) show ?thesis by (intro exI [of _ "[e, y]"]) simp
  next
    case False
    with credit have same_entries: "db_entries db1 = db_entries db" by (simp split: if_splits)
    have "active_contribution_credit (acc_id a) (con_id c) db1 = 0"
      using active_credit_append [OF first, of db1 "[]"] same_entries by (simp add: active_contribution_credit_def)
    with cr' have "cr = 0" by (simp split: if_splits)
    with undo same_entries show ?thesis by auto
  qed
  with rows form status show ?thesis by blast
qed

lemma restored_installment_eq:
  "restored_installment s (amounts_of s) b inst = inst\<lparr>ins_paid_amount := ins_paid_amount inst - (stl_principal_applied s + stl_interest_applied s),
     ins_paid_penalty_amount := ins_paid_penalty_amount inst - stl_penalty_applied s,
     ins_paid_fixed_penalty_amount := (if stl_component_version s = None then ins_paid_fixed_penalty_amount inst
       else map_option (\<lambda>x. x - money (stl_fixed_penalty_applied s)) (ins_paid_fixed_penalty_amount inst)),
     ins_paid_late_interest_amount := (if stl_component_version s = None then ins_paid_late_interest_amount inst
       else map_option (\<lambda>x. x - money (stl_late_interest_applied s)) (ins_paid_late_interest_amount inst)),
     ins_status := lev_installment_status b, ins_paid_at := lev_installment_paid_at b\<rparr>"
  by (cases "stl_component_version s") (simp_all add: restored_installment_def amounts_of_def Let_def)

text \<open>C10. Reversing a loan payment puts the loan back where the settlement found it: the loan gets back its status and payment time,
  with a new revision; the installment gets back its status and payment time and its paid amounts without this payment, the
  fixed penalty and late interest apart when the settlement is versioned, and changes in nothing else but, for a versioned
  settlement, the late interest charged and the penalty shown; no other installment changes; and the account of the loan's
  member is debited, once, with the principal that had been credited.\<close>

theorem loan_reversal_effect:
  fixes db :: "'a database_scheme"
  assumes reversed: "reverse_payment ev i admin reason now db = Inr (r, db')"
    and none: "list_all (\<lambda>x. rev_payment_id x \<noteq> i) (db_reversals db)"
    and s: "lock_payment_settlement i db = Inr (Some s)" "stl_obligation_type s = ''LOAN_INSTALLMENT''"
    and pass: "fst (verify_ledger_chain (ev_ledger_hash ev) (db_ledger db)) = ''PASS''"
    and keys: "distinct (map stl_id (db_settlements db))"
  shows "\<exists>b inst l es m ac d late penalty. stl_loan_before s = Some b \<and> stl_loan_installment_id s = Some (ins_id inst)
    \<and> get_by ins_id (ins_id inst) (db_installments db) = Some inst
    \<and> get_by loan_id (ins_loan_id inst) (db_loans db) = Some l
    \<and> db_loans db' = put_by loan_id (l\<lparr>loan_status := lev_loan_status b, loan_paid_at := lev_loan_paid_at b,
        loan_state_revision := loan_state_revision l + 1\<rparr>) (db_loans db)
    \<and> db_installments db' = put_by ins_id
        (inst\<lparr>ins_paid_amount := ins_paid_amount inst - (stl_principal_applied s + stl_interest_applied s),
           ins_paid_penalty_amount := ins_paid_penalty_amount inst - stl_penalty_applied s,
           ins_paid_fixed_penalty_amount := (if stl_component_version s = None then ins_paid_fixed_penalty_amount inst
             else map_option (\<lambda>x. x - money (stl_fixed_penalty_applied s)) (ins_paid_fixed_penalty_amount inst)),
           ins_paid_late_interest_amount := (if stl_component_version s = None then ins_paid_late_interest_amount inst
             else map_option (\<lambda>x. x - money (stl_late_interest_applied s)) (ins_paid_late_interest_amount inst)),
           ins_status := lev_installment_status b, ins_paid_at := lev_installment_paid_at b,
           ins_late_interest_amount := late, ins_penalty_amount := penalty\<rparr>) (db_installments db)
    \<and> (if stl_component_version s = None then late = ins_late_interest_amount inst \<and> penalty = ins_penalty_amount inst
       else if ins_late_charge_version inst = Some LATE_CHARGE_VERSION
         then penalty = money (ins_fixed_penalty_amount inst) + money late
       else penalty = ins_penalty_amount inst)
    \<and> stl_principal_applied s + stl_interest_applied s \<le> ins_paid_amount inst
    \<and> stl_penalty_applied s \<le> ins_paid_penalty_amount inst
    \<and> db_entries db' = db_entries db @ es
    \<and> lock_member_financial_account (stl_member_id s) db = Inr (m, ac, d)
    \<and> loan_member_id l = stl_member_id s \<and> acc_member_id ac = stl_member_id s
    \<and> (if 0 < stl_principal_applied s then \<exists>e. es = [e] \<and> ent_entry_type e = ''LOAN_PRINCIPAL_REVERSAL''
         \<and> ent_direction e = ''DEBIT'' \<and> ent_amount e = stl_principal_applied s \<and> ent_account_id e = acc_id ac else es = [])"
proof -
  from reverse_fresh [OF reversed none] s obtain p t where
    "reverse_loan_payment ev p s admin (py_strip reason) t db = Inr (r, db')" by auto
  from loan_shape [OF this] pass [unfolded pass_chain] obtain v j b a l inst es where
    u: "loan_undone ev p s t r db db' v j b a l inst es" by blast
  then have valid: "validate_loan_settlement ev p s = Inr (v, j, b, a)" by (simp add: loan_undone_def)
  from validate_loan_Inr [OF this] have m: "validate_money True s p = Inr v" and
    st: "stl_loan_installment_id s = Some j" "stl_loan_before s = Some b" by simp_all
  from validate_money_Inr [OF m] have v: "v = amounts_of s" ..
  have "s \<in> set (db_settlements db)" using s(1) by (auto simp: lock_payment_settlement_def dest: one_filter_mem)
  then have "get_by stl_id (stl_id s) (db_settlements db) = Some s" by (rule distinct_get_by [OF keys])
  with u obtain late penalty m ac d where shown: "brought_back s (restored_installment s v b inst) late penalty"
    "db_installments db' = put_by ins_id ((restored_installment s v b inst)\<lparr>ins_late_interest_amount := late,
        ins_penalty_amount := penalty\<rparr>) (db_installments db)"
    and member: "lock_member_financial_account (stl_member_id s) db = Inr (m, ac, d)" "loan_member_id l = mem_id m"
      "if 0 < am_principal v then \<exists>e. es = [e] \<and> ent_entry_type e = ''LOAN_PRINCIPAL_REVERSAL'' \<and> ent_direction e = ''DEBIT''
        \<and> ent_amount e = am_principal v \<and> ent_account_id e = acc_id ac else es = []"
    unfolding loan_undone_def by blast
  from u have facts: "get_by ins_id j (db_installments db) = Some inst" "get_by loan_id (ins_loan_id inst) (db_loans db) = Some l"
    "installment_allows s v inst = Inr ()" "db_entries db' = db_entries db @ es"
    "db_loans db' = put_by loan_id (restored_loan b l) (db_loans db)"
    unfolding loan_undone_def by blast+
  have j: "ins_id inst = j" using facts(1) by (auto dest: get_by_Some_mem)
  have allows: "am_principal v + am_interest v \<le> ins_paid_amount inst" "am_penalty v \<le> ins_paid_penalty_amount inst"
    using facts(3) by (auto simp: installment_allows_def split: if_splits)
  have loan: "db_loans db' = put_by loan_id (l\<lparr>loan_status := lev_loan_status b, loan_paid_at := lev_loan_paid_at b,
        loan_state_revision := loan_state_revision l + 1\<rparr>) (db_loans db)"
    by (simp add: facts(5) restored_loan_def touch_loan_def)
  have holder: "loan_member_id l = stl_member_id s" "acc_member_id ac = stl_member_id s"
    using lock_account_effect [OF member(1)] member(2) by simp_all
  have back_to: "if stl_component_version s = None then late = ins_late_interest_amount inst \<and> penalty = ins_penalty_amount inst
       else if ins_late_charge_version inst = Some LATE_CHARGE_VERSION
         then penalty = money (ins_fixed_penalty_amount inst) + money late
       else penalty = ins_penalty_amount inst"
    using shown(1) by (simp add: brought_back_def v restored_installment_eq)
  note rows = shown(2) [unfolded v restored_installment_eq]
  have amounts: "am_principal v = stl_principal_applied s" "am_interest v = stl_interest_applied s" "am_penalty v = stl_penalty_applied s"
    by (simp_all add: v amounts_of_def)
  have paid: "stl_principal_applied s + stl_interest_applied s \<le> ins_paid_amount inst" "stl_penalty_applied s \<le> ins_paid_penalty_amount inst"
    and entry: "if 0 < stl_principal_applied s then \<exists>e. es = [e] \<and> ent_entry_type e = ''LOAN_PRINCIPAL_REVERSAL''
         \<and> ent_direction e = ''DEBIT'' \<and> ent_amount e = stl_principal_applied s \<and> ent_account_id e = acc_id ac else es = []"
    using allows member(3) unfolding amounts by blast+
  show ?thesis
    by (intro exI [of _ b] exI [of _ inst] exI [of _ l] exI [of _ es] exI [of _ m] exI [of _ ac] exI [of _ d]
        exI [of _ late] exI [of _ penalty] conjI)
      (fact st [folded j] facts(1) [folded j] facts(2,4) loan rows back_to paid holder member(1) entry)+
qed

text \<open>A contribution, an installment of a loan and one of an agreement, each with the payment of 300.00 that pays it.\<close>

definition office_payment :: "int \<Rightarrow> string \<Rightarrow> string \<Rightarrow> payment_row" where
  "office_payment i kind ref = demo_payment\<lparr>pay_id := i, pay_reference_type := Some kind, pay_reference_id := Some ref\<rparr>"

definition office_installment :: "cents \<Rightarrow> agreement_installment_row" where
  "office_installment penalty = \<lparr>agi_id = 6, agi_agreement_id = 5, agi_number = 1, agi_due_date = 20031, agi_principal = 30000,
     agi_penalty_amount = penalty, agi_amount = 30000, agi_paid_amount = 0, agi_paid_penalty_amount = 0, agi_paid_at = None,
     agi_status = ''OPEN''\<rparr>"

definition office_db :: "cents \<Rightarrow> database" where
  "office_db penalty = (agreement_db [requested_agreement\<lparr>agr_status := ''APPROVED''\<rparr>])\<lparr>db_accounts := [pool_account],
     db_entries := [(entry_of ''CONTRIBUTION'' ''CREDIT'' 60000)\<lparr>ent_id := 1, ent_account_id := 1\<rparr>],
     db_contributions := [open_contribution], db_installments := [due_installment\<lparr>ins_penalty_amount := 0\<rparr>],
     db_agreement_installments := [office_installment penalty],
     db_payments := [office_payment 7 ''CONTRIBUTION'' ''3'', office_payment 8 ''LOAN_INSTALLMENT'' ''7'',
       office_payment 9 ''AGREEMENT_INSTALLMENT'' ''6''],
     db_users := [\<lparr>usr_id = 2, usr_role = ''ADMIN'', usr_is_active = True, usr_is_master = True\<rparr>]\<rparr>"

abbreviation office_settle :: "int \<Rightarrow> database \<Rightarrow> (settlement_row \<times> database) res" where
  "office_settle i db \<equiv> settle_confirmed_pix_payment demo_env i ''WEBHOOK'' None None (Some (Aware 0)) db"

abbreviation office_reverse :: "int \<Rightarrow> database \<Rightarrow> (reversal_row \<times> database) res" where
  "office_reverse i db \<equiv> reverse_payment demo_env i 2 ''estorno pedido'' None db"

text \<open>The settlement of the payment goes through, and so does its reversal.\<close>

definition office_day :: "int \<Rightarrow> string \<Rightarrow> bool" where
  "office_day i kind \<longleftrightarrow> (case office_settle i (office_db 0) of Inl _ \<Rightarrow> False | Inr (s, db1) \<Rightarrow>
     stl_obligation_type s = kind \<and> stl_amount_applied s = 30000 \<and> db_reversals db1 = [] \<and> distinct (map led_id (db_ledger db1))
     \<and> (case office_reverse i db1 of Inl _ \<Rightarrow> False | Inr _ \<Rightarrow> True))"

lemma office_contribution: "office_day 7 ''CONTRIBUTION''" by code_simp

lemma office_loan: "office_day 8 ''LOAN_INSTALLMENT''" by code_simp

lemma office_agreement: "office_day 9 ''AGREEMENT_INSTALLMENT''" by code_simp

lemmas office_days = office_contribution office_loan office_agreement

lemma office_facts:
  "lock_payment_settlement i (office_db 0) = Inr None" "fst (verify_ledger_chain (ev_ledger_hash demo_env) (db_ledger (office_db 0))) = ''PASS''"
  "never_posted i (office_db 0)" "distinct (map agi_id (db_agreement_installments (office_db 0)))"
  "distinct (map agr_id (db_agreements (office_db 0)))" "distinct (map con_id (db_contributions (office_db 0)))"
  "ledger_balance ''CAIXINHA'' (db_ledger (office_db 0)) = 0"
  "5 \<le> length (py_strip ''de novo'')"
  by (simp_all add: office_db_def agreement_db_def lock_payment_settlement_def one_or_none_def never_posted_def has_ledger_def
      verify_ledger_chain_def chain_errors_def PAYMENT_LEDGER_TYPES_def ledger_balance_def) code_simp

lemma office_run:
  assumes "office_day i kind"
  obtains s db1 r db2 where "office_settle i (office_db 0) = Inr (s, db1)" "stl_obligation_type s = kind" "stl_amount_applied s = 30000"
    "lock_payment_settlement i db1 = Inr (Some s)" "list_all (\<lambda>x. rev_payment_id x \<noteq> i) (db_reversals db1)"
    "fst (verify_ledger_chain (ev_ledger_hash demo_env) (db_ledger db1)) = ''PASS''" "distinct (map led_id (db_ledger db1))"
    "office_reverse i db1 = Inr (r, db2)"
proof -
  from succeeds [OF assms [unfolded office_day_def]] obtain y where y: "office_settle i (office_db 0) = Inr y"
    "case y of (s, db1) \<Rightarrow> stl_obligation_type s = kind \<and> stl_amount_applied s = 30000 \<and> db_reversals db1 = []
      \<and> distinct (map led_id (db_ledger db1)) \<and> (case office_reverse i db1 of Inl _ \<Rightarrow> False | Inr _ \<Rightarrow> True)" by blast
  obtain s db1 where p: "y = (s, db1)" by (cases y)
  note settled = y(1) [unfolded p]
  from y(2) obtain x where "office_reverse i db1 = Inr x" using succeeds [of "\<lambda>_. True" "office_reverse i db1"] by (auto simp: p)
  moreover from settlement_grows [OF settled office_facts(1,3,2)]
  have "fst (verify_ledger_chain (ev_ledger_hash demo_env) (db_ledger db1)) = ''PASS''" by blast
  ultimately show thesis using that [OF settled _ _ settled_found [OF settled office_facts(1)]] y(2) by (cases x) (simp add: p)
qed

theorem reversal_once_witness:
  "\<exists>s db1 r db2. office_settle 7 (office_db 0) = Inr (s, db1) \<and> office_reverse 7 db1 = Inr (r, db2)
     \<and> reverse_payment demo_env 7 1 ''de novo'' None db2 = Inr (r, db2)"
proof -
  obtain s db1 r db2 where r: "office_settle 7 (office_db 0) = Inr (s, db1)"
    "list_all (\<lambda>x. rev_payment_id x \<noteq> 7) (db_reversals db1)"
    "fst (verify_ledger_chain (ev_ledger_hash demo_env) (db_ledger db1)) = ''PASS''" "distinct (map led_id (db_ledger db1))"
    "office_reverse 7 db1 = Inr (r, db2)" by (rule office_run [OF office_days(1)])
  from reversal_once [OF r(5,2-4) office_facts(8)] r show ?thesis by auto
qed

theorem reversal_books_witness:
  "\<exists>s db1 r db2. office_settle 7 (office_db 0) = Inr (s, db1) \<and> office_reverse 7 db1 = Inr (r, db2)
     \<and> ledger_balance ''CAIXINHA'' (db_ledger db2) = ledger_balance ''CAIXINHA'' (db_ledger db1) - 30000"
proof -
  obtain s db1 r db2 where r: "office_settle 7 (office_db 0) = Inr (s, db1)" "stl_obligation_type s = ''CONTRIBUTION''"
    "stl_amount_applied s = 30000" "lock_payment_settlement 7 db1 = Inr (Some s)" "list_all (\<lambda>x. rev_payment_id x \<noteq> 7) (db_reversals db1)"
    "fst (verify_ledger_chain (ev_ledger_hash demo_env) (db_ledger db1)) = ''PASS''" "distinct (map led_id (db_ledger db1))"
    "office_reverse 7 db1 = Inr (r, db2)" by (rule office_run [OF office_days(1)])
  from reversal_books [OF r(8,5,4,6,7)] r(1-3,8) show ?thesis by (auto simp: pool_part_def)
qed

theorem settle_then_reverse_pool_witness:
  "\<exists>s db1 r db2. office_settle 8 (office_db 0) = Inr (s, db1) \<and> office_reverse 8 db1 = Inr (r, db2)
     \<and> ledger_balance ''CAIXINHA'' (db_ledger db2) = 0"
proof -
  obtain s db1 r db2 where r: "office_settle 8 (office_db 0) = Inr (s, db1)"
    "list_all (\<lambda>x. rev_payment_id x \<noteq> 8) (db_reversals db1)"
    "distinct (map led_id (db_ledger db1))" "office_reverse 8 db1 = Inr (r, db2)" by (rule office_run [OF office_days(2)])
  from settle_then_reverse_pool [OF r(1) office_facts(1,3,2) r(4) refl r(2,3)] r show ?thesis by (simp add: office_facts(7))
qed

theorem agreement_round_trip_witness:
  "\<exists>s db1 r db2. office_settle 9 (office_db 0) = Inr (s, db1) \<and> office_reverse 9 db1 = Inr (r, db2)
     \<and> db_agreement_installments db2 = [office_installment 0]"
proof -
  obtain s db1 r db2 where r: "office_settle 9 (office_db 0) = Inr (s, db1)" "stl_obligation_type s = ''AGREEMENT_INSTALLMENT''"
    "list_all (\<lambda>x. rev_payment_id x \<noteq> 9) (db_reversals db1)"
    "fst (verify_ledger_chain (ev_ledger_hash demo_env) (db_ledger db1)) = ''PASS''"
    "office_reverse 9 db1 = Inr (r, db2)" by (rule office_run [OF office_days(3)])
  have "db_agreement_installments (office_db 0) = [office_installment 0]" by (simp add: office_db_def)
  with agreement_round_trip [OF r(1) office_facts(1) r(2) r(5,3,4) office_facts(4,5)] r show ?thesis by auto
qed

theorem contribution_round_trip_witness:
  "\<exists>s db1 r db2 c2. office_settle 7 (office_db 0) = Inr (s, db1) \<and> office_reverse 7 db1 = Inr (r, db2)
     \<and> db_contributions db2 = [c2] \<and> con_paid_amount c2 = Some 0 \<and> con_status c2 \<noteq> ''PAID''"
proof -
  obtain s db1 r db2 where r: "office_settle 7 (office_db 0) = Inr (s, db1)" "stl_obligation_type s = ''CONTRIBUTION''"
    "list_all (\<lambda>x. rev_payment_id x \<noteq> 7) (db_reversals db1)"
    "fst (verify_ledger_chain (ev_ledger_hash demo_env) (db_ledger db1)) = ''PASS''" "distinct (map led_id (db_ledger db1))"
    "office_reverse 7 db1 = Inr (r, db2)" by (rule office_run [OF office_days(1)])
  have p: "get_by pay_id 7 (db_payments (office_db 0)) = Some (office_payment 7 ''CONTRIBUTION'' ''3'')"
    "locked_contribution (office_payment 7 ''CONTRIBUTION'' ''3'') (office_db 0) = Inr (Some open_contribution)"
    "db_contributions (office_db 0) = [open_contribution]"
    "list_all (\<lambda>e. ent_contribution_id e \<noteq> Some (con_id open_contribution)) (db_entries (office_db 0))"
    "contribution_paid_amount open_contribution = 0" "con_amount open_contribution = 30000"
    by code_simp+
  from contribution_round_trip [OF r(1) office_facts(1) p(1,2) r(2) r(6,3,4,5) office_facts(6) p(4)] obtain c2 where
    c2: "db_contributions db2 = put_by con_id c2 [open_contribution]"
      "c2 = open_contribution\<lparr>con_paid_amount := Some 0, con_status := con_status c2, con_paid_at := con_paid_at c2\<rparr>"
      "con_status c2 \<noteq> ''PAID''" unfolding p(3,5,6) by auto
  have "con_id c2 = con_id open_contribution" "con_paid_amount c2 = Some 0" by (subst c2(2), simp)+
  with c2(1,3) r show ?thesis by (simp add: put_by_def)
qed

theorem loan_reversal_effect_witness:
  "\<exists>s db1 r db2 b i. office_settle 8 (office_db 0) = Inr (s, db1) \<and> office_reverse 8 db1 = Inr (r, db2)
     \<and> stl_loan_before s = Some b \<and> list_ex (\<lambda>l. loan_status l = lev_loan_status b) (db_loans db2)
     \<and> get_by ins_id i (db_installments db2) \<noteq> None
     \<and> ins_status (the (get_by ins_id i (db_installments db2))) = lev_installment_status b"
proof -
  obtain s db1 r db2 where r: "office_settle 8 (office_db 0) = Inr (s, db1)" "stl_obligation_type s = ''LOAN_INSTALLMENT''"
    "lock_payment_settlement 8 db1 = Inr (Some s)" "list_all (\<lambda>x. rev_payment_id x \<noteq> 8) (db_reversals db1)"
    "fst (verify_ledger_chain (ev_ledger_hash demo_env) (db_ledger db1)) = ''PASS''"
    "office_reverse 8 db1 = Inr (r, db2)" by (rule office_run [OF office_days(2)])
  have "case office_settle 8 (office_db 0) of Inl _ \<Rightarrow> False | Inr (s, db1) \<Rightarrow> distinct (map stl_id (db_settlements db1))" by code_simp
  then have keys: "distinct (map stl_id (db_settlements db1))" by (simp add: r(1))
  from loan_reversal_effect [OF r(6,4,3,2,5) keys] obtain b inst l late penalty where
    u: "stl_loan_before s = Some b" "get_by ins_id (ins_id inst) (db_installments db1) = Some inst"
      "get_by loan_id (ins_loan_id inst) (db_loans db1) = Some l"
      "db_loans db2 = put_by loan_id (l\<lparr>loan_status := lev_loan_status b, loan_paid_at := lev_loan_paid_at b,
        loan_state_revision := loan_state_revision l + 1\<rparr>) (db_loans db1)"
      "db_installments db2 = put_by ins_id
        (inst\<lparr>ins_paid_amount := ins_paid_amount inst - (stl_principal_applied s + stl_interest_applied s),
           ins_paid_penalty_amount := ins_paid_penalty_amount inst - stl_penalty_applied s,
           ins_paid_fixed_penalty_amount := (if stl_component_version s = None then ins_paid_fixed_penalty_amount inst
             else map_option (\<lambda>x. x - money (stl_fixed_penalty_applied s)) (ins_paid_fixed_penalty_amount inst)),
           ins_paid_late_interest_amount := (if stl_component_version s = None then ins_paid_late_interest_amount inst
             else map_option (\<lambda>x. x - money (stl_late_interest_applied s)) (ins_paid_late_interest_amount inst)),
           ins_status := lev_installment_status b, ins_paid_at := lev_installment_paid_at b,
           ins_late_interest_amount := late, ins_penalty_amount := penalty\<rparr>) (db_installments db1)"
    by (elim exE conjE) (rule that, assumption+)
  obtain l' where l': "db_loans db2 = put_by loan_id l' (db_loans db1)" "loan_id l' = loan_id l" "loan_status l' = lev_loan_status b"
    by (rule that [OF u(4)]) simp_all
  obtain inst' where inst': "db_installments db2 = put_by ins_id inst' (db_installments db1)" "ins_id inst' = ins_id inst"
    "ins_status inst' = lev_installment_status b"
    by (rule that [OF u(5)]) simp_all
  have "get_by loan_id (loan_id l) (db_loans db2) = Some l'"
    unfolding l'(1) by (rule get_put_key [where k = loan_id, OF l'(2)]) (use u(3) get_by_Some_mem [OF u(3)] in simp)
  then have "l' \<in> set (db_loans db2)" by (auto dest: get_by_Some_mem)
  moreover have "get_by ins_id (ins_id inst) (db_installments db2) = Some inst'"
    unfolding inst'(1) by (rule get_put_key [where k = ins_id, OF inst'(2)]) (simp add: u(2))
  ultimately show ?thesis using r(1,6) u(1) l'(3) inst'(3)
    by (intro exI [of _ s] exI [of _ db1] exI [of _ r] exI [of _ db2] exI [of _ b] exI [of _ "ins_id inst"])
      (auto simp: list_ex_iff)
qed

theorem agreement_penalty_irreversible_witness:
  "\<exists>s db1 e. office_settle 9 (office_db 100) = Inr (s, db1) \<and> stl_penalty_applied s = 100 \<and> office_reverse 9 db1 = Inl e"
proof -
  have "case office_settle 9 (office_db 100) of Inl _ \<Rightarrow> False | Inr (s, db1) \<Rightarrow>
     stl_obligation_type s = ''AGREEMENT_INSTALLMENT'' \<and> stl_penalty_applied s = 100
     \<and> lock_payment_settlement 9 db1 = Inr (Some s) \<and> db_reversals db1 = []" by code_simp
  then obtain s db1 where r: "office_settle 9 (office_db 100) = Inr (s, db1)" "stl_obligation_type s = ''AGREEMENT_INSTALLMENT''"
    "stl_penalty_applied s = 100" "lock_payment_settlement 9 db1 = Inr (Some s)" "db_reversals db1 = []"
    by (auto split: sum.splits)
  from agreement_penalty_irreversible [OF r(4,2), of demo_env 2 "''estorno pedido''" None] r show ?thesis by auto
qed

theorem foreign_entry_blocks_reversal_witness:
  "\<exists>e rows s db1 x. post_entry demo_hash 0 ''CAIXINHA'' ''DEBIT'' (dec 50000) ''LOAN_DISBURSEMENT'' (py_str 7) None [] = Inr (e, rows)
     \<and> office_settle 7 ((office_db 0)\<lparr>db_ledger := rows\<rparr>) = Inr (s, db1) \<and> office_reverse 7 db1 = Inl x"
proof -
  have "case post_entry demo_hash 0 ''CAIXINHA'' ''DEBIT'' (dec 50000) ''LOAN_DISBURSEMENT'' (py_str 7) None [] of
      Inl _ \<Rightarrow> False | Inr (e, rows) \<Rightarrow> (case office_settle 7 ((office_db 0)\<lparr>db_ledger := rows\<rparr>) of Inl _ \<Rightarrow> False | Inr (s, db1) \<Rightarrow>
     stl_obligation_type s = ''CONTRIBUTION'' \<and> lock_payment_settlement 7 db1 = Inr (Some s) \<and> db_reversals db1 = []
     \<and> distinct (map led_id (db_ledger db1)) \<and> list_ex (\<lambda>x. led_reference_id x = py_str 7 \<and> led_reference_type x \<noteq> ''CONTRIBUTION_PAYMENT'') (db_ledger db1))"
    by code_simp
  from succeeds [OF this] obtain y where y: "post_entry demo_hash 0 ''CAIXINHA'' ''DEBIT'' (dec 50000) ''LOAN_DISBURSEMENT'' (py_str 7) None [] = Inr y"
    "case y of (e, rows) \<Rightarrow> (case office_settle 7 ((office_db 0)\<lparr>db_ledger := rows\<rparr>) of Inl _ \<Rightarrow> False | Inr (s, db1) \<Rightarrow>
     stl_obligation_type s = ''CONTRIBUTION'' \<and> lock_payment_settlement 7 db1 = Inr (Some s) \<and> db_reversals db1 = []
     \<and> distinct (map led_id (db_ledger db1)) \<and> list_ex (\<lambda>x. led_reference_id x = py_str 7 \<and> led_reference_type x \<noteq> ''CONTRIBUTION_PAYMENT'') (db_ledger db1))"
    by blast
  obtain e rows where p: "y = (e, rows)" by (cases y)
  note e = y(1) [unfolded p]
  from succeeds [OF y(2) [unfolded p prod.case]] obtain z where z: "office_settle 7 ((office_db 0)\<lparr>db_ledger := rows\<rparr>) = Inr z"
    "case z of (s, db1) \<Rightarrow> stl_obligation_type s = ''CONTRIBUTION'' \<and> lock_payment_settlement 7 db1 = Inr (Some s) \<and> db_reversals db1 = []
     \<and> distinct (map led_id (db_ledger db1)) \<and> list_ex (\<lambda>x. led_reference_id x = py_str 7 \<and> led_reference_type x \<noteq> ''CONTRIBUTION_PAYMENT'') (db_ledger db1)"
    by blast
  obtain s db1 where q: "z = (s, db1)" by (cases z)
  note r = z(1) [unfolded q] z(2) [unfolded q prod.case, THEN conjunct1] z(2) [unfolded q prod.case, THEN conjunct2, THEN conjunct1]
    z(2) [unfolded q prod.case, THEN conjunct2, THEN conjunct2, THEN conjunct1]
    z(2) [unfolded q prod.case, THEN conjunct2, THEN conjunct2, THEN conjunct2, THEN conjunct1]
    z(2) [unfolded q prod.case, THEN conjunct2, THEN conjunct2, THEN conjunct2, THEN conjunct2]
  from r(6) obtain x where x: "x \<in> set (db_ledger db1)" "led_reference_id x = py_str 7" "led_reference_type x \<noteq> ''CONTRIBUTION_PAYMENT''"
    by (auto simp: list_ex_iff)
  from foreign_entry_blocks_reversal [OF r(3,2) x r(5), of demo_env 2 "''estorno pedido''" None] r(4) e r(1) show ?thesis by auto
qed

end
