(* ===== verification/Cycle_Participation.thy ===== *)
theory Cycle_Participation
  imports Payment_Settlement Calendar
begin

text \<open>
  A member's participation in a cycle, \<open>services/cycle_participation.py\<close>: joining, the block after three
  consecutive overdue months, the daily snapshots of late charges, and the voluntary exit. \<open>now\<close> is the clock; the
  caller owns the transaction, so an exception leaves the database as it was. Numeric ids inside messages are left out.
\<close>

section \<open>The participation\<close>

definition effective_at_utc :: "instant \<Rightarrow> datetime option \<Rightarrow> instant res" where
  "effective_at_utc now v = (case v of None \<Rightarrow> Inr now
     | Some (Aware t) \<Rightarrow> Inr t
     | Some (Naive _) \<Rightarrow> Inl (CycleParticipationError ''effective_at must be timezone-aware''))"

definition participations_of :: "int \<Rightarrow> int \<Rightarrow> 'a database_scheme \<Rightarrow> participation_row list" where
  "participations_of member_id cycle_id db =
     filter (\<lambda>r. cpa_member_id r = member_id \<and> cpa_cycle_id r = cycle_id) (db_participations db)"

definition new_participation :: "instant \<Rightarrow> int \<Rightarrow> int \<Rightarrow> date option \<Rightarrow> 'a database_scheme \<Rightarrow> participation_row" where
  "new_participation now member_id cycle_id entry_date db =
     \<lparr>cpa_id = next_id cpa_id (db_participations db), cpa_cycle_id = cycle_id, cpa_member_id = member_id,
      cpa_status = ''ACTIVE'', cpa_joined_at = Some (Aware (case entry_date of None \<Rightarrow> now | Some d \<Rightarrow> belem_midnight d)),
      cpa_voluntary_exit_at = None, cpa_blocked_at = None, cpa_block_reason = None\<rparr>"

text \<open>\<open>_participation(create=True)\<close>.\<close>

definition participation ::
    "instant \<Rightarrow> int \<Rightarrow> int \<Rightarrow> date option \<Rightarrow> 'a database_scheme \<Rightarrow> (participation_row \<times> 'a database_scheme) res" where
  "participation now member_id cycle_id entry_date db =
     res_bind (one_or_none (participations_of member_id cycle_id db)) (\<lambda>found.
     case found of Some row \<Rightarrow> Inr (row, db)
     | None \<Rightarrow>
         if \<not> list_ex (\<lambda>q. quo_member_id q = member_id \<and> quo_cycle_id q = Some cycle_id) (db_quotas db) then
           Inl (CycleParticipationError ''member has no quota in cycle'')
         else let row = new_participation now member_id cycle_id entry_date db
              in Inr (row, db\<lparr>db_participations := db_participations db @ [row]\<rparr>))"

definition put_participation :: "participation_row \<Rightarrow> 'a database_scheme \<Rightarrow> 'a database_scheme" where
  "put_participation r db = db\<lparr>db_participations := put_by cpa_id r (db_participations db)\<rparr>"

definition ensure_active_participation ::
    "instant \<Rightarrow> int \<Rightarrow> int \<Rightarrow> date option \<Rightarrow> 'a database_scheme \<Rightarrow> (participation_row \<times> 'a database_scheme) res" where
  "ensure_active_participation now member_id cycle_id entry_date db =
     res_bind (lock_member_financial_account member_id db) (\<lambda>(_, _, db1).
     res_bind (participation now member_id cycle_id entry_date db1) (\<lambda>(row, db2).
     if cpa_status row \<noteq> ''ACTIVE'' then Inl (CycleParticipationError ''participation is closed for this cycle'')
     else Inr (row, db2)))"

section \<open>Overdue months\<close>

definition paid_of :: "contribution_row \<Rightarrow> cents" where
  "paid_of c = (case con_paid_amount c of Some a \<Rightarrow> a | None \<Rightarrow> if con_status c = ''PAID'' then con_amount c else 0)"

definition month_index :: "date \<Rightarrow> int" where
  "month_index d = (let c = of_ordinal d in yr c * 12 + mon c)"

definition overdue_on :: "date \<Rightarrow> contribution_row \<Rightarrow> bool" where
  "overdue_on as_of c \<longleftrightarrow> (case con_due_date c of None \<Rightarrow> False | Some due \<Rightarrow> due < as_of) \<and> paid_of c < con_amount c"

fun streak_scan :: "date \<Rightarrow> contribution_row list \<Rightarrow> int \<Rightarrow> int option \<Rightarrow> bool res" where
  "streak_scan as_of [] streak previous = Inr False"
| "streak_scan as_of (c # cs) streak previous =
     (if con_cancelled_at c \<noteq> None \<or> con_due_date c = None then streak_scan as_of cs 0 None
      else let month = month_index (con_competence c)
           in if previous = Some month then Inl (CycleParticipationError ''duplicate monthly competence'')
              else let streak' = (if overdue_on as_of c \<and> previous = Some (month - 1) then streak + 1
                                  else if overdue_on as_of c then 1 else 0)
                   in if 3 \<le> streak' then Inr True else streak_scan as_of cs streak' (Some month))"

definition consecutive_overdue :: "contribution_row list \<Rightarrow> date \<Rightarrow> bool res" where
  "consecutive_overdue contributions as_of = streak_scan as_of (sort_key con_competence contributions) 0 None"

section \<open>The dated history of a contribution\<close>

text \<open>A settlement counts unless it was reversed by the given date.\<close>

definition history_entry :: "date \<Rightarrow> 'a database_scheme \<Rightarrow> settlement_row \<Rightarrow> (date \<times> cents) list" where
  "history_entry through db s =
     (let counted = [(stored_financial_date (stl_confirmed_at s), stl_principal_applied s)]
      in case find (\<lambda>r. rev_settlement_id r = stl_id s) (db_reversals db) of
           None \<Rightarrow> counted
         | Some r \<Rightarrow> if stored_financial_date (rev_reversed_at r) \<le> through then [] else counted)"

definition legacy_payment_date :: "contribution_row \<Rightarrow> cents \<Rightarrow> payment_row \<Rightarrow> date option" where
  "legacy_payment_date c current p =
     (if pay_status p = ''approved'' \<and> py_upper (text_or_empty (pay_reference_type p)) \<in> {[], ''CONTRIBUTION''}
         \<and> (\<not> truthy (pay_reference_id p) \<or> pay_reference_id p = Some (py_str (con_id c)))
         \<and> (case pay_amount_received p of Some a \<Rightarrow> a | None \<Rightarrow> pay_amount p) = current
      then map_option stored_financial_date (pay_confirmed_at p) else None)"

definition legacy_date :: "contribution_row \<Rightarrow> cents \<Rightarrow> 'a database_scheme \<Rightarrow> date option" where
  "legacy_date c current db =
     (if current = con_amount c \<and> con_paid_at c \<noteq> None then map_option stored_financial_date (con_paid_at c)
      else case con_payment_id c of None \<Rightarrow> None
        | Some i \<Rightarrow> (case get_by pay_id i (db_payments db) of None \<Rightarrow> None | Some p \<Rightarrow> legacy_payment_date c current p))"

definition payment_history :: "date \<Rightarrow> contribution_row \<Rightarrow> 'a database_scheme \<Rightarrow> (date \<times> cents) list res" where
  "payment_history through c db =
     (let settlements = sort_key (\<lambda>s. stored_utc (stl_confirmed_at s))
            (sort_key stl_id (filter (\<lambda>s. stl_contribution_id s = Some (con_id c)) (db_settlements db)));
          history = concat (map (history_entry through db) settlements);
          current = paid_of c
      in if (\<Sum>(_, a)\<leftarrow>history. a) = current then Inr history
         else if settlements \<noteq> [] then
           Inl (CycleParticipationError ''contribution has no complete dated principal history'')
         else case legacy_date c current db of
           Some d \<Rightarrow> Inr [(d, current)]
         | None \<Rightarrow> Inl (CycleParticipationError ''contribution has no complete dated principal history''))"

definition cancel_contribution :: "instant \<Rightarrow> string \<Rightarrow> contribution_row \<Rightarrow> contribution_row" where
  "cancel_contribution t reason c =
     (if con_cancelled_at c \<noteq> None \<or> con_amount c \<le> paid_of c then c
      else c\<lparr>con_cancelled_at := Some (Aware t), con_cancellation_reason := Some reason, con_status := ''CANCELLED''\<rparr>)"

section \<open>Charge events\<close>

text \<open>Flushing an event: its unique snapshot and its check constraint.\<close>

definition insert_charge_event :: "charge_event_row \<Rightarrow> 'a database_scheme \<Rightarrow> 'a database_scheme res" where
  "insert_charge_event e db =
     (if list_ex (\<lambda>x. cev_contribution_id x = cev_contribution_id e \<and> cev_event_type x = cev_event_type e
           \<and> cev_accrued_through x = cev_accrued_through e) (db_charge_events db)
        \<or> cev_fixed_penalty e < 0 \<or> cev_daily_interest e < 0 \<or> cev_cancelled_principal e < 0
      then Inl (IntegrityError ''contribution_charge_events'')
      else Inr (db\<lparr>db_charge_events := db_charge_events db @ [e]\<rparr>))"

definition RULE_VERSION :: string where "RULE_VERSION = ''contribution-late-v1''"

definition new_charge_event ::
    "instant \<Rightarrow> contribution_row \<Rightarrow> participation_row \<Rightarrow> string \<Rightarrow> date \<Rightarrow> contribution_charges \<Rightarrow> cents \<Rightarrow> 'a database_scheme
      \<Rightarrow> charge_event_row" where
  "new_charge_event now c row event_type civil charges cancelled db =
     \<lparr>cev_id = next_id cev_id (db_charge_events db), cev_contribution_id = con_id c, cev_participation_id = cpa_id row,
      cev_event_type = event_type, cev_rule_version = RULE_VERSION, cev_accrued_through = civil,
      cev_fixed_penalty = ch_fixed_penalty charges, cev_daily_interest = ch_daily_interest charges,
      cev_cancelled_principal = cancelled, cev_created_at = Aware now\<rparr>"

definition cycle_contributions :: "int \<Rightarrow> int \<Rightarrow> 'a database_scheme \<Rightarrow> contribution_row list" where
  "cycle_contributions member_id cycle_id db =
     filter (\<lambda>c. con_member_id c = member_id \<and> con_cycle_id c = Some cycle_id) (db_contributions db)"

section \<open>The block\<close>

definition delinquency_snapshot ::
    "date \<Rightarrow> 'a database_scheme \<Rightarrow> contribution_row \<Rightarrow> (contribution_row \<times> contribution_charges \<times> cents) list res" where
  "delinquency_snapshot civil db c =
     (case con_due_date c of None \<Rightarrow> Inl (CycleParticipationError ''contribution has no due date'')
      | Some due \<Rightarrow>
          res_bind (payment_history civil c db) (\<lambda>history.
          res_bind (calculate_contribution_charges (con_amount c) due (Civil civil) history) (\<lambda>charges.
          let principal_open = max 0 (con_amount c - paid_of c)
          in Inr (if ch_fixed_penalty charges \<noteq> 0 \<or> ch_daily_interest charges \<noteq> 0 \<or> principal_open \<noteq> 0
                  then [(c, charges, principal_open)] else []))))"

definition freeze_contribution ::
    "instant \<Rightarrow> instant \<Rightarrow> date \<Rightarrow> participation_row \<Rightarrow> contribution_row \<times> contribution_charges \<times> cents
      \<Rightarrow> 'a database_scheme \<Rightarrow> 'a database_scheme res" where
  "freeze_contribution now t civil row snapshot db =
     (let (c, charges, principal_open) = snapshot
      in res_bind (insert_charge_event (new_charge_event now c row ''BLOCK_FREEZE'' civil charges principal_open db) db) (\<lambda>db1.
         Inr (put_contribution (cancel_contribution t ''BLOCKED_DELINQUENCY'' c) db1)))"

definition BLOCK_REASON :: string where "BLOCK_REASON = ''THREE_CONSECUTIVE_OVERDUE''"

definition blocked_row :: "instant \<Rightarrow> participation_row \<Rightarrow> participation_row" where
  "blocked_row t row = row\<lparr>cpa_status := ''BLOCKED_DELINQUENCY'', cpa_blocked_at := Some (Aware t), cpa_block_reason := Some BLOCK_REASON\<rparr>"

definition evaluate_delinquency ::
    "instant \<Rightarrow> int \<Rightarrow> int \<Rightarrow> datetime option \<Rightarrow> 'a database_scheme \<Rightarrow> (participation_row \<times> 'a database_scheme) res" where
  "evaluate_delinquency now member_id cycle_id effective_at db0 =
     res_bind (effective_at_utc now effective_at) (\<lambda>t.
     let civil = belem_date t
     in res_bind (lock_member_financial_account member_id db0) (\<lambda>(_, _, db1).
     res_bind (participation now member_id cycle_id None db1) (\<lambda>(row, db).
     if cpa_status row \<noteq> ''ACTIVE'' then Inr (row, db)
     else
     let contributions = sort_key con_competence (sort_key con_id (cycle_contributions member_id cycle_id db))
     in res_bind (consecutive_overdue contributions civil) (\<lambda>overdue.
     if \<not> overdue then Inr (row, db)
     else
     res_bind (map_res (delinquency_snapshot civil db) contributions) (\<lambda>snapshots.
     let row' = blocked_row t row
     in res_bind (fold_res (freeze_contribution now t civil row') (concat snapshots) (put_participation row' db)) (\<lambda>db2.
     Inr (row', add_audit None ''CYCLE_PARTICIPATION_BLOCKED'' ''CYCLE_PARTICIPATION'' (py_str (cpa_id row')) db2)))))))"

section \<open>Daily snapshots\<close>

definition same_charges :: "contribution_charges \<Rightarrow> charge_event_row option \<Rightarrow> bool" where
  "same_charges charges prior \<longleftrightarrow> (case prior of None \<Rightarrow> False
     | Some e \<Rightarrow> cev_fixed_penalty e = ch_fixed_penalty charges \<and> cev_daily_interest e = ch_daily_interest charges)"

definition last_snapshot :: "contribution_row \<Rightarrow> 'a database_scheme \<Rightarrow> charge_event_row option" where
  "last_snapshot c db = last_opt (sort_key cev_accrued_through
     (filter (\<lambda>e. cev_contribution_id e = con_id c \<and> cev_event_type e = ''ACCRUAL_SNAPSHOT'') (db_charge_events db)))"

definition snapshot_charges ::
    "instant \<Rightarrow> date \<Rightarrow> participation_row \<Rightarrow> contribution_row \<Rightarrow> int \<times> 'a database_scheme \<Rightarrow> (int \<times> 'a database_scheme) res" where
  "snapshot_charges now civil row c state =
     (let (created, db) = state
      in case con_due_date c of None \<Rightarrow> Inr state
         | Some due \<Rightarrow>
     res_bind (payment_history civil c db) (\<lambda>history.
     res_bind (calculate_contribution_charges (con_amount c) due (Civil civil) history) (\<lambda>charges.
     if ch_fixed_penalty charges = 0 \<and> ch_daily_interest charges = 0 then Inr state
     else if same_charges charges (last_snapshot c db) then Inr state
     else res_bind (insert_charge_event (new_charge_event now c row ''ACCRUAL_SNAPSHOT'' civil charges 0 db) db) (\<lambda>db'.
       Inr (created + 1, db')))))"

definition materialize_active_charges ::
    "instant \<Rightarrow> int \<Rightarrow> int \<Rightarrow> datetime option \<Rightarrow> 'a database_scheme \<Rightarrow> (int \<times> 'a database_scheme) res" where
  "materialize_active_charges now member_id cycle_id effective_at db0 =
     res_bind (effective_at_utc now effective_at) (\<lambda>t.
     let civil = belem_date t
     in res_bind (lock_member_financial_account member_id db0) (\<lambda>(_, _, db1).
     res_bind (participation now member_id cycle_id None db1) (\<lambda>(row, db).
     if cpa_status row \<noteq> ''ACTIVE'' then Inr (0, db)
     else fold_res (snapshot_charges now civil row)
       (filter (\<lambda>c. (case con_due_date c of None \<Rightarrow> False | Some due \<Rightarrow> due < civil) \<and> con_cancelled_at c = None)
         (cycle_contributions member_id cycle_id db)) (0, db))))"

section \<open>Leaving\<close>

text \<open>What keeps a member from leaving: an overdue contribution, unpaid late charges, an overdue loan installment, or an
  overdue installment of an agreement. The loan installment is compared with the UTC date, the others with the civil date.\<close>

definition unpaid_charges :: "date \<Rightarrow> 'a database_scheme \<Rightarrow> contribution_row \<Rightarrow> unit res" where
  "unpaid_charges civil db c =
     (case con_due_date c of None \<Rightarrow> Inr ()
      | Some due \<Rightarrow>
          if civil \<le> due \<or> con_cancelled_at c \<noteq> None then Inr ()
          else
          res_bind (payment_history civil c db) (\<lambda>history.
          res_bind (calculate_contribution_charges (con_amount c) due (Civil civil) history) (\<lambda>charges.
          if 0 < ch_fixed_penalty charges \<or> 0 < ch_daily_interest charges then
            Inl (CycleParticipationError ''member has unpaid contribution late charges'')
          else Inr ())))"

definition overdue_loans :: "int \<Rightarrow> instant \<Rightarrow> 'a loan_tables_scheme \<Rightarrow> bool" where
  "overdue_loans member_id t db \<longleftrightarrow> list_ex (\<lambda>i.
     list_ex (\<lambda>l. loan_member_id l = member_id \<and> loan_id l = ins_loan_id i) (db_loans db)
     \<and> ins_due_date i < utc_date t \<and> 0 < installment_due i) (db_installments db)"

definition overdue_agreements :: "int \<Rightarrow> date \<Rightarrow> 'a database_scheme \<Rightarrow> bool" where
  "overdue_agreements member_id civil db \<longleftrightarrow> list_ex (\<lambda>i.
     list_ex (\<lambda>a. agr_id a = agi_agreement_id i \<and> agr_member_id a = member_id \<and> agr_status a = ''APPROVED'') (db_agreements db)
     \<and> agi_due_date i < civil \<and> agi_status i \<noteq> ''PAID'') (db_agreement_installments db)"

definition exited_row :: "instant \<Rightarrow> participation_row \<Rightarrow> participation_row" where
  "exited_row t row = row\<lparr>cpa_status := ''VOLUNTARILY_EXITED'', cpa_voluntary_exit_at := Some (Aware t)\<rparr>"

definition voluntary_exit ::
    "instant \<Rightarrow> int \<Rightarrow> int \<Rightarrow> datetime option \<Rightarrow> int option \<Rightarrow> 'a database_scheme \<Rightarrow> (participation_row \<times> 'a database_scheme) res" where
  "voluntary_exit now member_id cycle_id effective_at actor db0 =
     res_bind (effective_at_utc now effective_at) (\<lambda>t.
     let civil = belem_date t
     in res_bind (lock_member_financial_account member_id db0) (\<lambda>(_, _, db1).
     res_bind (participation now member_id cycle_id None db1) (\<lambda>(row, db).
     if cpa_status row \<noteq> ''ACTIVE'' then Inl (CycleParticipationError ''participation is closed for this cycle'')
     else
     let contributions = cycle_contributions member_id cycle_id db
     in if list_ex (\<lambda>c. con_cancelled_at c = None \<and> overdue_on civil c) contributions then
          Inl (CycleParticipationError ''member has overdue contributions'')
        else
     res_bind (map_res (unpaid_charges civil db) contributions) (\<lambda>_.
     if overdue_loans member_id t db then Inl (CycleParticipationError ''member has overdue loan installments'')
     else if overdue_agreements member_id civil db then
       Inl (CycleParticipationError ''member has overdue agreement installments'')
     else
     let row' = exited_row t row;
         db2 = fold (\<lambda>c. put_contribution (cancel_contribution t ''VOLUNTARY_EXIT'' c)) contributions (put_participation row' db)
     in Inr (row', add_audit actor ''CYCLE_PARTICIPATION_VOLUNTARY_EXIT'' ''CYCLE_PARTICIPATION'' (py_str (cpa_id row')) db2)))))"

end
