(* ===== verification/Cycle_Foundation.thy ===== *)
theory Cycle_Foundation
  imports Cycle_Participation
begin

text \<open>
  Cycles, quotas and the contributions they oblige to, \<open>services/cycle_foundation.py\<close>. The
  \<open>isinstance\<close> checks have no counterpart: units are integers and amounts decimals by type. \<open>raced\<close> is what other
  transactions commit between the lookup and the flush of \<open>ensure_first_cycle\<close>.
\<close>

section \<open>Cycles and quotas\<close>

definition FIRST_CYCLE_START :: date where "FIRST_CYCLE_START = ordinal \<lparr>yr = 2026, mon = 12, dom = 10\<rparr>"
definition FIRST_CYCLE_ENTRY_DEADLINE :: date where "FIRST_CYCLE_ENTRY_DEADLINE = ordinal \<lparr>yr = 2027, mon = 1, dom = 10\<rparr>"
definition FIRST_CYCLE_CLOSING_REFERENCE :: date where "FIRST_CYCLE_CLOSING_REFERENCE = ordinal \<lparr>yr = 2027, mon = 12, dom = 10\<rparr>"
definition FIRST_CYCLE_MONTHLY_AMOUNT :: cents where "FIRST_CYCLE_MONTHLY_AMOUNT = 15000"
definition FIRST_CYCLE_MONTHS :: int where "FIRST_CYCLE_MONTHS = 12"
definition FIRST_CYCLE_MAX_QUOTAS :: int where "FIRST_CYCLE_MAX_QUOTAS = 50"

definition starting_first :: "cycle_row list \<Rightarrow> cycle_row list" where
  "starting_first rows = filter (\<lambda>c. cyc_start_date c = FIRST_CYCLE_START) rows"

definition ensure_first_cycle :: "cycle_row list \<Rightarrow> 'a database_scheme \<Rightarrow> (cycle_row \<times> 'a database_scheme) res" where
  "ensure_first_cycle raced db =
     res_bind (one_or_none (starting_first (db_cycles db))) (\<lambda>found.
     case found of Some cycle \<Rightarrow> Inr (cycle, db)
     | None \<Rightarrow>
         let db1 = db\<lparr>db_cycles := db_cycles db @ raced\<rparr>;
             cycle = \<lparr>cyc_id = next_id cyc_id (db_cycles db1), cyc_start_date = FIRST_CYCLE_START,
               cyc_entry_deadline = FIRST_CYCLE_ENTRY_DEADLINE, cyc_closing_reference_date = FIRST_CYCLE_CLOSING_REFERENCE,
               cyc_monthly_amount = FIRST_CYCLE_MONTHLY_AMOUNT, cyc_months = FIRST_CYCLE_MONTHS,
               cyc_max_quotas = FIRST_CYCLE_MAX_QUOTAS, cyc_status = ''OPEN''\<rparr>
         in case starting_first raced of
              [] \<Rightarrow> Inr (cycle, db1\<lparr>db_cycles := db_cycles db1 @ [cycle]\<rparr>)
            | winner # _ \<Rightarrow> Inr (winner, db1))"

definition cycle_for_update :: "int \<Rightarrow> 'a database_scheme \<Rightarrow> cycle_row res" where
  "cycle_for_update cycle_id db =
     (case get_by cyc_id cycle_id (db_cycles db) of
        None \<Rightarrow> Inl (CycleFoundationError ''cycle not found'') | Some c \<Rightarrow> Inr c)"

text \<open>\<open>int(total or 0)\<close> truncates.\<close>

definition whole_units :: "decimal \<Rightarrow> int" where
  "whole_units t = round_down t"

definition cycle_units :: "int \<Rightarrow> 'a database_scheme \<Rightarrow> decimal" where
  "cycle_units cycle_id db = (\<Sum>q\<leftarrow>filter (\<lambda>q. quo_cycle_id q = Some cycle_id) (db_quotas db). quo_units q)"

definition create_quota :: "int \<Rightarrow> int \<Rightarrow> int \<Rightarrow> 'a database_scheme \<Rightarrow> (quota_row \<times> 'a database_scheme) res" where
  "create_quota member_id cycle_id units db =
     (if units < 1 then Inl (CycleFoundationError ''quota units must be a positive integer'')
      else
     res_bind (cycle_for_update cycle_id db) (\<lambda>cycle.
     if get_by mem_id member_id (db_members db) = None then Inl (CycleFoundationError ''member not found'')
     else
     res_bind (one_or_none (participations_of member_id cycle_id db)) (\<lambda>existing.
     if (case existing of None \<Rightarrow> False | Some r \<Rightarrow> cpa_status r \<noteq> ''ACTIVE'') then
       Inl (CycleFoundationError ''participation is closed for this cycle'')
     else if cyc_max_quotas cycle < whole_units (cycle_units (cyc_id cycle) db) + units then
       Inl (CycleFoundationError ''cycle quota capacity exceeded'')
     else
     let quota = \<lparr>quo_id = next_id quo_id (db_quotas db), quo_member_id = member_id, quo_cycle_id = Some (cyc_id cycle),
           quo_units = of_int units, quo_status = ''ACTIVE''\<rparr>
     in Inr (quota, db\<lparr>db_quotas := db_quotas db @ [quota]\<rparr>))))"

definition quota_units :: "int \<Rightarrow> int \<Rightarrow> 'a database_scheme \<Rightarrow> int res" where
  "quota_units member_id cycle_id db =
     (let total_units = (\<Sum>q\<leftarrow>filter (\<lambda>q. quo_member_id q = member_id \<and> quo_cycle_id q = Some cycle_id \<and> quo_status q = ''ACTIVE'')
            (db_quotas db). quo_units q)
      in if total_units = 0 then Inl (CycleFoundationError ''member has no active quota in cycle'')
         else Inr (whole_units total_units))"

definition authoritative_amount :: "int \<Rightarrow> int \<Rightarrow> 'a database_scheme \<Rightarrow> cents res" where
  "authoritative_amount member_id cycle_id db =
     res_bind (cycle_for_update cycle_id db) (\<lambda>cycle.
     res_bind (quota_units member_id cycle_id db) (\<lambda>units.
     Inr (cents (dmul 28 (dec (cyc_monthly_amount cycle)) (of_int units)))))"

section \<open>Contributions\<close>

text \<open>\<open>d.replace(day=1)\<close>, and the tenth of a competence's month.\<close>

definition month_start :: "date \<Rightarrow> date" where
  "month_start d = ordinal ((of_ordinal d)\<lparr>dom := 1\<rparr>)"

definition due_date_of :: "date \<Rightarrow> date res" where
  "due_date_of competence =
     (let c = of_ordinal competence in make_date (yr c) (mon c) (min 10 (days_in_month (yr c) (mon c))))"

definition entry_allowed :: "cycle_row \<Rightarrow> participation_row option \<Rightarrow> date \<Rightarrow> unit res" where
  "entry_allowed cycle existing entry_date =
     (if existing = None \<and> cyc_entry_deadline cycle < entry_date then
        Inl (CycleFoundationError ''cycle entry deadline exceeded'')
      else if entry_date < cyc_start_date cycle then Inl (CycleFoundationError ''entry precedes cycle'')
      else Inr ())"

definition competence_allowed :: "cycle_row \<Rightarrow> date \<Rightarrow> unit res" where
  "competence_allowed cycle competence =
     (if dom (of_ordinal competence) \<noteq> 1 then
        Inl (CycleFoundationError ''competence must be the first day of a month'')
      else if competence < month_start (cyc_start_date cycle) then
        Inl (CycleFoundationError ''competence precedes cycle'')
      else if month_index (cyc_start_date cycle) + cyc_months cycle \<le> month_index competence then
        Inl (CycleFoundationError ''competence exceeds cycle'')
      else Inr ())"

definition contributions_for :: "int \<Rightarrow> int \<Rightarrow> date \<Rightarrow> 'a database_scheme \<Rightarrow> contribution_row list" where
  "contributions_for member_id cycle_id competence db =
     filter (\<lambda>c. con_competence c = competence) (cycle_contributions member_id cycle_id db)"

definition create_contribution ::
    "instant \<Rightarrow> int \<Rightarrow> int \<Rightarrow> date \<Rightarrow> date \<Rightarrow> 'a database_scheme \<Rightarrow> (contribution_row \<times> 'a database_scheme) res" where
  "create_contribution now member_id cycle_id competence entry_date db0 =
     res_bind (cycle_for_update cycle_id db0) (\<lambda>cycle.
     res_bind (one_or_none (participations_of member_id cycle_id db0)) (\<lambda>existing.
     res_bind (entry_allowed cycle existing entry_date) (\<lambda>_.
     res_bind (competence_allowed cycle competence) (\<lambda>_.
     res_bind (ensure_active_participation now member_id cycle_id (Some entry_date) db0) (\<lambda>(_, db).
     res_bind (one_or_none (contributions_for member_id cycle_id competence db)) (\<lambda>found.
     res_bind (authoritative_amount member_id cycle_id db) (\<lambda>amount.
     case found of
       Some c \<Rightarrow>
         if con_amount c \<noteq> amount then
           Inl (CycleFoundationError ''existing contribution amount is not authoritative'')
         else Inr (c, db)
     | None \<Rightarrow>
         res_bind (due_date_of competence) (\<lambda>due.
         let c = \<lparr>con_id = next_id con_id (db_contributions db), con_member_id = member_id, con_cycle_id = Some cycle_id,
               con_competence = competence, con_amount = amount, con_status = ''PENDING'', con_payment_id = None,
               con_due_date = Some due, con_paid_amount = Some 0, con_paid_at = None, con_cancelled_at = None,
               con_cancellation_reason = None\<rparr>
         in Inr (c, db\<lparr>db_contributions := db_contributions db @ [c]\<rparr>)))))))))"

definition competence_of :: "date \<Rightarrow> int \<Rightarrow> date res" where
  "competence_of start offset =
     (let s = of_ordinal start; index = mon s - 1 + offset in make_date (yr s + index div 12) (index mod 12 + 1) 1)"

definition months_through :: "cycle_row \<Rightarrow> date \<Rightarrow> int" where
  "months_through cycle entry_date =
     (let s = of_ordinal (cyc_start_date cycle); t = of_ordinal entry_date
      in min (cyc_months cycle) ((yr t - yr s) * 12 + mon t - mon s + 1))"

definition add_month ::
    "instant \<Rightarrow> int \<Rightarrow> int \<Rightarrow> cycle_row \<Rightarrow> date \<Rightarrow> int \<Rightarrow> contribution_row list \<times> 'a database_scheme
      \<Rightarrow> (contribution_row list \<times> 'a database_scheme) res" where
  "add_month now member_id cycle_id cycle entry_date offset state =
     (let (rows, db) = state
      in res_bind (competence_of (cyc_start_date cycle) offset) (\<lambda>competence.
         res_bind (create_contribution now member_id cycle_id competence entry_date db) (\<lambda>(c, db').
         Inr (rows @ [c], db'))))"

definition ensure_contributions_for_entry ::
    "instant \<Rightarrow> int \<Rightarrow> int \<Rightarrow> date \<Rightarrow> 'a database_scheme \<Rightarrow> (contribution_row list \<times> 'a database_scheme) res" where
  "ensure_contributions_for_entry now member_id cycle_id entry_date db0 =
     res_bind (cycle_for_update cycle_id db0) (\<lambda>cycle.
     res_bind (one_or_none (participations_of member_id cycle_id db0)) (\<lambda>existing.
     res_bind (entry_allowed cycle existing entry_date) (\<lambda>_.
     res_bind (ensure_active_participation now member_id cycle_id (Some entry_date) db0) (\<lambda>(_, db).
     fold_res (add_month now member_id cycle_id cycle entry_date) [0..months_through cycle entry_date - 1] ([], db)))))"

end
