(* ===== verification/Participation_Properties.thy ===== *)
theory Participation_Properties
  imports Cycle_Foundation Loan_Engine_Properties
begin

text \<open>
  What participation promises: a member is blocked exactly when three consecutive months are overdue, a block or an exit is
  final and freezes what was open, contributions of a cycle are created once per month with the amount of the
  member's quotas, and quotas stay within the cycle's capacity.
\<close>

section \<open>Months in order\<close>

lemma next_id_notin: "next_id k rows \<notin> k ` set rows"
proof
  assume "next_id k rows \<in> k ` set rows"
  then obtain r where "r \<in> set rows" "next_id k rows = k r" by auto
  with next_id_fresh [of r rows k] show False by simp
qed

lemma div_pred:
  assumes "0 < (k::int)"
  shows "(y - 1) div k = y div k - (if y mod k = 0 then 1 else 0)"
proof (cases "y mod k = 0")
  case True
  have "y - 1 = k * (y div k - 1) + (k - 1)" using mult_div_mod_eq [of k y] True by (simp add: algebra_simps)
  from div_mod_eq [OF this] assms True show ?thesis by simp
next
  case False
  have "y - 1 = k * (y div k) + (y mod k - 1)" using mult_div_mod_eq [of k y] by linarith
  from div_mod_eq [OF this] False pos_mod_bound [OF assms, of y] pos_mod_sign [OF assms, of y] show ?thesis by simp
qed

lemma days_before_year_next: "days_before_year (y + 1) = days_before_year y + days_in_year y"
proof -
  have m: "y mod 400 = 0 \<Longrightarrow> y mod 100 = 0" "y mod 100 = 0 \<Longrightarrow> y mod 4 = 0"
    using mod_mod_cancel [of 100 400 y] mod_mod_cancel [of 4 100 y] by simp_all
  show ?thesis using m by (auto simp: days_before_year_def days_in_year_def is_leap_def Let_def div_pred)
qed

lemma days_before_year_mono:
  assumes "y < z"
  shows "days_before_year y + days_in_year y \<le> days_before_year z"
  using assms
proof (induction z rule: int_gr_induct)
  case base
  show ?case by (simp add: days_before_year_next)
next
  case (step z)
  then show ?case by (simp add: days_before_year_next days_in_year_def)
qed

definition is_date :: "date \<Rightarrow> bool" where
  "is_date n \<longleftrightarrow> valid_ymd (of_ordinal n) \<and> ordinal (of_ordinal n) = n"

lemma month_index_less:
  assumes "is_date a" "is_date b" "month_index a < month_index b"
  shows "a < b"
proof -
  define x where "x = of_ordinal a"
  define y where "y = of_ordinal b"
  have x: "1 \<le> mon x" "mon x \<le> 12" "1 \<le> dom x" "dom x \<le> days_in_month (yr x) (mon x)" "a = ordinal x"
    and y: "1 \<le> mon y" "mon y \<le> 12" "1 \<le> dom y" "b = ordinal y"
    using assms(1,2) by (auto simp: is_date_def valid_ymd_def x_def y_def)
  have less: "yr x * 12 + mon x < yr y * 12 + mon y" using assms(3) by (simp add: month_index_def x_def y_def Let_def)
  show ?thesis
  proof (cases "yr x = yr y")
    case True
    then show ?thesis using less days_before_mono [of "mon x" "mon y" "yr x"] x y by (auto simp: ordinal_def)
  next
    case False
    with less x y have "yr x < yr y" by auto
    from days_before_year_mono [OF this] day_of_year_bound [OF x(1,2,4)] days_before_month_nonneg [OF y(1,2), of "yr y"] y(3)
    show ?thesis by (simp add: x(5) y(4) ordinal_def)
  qed
qed

lemma month_index_mono: "is_date a \<Longrightarrow> is_date b \<Longrightarrow> a \<le> b \<Longrightarrow> month_index a \<le> month_index b"
  using month_index_less [of b a] by fastforce

section \<open>Three consecutive overdue months\<close>

abbreviation month :: "contribution_row \<Rightarrow> int" where "month c \<equiv> month_index (con_competence c)"

definition late_in :: "date \<Rightarrow> contribution_row list \<Rightarrow> int \<Rightarrow> bool" where
  "late_in as_of cs m \<longleftrightarrow> (\<exists>c\<in>set cs. con_cancelled_at c = None \<and> overdue_on as_of c \<and> month c = m)"

lemma overdue_has_due: "overdue_on as_of c \<Longrightarrow> con_due_date c \<noteq> None"
  by (auto simp: overdue_on_def split: option.splits)

text \<open>The scan, on rows in strictly increasing months: with \<open>k < 3\<close> overdue months just before, it finds
  three in a row exactly when they exist, those before included.\<close>

lemma streak_scan_spec:
  assumes "sorted_wrt (\<lambda>x y. month x < month y) cs" "\<forall>c\<in>set cs. p < month c" "0 \<le> k" "k < 3" "q = None \<Longrightarrow> k = 0"
    and "q \<noteq> None \<Longrightarrow> q = Some p"
  shows "streak_scan as_of cs k q = Inr ((\<exists>m. late_in as_of cs m \<and> late_in as_of cs (m + 1) \<and> late_in as_of cs (m + 2))
     \<or> k = 2 \<and> late_in as_of cs (p + 1) \<or> k = 1 \<and> late_in as_of cs (p + 1) \<and> late_in as_of cs (p + 2))"
  using assms
proof (induction cs arbitrary: k q p)
  case Nil
  then show ?case by (simp add: late_in_def)
next
  case (Cons c cs)
  have rest: "\<forall>x\<in>set cs. month c < month x" "sorted_wrt (\<lambda>x y. month x < month y) cs" using Cons.prems(1) by simp_all
  have late: "late_in as_of (c # cs) m \<longleftrightarrow> con_cancelled_at c = None \<and> overdue_on as_of c \<and> month c = m \<or> late_in as_of cs m" for m
    by (auto simp: late_in_def)
  have above: "late_in as_of cs m \<Longrightarrow> month c < m" for m using rest(1) by (auto simp: late_in_def)
  have p: "p < month c" using Cons.prems(2) by simp
  show ?case
  proof (cases "con_cancelled_at c \<noteq> None \<or> con_due_date c = None")
    case True
    then have no: "\<not> (con_cancelled_at c = None \<and> overdue_on as_of c)" using overdue_has_due by blast
    have "\<forall>x\<in>set cs. month c < month x" using rest(1) .
    from Cons.IH [OF rest(2) this, of 0 None] True
    have "streak_scan as_of (c # cs) k q = Inr (\<exists>m. late_in as_of cs m \<and> late_in as_of cs (m + 1) \<and> late_in as_of cs (m + 2))"
      by simp
    moreover have "late_in as_of (c # cs) m = late_in as_of cs m" for m using no by (auto simp: late)
    moreover have "late_in as_of cs m \<Longrightarrow> p + 1 < m" for m using above [of m] p by simp
    ultimately show ?thesis by auto
  next
    case False
    then obtain due where live: "con_cancelled_at c = None" "con_due_date c = Some due" by auto
    have fresh: "q \<noteq> Some (month c)" using Cons.prems(6) p by (cases q) auto
    define k' where "k' = (if overdue_on as_of c \<and> q = Some (month c - 1) then k + 1 else if overdue_on as_of c then 1 else 0)"
    have step: "streak_scan as_of (c # cs) k q = (if 3 \<le> k' then Inr True else streak_scan as_of cs k' (Some (month c)))"
      using live fresh by (simp add: k'_def Let_def)
    have join: "q = Some (month c - 1) \<longleftrightarrow> q \<noteq> None \<and> month c = p + 1" using Cons.prems(6) by (cases q) auto
    have bounds: "0 \<le> k'" using Cons.prems(3) by (simp add: k'_def)
    show ?thesis
    proof (cases "3 \<le> k'")
      case True
      with Cons.prems(4) have "overdue_on as_of c" "month c = p + 1" "k = 2"
        by (auto simp: k'_def join split: if_splits)
      with live True show ?thesis unfolding step by (auto simp: late)
    next
      case k3: False
      from Cons.IH [OF rest(2,1) bounds, of "Some (month c)"] k3
      have scan: "streak_scan as_of (c # cs) k q = Inr ((\<exists>m. late_in as_of cs m \<and> late_in as_of cs (m + 1) \<and> late_in as_of cs (m + 2))
          \<or> k' = 2 \<and> late_in as_of cs (month c + 1) \<or> k' = 1 \<and> late_in as_of cs (month c + 1) \<and> late_in as_of cs (month c + 2))"
        unfolding step by simp
      show ?thesis
      proof (cases "overdue_on as_of c")
        case True
        have k: "q = None \<Longrightarrow> k = 0" "k = 0 \<or> k = 1 \<or> k = 2" using Cons.prems(3-5) by auto
        have first: "late_in as_of (c # cs) m \<and> late_in as_of (c # cs) (m + 1) \<and> late_in as_of (c # cs) (m + 2) \<longleftrightarrow>
            late_in as_of cs m \<and> late_in as_of cs (m + 1) \<and> late_in as_of cs (m + 2)
            \<or> m = month c \<and> late_in as_of cs (month c + 1) \<and> late_in as_of cs (month c + 2)" for m
          using above [of m] above [of "m + 1"] by (auto simp: late live True)
        have next1: "late_in as_of (c # cs) (p + 1) \<longleftrightarrow> month c = p + 1" using above [of "p + 1"] p by (auto simp: late live True)
        have next2: "month c = p + 1 \<Longrightarrow> late_in as_of (c # cs) (p + 2) \<longleftrightarrow> late_in as_of cs (month c + 1)"
          by (auto simp: late live True add.commute)
        show ?thesis unfolding scan first next1 using k k3 next2 p join
          by (auto simp: k'_def True split: if_splits)
      next
        case False
        have same: "late_in as_of (c # cs) m = late_in as_of cs m" for m by (auto simp: late False)
        have "\<not> late_in as_of cs (p + 1)" using above [of "p + 1"] p by auto
        then show ?thesis unfolding scan same by (simp add: k'_def False)
      qed
    qed
  qed
qed
lemma streak_of_three:
  assumes "distinct (map month cs)" "\<forall>c\<in>set cs. is_date (con_competence c)"
  shows "consecutive_overdue cs as_of = Inr (\<exists>m. late_in as_of cs m \<and> late_in as_of cs (m + 1) \<and> late_in as_of cs (m + 2))"
proof -
  define xs where "xs = sort_key con_competence cs"
  have "sorted_wrt (\<lambda>x y. con_competence x \<le> con_competence y) xs"
    using sorted_sort_key [of con_competence cs] by (simp add: xs_def sorted_map)
  then have "sorted_wrt (\<lambda>x y. month x \<le> month y) xs"
    by (rule sorted_wrt_mono_rel [rotated]) (use assms(2) in \<open>auto simp: xs_def intro: month_index_mono\<close>)
  moreover have "distinct (map month xs)" using assms(1) by (simp add: xs_def)
  ultimately have sorted: "sorted_wrt (\<lambda>x y. month x < month y) xs"
    by (induction xs) (auto simp: less_le)
  have "\<exists>p. \<forall>c\<in>set xs. p < month c"
  proof (intro exI ballI)
    fix c assume "c \<in> set xs"
    then have "Min (month ` set xs) \<le> month c" by simp
    then show "Min (month ` set xs) - 1 < month c" by simp
  qed
  then obtain p where "\<forall>c\<in>set xs. p < month c" ..
  from streak_scan_spec [OF sorted this, of 0 None] have
    "consecutive_overdue cs as_of = Inr (\<exists>m. late_in as_of xs m \<and> late_in as_of xs (m + 1) \<and> late_in as_of xs (m + 2))"
    by (simp add: consecutive_overdue_def xs_def)
  moreover have "late_in as_of xs m = late_in as_of cs m" for m by (simp add: late_in_def xs_def)
  ultimately show ?thesis by simp
qed

text \<open>C23. The block looks at months, not at the order of rows: over contributions of different months, the check answers, without
  error, whether there are three consecutive months each with an overdue contribution that is not cancelled.\<close>

theorem consecutive_overdue_iff:
  assumes "distinct (map month cs)" "\<forall>c\<in>set cs. is_date (con_competence c)"
  shows "consecutive_overdue cs as_of = Inr (\<exists>m. late_in as_of cs m \<and> late_in as_of cs (m + 1) \<and> late_in as_of cs (m + 2))"
  using assms by (rule streak_of_three)

section \<open>The block freezes what is open\<close>

text \<open>Nothing is open on a contribution that is cancelled or fully paid.\<close>

definition closed_contribution :: "contribution_row \<Rightarrow> bool" where
  "closed_contribution c \<longleftrightarrow> con_cancelled_at c \<noteq> None \<or> con_amount c \<le> paid_of c"

lemma cancel_closed [simp]: "closed_contribution (cancel_contribution t reason c)"
  by (simp add: cancel_contribution_def closed_contribution_def)

lemma cancel_keys [simp]:
  "con_id (cancel_contribution t reason c) = con_id c" "con_member_id (cancel_contribution t reason c) = con_member_id c"
  "con_cycle_id (cancel_contribution t reason c) = con_cycle_id c" "con_amount (cancel_contribution t reason c) = con_amount c"
  "con_paid_amount (cancel_contribution t reason c) = con_paid_amount c"
  by (simp_all add: cancel_contribution_def)

lemma cancel_of_closed: "closed_contribution c \<Longrightarrow> cancel_contribution t reason c = c"
  by (auto simp: cancel_contribution_def closed_contribution_def)

lemma freeze_fold:
  fixes db :: "'a database_scheme"
  assumes "fold_res (freeze_contribution now t civil row) xs db = Inr db'"
  shows "\<exists>es. db_charge_events db' = db_charge_events db @ es \<and> map cev_cancelled_principal es = map (\<lambda>x. snd (snd x)) xs
    \<and> map cev_contribution_id es = map (\<lambda>x. con_id (fst x)) xs
    \<and> list_all (\<lambda>e. cev_event_type e = ''BLOCK_FREEZE'' \<and> cev_participation_id e = cpa_id row \<and> cev_accrued_through e = civil) es
    \<and> db_contributions db' = fold (\<lambda>x. put_by con_id (cancel_contribution t ''BLOCKED_DELINQUENCY'' (fst x))) xs (db_contributions db)
    \<and> db_participations db' = db_participations db \<and> db_quotas db' = db_quotas db \<and> db_cycles db' = db_cycles db"
  using assms
proof (induction xs arbitrary: db)
  case (Cons x xs)
  obtain c ch p where x: "x = (c, ch, p)" by (metis prod_cases3)
  from Cons.prems obtain db1 where step: "freeze_contribution now t civil row x db = Inr db1"
    "fold_res (freeze_contribution now t civil row) xs db1 = Inr db'" by (auto simp: res_bind_eq_Inr)
  from step(1) have db1: "db_charge_events db1 = db_charge_events db @ [new_charge_event now c row ''BLOCK_FREEZE'' civil ch p db]"
    "db_contributions db1 = put_by con_id (cancel_contribution t ''BLOCKED_DELINQUENCY'' c) (db_contributions db)"
    "db_participations db1 = db_participations db" "db_quotas db1 = db_quotas db" "db_cycles db1 = db_cycles db"
    by (auto simp: freeze_contribution_def x res_bind_eq_Inr insert_charge_event_def put_contribution_def split: if_splits)
  from Cons.IH [OF step(2)] obtain es where
    "db_charge_events db' = db_charge_events db1 @ es" "map cev_cancelled_principal es = map (\<lambda>x. snd (snd x)) xs"
    "map cev_contribution_id es = map (\<lambda>x. con_id (fst x)) xs"
    "list_all (\<lambda>e. cev_event_type e = ''BLOCK_FREEZE'' \<and> cev_participation_id e = cpa_id row \<and> cev_accrued_through e = civil) es"
    "db_contributions db' = fold (\<lambda>x. put_by con_id (cancel_contribution t ''BLOCKED_DELINQUENCY'' (fst x))) xs (db_contributions db1)"
    "db_participations db' = db_participations db1" "db_quotas db' = db_quotas db1" "db_cycles db' = db_cycles db1" by blast
  with db1 show ?case
    by (intro exI [of _ "new_charge_event now c row ''BLOCK_FREEZE'' civil ch p db # es"]) (simp add: x new_charge_event_def)
qed (simp add: exI [of _ "[]"])

definition owes_snapshot :: "date \<Rightarrow> 'a database_scheme \<Rightarrow> contribution_row \<Rightarrow> bool" where
  "owes_snapshot civil db c \<longleftrightarrow> delinquency_snapshot civil db c \<noteq> Inr []"

lemma snapshots_map:
  assumes "map_res (delinquency_snapshot civil db) cs = Inr xss"
  shows "map fst (concat xss) = filter (owes_snapshot civil db) cs
    \<and> (\<forall>c\<in>set cs. closed_contribution c \<or> owes_snapshot civil db c)
    \<and> (\<Sum>x\<leftarrow>concat xss. snd (snd x)) = (\<Sum>c\<leftarrow>cs. max 0 (con_amount c - paid_of c))"
proof -
  have one: "xs = [] \<and> \<not> owes_snapshot civil db c \<and> closed_contribution c \<and> max 0 (con_amount c - paid_of c) = 0
      \<or> owes_snapshot civil db c \<and> (\<exists>ch. xs = [(c, ch, max 0 (con_amount c - paid_of c))])"
    if "delinquency_snapshot civil db c = Inr xs" for c xs
    using that by (auto simp: owes_snapshot_def delinquency_snapshot_def res_bind_eq_Inr Let_def closed_contribution_def
        split: option.splits if_splits)
  from assms have "list_all2 (\<lambda>c xs. delinquency_snapshot civil db c = Inr xs) cs xss" by (simp add: map_res_list_all2)
  then show ?thesis
  proof (induction rule: list_all2_induct)
    case (Cons c cs xs xss)
    from one [OF Cons.hyps(1)] consider "xs = []" "\<not> owes_snapshot civil db c" "closed_contribution c" "max 0 (con_amount c - paid_of c) = 0"
      | ch where "owes_snapshot civil db c" "xs = [(c, ch, max 0 (con_amount c - paid_of c))]" by blast
    then show ?case using Cons.IH by cases simp_all
  qed simp
qed

lemma cancel_rows:
  fixes db :: "'a database_scheme"
  assumes "distinct (map con_id (db_contributions db))"
    and "set cs = set (cycle_contributions i j db)" "distinct cs"
    and "\<forall>c\<in>set cs. closed_contribution c \<or> P c"
  shows "fold (\<lambda>c. put_by con_id (cancel_contribution t reason c)) (filter P cs) (db_contributions db)
    = map (\<lambda>c. if c \<in> set (cycle_contributions i j db) then cancel_contribution t reason c else c) (db_contributions db)"
proof -
  have sub: "set cs \<subseteq> set (db_contributions db)" using assms(2) by (auto simp: cycle_contributions_def)
  have inj: "inj_on con_id (set cs)" using assms(1) sub by (auto simp: distinct_map intro: inj_on_subset)
  then have d: "distinct (map con_id (filter P cs))" using assms(3) by (simp add: distinct_map inj_on_subset)
  have "fold (\<lambda>c. put_by con_id (cancel_contribution t reason c)) (filter P cs) (db_contributions db)
      = map (\<lambda>x. case get_by con_id (con_id x) (filter P cs) of None \<Rightarrow> x | Some r \<Rightarrow> cancel_contribution t reason r) (db_contributions db)"
    by (rule fold_put_by) (simp_all add: d)
  also have "\<dots> = map (\<lambda>c. if c \<in> set (cycle_contributions i j db) then cancel_contribution t reason c else c) (db_contributions db)"
  proof (rule map_cong [OF refl])
    fix x assume x: "x \<in> set (db_contributions db)"
    show "(case get_by con_id (con_id x) (filter P cs) of None \<Rightarrow> x | Some r \<Rightarrow> cancel_contribution t reason r)
        = (if x \<in> set (cycle_contributions i j db) then cancel_contribution t reason x else x)"
    proof (cases "get_by con_id (con_id x) (filter P cs)")
      case None
      then have "x \<in> set cs \<Longrightarrow> \<not> P x" by (auto simp: get_by_None_iff)
      with assms(2,4) have "x \<in> set (cycle_contributions i j db) \<Longrightarrow> closed_contribution x" by auto
      with None show ?thesis by (simp add: cancel_of_closed)
    next
      case (Some r)
      then have r: "r \<in> set cs" "con_id r = con_id x" by (auto dest: get_by_Some_mem)
      with sub distinct_map_unique [OF assms(1)] x have "r = x" by blast
      with Some r assms(2) show ?thesis by simp
    qed
  qed
  finally show ?thesis .
qed

text \<open>What a successful evaluation did: nothing, when the participation is closed or the months are in order, or the block.\<close>

lemma evaluate_run:
  fixes db0 :: "'a database_scheme"
  assumes "evaluate_delinquency now i j eff db0 = Inr (row, db')"
  obtains t m a db1 row0 db where "effective_at_utc now eff = Inr t" "lock_member_financial_account i db0 = Inr (m, a, db1)"
    "participation now i j None db1 = Inr (row0, db)"
    "row = row0 \<and> db' = db
     \<or> (\<exists>cs xss db2. cpa_status row0 = ''ACTIVE'' \<and> cs = sort_key con_competence (sort_key con_id (cycle_contributions i j db))
         \<and> consecutive_overdue cs (belem_date t) = Inr True \<and> row = blocked_row t row0
         \<and> map_res (delinquency_snapshot (belem_date t) db) cs = Inr xss
         \<and> fold_res (freeze_contribution now t (belem_date t) row) (concat xss) (put_participation row db) = Inr db2
         \<and> db' = add_audit None ''CYCLE_PARTICIPATION_BLOCKED'' ''CYCLE_PARTICIPATION'' (py_str (cpa_id row)) db2)"
  using assms unfolding evaluate_delinquency_def
proof (elim res_bind_InrE, goal_cases)
  case (1 t)
  from 1(3) [unfolded Let_def] show ?case
  proof (elim res_bind_InrE, goal_cases)
    case (1 x)
    obtain m a db1 where x: "x = (m, a, db1)" by (metis prod_cases3)
    from 1(2) [unfolded x prod.case] show ?case
    proof (elim res_bind_InrE, goal_cases)
      case (1 y)
      obtain row0 db where y: "y = (row0, db)" by (cases y)
      have pre: "effective_at_utc now eff = Inr t" "lock_member_financial_account i db0 = Inr (m, a, db1)"
        "participation now i j None db1 = Inr (row0, db)"
        using 1(1) \<open>effective_at_utc now eff = Inr t\<close> \<open>lock_member_financial_account i db0 = Inr x\<close> x y by simp_all
      show ?case
      proof (cases "cpa_status row0 \<noteq> ''ACTIVE''")
        case True
        with 1(2) y show ?thesis by (intro that [OF pre]) simp
      next
        case False
        note run = 1(2) [unfolded y prod.case]
        from run False obtain overdue where o: "consecutive_overdue (sort_key con_competence (sort_key con_id (cycle_contributions i j db))) (belem_date t) = Inr overdue"
          by (auto simp: res_bind_eq_Inr)
        show ?thesis
        proof (cases overdue)
          case False
          with run \<open>\<not> cpa_status row0 \<noteq> ''ACTIVE''\<close> o show ?thesis by (intro that [OF pre]) simp
        next
          case True
          with run False o show ?thesis by (intro that [OF pre]) (auto simp: res_bind_eq_Inr)
        qed
      qed
    qed
  qed
qed

text \<open>The participation was there, or it is new and the last row.\<close>

lemma participation_cases:
  fixes db :: "'a database_scheme"
  assumes "participation now i j e db = Inr (row, db')"
  obtains (found) "participations_of i j db = [row]" "db' = db"
    | (added) "participations_of i j db = []" "row = new_participation now i j e db"
      "db' = db\<lparr>db_participations := db_participations db @ [row]\<rparr>"
proof (cases "participations_of i j db")
  case Nil
  with assms show ?thesis
    by (intro added) (auto simp: participation_def one_or_none_def Let_def split: if_splits)
next
  case (Cons x xs)
  with assms show ?thesis by (intro found) (auto simp: participation_def one_or_none_def split: list.splits)
qed

lemma participation_Inr:
  fixes db :: "'a database_scheme"
  assumes "participation now i j e db = Inr (row, db')"
  shows "participations_of i j db' = [row] \<and> db_contributions db' = db_contributions db \<and> db_charge_events db' = db_charge_events db
    \<and> db_members db' = db_members db \<and> db_accounts db' = db_accounts db \<and> cpa_member_id row = i \<and> cpa_cycle_id row = j
    \<and> db_quotas db' = db_quotas db \<and> db_cycles db' = db_cycles db \<and> row \<in> set (db_participations db')"
  using assms
  by (rule participation_cases) (auto simp: participations_of_def new_participation_def filter_eq_Cons_iff)

lemma participation_ids:
  fixes db :: "'a database_scheme"
  assumes "participation now i j e db = Inr (row, db')" "distinct (map cpa_id (db_participations db))"
  shows "distinct (map cpa_id (db_participations db'))"
  using assms(1)
proof (rule participation_cases)
  assume "row = new_participation now i j e db" "db' = db\<lparr>db_participations := db_participations db @ [row]\<rparr>"
  then show ?thesis using assms(2) next_id_notin [of cpa_id "db_participations db"] by (simp add: new_participation_def)
qed (simp add: assms(2))

lemma put_participation_row:
  assumes "participations_of i j db = [row0]" "cpa_id row = cpa_id row0" "cpa_member_id row = i" "cpa_cycle_id row = j"
    "distinct (map cpa_id (db_participations db))"
  shows "participations_of i j (put_participation row db) = [row]"
proof -
  have mem: "row0 \<in> set (db_participations db)" "cpa_member_id row0 = i" "cpa_cycle_id row0 = j"
    using assms(1) by (auto simp: participations_of_def filter_eq_Cons_iff)
  have "participations_of i j (put_participation row db) = map (\<lambda>r. if cpa_id r = cpa_id row then row else r) (participations_of i j db)"
    using distinct_map_unique [OF assms(5) _ mem(1)] mem assms(2-4)
    by (auto simp: participations_of_def put_participation_def put_by_def filter_map o_def intro!: arg_cong2 [of _ _ _ _ map] filter_cong)
  with assms(1,2) show ?thesis by simp
qed

lemma put_participation_simps [simp]:
  fixes db :: "'a database_scheme"
  shows "db_contributions (put_participation r db) = db_contributions db" "db_charge_events (put_participation r db) = db_charge_events db"
    "db_quotas (put_participation r db) = db_quotas db" "db_cycles (put_participation r db) = db_cycles db"
    "cycle_contributions i j (put_participation r db) = cycle_contributions i j db"
  by (simp_all add: put_participation_def cycle_contributions_def)

lemma cycle_contributions_cong: "db_contributions db = db_contributions db' \<Longrightarrow> cycle_contributions i j db = cycle_contributions i j db'"
  by (simp add: cycle_contributions_def)

lemma audit_database [simp]:
  fixes db :: "'a database_scheme"
  shows "db_contributions (add_audit a b c d db) = db_contributions db" "db_charge_events (add_audit a b c d db) = db_charge_events db"
    "db_participations (add_audit a b c d db) = db_participations db" "db_quotas (add_audit a b c d db) = db_quotas db"
    "db_cycles (add_audit a b c d db) = db_cycles db"
  by (simp_all add: add_audit_def)

lemma closed_rows:
  fixes db :: "'a database_scheme"
  assumes "db_contributions db' = map (\<lambda>c. if c \<in> set (cycle_contributions i j db) then cancel_contribution t reason c else c) (db_contributions db)"
  shows "list_all closed_contribution (cycle_contributions i j db')
    \<and> filter (\<lambda>c. \<not> (con_member_id c = i \<and> con_cycle_id c = Some j)) (db_contributions db')
      = filter (\<lambda>c. \<not> (con_member_id c = i \<and> con_cycle_id c = Some j)) (db_contributions db)"
proof -
  have "list_all closed_contribution (cycle_contributions i j db')"
    unfolding list_all_iff
  proof
    fix c assume c: "c \<in> set (cycle_contributions i j db')"
    then have keys: "con_member_id c = i" "con_cycle_id c = Some j" by (simp_all add: cycle_contributions_def)
    from c have "c \<in> set (db_contributions db')" by (simp add: cycle_contributions_def)
    then obtain x where x: "x \<in> set (db_contributions db)"
      "c = (if x \<in> set (cycle_contributions i j db) then cancel_contribution t reason x else x)"
      unfolding assms set_map by (elim imageE)
    show "closed_contribution c"
    proof (cases "x \<in> set (cycle_contributions i j db)")
      case False
      with x(2) have "c = x" by simp
      with x(1) keys False show ?thesis by (simp add: cycle_contributions_def)
    qed (simp add: x)
  qed
  moreover have "filter (\<lambda>c. \<not> (con_member_id c = i \<and> con_cycle_id c = Some j))
      (map (\<lambda>c. if c \<in> set (cycle_contributions i j db) then cancel_contribution t reason c else c) xs)
      = filter (\<lambda>c. \<not> (con_member_id c = i \<and> con_cycle_id c = Some j)) xs" if "set xs \<subseteq> set (db_contributions db)" for xs
    using that by (induction xs) (auto simp: cycle_contributions_def)
  ultimately show ?thesis by (simp add: assms)
qed

lemma evaluate_cases:
  fixes db0 :: "'a database_scheme"
  assumes run: "evaluate_delinquency now i j eff db0 = Inr (row, db')" and ids: "distinct (map con_id (db_contributions db0))"
  obtains (unchanged) acc where "participation now i j None (db0\<lparr>db_accounts := acc\<rparr>) = Inr (row, db')"
    | (blocked) acc t row0 db es where "participation now i j None (db0\<lparr>db_accounts := acc\<rparr>) = Inr (row0, db)"
      "cpa_status row0 = ''ACTIVE''" "row = blocked_row t row0" "db_participations db' = put_by cpa_id row (db_participations db)"
      "db_contributions db' = map (\<lambda>c. if c \<in> set (cycle_contributions i j db0) then cancel_contribution t ''BLOCKED_DELINQUENCY'' c else c)
        (db_contributions db0)"
      "db_charge_events db' = db_charge_events db0 @ es" "db_quotas db' = db_quotas db0" "db_cycles db' = db_cycles db0"
      "list_all (\<lambda>e. cev_event_type e = ''BLOCK_FREEZE'' \<and> cev_participation_id e = cpa_id row
        \<and> cev_contribution_id e \<in> con_id ` set (cycle_contributions i j db0)) es"
      "(\<Sum>e\<leftarrow>es. cev_cancelled_principal e) = (\<Sum>c\<leftarrow>cycle_contributions i j db0. max 0 (con_amount c - paid_of c))"
proof -
  obtain t m a db1 row0 db where pre: "lock_member_financial_account i db0 = Inr (m, a, db1)"
    "participation now i j None db1 = Inr (row0, db)" and post: "row = row0 \<and> db' = db
     \<or> (\<exists>cs xss db2. cpa_status row0 = ''ACTIVE'' \<and> cs = sort_key con_competence (sort_key con_id (cycle_contributions i j db))
         \<and> consecutive_overdue cs (belem_date t) = Inr True \<and> row = blocked_row t row0
         \<and> map_res (delinquency_snapshot (belem_date t) db) cs = Inr xss
         \<and> fold_res (freeze_contribution now t (belem_date t) row) (concat xss) (put_participation row db) = Inr db2
         \<and> db' = add_audit None ''CYCLE_PARTICIPATION_BLOCKED'' ''CYCLE_PARTICIPATION'' (py_str (cpa_id row)) db2)"
    by (rule evaluate_run [OF run]) (rule that, assumption+)
  from lock_accounts_only [OF pre(1)] obtain acc where db1: "db1 = db0\<lparr>db_accounts := acc\<rparr>" .
  note part = pre(2) [unfolded db1]
  have same: "db_contributions db = db_contributions db0" "db_charge_events db = db_charge_events db0" "db_quotas db = db_quotas db0"
    "db_cycles db = db_cycles db0" using participation_Inr [OF part] by simp_all
  note cons = cycle_contributions_cong [OF same(1)]
  from post show thesis
  proof (elim disjE conjE exE)
    assume "row = row0" "db' = db"
    with part show thesis by (intro unchanged) simp
  next
    fix cs xss db2
    assume b: "cs = sort_key con_competence (sort_key con_id (cycle_contributions i j db))" "row = blocked_row t row0"
      "map_res (delinquency_snapshot (belem_date t) db) cs = Inr xss"
      "fold_res (freeze_contribution now t (belem_date t) row) (concat xss) (put_participation row db) = Inr db2"
      "db' = add_audit None ''CYCLE_PARTICIPATION_BLOCKED'' ''CYCLE_PARTICIPATION'' (py_str (cpa_id row)) db2"
      and active: "cpa_status row0 = ''ACTIVE''"
    note snap = snapshots_map [OF b(3)]
    from freeze_fold [OF b(4)] obtain es where es: "db_charge_events db2 = db_charge_events db @ es"
      "map cev_cancelled_principal es = map (\<lambda>x. snd (snd x)) (concat xss)" "map cev_contribution_id es = map (\<lambda>x. con_id (fst x)) (concat xss)"
      "list_all (\<lambda>e. cev_event_type e = ''BLOCK_FREEZE'' \<and> cev_participation_id e = cpa_id row \<and> cev_accrued_through e = belem_date t) es"
      "db_contributions db2 = fold (\<lambda>x. put_by con_id (cancel_contribution t ''BLOCKED_DELINQUENCY'' (fst x))) (concat xss) (db_contributions db)"
      "db_participations db2 = put_by cpa_id row (db_participations db)" "db_quotas db2 = db_quotas db" "db_cycles db2 = db_cycles db"
      by (auto simp: put_participation_def)
    have dist: "distinct (map con_id (db_contributions db))" using ids by (simp add: same)
    then have "distinct cs" by (simp add: b(1) cycle_contributions_def distinct_map)
    have "fold (\<lambda>x. put_by con_id (cancel_contribution t ''BLOCKED_DELINQUENCY'' (fst x))) (concat xss) (db_contributions db)
        = fold (\<lambda>c. put_by con_id (cancel_contribution t ''BLOCKED_DELINQUENCY'' c)) (map fst (concat xss)) (db_contributions db)"
      by (simp add: fold_map o_def)
    with cancel_rows [OF dist _ \<open>distinct cs\<close> conjunct1 [OF conjunct2 [OF snap]], of i j] snap es(5)
    have rows: "db_contributions db' = map (\<lambda>c. if c \<in> set (cycle_contributions i j db0) then cancel_contribution t ''BLOCKED_DELINQUENCY'' c else c)
        (db_contributions db0)" by (simp add: b(1,5) same cons)
    have "(\<Sum>e\<leftarrow>es. cev_cancelled_principal e) = (\<Sum>x\<leftarrow>concat xss. snd (snd x))" by (simp only: es(2))
    also have "\<dots> = (\<Sum>c\<leftarrow>cycle_contributions i j db0. max 0 (con_amount c - paid_of c))" using snap by (simp add: b(1) cons)
    finally have sum: "(\<Sum>e\<leftarrow>es. cev_cancelled_principal e) = (\<Sum>c\<leftarrow>cycle_contributions i j db0. max 0 (con_amount c - paid_of c))" .
    have "cev_contribution_id ` set es = con_id ` fst ` set (concat xss)"
      using arg_cong [OF es(3), of set] by (simp only: set_map image_image)
    also have "fst ` set (concat xss) \<subseteq> set (cycle_contributions i j db0)"
      using arg_cong [OF conjunct1 [OF snap], of set] by (auto simp: b(1) cons)
    finally have events: "list_all (\<lambda>e. cev_event_type e = ''BLOCK_FREEZE'' \<and> cev_participation_id e = cpa_id row
        \<and> cev_contribution_id e \<in> con_id ` set (cycle_contributions i j db0)) es"
      using es(4) by (auto simp: list_all_iff)
    show thesis
      by (rule blocked [OF part active b(2) _ rows _ _ _ events sum]) (simp_all add: b(5) same es)
  qed
qed

lemma block_freezes:
  fixes db0 :: "'a database_scheme"
  assumes run: "evaluate_delinquency now i j eff db0 = Inr (row, db')" "cpa_status row \<noteq> ''ACTIVE''"
    and active: "\<forall>r\<in>set (participations_of i j db0). cpa_status r = ''ACTIVE''"
    and ids: "distinct (map con_id (db_contributions db0))" "distinct (map cpa_id (db_participations db0))"
  shows "cpa_status row = ''BLOCKED_DELINQUENCY'' \<and> participations_of i j db' = [row]
    \<and> list_all closed_contribution (cycle_contributions i j db')
    \<and> filter (\<lambda>c. \<not> (con_member_id c = i \<and> con_cycle_id c = Some j)) (db_contributions db')
      = filter (\<lambda>c. \<not> (con_member_id c = i \<and> con_cycle_id c = Some j)) (db_contributions db0)
    \<and> (\<exists>es. db_charge_events db' = db_charge_events db0 @ es
        \<and> list_all (\<lambda>e. cev_event_type e = ''BLOCK_FREEZE'' \<and> cev_participation_id e = cpa_id row) es
        \<and> (\<Sum>e\<leftarrow>es. cev_cancelled_principal e) = (\<Sum>c\<leftarrow>cycle_contributions i j db0. max 0 (con_amount c - paid_of c)))"
  using run(1) ids(1)
proof (cases rule: evaluate_cases)
  case (unchanged acc)
  from unchanged show ?thesis
  proof (cases rule: participation_cases)
    case found
    then have "row \<in> set (participations_of i j db0)" by (simp add: participations_of_def)
    with active run(2) show ?thesis by blast
  next
    case added
    with run(2) show ?thesis by (simp add: new_participation_def)
  qed
next
  case (blocked acc t row0 db es)
  note p = participation_Inr [OF blocked(1)]
  have d: "distinct (map cpa_id (db_participations db))" using participation_ids [OF blocked(1)] ids(2) by simp
  have "participations_of i j db' = participations_of i j (put_participation row db)"
    by (simp add: participations_of_def blocked(4) put_participation_def)
  also have "\<dots> = [row]" using p by (intro put_participation_row [OF _ _ _ _ d]) (simp_all add: blocked(3) blocked_row_def)
  finally have "participations_of i j db' = [row]" .
  with closed_rows [OF blocked(5)] blocked(3,6,9,10) show ?thesis by (auto simp: blocked_row_def list_all_iff)
qed

text \<open>C21. A block freezes exactly what was open. An evaluation that closes an active participation leaves it blocked, and every
  contribution of the member in the cycle cancelled or fully paid; the other contributions are untouched; and the
  BLOCK_FREEZE events it appends carry, together, the principal that was open.\<close>

theorem delinquency_block:
  fixes db0 :: "'a database_scheme"
  assumes run: "evaluate_delinquency now i j eff db0 = Inr (row, db')" "cpa_status row \<noteq> ''ACTIVE''"
    and active: "\<forall>r\<in>set (participations_of i j db0). cpa_status r = ''ACTIVE''"
    and ids: "distinct (map con_id (db_contributions db0))" "distinct (map cpa_id (db_participations db0))"
  shows "cpa_status row = ''BLOCKED_DELINQUENCY'' \<and> participations_of i j db' = [row]
    \<and> list_all closed_contribution (cycle_contributions i j db')
    \<and> filter (\<lambda>c. \<not> (con_member_id c = i \<and> con_cycle_id c = Some j)) (db_contributions db')
      = filter (\<lambda>c. \<not> (con_member_id c = i \<and> con_cycle_id c = Some j)) (db_contributions db0)
    \<and> (\<exists>es. db_charge_events db' = db_charge_events db0 @ es
        \<and> list_all (\<lambda>e. cev_event_type e = ''BLOCK_FREEZE'' \<and> cev_participation_id e = cpa_id row) es
        \<and> (\<Sum>e\<leftarrow>es. cev_cancelled_principal e) = (\<Sum>c\<leftarrow>cycle_contributions i j db0. max 0 (con_amount c - paid_of c)))"
  using run active ids by (rule block_freezes)

section \<open>Leaving\<close>

lemma fold_cancel_contributions:
  fixes db :: "'a database_scheme"
  shows "db_contributions (fold (\<lambda>c. put_contribution (cancel_contribution t reason c)) cs db)
      = fold (\<lambda>c. put_by con_id (cancel_contribution t reason c)) cs (db_contributions db)"
    and "db_participations (fold (\<lambda>c. put_contribution (cancel_contribution t reason c)) cs db) = db_participations db"
    and "db_charge_events (fold (\<lambda>c. put_contribution (cancel_contribution t reason c)) cs db) = db_charge_events db"
    and "db_quotas (fold (\<lambda>c. put_contribution (cancel_contribution t reason c)) cs db) = db_quotas db"
    and "db_cycles (fold (\<lambda>c. put_contribution (cancel_contribution t reason c)) cs db) = db_cycles db"
  by (induction cs arbitrary: db) (simp_all add: put_contribution_def)

lemma exit_run:
  fixes db0 :: "'a database_scheme"
  assumes run: "voluntary_exit now i j eff actor db0 = Inr (row, db')" and ids: "distinct (map con_id (db_contributions db0))"
  obtains acc t row0 db where "effective_at_utc now eff = Inr t" "participation now i j None (db0\<lparr>db_accounts := acc\<rparr>) = Inr (row0, db)"
    "cpa_status row0 = ''ACTIVE''" "row = exited_row t row0" "db_participations db' = put_by cpa_id row (db_participations db)"
    "db_contributions db' = map (\<lambda>c. if c \<in> set (cycle_contributions i j db0) then cancel_contribution t ''VOLUNTARY_EXIT'' c else c)
      (db_contributions db0)"
    "db_charge_events db' = db_charge_events db0" "db_quotas db' = db_quotas db0" "db_cycles db' = db_cycles db0"
    "list_all (\<lambda>c. con_cancelled_at c = None \<longrightarrow> \<not> overdue_on (belem_date t) c) (cycle_contributions i j db0)"
    "\<not> overdue_loans i t db0" "\<not> overdue_agreements i (belem_date t) db0"
proof -
  from run obtain t where t: "effective_at_utc now eff = Inr t" by (auto simp: voluntary_exit_def res_bind_eq_Inr)
  note run' = run [unfolded voluntary_exit_def t res_bind_Inr Let_def]
  from run' obtain m a db1 where lock: "lock_member_financial_account i db0 = Inr (m, a, db1)"
    by (auto simp: res_bind_eq_Inr)
  from run' lock obtain row0 db where p1: "participation now i j None db1 = Inr (row0, db)"
    by (auto simp: res_bind_eq_Inr)
  from lock_accounts_only [OF lock] obtain acc where db1: "db1 = db0\<lparr>db_accounts := acc\<rparr>" .
  note part = p1 [unfolded db1]
  have frame: "db_contributions db = db_contributions db0" "db_charge_events db = db_charge_events db0" "db_quotas db = db_quotas db0"
    "db_cycles db = db_cycles db0" using participation_Inr [OF part] by simp_all
  have loans: "db_loans db = db_loans db0 \<and> db_installments db = db_installments db0 \<and> db_agreements db = db_agreements db0
      \<and> db_agreement_installments db = db_agreement_installments db0"
    using part by (cases rule: participation_cases) simp_all
  note cons = cycle_contributions_cong [OF frame(1), of i j]
  define cs where "cs = cycle_contributions i j db0"
  from run' have facts: "cpa_status row0 = ''ACTIVE''" "\<not> list_ex (\<lambda>c. con_cancelled_at c = None \<and> overdue_on (belem_date t) c) cs"
    "\<not> overdue_loans i t db" "\<not> overdue_agreements i (belem_date t) db" "row = exited_row t row0"
    "db' = add_audit actor ''CYCLE_PARTICIPATION_VOLUNTARY_EXIT'' ''CYCLE_PARTICIPATION'' (py_str (cpa_id row))
       (fold (\<lambda>c. put_contribution (cancel_contribution t ''VOLUNTARY_EXIT'' c)) cs (put_participation row db))"
    by (auto simp: lock p1 res_bind_eq_Inr cs_def cons split: if_splits)
  have "distinct cs" using ids by (simp add: cs_def cycle_contributions_def distinct_map)
  moreover have "filter (\<lambda>_. True) cs = cs" by simp
  ultimately have rows: "db_contributions db' = map (\<lambda>c. if c \<in> set (cycle_contributions i j db0) then cancel_contribution t ''VOLUNTARY_EXIT'' c else c)
      (db_contributions db0)"
    using cancel_rows [OF ids, of cs i j "\<lambda>_. True" t "''VOLUNTARY_EXIT''"]
    by (simp add: facts(6) fold_cancel_contributions cs_def frame)
  have late: "list_all (\<lambda>c. con_cancelled_at c = None \<longrightarrow> \<not> overdue_on (belem_date t) c) (cycle_contributions i j db0)"
    using facts(2) by (auto simp: cs_def list_ex_iff list_all_iff)
  show thesis
    by (rule that [OF t part facts(1,5) _ rows _ _ _ late])
      (use facts(3,4) loans in \<open>simp_all add: facts(6) frame fold_cancel_contributions put_participation_def overdue_loans_def overdue_agreements_def\<close>)
qed

text \<open>C24. A member leaves a cycle with nothing open. A successful exit was of a member with no contribution of the cycle
  overdue and no loan or agreement installment overdue; it closes the participation and leaves every contribution of the
  member in the cycle cancelled or fully paid, the other contributions and all charge events as they were.\<close>

theorem exit_leaves_nothing_open:
  fixes db0 :: "'a database_scheme"
  assumes run: "voluntary_exit now i j (Some (Aware t)) actor db0 = Inr (row, db')"
    and ids: "distinct (map con_id (db_contributions db0))" "distinct (map cpa_id (db_participations db0))"
  shows "cpa_status row = ''VOLUNTARILY_EXITED'' \<and> cpa_voluntary_exit_at row = Some (Aware t) \<and> participations_of i j db' = [row]
    \<and> list_all closed_contribution (cycle_contributions i j db')
    \<and> list_all (\<lambda>c. con_cancelled_at c = None \<longrightarrow> \<not> overdue_on (belem_date t) c) (cycle_contributions i j db0)
    \<and> \<not> overdue_loans i t db0 \<and> \<not> overdue_agreements i (belem_date t) db0
    \<and> filter (\<lambda>c. \<not> (con_member_id c = i \<and> con_cycle_id c = Some j)) (db_contributions db')
      = filter (\<lambda>c. \<not> (con_member_id c = i \<and> con_cycle_id c = Some j)) (db_contributions db0)
    \<and> db_charge_events db' = db_charge_events db0"
proof -
  obtain acc t' row0 db where e: "effective_at_utc now (Some (Aware t)) = Inr t'"
    "participation now i j None (db0\<lparr>db_accounts := acc\<rparr>) = Inr (row0, db)" "row = exited_row t' row0"
    "db_participations db' = put_by cpa_id row (db_participations db)"
    "db_contributions db' = map (\<lambda>c. if c \<in> set (cycle_contributions i j db0) then cancel_contribution t' ''VOLUNTARY_EXIT'' c else c)
      (db_contributions db0)"
    "db_charge_events db' = db_charge_events db0"
    "list_all (\<lambda>c. con_cancelled_at c = None \<longrightarrow> \<not> overdue_on (belem_date t') c) (cycle_contributions i j db0)"
    "\<not> overdue_loans i t' db0" "\<not> overdue_agreements i (belem_date t') db0"
    by (rule exit_run [OF run ids(1)]) (rule that, assumption+)
  have t: "t' = t" using e(1) by (simp add: effective_at_utc_def)
  have d: "distinct (map cpa_id (db_participations db))" using participation_ids [OF e(2)] ids(2) by simp
  have "participations_of i j db' = participations_of i j (put_participation row db)"
    by (simp add: participations_of_def e(4) put_participation_def)
  also have "\<dots> = [row]"
    using participation_Inr [OF e(2)] by (intro put_participation_row [OF _ _ _ _ d]) (simp_all add: e(3) exited_row_def)
  finally have "participations_of i j db' = [row]" .
  with closed_rows [OF e(5)] e(6-9) show ?thesis by (simp add: e(3) t exited_row_def)
qed

text \<open>A closed participation stays closed: once a member is blocked or has left, the daily runs change nothing, and the member can
  neither leave, join, buy a quota nor get a contribution in that cycle.\<close>

theorem closed_participation_final:
  fixes db :: "'a database_scheme"
  assumes "participations_of i j db = [row]" "cpa_status row \<noteq> ''ACTIVE''"
    and "lock_member_financial_account i db = Inr (m, a, db)"
  shows "evaluate_delinquency now i j None db = Inr (row, db) \<and> materialize_active_charges now i j None db = Inr (0, db)
    \<and> (\<exists>e. ensure_active_participation now i j entry db = Inl e) \<and> (\<exists>e. voluntary_exit now i j None actor db = Inl e)
    \<and> (\<exists>e. create_quota i j units db = Inl e) \<and> (\<exists>e. create_contribution now i j competence entry_date db = Inl e)"
proof -
  have p: "participation now i j e db = Inr (row, db)" for e using assms(1) by (simp add: participation_def one_or_none_def)
  have t: "effective_at_utc now None = Inr now" by (simp add: effective_at_utc_def)
  have join: "ensure_active_participation now i j e db = Inl (CycleParticipationError ''participation is closed for this cycle'')" for e
    using assms(2) by (simp add: ensure_active_participation_def assms(3) p)
  have "\<exists>e. create_quota i j units db = Inl e"
    using assms(1,2) by (auto simp: create_quota_def cycle_for_update_def one_or_none_def res_bind_def split: option.splits)
  moreover have "\<exists>e. create_contribution now i j competence entry_date db = Inl e"
  proof (cases "create_contribution now i j competence entry_date db")
    case (Inr x)
    then have "\<exists>y. ensure_active_participation now i j (Some entry_date) db = Inr y"
      by (auto simp: create_contribution_def res_bind_eq_Inr)
    then show ?thesis by (simp add: join)
  qed simp
  ultimately show ?thesis using assms(2)
    by (auto simp: evaluate_delinquency_def materialize_active_charges_def voluntary_exit_def join assms(3) p t Let_def)
qed

section \<open>Witnesses\<close>

text \<open>One unit of a quota, and a contribution of 150.00 for each of the first months of 2027.\<close>

definition monthly :: "int \<Rightarrow> date \<Rightarrow> cents \<Rightarrow> contribution_row" where
  "monthly i competence paid = \<lparr>con_id = i, con_member_id = 4, con_cycle_id = Some 1, con_competence = competence,
     con_amount = 15000, con_status = ''PENDING'', con_payment_id = None, con_due_date = Some (competence + 9),
     con_paid_amount = Some paid, con_paid_at = None, con_cancelled_at = None, con_cancellation_reason = None\<rparr>"

definition club_db :: "contribution_row list \<Rightarrow> participation_row list \<Rightarrow> database" where
  "club_db contributions participations = \<lparr>db_ledger = [], db_accounts = [\<lparr>acc_id = 1, acc_member_id = 4\<rparr>], db_entries = [],
     db_members = [\<lparr>mem_id = 4, mem_user_id = 9, mem_group_id = 1, mem_status = ''ACTIVE''\<rparr>],
     db_audit = [], db_notifications = [], db_loans = [], db_installments = [], db_late_events = [], db_settlements = [],
     db_reversals = [], db_payments = [],
     db_cycles = [\<lparr>cyc_id = 1, cyc_start_date = 739960, cyc_entry_deadline = 739991, cyc_closing_reference_date = 740325,
       cyc_monthly_amount = 15000, cyc_months = 12, cyc_max_quotas = 50, cyc_status = ''OPEN''\<rparr>],
     db_quotas = [\<lparr>quo_id = 1, quo_member_id = 4, quo_cycle_id = Some 1, quo_units = 1, quo_status = ''ACTIVE''\<rparr>],
     db_participations = participations, db_contributions = contributions, db_charge_events = [],
     db_agreements = [], db_agreement_installments = [], db_collection_cases = [], db_reversal_components = [], db_users = []\<rparr>"

definition joined :: participation_row where
  "joined = \<lparr>cpa_id = 1, cpa_cycle_id = 1, cpa_member_id = 4, cpa_status = ''ACTIVE'', cpa_joined_at = None,
     cpa_voluntary_exit_at = None, cpa_blocked_at = None, cpa_block_reason = None\<rparr>"

definition late_months :: "contribution_row list" where
  "late_months = [monthly 1 739982 0, monthly 2 740013 0, monthly 3 740041 0]"

lemma monthly_simps:
  "con_due_date (monthly i d p) = Some (d + 9)" "con_amount (monthly i d p) = 15000" "paid_of (monthly i d p) = p"
  "con_id (monthly i d p) = i" "con_member_id (monthly i d p) = 4" "con_cycle_id (monthly i d p) = Some 1"
  "con_competence (monthly i d p) = d"
  by (simp_all add: monthly_def paid_of_def)

lemma joined_simps: "cpa_status joined = ''ACTIVE''" "cpa_id joined = 1"
  by (simp_all add: joined_def)

lemma charges_of_unpaid:
  obtains ch where "calculate_contribution_charges 15000 due (Civil day) [] = Inr ch" "0 \<le> ch_fixed_penalty ch" "0 \<le> ch_daily_interest ch"
proof -
  obtain ch where c: "calculate_contribution_charges 15000 due (Civil day) [] = Inr ch"
    by (simp add: calculate_contribution_charges_def)
  with that contribution_charges_bounds [OF c] show thesis by (auto simp: FIXED_PENALTY_AMOUNT_def)
qed

lemma club_facts:
  "lock_member_financial_account 4 (club_db cs ps) = Inr (\<lparr>mem_id = 4, mem_user_id = 9, mem_group_id = 1, mem_status = ''ACTIVE''\<rparr>,
     \<lparr>acc_id = 1, acc_member_id = 4\<rparr>, club_db cs ps)"
  "participation now 4 1 e (club_db cs [joined]) = Inr (joined, club_db cs [joined])"
  "participations_of 4 1 (club_db cs ps) = filter (\<lambda>r. cpa_member_id r = 4 \<and> cpa_cycle_id r = 1) ps"
  "cycle_contributions 4 1 (club_db cs ps) = filter (\<lambda>c. con_member_id c = 4 \<and> con_cycle_id c = Some 1) cs"
  "payment_history day (monthly i d 0) (club_db cs ps) = Inr []"
  "db_contributions (club_db cs ps) = cs" "db_participations (club_db cs ps) = ps" "db_charge_events (club_db cs ps) = []"
  by (simp_all add: lock_member_financial_account_def club_db_def participation_def participations_of_def joined_def
      cycle_contributions_def payment_history_def paid_of_def monthly_def one_or_none_def)

lemma late_blocked:
  obtains row db' where "evaluate_delinquency 1805554800000000 4 1 None (club_db late_months [joined]) = Inr (row, db')"
    "cpa_status row = ''BLOCKED_DELINQUENCY''"
proof -
  have o: "consecutive_overdue [monthly 1 739982 0, monthly 2 740013 0, monthly 3 740041 0] 740060 = Inr True" by code_simp
  have b: "belem_date 1805554800000000 = 740060" by code_simp
  have t: "effective_at_utc 1805554800000000 None = Inr 1805554800000000" by (simp add: effective_at_utc_def)
  obtain c1 where c1: "calculate_contribution_charges 15000 739991 (Civil 740060) [] = Inr c1" "0 \<le> ch_fixed_penalty c1" "0 \<le> ch_daily_interest c1"
    by (rule charges_of_unpaid)
  obtain c2 where c2: "calculate_contribution_charges 15000 740022 (Civil 740060) [] = Inr c2" "0 \<le> ch_fixed_penalty c2" "0 \<le> ch_daily_interest c2"
    by (rule charges_of_unpaid)
  obtain c3 where c3: "calculate_contribution_charges 15000 740050 (Civil 740060) [] = Inr c3" "0 \<le> ch_fixed_penalty c3" "0 \<le> ch_daily_interest c3"
    by (rule charges_of_unpaid)
  have snap: "delinquency_snapshot day (club_db cs ps) (monthly i d 0) =
     res_bind (calculate_contribution_charges 15000 (d + 9) (Civil day) []) (\<lambda>ch. Inr [(monthly i d 0, ch, 15000)])" for day cs ps i d
    by (simp add: delinquency_snapshot_def club_facts monthly_simps Let_def)
  have "sort_key con_competence (sort_key con_id (cycle_contributions 4 1 (club_db late_months [joined])))
      = [monthly 1 739982 0, monthly 2 740013 0, monthly 3 740041 0]"
    by (simp add: club_facts late_months_def monthly_simps)
  then have "\<exists>row db'. evaluate_delinquency 1805554800000000 4 1 None (club_db late_months [joined]) = Inr (row, db')
    \<and> cpa_status row = ''BLOCKED_DELINQUENCY''"
    using c1 c2 c3 o
    by (simp add: evaluate_delinquency_def t b club_facts(1,2) joined_simps Let_def snap)
      (simp add: freeze_contribution_def insert_charge_event_def new_charge_event_def blocked_row_def put_participation_def
        put_contribution_def club_facts monthly_simps)
  then show thesis using that by blast
qed

lemma first_days: "739982 = ordinal \<lparr>yr = 2027, mon = 1, dom = 1\<rparr>" "740013 = ordinal \<lparr>yr = 2027, mon = 2, dom = 1\<rparr>"
  "740041 = ordinal \<lparr>yr = 2027, mon = 3, dom = 1\<rparr>"
  by (simp_all add: ordinal_def days_before_year_def is_leap_def)

lemma first_of_month:
  assumes "1 \<le> m" "m \<le> 12"
  shows "is_date (ordinal \<lparr>yr = 2027, mon = m, dom = 1\<rparr>) \<and> month_index (ordinal \<lparr>yr = 2027, mon = m, dom = 1\<rparr>) = 24324 + m
    \<and> dom (of_ordinal (ordinal \<lparr>yr = 2027, mon = m, dom = 1\<rparr>)) = 1"
proof -
  have "valid_ymd \<lparr>yr = 2027, mon = m, dom = 1\<rparr>" using assms days_in_month_bounds [of 2027 m] by (simp add: valid_ymd_def)
  then show ?thesis by (simp add: is_date_def month_index_def of_ordinal_ordinal)
qed

theorem consecutive_overdue_iff_witness:
  "consecutive_overdue late_months 740060
    = Inr (\<exists>m. late_in 740060 late_months m \<and> late_in 740060 late_months (m + 1) \<and> late_in 740060 late_months (m + 2))"
  by (rule consecutive_overdue_iff) (simp_all add: late_months_def monthly_simps first_days first_of_month)

theorem delinquency_block_witness:
  "\<exists>row db'. evaluate_delinquency 1805554800000000 4 1 None (club_db late_months [joined]) = Inr (row, db')
    \<and> cpa_status row = ''BLOCKED_DELINQUENCY'' \<and> list_all closed_contribution (cycle_contributions 4 1 db')"
proof -
  obtain row db' where r: "evaluate_delinquency 1805554800000000 4 1 None (club_db late_months [joined]) = Inr (row, db')"
    "cpa_status row = ''BLOCKED_DELINQUENCY''" by (rule late_blocked)
  with delinquency_block [OF r(1)] show ?thesis by (simp add: club_facts joined_def late_months_def monthly_def)
qed

theorem exit_leaves_nothing_open_witness:
  "\<exists>row db'. voluntary_exit 0 4 1 (Some (Aware 1799161200000000)) None (club_db late_months [joined]) = Inr (row, db')
    \<and> list_all closed_contribution (cycle_contributions 4 1 db')"
proof -
  have b: "belem_date 1799161200000000 = 739986" by code_simp
  have t: "effective_at_utc 0 (Some (Aware 1799161200000000)) = Inr 1799161200000000" by (simp add: effective_at_utc_def)
  have "\<exists>row db'. voluntary_exit 0 4 1 (Some (Aware 1799161200000000)) None (club_db late_months [joined]) = Inr (row, db')"
    by (simp add: voluntary_exit_def t club_facts Let_def)
      (simp add: b late_months_def monthly_def joined_def overdue_on_def unpaid_charges_def overdue_loans_def overdue_agreements_def
        club_db_def)
  then obtain row db' where r: "voluntary_exit 0 4 1 (Some (Aware 1799161200000000)) None (club_db late_months [joined]) = Inr (row, db')"
    by blast
  with exit_leaves_nothing_open [OF r] show ?thesis by (simp add: club_facts joined_def late_months_def monthly_def)
qed

theorem closed_participation_final_witness:
  "create_contribution 0 4 1 739982 739990 (club_db [] [joined\<lparr>cpa_status := ''VOLUNTARILY_EXITED''\<rparr>]) \<notin> range Inr"
proof -
  have "\<exists>e. create_contribution 0 4 1 739982 739990 (club_db [] [joined\<lparr>cpa_status := ''VOLUNTARILY_EXITED''\<rparr>]) = Inl e"
    using closed_participation_final [of 4 1 "club_db [] [joined\<lparr>cpa_status := ''VOLUNTARILY_EXITED''\<rparr>]"
        "joined\<lparr>cpa_status := ''VOLUNTARILY_EXITED''\<rparr>"]
    by (simp add: club_facts joined_def)
  then show ?thesis by auto
qed

end
