(* ===== verification/Foundation_Properties.thy ===== *)
theory Foundation_Properties
  imports Participation_Properties
begin

text \<open>
  Cycles, quotas, contributions and participations together. A step is one operation of
  \<open>services/cycle_foundation.py\<close> or \<open>services/cycle_participation.py\<close> by any caller, in any order; the tables stay well
  formed, quotas stay within the capacity, and what was closed stays as it was. What an entry obliges to is stated last.
\<close>

section \<open>Well-formed tables\<close>

text \<open>A participation is active, blocked with its time and reason, or left with its time.\<close>

definition row_ok :: "participation_row \<Rightarrow> bool" where
  "row_ok r \<longleftrightarrow> (if cpa_status r = ''ACTIVE'' then cpa_blocked_at r = None \<and> cpa_voluntary_exit_at r = None
     else if cpa_status r = ''BLOCKED_DELINQUENCY'' then cpa_blocked_at r \<noteq> None \<and> cpa_block_reason r = Some BLOCK_REASON
     else cpa_status r = ''VOLUNTARILY_EXITED'' \<and> cpa_voluntary_exit_at r \<noteq> None \<and> cpa_blocked_at r = None)"

abbreviation row_key :: "participation_row \<Rightarrow> int \<times> int" where "row_key r \<equiv> (cpa_member_id r, cpa_cycle_id r)"

definition rows_ok :: "participation_row list \<Rightarrow> bool" where
  "rows_ok rs \<longleftrightarrow> distinct (map cpa_id rs) \<and> distinct (map row_key rs) \<and> list_all row_ok rs"

text \<open>The two unique indexes of contributions are one on member, cycle (or none) and competence.\<close>

definition contributions_ok :: "contribution_row list \<Rightarrow> bool" where
  "contributions_ok cs \<longleftrightarrow> distinct (map con_id cs) \<and> distinct (map (\<lambda>c. (con_member_id c, con_cycle_id c, con_competence c)) cs)"

definition events_ok :: "charge_event_row list \<Rightarrow> bool" where
  "events_ok es \<longleftrightarrow> distinct (map (\<lambda>e. (cev_contribution_id e, cev_event_type e, cev_accrued_through e)) es)
     \<and> list_all (\<lambda>e. 0 \<le> cev_fixed_penalty e \<and> 0 \<le> cev_daily_interest e \<and> 0 \<le> cev_cancelled_principal e) es"

definition quotas_ok :: "database \<Rightarrow> bool" where
  "quotas_ok db \<longleftrightarrow> distinct (map cyc_id (db_cycles db))
     \<and> list_all (\<lambda>q. quo_units q \<in> \<int> \<and> (\<forall>j. quo_cycle_id q = Some j \<longrightarrow> j \<in> cyc_id ` set (db_cycles db))) (db_quotas db)
     \<and> list_all (\<lambda>c. cycle_units (cyc_id c) db \<le> of_int (cyc_max_quotas c)) (db_cycles db)"

text \<open>Nothing is open in a closed participation, and only blocked ones have frozen charges, of their own contributions.\<close>

definition closed_ok :: "database \<Rightarrow> bool" where
  "closed_ok db \<longleftrightarrow> (\<forall>r\<in>set (db_participations db). cpa_status r \<noteq> ''ACTIVE'' \<longrightarrow>
       list_all closed_contribution (cycle_contributions (cpa_member_id r) (cpa_cycle_id r) db))
     \<and> (\<forall>e\<in>set (db_charge_events db). cev_event_type e = ''BLOCK_FREEZE'' \<longrightarrow>
       (\<exists>r\<in>set (db_participations db). cpa_id r = cev_participation_id e \<and> cpa_status r = ''BLOCKED_DELINQUENCY''
         \<and> cev_contribution_id e \<in> con_id ` set (cycle_contributions (cpa_member_id r) (cpa_cycle_id r) db)))"

definition club_ok :: "database \<Rightarrow> bool" where
  "club_ok db \<longleftrightarrow> rows_ok (db_participations db) \<and> contributions_ok (db_contributions db) \<and> events_ok (db_charge_events db)
     \<and> quotas_ok db \<and> closed_ok db"

lemma closed_ok_same:
  assumes "closed_ok db" "db_participations db' = db_participations db" "db_charge_events db' = db_charge_events db"
    and "\<And>r. r \<in> set (db_participations db) \<Longrightarrow> cpa_status r \<noteq> ''ACTIVE'' \<Longrightarrow>
      cycle_contributions (cpa_member_id r) (cpa_cycle_id r) db' = cycle_contributions (cpa_member_id r) (cpa_cycle_id r) db"
  shows "closed_ok db'"
proof -
  have "cycle_contributions (cpa_member_id r) (cpa_cycle_id r) db' = cycle_contributions (cpa_member_id r) (cpa_cycle_id r) db"
    if "r \<in> set (db_participations db)" "cpa_status r = ''BLOCKED_DELINQUENCY''" for r using assms(4) that by simp
  with assms show ?thesis unfolding closed_ok_def by (simp cong: bex_cong conj_cong)
qed

lemma contributions_ok_ids: "contributions_ok cs \<Longrightarrow> distinct (map con_id cs)"
  by (simp add: contributions_ok_def)

lemma club_ok_cong:
  assumes "club_ok db" "db_participations db' = db_participations db" "db_contributions db' = db_contributions db"
    "db_charge_events db' = db_charge_events db" "db_quotas db' = db_quotas db" "db_cycles db' = db_cycles db"
  shows "club_ok db'"
  using assms by (simp add: club_ok_def quotas_ok_def closed_ok_def cycle_units_def cycle_contributions_def)

lemma club_ok_accounts: "club_ok db \<Longrightarrow> club_ok (db\<lparr>db_accounts := acc\<rparr>)"
  by (rule club_ok_cong) simp_all

lemma rows_ok_add:
  assumes "rows_ok rs" "row_ok r" "cpa_id r = next_id cpa_id rs" "row_key r \<notin> row_key ` set rs"
  shows "rows_ok (rs @ [r])"
  using assms next_id_notin [of cpa_id rs] by (simp add: rows_ok_def)

lemma rows_ok_put:
  assumes "rows_ok rs" "row_ok r" "r0 \<in> set rs" "cpa_id r = cpa_id r0" "row_key r = row_key r0"
  shows "rows_ok (put_by cpa_id r rs)"
proof -
  have "map row_key (put_by cpa_id r rs) = map row_key rs"
    using assms distinct_map_unique [of cpa_id rs] by (auto simp: put_by_def rows_ok_def)
  then have "distinct (map row_key (put_by cpa_id r rs))" using assms(1) by (simp only: rows_ok_def)
  then show ?thesis using assms(1,2) by (auto simp: rows_ok_def list_all_iff dest: set_mp [OF set_put_by_subset])
qed

lemma events_ok_insert:
  assumes "insert_charge_event e db = Inr db'" "events_ok (db_charge_events db)"
  shows "events_ok (db_charge_events db') \<and> db' = db\<lparr>db_charge_events := db_charge_events db @ [e]\<rparr>"
proof -
  from assms(1) have new: "\<forall>x\<in>set (db_charge_events db). \<not> (cev_contribution_id x = cev_contribution_id e
      \<and> cev_event_type x = cev_event_type e \<and> cev_accrued_through x = cev_accrued_through e)"
    "0 \<le> cev_fixed_penalty e \<and> 0 \<le> cev_daily_interest e \<and> 0 \<le> cev_cancelled_principal e"
    "db' = db\<lparr>db_charge_events := db_charge_events db @ [e]\<rparr>"
    by (auto simp: insert_charge_event_def list_ex_iff split: if_splits)
  have "(cev_contribution_id e, cev_event_type e, cev_accrued_through e)
      \<notin> (\<lambda>x. (cev_contribution_id x, cev_event_type x, cev_accrued_through x)) ` set (db_charge_events db)"
  proof
    assume "(cev_contribution_id e, cev_event_type e, cev_accrued_through e)
      \<in> (\<lambda>x. (cev_contribution_id x, cev_event_type x, cev_accrued_through x)) ` set (db_charge_events db)"
    then obtain x where "x \<in> set (db_charge_events db)" "cev_contribution_id x = cev_contribution_id e"
      "cev_event_type x = cev_event_type e" "cev_accrued_through x = cev_accrued_through e" by force
    with new(1) show False by blast
  qed
  with assms(2) new(2,3) show ?thesis by (simp add: events_ok_def)
qed

lemma filter_unique_key: "distinct (map k rs) \<Longrightarrow> filter (\<lambda>r. k r = x) rs = [r] \<longleftrightarrow> r \<in> set rs \<and> k r = x"
  by (induction rs) (auto simp: filter_empty_conv image_iff)

lemma participations_of_iff:
  assumes "rows_ok (db_participations db)"
  shows "participations_of i j db = [r] \<longleftrightarrow> r \<in> set (db_participations db) \<and> row_key r = (i, j)"
  using assms filter_unique_key [of row_key "db_participations db" "(i, j)" r] by (simp add: participations_of_def rows_ok_def)

section \<open>One participation\<close>

lemma ok_participation:
  assumes "club_ok db" "participation now i j e db = Inr (row, db')"
  shows "club_ok db'"
  using assms(2)
proof (cases rule: participation_cases)
  case added
  have "row_key row \<notin> row_key ` set (db_participations db)"
    using added(1) by (auto simp: added(2) new_participation_def participations_of_def filter_empty_conv)
  then have "rows_ok (db_participations db')" using assms(1)
    by (simp add: added(3) club_ok_def rows_ok_add) (simp add: added(2) new_participation_def rows_ok_add row_ok_def)
  moreover have "closed_ok db'"
    using assms(1) by (auto simp: added club_ok_def closed_ok_def cycle_contributions_def new_participation_def)
  ultimately show ?thesis using assms(1) by (simp add: added(3) club_ok_def quotas_ok_def cycle_units_def)
qed (simp add: assms(1))

lemma ensure_active_run:
  fixes db0 :: "'a database_scheme"
  assumes "ensure_active_participation now i j e db0 = Inr (row, db)"
  obtains acc where "participation now i j e (db0\<lparr>db_accounts := acc\<rparr>) = Inr (row, db)" "cpa_status row = ''ACTIVE''"
proof -
  from assms obtain m a db1 where r: "lock_member_financial_account i db0 = Inr (m, a, db1)" "participation now i j e db1 = Inr (row, db)"
    "cpa_status row = ''ACTIVE''"
    by (auto simp: ensure_active_participation_def res_bind_eq_Inr split: if_splits)
  from lock_accounts_only [OF r(1)] obtain acc where "db1 = db0\<lparr>db_accounts := acc\<rparr>" .
  with r that show thesis by simp
qed

section \<open>Quotas and contributions\<close>

lemma cycle_units_other:
  "cycle_units k (db\<lparr>db_quotas := db_quotas db @ [q]\<rparr>) = cycle_units k db + (if quo_cycle_id q = Some k then quo_units q else 0)"
  by (simp add: cycle_units_def)

lemma cycle_units_Ints:
  assumes "quotas_ok db"
  shows "cycle_units k db \<in> \<int>"
proof -
  have whole: "sum_list xs \<in> \<int>" if "set xs \<subseteq> \<int>" for xs :: "decimal list" using that by (induction xs) auto
  show ?thesis unfolding cycle_units_def by (rule whole) (use assms in \<open>auto simp: quotas_ok_def list_all_iff\<close>)
qed

lemma whole_units_of_int: "x \<in> \<int> \<Longrightarrow> of_int (whole_units x) = x"
  by (auto simp: whole_units_def elim!: Ints_cases)

text \<open>A quota that was accepted fits in the cycle.\<close>

lemma create_quota_effect:
  assumes "create_quota i j units db = Inr (q, db')" "quotas_ok db"
  shows "db' = db\<lparr>db_quotas := db_quotas db @ [q]\<rparr> \<and> quo_cycle_id q = Some j \<and> quo_member_id q = i \<and> quo_units q = of_int units
    \<and> (\<exists>c\<in>set (db_cycles db). cyc_id c = j \<and> cycle_units j db + of_int units \<le> of_int (cyc_max_quotas c))
    \<and> list_all (\<lambda>r. cpa_status r = ''ACTIVE'') (participations_of i j db)"
proof -
  from assms(1) obtain c existing where c: "get_by cyc_id j (db_cycles db) = Some c"
    and p: "one_or_none (participations_of i j db) = Inr existing" "\<not> (case existing of None \<Rightarrow> False | Some r \<Rightarrow> cpa_status r \<noteq> ''ACTIVE'')"
    and fits: "\<not> cyc_max_quotas c < whole_units (cycle_units (cyc_id c) db) + units"
    and q: "q = \<lparr>quo_id = next_id quo_id (db_quotas db), quo_member_id = i, quo_cycle_id = Some (cyc_id c),
           quo_units = of_int units, quo_status = ''ACTIVE''\<rparr>" "db' = db\<lparr>db_quotas := db_quotas db @ [q]\<rparr>"
    by (auto simp: create_quota_def cycle_for_update_def res_bind_eq_Inr Let_def split: if_splits option.splits)
  note c' = get_by_Some_mem [OF c]
  have "cycle_units j db = of_int (whole_units (cycle_units j db))" by (rule whole_units_of_int [OF cycle_units_Ints [OF assms(2)], symmetric])
  moreover have "of_int (whole_units (cycle_units j db)) + of_int units \<le> (of_int (cyc_max_quotas c) :: decimal)"
    using fits c' by (simp flip: of_int_add)
  ultimately have "cycle_units j db + of_int units \<le> of_int (cyc_max_quotas c)" by simp
  moreover have "list_all (\<lambda>r. cpa_status r = ''ACTIVE'') (participations_of i j db)"
    using p by (auto simp: one_or_none_def split: list.splits option.splits)
  ultimately show ?thesis using c' q by auto
qed

lemma ok_quota:
  assumes "club_ok db" "create_quota i j units db = Inr (q, db')"
  shows "club_ok db'"
proof -
  have ok: "quotas_ok db" using assms(1) by (simp add: club_ok_def)
  from create_quota_effect [OF assms(2) ok] obtain c where q: "db' = db\<lparr>db_quotas := db_quotas db @ [q]\<rparr>" "quo_cycle_id q = Some j"
    "quo_units q = of_int units" and c: "c \<in> set (db_cycles db)" "cyc_id c = j" "cycle_units j db + of_int units \<le> of_int (cyc_max_quotas c)" by blast
  have one: "k \<in> set (db_cycles db) \<Longrightarrow> cyc_id k = j \<Longrightarrow> k = c" for k
    using ok c distinct_map_unique [of cyc_id "db_cycles db" k c] by (auto simp: quotas_ok_def)
  have old: "cycle_units (cyc_id k) db \<le> of_int (cyc_max_quotas k)" if "k \<in> set (db_cycles db)" for k
    using ok that by (simp add: quotas_ok_def list_all_iff)
  have fits: "cycle_units (cyc_id k) db' \<le> of_int (cyc_max_quotas k)" if "k \<in> set (db_cycles db)" for k
    using old [OF that] one [OF that] c(2,3) by (cases "cyc_id k = j") (simp_all add: q cycle_units_other)
  have "db_cycles db' = db_cycles db" "db_quotas db' = db_quotas db @ [q]" by (simp_all add: q(1))
  then have "quotas_ok db'" using ok fits q(2,3) c(1,2) by (auto simp: quotas_ok_def list_all_iff)
  then show ?thesis using assms(1) by (simp add: q(1) club_ok_def closed_ok_def cycle_contributions_def)
qed

lemma ok_first_cycle:
  assumes "club_ok db" "ensure_first_cycle [] db = Inr (c, db')"
  shows "club_ok db'"
proof (cases "db' = db")
  case False
  with assms(2) have c: "db' = db\<lparr>db_cycles := db_cycles db @ [c]\<rparr>" "cyc_id c = next_id cyc_id (db_cycles db)" "cyc_max_quotas c = 50"
    by (auto simp: ensure_first_cycle_def starting_first_def res_bind_eq_Inr Let_def FIRST_CYCLE_MAX_QUOTAS_def split: option.splits)
  note fresh = next_id_notin [of cyc_id "db_cycles db"]
  have q: "quotas_ok db" using assms(1) by (simp add: club_ok_def)
  with fresh c(2) have "filter (\<lambda>q. quo_cycle_id q = Some (cyc_id c)) (db_quotas db) = []"
    by (fastforce simp: quotas_ok_def list_all_iff filter_empty_conv)
  then have none: "cycle_units (cyc_id c) db = 0" by (simp only: cycle_units_def list.map sum_list.Nil)
  have units: "cycle_units k db' = cycle_units k db" for k by (simp add: c(1) cycle_units_def)
  have "quotas_ok db'" unfolding quotas_ok_def units
    using q c fresh none by (auto simp: quotas_ok_def list_all_iff)
  then show ?thesis using assms(1) by (simp add: c(1) club_ok_def closed_ok_def cycle_contributions_def)
qed (simp add: assms(1))

section \<open>Contributions\<close>

text \<open>A contribution that was found has the authoritative amount; a new one has a competence of its own and is due on the tenth.\<close>

lemma create_contribution_run:
  fixes db0 :: "'a database_scheme"
  assumes "create_contribution now i j competence entry db0 = Inr (c, db')"
  obtains row db where "ensure_active_participation now i j (Some entry) db0 = Inr (row, db)" "authoritative_amount i j db = Inr (con_amount c)"
    "contributions_for i j competence db = [c] \<and> db' = db
     \<or> contributions_for i j competence db = [] \<and> con_id c = next_id con_id (db_contributions db) \<and> con_member_id c = i
       \<and> con_cycle_id c = Some j \<and> con_competence c = competence \<and> con_status c = ''PENDING'' \<and> con_paid_amount c = Some 0
       \<and> con_cancelled_at c = None \<and> (\<exists>due. due_date_of competence = Inr due \<and> con_due_date c = Some due)
       \<and> db' = db\<lparr>db_contributions := db_contributions db @ [c]\<rparr>"
proof -
  from assms obtain x where e: "ensure_active_participation now i j (Some entry) db0 = Inr x"
    by (auto simp: create_contribution_def res_bind_eq_Inr)
  obtain row db where x: "x = (row, db)" by (cases x)
  from assms obtain found amount where f: "one_or_none (contributions_for i j competence db) = Inr found"
    "authoritative_amount i j db = Inr amount"
    and last: "(case found of Some c' \<Rightarrow> if con_amount c' \<noteq> amount then Inl (CycleFoundationError ''existing contribution amount is not authoritative'')
         else Inr (c', db)
     | None \<Rightarrow> res_bind (due_date_of competence) (\<lambda>due.
         let c = \<lparr>con_id = next_id con_id (db_contributions db), con_member_id = i, con_cycle_id = Some j,
               con_competence = competence, con_amount = amount, con_status = ''PENDING'', con_payment_id = None,
               con_due_date = Some due, con_paid_amount = Some 0, con_paid_at = None, con_cancelled_at = None,
               con_cancellation_reason = None\<rparr>
         in Inr (c, db\<lparr>db_contributions := db_contributions db @ [c]\<rparr>))) = Inr (c, db')"
    by (auto simp: create_contribution_def e x elim!: res_elims)
  show thesis
  proof (cases found)
    case None
    then have "contributions_for i j competence db = []" using f(1) by (auto simp: one_or_none_def split: list.splits)
    with last None f(2) show ?thesis by (intro that [OF e [unfolded x]]) (auto simp: res_bind_eq_Inr Let_def)
  next
    case (Some c')
    then have "contributions_for i j competence db = [c']" using f(1) by (auto simp: one_or_none_def split: list.splits)
    with last Some f(2) show ?thesis by (intro that [OF e [unfolded x]]) (auto split: if_splits)
  qed
qed

lemma ok_ensure:
  assumes "club_ok db" "ensure_active_participation now i j e db = Inr (row, db')"
  shows "club_ok db' \<and> participations_of i j db' = [row] \<and> cpa_status row = ''ACTIVE''"
  using assms(2)
proof (rule ensure_active_run)
  fix acc assume "participation now i j e (db\<lparr>db_accounts := acc\<rparr>) = Inr (row, db')" "cpa_status row = ''ACTIVE''"
  then show ?thesis using ok_participation [OF club_ok_accounts [OF assms(1)]] participation_Inr by blast
qed

lemma ok_contribution:
  assumes "club_ok db0" "create_contribution now i j competence entry db0 = Inr (c, db')"
  shows "club_ok db'"
  using assms(2)
proof (rule create_contribution_run)
  fix row db
  assume "ensure_active_participation now i j (Some entry) db0 = Inr (row, db)"
  note ok = ok_ensure [OF assms(1) this]
  assume "contributions_for i j competence db = [c] \<and> db' = db
     \<or> contributions_for i j competence db = [] \<and> con_id c = next_id con_id (db_contributions db) \<and> con_member_id c = i
       \<and> con_cycle_id c = Some j \<and> con_competence c = competence \<and> con_status c = ''PENDING'' \<and> con_paid_amount c = Some 0
       \<and> con_cancelled_at c = None \<and> (\<exists>due. due_date_of competence = Inr due \<and> con_due_date c = Some due)
       \<and> db' = db\<lparr>db_contributions := db_contributions db @ [c]\<rparr>"
  then show ?thesis
  proof (elim disjE conjE)
    assume new: "contributions_for i j competence db = []" "con_id c = next_id con_id (db_contributions db)" "con_member_id c = i"
      "con_cycle_id c = Some j" "con_competence c = competence" "db' = db\<lparr>db_contributions := db_contributions db @ [c]\<rparr>"
    have "contributions_ok (db_contributions db')"
      using ok new next_id_notin [of con_id "db_contributions db"]
      by (auto simp: club_ok_def contributions_ok_def contributions_for_def cycle_contributions_def filter_empty_conv)
    moreover have "closed_ok db'"
    proof -
      have "row_key r \<noteq> (i, j)" if "r \<in> set (db_participations db)" "cpa_status r \<noteq> ''ACTIVE''" for r
        using that ok participations_of_iff [of db i j r] by (auto simp: club_ok_def)
      then have "cycle_contributions (cpa_member_id r) (cpa_cycle_id r) db' = cycle_contributions (cpa_member_id r) (cpa_cycle_id r) db"
        if "r \<in> set (db_participations db)" "cpa_status r \<noteq> ''ACTIVE''" for r using that by (auto simp: new cycle_contributions_def)
      moreover have "closed_ok db" using ok by (simp add: club_ok_def)
      ultimately show ?thesis by (intro closed_ok_same [of db db']) (simp_all add: new(6))
    qed
    ultimately show ?thesis using ok by (simp add: new(6) club_ok_def quotas_ok_def cycle_units_def)
  qed (simp add: ok)
qed

lemma ok_add_month:
  assumes "club_ok (snd state)" "add_month now i j cycle entry offset state = Inr state'"
  shows "club_ok (snd state')"
  using assms ok_contribution by (cases state) (auto simp: add_month_def res_bind_eq_Inr)

lemma ok_entry:
  assumes "club_ok db0" "ensure_contributions_for_entry now i j entry db0 = Inr (cs, db')"
  shows "club_ok db'"
proof -
  from assms(2) obtain cycle row db where r: "ensure_active_participation now i j (Some entry) db0 = Inr (row, db)"
    "fold_res (add_month now i j cycle entry) [0..months_through cycle entry - 1] ([], db) = Inr (cs, db')"
    by (auto simp: ensure_contributions_for_entry_def res_bind_eq_Inr)
  have "club_ok (snd (cs, db'))"
    by (rule fold_res_invariant [OF r(2)]) (use ok_ensure [OF assms(1) r(1)] ok_add_month in auto)
  then show ?thesis by simp
qed

section \<open>Closing a participation\<close>

text \<open>The other participations keep their rows and their contributions when one is closed.\<close>

lemma close_others:
  fixes db db' :: database
  assumes rows: "rows_ok (db_participations db)" and r0: "r0 \<in> set (db_participations db)" "cpa_id row = cpa_id r0"
    and ps: "db_participations db' = put_by cpa_id row (db_participations db)"
    and cs: "db_contributions db' = map (\<lambda>c. if c \<in> set (cycle_contributions (cpa_member_id r0) (cpa_cycle_id r0) db)
      then cancel_contribution t reason c else c) (db_contributions db)"
    and r: "r \<in> set (db_participations db)" "r \<noteq> r0"
  shows "r \<in> set (db_participations db')
    \<and> cycle_contributions (cpa_member_id r) (cpa_cycle_id r) db' = cycle_contributions (cpa_member_id r) (cpa_cycle_id r) db"
proof
  have "cpa_id r \<noteq> cpa_id row" using distinct_map_unique [of cpa_id "db_participations db" r r0] rows r r0 by (auto simp: rows_ok_def)
  with r(1) show "r \<in> set (db_participations db')" by (force simp: ps put_by_def)
  have key: "row_key r \<noteq> row_key r0" using distinct_map_unique [of row_key "db_participations db" r r0] rows r r0(1) by (auto simp: rows_ok_def)
  let ?other = "\<lambda>c. \<not> (con_member_id c = cpa_member_id r0 \<and> con_cycle_id c = Some (cpa_cycle_id r0))"
  have split: "cycle_contributions (cpa_member_id r) (cpa_cycle_id r) x
      = filter (\<lambda>c. con_member_id c = cpa_member_id r \<and> con_cycle_id c = Some (cpa_cycle_id r)) (filter ?other (db_contributions x))" for x :: database
    unfolding cycle_contributions_def filter_filter by (rule filter_cong) (use key in auto)
  show "cycle_contributions (cpa_member_id r) (cpa_cycle_id r) db' = cycle_contributions (cpa_member_id r) (cpa_cycle_id r) db"
    unfolding split [of db'] split [of db] conjunct2 [OF closed_rows [OF cs]] ..
qed

lemma ok_close:
  assumes ok: "club_ok db" and r0: "r0 \<in> set (db_participations db)" "cpa_status r0 = ''ACTIVE''"
    and row: "cpa_id row = cpa_id r0" "row_key row = row_key r0" "row_ok row" "cpa_status row \<noteq> ''ACTIVE''"
    and ps: "db_participations db' = put_by cpa_id row (db_participations db)"
    and cs: "db_contributions db' = map (\<lambda>c. if c \<in> set (cycle_contributions (cpa_member_id r0) (cpa_cycle_id r0) db)
      then cancel_contribution t reason c else c) (db_contributions db)"
    and es: "db_charge_events db' = db_charge_events db @ es" "events_ok (db_charge_events db')"
      "list_all (\<lambda>e. cev_event_type e = ''BLOCK_FREEZE'' \<longrightarrow> cev_participation_id e = cpa_id row \<and> cpa_status row = ''BLOCKED_DELINQUENCY''
        \<and> cev_contribution_id e \<in> con_id ` set (cycle_contributions (cpa_member_id r0) (cpa_cycle_id r0) db)) es"
    and qs: "db_quotas db' = db_quotas db" "db_cycles db' = db_cycles db"
  shows "club_ok db'"
proof -
  have rows: "rows_ok (db_participations db)" using ok by (simp add: club_ok_def)
  note others = close_others [OF rows r0(1) row(1) ps cs]
  have mem: "row \<in> set (db_participations db')" using r0(1) row(1) by (auto simp: ps put_by_def)
  have other: "r \<in> set (db_participations db) \<and> r \<noteq> r0" if "r \<in> set (db_participations db')" "r \<noteq> row" for r
    using that row(1) by (auto simp: ps put_by_def split: if_splits)
  have keys: "map (\<lambda>c. (con_id c, con_member_id c, con_cycle_id c, con_competence c)) (db_contributions db')
      = map (\<lambda>c. (con_id c, con_member_id c, con_cycle_id c, con_competence c)) (db_contributions db)"
    by (simp add: cs cancel_contribution_def)
  define f where "f c = (if c \<in> set (cycle_contributions (cpa_member_id r0) (cpa_cycle_id r0) db) then cancel_contribution t reason c else c)" for c
  have f: "con_id (f c) = con_id c" "con_member_id (f c) = con_member_id c" "con_cycle_id (f c) = con_cycle_id c" for c by (simp_all add: f_def)
  have "db_contributions db' = map f (db_contributions db)" unfolding cs f_def ..
  then have "cycle_contributions k l db' = map f (cycle_contributions k l db)" for k l
    by (simp add: cycle_contributions_def filter_map o_def f)
  then have ids: "con_id ` set (cycle_contributions k l db') = con_id ` set (cycle_contributions k l db)" for k l
    by (simp add: image_image f)
  have "contributions_ok (db_contributions db')"
    using ok arg_cong [OF keys, of "map fst"] arg_cong [OF keys, of "map snd"] by (simp add: club_ok_def contributions_ok_def o_def)
  moreover have "rows_ok (db_participations db')" using rows_ok_put [OF rows row(3) r0(1) row(1,2)] by (simp add: ps)
  moreover have "closed_ok db'"
  proof -
    note closed = closed_rows [OF cs]
    have "list_all closed_contribution (cycle_contributions (cpa_member_id r) (cpa_cycle_id r) db')"
      if "r \<in> set (db_participations db')" "cpa_status r \<noteq> ''ACTIVE''" for r
    proof (cases "r = row")
      case False
      note r = other [OF that(1) False]
      with others [of r] that(2) ok show ?thesis by (simp add: club_ok_def closed_ok_def)
    qed (use closed row(2) in simp)
    moreover have "\<exists>r\<in>set (db_participations db'). cpa_id r = cev_participation_id e \<and> cpa_status r = ''BLOCKED_DELINQUENCY''
        \<and> cev_contribution_id e \<in> con_id ` set (cycle_contributions (cpa_member_id r) (cpa_cycle_id r) db')"
      if "e \<in> set (db_charge_events db')" "cev_event_type e = ''BLOCK_FREEZE''" for e
    proof (cases "e \<in> set es")
      case True
      with es(3) that(2) mem row(2) show ?thesis by (auto simp: list_all_iff ids)
    next
      case False
      with that ok obtain r where r: "r \<in> set (db_participations db)" "cpa_id r = cev_participation_id e" "cpa_status r = ''BLOCKED_DELINQUENCY''"
        "cev_contribution_id e \<in> con_id ` set (cycle_contributions (cpa_member_id r) (cpa_cycle_id r) db)"
        by (auto simp: es(1) club_ok_def closed_ok_def)
      have "r \<noteq> r0" using r(3) r0(2) by auto
      with others [OF r(1)] have "r \<in> set (db_participations db')" by simp
      with r show ?thesis unfolding ids by blast
    qed
    ultimately show ?thesis unfolding closed_ok_def by blast
  qed
  ultimately show ?thesis using ok es(2) qs by (simp add: club_ok_def quotas_ok_def cycle_units_def)
qed

lemma events_ok_freeze:
  assumes "fold_res (freeze_contribution now t civil row) xs db = Inr db'" "events_ok (db_charge_events db)"
  shows "events_ok (db_charge_events db')"
  using assms
proof (rule fold_res_invariant)
  fix x u v
  assume "events_ok (db_charge_events u)" "freeze_contribution now t civil row x u = Inr v"
  then show "events_ok (db_charge_events v)"
    by (cases x) (auto simp: freeze_contribution_def res_bind_eq_Inr put_contribution_def dest: events_ok_insert)
qed

lemma evaluate_events_ok:
  fixes db0 :: database
  assumes "evaluate_delinquency now i j eff db0 = Inr (row, db')" "events_ok (db_charge_events db0)"
  shows "events_ok (db_charge_events db')"
  using assms(1)
proof (rule evaluate_run)
  fix t m a db1 row0 db
  assume pre: "lock_member_financial_account i db0 = Inr (m, a, db1)" "participation now i j None db1 = Inr (row0, db)"
    and post: "row = row0 \<and> db' = db
     \<or> (\<exists>cs xss db2. cpa_status row0 = ''ACTIVE'' \<and> cs = sort_key con_competence (sort_key con_id (cycle_contributions i j db))
         \<and> consecutive_overdue cs (belem_date t) = Inr True \<and> row = blocked_row t row0
         \<and> map_res (delinquency_snapshot (belem_date t) db) cs = Inr xss
         \<and> fold_res (freeze_contribution now t (belem_date t) row) (concat xss) (put_participation row db) = Inr db2
         \<and> db' = add_audit None ''CYCLE_PARTICIPATION_BLOCKED'' ''CYCLE_PARTICIPATION'' (py_str (cpa_id row)) db2)"
  from lock_accounts_only [OF pre(1)] obtain acc where "db1 = db0\<lparr>db_accounts := acc\<rparr>" .
  then have "db_charge_events db = db_charge_events db0" using participation_Inr [OF pre(2)] by simp
  with post events_ok_freeze [where db = "put_participation row db"] assms(2) show ?thesis by auto
qed

lemma active_participation:
  assumes "participation now i j e db = Inr (row, db')"
  shows "row \<in> set (db_participations db') \<and> cpa_member_id row = i \<and> cpa_cycle_id row = j"
  using participation_Inr [OF assms] by simp

lemma ok_evaluate:
  assumes "club_ok db0" "evaluate_delinquency now i j eff db0 = Inr (row, db')"
  shows "club_ok db'"
  using assms(2) contributions_ok_ids
proof (rule evaluate_cases)
  show "contributions_ok (db_contributions db0)" using assms(1) by (simp add: club_ok_def)
next
  fix acc assume "participation now i j None (db0\<lparr>db_accounts := acc\<rparr>) = Inr (row, db')"
  then show ?thesis by (rule ok_participation [OF club_ok_accounts [OF assms(1)]])
next
  fix acc t row0 db es
  assume p: "participation now i j None (db0\<lparr>db_accounts := acc\<rparr>) = Inr (row0, db)"
    and b: "cpa_status row0 = ''ACTIVE''" "row = blocked_row t row0" "db_participations db' = put_by cpa_id row (db_participations db)"
      "db_contributions db' = map (\<lambda>c. if c \<in> set (cycle_contributions i j db0) then cancel_contribution t ''BLOCKED_DELINQUENCY'' c else c)
        (db_contributions db0)"
      "db_charge_events db' = db_charge_events db0 @ es" "db_quotas db' = db_quotas db0" "db_cycles db' = db_cycles db0"
      "list_all (\<lambda>e. cev_event_type e = ''BLOCK_FREEZE'' \<and> cev_participation_id e = cpa_id row
        \<and> cev_contribution_id e \<in> con_id ` set (cycle_contributions i j db0)) es"
  note ok = ok_participation [OF club_ok_accounts [OF assms(1)] p]
  have "row_ok row0" using ok active_participation [OF p] by (simp add: club_ok_def rows_ok_def list_all_iff)
  with b(1,2) have row: "row_ok row" by (simp add: row_ok_def blocked_row_def)
  have same: "db_contributions db = db_contributions db0" "db_charge_events db = db_charge_events db0" "db_quotas db = db_quotas db0"
    "db_cycles db = db_cycles db0" using participation_Inr [OF p] by simp_all
  note cons = cycle_contributions_cong [OF same(1)]
  have "events_ok (db_charge_events db')" using evaluate_events_ok [OF assms(2)] assms(1) by (simp add: club_ok_def)
  with active_participation [OF p] b row show ?thesis
    by (intro ok_close [OF ok, of row0 row db' t "''BLOCKED_DELINQUENCY''" es]) (auto simp: same cons blocked_row_def list_all_iff)
qed

lemma ok_exit:
  assumes "club_ok db0" "voluntary_exit now i j eff actor db0 = Inr (row, db')"
  shows "club_ok db'"
  using assms(2) contributions_ok_ids
proof (rule exit_run)
  show "contributions_ok (db_contributions db0)" using assms(1) by (simp add: club_ok_def)
next
  fix acc t row0 db
  assume p: "participation now i j None (db0\<lparr>db_accounts := acc\<rparr>) = Inr (row0, db)"
    and b: "cpa_status row0 = ''ACTIVE''" "row = exited_row t row0" "db_participations db' = put_by cpa_id row (db_participations db)"
      "db_contributions db' = map (\<lambda>c. if c \<in> set (cycle_contributions i j db0) then cancel_contribution t ''VOLUNTARY_EXIT'' c else c)
        (db_contributions db0)"
      "db_charge_events db' = db_charge_events db0" "db_quotas db' = db_quotas db0" "db_cycles db' = db_cycles db0"
  note ok = ok_participation [OF club_ok_accounts [OF assms(1)] p]
  have "row_ok row0" using ok active_participation [OF p] by (simp add: club_ok_def rows_ok_def list_all_iff)
  with b(1,2) have row: "row_ok row" by (simp add: row_ok_def exited_row_def)
  have same: "db_contributions db = db_contributions db0" "db_charge_events db = db_charge_events db0" "db_quotas db = db_quotas db0"
    "db_cycles db = db_cycles db0" using participation_Inr [OF p] by simp_all
  note cons = cycle_contributions_cong [OF same(1)]
  have "events_ok (db_charge_events db')" using assms(1) b(5) by (simp add: club_ok_def)
  with active_participation [OF p] b row show ?thesis
    by (intro ok_close [OF ok, of row0 row db' t "''VOLUNTARY_EXIT''" "[]"]) (auto simp: same cons exited_row_def)
qed

lemma insert_charge_event_Inr: "insert_charge_event e db = Inr db' \<Longrightarrow> db' = db\<lparr>db_charge_events := db_charge_events db @ [e]\<rparr>"
  by (auto simp: insert_charge_event_def split: if_splits)

text \<open>A snapshot run appends events to the database with the participation, or does nothing.\<close>

lemma snapshot_run:
  fixes db0 :: "'a database_scheme"
  assumes "materialize_active_charges now i j eff db0 = Inr (n, db')"
  obtains acc row db m civil cs where "participation now i j None (db0\<lparr>db_accounts := acc\<rparr>) = Inr (row, db)"
    "fold_res (snapshot_charges now civil row) cs (0, db) = Inr (n, db')"
proof -
  from assms obtain t m a db1 row db where r: "lock_member_financial_account i db0 = Inr (m, a, db1)"
    "participation now i j None db1 = Inr (row, db)" and last: "(if cpa_status row \<noteq> ''ACTIVE'' then Inr (0, db)
     else fold_res (snapshot_charges now (belem_date t) row)
       (filter (\<lambda>c. (case con_due_date c of None \<Rightarrow> False | Some due \<Rightarrow> due < belem_date t) \<and> con_cancelled_at c = None)
         (cycle_contributions i j db)) (0, db)) = Inr (n, db')"
    unfolding materialize_active_charges_def Let_def by (elim res_bind_InrE) (auto elim!: res_bind_InrE)
  from lock_accounts_only [OF r(1)] obtain acc where db1: "db1 = db0\<lparr>db_accounts := acc\<rparr>" .
  show thesis
  proof (cases "cpa_status row = ''ACTIVE''")
    case False
    with last have "fold_res (snapshot_charges now (belem_date t) row) [] (0, db) = Inr (n, db')" by simp
    from that [OF _ this] r(2) db1 show thesis by simp
  next
    case True
    with last have "fold_res (snapshot_charges now (belem_date t) row)
       (filter (\<lambda>c. (case con_due_date c of None \<Rightarrow> False | Some due \<Rightarrow> due < belem_date t) \<and> con_cancelled_at c = None)
         (cycle_contributions i j db)) (0, db) = Inr (n, db')" by simp
    from that [OF _ this] r(2) db1 show thesis by simp
  qed
qed

lemma snapshot_step:
  assumes "snapshot_charges now civil row c u = Inr v"
  shows "snd v = snd u \<or> (\<exists>e. insert_charge_event e (snd u) = Inr (snd v) \<and> cev_event_type e = ''ACCRUAL_SNAPSHOT'')"
  using assms by (cases u) (auto simp: snapshot_charges_def res_bind_eq_Inr new_charge_event_def split: option.splits if_splits)

lemma ok_snapshot:
  assumes "club_ok db0" "materialize_active_charges now i j eff db0 = Inr (n, db')"
  shows "club_ok db'"
  using assms(2)
proof (rule snapshot_run)
  fix acc row db civil cs
  assume p: "participation now i j None (db0\<lparr>db_accounts := acc\<rparr>) = Inr (row, db)"
    and run: "fold_res (snapshot_charges now civil row) cs (0, db) = Inr (n, db')"
  have "club_ok (snd (n, db'))"
  proof (rule fold_res_invariant [OF run])
    show "club_ok (snd (0, db))" using ok_participation [OF club_ok_accounts [OF assms(1)] p] by simp
    fix c u v assume u: "club_ok (snd u)" and "snapshot_charges now civil row c u = Inr v"
    from snapshot_step [OF this(2)] show "club_ok (snd v)"
    proof (elim disjE exE conjE)
      fix e assume "insert_charge_event e (snd u) = Inr (snd v)" "cev_event_type e = ''ACCRUAL_SNAPSHOT''"
      with events_ok_insert [OF this(1)] u show ?thesis
        by (auto simp: club_ok_def closed_ok_def quotas_ok_def cycle_units_def cycle_contributions_def)
    qed (simp add: u)
  qed
  then show ?thesis by simp
qed

section \<open>Every run keeps the tables\<close>

inductive club_step :: "database \<Rightarrow> database \<Rightarrow> bool" where
  first_cycle: "ensure_first_cycle [] db = Inr (c, db') \<Longrightarrow> club_step db db'"
| quota: "create_quota i j units db = Inr (q, db') \<Longrightarrow> club_step db db'"
| contribution: "create_contribution now i j competence entry db = Inr (c, db') \<Longrightarrow> club_step db db'"
| entry: "ensure_contributions_for_entry now i j entry db = Inr (cs, db') \<Longrightarrow> club_step db db'"
| evaluate: "evaluate_delinquency now i j eff db = Inr (row, db') \<Longrightarrow> club_step db db'"
| snapshot: "materialize_active_charges now i j eff db = Inr (n, db') \<Longrightarrow> club_step db db'"
| leave: "voluntary_exit now i j eff actor db = Inr (row, db') \<Longrightarrow> club_step db db'"

inductive club_run :: "database \<Rightarrow> database \<Rightarrow> bool" where
  start: "club_run db db"
| step: "club_run db db1 \<Longrightarrow> club_step db1 db2 \<Longrightarrow> club_run db db2"

lemmas ok_operations = ok_first_cycle ok_quota ok_contribution ok_entry ok_evaluate ok_snapshot ok_exit

lemma ok_step:
  assumes "club_step db db'" "club_ok db"
  shows "club_ok db'"
  using assms(1) by cases (rule ok_operations [OF assms(2)], assumption)+


section \<open>What was closed stays as it was\<close>

definition member_quotas :: "int \<Rightarrow> int \<Rightarrow> database \<Rightarrow> quota_row list" where
  "member_quotas i j db = filter (\<lambda>q. quo_member_id q = i \<and> quo_cycle_id q = Some j) (db_quotas db)"

definition kept :: "participation_row \<Rightarrow> database \<Rightarrow> database \<Rightarrow> bool" where
  "kept r db db' \<longleftrightarrow> r \<in> set (db_participations db')
     \<and> cycle_contributions (cpa_member_id r) (cpa_cycle_id r) db' = cycle_contributions (cpa_member_id r) (cpa_cycle_id r) db
     \<and> member_quotas (cpa_member_id r) (cpa_cycle_id r) db' = member_quotas (cpa_member_id r) (cpa_cycle_id r) db"

lemma kept_refl: "r \<in> set (db_participations db) \<Longrightarrow> kept r db db"
  by (simp add: kept_def)

lemma kept_trans: "kept r db db1 \<Longrightarrow> kept r db1 db2 \<Longrightarrow> kept r db db2"
  by (simp add: kept_def)

lemma kept_same:
  assumes "r \<in> set (db_participations db)" "set (db_participations db) \<subseteq> set (db_participations db')"
    "db_contributions db' = db_contributions db" "db_quotas db' = db_quotas db"
  shows "kept r db db'"
  using assms by (auto simp: kept_def cycle_contributions_def member_quotas_def)

lemma kept_participation:
  assumes "r \<in> set (db_participations db)" "participation now i j e (db\<lparr>db_accounts := acc\<rparr>) = Inr (row, db')"
  shows "kept r db db'"
  using assms(2) by (cases rule: participation_cases) (use assms(1) in \<open>auto intro!: kept_same\<close>)

lemma kept_closing:
  assumes p: "participation now i j None (db\<lparr>db_accounts := acc\<rparr>) = Inr (row0, db1)" and ok: "club_ok db"
    and r: "r \<in> set (db_participations db)" "cpa_status r \<noteq> ''ACTIVE''"
    and row: "cpa_status row0 = ''ACTIVE''" "cpa_id row = cpa_id row0" "db_participations db' = put_by cpa_id row (db_participations db1)"
    and cs: "db_contributions db' = map (\<lambda>c. if c \<in> set (cycle_contributions i j db) then cancel_contribution t reason c else c)
        (db_contributions db)" and qs: "db_quotas db' = db_quotas db"
  shows "kept r db db'"
proof -
  have rows: "rows_ok (db_participations db1)" using ok_participation [OF club_ok_accounts [OF ok] p] by (simp add: club_ok_def)
  have same: "db_contributions db1 = db_contributions db" "db_quotas db1 = db_quotas db" using participation_Inr [OF p] by simp_all
  have "r \<in> set (db_participations db1)" using kept_participation [OF r(1) p] by (simp add: kept_def)
  moreover have "r \<noteq> row0" using r(2) row(1) by auto
  moreover have "db_contributions db' = map (\<lambda>c. if c \<in> set (cycle_contributions (cpa_member_id row0) (cpa_cycle_id row0) db1)
      then cancel_contribution t reason c else c) (db_contributions db1)"
    using cs participation_Inr [OF p] by (simp add: cycle_contributions_cong [OF same(1)])
  ultimately have "r \<in> set (db_participations db') \<and>
      cycle_contributions (cpa_member_id r) (cpa_cycle_id r) db' = cycle_contributions (cpa_member_id r) (cpa_cycle_id r) db1"
    using close_others [OF rows _ row(2,3)] active_participation [OF p] by blast
  then show ?thesis by (simp add: kept_def member_quotas_def qs cycle_contributions_cong [OF same(1)])
qed

lemma kept_evaluate:
  assumes ok: "club_ok db" and r: "r \<in> set (db_participations db)" "cpa_status r \<noteq> ''ACTIVE''"
    and run: "evaluate_delinquency now i j eff db = Inr (row, db')"
  shows "kept r db db'"
proof -
  have ids: "distinct (map con_id (db_contributions db))" using ok by (simp add: club_ok_def contributions_ok_def)
  from run ids show ?thesis
  proof (cases rule: evaluate_cases)
    case (unchanged acc)
    then show ?thesis by (rule kept_participation [OF r(1)])
  next
    case (blocked acc t row0 db1 es)
    then show ?thesis by (intro kept_closing [OF blocked(1) ok r blocked(2) _ blocked(4,5,7)]) (simp add: blocked_row_def)
  qed
qed

lemma kept_exit:
  assumes ok: "club_ok db" and r: "r \<in> set (db_participations db)" "cpa_status r \<noteq> ''ACTIVE''"
    and run: "voluntary_exit now i j eff actor db = Inr (row, db')"
  shows "kept r db db'"
proof -
  have ids: "distinct (map con_id (db_contributions db))" using ok by (simp add: club_ok_def contributions_ok_def)
  obtain acc t row0 db1 where e: "participation now i j None (db\<lparr>db_accounts := acc\<rparr>) = Inr (row0, db1)"
    "cpa_status row0 = ''ACTIVE''" "row = exited_row t row0" "db_participations db' = put_by cpa_id row (db_participations db1)"
    "db_contributions db' = map (\<lambda>c. if c \<in> set (cycle_contributions i j db) then cancel_contribution t ''VOLUNTARY_EXIT'' c else c)
      (db_contributions db)" "db_quotas db' = db_quotas db"
    by (rule exit_run [OF run ids]) (rule that, assumption+)
  then show ?thesis by (intro kept_closing [OF e(1) ok r e(2) _ e(4-6)]) (simp add: exited_row_def)
qed

lemma kept_ensure:
  assumes "r \<in> set (db_participations db)" "ensure_active_participation now i j e db = Inr (row, db')"
  shows "kept r db db'"
  using assms(2) by (rule ensure_active_run) (rule kept_participation [OF assms(1)])

lemma kept_contribution:
  assumes ok: "club_ok db0" and r: "r \<in> set (db_participations db0)" "cpa_status r \<noteq> ''ACTIVE''"
    and run: "create_contribution now i j competence entry db0 = Inr (c, db')"
  shows "kept r db0 db'"
  using run
proof (rule create_contribution_run)
  fix row db
  assume e: "ensure_active_participation now i j (Some entry) db0 = Inr (row, db)"
  assume c: "contributions_for i j competence db = [c] \<and> db' = db
     \<or> contributions_for i j competence db = [] \<and> con_id c = next_id con_id (db_contributions db) \<and> con_member_id c = i
       \<and> con_cycle_id c = Some j \<and> con_competence c = competence \<and> con_status c = ''PENDING'' \<and> con_paid_amount c = Some 0
       \<and> con_cancelled_at c = None \<and> (\<exists>due. due_date_of competence = Inr due \<and> con_due_date c = Some due)
       \<and> db' = db\<lparr>db_contributions := db_contributions db @ [c]\<rparr>"
  have k: "kept r db0 db" by (rule kept_ensure [OF r(1) e])
  note ok' = ok_ensure [OF ok e]
  have "row_key r \<noteq> (i, j)" using k r(2) ok' participations_of_iff [of db i j r] by (auto simp: club_ok_def kept_def)
  with c have "kept r db db'" using k
    by (auto simp: kept_def cycle_contributions_def member_quotas_def)
  with k show ?thesis by (rule kept_trans)
qed

lemma kept_quota:
  assumes ok: "club_ok db" and r: "r \<in> set (db_participations db)" "cpa_status r \<noteq> ''ACTIVE''"
    and run: "create_quota i j units db = Inr (q, db')"
  shows "kept r db db'"
proof -
  have "quotas_ok db" using ok by (simp add: club_ok_def)
  from create_quota_effect [OF run this] have q: "db' = db\<lparr>db_quotas := db_quotas db @ [q]\<rparr>" "quo_cycle_id q = Some j" "quo_member_id q = i"
    "list_all (\<lambda>r. cpa_status r = ''ACTIVE'') (participations_of i j db)" by auto
  have "row_key r \<noteq> (i, j)" using q(4) r by (auto simp: participations_of_def list_all_iff)
  with q r show ?thesis by (auto simp: kept_def member_quotas_def cycle_contributions_def)
qed

lemma kept_snapshot:
  assumes r: "r \<in> set (db_participations db0)" and run: "materialize_active_charges now i j eff db0 = Inr (n, db')"
  shows "kept r db0 db'"
  using run
proof (rule snapshot_run)
  fix acc row db civil cs
  assume p: "participation now i j None (db0\<lparr>db_accounts := acc\<rparr>) = Inr (row, db)"
    and run: "fold_res (snapshot_charges now civil row) cs (0, db) = Inr (n, db')"
  have "kept r db0 (snd (n, db'))"
  proof (rule fold_res_invariant [OF run])
    show "kept r db0 (snd (0, db))" using kept_participation [OF r p] by simp
    fix c u v assume u: "kept r db0 (snd u)" and "snapshot_charges now civil row c u = Inr v"
    from snapshot_step [OF this(2)] show "kept r db0 (snd v)"
      by (elim disjE exE conjE) (use u in \<open>auto simp: kept_def cycle_contributions_def member_quotas_def dest!: insert_charge_event_Inr\<close>)
  qed
  then show ?thesis by simp
qed

lemma kept_entry:
  assumes ok: "club_ok db0" and r: "r \<in> set (db_participations db0)" "cpa_status r \<noteq> ''ACTIVE''"
    and run: "ensure_contributions_for_entry now i j entry db0 = Inr (cs, db')"
  shows "kept r db0 db'"
proof -
  from run obtain cycle row db where e: "ensure_active_participation now i j (Some entry) db0 = Inr (row, db)"
    "fold_res (add_month now i j cycle entry) [0..months_through cycle entry - 1] ([], db) = Inr (cs, db')"
    by (auto simp: ensure_contributions_for_entry_def res_bind_eq_Inr)
  have "kept r db0 (snd (cs, db')) \<and> club_ok (snd (cs, db'))"
  proof (rule fold_res_invariant [OF e(2)])
    show "kept r db0 (snd ([], db)) \<and> club_ok (snd ([], db))" using kept_ensure [OF r(1) e(1)] ok_ensure [OF ok e(1)] by simp
    fix offset u v assume u: "kept r db0 (snd u) \<and> club_ok (snd u)" and step: "add_month now i j cycle entry offset u = Inr v"
    then obtain competence c where "create_contribution now i j competence entry (snd u) = Inr (c, snd v)"
      by (cases u) (auto simp: add_month_def res_bind_eq_Inr)
    with u kept_contribution [OF _ _ r(2) this] ok_contribution [OF _ this] show "kept r db0 (snd v) \<and> club_ok (snd v)"
      using kept_trans by (auto simp: kept_def)
  qed
  then show ?thesis by simp
qed

lemma kept_step:
  assumes "club_step db db'" "club_ok db" "r \<in> set (db_participations db)" "cpa_status r \<noteq> ''ACTIVE''"
  shows "kept r db db'"
  using assms(1)
proof cases
  case (first_cycle c)
  then show ?thesis using assms(3)
    by (auto simp: ensure_first_cycle_def starting_first_def res_bind_eq_Inr Let_def intro!: kept_same split: option.splits)
qed (rule kept_quota [OF assms(2-)] kept_contribution [OF assms(2-)] kept_entry [OF assms(2-)] kept_evaluate [OF assms(2-)]
    kept_snapshot [OF assms(3)] kept_exit [OF assms(2-)], assumption)+

text \<open>C18. A closed participation stays closed under the membership services: whatever operations of the cycle and participation
  services follow (the first cycle, quotas, contributions, an entry's contributions, the delinquency evaluation, the
  charge snapshot, the exit), in any order and by any callers, its row, the member's contributions in the cycle and the
  member's quotas in the cycle stay exactly as they were. Payments are not among these operations: a payment reversal
  changes the contribution that the payment had paid.\<close>

theorem closed_for_good:
  assumes "club_run db db'" "club_ok db" "r \<in> set (db_participations db)" "cpa_status r \<noteq> ''ACTIVE''"
  shows "r \<in> set (db_participations db')
    \<and> cycle_contributions (cpa_member_id r) (cpa_cycle_id r) db' = cycle_contributions (cpa_member_id r) (cpa_cycle_id r) db
    \<and> member_quotas (cpa_member_id r) (cpa_cycle_id r) db' = member_quotas (cpa_member_id r) (cpa_cycle_id r) db"
proof -
  have "kept r db db' \<and> club_ok db'" using assms
  proof (induction rule: club_run.induct)
    case (step db db1 db2)
    then have k: "kept r db db1" "club_ok db1" by blast+
    with kept_step [OF step.hyps(2) k(2), of r] step.prems(3) have "kept r db1 db2" by (simp add: kept_def)
    with k kept_trans ok_step [OF step.hyps(2) k(2)] show ?case by blast
  qed (simp add: kept_refl)
  then show ?thesis by (simp add: kept_def)
qed

lemma quota_accepted_iff:
  assumes "club_ok db"
  shows "(\<exists>q db'. create_quota i j units db = Inr (q, db')) \<longleftrightarrow>
    1 \<le> units \<and> get_by mem_id i (db_members db) \<noteq> None \<and> list_all (\<lambda>r. cpa_status r = ''ACTIVE'') (participations_of i j db)
    \<and> (\<exists>c. get_by cyc_id j (db_cycles db) = Some c \<and> cycle_units j db + of_int units \<le> of_int (cyc_max_quotas c))"
    (is "?l = ?r")
proof
  have ok: "quotas_ok db" using assms by (simp add: club_ok_def)
  note whole = whole_units_of_int [OF cycle_units_Ints [OF ok]]
  have fits: "cycle_units k db + of_int units \<le> of_int m \<longleftrightarrow> \<not> m < whole_units (cycle_units k db) + units" for k m
    using whole [of k] by (metis linorder_not_less of_int_add of_int_le_iff)
  show ?r if ?l
  proof -
    from that obtain q db' where run: "create_quota i j units db = Inr (q, db')" by blast
    then show ?thesis using create_quota_effect [OF run ok] fits
      by (auto simp: create_quota_def cycle_for_update_def res_bind_eq_Inr Let_def dest: get_by_Some_mem split: if_splits option.splits)
  qed
  show ?l if r: ?r
  proof -
    from r obtain c where c: "get_by cyc_id j (db_cycles db) = Some c" "cycle_units j db + of_int units \<le> of_int (cyc_max_quotas c)" by blast
    have rows: "rows_ok (db_participations db)" using assms by (simp add: club_ok_def)
    obtain found where f: "one_or_none (participations_of i j db) = Inr found"
      "case found of None \<Rightarrow> True | Some x \<Rightarrow> x \<in> set (participations_of i j db)"
    proof (cases "participations_of i j db")
      case (Cons x xs)
      then have "x \<in> set (participations_of i j db)" by simp
      then have "participations_of i j db = [x]" using participations_of_iff [OF rows, of i j x] by (auto simp: participations_of_def)
      then show ?thesis using that [of "Some x"] by (simp add: one_or_none_def)
    qed (use that [of None] in \<open>simp add: one_or_none_def\<close>)
    then show ?thesis using r c fits [of j "cyc_max_quotas c"] get_by_Some_mem [OF c(1)]
      by (cases found) (auto simp: create_quota_def cycle_for_update_def list_all_iff Let_def)
  qed
qed

text \<open>C25. A quota is sold exactly when it fits: on well-formed tables the sale succeeds iff the units are positive, the cycle and the member
  exist, the participation is not closed, and the units of the cycle with the new ones are within the capacity.\<close>

theorem quota_sold_iff:
  assumes "club_ok db"
  shows "(\<exists>q db'. create_quota i j units db = Inr (q, db')) \<longleftrightarrow>
    1 \<le> units \<and> get_by mem_id i (db_members db) \<noteq> None \<and> list_all (\<lambda>r. cpa_status r = ''ACTIVE'') (participations_of i j db)
    \<and> (\<exists>c. get_by cyc_id j (db_cycles db) = Some c \<and> cycle_units j db + of_int units \<le> of_int (cyc_max_quotas c))"
  using assms by (rule quota_accepted_iff)

section \<open>What an entry obliges to\<close>

text \<open>The member's account and active participation are in place.\<close>

definition entered :: "int \<Rightarrow> int \<Rightarrow> participation_row \<Rightarrow> 'a database_scheme \<Rightarrow> bool" where
  "entered i j row db \<longleftrightarrow> (\<exists>m a. lock_member_financial_account i db = Inr (m, a, db)) \<and> participations_of i j db = [row] \<and> cpa_status row = ''ACTIVE''"

lemma entered_ensure: "entered i j row db \<Longrightarrow> ensure_active_participation now i j e db = Inr (row, db)"
  by (auto simp: entered_def ensure_active_participation_def participation_def one_or_none_def)

lemma ensure_enters:
  fixes db0 :: "'a database_scheme"
  assumes "ensure_active_participation now i j e db0 = Inr (row, db)"
  shows "entered i j row db \<and> db_cycles db = db_cycles db0"
proof -
  from assms obtain m a db1 where r: "lock_member_financial_account i db0 = Inr (m, a, db1)" "participation now i j e db1 = Inr (row, db)"
    "cpa_status row = ''ACTIVE''"
    by (auto simp: ensure_active_participation_def res_bind_eq_Inr split: if_splits)
  note p = participation_Inr [OF r(2)]
  from lock_accounts_only [OF r(1)] obtain acc where db1: "db1 = db0\<lparr>db_accounts := acc\<rparr>" .
  have "lock_member_financial_account i db = Inr (m, a, db)" by (rule lock_account_again [OF r(1)]) (simp_all add: p)
  then have "entered i j row db" unfolding entered_def using p r(3) by blast
  moreover have "db_cycles db = db_cycles db0" using p by (simp add: db1)
  ultimately show ?thesis ..
qed

lemma contributions_for_competence: "contributions_for i j competence db = [c] \<Longrightarrow> con_competence c = competence"
  by (auto simp: contributions_for_def filter_eq_Cons_iff)

lemma authoritative_cong:
  fixes db db' :: "'a database_scheme"
  shows "db_cycles db' = db_cycles db \<Longrightarrow> db_quotas db' = db_quotas db \<Longrightarrow> authoritative_amount i j db' = authoritative_amount i j db"
  by (simp add: authoritative_amount_def cycle_for_update_def quota_units_def)

text \<open>The contribution of a month is there once, with the amount the quotas oblige to.\<close>

definition owed :: "int \<Rightarrow> int \<Rightarrow> 'a database_scheme \<Rightarrow> contribution_row \<Rightarrow> bool" where
  "owed i j db c \<longleftrightarrow> contributions_for i j (con_competence c) db = [c] \<and> authoritative_amount i j db = Inr (con_amount c)"

lemma create_contribution_owed:
  fixes db :: "'a database_scheme"
  assumes e: "entered i j row db" and run: "create_contribution now i j competence entry db = Inr (c, db')"
  shows "entered i j row db' \<and> db_cycles db' = db_cycles db \<and> owed i j db' c \<and> con_competence c = competence
    \<and> (\<forall>x. owed i j db x \<longrightarrow> owed i j db' x)"
  using run
proof (rule create_contribution_run)
  fix row' db1
  assume "ensure_active_participation now i j (Some entry) db = Inr (row', db1)"
  then have db1: "db1 = db" "row' = row" by (simp_all add: entered_ensure [OF e])
  assume amount: "authoritative_amount i j db1 = Inr (con_amount c)"
  assume "contributions_for i j competence db1 = [c] \<and> db' = db1
     \<or> contributions_for i j competence db1 = [] \<and> con_id c = next_id con_id (db_contributions db1) \<and> con_member_id c = i
       \<and> con_cycle_id c = Some j \<and> con_competence c = competence \<and> con_status c = ''PENDING'' \<and> con_paid_amount c = Some 0
       \<and> con_cancelled_at c = None \<and> (\<exists>due. due_date_of competence = Inr due \<and> con_due_date c = Some due)
       \<and> db' = db1\<lparr>db_contributions := db_contributions db1 @ [c]\<rparr>"
  then show ?thesis
  proof (elim disjE conjE)
    assume c: "contributions_for i j competence db1 = [c]" "db' = db1"
    with contributions_for_competence [OF c(1)] e amount show ?thesis by (simp add: db1 owed_def)
  next
    assume new: "contributions_for i j competence db1 = []" "con_member_id c = i" "con_cycle_id c = Some j" "con_competence c = competence"
      "db' = db1\<lparr>db_contributions := db_contributions db1 @ [c]\<rparr>"
    have lock: "lock_member_financial_account i db = Inr (m, a, db) \<Longrightarrow> lock_member_financial_account i db' = Inr (m, a, db')" for m a
      by (erule lock_account_again) (simp_all add: new(5) db1)
    have rest: "contributions_for i j k db' = contributions_for i j k db @ (if k = competence then [c] else [])" for k
      using new by (auto simp: contributions_for_def cycle_contributions_def db1)
    have auth: "authoritative_amount i j db' = authoritative_amount i j db" by (rule authoritative_cong) (simp_all add: new(5) db1)
    have "participations_of i j db' = participations_of i j db" by (simp add: new(5) db1 participations_of_def)
    then have "entered i j row db'" using e lock by (fastforce simp: entered_def)
    moreover have "owed i j db' c" using new(1,4) amount by (simp add: owed_def rest auth db1)
    moreover have "owed i j db' x" if "owed i j db x" for x
      using that new(1) by (cases "con_competence x = competence") (simp_all add: owed_def rest auth db1)
    ultimately show ?thesis using new(4) by (simp add: new(5) db1)
  qed
qed

lemma create_contribution_again:
  fixes db :: "'a database_scheme"
  assumes "entered i j row db" "owed i j db c" "cycle_for_update j db = Inr cycle" "entry_allowed cycle (Some row) entry = Inr ()"
    "competence_allowed cycle (con_competence c) = Inr ()"
  shows "create_contribution now i j (con_competence c) entry db = Inr (c, db)"
proof -
  have "one_or_none (participations_of i j db) = Inr (Some row)" using assms(1) by (simp add: entered_def one_or_none_def)
  moreover have "one_or_none (contributions_for i j (con_competence c) db) = Inr (Some c)" using assms(2) by (simp add: owed_def one_or_none_def)
  ultimately show ?thesis
    using assms by (simp add: create_contribution_def entered_ensure owed_def)
qed

lemma months_owed:
  fixes db :: "'a database_scheme"
  assumes "fold_res (add_month now i j cycle entry) offsets (rows, db) = Inr (rows', db')" "entered i j row db" "cycle_for_update j db = Inr cycle"
  shows "entered i j row db' \<and> db_cycles db' = db_cycles db \<and> (\<forall>x. owed i j db x \<longrightarrow> owed i j db' x)
    \<and> (\<exists>cs. rows' = rows @ cs \<and> list_all2 (\<lambda>k c. competence_of (cyc_start_date cycle) k = Inr (con_competence c)
        \<and> owed i j db' c \<and> competence_allowed cycle (con_competence c) = Inr ()) offsets cs)"
  using assms
proof (induction offsets arbitrary: rows db)
  case (Cons k ks)
  then obtain s where s: "add_month now i j cycle entry k (rows, db) = Inr s"
    "fold_res (add_month now i j cycle entry) ks s = Inr (rows', db')" by (auto simp: res_bind_eq_Inr)
  from s(1) obtain competence c db1 where step: "competence_of (cyc_start_date cycle) k = Inr competence"
    "create_contribution now i j competence entry db = Inr (c, db1)" "s = (rows @ [c], db1)"
    by (auto simp: add_month_def res_bind_eq_Inr)
  note rest = s(2) [unfolded step(3)]
  note c = create_contribution_owed [OF Cons.prems(2) step(2)]
  have cyc: "cycle_for_update j db1 = Inr cycle" using c Cons.prems(3) by (simp add: cycle_for_update_def)
  have allowed: "competence_allowed cycle competence = Inr ()"
    using step(2) Cons.prems(3) by (auto simp: create_contribution_def elim!: res_elims)
  from Cons.IH [OF rest _ cyc] c obtain cs where ih: "entered i j row db'" "db_cycles db' = db_cycles db1" "\<forall>x. owed i j db1 x \<longrightarrow> owed i j db' x"
    "rows' = (rows @ [c]) @ cs" "list_all2 (\<lambda>k c. competence_of (cyc_start_date cycle) k = Inr (con_competence c)
        \<and> owed i j db' c \<and> competence_allowed cycle (con_competence c) = Inr ()) ks cs" by blast
  with c step(1) allowed show ?case by (intro conjI exI [of _ "c # cs"]) auto
qed auto

lemma months_again:
  fixes db :: "'a database_scheme"
  assumes "list_all2 (\<lambda>k c. competence_of (cyc_start_date cycle) k = Inr (con_competence c)
        \<and> owed i j db c \<and> competence_allowed cycle (con_competence c) = Inr ()) offsets cs"
    and "entered i j row db" "cycle_for_update j db = Inr cycle" "entry_allowed cycle (Some row) entry = Inr ()"
  shows "fold_res (add_month now i j cycle entry) offsets (rows, db) = Inr (rows @ cs, db)"
  using assms(1)
proof (induction arbitrary: rows rule: list_all2_induct)
  case (Cons k ks c cs)
  then show ?case using create_contribution_again [OF assms(2) _ assms(3,4)] by (simp add: add_month_def)
qed simp

text \<open>C22. An entry creates each month's contribution once. A successful entry returns one contribution for every month from the start of
  the cycle through the month of the entry (at most the months of the cycle), each the only one of the member in
  that month and with the amount the member's quotas oblige to; entering again, at any time, returns the same rows and changes nothing.\<close>

theorem entry_owes_each_month_once:
  fixes db0 :: "'a database_scheme"
  assumes "ensure_contributions_for_entry now i j entry db0 = Inr (cs, db')"
  shows "\<exists>cycle. cycle_for_update j db' = Inr cycle
    \<and> list_all2 (\<lambda>k c. competence_of (cyc_start_date cycle) k = Inr (con_competence c)
        \<and> contributions_for i j (con_competence c) db' = [c] \<and> authoritative_amount i j db' = Inr (con_amount c))
        [0..months_through cycle entry - 1] cs
    \<and> ensure_contributions_for_entry later i j entry db' = Inr (cs, db')"
proof -
  from assms obtain cycle existing row db where r: "cycle_for_update j db0 = Inr cycle"
    "entry_allowed cycle existing entry = Inr ()" "ensure_active_participation now i j (Some entry) db0 = Inr (row, db)"
    "fold_res (add_month now i j cycle entry) [0..months_through cycle entry - 1] ([], db) = Inr (cs, db')"
    by (auto simp: ensure_contributions_for_entry_def elim!: res_elims)
  note e = ensure_enters [OF r(3)]
  have "cycle_for_update j db = Inr cycle" using r(1) e by (simp add: cycle_for_update_def)
  note cyc = this
  from months_owed [OF r(4) conjunct1 [OF e] cyc] have m: "entered i j row db'" "db_cycles db' = db_cycles db"
    "list_all2 (\<lambda>k c. competence_of (cyc_start_date cycle) k = Inr (con_competence c)
        \<and> owed i j db' c \<and> competence_allowed cycle (con_competence c) = Inr ()) [0..months_through cycle entry - 1] cs" by auto
  have cyc': "cycle_for_update j db' = Inr cycle" using cyc m(2) by (simp add: cycle_for_update_def)
  have entry: "entry_allowed cycle (Some row) entry = Inr ()" using r(2) by (auto simp: entry_allowed_def split: if_splits)
  have "one_or_none (participations_of i j db') = Inr (Some row)" using m(1) by (simp add: entered_def one_or_none_def)
  then have "ensure_contributions_for_entry later i j entry db' = Inr (cs, db')"
    using months_again [OF m(3,1) cyc' entry, where rows = "[]"] entered_ensure [OF m(1)]
    by (simp add: ensure_contributions_for_entry_def cyc' entry)
  moreover have "list_all2 (\<lambda>k c. competence_of (cyc_start_date cycle) k = Inr (con_competence c)
        \<and> contributions_for i j (con_competence c) db' = [c] \<and> authoritative_amount i j db' = Inr (con_amount c))
        [0..months_through cycle entry - 1] cs"
    using m(3) by (rule list_all2_mono) (simp add: owed_def)
  ultimately show ?thesis using cyc' by blast
qed

section \<open>Three overdue months lead to the block\<close>

lemma freeze_succeeds:
  fixes db :: "'a database_scheme"
  assumes "distinct (map (\<lambda>x. con_id (fst x)) xs)"
    and "list_all (\<lambda>x. 0 \<le> ch_fixed_penalty (fst (snd x)) \<and> 0 \<le> ch_daily_interest (fst (snd x)) \<and> 0 \<le> snd (snd x)) xs"
    and "\<forall>e\<in>set (db_charge_events db). cev_event_type e = ''BLOCK_FREEZE'' \<longrightarrow> cev_contribution_id e \<notin> (\<lambda>x. con_id (fst x)) ` set xs"
  shows "\<exists>db'. fold_res (freeze_contribution now t civil row) xs db = Inr db'"
  using assms
proof (induction xs arbitrary: db)
  case (Cons x xs)
  obtain c ch p where x: "x = (c, ch, p)" by (metis prod_cases3)
  let ?e = "new_charge_event now c row ''BLOCK_FREEZE'' civil ch p db"
  let ?db = "put_contribution (cancel_contribution t ''BLOCKED_DELINQUENCY'' c) (db\<lparr>db_charge_events := db_charge_events db @ [?e]\<rparr>)"
  have "insert_charge_event ?e db = Inr (db\<lparr>db_charge_events := db_charge_events db @ [?e]\<rparr>)"
    using Cons.prems(2,3) by (auto simp: insert_charge_event_def new_charge_event_def list_ex_iff x)
  then have "freeze_contribution now t civil row x db = Inr ?db" by (simp add: freeze_contribution_def x)
  moreover have "\<exists>db'. fold_res (freeze_contribution now t civil row) xs ?db = Inr db'"
    by (rule Cons.IH) (use Cons.prems in \<open>auto simp: put_contribution_def new_charge_event_def x image_iff\<close>)
  ultimately show ?case by simp
qed simp

lemma snapshot_amounts:
  assumes "delinquency_snapshot civil db c = Inr xs"
  shows "list_all (\<lambda>x. fst x = c \<and> 0 \<le> ch_fixed_penalty (fst (snd x)) \<and> 0 \<le> ch_daily_interest (fst (snd x)) \<and> 0 \<le> snd (snd x)) xs"
proof -
  have "0 \<le> ch_fixed_penalty ch \<and> 0 \<le> ch_daily_interest ch"
    if "calculate_contribution_charges (con_amount c) due (Civil civil) h = Inr ch" for due h ch
    using contribution_charges_bounds [OF that] by (auto simp: FIXED_PENALTY_AMOUNT_def)
  with assms show ?thesis by (auto simp: delinquency_snapshot_def res_bind_eq_Inr Let_def split: option.splits if_splits)
qed

lemma first_days_by_month:
  assumes "is_date a" "is_date b" "dom (of_ordinal a) = 1" "dom (of_ordinal b) = 1" "month_index a = month_index b"
  shows "a = b"
proof -
  have v: "1 \<le> mon (of_ordinal a)" "mon (of_ordinal a) \<le> 12" "1 \<le> mon (of_ordinal b)" "mon (of_ordinal b) \<le> 12"
    using assms(1,2) by (auto simp: is_date_def valid_ymd_def)
  have "yr (of_ordinal a) * 12 + mon (of_ordinal a) = yr (of_ordinal b) * 12 + mon (of_ordinal b)"
    using assms(5) by (simp add: month_index_def Let_def)
  with v have "yr (of_ordinal a) = yr (of_ordinal b) \<and> mon (of_ordinal a) = mon (of_ordinal b)" by presburger
  then have "of_ordinal a = of_ordinal b" using assms(3,4) by (metis ymd.surjective unit.exhaust)
  then show ?thesis using assms(1,2) by (metis is_date_def)
qed

lemma snapshots_exist:
  assumes "\<forall>c\<in>set cs. \<exists>xs. delinquency_snapshot civil db c = Inr xs"
  obtains xss where "map_res (delinquency_snapshot civil db) cs = Inr xss" "map fst (concat xss) = filter (owes_snapshot civil db) cs"
    "list_all (\<lambda>x. 0 \<le> ch_fixed_penalty (fst (snd x)) \<and> 0 \<le> ch_daily_interest (fst (snd x)) \<and> 0 \<le> snd (snd x)) (concat xss)"
proof -
  have "\<exists>xss. map_res (delinquency_snapshot civil db) cs = Inr xss" using assms by (induction cs) auto
  then obtain xss where xss: "map_res (delinquency_snapshot civil db) cs = Inr xss" by blast
  then have "list_all2 (\<lambda>c xs. delinquency_snapshot civil db c = Inr xs) cs xss" by (simp add: map_res_list_all2)
  then have "list_all (list_all (\<lambda>x. 0 \<le> ch_fixed_penalty (fst (snd x)) \<and> 0 \<le> ch_daily_interest (fst (snd x)) \<and> 0 \<le> snd (snd x))) xss"
    by (induction rule: list_all2_induct) (use snapshot_amounts in \<open>fastforce simp: list_all_iff\<close>)+
  then have "list_all (\<lambda>x. 0 \<le> ch_fixed_penalty (fst (snd x)) \<and> 0 \<le> ch_daily_interest (fst (snd x)) \<and> 0 \<le> snd (snd x)) (concat xss)"
    by (simp add: list_all_iff)
  with xss snapshots_map [OF xss] show thesis by (intro that) blast+
qed

lemma snapshot_accounts: "delinquency_snapshot civil (db\<lparr>db_accounts := acc\<rparr>) c = delinquency_snapshot civil db c"
proof -
  have "history_entry through (db\<lparr>db_accounts := acc\<rparr>) = history_entry through db" for through
    by (rule ext) (simp add: history_entry_def)
  moreover have "legacy_date c a (db\<lparr>db_accounts := acc\<rparr>) = legacy_date c a db" for a
  proof -
    have "db_payments (db\<lparr>db_accounts := acc\<rparr>) = db_payments db" by simp
    then show ?thesis unfolding legacy_date_def by (simp only:)
  qed
  moreover have "db_settlements (db\<lparr>db_accounts := acc\<rparr>) = db_settlements db" by simp
  ultimately have "payment_history civil c (db\<lparr>db_accounts := acc\<rparr>) = payment_history civil c db" unfolding payment_history_def by (simp only:)
  then show ?thesis unfolding delinquency_snapshot_def by (simp only:)
qed

lemma member_locks:
  assumes "get_by mem_id i (db_members db) \<noteq> None"
  shows "\<exists>m a db'. lock_member_financial_account i db = Inr (m, a, db')"
proof -
  from assms obtain m where m: "get_by mem_id i (db_members db) = Some m" by blast
  then show ?thesis
    by (cases "find (\<lambda>a. acc_member_id a = mem_id m) (db_accounts db)") (simp_all add: lock_member_financial_account_def Let_def)
qed

text \<open>The contributions of an active participation have no frozen charge.\<close>

lemma active_not_frozen:
  assumes ok: "club_ok db" and part: "participations_of i j db = [row]" "cpa_status row = ''ACTIVE''"
    and e: "e \<in> set (db_charge_events db)" "cev_event_type e = ''BLOCK_FREEZE''"
  shows "cev_contribution_id e \<notin> con_id ` set (cycle_contributions i j db)"
proof
  assume "cev_contribution_id e \<in> con_id ` set (cycle_contributions i j db)"
  then obtain c where c: "c \<in> set (db_contributions db)" "con_id c = cev_contribution_id e" "con_member_id c = i" "con_cycle_id c = Some j"
    by (auto simp: cycle_contributions_def)
  from ok e obtain r where r: "r \<in> set (db_participations db)" "cpa_status r = ''BLOCKED_DELINQUENCY''"
    "cev_contribution_id e \<in> con_id ` set (cycle_contributions (cpa_member_id r) (cpa_cycle_id r) db)"
    by (auto simp: club_ok_def closed_ok_def)
  from r(3) obtain c' where c': "c' \<in> set (db_contributions db)" "con_id c' = cev_contribution_id e" "con_member_id c' = cpa_member_id r"
    "con_cycle_id c' = Some (cpa_cycle_id r)" by (auto simp: cycle_contributions_def)
  have "distinct (map con_id (db_contributions db))" using ok by (simp add: club_ok_def contributions_ok_def)
  from distinct_map_unique [OF this c'(1) c(1)] c c' have "row_key r = (i, j)" by auto
  then have "participations_of i j db = [r]" using participations_of_iff [of db i j r] ok r(1) by (simp add: club_ok_def)
  with part r(2) show False by simp
qed

text \<open>C20. A member in default is blocked. On well-formed tables, when three consecutive months of an active participation are overdue and
  every contribution of the member in the cycle has a due date and a complete dated history, the evaluation does not fail: it blocks.\<close>

theorem overdue_member_blocked:
  assumes ok: "club_ok db0" and part: "participations_of i j db0 = [row0]" "cpa_status row0 = ''ACTIVE''"
    and member: "get_by mem_id i (db_members db0) \<noteq> None"
    and dates: "\<forall>c\<in>set (cycle_contributions i j db0). is_date (con_competence c) \<and> dom (of_ordinal (con_competence c)) = 1"
    and histories: "\<forall>c\<in>set (cycle_contributions i j db0). \<exists>xs. delinquency_snapshot (belem_date t) db0 c = Inr xs"
    and late: "\<forall>k\<in>{m, m + 1, m + 2}. late_in (belem_date t) (cycle_contributions i j db0) k"
  shows "\<exists>row db'. evaluate_delinquency now i j (Some (Aware t)) db0 = Inr (row, db') \<and> cpa_status row = ''BLOCKED_DELINQUENCY''"
proof -
  let ?civil = "belem_date t" and ?cs = "cycle_contributions i j db0"
  obtain mem a db where lock: "lock_member_financial_account i db0 = Inr (mem, a, db)" using member_locks [OF member] by blast
  from lock_accounts_only [OF lock] obtain acc where db: "db = db0\<lparr>db_accounts := acc\<rparr>" .
  have p: "participation now i j None db = Inr (row0, db)" using part by (simp add: participation_def one_or_none_def participations_of_def db)
  define cs where "cs = sort_key con_competence (sort_key con_id ?cs)"
  have snap: "delinquency_snapshot ?civil db c = delinquency_snapshot ?civil db0 c" for c
    by (simp add: db snapshot_accounts)
  have "\<forall>c\<in>set cs. \<exists>xs. delinquency_snapshot ?civil db c = Inr xs" using histories by (simp add: cs_def snap)
  then obtain xss where xss: "map_res (delinquency_snapshot ?civil db) cs = Inr xss" "map fst (concat xss) = filter (owes_snapshot ?civil db) cs"
    "list_all (\<lambda>x. 0 \<le> ch_fixed_penalty (fst (snd x)) \<and> 0 \<le> ch_daily_interest (fst (snd x)) \<and> 0 \<le> snd (snd x)) (concat xss)"
    by (rule snapshots_exist)
  have keys: "distinct (map con_id (db_contributions db0))" "distinct (map (\<lambda>c. (con_member_id c, con_cycle_id c, con_competence c)) (db_contributions db0))"
    using ok by (simp_all add: club_ok_def contributions_ok_def)
  have dcs: "distinct cs" using keys(1) by (simp add: cs_def cycle_contributions_def distinct_map)
  have "inj_on con_id (set cs)" "inj_on con_competence (set cs)"
    using keys by (auto simp: cs_def cycle_contributions_def distinct_map inj_on_def)
  then have ids: "distinct (map con_id cs)" and "inj_on month (set cs)"
    using dcs dates first_days_by_month by (auto simp: cs_def distinct_map inj_on_def)
  then have months: "distinct (map month cs)" using dcs by (simp add: distinct_map)
  have over: "consecutive_overdue cs ?civil = Inr True"
    using streak_of_three [OF months] dates late by (auto simp: cs_def late_in_def)
  have "map (\<lambda>x. con_id (fst x)) (concat xss) = map con_id (filter (owes_snapshot ?civil db) cs)"
    using arg_cong [OF xss(2), of "map con_id"] by (simp only: map_map o_def)
  then have "distinct (map (\<lambda>x. con_id (fst x)) (concat xss))" using distinct_map_filter [OF ids] by (simp only:)
  moreover have "\<forall>e\<in>set (db_charge_events db0). cev_event_type e = ''BLOCK_FREEZE'' \<longrightarrow> cev_contribution_id e \<notin> (\<lambda>x. con_id (fst x)) ` set (concat xss)"
  proof (intro ballI impI notI)
    fix e assume "e \<in> set (db_charge_events db0)" "cev_event_type e = ''BLOCK_FREEZE''" "cev_contribution_id e \<in> (\<lambda>x. con_id (fst x)) ` set (concat xss)"
    moreover have "fst ` set (concat xss) \<subseteq> set ?cs" using arg_cong [OF xss(2), of set] by (auto simp: cs_def)
    ultimately have "cev_contribution_id e \<notin> con_id ` set ?cs" using active_not_frozen [OF ok part] by blast
    with \<open>cev_contribution_id e \<in> _\<close> \<open>fst ` set (concat xss) \<subseteq> set ?cs\<close> show False by (auto simp: image_iff)
  qed
  ultimately obtain db2 where "fold_res (freeze_contribution now t ?civil (blocked_row t row0)) (concat xss) (put_participation (blocked_row t row0) db) = Inr db2"
    using freeze_succeeds [OF _ xss(3), where db = "put_participation (blocked_row t row0) db" and now = now and t = t and civil = ?civil
        and row = "blocked_row t row0"] by (auto simp: db)
  moreover have "sort_key con_competence (sort_key con_id (cycle_contributions i j db)) = cs"
    by (simp add: cs_def db cycle_contributions_def)
  ultimately have "evaluate_delinquency now i j (Some (Aware t)) db0
      = Inr (blocked_row t row0, add_audit None ''CYCLE_PARTICIPATION_BLOCKED'' ''CYCLE_PARTICIPATION'' (py_str (cpa_id (blocked_row t row0))) db2)"
    unfolding evaluate_delinquency_def Let_def effective_at_utc_def option.case datetime.case res_bind_Inr lock p prod.case
    by (simp only: part(2) over xss(1) res_bind_Inr if_False if_True not_True_eq_False simp_thms)
  then show ?thesis by (simp add: blocked_row_def)
qed


section \<open>Witnesses\<close>

lemma late_snapshot: "\<exists>xs. delinquency_snapshot day (club_db cs ps) (monthly i d 0) = Inr xs"
proof -
  obtain ch where "calculate_contribution_charges 15000 (d + 9) (Civil day) [] = Inr ch" by (rule charges_of_unpaid)
  then show ?thesis by (simp add: delinquency_snapshot_def club_facts monthly_simps Let_def)
qed

lemma club_db_ok: "club_ok (club_db late_months [joined])"
  by (simp add: club_ok_def rows_ok_def row_ok_def contributions_ok_def events_ok_def quotas_ok_def closed_ok_def club_facts
      late_months_def monthly_simps joined_def) (simp add: club_db_def cycle_units_def)

lemma late_run:
  obtains row db' where "club_run (club_db late_months [joined]) db'" "row \<in> set (db_participations db')" "cpa_status row = ''BLOCKED_DELINQUENCY''"
proof -
  obtain row db' where r: "evaluate_delinquency 1805554800000000 4 1 None (club_db late_months [joined]) = Inr (row, db')"
    "cpa_status row = ''BLOCKED_DELINQUENCY''" by (rule late_blocked)
  with block_freezes [OF r(1)] have "participations_of 4 1 db' = [row]" by (simp add: club_facts joined_def late_months_def monthly_def)
  then have "row \<in> set (db_participations db')" by (auto simp: participations_of_def filter_eq_Cons_iff)
  with r show thesis using that [OF club_run.step [OF club_run.start club_step.evaluate]] by blast
qed


text \<open>One member has left, another one buys a quota.\<close>

definition left_db :: database where
  "left_db = (club_db [] [joined\<lparr>cpa_status := ''VOLUNTARILY_EXITED'', cpa_voluntary_exit_at := Some (Aware 0)\<rparr>])
     \<lparr>db_members := [\<lparr>mem_id = 4, mem_user_id = 9, mem_group_id = 1, mem_status = ''ACTIVE''\<rparr>,
       \<lparr>mem_id = 5, mem_user_id = 10, mem_group_id = 1, mem_status = ''ACTIVE''\<rparr>]\<rparr>"

theorem closed_for_good_witness:
  "\<exists>q db'. create_quota 5 1 2 left_db = Inr (q, db') \<and> db_quotas db' = db_quotas left_db @ [q]
    \<and> member_quotas 4 1 db' = member_quotas 4 1 left_db"
proof -
  let ?r = "joined\<lparr>cpa_status := ''VOLUNTARILY_EXITED'', cpa_voluntary_exit_at := Some (Aware 0)\<rparr>"
  have ok: "club_ok left_db"
    by (simp add: club_ok_def rows_ok_def row_ok_def contributions_ok_def events_ok_def quotas_ok_def closed_ok_def left_db_def
        joined_def cycle_contributions_def club_db_def cycle_units_def)
  have r: "?r \<in> set (db_participations left_db)" "cpa_status ?r \<noteq> ''ACTIVE''" by (simp_all add: left_db_def club_facts)
  have "\<exists>q db'. create_quota 5 1 2 left_db = Inr (q, db')"
    unfolding quota_accepted_iff [OF ok] by (simp add: left_db_def club_db_def participations_of_def joined_def cycle_units_def)
  then obtain q db' where f: "create_quota 5 1 2 left_db = Inr (q, db')" by blast
  have run: "club_run left_db db'" by (rule club_run.step [OF club_run.start club_step.quota [OF f]])
  have "quotas_ok left_db" using ok by (simp add: club_ok_def)
  from create_quota_effect [OF f this] closed_for_good [OF run ok r] f show ?thesis
    by (intro exI [of _ q] exI [of _ db']) (simp add: joined_def)
qed

theorem quota_sold_iff_witness:
  "(\<exists>q db'. create_quota 4 1 49 (club_db late_months [joined]) = Inr (q, db'))
    \<and> \<not> (\<exists>q db'. create_quota 4 1 50 (club_db late_months [joined]) = Inr (q, db'))"
  by (subst (1 2) quota_sold_iff [OF club_db_ok]) (simp add: club_facts joined_def; simp add: club_db_def cycle_units_def)

theorem overdue_member_blocked_witness:
  "\<exists>row db'. evaluate_delinquency 0 4 1 (Some (Aware 1805554800000000)) (club_db late_months [joined]) = Inr (row, db')
    \<and> cpa_status row = ''BLOCKED_DELINQUENCY''"
proof (rule overdue_member_blocked [OF club_db_ok])
  have b: "belem_date 1805554800000000 = 740060" by code_simp
  have cs: "cycle_contributions 4 1 (club_db late_months [joined]) = late_months"
    by (simp add: club_facts late_months_def monthly_simps)
  show "participations_of 4 1 (club_db late_months [joined]) = [joined]" "cpa_status joined = ''ACTIVE''"
    by (simp_all add: club_facts joined_def)
  show "get_by mem_id 4 (db_members (club_db late_months [joined])) \<noteq> None" by (simp add: club_db_def)
  show "\<forall>c\<in>set (cycle_contributions 4 1 (club_db late_months [joined])). is_date (con_competence c) \<and> dom (of_ordinal (con_competence c)) = 1"
    unfolding cs by (simp add: late_months_def monthly_simps first_days first_of_month)
  show "\<forall>c\<in>set (cycle_contributions 4 1 (club_db late_months [joined])).
      \<exists>xs. delinquency_snapshot (belem_date 1805554800000000) (club_db late_months [joined]) c = Inr xs"
    by (simp add: cs) (simp add: late_months_def late_snapshot)
  show "\<forall>k\<in>{24325, 24325 + 1, 24325 + 2}. late_in (belem_date 1805554800000000) (cycle_contributions 4 1 (club_db late_months [joined])) k"
    unfolding cs b
    by (simp add: late_in_def late_months_def monthly_simps overdue_on_def first_of_month flip: first_days) (simp add: first_days first_of_month monthly_def)
qed

theorem entry_owes_each_month_once_witness:
  "\<exists>cs db'. ensure_contributions_for_entry 0 4 1 739990 (club_db [] []) = Inr (cs, db')
    \<and> map con_amount cs = [15000, 15000] \<and> ensure_contributions_for_entry 5 4 1 739990 db' = Inr (cs, db')"
proof -
  have "case ensure_contributions_for_entry 0 4 1 739990 (club_db [] []) of Inl _ \<Rightarrow> False | Inr y \<Rightarrow> map con_amount (fst y) = [15000, 15000]"
    by code_simp
  then obtain cs db' where e: "ensure_contributions_for_entry 0 4 1 739990 (club_db [] []) = Inr (cs, db')"
    "map con_amount cs = [15000, 15000]" by (cases "ensure_contributions_for_entry 0 4 1 739990 (club_db [] [])") auto
  from entry_owes_each_month_once [OF e(1), of 5] have "ensure_contributions_for_entry 5 4 1 739990 db' = Inr (cs, db')" by blast
  with e show ?thesis by (intro exI [of _ cs] exI [of _ db'] conjI)
qed

end
