(* ===== verification/Membership_Refinement.thy ===== *)
theory Membership_Refinement
  imports Foundation_Properties
begin

text \<open>
  What the cycle promises its members, in a few lines: who takes part, how many units of each cycle are sold, and of how many. Every
  operation of the cycle and participation services is a sequence of steps of this specification.
\<close>

section \<open>The specification\<close>

datatype membership = Outside | Active | Blocked | Left

record club =
  clb_members :: "int \<times> int \<Rightarrow> membership"
  clb_sold :: "int \<Rightarrow> decimal"
  clb_capacity :: "int \<Rightarrow> int option"

inductive promised :: "club \<Rightarrow> club \<Rightarrow> bool" where
  opens: "clb_capacity s j = None \<Longrightarrow> clb_sold s j = 0 \<Longrightarrow> 0 \<le> n \<Longrightarrow> promised s (s\<lparr>clb_capacity := (clb_capacity s)(j \<mapsto> n)\<rparr>)"
| sells: "clb_members s (i, j) \<in> {Outside, Active} \<Longrightarrow> clb_capacity s j = Some n \<Longrightarrow> 0 < units \<Longrightarrow> clb_sold s j + of_int units \<le> of_int n
    \<Longrightarrow> promised s (s\<lparr>clb_sold := (clb_sold s)(j := clb_sold s j + of_int units)\<rparr>)"
| joins: "clb_members s k = Outside \<Longrightarrow> promised s (s\<lparr>clb_members := (clb_members s)(k := Active)\<rparr>)"
| blocks: "clb_members s k = Active \<Longrightarrow> promised s (s\<lparr>clb_members := (clb_members s)(k := Blocked)\<rparr>)"
| leaves: "clb_members s k = Active \<Longrightarrow> promised s (s\<lparr>clb_members := (clb_members s)(k := Left)\<rparr>)"

section \<open>What the tables say\<close>

definition membership_of :: "participation_row \<Rightarrow> membership" where
  "membership_of r = (if cpa_status r = ''ACTIVE'' then Active else if cpa_status r = ''BLOCKED_DELINQUENCY'' then Blocked else Left)"

definition club_of :: "'a database_scheme \<Rightarrow> club" where
  "club_of db = \<lparr>clb_members = (\<lambda>(i, j). case participations_of i j db of [] \<Rightarrow> Outside | r # _ \<Rightarrow> membership_of r),
     clb_sold = (\<lambda>j. cycle_units j db), clb_capacity = (\<lambda>j. map_option cyc_max_quotas (get_by cyc_id j (db_cycles db)))\<rparr>"

lemma club_of_same:
  assumes "db_participations db' = db_participations db" "db_quotas db' = db_quotas db" "db_cycles db' = db_cycles db"
  shows "club_of db' = club_of db"
  using assms by (simp add: club_of_def participations_of_def cycle_units_def)

lemma club_of_accounts [simp]: "club_of (db\<lparr>db_accounts := acc\<rparr>) = club_of db"
  by (rule club_of_same) simp_all

lemma participation_promised:
  fixes db :: "'a database_scheme"
  assumes "participation now i j e db = Inr (row, db')"
  shows "promised\<^sup>*\<^sup>* (club_of db) (club_of db') \<and> clb_members (club_of db') (i, j) = membership_of row"
  using assms
proof (cases rule: participation_cases)
  case found
  then show ?thesis by (simp add: club_of_def)
next
  case added
  have "participations_of k l db' = (if (k, l) = (i, j) then [row] else participations_of k l db)" for k l
    using added(1) by (auto simp: added(2,3) participations_of_def new_participation_def)
  then have eq: "club_of db' = (club_of db)\<lparr>clb_members := (clb_members (club_of db))((i, j) := Active)\<rparr>"
    by (auto simp: club_of_def fun_eq_iff membership_of_def added(2,3) new_participation_def cycle_units_def)
  have "clb_members (club_of db) (i, j) = Outside" using added(1) by (simp add: club_of_def)
  from promised.joins [OF this] show ?thesis unfolding eq [symmetric]
    by (auto simp: eq membership_of_def added(2) new_participation_def)
qed

text \<open>Closing a participation changes the entry of its member only.\<close>

lemma close_register:
  fixes db db' :: database
  assumes rows: "rows_ok (db_participations db)" and r0: "participations_of i j db = [r0]" "cpa_id row = cpa_id r0" "row_key row = row_key r0"
    and ps: "db_participations db' = put_by cpa_id row (db_participations db)" "db_quotas db' = db_quotas db" "db_cycles db' = db_cycles db"
  shows "club_of db' = (club_of db)\<lparr>clb_members := (clb_members (club_of db))((i, j) := membership_of row)\<rparr>"
proof -
  define f where "f = (\<lambda>x. if cpa_id x = cpa_id row then row else x)"
  have mem: "r0 \<in> set (db_participations db)" "row_key r0 = (i, j)" using participations_of_iff [OF rows] r0(1) by auto
  have f: "f x = (if x = r0 then row else x)" if "x \<in> set (db_participations db)" for x
    using distinct_map_unique [of cpa_id "db_participations db" x r0] rows mem(1) that r0(2) by (auto simp: f_def rows_ok_def)
  have key: "row_key (f x) = row_key x" if "x \<in> set (db_participations db)" for x using f [OF that] r0(3) by simp
  have "participations_of k l db' = map f (participations_of k l db)" for k l
  proof -
    have "participations_of k l db' = filter (\<lambda>r. row_key r = (k, l)) (map f (db_participations db))"
      by (simp add: participations_of_def ps(1) put_by_def f_def)
    also have "\<dots> = map f (filter (\<lambda>r. row_key (f r) = (k, l)) (db_participations db))" by (simp add: filter_map comp_def)
    also have "filter (\<lambda>r. row_key (f r) = (k, l)) (db_participations db) = participations_of k l db"
      unfolding participations_of_def by (rule filter_cong) (use key in auto)
    finally show ?thesis .
  qed
  moreover have "map f (participations_of k l db) = participations_of k l db" if "(k, l) \<noteq> (i, j)" for k l
  proof (rule map_idI)
    fix x assume "x \<in> set (participations_of k l db)"
    then have "x \<in> set (db_participations db)" "row_key x = (k, l)" by (auto simp: participations_of_def)
    with f mem(2) that show "f x = x" by auto
  qed
  moreover have "map f (participations_of i j db) = [row]" using f [OF mem(1)] r0(1) by simp
  ultimately have "participations_of k l db' = (if (k, l) = (i, j) then [row] else participations_of k l db)" for k l by simp
  then show ?thesis using ps(2,3) by (auto simp: club_of_def fun_eq_iff cycle_units_def)
qed

lemma closing_promised:
  fixes db db1 db' :: database
  assumes p: "participation now i j None (db\<lparr>db_accounts := acc\<rparr>) = Inr (row0, db1)" and ok: "club_ok db"
    and row: "cpa_status row0 = ''ACTIVE''" "cpa_id row = cpa_id row0" "row_key row = row_key row0" "cpa_status row \<noteq> ''ACTIVE''"
    and ps: "db_participations db' = put_by cpa_id row (db_participations db1)" "db_quotas db' = db_quotas db" "db_cycles db' = db_cycles db"
  shows "promised\<^sup>*\<^sup>* (club_of db) (club_of db')"
proof -
  note first = participation_promised [OF p, simplified]
  have rows: "rows_ok (db_participations db1)" using ok_participation [OF club_ok_accounts [OF ok] p] by (simp add: club_ok_def)
  have "club_of db' = (club_of db1)\<lparr>clb_members := (clb_members (club_of db1))((i, j) := membership_of row)\<rparr>"
    by (rule close_register [OF rows _ row(2,3) ps(1)]) (use participation_Inr [OF p] ps in simp_all)
  moreover have "clb_members (club_of db1) (i, j) = Active" using first row(1) by (simp add: membership_of_def)
  moreover have "membership_of row \<in> {Blocked, Left}" using row(4) by (simp add: membership_of_def)
  ultimately have "promised (club_of db1) (club_of db')" by (auto intro: promised.blocks promised.leaves)
  with first show ?thesis by (meson rtranclp.rtrancl_into_rtrancl)
qed

section \<open>Every operation keeps the promise\<close>

lemma ensure_promised:
  "ensure_active_participation now i j e db = Inr (row, db') \<Longrightarrow> promised\<^sup>*\<^sup>* (club_of db) (club_of db')"
  by (elim ensure_active_run) (use participation_promised in fastforce)

lemma contribution_promised:
  fixes db0 :: "'a database_scheme"
  assumes "create_contribution now i j competence entry db0 = Inr (c, db')"
  shows "promised\<^sup>*\<^sup>* (club_of db0) (club_of db')"
  using assms
proof (rule create_contribution_run)
  fix row db
  assume "ensure_active_participation now i j (Some entry) db0 = Inr (row, db)"
  moreover assume "contributions_for i j competence db = [c] \<and> db' = db
     \<or> contributions_for i j competence db = [] \<and> con_id c = next_id con_id (db_contributions db) \<and> con_member_id c = i
       \<and> con_cycle_id c = Some j \<and> con_competence c = competence \<and> con_status c = ''PENDING'' \<and> con_paid_amount c = Some 0
       \<and> con_cancelled_at c = None \<and> (\<exists>due. due_date_of competence = Inr due \<and> con_due_date c = Some due)
       \<and> db' = db\<lparr>db_contributions := db_contributions db @ [c]\<rparr>"
  then have "club_of db' = club_of db" by (auto intro: club_of_same)
  ultimately show ?thesis using ensure_promised by simp
qed

lemma entry_promised:
  assumes "ensure_contributions_for_entry now i j entry db0 = Inr (cs, db')"
  shows "promised\<^sup>*\<^sup>* (club_of db0) (club_of db')"
proof -
  from assms obtain cycle row db where r: "ensure_active_participation now i j (Some entry) db0 = Inr (row, db)"
    "fold_res (add_month now i j cycle entry) [0..months_through cycle entry - 1] ([], db) = Inr (cs, db')"
    by (auto simp: ensure_contributions_for_entry_def res_bind_eq_Inr)
  have "promised\<^sup>*\<^sup>* (club_of db0) (club_of (snd (cs, db')))"
  proof (rule fold_res_invariant [OF r(2)])
    show "promised\<^sup>*\<^sup>* (club_of db0) (club_of (snd ([], db)))" using ensure_promised [OF r(1)] by simp
    fix offset u v assume u: "promised\<^sup>*\<^sup>* (club_of db0) (club_of (snd u))" and "add_month now i j cycle entry offset u = Inr v"
    then obtain competence c where "create_contribution now i j competence entry (snd u) = Inr (c, snd v)"
      by (cases u) (auto simp: add_month_def res_bind_eq_Inr)
    from rtranclp_trans [OF u contribution_promised [OF this]] show "promised\<^sup>*\<^sup>* (club_of db0) (club_of (snd v))" .
  qed
  then show ?thesis by simp
qed

lemma evaluate_promised:
  fixes db :: database
  assumes ok: "club_ok db" and run: "evaluate_delinquency now i j eff db = Inr (row, db')"
  shows "promised\<^sup>*\<^sup>* (club_of db) (club_of db')"
proof -
  have ids: "distinct (map con_id (db_contributions db))" using ok by (simp add: club_ok_def contributions_ok_def)
  from run ids show ?thesis
  proof (cases rule: evaluate_cases)
    case (unchanged acc)
    with participation_promised show ?thesis by fastforce
  next
    case (blocked acc t row0 db1 es)
    then show ?thesis by (intro closing_promised [OF blocked(1) ok blocked(2) _ _ _ blocked(4,7,8)]) (simp_all add: blocked_row_def)
  qed
qed

lemma exit_promised:
  fixes db :: database
  assumes ok: "club_ok db" and run: "voluntary_exit now i j eff actor db = Inr (row, db')"
  shows "promised\<^sup>*\<^sup>* (club_of db) (club_of db')"
proof -
  have ids: "distinct (map con_id (db_contributions db))" using ok by (simp add: club_ok_def contributions_ok_def)
  obtain acc t row0 db1 where e: "participation now i j None (db\<lparr>db_accounts := acc\<rparr>) = Inr (row0, db1)"
    "cpa_status row0 = ''ACTIVE''" "row = exited_row t row0" "db_participations db' = put_by cpa_id row (db_participations db1)"
    "db_quotas db' = db_quotas db" "db_cycles db' = db_cycles db"
    by (rule exit_run [OF run ids]) (rule that, assumption+)
  then show ?thesis by (intro closing_promised [OF e(1) ok e(2) _ _ _ e(4-6)]) (simp_all add: exited_row_def)
qed

lemma snapshot_promised:
  assumes "materialize_active_charges now i j eff db0 = Inr (n, db')"
  shows "promised\<^sup>*\<^sup>* (club_of db0) (club_of db')"
  using assms
proof (rule snapshot_run)
  fix acc row db civil cs
  assume p: "participation now i j None (db0\<lparr>db_accounts := acc\<rparr>) = Inr (row, db)"
    and run: "fold_res (snapshot_charges now civil row) cs (0, db) = Inr (n, db')"
  have "club_of (snd (n, db')) = club_of db"
  proof (rule fold_res_invariant [OF run])
    fix c u v assume u: "club_of (snd u) = club_of db" and "snapshot_charges now civil row c u = Inr v"
    from snapshot_step [OF this(2)] show "club_of (snd v) = club_of db"
      using u by (elim disjE exE conjE) (auto dest!: insert_charge_event_Inr intro: trans [OF club_of_same])
  qed simp
  with participation_promised [OF p] show ?thesis by simp
qed

lemma quota_promised:
  fixes db :: database
  assumes ok: "club_ok db" and run: "create_quota i j units db = Inr (q, db')"
  shows "promised\<^sup>*\<^sup>* (club_of db) (club_of db')"
proof -
  have quotas: "quotas_ok db" and rows: "rows_ok (db_participations db)" using ok by (simp_all add: club_ok_def)
  from create_quota_effect [OF run quotas] obtain c where q: "db' = db\<lparr>db_quotas := db_quotas db @ [q]\<rparr>" "quo_cycle_id q = Some j"
    "quo_units q = of_int units" "c \<in> set (db_cycles db)" "cyc_id c = j" "cycle_units j db + of_int units \<le> of_int (cyc_max_quotas c)"
    and active: "list_all (\<lambda>r. cpa_status r = ''ACTIVE'') (participations_of i j db)" by blast
  have "0 < units" using run by (auto simp: create_quota_def split: if_splits)
  moreover have "get_by cyc_id j (db_cycles db) = Some c"
  proof (cases "get_by cyc_id j (db_cycles db)")
    case None
    with q(4,5) show ?thesis by (auto simp: get_by_None_iff)
  next
    case (Some k)
    with get_by_Some_mem [OF Some] q(4,5) quotas distinct_map_unique [of cyc_id "db_cycles db" k c] show ?thesis by (simp add: quotas_ok_def)
  qed
  then have "clb_capacity (club_of db) j = Some (cyc_max_quotas c)" by (simp add: club_of_def)
  moreover have "clb_members (club_of db) (i, j) \<in> {Outside, Active}"
    using active by (auto simp: club_of_def membership_of_def split: list.splits)
  moreover have "clb_sold (club_of db) j + of_int units \<le> of_int (cyc_max_quotas c)" using q(6) by (simp add: club_of_def)
  ultimately have "promised (club_of db) ((club_of db)\<lparr>clb_sold := (clb_sold (club_of db))(j := clb_sold (club_of db) j + of_int units)\<rparr>)"
    by (intro promised.sells)
  also have "(club_of db)\<lparr>clb_sold := (clb_sold (club_of db))(j := clb_sold (club_of db) j + of_int units)\<rparr> = club_of db'"
    by (auto simp: club_of_def q(1-3) cycle_units_other fun_eq_iff participations_of_def)
  finally show ?thesis by (rule r_into_rtranclp)
qed

lemma first_cycle_promised:
  fixes db :: database
  assumes ok: "club_ok db" and run: "ensure_first_cycle [] db = Inr (c, db')"
  shows "promised\<^sup>*\<^sup>* (club_of db) (club_of db')"
proof (cases "db' = db")
  case False
  with run have c: "db' = db\<lparr>db_cycles := db_cycles db @ [c]\<rparr>" "cyc_id c = next_id cyc_id (db_cycles db)" "cyc_max_quotas c = 50"
    by (auto simp: ensure_first_cycle_def starting_first_def res_bind_eq_Inr Let_def FIRST_CYCLE_MAX_QUOTAS_def split: option.splits)
  note fresh = next_id_notin [of cyc_id "db_cycles db"]
  have none: "get_by cyc_id (cyc_id c) (db_cycles db) = None" using fresh c(2) by (metis get_by_None_iff image_eqI)
  have q: "quotas_ok db" using ok by (simp add: club_ok_def)
  with fresh c(2) have "filter (\<lambda>q. quo_cycle_id q = Some (cyc_id c)) (db_quotas db) = []"
    by (fastforce simp: quotas_ok_def list_all_iff filter_empty_conv)
  then have zero: "cycle_units (cyc_id c) db = 0" by (simp only: cycle_units_def list.map sum_list.Nil)
  have "promised (club_of db) ((club_of db)\<lparr>clb_capacity := (clb_capacity (club_of db))(cyc_id c \<mapsto> 50)\<rparr>)"
    by (rule promised.opens) (simp_all add: club_of_def none zero)
  also have "(club_of db)\<lparr>clb_capacity := (clb_capacity (club_of db))(cyc_id c \<mapsto> 50)\<rparr> = club_of db'"
    using none by (auto simp: club_of_def c(1,3) get_by_append fun_eq_iff participations_of_def cycle_units_def split: option.splits)
  finally show ?thesis by (rule r_into_rtranclp)
qed simp

lemma step_promised:
  assumes "club_step db db'" "club_ok db"
  shows "promised\<^sup>*\<^sup>* (club_of db) (club_of db')"
  using assms(1)
  by cases (blast intro: first_cycle_promised [OF assms(2)] quota_promised [OF assms(2)] contribution_promised entry_promised
      evaluate_promised [OF assms(2)] snapshot_promised exit_promised [OF assms(2)])+



end
