(* ===== verification/Payment_Financial_Events.thy ===== *)
theory Payment_Financial_Events
  imports Payment_Event_Periods Cycle_Closing
begin

text \<open>
  The read-only stream of payment events, \<open>services/payment_financial_events.py\<close>: the signed components of every
  settlement whose payment and obligation are consistent, and of every reversal with valid evidence, each in the period its own
  evidence places it in. The verification of receipts is the parameter \<open>vf\<close>; amounts are the columns' cents.
\<close>

section \<open>Events\<close>

record financial_event =
  fe_event_id :: string
  fe_payment_id :: int
  fe_settlement_id :: int
  fe_reversal_id :: "int option"
  fe_component :: string
  fe_amount :: cents
  fe_occurred_at :: instant
  fe_source :: string
  fe_semantics :: event_semantics
  fe_financial_date :: "date option"
  fe_event_kind :: event_kind
  fe_evidence_status :: evidence_status
  fe_obligation_type :: string

definition settlement_components :: "settlement_row \<Rightarrow> (string \<times> cents) list" where
  "settlement_components s =
     (if stl_obligation_type s = ''CONTRIBUTION'' then [(''CONTRIBUTION'', stl_amount_applied s)]
      else if stl_obligation_type s = ''LOAN_INSTALLMENT'' then
        [(''LOAN_PRINCIPAL'', stl_principal_applied s), (''LOAN_INTEREST'', stl_interest_applied s), (''LOAN_PENALTY'', stl_penalty_applied s)]
      else if stl_obligation_type s = ''AGREEMENT_INSTALLMENT'' then [(''AGREEMENT'', stl_amount_applied s)]
      else [])"

text \<open>The payment is approved and names the very obligation of the settlement, and the obligation is the member's.\<close>

definition references :: "payment_row \<Rightarrow> settlement_row \<Rightarrow> int option \<Rightarrow> int option" where
  "references p s target =
     (case target of None \<Rightarrow> None
      | Some i \<Rightarrow> if pay_reference_type p = Some (stl_obligation_type s) \<and> pay_reference_id p = Some (py_str i) then Some i else None)"

definition original_is_consistent :: "settlement_row \<Rightarrow> 'a database_scheme \<Rightarrow> bool" where
  "original_is_consistent s db =
     (case get_by pay_id (stl_payment_id s) (db_payments db) of None \<Rightarrow> False
      | Some p \<Rightarrow>
          if pay_status p \<noteq> ''approved'' then False
          else if stl_obligation_type s = ''CONTRIBUTION'' then
            (case Option.bind (references p s (stl_contribution_id s)) (\<lambda>i. get_by con_id i (db_contributions db)) of
               None \<Rightarrow> False | Some c \<Rightarrow> con_member_id c = stl_member_id s)
          else if stl_obligation_type s = ''LOAN_INSTALLMENT'' then
            (case Option.bind (Option.bind (references p s (stl_loan_installment_id s)) (\<lambda>i. get_by ins_id i (db_installments db)))
                (\<lambda>i. get_by loan_id (ins_loan_id i) (db_loans db)) of
               None \<Rightarrow> False | Some l \<Rightarrow> loan_member_id l = stl_member_id s)
          else if stl_obligation_type s = ''AGREEMENT_INSTALLMENT'' then
            (case Option.bind (Option.bind (references p s (stl_agreement_installment_id s)) (\<lambda>i. get_by agi_id i (db_agreement_installments db)))
                (\<lambda>i. get_by agr_id (agi_agreement_id i) (db_agreements db)) of
               None \<Rightarrow> False | Some a \<Rightarrow> agr_member_id a = stl_member_id s)
          else False)"

definition event_suffix :: "int option \<Rightarrow> string" where
  "event_suffix reversal_id = (case reversal_id of None \<Rightarrow> '':original'' | Some r \<Rightarrow> '':reversal:'' @ py_str r)"

text \<open>\<open>_event\<close>; every call passes an identity. A component of zero has no event.\<close>

definition financial_event_of ::
    "settlement_row \<Rightarrow> string \<Rightarrow> int option \<Rightarrow> period_identity \<Rightarrow> string \<times> cents \<Rightarrow> financial_event option" where
  "financial_event_of s source reversal_id identity component =
     (if snd component = 0 then None
      else Some \<lparr>fe_event_id = ''settlement:'' @ py_str (stl_id s) @ '':'' @ fst component @ event_suffix reversal_id,
        fe_payment_id = stl_payment_id s, fe_settlement_id = stl_id s, fe_reversal_id = reversal_id, fe_component = fst component,
        fe_amount = snd component, fe_occurred_at = pid_timestamp identity, fe_source = source,
        fe_semantics = pid_semantics identity, fe_financial_date = pid_financial_date identity,
        fe_event_kind = pid_kind identity, fe_evidence_status = pid_evidence identity,
        fe_obligation_type = pid_obligation_type identity\<rparr>)"

section \<open>Candidates\<close>

definition at_or_after :: "'t::linorder option \<Rightarrow> 't \<Rightarrow> bool" where
  "at_or_after bound t = (case bound of None \<Rightarrow> True | Some b \<Rightarrow> b \<le> t)"

definition before_end :: "'t::linorder option \<Rightarrow> 't \<Rightarrow> bool" where
  "before_end bound t = (case bound of None \<Rightarrow> True | Some b \<Rightarrow> t < b)"

text \<open>The filter of \<open>_candidate_query\<close> on one row; a comparison with an empty civil date is not true.\<close>

definition candidate_row ::
    "instant option \<Rightarrow> instant option \<Rightarrow> date option \<Rightarrow> date option \<Rightarrow> string \<Rightarrow> bool
      \<Rightarrow> instant \<Rightarrow> date option \<Rightarrow> string \<Rightarrow> bool" where
  "candidate_row start stop financial_start financial_end temporal_version partial_window timestamp financial_date version =
     (let clauses =
        (if start = None \<and> stop = None then [] else [at_or_after start timestamp \<and> before_end stop timestamp])
        @ (if financial_start = None \<and> financial_end = None then []
           else [case financial_date of None \<Rightarrow> False | Some d \<Rightarrow> at_or_after financial_start d \<and> before_end financial_end d])
        @ (if partial_window then
             [version = temporal_version \<and> at_or_after (map_option (\<lambda>t. t - day_us) start) timestamp
               \<and> before_end (map_option (\<lambda>t. t + day_us) stop) timestamp]
           else [])
      in clauses = [] \<or> True \<in> set clauses)"

record event_window =
  ew_start :: "instant option"
  ew_stop :: "instant option"
  ew_financial_start :: "date option"
  ew_financial_end :: "date option"
  ew_partial :: bool

text \<open>The guards and the resolution of the bounds.\<close>

definition resolve_window ::
    "datetime option \<Rightarrow> datetime option \<Rightarrow> date option \<Rightarrow> date option \<Rightarrow> event_window res" where
  "resolve_window start stop financial_start financial_end =
     (let utc_start = map_option stored_utc start; utc_end = map_option stored_utc stop;
          explicit = (financial_start \<noteq> None \<or> financial_end \<noteq> None);
          subday = (\<lambda>b. case b of None \<Rightarrow> False | Some t \<Rightarrow> t mod day_us \<noteq> 0);
          partial_window = (subday utc_start \<or> subday utc_end) \<and> \<not> explicit
      in if (case (utc_start, utc_end) of (Some a, Some b) \<Rightarrow> b < a | _ \<Rightarrow> False) then
           Inl (ValueError ''UTC event window end precedes start'')
         else if explicit \<and> (utc_start = None \<or> utc_end = None) then
           Inl (ValueError ''explicit financial DATE bounds require matching UTC bounds for legacy events'')
         else res_bind (if partial_window then Inr (None, None)
             else civil_date_window (map_option Aware utc_start) (map_option Aware utc_end) financial_start financial_end)
           (\<lambda>(lower, upper). Inr \<lparr>ew_start = utc_start, ew_stop = utc_end, ew_financial_start = lower,
              ew_financial_end = upper, ew_partial = partial_window\<rparr>))"

definition in_window :: "event_window \<Rightarrow> period_identity \<Rightarrow> bool res" where
  "in_window w identity = event_is_in_period identity (map_option Aware (ew_start w)) (map_option Aware (ew_stop w))
     (ew_financial_start w) (ew_financial_end w)"

definition candidate_settlements :: "event_window \<Rightarrow> int option \<Rightarrow> 'a loan_tables_scheme \<Rightarrow> settlement_row list" where
  "candidate_settlements w member db = sort_key stl_id (filter (\<lambda>s.
     (case member of None \<Rightarrow> True | Some m \<Rightarrow> stl_member_id s = m)
     \<and> candidate_row (ew_start w) (ew_stop w) (ew_financial_start w) (ew_financial_end w) ''v6'' (ew_partial w)
         (stored_utc (stl_confirmed_at s)) (stl_financial_date s) (stl_receipt_version s)) (db_settlements db))"

definition candidate_reversals :: "event_window \<Rightarrow> 'a loan_tables_scheme \<Rightarrow> reversal_row list" where
  "candidate_reversals w db = sort_key rev_id (filter (\<lambda>r.
     candidate_row (ew_start w) (ew_stop w) (ew_financial_start w) (ew_financial_end w) ''v2'' (ew_partial w)
       (stored_utc (rev_reversed_at r)) (rev_financial_date r) (rev_receipt_version r)) (db_reversals db))"

section \<open>The stream\<close>

text \<open>A record that cannot be interpreted has no event; any other error of the classification is the caller's.\<close>

definition supported_or_none :: "'i option res \<Rightarrow> 'i option res" where
  "supported_or_none r = (case r of Inl (UnsupportedPaymentEventVersion _) \<Rightarrow> Inr None | _ \<Rightarrow> r)"

type_synonym reversal_candidate = "reversal_row \<times> settlement_row \<times> period_identity"

definition reversal_candidate_step ::
    "verifier \<Rightarrow> event_window \<Rightarrow> int option \<Rightarrow> 'a database_scheme \<Rightarrow> reversal_row
      \<Rightarrow> settlement_row list \<times> reversal_candidate list \<Rightarrow> (settlement_row list \<times> reversal_candidate list) res" where
  "reversal_candidate_step vf w member db r state =
     (let (by_settlement, candidates) = state;
          fetched = (case get_by stl_id (rev_settlement_id r) (db_settlements db) of None \<Rightarrow> None
            | Some s \<Rightarrow> if (case member of None \<Rightarrow> False | Some m \<Rightarrow> stl_member_id s \<noteq> m) then None else Some s);
          found = (case get_by stl_id (rev_settlement_id r) by_settlement of
              Some s \<Rightarrow> Some (s, by_settlement)
            | None \<Rightarrow> map_option (\<lambda>s. (s, by_settlement @ [s])) fetched)
      in case found of None \<Rightarrow> Inr state
         | Some (s, by_settlement') \<Rightarrow>
             res_bind (supported_or_none (classify_reversal_event vf (db_settlements db) r)) (\<lambda>identity.
             case identity of None \<Rightarrow> Inr (by_settlement', candidates)
             | Some i \<Rightarrow>
                 res_bind (in_window w i) (\<lambda>inside.
                 Inr (by_settlement', if inside then candidates @ [(r, s, i)] else candidates))))"

definition original_events ::
    "verifier \<Rightarrow> event_window \<Rightarrow> 'a database_scheme \<Rightarrow> settlement_row \<Rightarrow> financial_event list res" where
  "original_events vf w db s =
     (case get_by pay_id (stl_payment_id s) (db_payments db) of None \<Rightarrow> Inr []
      | Some p \<Rightarrow>
          res_bind (supported_or_none (res_bind (classify_settlement_event vf p s) (\<lambda>i. Inr (Some i)))) (\<lambda>identity.
          case identity of None \<Rightarrow> Inr []
          | Some i \<Rightarrow>
              if \<not> original_is_consistent s db then Inr []
              else res_bind (in_window w i) (\<lambda>inside.
                Inr (if inside then List.map_filter (financial_event_of s ''ORIGINAL'' None i) (settlement_components s) else []))))"

definition reversal_events :: "reversal_candidate \<Rightarrow> financial_event list" where
  "reversal_events c =
     (let (r, s, i) = c
      in if pid_evidence i = LEGACY_COMPATIBILITY then []
         else List.map_filter (financial_event_of s ''REVERSAL'' (Some (rev_id r)) i)
           (map (\<lambda>(component, amount). (component, - amount)) (settlement_components s)))"

definition payment_financial_events ::
    "verifier \<Rightarrow> datetime option \<Rightarrow> datetime option \<Rightarrow> int option \<Rightarrow> date option \<Rightarrow> date option \<Rightarrow> 'a database_scheme
      \<Rightarrow> financial_event list res" where
  "payment_financial_events vf start stop member financial_start financial_end db =
     res_bind (resolve_window start stop financial_start financial_end) (\<lambda>w.
     res_bind (fold_res (reversal_candidate_step vf w member db) (candidate_reversals w db) (candidate_settlements w member db, []))
       (\<lambda>(by_settlement, candidates).
     res_bind (map_res (original_events vf w db) by_settlement) (\<lambda>originals.
     Inr (sort_key (\<lambda>e. (fe_occurred_at e, fe_event_id e)) (concat originals @ concat (map reversal_events candidates))))))"

end
