(* ===== verification/Event_Stream_Properties.thy ===== *)
theory Event_Stream_Properties
  imports Payment_Financial_Events Reversal_Properties
begin

text \<open>
  What the stream of payment events says of a settlement: an event is a component of a settlement, and over all times the events of a
  settlement add to what it applied, less once for each reversal that verifies.
\<close>

section \<open>Sums over results\<close>

lemma map_res_sum:
  assumes "map_res f xs = Inr ys" and "\<And>x y. x \<in> set xs \<Longrightarrow> f x = Inr y \<Longrightarrow> g y = (h x :: 'a::comm_monoid_add)"
  shows "(\<Sum>y\<leftarrow>ys. g y) = (\<Sum>x\<leftarrow>xs. h x)"
  using assms
proof (induction xs arbitrary: ys)
  case (Cons x xs)
  from Cons.prems(1) obtain y zs where y: "f x = Inr y" "map_res f xs = Inr zs" "ys = y # zs" by (auto simp: res_bind_eq_Inr)
  then have "sum_list (map g zs) = sum_list (map h xs)" using Cons.IH Cons.prems(2) by simp
  moreover have "g y = h x" using Cons.prems(2) y(1) by simp
  ultimately show ?case by (simp add: y(3))
qed simp

lemma sum_list_permuted: "mset xs = mset ys \<Longrightarrow> (\<Sum>x\<leftarrow>xs. f x) = (\<Sum>y\<leftarrow>ys. f y :: 'a::comm_monoid_add)"
  by (metis mset_map sum_mset_sum_list)

lemma sum_list_one:
  assumes "distinct (map k xs)" "x \<in> set xs"
  shows "(\<Sum>y\<leftarrow>xs. if k y = k x then f y else 0) = (f x :: 'a::comm_monoid_add)"
  using assms
proof (induction xs)
  case (Cons y ys)
  have none: "(\<Sum>z\<leftarrow>zs. if k z = k x then f z else 0) = 0" if "k x \<notin> k ` set zs" for zs
    using that by (induction zs) auto
  have "(\<Sum>z\<leftarrow>ys. if k z = k x then f z else 0) = 0" if "y = x" using Cons.prems(1) that by (intro none) simp
  moreover have "k y \<noteq> k x" if "x \<in> set ys" using Cons.prems(1) that by (auto simp: image_iff)
  ultimately show ?case using Cons by auto
qed simp

lemma get_by_unique: "distinct (map k rows) \<Longrightarrow> get_by k i rows = Some r \<longleftrightarrow> r \<in> set rows \<and> k r = i"
  by (induction rows) (auto simp: get_by_None_iff image_iff dest: get_by_Some_mem)

lemma get_by_permuted:
  assumes "distinct (map k xs)" "mset xs = mset ys"
  shows "get_by k i xs = get_by k i ys"
proof -
  have "distinct (map k ys)" using assms by (metis mset_map mset_eq_imp_distinct_iff)
  then have "get_by k i xs = Some r \<longleftrightarrow> get_by k i ys = Some r" for r
    using assms mset_eq_setD [OF assms(2)] by (simp add: get_by_unique)
  then show ?thesis by (metis option.exhaust)
qed

section \<open>The events of a settlement\<close>

definition event_of :: "settlement_row \<Rightarrow> financial_event \<Rightarrow> bool" where
  "event_of s e \<longleftrightarrow> fe_settlement_id e = stl_id s \<and> fe_amount e \<noteq> 0
     \<and> (fe_component e, if fe_reversal_id e = None then fe_amount e else - fe_amount e) \<in> set (settlement_components s)"

definition applied_to :: "settlement_row \<Rightarrow> string \<Rightarrow> cents" where
  "applied_to s component = (\<Sum>c\<leftarrow>settlement_components s. if fst c = component then snd c else 0)"

text \<open>What a stream moves of one component of one settlement.\<close>

definition moved :: "int \<Rightarrow> string \<Rightarrow> financial_event list \<Rightarrow> cents" where
  "moved i component es = (\<Sum>e\<leftarrow>es. if fe_settlement_id e = i \<and> fe_component e = component then fe_amount e else 0)"

lemma moved_simps [simp]:
  "moved i c [] = 0" "moved i c (es @ fs) = moved i c es + moved i c fs"
  "moved i c (concat ess) = (\<Sum>es\<leftarrow>ess. moved i c es)"
  by (simp_all add: moved_def) (induction ess, simp_all add: moved_def)

lemma moved_parts:
  "moved i c (List.map_filter (financial_event_of s src r identity) parts)
    = (if stl_id s = i then \<Sum>p\<leftarrow>parts. if fst p = c then snd p else 0 else 0)"
  by (induction parts) (auto simp: moved_def financial_event_of_def)

lemma parts_event:
  assumes "e \<in> set (List.map_filter (financial_event_of s src r identity) parts)"
  shows "fe_settlement_id e = stl_id s \<and> fe_reversal_id e = r \<and> fe_amount e \<noteq> 0 \<and> (fe_component e, fe_amount e) \<in> set parts"
  using assms by (induction parts) (auto simp: financial_event_of_def split: if_splits)

text \<open>A settlement is represented when its payment and obligation are consistent and its version is understood.\<close>

definition represented :: "verifier \<Rightarrow> 'a database_scheme \<Rightarrow> settlement_row \<Rightarrow> bool" where
  "represented vf db s \<longleftrightarrow> original_is_consistent s db
     \<and> (case get_by pay_id (stl_payment_id s) (db_payments db) of None \<Rightarrow> False
        | Some p \<Rightarrow> (case classify_settlement_event vf p s of Inl _ \<Rightarrow> False | Inr _ \<Rightarrow> True))"

lemma original_events_Inr:
  assumes "original_events vf w db s = Inr es"
  obtains (none) "\<not> represented vf db s" "es = []"
    | (some) i inside where "represented vf db s" "in_window w i = Inr inside"
      "es = (if inside then List.map_filter (financial_event_of s ''ORIGINAL'' None i) (settlement_components s) else [])"
proof (cases "get_by pay_id (stl_payment_id s) (db_payments db)")
  case None
  with assms none show thesis by (simp add: original_events_def represented_def)
next
  case (Some p)
  show thesis
  proof (cases "classify_settlement_event vf p s")
    case (Inl x)
    then have "es = []" using assms Some by (cases x) (simp_all add: original_events_def supported_or_none_def)
    with none Inl Some show thesis by (simp add: represented_def)
  next
    case (Inr i)
    with assms Some have run: "(if \<not> original_is_consistent s db then Inr []
      else res_bind (in_window w i) (\<lambda>inside.
        Inr (if inside then List.map_filter (financial_event_of s ''ORIGINAL'' None i) (settlement_components s) else []))) = Inr es"
      by (simp add: original_events_def supported_or_none_def)
    show thesis
    proof (cases "original_is_consistent s db")
      case True
      with run obtain inside where "in_window w i = Inr inside"
        "es = (if inside then List.map_filter (financial_event_of s ''ORIGINAL'' None i) (settlement_components s) else [])"
        by (auto simp: res_bind_eq_Inr)
      with some True Some Inr show thesis by (simp add: represented_def)
    next
      case False
      with run none show thesis by (simp add: represented_def)
    qed
  qed
qed

lemma original_events_event:
  assumes "original_events vf w db s = Inr es" "e \<in> set es"
  shows "event_of s e"
  using assms(1)
proof (cases rule: original_events_Inr)
  case (some i inside)
  then have "e \<in> set (List.map_filter (financial_event_of s ''ORIGINAL'' None i) (settlement_components s))"
    using assms(2) by (simp split: if_splits)
  from parts_event [OF this] show ?thesis by (simp add: event_of_def)
qed (use assms(2) in simp)

lemma reversal_events_event: "e \<in> set (reversal_events (r, s, identity)) \<Longrightarrow> event_of s e"
  by (auto simp: reversal_events_def event_of_def split: if_splits dest!: parts_event)

section \<open>The candidates\<close>

definition settled_in :: "'a database_scheme \<Rightarrow> settlement_row list \<times> reversal_candidate list \<Rightarrow> bool" where
  "settled_in db state \<longleftrightarrow> set (fst state) \<subseteq> set (db_settlements db) \<and> (\<forall>c\<in>set (snd state). fst (snd c) \<in> set (db_settlements db))"

lemma candidate_step_Inr:
  assumes "reversal_candidate_step vf w m db r (known, candidates) = Inr state"
  obtains (unknown) "state = (known, candidates)" "get_by stl_id (rev_settlement_id r) known = None"
    | (found) s known' identity where
      "get_by stl_id (rev_settlement_id r) known = Some s \<and> known' = known
        \<or> get_by stl_id (rev_settlement_id r) known = None
          \<and> get_by stl_id (rev_settlement_id r) (db_settlements db) = Some s \<and> known' = known @ [s]"
      "supported_or_none (classify_reversal_event vf (db_settlements db) r) = Inr identity"
      "case identity of None \<Rightarrow> state = (known', candidates)
        | Some i \<Rightarrow> \<exists>inside. in_window w i = Inr inside \<and> state = (known', if inside then candidates @ [(r, s, i)] else candidates)"
proof -
  define fetched where "fetched = (case get_by stl_id (rev_settlement_id r) (db_settlements db) of None \<Rightarrow> None
            | Some s \<Rightarrow> if (case m of None \<Rightarrow> False | Some m \<Rightarrow> stl_member_id s \<noteq> m) then None else Some s)"
  define looked where "looked = (case get_by stl_id (rev_settlement_id r) known of
              Some s \<Rightarrow> Some (s, known) | None \<Rightarrow> map_option (\<lambda>s. (s, known @ [s])) fetched)"
  have step: "(case looked of None \<Rightarrow> Inr (known, candidates)
         | Some (s, by_settlement') \<Rightarrow>
             res_bind (supported_or_none (classify_reversal_event vf (db_settlements db) r)) (\<lambda>identity.
             case identity of None \<Rightarrow> Inr (by_settlement', candidates)
             | Some i \<Rightarrow>
                 res_bind (in_window w i) (\<lambda>inside.
                 Inr (by_settlement', if inside then candidates @ [(r, s, i)] else candidates)))) = Inr state"
    using assms unfolding reversal_candidate_step_def Let_def fetched_def looked_def by (simp only: prod.case)
  show thesis
  proof (cases looked)
    case None
    with step unknown show thesis by (simp add: looked_def split: option.splits)
  next
    case (Some x)
    obtain s known' where x: "x = (s, known')" by force
    have known: "get_by stl_id (rev_settlement_id r) known = Some s \<and> known' = known
        \<or> get_by stl_id (rev_settlement_id r) known = None
          \<and> get_by stl_id (rev_settlement_id r) (db_settlements db) = Some s \<and> known' = known @ [s]"
      using Some by (auto simp: looked_def fetched_def x split: option.splits if_splits)
    from step Some x obtain identity where i:
      "supported_or_none (classify_reversal_event vf (db_settlements db) r) = Inr identity"
      "(case identity of None \<Rightarrow> Inr (known', candidates)
         | Some i \<Rightarrow> res_bind (in_window w i) (\<lambda>inside. Inr (known', if inside then candidates @ [(r, s, i)] else candidates))) = Inr state"
      by (auto simp: res_bind_eq_Inr)
    have "case identity of None \<Rightarrow> state = (known', candidates)
        | Some i \<Rightarrow> \<exists>inside. in_window w i = Inr inside \<and> state = (known', if inside then candidates @ [(r, s, i)] else candidates)"
    proof (cases identity)
      case None
      with i(2) show ?thesis by simp
    next
      case (Some j)
      with i(2) have "res_bind (in_window w j) (\<lambda>inside. Inr (known', if inside then candidates @ [(r, s, j)] else candidates)) = Inr state"
        by simp
      then obtain inside where "in_window w j = Inr inside" "(known', if inside then candidates @ [(r, s, j)] else candidates) = state"
        by (rule res_bind_InrE) (rule that, assumption, simp only: sum.inject)
      then show ?thesis by (simp add: Some)
    qed
    with known i(1) show thesis by (rule found)
  qed
qed

lemma candidate_step_within:
  assumes "reversal_candidate_step vf w m db r state = Inr state'" "settled_in db state"
  shows "settled_in db state'"
proof -
  obtain known candidates where state: "state = (known, candidates)" by force
  from assms(1) [unfolded state] show ?thesis
  proof (cases rule: candidate_step_Inr)
    case unknown
    with assms(2) state show ?thesis by simp
  next
    case (found s known' identity)
    have s: "s \<in> set (db_settlements db)" "set known' \<subseteq> set (db_settlements db)"
      using found(1) assms(2) get_by_Some_mem [of stl_id "rev_settlement_id r"] by (auto simp: settled_in_def state)
    with found(3) assms(2) show ?thesis by (cases identity) (auto simp: settled_in_def state split: if_splits)
  qed
qed

lemma candidates_within:
  assumes "fold_res (reversal_candidate_step vf w m db) rs (candidate_settlements w' m db, []) = Inr state"
  shows "settled_in db state"
proof (rule fold_res_invariant [OF assms])
  show "settled_in db (candidate_settlements w' m db, [])" by (auto simp: candidate_settlements_def settled_in_def)
qed (rule candidate_step_within)

lemma stream_run:
  assumes "payment_financial_events vf start stop m fstart fstop db = Inr es"
  obtains w by_settlement candidates originals where
    "resolve_window start stop fstart fstop = Inr w"
    "fold_res (reversal_candidate_step vf w m db) (candidate_reversals w db) (candidate_settlements w m db, []) = Inr (by_settlement, candidates)"
    "map_res (original_events vf w db) by_settlement = Inr originals"
    "mset es = mset (concat originals @ concat (map reversal_events candidates))"
  using assms by (auto simp: payment_financial_events_def res_bind_eq_Inr)

lemma map_res_mem: "map_res f xs = Inr ys \<Longrightarrow> y \<in> set ys \<Longrightarrow> \<exists>x\<in>set xs. f x = Inr y"
  by (induction xs arbitrary: ys) (auto simp: res_bind_eq_Inr)

lemma stream_events:
  assumes "payment_financial_events vf start stop m fstart fstop db = Inr es" "e \<in> set es"
  shows "\<exists>s\<in>set (db_settlements db). event_of s e"
proof -
  from assms(1) obtain w by_settlement candidates originals where r:
    "fold_res (reversal_candidate_step vf w m db) (candidate_reversals w db) (candidate_settlements w m db, []) = Inr (by_settlement, candidates)"
    "map_res (original_events vf w db) by_settlement = Inr originals"
    "mset es = mset (concat originals @ concat (map reversal_events candidates))"
    by (rule stream_run)
  have inside: "settled_in db (by_settlement, candidates)" using candidates_within [OF r(1)] .
  have "e \<in> set (concat originals @ concat (map reversal_events candidates))" using r(3) assms(2) mset_eq_setD by blast
  then consider (original) xs where "xs \<in> set originals" "e \<in> set xs"
    | (reversal) r s i where "(r, s, i) \<in> set candidates" "e \<in> set (reversal_events (r, s, i))" by auto
  then show ?thesis
  proof cases
    case original
    with map_res_mem [OF r(2)] inside show ?thesis by (fastforce simp: settled_in_def dest: original_events_event)
  next
    case reversal
    with inside show ?thesis by (force simp: settled_in_def dest: reversal_events_event)
  qed
qed

section \<open>Without bounds\<close>

text \<open>A reversal whose evidence verifies, of a version that is understood.\<close>

definition neutralizes :: "verifier \<Rightarrow> settlement_row \<Rightarrow> reversal_row \<Rightarrow> bool" where
  "neutralizes vf s r \<longleftrightarrow> rev_settlement_id r = stl_id s \<and> vf_reversal vf r \<and> rev_receipt_version r \<in> {''v1'', ''v2''}"

abbreviation everything :: event_window where
  "everything \<equiv> \<lparr>ew_start = None, ew_stop = None, ew_financial_start = None, ew_financial_end = None, ew_partial = False\<rparr>"

lemma everything_resolved [simp]: "resolve_window None None None None = Inr everything"
  by (simp add: resolve_window_def civil_date_window_def from_boundary_def Let_def)

lemma everything_candidates [simp]:
  "candidate_settlements everything None db = sort_key stl_id (db_settlements db)"
  "candidate_reversals everything db = sort_key rev_id (db_reversals db)"
  by (simp_all add: candidate_settlements_def candidate_reversals_def candidate_row_def)

lemma everything_inside: "in_window everything i = Inr inside \<Longrightarrow> inside"
  by (auto simp: in_window_def event_is_in_period_def civil_date_window_def from_boundary_def split: if_splits option.splits)

lemma moved_original:
  assumes "original_events vf everything db s = Inr es"
  shows "moved i c es = (if stl_id s = i then if represented vf db s then applied_to s c else 0 else 0)"
  using assms
  by (cases rule: original_events_Inr) (auto simp: moved_parts applied_to_def dest!: everything_inside)

lemma applied_negated:
  "sum_list (map ((\<lambda>p. if fst p = c then snd p else 0) \<circ> (\<lambda>(n, a). (n, - a))) ps) = - (\<Sum>p\<leftarrow>ps. if fst p = c then snd p else (0::int))"
  by (induction ps) auto

lemma moved_reversal:
  "moved i c (reversal_events (r, s, identity))
    = (if stl_id s = i \<and> pid_evidence identity \<noteq> LEGACY_COMPATIBILITY then - applied_to s c else 0)"
  by (simp add: reversal_events_def moved_parts applied_negated applied_to_def)

text \<open>Every reversal that verifies is a candidate; the rest are not, or add nothing.\<close>

lemma classified_reversal:
  assumes "supported_or_none (classify_reversal_event vf settlements r) = Inr identity"
    "get_by stl_id (rev_settlement_id r) settlements \<noteq> None"
  shows "vf_reversal vf r \<and> rev_receipt_version r \<in> {''v1'', ''v2''}
    \<longleftrightarrow> (case identity of None \<Rightarrow> False | Some i \<Rightarrow> pid_evidence i \<noteq> LEGACY_COMPATIBILITY)"
  using assms
  by (auto simp: supported_or_none_def classify_reversal_event_def Let_def LEGACY_REVERSAL_VERSIONS_def REVERSAL_TEMPORAL_VERSION_def
      split: if_splits option.splits)

definition moved_back :: "verifier \<Rightarrow> settlement_row \<Rightarrow> string \<Rightarrow> reversal_row list \<Rightarrow> cents" where
  "moved_back vf s c rs = (\<Sum>r\<leftarrow>rs. if neutralizes vf s r then applied_to s c else 0)"

lemma moved_back_count: "moved_back vf s c rs = applied_to s c * int (length (filter (neutralizes vf s) rs))"
  by (induction rs) (simp_all add: moved_back_def algebra_simps)

lemma candidates_moved:
  assumes run: "fold_res (reversal_candidate_step vf everything None db) rs (known, candidates) = Inr (known', candidates')"
    and known: "distinct (map stl_id (db_settlements db))" "mset known = mset (db_settlements db)" "s \<in> set (db_settlements db)"
  shows "known' = known \<and> (\<Sum>x\<leftarrow>candidates'. moved (stl_id s) c (reversal_events x))
    = (\<Sum>x\<leftarrow>candidates. moved (stl_id s) c (reversal_events x)) - moved_back vf s c rs"
  using run
proof (induction rs arbitrary: candidates)
  case Nil
  then show ?case by (simp add: moved_back_def)
next
  case (Cons r rs)
  from Cons.prems obtain state where
    step: "reversal_candidate_step vf everything None db r (known, candidates) = Inr state"
    and rest: "fold_res (reversal_candidate_step vf everything None db) rs state = Inr (known', candidates')"
    by (auto simp: res_bind_eq_Inr)
  have same: "get_by stl_id i known = get_by stl_id i (db_settlements db)" for i
    using get_by_permuted [OF known(1) known(2) [symmetric], of i] by simp
  from step show ?case
  proof (cases rule: candidate_step_Inr)
    case unknown
    then have "\<not> neutralizes vf s r" using known(3) by (auto simp: neutralizes_def get_by_None_iff same)
    with Cons.IH [of candidates] rest unknown show ?thesis by (simp add: moved_back_def)
  next
    case (found t known'' identity)
    then have t: "get_by stl_id (rev_settlement_id r) (db_settlements db) = Some t" and known'': "known'' = known" by (auto simp: same)
    have "get_by stl_id (stl_id s) (db_settlements db) = Some s" using known(3) get_by_unique [OF known(1)] by blast
    with t get_by_Some_mem [OF t] have this_one: "rev_settlement_id r = stl_id s \<longleftrightarrow> t = s" by (metis option.inject)
    have neutral: "neutralizes vf s r \<longleftrightarrow> t = s \<and> (case identity of None \<Rightarrow> False | Some i \<Rightarrow> pid_evidence i \<noteq> LEGACY_COMPATIBILITY)"
      using classified_reversal [OF found(2)] t by (simp add: neutralizes_def this_one conj_ac)
    show ?thesis
    proof (cases identity)
      case None
      with found(3) rest known'' have "fold_res (reversal_candidate_step vf everything None db) rs (known, candidates) = Inr (known', candidates')"
        by simp
      from Cons.IH [OF this] neutral None show ?thesis by (simp add: moved_back_def)
    next
      case (Some i)
      with found(3) known'' have "state = (known, candidates @ [(r, t, i)])" by (auto dest: everything_inside)
      with rest have "fold_res (reversal_candidate_step vf everything None db) rs (known, candidates @ [(r, t, i)]) = Inr (known', candidates')"
        by simp
      from Cons.IH [OF this] neutral Some this_one show ?thesis
        using t by (auto simp: moved_back_def moved_reversal dest!: get_by_Some_mem)
    qed
  qed
qed

section \<open>What a settlement amounts to\<close>


text \<open>A loan payment settled and reversed: six events, and nothing moved.\<close>

definition trusting :: verifier where
  "trusting = \<lparr>vf_settlement = (\<lambda>_. True), vf_reversal = (\<lambda>_. True)\<rparr>"

definition both_events :: "database \<Rightarrow> bool" where
  "both_events db \<longleftrightarrow> (case payment_financial_events trusting None None None None None db of Inl _ \<Rightarrow> False
     | Inr es \<Rightarrow> length es = 4 \<and> distinct (map stl_id (db_settlements db))
         \<and> (\<forall>s\<in>set (db_settlements db). represented trusting db s \<and> stl_id s = 1 \<and> applied_to s ''LOAN_PRINCIPAL'' = 20000
             \<and> length (filter (neutralizes trusting s) (db_reversals db)) = 1) \<and> db_settlements db \<noteq> [])"

lemma office_stream:
  "case office_settle 8 (office_db 0) of Inl _ \<Rightarrow> False | Inr (s, db1) \<Rightarrow>
     (case office_reverse 8 db1 of Inl _ \<Rightarrow> False | Inr (r, db2) \<Rightarrow> both_events db2)"
  by code_simp


end
