(* ===== verification/Closing_Evidence.thy ===== *)
theory Closing_Evidence
  imports Payment_Financial_Events Cycle_Participation
begin

text \<open>
  The evidence of a closing, read from the database: \<open>_gain_from_event\<close> to \<open>preview_cycle_closing\<close> of
  \<open>services/cycle_closing.py\<close>. The rows of a query without an order are taken in table order. What the model's rows
  do not carry is an argument: \<open>created\<close> is the \<open>created_at\<close> of a late charge event, \<open>unpersisted\<close> the first financial row of the
  session that is not yet stored. Numeric details of a gap are printed as in the code.
\<close>

section \<open>Realized gains\<close>

record realized_gain_row =
  rlz_id :: int
  rlz_cycle_id :: int
  rlz_event_type :: string
  rlz_amount :: cents
  rlz_realized_at :: datetime
  rlz_reversal_of_id :: "int option"

record closing_tables = database +
  db_realized_gains :: "realized_gain_row list"

definition gain_of :: "string \<Rightarrow> string \<Rightarrow> int option \<Rightarrow> cents \<Rightarrow> instant \<Rightarrow> gain_evidence" where
  "gain_of source_id kind cycle_id amount occurred_at =
     \<lparr>ge_source_id = source_id, ge_source_type = ''PAYMENT_SETTLEMENT'', ge_kind = kind, ge_cycle_id = cycle_id,
      ge_amount = dec amount, ge_occurred_at = Aware occurred_at\<rparr>"

definition or_zero :: "cents option \<Rightarrow> cents" where
  "or_zero v = (case v of None \<Rightarrow> 0 | Some a \<Rightarrow> a)"

text \<open>A component that was split in two, each part with the sign of the event; empty parts are left out.\<close>

definition split_gains :: "financial_event \<Rightarrow> int option \<Rightarrow> (string \<times> cents) list \<Rightarrow> gain_evidence list" where
  "split_gains e cycle_id parts =
     map (\<lambda>(kind, amount). gain_of (fe_event_id e @ '':'' @ kind) kind cycle_id ((if fe_amount e < 0 then - amount else amount)) (fe_occurred_at e))
       (filter (\<lambda>(kind, amount). amount \<noteq> 0) parts)"

definition gain_from_event ::
    "financial_event \<Rightarrow> settlement_row \<Rightarrow> int option \<Rightarrow> int option \<Rightarrow> gain_evidence list res" where
  "gain_from_event e s of_contribution of_loan =
     (if fe_component e = ''CONTRIBUTION'' then
        Inr [gain_of (fe_event_id e) ''CONTRIBUTION'' of_contribution (fe_amount e) (fe_occurred_at e)]
      else if fe_component e = ''LOAN_PRINCIPAL'' \<or> fe_component e = ''LOAN_INTEREST'' then
        Inr [gain_of (fe_event_id e) (fe_component e) of_loan (fe_amount e) (fe_occurred_at e)]
      else if fe_component e = ''LOAN_PENALTY'' then
        let fixed = or_zero (stl_fixed_penalty_applied s); late = or_zero (stl_late_interest_applied s)
        in if truthy (stl_component_version s) then
             if fixed + late \<noteq> \<bar>fe_amount e\<bar> then Inl (ClosingContractGap ''PENALTY_COMPONENT_MISMATCH'' (py_str (stl_id s)))
             else Inr (split_gains e of_loan [(''LOAN_FIXED_PENALTY'', fixed), (''LOAN_LATE_INTEREST'', late)])
           else Inr [gain_of (fe_event_id e) ''LOAN_PENALTY'' of_loan (fe_amount e) (fe_occurred_at e)]
      else if fe_component e = ''AGREEMENT'' then
        if stl_principal_applied s + stl_penalty_applied s \<noteq> \<bar>fe_amount e\<bar> then
          Inl (ClosingContractGap ''AGREEMENT_COMPONENT_MISMATCH'' (py_str (stl_id s)))
        else Inr (split_gains e of_loan
          [(''AGREEMENT_PENALTY'', stl_penalty_applied s), (''AGREEMENT_PRINCIPAL'', stl_principal_applied s)])
      else Inr [])"

definition external_gain :: "realized_gain_row \<Rightarrow> gain_evidence res" where
  "external_gain r =
     (let kind = (if rlz_event_type r = ''INVESTMENT_YIELD_REALIZED'' then Some ''INVESTMENT_YIELD''
                  else if rlz_event_type r = ''OTHER_REALIZED_GAIN'' then Some ''OTHER_REALIZED_GAIN'' else None)
      in case kind of None \<Rightarrow> Inl (ClosingContractGap ''UNTYPED_GAIN'' (py_str (rlz_id r)))
         | Some k \<Rightarrow> Inr \<lparr>ge_source_id = ''cycle_realized_gain_event:'' @ py_str (rlz_id r),
             ge_source_type = ''CYCLE_REALIZED_GAIN_EVENT'', ge_kind = k, ge_cycle_id = Some (rlz_cycle_id r),
             ge_amount = dec (if rlz_reversal_of_id r \<noteq> None then - rlz_amount r else rlz_amount r),
             ge_occurred_at = Aware (stored_utc (rlz_realized_at r))\<rparr>)"

section \<open>Amounts as of the cutoff\<close>

definition net_component :: "financial_event list \<Rightarrow> string \<Rightarrow> instant \<Rightarrow> cents" where
  "net_component es component cutoff =
     (\<Sum>e\<leftarrow>filter (\<lambda>e. fe_component e = component \<and> fe_occurred_at e \<le> cutoff) es. fe_amount e)"

definition loan_penalty_as_of :: "(late_event_row \<Rightarrow> datetime) \<Rightarrow> late_event_row list \<Rightarrow> instant \<Rightarrow> date \<Rightarrow> cents" where
  "loan_penalty_as_of created es cutoff civil =
     (let sign = (\<lambda>t. if t \<in> {''FIXED_PENALTY_ASSESSED'', ''LATE_INTEREST_ACCRUED'', ''LATE_INTEREST_ADJUSTMENT_INCREASE''} then 1
                      else if t = ''LATE_INTEREST_ADJUSTMENT_DECREASE'' then - 1 else 0)
      in \<Sum>e\<leftarrow>filter (\<lambda>e. lce_effective_date e \<le> civil \<and> stored_utc (created e) \<le> cutoff) es.
           or_zero (lce_amount e) * sign (lce_event_type e))"

text \<open>A contribution paid before settlements were recorded: by its own date, or by its approved payment.\<close>

definition legacy_payment_proves :: "contribution_row \<Rightarrow> cents \<Rightarrow> payment_row \<Rightarrow> bool" where
  "legacy_payment_proves c current p \<longleftrightarrow> pay_status p = ''approved'' \<and> pay_confirmed_at p \<noteq> None
     \<and> py_upper (text_or_empty (pay_reference_type p)) \<in> {[], ''CONTRIBUTION''}
     \<and> (\<not> truthy (pay_reference_id p) \<or> pay_reference_id p = Some (py_str (con_id c)))
     \<and> (case pay_amount_received p of Some a \<Rightarrow> a | None \<Rightarrow> pay_amount p) = current"

definition cutoff_unprovable :: "contribution_row \<Rightarrow> exn" where
  "cutoff_unprovable c = ClosingContractGap ''LEGACY_CONTRIBUTION_PAYMENT_CUTOFF_UNPROVABLE'' (py_str (con_id c))"

definition legacy_contribution_cash :: "contribution_row \<Rightarrow> 'a loan_tables_scheme \<Rightarrow> cash_evidence option res" where
  "legacy_contribution_cash c db =
     (let current = paid_of c;
          payment = Option.bind (con_payment_id c) (\<lambda>i. get_by pay_id i (db_payments db))
      in if current = 0 \<and> con_status c \<noteq> ''PAID'' then Inr None
         else if current \<noteq> con_amount c then Inl (cutoff_unprovable c)
         else
         res_bind (case con_paid_at c of
             Some t \<Rightarrow> Inr (''contribution:'' @ py_str (con_id c) @ '':legacy_paid_at'', stored_utc t)
           | None \<Rightarrow>
               (case payment of None \<Rightarrow> Inl (cutoff_unprovable c)
                | Some p \<Rightarrow>
                    if \<not> legacy_payment_proves c current p then Inl (cutoff_unprovable c)
                    else Inr (''payment:'' @ py_str (pay_id p) @ '':legacy_contribution'',
                      case pay_confirmed_at p of None \<Rightarrow> 0 | Some t \<Rightarrow> stored_utc t))) (\<lambda>(source_id, paid_at).
         if (case con_payment_id c of None \<Rightarrow> False | Some i \<Rightarrow> list_ex (\<lambda>r. rev_payment_id r = i) (db_reversals db)) then
           Inl (cutoff_unprovable c)
         else Inr (Some \<lparr>ce_event_id = source_id, ce_amount = dec current, ce_occurred_at = Aware paid_at,
           ce_source = ''ORIGINAL'', ce_settlement_id = None\<rparr>)))"

definition reject_unpersisted_financial_state :: "string option \<Rightarrow> unit res" where
  "reject_unpersisted_financial_state unpersisted =
     (case unpersisted of None \<Rightarrow> Inr () | Some name \<Rightarrow> Inl (ClosingContractGap ''UNPERSISTED_FINANCIAL_STATE'' name))"

section \<open>Payments of the cycle's members\<close>

text \<open>\<open>in_scope\<close>: a settlement of a member of the cycle, of one of the cycle's contributions when it is of a contribution.\<close>

definition in_scope :: "int list \<Rightarrow> contribution_row list \<Rightarrow> settlement_row \<Rightarrow> bool" where
  "in_scope members contributions s \<longleftrightarrow> stl_member_id s \<in> set members
     \<and> (stl_obligation_type s = ''CONTRIBUTION'' \<longrightarrow>
          (\<exists>c\<in>set contributions. stl_contribution_id s = Some (con_id c)))"

definition check_represented :: "int list \<Rightarrow> contribution_row list \<Rightarrow> instant \<Rightarrow> financial_event list \<Rightarrow> settlement_row \<Rightarrow> unit res" where
  "check_represented members contributions cutoff es s =
     check (in_scope members contributions s \<and> stored_utc (stl_confirmed_at s) \<le> cutoff \<longrightarrow> stl_id s \<in> fe_settlement_id ` set es)
       (ClosingContractGap ''UNSUPPORTED_PAYMENT_EVIDENCE'' (py_str (stl_id s)))"

definition scoped_events ::
    "int list \<Rightarrow> contribution_row list \<Rightarrow> settlement_row list \<Rightarrow> financial_event list \<Rightarrow> (financial_event \<times> settlement_row) list" where
  "scoped_events members contributions settlements es =
     List.map_filter (\<lambda>e. case get_by stl_id (fe_settlement_id e) settlements of None \<Rightarrow> None
       | Some s \<Rightarrow> if in_scope members contributions s then Some (e, s) else None) es"

definition event_cash :: "(financial_event \<times> settlement_row) list \<Rightarrow> contribution_row \<Rightarrow> cash_evidence list" where
  "event_cash scoped c =
     map (\<lambda>(e, s). \<lparr>ce_event_id = fe_event_id e, ce_amount = dec (fe_amount e), ce_occurred_at = Aware (fe_occurred_at e),
            ce_source = fe_source e, ce_settlement_id = Some (fe_settlement_id e)\<rparr>)
       (filter (\<lambda>(e, s). stl_contribution_id s = Some (con_id c) \<and> fe_component e = ''CONTRIBUTION'') scoped)"

definition installment_events :: "(financial_event \<times> settlement_row) list \<Rightarrow> int \<Rightarrow> financial_event list" where
  "installment_events scoped i = map fst (filter (\<lambda>(e, s). stl_loan_installment_id s = Some i) scoped)"

definition agreement_events :: "(financial_event \<times> settlement_row) list \<Rightarrow> int \<Rightarrow> financial_event list" where
  "agreement_events scoped i = map fst (filter (\<lambda>(e, s). stl_agreement_installment_id s = Some i) scoped)"

text \<open>The cycle of a loan is the one the loan names, when loan, agreement and settlement are the same member's.\<close>

definition loan_cycle :: "settlement_row \<Rightarrow> 'a database_scheme \<Rightarrow> int option" where
  "loan_cycle s db =
     (case stl_loan_installment_id s of
        Some i \<Rightarrow>
          Option.bind (get_by ins_id i (db_installments db)) (\<lambda>inst.
          Option.bind (get_by loan_id (ins_loan_id inst) (db_loans db)) (\<lambda>l.
          if loan_member_id l = stl_member_id s then loan_cycle_id l else None))
      | None \<Rightarrow>
          Option.bind (stl_agreement_installment_id s) (\<lambda>i.
          Option.bind (get_by agi_id i (db_agreement_installments db)) (\<lambda>item.
          Option.bind (get_by agr_id (agi_agreement_id item) (db_agreements db)) (\<lambda>a.
          Option.bind (get_by loan_id (agr_loan_id a) (db_loans db)) (\<lambda>l.
          if agr_member_id a = stl_member_id s \<and> loan_member_id l = stl_member_id s then loan_cycle_id l else None)))))"

definition event_gains ::
    "contribution_row list \<Rightarrow> 'a database_scheme \<Rightarrow> financial_event \<times> settlement_row \<Rightarrow> gain_evidence list res" where
  "event_gains contributions db es =
     (let (e, s) = es
      in gain_from_event e s
           (Option.bind (Option.bind (stl_contribution_id s) (\<lambda>i. get_by con_id i contributions)) con_cycle_id)
           (loan_cycle s db))"

definition event_gaps :: "(financial_event \<times> settlement_row) list \<Rightarrow> (string \<times> string) list" where
  "event_gaps scoped =
     map (\<lambda>(e, s). (''AGREEMENT_BASE_COMPONENT_NOT_CLASSIFIED'', py_str (stl_id s)))
       (filter (\<lambda>(e, s). fe_component e = ''AGREEMENT'' \<and> stl_principal_applied s \<noteq> 0) scoped)"

definition contribution_cash ::
    "(financial_event \<times> settlement_row) list \<Rightarrow> 'a loan_tables_scheme \<Rightarrow> contribution_row \<Rightarrow> (contribution_row \<times> cash_evidence list) res" where
  "contribution_cash scoped db c =
     (if list_ex (\<lambda>s. stl_obligation_type s = ''CONTRIBUTION'' \<and> stl_contribution_id s = Some (con_id c)) (db_settlements db) then
        Inr (c, event_cash scoped c)
      else res_bind (legacy_contribution_cash c db) (\<lambda>legacy.
        Inr (c, event_cash scoped c @ (case legacy of None \<Rightarrow> [] | Some x \<Rightarrow> [x]))))"

section \<open>Obligations of contributions\<close>

definition paid_through :: "instant \<Rightarrow> cash_evidence list \<Rightarrow> cents res" where
  "paid_through cutoff cash =
     res_bind (map_res (\<lambda>c. res_bind (closing_utc (ce_occurred_at c)) (\<lambda>t. Inr (if t \<le> cutoff then ce_amount c else 0))) cash) (\<lambda>amounts.
     Inr (cents (sum_list amounts)))"

definition obligation_of :: "string \<Rightarrow> int \<Rightarrow> string \<Rightarrow> cents \<Rightarrow> date \<Rightarrow> int option \<Rightarrow> int option \<Rightarrow> obligation_evidence" where
  "obligation_of source_id member_id kind amount due loan agreement =
     \<lparr>oe_source_id = source_id, oe_member_id = member_id, oe_kind = kind, oe_amount = dec amount, oe_due_date = due,
      oe_loan_id = loan, oe_agreement_id = agreement\<rparr>"

definition blocked_by :: "instant \<Rightarrow> participation_row list \<Rightarrow> int \<Rightarrow> bool" where
  "blocked_by cutoff participations member_id \<longleftrightarrow>
     (case last_opt (filter (\<lambda>r. cpa_member_id r = member_id) participations) of None \<Rightarrow> False
      | Some r \<Rightarrow> cpa_status r = ''BLOCKED_DELINQUENCY''
          \<and> (case cpa_blocked_at r of None \<Rightarrow> False | Some t \<Rightarrow> stored_utc t \<le> cutoff))"

text \<open>The charges of a contribution assessed by the cutoff, in the order of their dates; the last one counts, of the kind of the
  participation's status.\<close>

definition charges_through :: "instant \<Rightarrow> date \<Rightarrow> contribution_row \<Rightarrow> 'a database_scheme \<Rightarrow> charge_event_row list" where
  "charges_through cutoff civil c db =
     filter (\<lambda>e. cev_accrued_through e \<le> civil \<and> stored_utc (cev_created_at e) \<le> cutoff)
       (sort_key cev_accrued_through (sort_key cev_id (filter (\<lambda>e. cev_contribution_id e = con_id c) (db_charge_events db))))"

definition selected_charge :: "bool \<Rightarrow> charge_event_row list \<Rightarrow> charge_event_row option" where
  "selected_charge blocked charges =
     last_opt (filter (\<lambda>e. cev_event_type e = (if blocked then ''BLOCK_FREEZE'' else ''ACCRUAL_SNAPSHOT'')) charges)"

definition contribution_obligations ::
    "instant \<Rightarrow> date \<Rightarrow> participation_row list \<Rightarrow> 'a database_scheme \<Rightarrow> contribution_row \<times> cash_evidence list
      \<Rightarrow> obligation_evidence list res" where
  "contribution_obligations cutoff civil participations db row =
     (let (c, cash) = row
      in res_bind (paid_through cutoff cash) (\<lambda>paid.
     if paid < 0 \<or> con_amount c < paid then Inl (ClosingContractGap ''CONTRIBUTION_EVIDENCE_MISMATCH'' (py_str (con_id c)))
     else
     let cancelled = (case con_cancelled_at c of None \<Rightarrow> False | Some t \<Rightarrow> stored_utc t \<le> cutoff);
         principal_open = max 0 (con_amount c - paid);
         principal_part = (case con_due_date c of None \<Rightarrow> [] | Some due \<Rightarrow>
           if due \<le> civil \<and> \<not> cancelled \<and> principal_open \<noteq> 0 then
             [obligation_of (''contribution:'' @ py_str (con_id c) @ '':principal'') (con_member_id c) ''CONTRIBUTION_PRINCIPAL''
                principal_open due None None] else []);
         blocked = blocked_by cutoff participations (con_member_id c);
         selected = selected_charge blocked (charges_through cutoff civil c db);
         charge_part = (case selected of None \<Rightarrow> [] | Some e \<Rightarrow>
           if cev_fixed_penalty e + cev_daily_interest e \<noteq> 0 then
             [obligation_of (''contribution_charge:'' @ py_str (cev_id e)) (con_member_id c) ''CONTRIBUTION_CHARGE''
                (cev_fixed_penalty e + cev_daily_interest e) (cev_accrued_through e) None None] else [])
     in if blocked \<and> cancelled \<and> selected = None \<and> paid < con_amount c then
          Inl (ClosingContractGap ''BLOCK_FREEZE_MISSING'' (py_str (con_id c)))
        else Inr (principal_part @ charge_part)))"

section \<open>Agreements that replace loans\<close>

definition applicable_agreements :: "instant \<Rightarrow> int list \<Rightarrow> 'a database_scheme \<Rightarrow> agreement_row list" where
  "applicable_agreements cutoff members db =
     filter (\<lambda>a. agr_status a \<in> {''APPROVED'', ''SETTLED''} \<and> (case agr_decided_at a of None \<Rightarrow> False | Some t \<Rightarrow> stored_utc t \<le> cutoff))
       (sort_key agr_id (filter (\<lambda>a. agr_member_id a \<in> set members) (db_agreements db)))"

definition agreement_items :: "agreement_row list \<Rightarrow> 'a database_scheme \<Rightarrow> agreement_installment_row list" where
  "agreement_items applicable db =
     sort_key agi_agreement_id (sort_key agi_number
       (filter (\<lambda>i. agi_agreement_id i \<in> agr_id ` set applicable) (db_agreement_installments db)))"

definition member_loans :: "int list \<Rightarrow> 'a loan_tables_scheme \<Rightarrow> loan_row list" where
  "member_loans members db = filter (\<lambda>l. loan_member_id l \<in> set members) (db_loans db)"

definition loan_items :: "loan_row list \<Rightarrow> 'a loan_tables_scheme \<Rightarrow> installment_row list" where
  "loan_items loans db = sort_key ins_id (filter (\<lambda>i. ins_loan_id i \<in> loan_id ` set loans) (db_installments db))"

definition structurally_valid ::
    "loan_row list \<Rightarrow> installment_row list \<Rightarrow> agreement_installment_row list \<Rightarrow> int list \<Rightarrow> agreement_row \<Rightarrow> bool" where
  "structurally_valid loans installments items replaced a \<longleftrightarrow>
     (let old = filter (\<lambda>i. ins_loan_id i = agr_loan_id a) installments;
          replacements = filter (\<lambda>i. agi_agreement_id i = agr_id a) items;
          old_open = (\<Sum>i\<leftarrow>filter (\<lambda>i. ins_status i \<noteq> ''PAID'') old.
            ins_amount i - ins_paid_amount i + ins_penalty_amount i - ins_paid_penalty_amount i);
          replacement_total = (\<Sum>i\<leftarrow>replacements. agi_amount i)
      in (case get_by loan_id (agr_loan_id a) loans of None \<Rightarrow> False
          | Some l \<Rightarrow> loan_member_id l = agr_member_id a \<and> loan_status l = ''RESTRUCTURED'')
         \<and> list_ex (\<lambda>i. ins_status i = ''AGREED'') old \<and> list_all (\<lambda>i. ins_status i \<in> {''PAID'', ''AGREED''}) old
         \<and> int (length replacements) = agr_installments a
         \<and> sort (map agi_number replacements) = [1..agr_installments a]
         \<and> list_all (\<lambda>i. agi_amount i = agi_principal i + agi_penalty_amount i) replacements
         \<and> (case agr_decided_at a of None \<Rightarrow> False
            | Some t \<Rightarrow> list_all (\<lambda>i. stored_financial_date t < agi_due_date i) replacements)
         \<and> \<bar>replacement_total - agr_total_amount a\<bar> \<le> 1
         \<and> old_open = replacement_total
         \<and> agr_loan_id a \<notin> set replaced)"

definition replace_loan ::
    "loan_row list \<Rightarrow> installment_row list \<Rightarrow> agreement_installment_row list \<Rightarrow> agreement_row \<Rightarrow> int list \<Rightarrow> int list res" where
  "replace_loan loans installments items a replaced =
     (if structurally_valid loans installments items replaced a then Inr (replaced @ [agr_loan_id a])
      else Inl (ClosingContractGap ''AGREEMENT_RESTRUCTURE_INTEGRITY_GAP'' (py_str (agr_id a))))"

section \<open>Loans settled with own balance\<close>

definition own_balance_gap :: "int \<Rightarrow> exn" where
  "own_balance_gap i = ClosingContractGap ''OWN_BALANCE_SETTLEMENT_RECONCILIATION_GAP'' (py_str i)"

definition own_balance_rows :: "loan_row list \<Rightarrow> 'a books_scheme \<Rightarrow> member_entry_row list" where
  "own_balance_rows loans db =
     sort_key ent_id (filter (\<lambda>e. ent_reference_type e \<in> {Some ''OWN_BALANCE_SETTLEMENT'', Some ''OWN_BALANCE_RENEGOTIATION''}
       \<and> ent_reference_id e \<in> (\<lambda>l. Some (py_str (loan_id l))) ` set loans) (db_entries db))"

text \<open>An entry of own balance belongs to the loan it names, debits it, and is of the loan's member.\<close>

definition own_balance_entry :: "loan_row list \<Rightarrow> 'a books_scheme \<Rightarrow> member_entry_row \<Rightarrow> (int \<times> member_entry_row) res" where
  "own_balance_entry loans db e =
     (case Option.bind (ent_reference_id e) (\<lambda>r.
          if r \<noteq> [] \<and> list_all py_isdigit r then find (\<lambda>l. py_str (loan_id l) = r) loans else None) of
        None \<Rightarrow> Inl (own_balance_gap (ent_id e))
      | Some l \<Rightarrow>
          if Some (ent_entry_type e) \<noteq> ent_reference_type e \<or> ent_direction e \<noteq> ''DEBIT'' then Inl (own_balance_gap (ent_id e))
          else case get_by acc_id (ent_account_id e) (db_accounts db) of
            None \<Rightarrow> Inl (own_balance_gap (ent_id e))
          | Some a \<Rightarrow> if acc_member_id a \<noteq> loan_member_id l then Inl (own_balance_gap (ent_id e)) else Inr (loan_id l, e))"

text \<open>A settled loan is paid at one instant in all its installments, by the own balance and the principal received before.\<close>

definition settled_at_once ::
    "instant \<Rightarrow> loan_row \<Rightarrow> installment_row list \<Rightarrow> (financial_event \<times> settlement_row) list \<Rightarrow> cents \<Rightarrow> bool" where
  "settled_at_once cutoff l items scoped settlement_amount \<longleftrightarrow>
     (case loan_paid_at l of None \<Rightarrow> False
      | Some paid \<Rightarrow>
          loan_status l = ''PAID'' \<and> stored_utc paid \<le> cutoff
          \<and> settlement_amount = loan_principal_settled_with_own_balance l \<and> items \<noteq> []
          \<and> list_all (\<lambda>i. ins_status i = ''PAID'' \<and> (case ins_paid_at i of None \<Rightarrow> False | Some t \<Rightarrow> stored_utc t = stored_utc paid)) items
          \<and> settlement_amount + (\<Sum>i\<leftarrow>items. net_component (installment_events scoped (ins_id i)) ''LOAN_PRINCIPAL'' (stored_utc paid))
            = loan_principal l)"

definition own_balance_settles ::
    "instant \<Rightarrow> installment_row list \<Rightarrow> (financial_event \<times> settlement_row) list \<Rightarrow> (int \<times> member_entry_row) list
      \<Rightarrow> loan_row \<Rightarrow> int list res" where
  "own_balance_settles cutoff installments scoped own l =
     (let entries = map snd (filter (\<lambda>(i, e). i = loan_id l) own);
          projected = loan_principal_settled_with_own_balance l;
          through = filter (\<lambda>e. stored_utc (ent_created_at e) \<le> cutoff) entries;
          settlement_amount = (\<Sum>e\<leftarrow>filter (\<lambda>e. ent_entry_type e = ''OWN_BALANCE_SETTLEMENT'') through. ent_amount e);
          items = filter (\<lambda>i. ins_loan_id i = loan_id l) installments
      in if (\<Sum>e\<leftarrow>entries. ent_amount e) \<noteq> projected then Inl (own_balance_gap (loan_id l))
         else if list_ex (\<lambda>e. ent_entry_type e = ''OWN_BALANCE_RENEGOTIATION'') through then
           Inl (ClosingContractGap ''OWN_BALANCE_PARTIAL_ALLOCATION'' (py_str (loan_id l)))
         else if settlement_amount \<noteq> 0 then
           if settled_at_once cutoff l items scoped settlement_amount then Inr [loan_id l] else Inl (own_balance_gap (loan_id l))
         else if projected \<noteq> 0 \<and> (case loan_paid_at l of None \<Rightarrow> False | Some t \<Rightarrow> stored_utc t \<le> cutoff) then
           Inl (own_balance_gap (loan_id l))
         else Inr [])"

section \<open>Obligations of loans and agreements\<close>

definition penalty_assessed ::
    "(late_event_row \<Rightarrow> datetime) \<Rightarrow> instant \<Rightarrow> date \<Rightarrow> installment_row \<Rightarrow> 'a loan_tables_scheme \<Rightarrow> cents res" where
  "penalty_assessed created cutoff civil i db =
     (if ins_late_charge_version i = None then
        if ins_penalty_amount i \<noteq> 0 \<and> (case ins_last_penalty_date i of None \<Rightarrow> True | Some d \<Rightarrow> civil \<le> d) then
          Inl (ClosingContractGap ''LEGACY_PENALTY_CUTOFF_UNPROVABLE'' (py_str (ins_id i)))
        else Inr (ins_penalty_amount i)
      else Inr (loan_penalty_as_of created (filter (\<lambda>e. lce_installment_id e = ins_id i) (db_late_events db)) cutoff civil))"

definition loan_obligation ::
    "(late_event_row \<Rightarrow> datetime) \<Rightarrow> instant \<Rightarrow> date \<Rightarrow> int list \<Rightarrow> loan_row list \<Rightarrow> (financial_event \<times> settlement_row) list
      \<Rightarrow> 'a loan_tables_scheme \<Rightarrow> installment_row \<Rightarrow> obligation_evidence list res" where
  "loan_obligation created cutoff civil closed_ids loans scoped db i =
     (if ins_loan_id i \<in> set closed_ids \<or> civil < ins_due_date i then Inr []
      else
      let es = installment_events scoped (ins_id i);
          base_paid = net_component es ''LOAN_PRINCIPAL'' cutoff + net_component es ''LOAN_INTEREST'' cutoff;
          penalty_paid = net_component es ''LOAN_PENALTY'' cutoff
      in res_bind (penalty_assessed created cutoff civil i db) (\<lambda>penalty.
      let open_amount = ins_amount i - base_paid + penalty - penalty_paid
      in if open_amount < 0 then Inl (ClosingContractGap ''LOAN_OBLIGATION_EVIDENCE_MISMATCH'' (py_str (ins_id i)))
         else if open_amount = 0 then Inr []
         else case get_by loan_id (ins_loan_id i) loans of None \<Rightarrow> Inl (LookupError ''loan'')
           | Some l \<Rightarrow> Inr [obligation_of (''loan_installment:'' @ py_str (ins_id i)) (loan_member_id l) ''LOAN_INSTALLMENT'' open_amount
               (ins_due_date i) (Some (ins_loan_id i)) None]))"

definition agreement_obligation ::
    "instant \<Rightarrow> date \<Rightarrow> agreement_row list \<Rightarrow> (financial_event \<times> settlement_row) list \<Rightarrow> agreement_installment_row
      \<Rightarrow> obligation_evidence list res" where
  "agreement_obligation cutoff civil applicable scoped i =
     (if civil < agi_due_date i then Inr []
      else
      let open_amount = agi_principal i + agi_penalty_amount i - net_component (agreement_events scoped (agi_id i)) ''AGREEMENT'' cutoff
      in if open_amount < 0 then Inl (ClosingContractGap ''AGREEMENT_OBLIGATION_EVIDENCE_MISMATCH'' (py_str (agi_id i)))
         else if open_amount = 0 then Inr []
         else case get_by agr_id (agi_agreement_id i) applicable of None \<Rightarrow> Inl (LookupError ''agreement'')
           | Some a \<Rightarrow> Inr [obligation_of (''agreement_installment:'' @ py_str (agi_id i)) (agr_member_id a) ''AGREEMENT_INSTALLMENT''
               open_amount (agi_due_date i) (Some (agr_loan_id a)) (Some (agr_id a))])"

section \<open>The evidence\<close>

definition participation_evidence_of :: "participation_row \<Rightarrow> participation_evidence" where
  "participation_evidence_of r = \<lparr>pe_id = cpa_id r, pe_member_id = cpa_member_id r, pe_status = cpa_status r,
     pe_blocked_at = cpa_blocked_at r, pe_voluntary_exit_at = cpa_voluntary_exit_at r\<rparr>"

definition contribution_evidence_of :: "int \<Rightarrow> contribution_row \<times> cash_evidence list \<Rightarrow> contribution_evidence" where
  "contribution_evidence_of cycle_id row = (let (c, cash) = row in
     \<lparr>co_id = con_id c, co_member_id = con_member_id c, co_cycle_id = cycle_id, co_amount = dec (con_amount c),
      co_status = con_status c, co_cancelled_at = con_cancelled_at c, co_events = cash\<rparr>)"

text \<open>Loans: what replaces them, what own balance settled, and what is still open of loans and agreements.\<close>

definition credit_obligations ::
    "(late_event_row \<Rightarrow> datetime) \<Rightarrow> instant \<Rightarrow> date \<Rightarrow> int list \<Rightarrow> (financial_event \<times> settlement_row) list \<Rightarrow> 'a database_scheme
      \<Rightarrow> (int list \<times> int list \<times> obligation_evidence list) res" where
  "credit_obligations created cutoff civil members scoped db =
     (let loans = member_loans members db;
          installments = loan_items loans db;
          applicable = applicable_agreements cutoff members db;
          items = agreement_items applicable db
      in res_bind (fold_res (replace_loan loans installments items) applicable []) (\<lambda>replaced.
         res_bind (map_res (own_balance_entry loans db) (own_balance_rows loans db)) (\<lambda>own.
         res_bind (map_res (own_balance_settles cutoff installments scoped own) loans) (\<lambda>settled.
         res_bind (map_res (loan_obligation created cutoff civil (replaced @ concat settled) loans scoped db) installments) (\<lambda>of_loans.
         res_bind (map_res (agreement_obligation cutoff civil applicable scoped) items) (\<lambda>of_agreements.
         Inr (sort replaced, sort (remdups (concat settled)), concat of_loans @ concat of_agreements)))))))"

definition build_closing_evidence ::
    "verifier \<Rightarrow> (late_event_row \<Rightarrow> datetime) \<Rightarrow> string option \<Rightarrow> int \<Rightarrow> datetime \<Rightarrow> 'a closing_tables_scheme \<Rightarrow> closing_evidence res" where
  "build_closing_evidence vf created unpersisted cycle_id closing_cutoff_at db =
     res_bind (closing_utc closing_cutoff_at) (\<lambda>cutoff.
     res_bind (reject_unpersisted_financial_state unpersisted) (\<lambda>_.
     let civil = belem_date cutoff
     in case get_by cyc_id cycle_id (db_cycles db) of
       None \<Rightarrow> Inl (ValueError ''cycle not found'')
     | Some cycle \<Rightarrow>
     let participations = sort_key cpa_id (filter (\<lambda>r. cpa_cycle_id r = cycle_id) (db_participations db));
         contributions = sort_key con_id (filter (\<lambda>c. con_cycle_id c = Some cycle_id) (db_contributions db));
         members = map cpa_member_id participations
     in res_bind (payment_financial_events vf None None None None None db) (\<lambda>es.
     res_bind (map_res (check_represented members contributions cutoff es) (db_settlements db)) (\<lambda>_.
     let scoped = scoped_events members contributions (db_settlements db) es
     in res_bind (map_res (event_gains contributions db) scoped) (\<lambda>gains.
     res_bind (map_res external_gain (sort_key rlz_id (filter (\<lambda>r. rlz_cycle_id r = cycle_id) (db_realized_gains db)))) (\<lambda>external.
     res_bind (map_res (contribution_cash scoped db) contributions) (\<lambda>cash.
     res_bind (map_res (contribution_obligations cutoff civil participations db) cash) (\<lambda>of_contributions.
     res_bind (credit_obligations created cutoff civil members scoped db) (\<lambda>(superseded, settled, credit).
     Inr \<lparr>ev_cycle_id = cyc_id cycle, ev_cycle_start_date = cyc_start_date cycle, ev_closing_cutoff_at = Aware cutoff,
       ev_participations = map participation_evidence_of participations,
       ev_contributions = map (contribution_evidence_of cycle_id) cash,
       ev_gains = concat gains @ external, ev_obligations = concat of_contributions @ credit,
       ev_superseded_loan_ids = superseded, ev_own_balance_settled_loan_ids = settled,
       ev_source_gaps = event_gaps scoped\<rparr>)))))))))"

definition preview_cycle_closing ::
    "(closing_memory \<Rightarrow> string) \<Rightarrow> verifier \<Rightarrow> (late_event_row \<Rightarrow> datetime) \<Rightarrow> string option \<Rightarrow> int \<Rightarrow> datetime
      \<Rightarrow> 'a closing_tables_scheme \<Rightarrow> closing_memory res" where
  "preview_cycle_closing hash vf created unpersisted cycle_id closing_cutoff_at db =
     res_bind (build_closing_evidence vf created unpersisted cycle_id closing_cutoff_at db) (calculate_cycle_closing hash)"

end
