(* ===== verification/Closing_Evidence_Properties.thy ===== *)
theory Closing_Evidence_Properties
  imports Event_Stream_Properties Closing_Evidence Participation_Properties
begin

text \<open>
  The evidence a closing reads from the database and what the calculation does with it: which payments keep a cycle from
  closing, and that the obligations read are accepted and counted, each once and in full.
\<close>

section \<open>A run of the collection\<close>

abbreviation contributions_of :: "int \<Rightarrow> 'a database_scheme \<Rightarrow> contribution_row list" where
  "contributions_of k db \<equiv> sort_key con_id (filter (\<lambda>c. con_cycle_id c = Some k) (db_contributions db))"

abbreviation participations_in :: "int \<Rightarrow> 'a database_scheme \<Rightarrow> participation_row list" where
  "participations_in k db \<equiv> sort_key cpa_id (filter (\<lambda>r. cpa_cycle_id r = k) (db_participations db))"

lemma evidence_run:
  assumes "build_closing_evidence vf created unpersisted k cutoff_at db = Inr ev"
  obtains cutoff es scoped cash of_contributions superseded settled credit where
    "closing_utc cutoff_at = Inr cutoff" "payment_financial_events vf None None None None None db = Inr es"
    "\<forall>s\<in>set (db_settlements db). check_represented (map cpa_member_id (participations_in k db)) (contributions_of k db) cutoff es s = Inr ()"
    "map_res (contribution_cash scoped db) (contributions_of k db) = Inr cash"
    "map_res (contribution_obligations cutoff (belem_date cutoff) (participations_in k db) db) cash = Inr of_contributions"
    "credit_obligations created cutoff (belem_date cutoff) (map cpa_member_id (participations_in k db)) scoped db = Inr (superseded, settled, credit)"
    "ev_obligations ev = concat of_contributions @ credit" "ev_closing_cutoff_at ev = Aware cutoff"
    "ev_superseded_loan_ids ev = superseded"
proof -
  have each: "map_res f xs = Inr ys \<Longrightarrow> \<forall>x\<in>set xs. f x = Inr ()" for f :: "settlement_row \<Rightarrow> unit res" and xs ys
    by (induction xs arbitrary: ys) (auto simp: res_bind_eq_Inr)
  from assms show thesis
    unfolding build_closing_evidence_def Let_def
    apply (elim res_bind_InrE)
    apply (simp split: option.split_asm)
    apply (elim res_bind_InrE)
    apply clarsimp
    apply (rule that)
            apply assumption+
          apply (erule each)
         apply assumption+
      apply simp_all
    done
qed

section \<open>A payment that applies nothing\<close>

lemma settlement_without_events:
  assumes "payment_financial_events vf None None None None None db = Inr es"
    and "distinct (map stl_id (db_settlements db))" "s \<in> set (db_settlements db)" "\<forall>c\<in>set (settlement_components s). snd c = 0"
  shows "stl_id s \<notin> fe_settlement_id ` set es"
proof
  assume "stl_id s \<in> fe_settlement_id ` set es"
  then obtain e where e: "e \<in> set es" "fe_settlement_id e = stl_id s" by auto
  from stream_events [OF assms(1) e(1)] obtain t where t: "t \<in> set (db_settlements db)" "event_of t e" by blast
  have "stl_id t = stl_id s" using t(2) e(2) by (simp add: event_of_def)
  with t(1) have "get_by stl_id (stl_id s) (db_settlements db) = Some t" by (simp add: get_by_unique [OF assms(2)])
  moreover have "get_by stl_id (stl_id s) (db_settlements db) = Some s" using assms(3) by (simp add: get_by_unique [OF assms(2)])
  ultimately have "event_of s e" using t(2) by simp
  then have "(if fe_reversal_id e = None then fe_amount e else - fe_amount e) = 0" "fe_amount e \<noteq> 0"
    using assms(4) by (auto simp: event_of_def dest: bspec)
  then show False by (simp split: if_splits)
qed

text \<open>C14. A second payment of a contribution that is already paid is accepted, applies nothing and leaves the whole
  amount in excess; it has no event, so from then on the contribution's cycle can never be closed: at every
  cutoff after the payment the collection of the evidence fails, whatever else has happened, as long as the contribution and the
  participation of its member are there.\<close>

theorem overpaid_contribution_blocks_closing:
  fixes db :: "'a database_scheme" and later :: "'b closing_tables_scheme"
  assumes run: "settle_confirmed_pix_payment ev i src w remote conf db = Inr (s, db')"
    and fresh: "lock_payment_settlement i db = Inr None"
    and p: "get_by pay_id i (db_payments db) = Some p" "locked_contribution p db = Inr (Some c)"
      "stl_obligation_type s = ''CONTRIBUTION''" "con_amount c \<le> contribution_paid_amount c"
    and later: "s \<in> set (db_settlements later)" "distinct (map stl_id (db_settlements later))"
      "c' \<in> set (db_contributions later)" "con_id c' = con_id c" "con_cycle_id c' = Some k"
      "r \<in> set (db_participations later)" "cpa_cycle_id r = k" "cpa_member_id r = stl_member_id s"
    and cutoff: "stored_utc (stl_confirmed_at s) \<le> t"
  shows "stl_amount_applied s = 0 \<and> (\<exists>e. build_closing_evidence vf created unpersisted k (Aware t) later = Inl e)"
proof -
  from contribution_settled [OF run fresh p(1-3)] obtain received applied where s: "stl_contribution_id s = Some (con_id c)"
    "stl_amount_applied s = min received (max 0 (con_amount c - contribution_paid_amount c))"
    "received = (case pay_amount_received p of Some a \<Rightarrow> a | None \<Rightarrow> pay_amount p)" by blast
  have "0 \<le> received" using settle_fresh [OF run fresh] p(1) s(3) by (metis option.inject)
  with s(2) p(4) have zero: "stl_amount_applied s = 0" by simp
  have False if "build_closing_evidence vf created unpersisted k (Aware t) later = Inr evi" for evi
  proof (rule evidence_run [OF that])
    fix u es
    assume u: "closing_utc (Aware t) = Inr u" and es: "payment_financial_events vf None None None None None later = Inr es"
      and check: "\<forall>s\<in>set (db_settlements later).
        check_represented (map cpa_member_id (participations_in k later)) (contributions_of k later) u es s = Inr ()"
    have "u = t" using u by (simp add: closing_utc_def)
    have "\<forall>x\<in>set (settlement_components s). snd x = 0" using zero p(3) by (simp add: settlement_components_def)
    from settlement_without_events [OF es later(2,1) this] have "stl_id s \<notin> fe_settlement_id ` set es" .
    moreover have "in_scope (map cpa_member_id (participations_in k later)) (contributions_of k later) s"
      using later(3-8) by (force simp: in_scope_def s(1))
    ultimately show False using check later(1) cutoff \<open>u = t\<close> by (auto simp: check_represented_def)
  qed
  then show ?thesis using zero by (cases "build_closing_evidence vf created unpersisted k (Aware t) later") auto
qed

text \<open>The contribution of January is paid; after that the cycle can be closed. It is paid again; after that it cannot.\<close>

definition twice_db :: closing_tables where
  "twice_db = database.extend ((club_db [monthly 3 739960 0] [joined])\<lparr>db_payments :=
     [office_payment 7 ''CONTRIBUTION'' ''3'', office_payment 10 ''CONTRIBUTION'' ''3'']\<rparr>) (closing_tables.fields [])"

text \<open>A hash that tells receipts apart by their number.\<close>

fun number_hash :: "json \<Rightarrow> string" where
  "number_hash (JDict entries) = (case map_of entries ''receipt_number'' of Some (JStr n) \<Rightarrow> n | _ \<Rightarrow> [])"
| "number_hash _ = []"

abbreviation numbering_env :: env where "numbering_env \<equiv> demo_env\<lparr>ev_receipt_hash := number_hash\<rparr>"

abbreviation late_2027 :: instant where "late_2027 \<equiv> 21000 * day_us"

definition settled_again :: "closing_tables \<Rightarrow> bool" where
  "settled_again db1 \<longleftrightarrow> lock_payment_settlement 10 db1 = Inr None
     \<and> (case get_by pay_id 10 (db_payments db1) of None \<Rightarrow> False
        | Some p \<Rightarrow> (case locked_contribution p db1 of Inl _ \<Rightarrow> False
            | Inr found \<Rightarrow> (case found of None \<Rightarrow> False | Some c \<Rightarrow> con_id c = 3 \<and> con_amount c \<le> contribution_paid_amount c)))
     \<and> (case build_closing_evidence trusting (\<lambda>_. Aware 0) None 1 (Aware late_2027) db1 of Inl _ \<Rightarrow> False | Inr _ \<Rightarrow> True)
     \<and> (case settle_confirmed_pix_payment numbering_env 10 ''WEBHOOK'' None None (Some (Aware 0)) db1 of Inl _ \<Rightarrow> False
        | Inr (s, db2) \<Rightarrow> stl_obligation_type s = ''CONTRIBUTION'' \<and> stl_member_id s = 4 \<and> stl_confirmed_at s = Aware 0
            \<and> s \<in> set (db_settlements db2) \<and> distinct (map stl_id (db_settlements db2))
            \<and> map con_id (db_contributions db2) = [3] \<and> map con_cycle_id (db_contributions db2) = [Some 1]
            \<and> db_participations db2 = [joined])"

lemma paid_twice:
  "case settle_confirmed_pix_payment numbering_env 7 ''WEBHOOK'' None None (Some (Aware 0)) twice_db of Inl _ \<Rightarrow> False
     | Inr (s, db1) \<Rightarrow> settled_again db1"
  by code_simp

theorem overpaid_contribution_blocks_closing_witness:
  "\<exists>s1 db1 s2 db2 ev e. settle_confirmed_pix_payment numbering_env 7 ''WEBHOOK'' None None (Some (Aware 0)) twice_db = Inr (s1, db1)
     \<and> build_closing_evidence trusting (\<lambda>_. Aware 0) None 1 (Aware late_2027) db1 = Inr ev
     \<and> settle_confirmed_pix_payment numbering_env 10 ''WEBHOOK'' None None (Some (Aware 0)) db1 = Inr (s2, db2)
     \<and> build_closing_evidence trusting (\<lambda>_. Aware 0) None 1 (Aware late_2027) db2 = Inl e"
proof -
  from succeeds [OF paid_twice] obtain s1 db1 where
    first: "settle_confirmed_pix_payment numbering_env 7 ''WEBHOOK'' None None (Some (Aware 0)) twice_db = Inr (s1, db1)"
    and again: "settled_again db1" by auto
  from again obtain p c where pc: "lock_payment_settlement 10 db1 = Inr None" "get_by pay_id 10 (db_payments db1) = Some p"
    "locked_contribution p db1 = Inr (Some c)" "con_id c = 3" "con_amount c \<le> contribution_paid_amount c"
    by (auto simp: settled_again_def split: option.splits sum.splits)
  have "case build_closing_evidence trusting (\<lambda>_. Aware 0) None 1 (Aware late_2027) db1 of Inl _ \<Rightarrow> False | Inr _ \<Rightarrow> True"
    using again unfolding settled_again_def by blast
  from succeeds [OF this] obtain ev where
    closes: "build_closing_evidence trusting (\<lambda>_. Aware 0) None 1 (Aware late_2027) db1 = Inr ev" by blast
  have "case settle_confirmed_pix_payment numbering_env 10 ''WEBHOOK'' None None (Some (Aware 0)) db1 of Inl _ \<Rightarrow> False
        | Inr (s, db2) \<Rightarrow> stl_obligation_type s = ''CONTRIBUTION'' \<and> stl_member_id s = 4 \<and> stl_confirmed_at s = Aware 0
            \<and> s \<in> set (db_settlements db2) \<and> distinct (map stl_id (db_settlements db2))
            \<and> map con_id (db_contributions db2) = [3] \<and> map con_cycle_id (db_contributions db2) = [Some 1]
            \<and> db_participations db2 = [joined]"
    using again unfolding settled_again_def by blast
  from succeeds [OF this] obtain s2 db2 where
    second: "settle_confirmed_pix_payment numbering_env 10 ''WEBHOOK'' None None (Some (Aware 0)) db1 = Inr (s2, db2)"
    "stl_obligation_type s2 = ''CONTRIBUTION''" "stl_member_id s2 = 4" "stl_confirmed_at s2 = Aware 0"
    "s2 \<in> set (db_settlements db2)" "distinct (map stl_id (db_settlements db2))"
    "map con_id (db_contributions db2) = [3]" "map con_cycle_id (db_contributions db2) = [Some 1]" "db_participations db2 = [joined]"
    by auto
  obtain c' where c': "db_contributions db2 = [c']" "con_id c' = 3" "con_cycle_id c' = Some 1" using second(7,8) by auto
  have "\<exists>e. build_closing_evidence trusting (\<lambda>_. Aware 0) None 1 (Aware late_2027) db2 = Inl e"
    using overpaid_contribution_blocks_closing [OF second(1) pc(1-3) second(2) pc(5) second(5,6), of c' 1 joined late_2027]
      c' pc(4) second(3,4,9) by (simp add: joined_def day_us_def second_def)
  with first closes second(1) show ?thesis by blast
qed


section \<open>Obligations\<close>

definition counted :: "(int \<times> string \<times> instant) list \<Rightarrow> int list \<Rightarrow> date \<Rightarrow> obligation_evidence \<Rightarrow> bool" where
  "counted statuses superseded day ob \<longleftrightarrow>
     (case map_of statuses (oe_member_id ob) of None \<Rightarrow> False
      | Some (status, _) \<Rightarrow> oe_due_date ob \<le> day
          \<and> \<not> (oe_kind ob = ''LOAN_INSTALLMENT'' \<and> opt_in (oe_loan_id ob) (set superseded))
          \<and> \<not> (oe_kind ob = ''CONTRIBUTION_PRINCIPAL'' \<and> status = ''BLOCKED_DELINQUENCY''))"

definition owed_by :: "int \<Rightarrow> (obligation_evidence \<Rightarrow> bool) \<Rightarrow> obligation_evidence list \<Rightarrow> cents" where
  "owed_by m P obs = (\<Sum>ob\<leftarrow>obs. if oe_member_id ob = m \<and> P ob then cents (oe_amount ob) else 0)"

lemma obligation_step_accepts:
  assumes "oe_kind ob \<in> OBLIGATION_KINDS" "0 < cents (oe_amount ob)" "oe_source_id ob \<notin> oa_seen acc"
    and "oe_kind ob = ''AGREEMENT_INSTALLMENT'' \<Longrightarrow> \<exists>l. oe_loan_id ob = Some l \<and> oe_agreement_id ob = Some (f l)"
    and f: "\<forall>l a. oa_agreements acc l = Some a \<longrightarrow> a = f l"
  shows "\<exists>acc'. obligation_step ev day statuses ob acc = Inr acc' \<and> oa_seen acc' \<subseteq> insert (oe_source_id ob) (oa_seen acc)
     \<and> (\<forall>l a. oa_agreements acc' l = Some a \<longrightarrow> a = f l)
     \<and> (\<Sum>x\<leftarrow>oa_by_member acc' m. ot_amount x) = (\<Sum>x\<leftarrow>oa_by_member acc m. ot_amount x)
        + (if oe_member_id ob = m \<and> counted statuses (ev_superseded_loan_ids ev) day ob then cents (oe_amount ob) else 0)"
proof -
  have "\<exists>agreements. agreement_claim ob (oa_agreements acc) = Inr agreements \<and> (\<forall>l a. agreements l = Some a \<longrightarrow> a = f l)"
  proof (cases "oe_kind ob = ''AGREEMENT_INSTALLMENT''")
    case True
    with assms(4) obtain l where "oe_loan_id ob = Some l" "oe_agreement_id ob = Some (f l)" by blast
    with True have "agreement_claim ob (oa_agreements acc) = (case oa_agreements acc l of None \<Rightarrow> Inr ((oa_agreements acc)(l \<mapsto> f l))
      | Some previous \<Rightarrow> if previous \<noteq> f l then Inl (ClosingContractGap ''MULTIPLE_APPLICABLE_AGREEMENTS'' ''loan'') else Inr (oa_agreements acc))"
      by (simp add: agreement_claim_def)
    with f show ?thesis by (cases "oa_agreements acc l") auto
  next
    case False
    with f show ?thesis by (simp add: agreement_claim_def)
  qed
  then obtain agreements where claim: "agreement_claim ob (oa_agreements acc) = Inr agreements" "\<forall>l a. agreements l = Some a \<longrightarrow> a = f l" by blast
  show ?thesis
  proof (cases "map_of statuses (oe_member_id ob)")
    case None
    with f show ?thesis by (auto simp: obligation_step_def counted_def)
  next
    case (Some x)
    obtain status since where x: "x = (status, since)" by force
    consider (late) "day < oe_due_date ob"
      | (skipped) "oe_due_date ob \<le> day" "oe_kind ob = ''LOAN_INSTALLMENT'' \<and> opt_in (oe_loan_id ob) (set (ev_superseded_loan_ids ev))
          \<or> oe_kind ob = ''CONTRIBUTION_PRINCIPAL'' \<and> status = ''BLOCKED_DELINQUENCY''"
      | (counts) "oe_due_date ob \<le> day" "\<not> (oe_kind ob = ''LOAN_INSTALLMENT'' \<and> opt_in (oe_loan_id ob) (set (ev_superseded_loan_ids ev)))"
          "\<not> (oe_kind ob = ''CONTRIBUTION_PRINCIPAL'' \<and> status = ''BLOCKED_DELINQUENCY'')" by linarith
    then show ?thesis
    proof cases
      case late
      with f Some show ?thesis by (auto simp: obligation_step_def counted_def x)
    next
      case skipped
      then have "obligation_step ev day statuses ob acc
        = Inr (acc\<lparr>oa_seen := insert (oe_source_id ob) (oa_seen acc), oa_agreements := agreements\<rparr>)"
        using Some assms(3) claim(1) by (auto simp: obligation_step_def Let_def x)
      with skipped claim(2) Some show ?thesis by (auto simp: counted_def x)
    next
      case counts
      have "obligation_step ev day statuses ob acc = Inr (acc\<lparr>oa_seen := insert (oe_source_id ob) (oa_seen acc), oa_agreements := agreements,
        oa_by_member := (oa_by_member acc)(oe_member_id ob := oa_by_member acc (oe_member_id ob) @
           [\<lparr>ot_source_id = oe_source_id ob, ot_kind = oe_kind ob, ot_amount = cents (oe_amount ob),
             ot_due_date = oe_due_date ob, ot_loan_id = oe_loan_id ob, ot_agreement_id = oe_agreement_id ob\<rparr>])\<rparr>)"
        using Some assms(1-3) counts claim(1) by (auto simp: obligation_step_def Let_def x)
      with counts claim(2) Some show ?thesis by (auto simp: counted_def x)
    qed
  qed
qed

lemma obligations_accepted:
  assumes "list_all (\<lambda>ob. oe_kind ob \<in> OBLIGATION_KINDS \<and> 0 < cents (oe_amount ob)) obs" "distinct (map oe_source_id obs)"
    and "\<forall>ob\<in>set obs. oe_kind ob = ''AGREEMENT_INSTALLMENT'' \<longrightarrow> (\<exists>l. oe_loan_id ob = Some l \<and> oe_agreement_id ob = Some (f l))"
    and "oa_seen acc \<inter> oe_source_id ` set obs = {}" "\<forall>l a. oa_agreements acc l = Some a \<longrightarrow> a = f l"
  shows "\<exists>acc'. fold_res (obligation_step ev day statuses) obs acc = Inr acc'
     \<and> (\<forall>m. (\<Sum>x\<leftarrow>oa_by_member acc' m. ot_amount x) = (\<Sum>x\<leftarrow>oa_by_member acc m. ot_amount x)
        + owed_by m (counted statuses (ev_superseded_loan_ids ev) day) obs)"
  using assms
proof (induction obs arbitrary: acc)
  case Nil
  then show ?case by (simp add: owed_by_def)
next
  case (Cons ob obs)
  have ob: "oe_kind ob \<in> OBLIGATION_KINDS" "0 < cents (oe_amount ob)" "oe_source_id ob \<notin> oa_seen acc"
    "oe_kind ob = ''AGREEMENT_INSTALLMENT'' \<Longrightarrow> \<exists>l. oe_loan_id ob = Some l \<and> oe_agreement_id ob = Some (f l)"
    using Cons.prems by auto
  from obligation_step_accepts [OF ob Cons.prems(5), of ev day statuses] obtain acc1 where
    step: "obligation_step ev day statuses ob acc = Inr acc1" by blast
  note after = obligation_step_accepts [OF ob Cons.prems(5), of ev day statuses, unfolded step]
  have seen: "oa_seen acc1 \<subseteq> insert (oe_source_id ob) (oa_seen acc)" and f: "\<forall>l a. oa_agreements acc1 l = Some a \<longrightarrow> a = f l"
    using after [of 0] by auto
  have "insert (oe_source_id ob) (oa_seen acc) \<inter> oe_source_id ` set obs = {}" using Cons.prems(2,4) by auto
  with seen have "oa_seen acc1 \<inter> oe_source_id ` set obs = {}" by (meson disjoint_iff subsetD)
  from Cons.IH [OF _ _ _ this f] Cons.prems(1-3) obtain acc' where
    "fold_res (obligation_step ev day statuses) obs acc1 = Inr acc'"
    "\<forall>m. (\<Sum>x\<leftarrow>oa_by_member acc' m. ot_amount x) = (\<Sum>x\<leftarrow>oa_by_member acc1 m. ot_amount x)
        + owed_by m (counted statuses (ev_superseded_loan_ids ev) day) obs" by auto
  then show ?case using after by (simp add: step owed_by_def)
qed


section \<open>Obligations read from the database\<close>

text \<open>Primary keys, and the check constraints of the charges.\<close>

definition keyed :: "('r \<Rightarrow> int) \<Rightarrow> 'r list \<Rightarrow> bool" where
  "keyed k rows \<longleftrightarrow> distinct (map k rows) \<and> list_all (\<lambda>r. 0 \<le> k r) rows"

definition obligation_tables_ok :: "'a database_scheme \<Rightarrow> bool" where
  "obligation_tables_ok db \<longleftrightarrow> keyed con_id (db_contributions db) \<and> keyed cev_id (db_charge_events db)
     \<and> keyed ins_id (db_installments db) \<and> keyed agi_id (db_agreement_installments db)
     \<and> list_all (\<lambda>e. 0 \<le> cev_fixed_penalty e \<and> 0 \<le> cev_daily_interest e) (db_charge_events db)"

lemma keyed_distinct: "keyed k rows \<Longrightarrow> distinct (map k (sort_key h (filter P rows)))"
  by (simp add: keyed_def distinct_map_filter)

lemma distinct_pieces:
  assumes "map_res f xs = Inr yss" "distinct (map k xs)"
    and piece: "\<And>x ys. x \<in> set xs \<Longrightarrow> f x = Inr ys \<Longrightarrow> distinct (map g ys) \<and> g ` set ys \<subseteq> N (k x)"
    and apart: "\<And>x y. x \<in> set xs \<Longrightarrow> y \<in> set xs \<Longrightarrow> k x \<noteq> k y \<Longrightarrow> N (k x) \<inter> N (k y) = {}"
  shows "distinct (map g (concat yss)) \<and> g ` set (concat yss) \<subseteq> (\<Union>x\<in>set xs. N (k x))"
  using assms
proof (induction xs arbitrary: yss)
  case (Cons x xs)
  from Cons.prems(1) obtain ys zss where r: "f x = Inr ys" "map_res f xs = Inr zss" "yss = ys # zss"
    by (auto simp: res_bind_eq_Inr)
  have IH: "distinct (map g (concat zss)) \<and> g ` set (concat zss) \<subseteq> (\<Union>x\<in>set xs. N (k x))"
    using r(2) Cons.prems(2-) by (intro Cons.IH) auto
  have ys: "distinct (map g ys)" "g ` set ys \<subseteq> N (k x)" using Cons.prems(3) [of x, OF _ r(1)] by auto
  have "N (k x) \<inter> (\<Union>y\<in>set xs. N (k y)) = {}"
    using Cons.prems(2) Cons.prems(4) [of x] by (fastforce simp: image_iff)
  with ys(2) IH have "g ` set ys \<inter> g ` set (concat zss) = {}" by (meson disjoint_iff subsetD)
  with ys IH have "distinct (map g (ys @ concat zss)) \<and> g ` set (ys @ concat zss) \<subseteq> (\<Union>y\<in>set (x # xs). N (k y))"
    by (simp only: map_append distinct_append set_map set_append image_Un) (simp add: le_supI1 le_supI2)
  then show ?case by (simp add: r(3))
qed simp

lemma named_pieces:
  assumes "map_res f xs = Inr yss" "distinct (map k xs)" "\<And>x. x \<in> set xs \<Longrightarrow> 0 \<le> k x"
    and piece: "\<And>x ys. f x = Inr ys \<Longrightarrow> distinct (map g ys) \<and> g ` set ys \<subseteq> {prefix @ py_str (k x)}"
  shows "distinct (map g (concat yss)) \<and> g ` set (concat yss) \<subseteq> range (\<lambda>i. prefix @ py_str i)"
proof -
  have "{prefix @ py_str (k x)} \<inter> {prefix @ py_str (k y)} = {}" if "x \<in> set xs" "y \<in> set xs" "k x \<noteq> k y" for x y
    using that assms(3) py_str_inj by simp
  with distinct_pieces [OF assms(1,2), where g = g and N = "\<lambda>i. {prefix @ py_str i}"] piece
  have "distinct (map g (concat yss)) \<and> g ` set (concat yss) \<subseteq> (\<Union>x\<in>set xs. {prefix @ py_str (k x)})" by blast
  then show ?thesis by blast
qed

text \<open>The sources of the obligations of a contribution.\<close>

definition contribution_sources :: "'a database_scheme \<Rightarrow> int \<Rightarrow> string set" where
  "contribution_sources db i = insert (''contribution:'' @ py_str i @ '':principal'')
     ((\<lambda>e. ''contribution_charge:'' @ py_str (cev_id e)) ` {e \<in> set (db_charge_events db). cev_contribution_id e = i})"

lemma contribution_sources_apart:
  assumes "keyed cev_id (db_charge_events db)" "0 \<le> i" "0 \<le> j" "i \<noteq> j"
  shows "contribution_sources db i \<inter> contribution_sources db j = {}"
proof -
  have same: "e = e'" if "e \<in> set (db_charge_events db)" "e' \<in> set (db_charge_events db)" "py_str (cev_id e) = py_str (cev_id e')" for e e'
    using that assms(1) py_str_inj [of "cev_id e" "cev_id e'"] by (auto simp: keyed_def list_all_iff distinct_map inj_on_def)
  show ?thesis using assms(2-4) py_str_inj [of i j] by (auto simp: contribution_sources_def dest: same)
qed

definition obligation_wf :: "date \<Rightarrow> obligation_evidence \<Rightarrow> bool" where
  "obligation_wf civil ob \<longleftrightarrow> oe_kind ob \<in> OBLIGATION_KINDS \<and> 0 < cents (oe_amount ob) \<and> oe_due_date ob \<le> civil"

lemma selected_charge_mem:
  assumes "selected_charge blocked (charges_through cutoff civil c db) = Some e"
  shows "e \<in> set (db_charge_events db) \<and> cev_contribution_id e = con_id c \<and> cev_accrued_through e \<le> civil"
proof -
  have "e \<in> set (charges_through cutoff civil c db)"
    using assms last_in_set by (fastforce simp: selected_charge_def last_opt_def split: if_splits)
  then show ?thesis by (auto simp: charges_through_def)
qed

lemma contribution_pieces:
  assumes "contribution_obligations cutoff civil participations db (c, cash) = Inr obs" "obligation_tables_ok db"
  shows "list_all (obligation_wf civil) obs \<and> distinct (map oe_source_id obs) \<and> oe_source_id ` set obs \<subseteq> contribution_sources db (con_id c)
    \<and> (\<forall>ob\<in>set obs. oe_kind ob \<notin> {''AGREEMENT_INSTALLMENT'', ''LOAN_INSTALLMENT''})"
proof -
  from assms(1) obtain paid cancelled selected where obs: "obs =
      (case con_due_date c of None \<Rightarrow> [] | Some due \<Rightarrow>
         if due \<le> civil \<and> \<not> cancelled \<and> max 0 (con_amount c - paid) \<noteq> 0 then
           [obligation_of (''contribution:'' @ py_str (con_id c) @ '':principal'') (con_member_id c) ''CONTRIBUTION_PRINCIPAL''
                (max 0 (con_amount c - paid)) due None None] else [])
      @ (case selected of None \<Rightarrow> [] | Some e \<Rightarrow>
           if cev_fixed_penalty e + cev_daily_interest e \<noteq> 0 then
             [obligation_of (''contribution_charge:'' @ py_str (cev_id e)) (con_member_id c) ''CONTRIBUTION_CHARGE''
                (cev_fixed_penalty e + cev_daily_interest e) (cev_accrued_through e) None None] else [])"
      "selected = selected_charge (blocked_by cutoff participations (con_member_id c)) (charges_through cutoff civil c db)"
    unfolding contribution_obligations_def Let_def prod.case by (elim res_elims) (auto split: if_splits)
  have "e \<in> set (db_charge_events db) \<and> cev_contribution_id e = con_id c \<and> cev_accrued_through e \<le> civil
      \<and> 0 \<le> cev_fixed_penalty e \<and> 0 \<le> cev_daily_interest e" if "selected = Some e" for e
    using selected_charge_mem [OF that [unfolded obs(2)]] assms(2) by (simp add: obligation_tables_ok_def list_all_iff)
  then show ?thesis
    by (auto simp: obs(1) obligation_of_def obligation_wf_def OBLIGATION_KINDS_def contribution_sources_def
        split: option.splits if_splits)
qed

lemma loan_piece:
  assumes "loan_obligation created cutoff civil closed_ids loans scoped db i = Inr obs"
  shows "list_all (obligation_wf civil) obs \<and> distinct (map oe_source_id obs) \<and> oe_source_id ` set obs \<subseteq> {''loan_installment:'' @ py_str (ins_id i)}
    \<and> (\<forall>ob\<in>set obs. oe_kind ob = ''LOAN_INSTALLMENT'' \<and> \<not> opt_in (oe_loan_id ob) (set closed_ids))"
  using assms
  by (auto simp: loan_obligation_def Let_def res_bind_eq_Inr obligation_of_def obligation_wf_def OBLIGATION_KINDS_def
      split: if_splits option.splits)

lemma agreement_piece:
  assumes "agreement_obligation cutoff civil applicable scoped i = Inr obs" "distinct (map agr_loan_id applicable)"
  shows "list_all (obligation_wf civil) obs \<and> distinct (map oe_source_id obs) \<and> oe_source_id ` set obs \<subseteq> {''agreement_installment:'' @ py_str (agi_id i)}
    \<and> (\<forall>ob\<in>set obs. oe_kind ob = ''AGREEMENT_INSTALLMENT'' \<and> (\<exists>a\<in>set applicable. oe_loan_id ob = Some (agr_loan_id a) \<and> oe_agreement_id ob = Some (agr_id a)))"
  using assms(1)
  by (auto simp: agreement_obligation_def Let_def obligation_of_def obligation_wf_def OBLIGATION_KINDS_def
      split: if_splits option.splits dest: get_by_Some_mem)


lemma contribution_cash_row: "contribution_cash scoped db c = Inr x \<Longrightarrow> fst x = c"
  by (auto simp: contribution_cash_def res_bind_eq_Inr split: if_splits)

lemma cash_rows: "map_res (contribution_cash scoped db) cs = Inr cash \<Longrightarrow> map fst cash = cs"
  by (induction cs arbitrary: cash) (auto simp: res_bind_eq_Inr dest: contribution_cash_row)

lemma replaced_loans:
  assumes "fold_res (replace_loan loans installments items) as seen = Inr replaced" "distinct seen"
  shows "replaced = seen @ map agr_loan_id as \<and> distinct replaced"
  using assms
proof (induction as arbitrary: seen)
  case (Cons a as)
  from Cons.prems obtain seen' where r: "replace_loan loans installments items a seen = Inr seen'"
    "fold_res (replace_loan loans installments items) as seen' = Inr replaced" by (auto simp: res_bind_eq_Inr)
  from r(1) have s: "seen' = seen @ [agr_loan_id a]" "agr_loan_id a \<notin> set seen"
    by (auto simp: replace_loan_def structurally_valid_def Let_def split: if_splits)
  then have "distinct seen'" using Cons.prems(2) by simp
  from Cons.IH [OF r(2) this] have IH: "replaced = seen' @ map agr_loan_id as" "distinct replaced" by blast+
  show ?case using IH(2) by (simp add: IH(1) s(1))
qed simp

lemma credit_run:
  assumes "credit_obligations created cutoff civil members scoped db = Inr (superseded, settled, credit)"
  obtains replaced closed_ids of_loans of_agreements where
    "fold_res (replace_loan (member_loans members db) (loan_items (member_loans members db) db)
       (agreement_items (applicable_agreements cutoff members db) db)) (applicable_agreements cutoff members db) [] = Inr replaced"
    "map_res (loan_obligation created cutoff civil closed_ids (member_loans members db) scoped db) (loan_items (member_loans members db) db) = Inr of_loans"
    "map_res (agreement_obligation cutoff civil (applicable_agreements cutoff members db) scoped)
       (agreement_items (applicable_agreements cutoff members db) db) = Inr of_agreements"
    "superseded = sort replaced" "set replaced \<subseteq> set closed_ids" "credit = concat of_loans @ concat of_agreements"
  using assms unfolding credit_obligations_def Let_def
  by (elim res_bind_InrE) (rule that, assumption+, auto)

lemma map_res_pieces:
  assumes "map_res f xs = Inr yss" "y \<in> set (concat yss)" and "\<And>x ys. x \<in> set xs \<Longrightarrow> f x = Inr ys \<Longrightarrow> \<forall>y\<in>set ys. P y"
  shows "P y"
  using assms map_res_mem [OF assms(1)] by fastforce

lemma read_obligations:
  assumes ev: "build_closing_evidence vf created unpersisted k (Aware t) db = Inr evi" and ok: "obligation_tables_ok db"
  obtains f where "list_all (obligation_wf (belem_date t)) (ev_obligations evi)" "distinct (map oe_source_id (ev_obligations evi))"
    "\<forall>ob\<in>set (ev_obligations evi). oe_kind ob = ''AGREEMENT_INSTALLMENT'' \<longrightarrow> (\<exists>l. oe_loan_id ob = Some l \<and> oe_agreement_id ob = Some (f l))"
    "\<forall>ob\<in>set (ev_obligations evi). oe_kind ob = ''LOAN_INSTALLMENT'' \<longrightarrow> \<not> opt_in (oe_loan_id ob) (set (ev_superseded_loan_ids evi))"
  using ev
proof (rule evidence_run)
  fix cutoff scoped cash of_contributions superseded settled credit
  define members where "members = map cpa_member_id (participations_in k db)"
  assume "closing_utc (Aware t) = Inr cutoff"
    and cash: "map_res (contribution_cash scoped db) (contributions_of k db) = Inr cash"
    and cons: "map_res (contribution_obligations cutoff (belem_date cutoff) (participations_in k db) db) cash = Inr of_contributions"
    and credit: "credit_obligations created cutoff (belem_date cutoff) (map cpa_member_id (participations_in k db)) scoped db = Inr (superseded, settled, credit)"
    and obs: "ev_obligations evi = concat of_contributions @ credit" and sup: "ev_superseded_loan_ids evi = superseded"
  then have t: "cutoff = t" by (simp add: closing_utc_def)
  from credit [folded members_def] obtain replaced closed_ids of_loans of_agreements where c:
    "fold_res (replace_loan (member_loans members db) (loan_items (member_loans members db) db)
       (agreement_items (applicable_agreements cutoff members db) db)) (applicable_agreements cutoff members db) [] = Inr replaced"
    "map_res (loan_obligation created cutoff (belem_date cutoff) closed_ids (member_loans members db) scoped db) (loan_items (member_loans members db) db) = Inr of_loans"
    "map_res (agreement_obligation cutoff (belem_date cutoff) (applicable_agreements cutoff members db) scoped)
       (agreement_items (applicable_agreements cutoff members db) db) = Inr of_agreements"
    "superseded = sort replaced" "set replaced \<subseteq> set closed_ids" "credit = concat of_loans @ concat of_agreements"
    by (rule credit_run)
  define as where "as = applicable_agreements cutoff members db"
  have as: "distinct (map agr_loan_id as)" using replaced_loans [OF c(1)] by (auto simp: as_def)
  have keyed: "keyed con_id (db_contributions db)" "keyed cev_id (db_charge_events db)" "keyed ins_id (db_installments db)"
    "keyed agi_id (db_agreement_installments db)" using ok by (simp_all add: obligation_tables_ok_def)
  have rows: "map fst cash = contributions_of k db" using cash_rows [OF cash] .
  have A: "distinct (map oe_source_id (concat of_contributions))
     \<and> oe_source_id ` set (concat of_contributions) \<subseteq> (\<Union>x\<in>set cash. contribution_sources db (con_id (fst x)))"
  proof (rule distinct_pieces [OF cons, where k = "\<lambda>x. con_id (fst x)"])
    have "map (\<lambda>x. con_id (fst x)) cash = map con_id (map fst cash)" by simp
    then show "distinct (map (\<lambda>x. con_id (fst x)) cash)" using keyed_distinct [OF keyed(1)] by (simp only: rows)
    have "0 \<le> con_id (fst x)" if "x \<in> set cash" for x
    proof -
      have "fst x \<in> set (map fst cash)" using that by simp
      then have "fst x \<in> set (db_contributions db)" unfolding rows by simp
      with keyed(1) show ?thesis by (simp add: keyed_def list_all_iff)
    qed
    then show "contribution_sources db (con_id (fst x)) \<inter> contribution_sources db (con_id (fst y)) = {}"
      if "x \<in> set cash" "y \<in> set cash" "con_id (fst x) \<noteq> con_id (fst y)" for x y
      using that contribution_sources_apart [OF keyed(2)] by blast
  qed (use contribution_pieces [OF _ ok] in force)
  have "distinct (map ins_id (loan_items (member_loans members db) db))" "\<And>x. x \<in> set (loan_items (member_loans members db) db) \<Longrightarrow> 0 \<le> ins_id x"
    using keyed(3) by (auto simp: loan_items_def keyed_def list_all_iff distinct_map_filter)
  from named_pieces [OF c(2) this, of oe_source_id "''loan_installment:''"] loan_piece
  have B: "distinct (map oe_source_id (concat of_loans)) \<and> oe_source_id ` set (concat of_loans) \<subseteq> range (\<lambda>i. ''loan_installment:'' @ py_str i)" by blast
  have "distinct (map agi_id (agreement_items as db))" "\<And>x. x \<in> set (agreement_items as db) \<Longrightarrow> 0 \<le> agi_id x"
    using keyed(4) by (auto simp: agreement_items_def keyed_def list_all_iff distinct_map_filter)
  from named_pieces [OF c(3) [folded as_def] this, of oe_source_id "''agreement_installment:''"] agreement_piece [OF _ as]
  have C: "distinct (map oe_source_id (concat of_agreements))
    \<and> oe_source_id ` set (concat of_agreements) \<subseteq> range (\<lambda>i. ''agreement_installment:'' @ py_str i)" by blast
  define civil where "civil = belem_date cutoff"
  have WA: "obligation_wf civil ob \<and> oe_kind ob \<notin> {''AGREEMENT_INSTALLMENT'', ''LOAN_INSTALLMENT''}" if "ob \<in> set (concat of_contributions)" for ob
    using cons that
  proof (rule map_res_pieces)
    fix x ys assume "contribution_obligations cutoff (belem_date cutoff) (participations_in k db) db x = Inr ys"
    with contribution_pieces [OF _ ok, of cutoff "belem_date cutoff" "participations_in k db" "fst x" "snd x" ys]
    show "\<forall>ob\<in>set ys. obligation_wf civil ob \<and> oe_kind ob \<notin> {''AGREEMENT_INSTALLMENT'', ''LOAN_INSTALLMENT''}"
      by (simp add: civil_def list_all_iff)
  qed
  have WB: "obligation_wf civil ob \<and> oe_kind ob = ''LOAN_INSTALLMENT'' \<and> \<not> opt_in (oe_loan_id ob) (set closed_ids)"
    if "ob \<in> set (concat of_loans)" for ob
    using c(2) that by (rule map_res_pieces) (use loan_piece in \<open>fastforce simp: civil_def list_all_iff\<close>)
  have WC: "obligation_wf civil ob \<and> oe_kind ob = ''AGREEMENT_INSTALLMENT''
      \<and> (\<exists>a\<in>set as. oe_loan_id ob = Some (agr_loan_id a) \<and> oe_agreement_id ob = Some (agr_id a))"
    if "ob \<in> set (concat of_agreements)" for ob
    using c(3) [folded as_def] that by (rule map_res_pieces) (use agreement_piece [OF _ as] in \<open>fastforce simp: civil_def list_all_iff\<close>)
  define f where "f l = (case get_by agr_loan_id l as of None \<Rightarrow> 0 | Some a \<Rightarrow> agr_id a)" for l
  have f: "f (agr_loan_id a) = agr_id a" if "a \<in> set as" for a
    using get_by_unique [OF as, of "agr_loan_id a" a] that by (simp add: f_def)
  have all: "set (ev_obligations evi) = set (concat of_contributions) \<union> (set (concat of_loans) \<union> set (concat of_agreements))"
    by (simp add: obs c(6))
  show thesis
  proof (rule that [of f])
    show "list_all (obligation_wf (belem_date t)) (ev_obligations evi)"
      unfolding list_all_iff all t [symmetric] civil_def [symmetric] using WA WB WC by blast
    have "(\<Union>x\<in>set cash. contribution_sources db (con_id (fst x))) \<subseteq> {s. hd s = CHR ''c''}" by (auto simp: contribution_sources_def)
    with conjunct2 [OF A] have hc: "oe_source_id ` set (concat of_contributions) \<subseteq> {s. hd s = CHR ''c''}" by (rule subset_trans)
    have "range (\<lambda>i. ''loan_installment:'' @ py_str i) \<subseteq> {s. hd s = CHR ''l''}" by auto
    with conjunct2 [OF B] have hl: "oe_source_id ` set (concat of_loans) \<subseteq> {s. hd s = CHR ''l''}" by (rule subset_trans)
    have "range (\<lambda>i. ''agreement_installment:'' @ py_str i) \<subseteq> {s. hd s = CHR ''a''}" by auto
    with conjunct2 [OF C] have ha: "oe_source_id ` set (concat of_agreements) \<subseteq> {s. hd s = CHR ''a''}" by (rule subset_trans)
    have apart: "X \<inter> Y = {}" if "X \<subseteq> {s. hd s = x}" "Y \<subseteq> {s. hd s = y}" "x \<noteq> y" for X Y :: "string set" and x y
      using that by blast
    have "oe_source_id ` set (concat of_contributions) \<inter> (oe_source_id ` set (concat of_loans) \<union> oe_source_id ` set (concat of_agreements)) = {}"
      "oe_source_id ` set (concat of_loans) \<inter> oe_source_id ` set (concat of_agreements) = {}"
      using apart [OF hc hl] apart [OF hc ha] apart [OF hl ha] by (simp_all only: Int_Un_distrib) simp_all
    then show "distinct (map oe_source_id (ev_obligations evi))"
      using A B C unfolding obs c(6) by (simp only: map_append distinct_append set_map set_append image_Un)
    show "\<forall>ob\<in>set (ev_obligations evi). oe_kind ob = ''AGREEMENT_INSTALLMENT'' \<longrightarrow> (\<exists>l. oe_loan_id ob = Some l \<and> oe_agreement_id ob = Some (f l))"
      unfolding all using WA WB WC f by fastforce
    show "\<forall>ob\<in>set (ev_obligations evi). oe_kind ob = ''LOAN_INSTALLMENT'' \<longrightarrow> \<not> opt_in (oe_loan_id ob) (set (ev_superseded_loan_ids evi))"
    proof (intro ballI impI)
      fix ob assume "ob \<in> set (ev_obligations evi)" "oe_kind ob = ''LOAN_INSTALLMENT''"
      with WA WB WC have "\<not> opt_in (oe_loan_id ob) (set closed_ids)" unfolding all by fastforce
      with c(5) show "\<not> opt_in (oe_loan_id ob) (set (ev_superseded_loan_ids evi))"
        by (auto simp: sup c(4) opt_in_def split: option.splits)
    qed
  qed
qed

text \<open>What counts for a member: everything but the open principal of a blocked one.\<close>

definition due_of :: "(int \<times> string \<times> instant) list \<Rightarrow> obligation_evidence \<Rightarrow> bool" where
  "due_of statuses ob \<longleftrightarrow> (case map_of statuses (oe_member_id ob) of None \<Rightarrow> False
     | Some (status, _) \<Rightarrow> \<not> (oe_kind ob = ''CONTRIBUTION_PRINCIPAL'' \<and> status = ''BLOCKED_DELINQUENCY''))"

text \<open>C13. The obligations read from the database pass every check of the calculation: none is of an unknown kind, negative,
  named twice, or of a second agreement of its loan, so the loop over them cannot fail; and each member is charged the sum of the member's
  own obligations, all of them and each once, except the open principal of a blocked member.\<close>

theorem closing_obligations_accepted:
  assumes ev: "build_closing_evidence vf created unpersisted k (Aware t) db = Inr evi" and ok: "obligation_tables_ok db"
  shows "\<exists>oa. fold_res (obligation_step evi (belem_date t) statuses) (sort_key oe_source_id (ev_obligations evi))
        \<lparr>oa_by_member = (\<lambda>_. []), oa_seen = {}, oa_agreements = Map.empty\<rparr> = Inr oa
      \<and> (\<forall>m. (\<Sum>x\<leftarrow>oa_by_member oa m. ot_amount x) = owed_by m (due_of statuses) (ev_obligations evi))"
proof -
  from read_obligations [OF ev ok] obtain f where r: "list_all (obligation_wf (belem_date t)) (ev_obligations evi)"
    "distinct (map oe_source_id (ev_obligations evi))"
    "\<forall>ob\<in>set (ev_obligations evi). oe_kind ob = ''AGREEMENT_INSTALLMENT'' \<longrightarrow> (\<exists>l. oe_loan_id ob = Some l \<and> oe_agreement_id ob = Some (f l))"
    "\<forall>ob\<in>set (ev_obligations evi). oe_kind ob = ''LOAN_INSTALLMENT'' \<longrightarrow> \<not> opt_in (oe_loan_id ob) (set (ev_superseded_loan_ids evi))"
    by blast
  define obs where "obs = sort_key oe_source_id (ev_obligations evi)"
  have same: "mset obs = mset (ev_obligations evi)" "set obs = set (ev_obligations evi)" by (simp_all add: obs_def)
  have "distinct (map oe_source_id obs)" using r(2) same(1) by (metis mset_map mset_eq_imp_distinct_iff)
  moreover have "list_all (\<lambda>ob. oe_kind ob \<in> OBLIGATION_KINDS \<and> 0 < cents (oe_amount ob)) obs"
    using r(1) by (simp add: list_all_iff same(2) obligation_wf_def)
  ultimately obtain oa where
    oa: "fold_res (obligation_step evi (belem_date t) statuses) obs \<lparr>oa_by_member = (\<lambda>_. []), oa_seen = {}, oa_agreements = Map.empty\<rparr> = Inr oa"
    "\<forall>m. (\<Sum>x\<leftarrow>oa_by_member oa m. ot_amount x) = owed_by m (counted statuses (ev_superseded_loan_ids evi) (belem_date t)) obs"
    using obligations_accepted [of obs f "\<lparr>oa_by_member = (\<lambda>_. []), oa_seen = {}, oa_agreements = Map.empty\<rparr>" evi "belem_date t" statuses] r(3)
    by (auto simp: same(2))
  have "counted statuses (ev_superseded_loan_ids evi) (belem_date t) ob = due_of statuses ob" if "ob \<in> set obs" for ob
    using that r(1,4) by (auto simp: counted_def due_of_def list_all_iff same(2) obligation_wf_def split: option.splits)
  then have "owed_by m (counted statuses (ev_superseded_loan_ids evi) (belem_date t)) obs = owed_by m (due_of statuses) obs" for m
    unfolding owed_by_def by (intro arg_cong [where f = sum_list] map_cong refl) simp
  also have "\<dots> m = owed_by m (due_of statuses) (ev_obligations evi)" for m
    unfolding owed_by_def using same(1) by (rule sum_list_permuted)
  finally have "owed_by m (counted statuses (ev_superseded_loan_ids evi) (belem_date t)) obs = owed_by m (due_of statuses) (ev_obligations evi)" for m .
  with oa show ?thesis unfolding obs_def by auto
qed

text \<open>A member who has not paid January owes it at the end of the year.\<close>

definition unpaid_db :: closing_tables where
  "unpaid_db = database.extend (club_db [monthly 3 739960 0] [joined]) (closing_tables.fields [])"

lemma unpaid_owes:
  "case build_closing_evidence trusting (\<lambda>_. Aware 0) None 1 (Aware late_2027) unpaid_db of Inl _ \<Rightarrow> False
     | Inr evi \<Rightarrow> owed_by 4 (due_of [(4, ''ACTIVE'', 0)]) (ev_obligations evi) = 15000"
  by code_simp

lemma unpaid_keyed: "obligation_tables_ok unpaid_db"
  by (simp add: obligation_tables_ok_def keyed_def unpaid_db_def database.extend_def closing_tables.fields_def club_db_def monthly_def)

theorem closing_obligations_accepted_witness:
  "\<exists>evi oa. build_closing_evidence trusting (\<lambda>_. Aware 0) None 1 (Aware late_2027) unpaid_db = Inr evi
     \<and> fold_res (obligation_step evi (belem_date late_2027) [(4, ''ACTIVE'', 0)]) (sort_key oe_source_id (ev_obligations evi))
        \<lparr>oa_by_member = (\<lambda>_. []), oa_seen = {}, oa_agreements = Map.empty\<rparr> = Inr oa
     \<and> (\<Sum>x\<leftarrow>oa_by_member oa 4. ot_amount x) = 15000"
proof -
  from succeeds [OF unpaid_owes] obtain evi where
    e: "build_closing_evidence trusting (\<lambda>_. Aware 0) None 1 (Aware late_2027) unpaid_db = Inr evi"
    "owed_by 4 (due_of [(4, ''ACTIVE'', 0)]) (ev_obligations evi) = 15000" by blast
  from closing_obligations_accepted [OF e(1) unpaid_keyed, of "[(4, ''ACTIVE'', 0)]"] e show ?thesis by auto
qed

end
