(* ===== verification/Lending_Capacity.thy ===== *)
theory Lending_Capacity
  imports Calendar Member_Financial Py_Strings
begin

text \<open>
  How much can be lent: the cash and the exposure (\<open>services/risk_v036.py\<close>), the projection of the cash over the next months
  (\<open>services/financial_projection_v051.py\<close>), its simulation under a scenario (\<open>services/scenario_simulator_v052.py\<close>) and the search for
  the greatest amount that passes it (\<open>services/capacity_optimizer_v053.py\<close>). The database's \<open>AVG\<close> of a column is the parameter
  \<open>average\<close>; \<open>cents_even\<close> is \<open>quantize(Decimal('0.01'))\<close>; a text \<open>f'{...:.2f}'\<close> of an amount, which the code reads back, is its cents.
\<close>

section \<open>Groups and expenses\<close>

record group_row =
  grp_id :: int
  grp_monthly_amount :: cents
  grp_active :: bool
  grp_min_cash_reserve :: cents
  grp_max_member_exposure :: "cents option"
  grp_max_global_exposure :: "cents option"
  grp_max_exposure_ratio :: "decimal option"
  grp_max_loan_amount :: "cents option"

record expense_row =
  exp_id :: int
  exp_amount :: cents
  exp_date :: date
  exp_status :: string

record lending_tables = database +
  db_groups :: "group_row list"
  db_expenses :: "expense_row list"

section \<open>Cash and exposure\<close>

definition cash_balance :: "'a books_scheme \<Rightarrow> cents" where
  "cash_balance db = (\<Sum>e\<leftarrow>filter (\<lambda>e. led_direction e = ''CREDIT'') (db_ledger db). led_amount e)
     - (\<Sum>e\<leftarrow>filter (\<lambda>e. led_direction e = ''DEBIT'') (db_ledger db). led_amount e)"

definition agreement_exposure :: "int option \<Rightarrow> 'a database_scheme \<Rightarrow> agreement_installment_row \<Rightarrow> cents" where
  "agreement_exposure member db i =
     (case get_by agr_id (agi_agreement_id i) (db_agreements db) of None \<Rightarrow> 0
      | Some a \<Rightarrow> if agr_status a = ''APPROVED'' \<and> agi_status i \<noteq> ''PAID'' \<and> (case member of None \<Rightarrow> True | Some m \<Rightarrow> agr_member_id a = m)
          then max 0 (agi_principal i - agi_paid_amount i) + max 0 (agi_penalty_amount i - agi_paid_penalty_amount i) else 0)"

definition exposure :: "int option \<Rightarrow> 'a database_scheme \<Rightarrow> cents" where
  "exposure member db =
     (\<Sum>l\<leftarrow>filter (\<lambda>l. loan_status l = ''ACTIVE'' \<and> (case member of None \<Rightarrow> True | Some m \<Rightarrow> loan_member_id l = m)) (db_loans db). loan_principal l)
     + (\<Sum>i\<leftarrow>db_agreement_installments db. agreement_exposure member db i)"

text \<open>The reasons that block the release of a loan; the amounts in their texts are left out.\<close>

record release_evaluation =
  rel_errors :: "string list"
  rel_cash_balance :: cents
  rel_cash_after :: cents
  rel_global_before :: cents
  rel_global_after :: cents
  rel_member_before :: cents
  rel_member_after :: cents

definition over_limit :: "cents option \<Rightarrow> cents \<Rightarrow> bool" where
  "over_limit limit amount = (case limit of None \<Rightarrow> False | Some l \<Rightarrow> l < amount)"

definition ratio_errors :: "decimal option \<Rightarrow> cents \<Rightarrow> cents \<Rightarrow> string list" where
  "ratio_errors ratio balance global_after =
     (case ratio of None \<Rightarrow> []
      | Some r \<Rightarrow> if balance \<le> 0 then (if 0 < global_after then [''Limite de exposicao sobre o caixa: caixa disponivel e zero.''] else [])
          else if r < ctx 28 (dec global_after / dec balance) then [''Razao maxima de exposicao excedida''] else [])"

definition evaluate_release :: "loan_row \<Rightarrow> group_row \<Rightarrow> 'a database_scheme \<Rightarrow> release_evaluation" where
  "evaluate_release l g db =
     (let balance = cash_balance db; global_before = exposure None db; member_before = exposure (Some (loan_member_id l)) db;
          global_after = global_before + loan_principal l; member_after = member_before + loan_principal l;
          after = balance - loan_principal l
      in \<lparr>rel_errors = (if after < grp_min_cash_reserve g then [''Saldo minimo de seguranca nao pode ser violado''] else [])
            @ (if over_limit (grp_max_member_exposure g) member_after then [''Limite de exposicao do participante excedido''] else [])
            @ (if over_limit (grp_max_global_exposure g) global_after then [''Limite global de exposicao excedido''] else [])
            @ ratio_errors (grp_max_exposure_ratio g) balance global_after,
          rel_cash_balance = balance, rel_cash_after = after, rel_global_before = global_before, rel_global_after = global_after,
          rel_member_before = member_before, rel_member_after = member_after\<rparr>)"

section \<open>The projection\<close>

record projection_row =
  pj_month :: date
  pj_opening_cash :: cents
  pj_contributions :: cents
  pj_receipts :: cents
  pj_expenses :: cents
  pj_net :: cents
  pj_cash :: cents

record projection =
  pro_as_of :: date
  pro_status :: string
  pro_starting_cash :: cents
  pro_minimum_cash :: cents
  pro_ending_cash :: cents
  pro_rows :: "projection_row list"

definition scenario_factor :: "string \<Rightarrow> decimal option" where
  "scenario_factor scenario =
     (if scenario = ''CONSERVATIVE'' then Some (75 / 100) else if scenario = ''BASE'' then Some 1
      else if scenario = ''OPTIMISTIC'' then Some (110 / 100) else None)"

definition expense_factor :: "string \<Rightarrow> decimal" where
  "expense_factor scenario = (if scenario = ''CONSERVATIVE'' then 125 / 100 else if scenario = ''OPTIMISTIC'' then 90 / 100 else 1)"

text \<open>\<open>add_month\<close>: the first day of the \<open>n\<close>-th month after that of a date.\<close>

definition first_after :: "date \<Rightarrow> int \<Rightarrow> date res" where
  "first_after d n = (let t = of_ordinal d in make_date (yr t + (mon t - 1 + n) div 12) ((mon t - 1 + n) mod 12 + 1) 1)"

definition monthly_contributions :: "'a lending_tables_scheme \<Rightarrow> cents" where
  "monthly_contributions db = (\<Sum>g\<leftarrow>filter grp_active (db_groups db).
     grp_monthly_amount g * int (length (filter (\<lambda>m. mem_group_id m = grp_id g \<and> mem_status m = ''ACTIVE'') (db_members db))))"

definition recent_expenses :: "(cents list \<Rightarrow> decimal) \<Rightarrow> date \<Rightarrow> 'a lending_tables_scheme \<Rightarrow> decimal res" where
  "recent_expenses average as_of db =
     (let t = of_ordinal as_of
      in res_bind (make_date (yr t) (max 1 (mon t - 2)) 1) (\<lambda>since.
         let amounts = map exp_amount (filter (\<lambda>e. exp_status e = ''POSTED'' \<and> since \<le> exp_date e) (db_expenses db))
         in Inr (if amounts = [] then 0 else average amounts)))"

definition open_installments :: "'a loan_tables_scheme \<Rightarrow> installment_row list" where
  "open_installments db = filter (\<lambda>i. ins_paid_at i = None \<and> ins_status i \<notin> {''PAID'', ''AGREED''}) (db_installments db)"

definition scheduled_in :: "date \<Rightarrow> installment_row list \<Rightarrow> cents" where
  "scheduled_in month items = (\<Sum>i\<leftarrow>filter (\<lambda>i. yr (of_ordinal (ins_due_date i)) = yr (of_ordinal month)
       \<and> mon (of_ordinal (ins_due_date i)) = mon (of_ordinal month)) items.
     max 0 (ins_amount i - ins_paid_amount i + ins_penalty_amount i - ins_paid_penalty_amount i))"

definition project_month ::
    "string \<Rightarrow> decimal \<Rightarrow> cents \<Rightarrow> decimal \<Rightarrow> installment_row list \<Rightarrow> date \<Rightarrow> int
      \<Rightarrow> decimal \<times> projection_row list \<Rightarrow> (decimal \<times> projection_row list) res" where
  "project_month scenario factor monthly avg_expense items as_of i state =
     res_bind (first_after as_of i) (\<lambda>month.
     let (running, rows) = state;
         contrib = dmul 28 (dec monthly) factor;
         receiv = dmul 28 (dec (scheduled_in month items)) factor;
         expense = dmul 28 avg_expense (expense_factor scenario);
         net = dsub 28 (dadd 28 contrib receiv) expense;
         running' = dadd 28 running net
     in Inr (running', rows @ [\<lparr>pj_month = month, pj_opening_cash = cents_even (dsub 28 running' net), pj_contributions = cents_even contrib,
          pj_receipts = cents_even receiv, pj_expenses = cents_even expense, pj_net = cents_even net, pj_cash = cents_even running'\<rparr>]))"

definition build_projection ::
    "(cents list \<Rightarrow> decimal) \<Rightarrow> date \<Rightarrow> date option \<Rightarrow> int \<Rightarrow> string \<Rightarrow> 'a lending_tables_scheme \<Rightarrow> projection res" where
  "build_projection average today as_of_arg horizon_months scenario_arg db =
     (let as_of = (case as_of_arg of None \<Rightarrow> today | Some d \<Rightarrow> d); scenario = py_upper scenario_arg
      in case scenario_factor scenario of None \<Rightarrow> Inl (ValueError ''Cenario invalido.'')
      | Some factor \<Rightarrow>
          if \<not> (1 \<le> horizon_months \<and> horizon_months \<le> 36) then Inl (ValueError ''Horizonte deve estar entre 1 e 36 meses.'')
          else let opening = dec (cash_balance db)
          in res_bind (recent_expenses average as_of db) (\<lambda>avg_expense.
             res_bind (fold_res (project_month scenario factor (monthly_contributions db) avg_expense (open_installments db) as_of)
               [0..horizon_months - 1] (opening, [])) (\<lambda>(running, rows).
             let min_cash = (case map pj_cash rows of [] \<Rightarrow> cents_even opening | c # cs \<Rightarrow> fold min cs c)
             in Inr \<lparr>pro_as_of = as_of, pro_status = (if min_cash < 0 then ''ATTENTION'' else ''PASS''),
               pro_starting_cash = cents_even opening, pro_minimum_cash = min_cash, pro_ending_cash = cents_even running, pro_rows = rows\<rparr>)))"

section \<open>The simulation\<close>

record scenario =
  sc_as_of :: "date option"
  sc_horizon_months :: int
  sc_scenario :: string
  sc_contribution_factor :: decimal
  sc_delinquency_rate :: decimal
  sc_extra_expenses :: decimal

record simulation_row =
  sr_month :: date
  sr_opening_cash :: cents
  sr_contributions :: cents
  sr_receipts :: cents
  sr_disbursements :: cents
  sr_expenses :: cents
  sr_net :: cents
  sr_cash :: cents
  sr_available :: cents

record simulation =
  sim_as_of :: date
  sim_status :: string
  sim_starting_cash :: cents
  sim_minimum_cash :: cents
  sim_ending_cash :: cents
  sim_minimum_available :: cents
  sim_rows :: "simulation_row list"

record simulation_state =
  ss_cash :: decimal
  ss_min_cash :: decimal
  ss_capacity :: "decimal list"
  ss_rows :: "simulation_row list"

definition net_of_month :: "scenario \<Rightarrow> decimal \<Rightarrow> projection_row \<Rightarrow> decimal" where
  "net_of_month sc disb r =
     dsub 28 (dsub 28 (dadd 28 (dmul 28 (dec (pj_contributions r)) (sc_contribution_factor sc))
         (dmul 28 (dec (pj_receipts r)) (dsub 28 1 (sc_delinquency_rate sc))))
       (dadd 28 (dec (pj_expenses r)) (sc_extra_expenses sc))) disb"

definition simulate_month :: "scenario \<Rightarrow> decimal \<Rightarrow> decimal \<Rightarrow> projection_row \<Rightarrow> simulation_state \<Rightarrow> simulation_state" where
  "simulate_month sc disb floor_amount r s =
     (let contrib = dmul 28 (dec (pj_contributions r)) (sc_contribution_factor sc);
          receipts = dmul 28 (dec (pj_receipts r)) (dsub 28 1 (sc_delinquency_rate sc));
          expenses = dadd 28 (dec (pj_expenses r)) (sc_extra_expenses sc);
          net = net_of_month sc disb r;
          opening = ss_cash s;
          cash = dadd 28 opening net;
          available = max 0 (dsub 28 cash floor_amount)
      in \<lparr>ss_cash = cash, ss_min_cash = min (ss_min_cash s) cash, ss_capacity = ss_capacity s @ [available],
          ss_rows = ss_rows s @ [\<lparr>sr_month = pj_month r, sr_opening_cash = cents_even opening, sr_contributions = cents_even contrib,
            sr_receipts = cents_even receipts, sr_disbursements = cents_even disb, sr_expenses = cents_even expenses,
            sr_net = cents_even net, sr_cash = cents_even cash, sr_available = cents_even available\<rparr>]\<rparr>)"

definition negative_input :: "scenario \<Rightarrow> decimal \<Rightarrow> decimal \<Rightarrow> string option" where
  "negative_input sc disb floor_amount =
     map_option fst (find (\<lambda>(name, v). v < 0) [(''contribution_factor'', sc_contribution_factor sc), (''delinquency_rate'', sc_delinquency_rate sc),
       (''new_loan_disbursements'', disb), (''extra_expenses'', sc_extra_expenses sc), (''reserve_floor'', floor_amount)])"

definition simulate ::
    "(cents list \<Rightarrow> decimal) \<Rightarrow> date \<Rightarrow> scenario \<Rightarrow> decimal \<Rightarrow> decimal \<Rightarrow> 'a lending_tables_scheme \<Rightarrow> simulation res" where
  "simulate average today sc disb floor_amount db =
     (if \<not> (1 \<le> sc_horizon_months sc \<and> sc_horizon_months sc \<le> 36) then Inl (ValueError ''Horizonte deve estar entre 1 e 36 meses.'')
      else case negative_input sc disb floor_amount of Some name \<Rightarrow> Inl (ValueError (name @ '' nao pode ser negativo.''))
      | None \<Rightarrow>
      if 1 < sc_delinquency_rate sc then Inl (ValueError ''delinquency_rate deve estar entre 0 e 1.'')
      else res_bind (build_projection average today (sc_as_of sc) (sc_horizon_months sc) (sc_scenario sc) db) (\<lambda>base.
        let start = dec (pro_starting_cash base);
            s = fold (simulate_month sc disb floor_amount) (pro_rows base)
              \<lparr>ss_cash = start, ss_min_cash = start, ss_capacity = [], ss_rows = []\<rparr>
        in Inr \<lparr>sim_as_of = pro_as_of base, sim_status = (if ss_min_cash s < floor_amount then ''BLOCKED'' else ''PASS''),
             sim_starting_cash = pro_starting_cash base, sim_minimum_cash = cents_even (ss_min_cash s), sim_ending_cash = cents_even (ss_cash s),
             sim_minimum_available = (case ss_capacity s of [] \<Rightarrow> 0 | c # cs \<Rightarrow> cents_even (fold min cs c)), sim_rows = ss_rows s\<rparr>))"

section \<open>The greatest amount that passes\<close>

record lending_limits =
  ll_group :: "group_row option"
  ll_floor :: decimal
  ll_balance :: cents
  ll_global_exposure :: cents
  ll_member_exposure :: "cents option"
  ll_global_room :: "cents option"
  ll_member_room :: "cents option"
  ll_immediate_room :: decimal

definition min_opt :: "decimal \<Rightarrow> cents option \<Rightarrow> decimal" where
  "min_opt room limit = (case limit of None \<Rightarrow> room | Some l \<Rightarrow> min room (dec l))"

definition group_of_request :: "int option \<Rightarrow> int option \<Rightarrow> 'a lending_tables_scheme \<Rightarrow> (group_row option \<times> member_row option) res" where
  "group_of_request group_id member_id db =
     res_bind (case member_id of
         Some m \<Rightarrow> (case get_by mem_id m (db_members db) of None \<Rightarrow> Inl (ValueError ''Participante nao encontrado.'')
           | Some r \<Rightarrow> Inr (get_by grp_id (mem_group_id r) (db_groups db), Some r))
       | None \<Rightarrow> (case group_id of Some g \<Rightarrow> Inr (get_by grp_id g (db_groups db), None) | None \<Rightarrow> Inr (None, None))) (\<lambda>(group, member).
     if group_id \<noteq> None \<and> group = None then Inl (ValueError ''Grupo nao encontrado.'')
     else if (case (member, group_id) of (Some r, Some g) \<Rightarrow> mem_group_id r \<noteq> g | _ \<Rightarrow> False) then
       Inl (ValueError ''Participante nao pertence ao grupo informado.'')
     else Inr (group, member))"

definition limits_of :: "int option \<Rightarrow> int option \<Rightarrow> decimal option \<Rightarrow> 'a lending_tables_scheme \<Rightarrow> lending_limits res" where
  "limits_of group_id member_id reserve_floor db =
     res_bind (group_of_request group_id member_id db) (\<lambda>(group, member).
     let floor_amount = (case reserve_floor of Some f \<Rightarrow> f | None \<Rightarrow> (case group of None \<Rightarrow> 0 | Some g \<Rightarrow> dec (grp_min_cash_reserve g)))
     in if floor_amount < 0 then Inl (ValueError ''reserve_floor nao pode ser negativo.'')
     else let balance = cash_balance db; global_exp = exposure None db;
            member_exp = map_option (\<lambda>r. exposure (Some (mem_id r)) db) member;
            direct_room = max 0 (dsub 28 (dec balance) floor_amount);
            global_room = Option.bind group (\<lambda>g. map_option (\<lambda>l. max 0 (l - global_exp)) (grp_max_global_exposure g));
            member_room = Option.bind member_exp (\<lambda>e. Option.bind group (\<lambda>g. map_option (\<lambda>l. max 0 (l - e)) (grp_max_member_exposure g)))
          in Inr \<lparr>ll_group = group, ll_floor = floor_amount, ll_balance = balance, ll_global_exposure = global_exp,
               ll_member_exposure = member_exp, ll_global_room = global_room, ll_member_room = member_room,
               ll_immediate_room = min_opt (min_opt (min_opt direct_room global_room) member_room) (Option.bind group grp_max_loan_amount)\<rparr>)"

definition passes ::
    "(cents list \<Rightarrow> decimal) \<Rightarrow> date \<Rightarrow> scenario \<Rightarrow> lending_limits \<Rightarrow> 'a lending_tables_scheme \<Rightarrow> decimal \<Rightarrow> (bool \<times> simulation) res" where
  "passes average today sc ll db x =
     res_bind (simulate average today sc x (ll_floor ll) db) (\<lambda>data.
     Inr (sim_status data = ''PASS'' \<and>
       \<not> (case Option.bind (ll_group ll) grp_max_global_exposure of None \<Rightarrow> False | Some l \<Rightarrow> dec l < dadd 28 (dec (ll_global_exposure ll)) x), data))"

text \<open>The binary search over whole cents; \<open>try_amount\<close> may raise.\<close>

function search_cents :: "(int \<Rightarrow> (bool \<times> 'd) res) \<Rightarrow> int \<Rightarrow> int \<Rightarrow> int \<times> 'd \<Rightarrow> (int \<times> 'd) res" where
  "search_cents try_amount lo hi best =
     (if hi < lo then Inr best
      else let mid = (lo + hi) div 2
        in res_bind (try_amount mid) (\<lambda>(ok, data).
           if ok then search_cents try_amount (mid + 1) hi (mid, data) else search_cents try_amount lo (mid - 1) best))"
  by pat_completeness auto

termination search_cents
  by (relation "measure (\<lambda>(_, lo, hi, _). nat (hi - lo + 1))") auto

declare search_cents.simps [simp del]

definition upper_cents :: "decimal \<Rightarrow> lending_limits \<Rightarrow> int" where
  "upper_cents max_search ll = max 0 (round_half_even (dmul 28 (min max_search (ll_immediate_room ll)) 100))"

definition amount_of :: "int \<Rightarrow> decimal" where
  "amount_of c = ctx 28 (of_int c / 100)"

record capacity_report =
  cap_decision :: string
  cap_capacity :: decimal
  cap_monthly :: cents
  cap_immediate :: cents
  cap_bottlenecks :: "string list"
  cap_simulation :: "simulation option"

definition bottlenecks_of :: "lending_limits \<Rightarrow> cents \<Rightarrow> decimal \<Rightarrow> string list" where
  "bottlenecks_of ll monthly capacity =
     (let at_limit = (\<lambda>room. case room of None \<Rightarrow> False | Some r \<Rightarrow> dec r \<le> capacity);
          found = (if dec monthly < ll_immediate_room ll then [''PROJECTED_CASH''] else [])
            @ (if at_limit (ll_global_room ll) then [''GLOBAL_EXPOSURE''] else [])
            @ (if at_limit (ll_member_room ll) then [''MEMBER_EXPOSURE''] else [])
            @ (if at_limit (Option.bind (ll_group ll) grp_max_loan_amount) then [''MAX_LOAN_AMOUNT''] else [])
      in if found = [] then [''RESERVE''] else found)"

definition optimize_capacity ::
    "(cents list \<Rightarrow> decimal) \<Rightarrow> date \<Rightarrow> int option \<Rightarrow> int option \<Rightarrow> scenario \<Rightarrow> decimal option \<Rightarrow> decimal
      \<Rightarrow> 'a lending_tables_scheme \<Rightarrow> capacity_report res" where
  "optimize_capacity average today group_id member_id sc reserve_floor max_search db =
     res_bind (limits_of group_id member_id reserve_floor db) (\<lambda>ll.
     let hi = upper_cents max_search ll
     in res_bind (passes average today sc ll db 0) (\<lambda>(baseline_ok, best_data).
     if \<not> baseline_ok then
       Inr \<lparr>cap_decision = ''BLOCKED'', cap_capacity = 0, cap_monthly = 0, cap_immediate = cents_even (ll_immediate_room ll),
         cap_bottlenecks = [''RESERVE_BASELINE''], cap_simulation = None\<rparr>
     else res_bind (search_cents (\<lambda>c. passes average today sc ll db (amount_of c)) 0 hi (0, best_data)) (\<lambda>(best, data).
       let monthly = cents_even (amount_of best); capacity = min (ll_immediate_room ll) (dec monthly)
       in Inr \<lparr>cap_decision = (if 0 < capacity then ''ALLOW'' else ''BLOCKED''), cap_capacity = dec (cents_even capacity),
            cap_monthly = monthly, cap_immediate = cents_even (ll_immediate_room ll),
            cap_bottlenecks = bottlenecks_of ll monthly capacity, cap_simulation = Some data\<rparr>)))"

end
