(* ===== verification/Capacity_Properties.thy ===== *)
theory Capacity_Properties
  imports Lending_Capacity Foundation_Properties
begin

text \<open>
  The search for the lending capacity ends and finds the greatest amount, because lending more never leaves more cash: every
  operation of the simulation, rounding included, is monotone.
\<close>

section \<open>Lending more leaves less\<close>

lemma dadd_mono: "a \<le> a' \<Longrightarrow> b \<le> b' \<Longrightarrow> dadd 28 a b \<le> dadd 28 a' b'"
  by (simp add: dadd_def ctx_mono add_mono)

lemma dsub_mono: "a \<le> a' \<Longrightarrow> b' \<le> b \<Longrightarrow> dsub 28 a b \<le> dsub 28 a' b'"
  by (simp add: dsub_def ctx_mono diff_mono)

definition no_richer :: "simulation_state \<Rightarrow> simulation_state \<Rightarrow> bool" where
  "no_richer t s \<longleftrightarrow> ss_cash t \<le> ss_cash s \<and> ss_min_cash t \<le> ss_min_cash s"

lemma month_no_richer:
  assumes "no_richer t s" "x \<le> y"
  shows "no_richer (simulate_month sc y f r t) (simulate_month sc x f r s)"
proof -
  have "net_of_month sc y r \<le> net_of_month sc x r" unfolding net_of_month_def using assms(2) by (intro dsub_mono order_refl)
  then have "dadd 28 (ss_cash t) (net_of_month sc y r) \<le> dadd 28 (ss_cash s) (net_of_month sc x r)"
    using assms(1) by (intro dadd_mono) (simp_all add: no_richer_def)
  with assms(1) show ?thesis by (simp add: no_richer_def simulate_month_def Let_def min_le_iff_disj)
qed

lemma months_no_richer:
  assumes "no_richer t s" "x \<le> y"
  shows "no_richer (fold (simulate_month sc y f) rs t) (fold (simulate_month sc x f) rs s)"
  using assms by (induction rs arbitrary: s t) (simp_all add: month_no_richer)

text \<open>A simulation of a larger amount starts from the same projection, and passes only if that of the smaller one does.\<close>

lemma negative_input_mono: "negative_input sc x f = None \<Longrightarrow> x \<le> y \<Longrightarrow> negative_input sc y f = None"
  by (auto simp: negative_input_def split: if_splits)

lemma simulate_more:
  assumes "simulate average today sc x f db = Inr d" "x \<le> y"
  shows "\<exists>d'. simulate average today sc y f db = Inr d' \<and> (sim_status d' = ''PASS'' \<longrightarrow> sim_status d = ''PASS'')"
proof -
  from assms(1) have none: "negative_input sc x f = None" by (auto simp: simulate_def split: if_splits option.splits)
  with assms(1) obtain base where base: "build_projection average today (sc_as_of sc) (sc_horizon_months sc) (sc_scenario sc) db = Inr base"
    and ok: "1 \<le> sc_horizon_months sc \<and> sc_horizon_months sc \<le> 36" "\<not> 1 < sc_delinquency_rate sc"
    by (auto simp: simulate_def res_bind_eq_Inr split: if_splits)
  let ?start = "\<lparr>ss_cash = dec (pro_starting_cash base), ss_min_cash = dec (pro_starting_cash base), ss_capacity = [], ss_rows = []\<rparr>"
  have "no_richer (fold (simulate_month sc y f) (pro_rows base) ?start) (fold (simulate_month sc x f) (pro_rows base) ?start)"
    using assms(2) by (intro months_no_richer) (simp_all add: no_richer_def)
  then have poorer: "ss_min_cash (fold (simulate_month sc y f) (pro_rows base) ?start) \<le> ss_min_cash (fold (simulate_month sc x f) (pro_rows base) ?start)"
    by (simp add: no_richer_def)
  have status: "simulate average today sc z f db = Inr e \<Longrightarrow> sim_status e =
      (if ss_min_cash (fold (simulate_month sc z f) (pro_rows base) ?start) < f then ''BLOCKED'' else ''PASS'')"
    if "negative_input sc z f = None" for z e
    using that base ok by (auto simp: simulate_def Let_def)
  have "\<exists>e. simulate average today sc y f db = Inr e"
    using negative_input_mono [OF none assms(2)] base ok by (simp add: simulate_def Let_def)
  then obtain e where e: "simulate average today sc y f db = Inr e" ..
  from status [OF negative_input_mono [OF none assms(2)] e] status [OF none assms(1)] poorer
  have "sim_status e = ''PASS'' \<longrightarrow> sim_status d = ''PASS''" by (simp split: if_splits)
  with e show ?thesis by blast
qed

lemma passes_more:
  assumes "passes average today sc ll db x = Inr (b, d)" "x \<le> y"
  shows "\<exists>b' d'. passes average today sc ll db y = Inr (b', d') \<and> (b' \<longrightarrow> b)"
proof -
  from assms(1) obtain e where e: "simulate average today sc x (ll_floor ll) db = Inr e"
    "b \<longleftrightarrow> sim_status e = ''PASS'' \<and> \<not> (case Option.bind (ll_group ll) grp_max_global_exposure of None \<Rightarrow> False
      | Some l \<Rightarrow> dec l < dadd 28 (dec (ll_global_exposure ll)) x)" by (auto simp: passes_def res_bind_eq_Inr)
  from simulate_more [OF e(1) assms(2)] obtain e' where e': "simulate average today sc y (ll_floor ll) db = Inr e'"
    "sim_status e' = ''PASS'' \<longrightarrow> sim_status e = ''PASS''" by blast
  have "dadd 28 (dec (ll_global_exposure ll)) x \<le> dadd 28 (dec (ll_global_exposure ll)) y" using assms(2) by (intro dadd_mono) simp_all
  with e(2) e' show ?thesis by (auto simp: passes_def split: option.splits)
qed

section \<open>The search\<close>

lemma search_cents_greatest:
  assumes tried: "\<And>c. 0 \<le> c \<Longrightarrow> \<exists>d. t c = Inr (ok c, d)" and down: "\<And>c c'. 0 \<le> c \<Longrightarrow> c \<le> c' \<Longrightarrow> ok c' \<Longrightarrow> ok c"
    and "0 \<le> lo" "lo \<le> hi + 1" "hi \<le> H" "t (fst best) = Inr (True, snd best)" "fst best = max 0 (lo - 1)" "\<forall>c. hi < c \<and> c \<le> H \<longrightarrow> \<not> ok c"
  shows "\<exists>b d. search_cents t lo hi best = Inr (b, d) \<and> 0 \<le> b \<and> b \<le> max 0 H \<and> t b = Inr (True, d) \<and> (\<forall>c. b < c \<and> c \<le> H \<longrightarrow> \<not> ok c)"
  using assms(3-)
proof (induction "nat (hi - lo + 1)" arbitrary: lo hi best rule: less_induct)
  case less
  show ?case
  proof (cases "hi < lo")
    case True
    then have "hi = lo - 1" using less.prems(2) by simp
    have "search_cents t lo hi best = Inr (fst best, snd best)" using True by (simp add: search_cents.simps [of t lo hi])
    moreover have "0 \<le> fst best" "fst best \<le> max 0 H" using less.prems(3,5) \<open>hi = lo - 1\<close> by auto
    moreover have "\<forall>c. fst best < c \<and> c \<le> H \<longrightarrow> \<not> ok c" using less.prems(5,6) \<open>hi = lo - 1\<close> by auto
    ultimately show ?thesis using less.prems(4) by blast
  next
    case False
    define mid where "mid = (lo + hi) div 2"
    have mid: "lo \<le> mid" "mid \<le> hi" using False by (simp_all add: mid_def)
    obtain d where d: "t mid = Inr (ok mid, d)" using tried [of mid] less.prems(1) mid(1) by auto
    have step: "search_cents t lo hi best = (if ok mid then search_cents t (mid + 1) hi (mid, d) else search_cents t lo (mid - 1) best)"
      using False d by (simp add: search_cents.simps [of t lo hi] mid_def Let_def)
    show ?thesis
    proof (cases "ok mid")
      case True
      with less.hyps [of hi "mid + 1" "(mid, d)"] less.prems mid d show ?thesis by (simp add: step)
    next
      case False
      have "\<not> ok c" if "mid - 1 < c" "c \<le> H" for c
        using down [of mid c] False less.prems(1) mid(1) that(1) by linarith
      with less.hyps [of "mid - 1" lo best] less.prems mid False show ?thesis by (simp add: step)
    qed
  qed
qed

lemma amount_of_cents: "\<bar>c\<bar> < 10 ^ 28 \<Longrightarrow> amount_of c = dec c"
  using ctx_cents_exact [of c 28] by (simp add: amount_of_def dec_def)

lemma amount_of_mono: "c \<le> c' \<Longrightarrow> amount_of c \<le> amount_of c'"
  by (simp add: amount_of_def ctx_mono divide_right_mono)

lemma upper_cents_bound:
  assumes "max_search \<le> 10 ^ 20"
  shows "0 \<le> upper_cents max_search ll \<and> upper_cents max_search ll \<le> 10 ^ 22"
proof -
  have "min max_search (ll_immediate_room ll) * 100 \<le> of_int (10 ^ 22)" using assms by simp
  then have "dmul 28 (min max_search (ll_immediate_room ll)) 100 \<le> ctx 28 (of_int (10 ^ 22))"
    unfolding dmul_def by (intro ctx_mono) simp_all
  also have "\<dots> = of_int (10 ^ 22)" by (rule ctx_of_int_exact) simp
  finally have "round_half_even (dmul 28 (min max_search (ll_immediate_room ll)) 100) \<le> round_half_even (of_int (10 ^ 22))"
    by (rule round_half_even_mono)
  then show ?thesis by (simp only: upper_cents_def round_half_even_of_int) simp
qed

definition accepted :: "(cents list \<Rightarrow> decimal) \<Rightarrow> date \<Rightarrow> scenario \<Rightarrow> lending_limits \<Rightarrow> 'a lending_tables_scheme \<Rightarrow> cents \<Rightarrow> bool" where
  "accepted average today sc ll db c =
     (case passes average today sc ll db (dec c) of Inl _ \<Rightarrow> False | Inr (ok, _) \<Rightarrow> ok)"

text \<open>C38. The search for the lending capacity ends, without an error, whenever the limits of the request are found and the
  scenario without new loans passes (for a search limit up to \<open>10^20\<close>, the code's being \<open>10^7\<close>); the amount it reports lies within the room and
  passes the simulation and the exposure limit, and it is the greatest: no larger amount of whole cents within the room
  passes.\<close>

theorem capacity_search_greatest:
  assumes limits: "limits_of group_id member_id reserve_floor db = Inr ll"
    and baseline: "passes average today sc ll db 0 = Inr (True, d0)" and max: "max_search \<le> 10 ^ 20"
  shows "\<exists>r. optimize_capacity average today group_id member_id sc reserve_floor max_search db = Inr r
     \<and> 0 \<le> cap_monthly r \<and> cap_monthly r \<le> upper_cents max_search ll \<and> accepted average today sc ll db (cap_monthly r)
     \<and> (\<forall>c. cap_monthly r < c \<and> c \<le> upper_cents max_search ll \<longrightarrow> \<not> accepted average today sc ll db c)"
proof -
  define hi where "hi = upper_cents max_search ll"
  define t where "t = (\<lambda>c. passes average today sc ll db (amount_of c))"
  define ok where "ok c = (case t c of Inl _ \<Rightarrow> False | Inr (b, _) \<Rightarrow> b)" for c
  have zero: "amount_of 0 = 0" by (simp add: amount_of_def)
  have hi: "0 \<le> hi" "hi \<le> 10 ^ 22" using upper_cents_bound [OF max] by (simp_all add: hi_def)
  have tried: "\<exists>d. t c = Inr (ok c, d)" if "0 \<le> c" for c
  proof -
    have "0 \<le> amount_of c" using amount_of_mono [OF that] by (simp add: zero)
    from passes_more [OF baseline this] obtain b d where "t c = Inr (b, d)" by (auto simp: t_def)
    then show ?thesis by (simp add: ok_def)
  qed
  have down: "ok c" if "0 \<le> c" "c \<le> c'" "ok c'" for c c'
  proof -
    from tried [OF that(1)] obtain d where "t c = Inr (ok c, d)" ..
    with passes_more [of average today sc ll db "amount_of c" "ok c" d "amount_of c'"] amount_of_mono [OF that(2)] that(3)
    show ?thesis by (auto simp: t_def ok_def)
  qed
  have start: "t (fst (0, d0)) = Inr (True, snd (0, d0))" using baseline by (simp add: t_def zero)
  have "\<exists>b d. search_cents t 0 hi (0, d0) = Inr (b, d) \<and> 0 \<le> b \<and> b \<le> max 0 hi \<and> t b = Inr (True, d) \<and> (\<forall>c. b < c \<and> c \<le> hi \<longrightarrow> \<not> ok c)"
  proof (rule search_cents_greatest [where ok = ok])
    show "ok c" if "0 \<le> c" "c \<le> c'" "ok c'" for c c' by (rule down [OF that])
  qed (use tried start hi(1) in auto)
  then obtain b d where b: "search_cents t 0 hi (0, d0) = Inr (b, d)" "0 \<le> b" "b \<le> hi" "t b = Inr (True, d)"
    "\<forall>c. b < c \<and> c \<le> hi \<longrightarrow> \<not> ok c" using hi(1) by auto
  have acc: "accepted average today sc ll db c = ok c" if "0 \<le> c" "c \<le> hi" for c
    using that hi(2) by (simp add: accepted_def ok_def t_def amount_of_cents)
  have "optimize_capacity average today group_id member_id sc reserve_floor max_search db = Inr r \<Longrightarrow> cap_monthly r = b" for r
    using limits baseline b(1,2,3) hi(2) by (auto simp: optimize_capacity_def Let_def t_def hi_def amount_of_cents)
  moreover have "\<exists>r. optimize_capacity average today group_id member_id sc reserve_floor max_search db = Inr r"
    using limits baseline b(1) by (simp add: optimize_capacity_def Let_def t_def hi_def)
  moreover have "accepted average today sc ll db b" using b(2-4) acc [of b] by (simp add: ok_def)
  moreover have "\<forall>c. b < c \<and> c \<le> hi \<longrightarrow> \<not> accepted average today sc ll db c" using b(2,5) acc by auto
  ultimately show ?thesis using b(2,3) unfolding hi_def by blast
qed

text \<open>A group with 5.00 in cash and a reserve of 2.00 can lend 3.00.\<close>

definition piggy_db :: lending_tables where
  "piggy_db = database.extend ((club_db [] [])\<lparr>db_ledger := [demo_ledger_row\<lparr>led_direction := ''CREDIT'', led_amount := 500\<rparr>], db_members := []\<rparr>)
     (lending_tables.fields [\<lparr>grp_id = 1, grp_monthly_amount = 15000, grp_active = True, grp_min_cash_reserve = 200, grp_max_member_exposure = None,
        grp_max_global_exposure = None, grp_max_exposure_ratio = None, grp_max_loan_amount = None\<rparr>] [])"

definition plain :: scenario where
  "plain = \<lparr>sc_as_of = None, sc_horizon_months = 1, sc_scenario = ''base'', sc_contribution_factor = 1, sc_delinquency_rate = 0, sc_extra_expenses = 0\<rparr>"

definition piggy_limits :: lending_limits where
  "piggy_limits = \<lparr>ll_group = Some \<lparr>grp_id = 1, grp_monthly_amount = 15000, grp_active = True, grp_min_cash_reserve = 200, grp_max_member_exposure = None,
        grp_max_global_exposure = None, grp_max_exposure_ratio = None, grp_max_loan_amount = None\<rparr>,
     ll_floor = 2, ll_balance = 500, ll_global_exposure = 0, ll_member_exposure = None, ll_global_room = None, ll_member_room = None,
     ll_immediate_room = 3\<rparr>"

lemma piggy_limits: "limits_of (Some 1) None None piggy_db = Inr piggy_limits"
  by code_simp

lemma piggy_projection:
  "case build_projection (\<lambda>_. 0) 739960 None 1 ''base'' piggy_db of Inl _ \<Rightarrow> False
     | Inr b \<Rightarrow> pro_starting_cash b = 500 \<and> map (\<lambda>r. (pj_contributions r, pj_receipts r, pj_expenses r)) (pro_rows b) = [(0, 0, 0)]"
  by code_simp

text \<open>Nothing comes in or goes out in the month, so what is lent is what is missing.\<close>

lemma piggy_passes:
  assumes "0 \<le> c" "c \<le> 3"
  shows "\<exists>d. passes (\<lambda>_. 0) 739960 plain piggy_limits piggy_db (of_int c) = Inr (True, d)"
proof -
  obtain b where b: "build_projection (\<lambda>_. 0) 739960 None 1 ''base'' piggy_db = Inr b"
    using piggy_projection by (cases "build_projection (\<lambda>_. 0) 739960 None 1 ''base'' piggy_db") simp_all
  with piggy_projection have start: "pro_starting_cash b = 500"
    and row: "map (\<lambda>r. (pj_contributions r, pj_receipts r, pj_expenses r)) (pro_rows b) = [(0, 0, 0)]" by simp_all
  from row obtain r where r: "pro_rows b = [r]" "pj_contributions r = 0" "pj_receipts r = 0" "pj_expenses r = 0" by auto
  have exact: "ctx 28 (of_int n) = of_int n" if "\<bar>n\<bar> < 100" for n
    using that by (intro ctx_of_int_exact) simp
  have "net_of_month plain (of_int c) r = - of_int c"
    using exact [of "- c"] assms by (simp add: net_of_month_def plain_def r dec_def dadd_def dsub_def dmul_def)
  moreover have "dadd 28 5 (- of_int c) = 5 - of_int c"
    using exact [of "5 - c"] assms by (simp add: dadd_def)
  moreover have sel: "sc_as_of plain = None" "sc_horizon_months plain = 1" "sc_scenario plain = ''base''" "sc_contribution_factor plain = 1"
    "sc_delinquency_rate plain = 0" "sc_extra_expenses plain = 0" by (simp_all add: plain_def)
  moreover have "(2 :: decimal) \<le> 5 - of_int c" using assms(2) by simp
  ultimately show ?thesis using assms
    by (simp add: passes_def simulate_def sel negative_input_def b start r simulate_month_def Let_def
        piggy_limits_def dec_def)
qed

theorem capacity_search_greatest_witness:
  "\<exists>r. optimize_capacity (\<lambda>_. 0) 739960 (Some 1) None plain None 10000000 piggy_db = Inr r \<and> cap_monthly r = 300"
proof -
  obtain d where d: "passes (\<lambda>_. 0) 739960 plain piggy_limits piggy_db 0 = Inr (True, d)" using piggy_passes [of 0] by auto
  have up: "upper_cents 10000000 piggy_limits = 300" by code_simp
  have top: "accepted (\<lambda>_. 0) 739960 plain piggy_limits piggy_db 300"
    using piggy_passes [of 3] by (auto simp: accepted_def dec_def)
  have "(10000000 :: decimal) \<le> 10 ^ 20" by simp
  from capacity_search_greatest [OF piggy_limits d this] obtain r where
    r: "optimize_capacity (\<lambda>_. 0) 739960 (Some 1) None plain None 10000000 piggy_db = Inr r" "cap_monthly r \<le> 300"
      "\<forall>c. cap_monthly r < c \<and> c \<le> 300 \<longrightarrow> \<not> accepted (\<lambda>_. 0) 739960 plain piggy_limits piggy_db c"
    unfolding up by blast
  have "cap_monthly r = 300" using r(2) r(3) [rule_format, of 300] top by linarith
  with r(1) show ?thesis by blast
qed

end
