(* ===== verification/Spec2Isabelle.thy ===== *)
theory Spec2Isabelle
  imports Closing_Properties Amortization Scheduler_Safety Ledger_Properties Member_Financial
    Late_Charge Payment_Event_Periods Obligation_Properties Loan_Payoff Calendar Loan_Engine_Properties
    Loan_Payment_Properties Agreement_Properties Settlement_Properties Reversal_Properties
    Membership_Refinement Closing_Evidence_Properties Capacity_Properties
begin

text \<open>
  The financial core of the backend (\<open>src/backend/app\<close>) of a savings group: members contribute monthly to
  a pool, borrow from it, and share its result at the end of a cycle. Money moves through a hash-chained ledger
  of the pool and an account per member; PIX payments confirmed by a provider are applied to a
  contribution, a loan installment or an agreement installment, and can be reversed by an administrator.

  \<^bold>\<open>How the parts interact.\<close> A confirmed payment enters by \<open>settle_confirmed_pix_payment\<close>, which locks
  the rows, lets the loan engine or the obligation runtime split the amount, posts to the ledger and the member's
  account, and writes a settlement row with a receipt over the ledger entries of the payment. A reversal
  checks that receipt and that the rows are still as the settlement left them, posts the compensating entries and
  restores the obligation. The scheduler claims daily runs under a lease; the runs accrue late interest and
  penalties. The cycle closing reads all this as typed evidence and distributes the result.

  \<^bold>\<open>Conventions.\<close> One record per table (\<open>Models\<close>, from \<open>models/core.py\<close>), with the columns under a prefix; a
  database is the record of its tables, in three layers: \<open>books\<close> (ledger, accounts, entries, members),
  \<open>loan_tables\<close> and \<open>database\<close>. A table is the list of its rows in insertion order, \<open>next_id\<close> its
  sequence. An operation takes the database and returns it changed, or an exception (\<open>'a res = exn + 'a\<close>),
  whose text is the code's without accents. Row locks have no counterpart: operations are sequential and an
  interleaving is a sequence of committed steps. Amounts that the code has quantized are integral cents; arithmetic
  that the code does on unquantized \<open>Decimal\<close>s is done on rationals rounded to the precision of the decimal context
  after every operation. A \<open>date\<close> is its ordinal, a timestamp an instant or, when stored without zone, a naive
  reading. SHA-256 of a canonical JSON text is a parameter over the document, a text column holding a document is
  the document, and the clock is an argument.

  \<^bold>\<open>Theories.\<close>
  \<^item> \<open>Prelude\<close>, \<open>Decimal_Arith\<close>, \<open>Civil_Time\<close>, \<open>Calendar\<close>, \<open>Py_Strings\<close>, \<open>Json\<close>: results, tables, decimals, dates,
    strings and documents, as Python has them.
  \<^item> \<open>Models\<close>: the rows and the database.
  \<^item> \<open>Ledger\<close>, \<open>Ledger_Properties\<close> (\<open>services/ledger.py\<close>): postings extend a chain that verifies, a verified chain cannot
    be altered without a hash collision, a reversal cancels its original once.
  \<^item> \<open>Member_Financial\<close> (\<open>services/member_financial.py\<close>): accounts, entries, and the position computed from them.
  \<^item> \<open>Amortization\<close> (\<open>core/loan_rules.py\<close>, \<open>services/loan_amortization.py\<close>, \<open>services/finance.py\<close>): both schedules; the
    Price schedule closes at zero.
  \<^item> \<open>Late_Charge\<close> (\<open>services/late_charge_v1.py\<close>, \<open>services/contribution_charge_v1.py\<close>): penalties and daily interest.
  \<^item> \<open>Payment_Event_Periods\<close> (\<open>services/payment_event_periods.py\<close>): the date on which a settlement or reversal counts.
  \<^item> \<open>Loan_Obligations\<close>, \<open>Loan_Payoff\<close>, \<open>Obligation_Properties\<close> (\<open>services/loan_obligation_runtime.py\<close>): late-charge events
    and what an installment owes; accruals of several runs add up to those of one run.
  \<^item> \<open>Loan_Engine\<close>, \<open>Loan_Engine_Properties\<close> (\<open>services/loan_engine_v17.py\<close>): splitting a payment, daily penalties, release.
  \<^item> \<open>Loan_Payments\<close>, \<open>Loan_Payment_Properties\<close> (\<open>services/loan_payments_v17.py\<close>): confirmed payments, settlement and
    renegotiation with own balance.
  \<^item> \<open>Agreements\<close>, \<open>Agreement_Properties\<close> (\<open>services/agreements_v039.py\<close>): an agreement replaces a loan's debt, once.
  \<^item> \<open>Payment_Settlement\<close>, \<open>Settlement_Properties\<close> (\<open>services/payment_settlement.py\<close>): a payment is settled once and the books
    grow by exactly what it applied.
  \<^item> \<open>Payment_Reversal\<close>, \<open>Reversal_Properties\<close> (\<open>services/payment_reversal.py\<close>): a settlement is reversed once, its entries are
    compensated one by one, and settling then reversing is a round trip for the pool, the contribution and the
    agreement.
  \<^item> \<open>Scheduler_Runs\<close>, \<open>Scheduler_Safety\<close> (\<open>services/scheduler_runs.py\<close>): leases as a step relation; exclusive ownership, fencing,
    finality of success.
  \<^item> \<open>Cycle_Foundation\<close>, \<open>Cycle_Participation\<close>, \<open>Participation_Properties\<close>, \<open>Foundation_Properties\<close>
    (\<open>services/cycle_foundation.py\<close>, \<open>services/cycle_participation.py\<close>): cycles, quotas, the contributions an entry obliges to,
    the block after three overdue months and the voluntary exit, as a step relation over the operations of these two services; the
    tables stay well formed and none of these operations touches what is closed.
  \<^item> \<open>Membership_Refinement\<close>: a specification of membership, units sold and capacity, and the proof that the steps refine it.
  \<^item> \<open>Payment_Financial_Events\<close>, \<open>Event_Stream_Properties\<close> (\<open>services/payment_financial_events.py\<close>): the signed events of settlements
    and reversals; over all times a settlement reversed once nets to zero.
  \<^item> \<open>Cycle_Closing\<close>, \<open>Allocation\<close>, \<open>Closing_Properties\<close> (\<open>services/cycle_closing.py\<close>): the result of a cycle, its fee and its
    largest-remainder distribution; nothing is lost and the order of the evidence does not matter.
  \<^item> \<open>Closing_Evidence\<close>, \<open>Closing_Evidence_Properties\<close> (the rest of \<open>services/cycle_closing.py\<close>): the evidence read from the database.
    The obligations it holds are accepted and counted by the calculation; a second payment of a paid contribution keeps its cycle
    from closing.

  \<^item> \<open>Lending_Capacity\<close>, \<open>Capacity_Properties\<close> (\<open>services/risk_v036.py\<close>, \<open>services/financial_projection_v051.py\<close>,
    \<open>services/scenario_simulator_v052.py\<close>, \<open>services/capacity_optimizer_v053.py\<close>): cash, exposure, the projection of the cash and the
    search for the greatest amount that can be lent, which ends and finds it.

  \<^bold>\<open>Bounds.\<close> No loop needs fuel: those of the program are over lists or over ranges of dates and are structural
  recursions here, the recursion over documents has a size measure, and the binary search for the lending capacity the measure of
  its interval. The allocation lemmas ask for products below \<open>10^59\<close> (\<open>10^57\<close> where remainders are compared), which the
  \<open>Numeric(14, 2)\<close> columns guarantee, and the capacity search for an upper bound of at most \<open>10^20\<close>, where the code's is \<open>10^7\<close>.

  \<^bold>\<open>Not modelled.\<close> The HTTP routers, schemas and authentication, the worker's task loop, the providers (Mercado Pago,
  notification transports), backups, migrations and seeds only move data in and out of the services. The
  verification of temporal receipts is a parameter of the models that ask for it. The governance,
  workflow, dashboard and report services store or summarize rows without affecting money. Of what the modelled services rely on in
  the database: the unique keys of the provider's identifiers of a payment are not checked when a settlement writes them, a row
  handed to \<open>lock_loan\<close> has no unflushed change, and a rollback after a lost race leaves the database as it was.
\<close>

end
